(* ===== verification/Prelude.thy ===== *)
theory Prelude
  imports Complex_Main "HOL-Library.AList"
begin

text \<open>
  Shared vocabulary of the development: the Python exceptions the modelled code raises as
  values, the string methods it uses (\<open>strip\<close>, \<open>startswith\<close>, decimal
  formatting) and the generic list facts the component theories share.  A Python
  \<open>str\<close> is a HOL \<open>string\<close> whose characters are the code points below 256; a Python
  \<open>int\<close> is an \<open>int\<close>; a \<open>float\<close> of seconds is a \<open>real\<close> (rounding and NaN
  are not modelled).
\<close>

section \<open>Exceptions as values\<close>

datatype py_exn =
    ValueError string
  | TypeError string
  | RuntimeError string
  | OSError
  | FileNotFoundError
  | HTTPException int string
  | OtherError string

type_synonym 'a result = "py_exn + 'a"

section \<open>Strings\<close>

text \<open>The characters that \<open>str.strip\<close> removes, among the code points below 256.\<close>

definition py_space :: "char \<Rightarrow> bool" where
  "py_space c =
     (let n = (of_char c :: nat)
      in (9 \<le> n \<and> n \<le> 13) \<or> (28 \<le> n \<and> n \<le> 32) \<or> n = 133 \<or> n = 160)"

definition py_lstrip :: "string \<Rightarrow> string" where
  "py_lstrip s = dropWhile py_space s"

definition py_strip :: "string \<Rightarrow> string" where
  "py_strip s = rev (py_lstrip (rev (py_lstrip s)))"

definition py_startswith :: "string \<Rightarrow> string \<Rightarrow> bool" where
  "py_startswith s p = (take (length p) s = p)"

text \<open>\<open>str.lower\<close> on the code points below 256.\<close>

definition py_lower :: "string \<Rightarrow> string" where
  "py_lower s = map (\<lambda>c. let n = (of_char c :: nat)
     in if (65 \<le> n \<and> n \<le> 90) \<or> (192 \<le> n \<and> n \<le> 222 \<and> n \<noteq> 215) then char_of (n + 32) else c) s"

definition digit_char :: "nat \<Rightarrow> char" where
  "digit_char d = char_of (48 + d)"

text \<open>\<open>str(n)\<close> of a natural number, most significant digit first.\<close>

fun nat_str :: "nat \<Rightarrow> string" where
  "nat_str n = (if n < 10 then [digit_char n] else nat_str (n div 10) @ [digit_char (n mod 10)])"

declare nat_str.simps [simp del]

definition int_str :: "int \<Rightarrow> string" where
  "int_str i = (if i < 0 then ''-'' @ nat_str (nat (- i)) else nat_str (nat i))"

text \<open>\<open>f"{n:06d}"\<close>: decimal digits padded with zeros, sign included, to six characters.\<close>

definition int_str06 :: "int \<Rightarrow> string" where
  "int_str06 i =
     (if i < 0
      then ''-'' @ replicate (5 - length (nat_str (nat (- i)))) (CHR ''0'') @ nat_str (nat (- i))
      else replicate (6 - length (nat_str (nat i))) (CHR ''0'') @ nat_str (nat i))"

text \<open>\<open>str.split()\<close>: the maximal runs of characters that are not blank.\<close>

function py_words :: "string \<Rightarrow> string list" where
  "py_words s =
     (case py_lstrip s of
        [] \<Rightarrow> []
      | c # cs \<Rightarrow> takeWhile (\<lambda>x. \<not> py_space x) (c # cs) # py_words (dropWhile (\<lambda>x. \<not> py_space x) (c # cs)))"
  by pat_completeness auto

text \<open>\<open>int(s)\<close>, with \<open>None\<close> for \<open>ValueError\<close>: blanks around, a sign, and decimal digits with
  single underscores between them.\<close>

definition digit_value :: "char \<Rightarrow> int option" where
  "digit_value c = (let n = (of_char c :: nat) in if 48 \<le> n \<and> n \<le> 57 then Some (int n - 48) else None)"

fun py_digits :: "int \<Rightarrow> bool \<Rightarrow> string \<Rightarrow> int option" where
  "py_digits acc seen [] = (if seen then Some acc else None)"
| "py_digits acc seen (c # cs) =
     (case digit_value c of
        Some d \<Rightarrow> py_digits (acc * 10 + d) True cs
      | None \<Rightarrow> if c = CHR ''_'' \<and> seen then py_digits acc False cs else None)"

definition py_int :: "string \<Rightarrow> int option" where
  "py_int s =
     (case py_strip s of
        [] \<Rightarrow> None
      | c # cs \<Rightarrow> if c = CHR ''-'' then map_option uminus (py_digits 0 False cs)
                  else if c = CHR ''+'' then py_digits 0 False cs
                  else py_digits 0 False (c # cs))"

fun py_join :: "string \<Rightarrow> string list \<Rightarrow> string" where
  "py_join sep [] = []"
| "py_join sep [x] = x"
| "py_join sep (x # y # ys) = x @ sep @ py_join sep (y # ys)"

section \<open>JSON values\<close>

text \<open>What \<open>json.loads\<close> returns; a dictionary is the list of its items, the keys distinct.\<close>

datatype json = JNull | JBool bool | JInt int | JFloat real | JStr string | JList "json list" | JDict "(string \<times> json) list"

definition json_get :: "string \<Rightarrow> (string \<times> json) list \<Rightarrow> json option" where
  "json_get k d = (case map_of d k of None \<Rightarrow> None | Some JNull \<Rightarrow> None | Some v \<Rightarrow> Some v)"

section \<open>Lists\<close>

text \<open>
  The loop \<open>seen = set(); for x in xs: if f(x) in seen: continue; seen.add(f(x));
  out.append(x)\<close>, which several components write out.
\<close>

fun dedupe_by :: "('a \<Rightarrow> 'k) \<Rightarrow> 'k list \<Rightarrow> 'a list \<Rightarrow> 'a list" where
  "dedupe_by f seen [] = []"
| "dedupe_by f seen (x # xs) =
     (if f x \<in> set seen then dedupe_by f seen xs else x # dedupe_by f (f x # seen) xs)"

section \<open>Lemmas\<close>

subsection \<open>Results\<close>

text \<open>Guards that raise, and calls whose exceptions pass through, read from the result backwards.\<close>

named_theorems result_rules

lemma guard_Inr [result_rules]: "(if b then Inl x else r) = Inr y \<longleftrightarrow> \<not> b \<and> r = Inr y"
  by simp

lemma bind_Inr [result_rules]:
  "(case r of Inl x \<Rightarrow> Inl x | Inr u \<Rightarrow> f u) = Inr y \<longleftrightarrow> (\<exists>u. r = Inr u \<and> f u = Inr y)"
  by (cases r) simp_all

subsection \<open>Strings and lists\<close>

termination py_words
proof (relation "measure length")
  show "wf (measure length :: (string \<times> string) set)" by simp
  fix s c cs
  assume l: "py_lstrip s = c # cs"
  have "\<not> py_space c"
    using l by (induction s) (auto simp: py_lstrip_def split: if_splits)
  then have "length (dropWhile (\<lambda>x. \<not> py_space x) (c # cs)) \<le> length cs"
    by (simp add: length_dropWhile_le)
  also have "length cs < length s"
    using l length_dropWhile_le [of py_space s] by (simp add: py_lstrip_def)
  finally show "(dropWhile (\<lambda>x. \<not> py_space x) (c # cs), s) \<in> measure length" by simp
qed

declare py_words.simps [simp del]

lemma dropWhile_idem: "dropWhile P (dropWhile P xs) = dropWhile P xs"
  by (induction xs) auto

lemma py_lstrip_append_last:
  "\<not> py_space c \<Longrightarrow> py_lstrip (s @ [c]) = py_lstrip s @ [c]"
  by (induction s) (auto simp: py_lstrip_def)

lemma py_strip_Nil [simp]: "py_strip [] = []"
  by (simp add: py_strip_def py_lstrip_def)

lemma py_lstrip_hd: "py_lstrip s = c # cs \<Longrightarrow> \<not> py_space c"
  by (induction s) (auto simp: py_lstrip_def split: if_splits)

lemma py_lstrip_of_nonspace: "\<not> py_space c \<Longrightarrow> py_lstrip (c # s) = c # s"
  by (simp add: py_lstrip_def)

lemma py_lstrip_suffix: "\<exists>ws. s = ws @ py_lstrip s \<and> (\<forall>c \<in> set ws. py_space c)"
proof -
  have "s = takeWhile py_space s @ py_lstrip s"
    by (simp add: py_lstrip_def)
  moreover have "\<forall>c \<in> set (takeWhile py_space s). py_space c"
    by (meson set_takeWhileD)
  ultimately show ?thesis by blast
qed

lemma py_lstrip_idem [simp]: "py_lstrip (py_lstrip s) = py_lstrip s"
  by (simp add: py_lstrip_def dropWhile_idem)

lemma py_lstrip_prefix_closed:
  assumes "py_lstrip s = s" and "s = t @ u"
  shows "py_lstrip t = t"
  using assms by (cases t) (auto simp: py_lstrip_def split: if_splits dest: dropWhile_eq_Cons_conv [THEN iffD1])

lemma py_strip_idem [simp]: "py_strip (py_strip s) = py_strip s"
proof -
  obtain ws where ws: "rev (py_lstrip s) = ws @ py_lstrip (rev (py_lstrip s))"
    using py_lstrip_suffix by blast
  let ?t = "py_lstrip (rev (py_lstrip s))"
  have "py_lstrip s = rev ?t @ rev ws"
    using ws by (metis rev_append rev_rev_ident)
  then have "py_lstrip (rev ?t) = rev ?t"
    by (rule py_lstrip_prefix_closed [rotated]) simp
  then show ?thesis by (simp add: py_strip_def)
qed

lemma py_startswith_append [simp]: "py_startswith (p @ s) p"
  by (simp add: py_startswith_def)

lemma py_startswith_iff: "py_startswith s p \<longleftrightarrow> (\<exists>t. s = p @ t)"
  unfolding py_startswith_def by (metis append_eq_conv_conj append_take_drop_id)

text \<open>A string that starts and ends with a non-blank is its own \<open>strip\<close>.\<close>

lemma py_strip_hd_last:
  assumes "s \<noteq> []" and "\<not> py_space (hd s)" and "\<not> py_space (last s)"
  shows "py_strip s = s"
proof -
  have "py_lstrip s = s"
    using assms by (cases s) (auto simp: py_lstrip_def)
  moreover have "py_lstrip (rev s) = rev s"
    using assms by (cases s rule: rev_cases) (auto simp: py_lstrip_def)
  ultimately show ?thesis by (simp add: py_strip_def)
qed

lemma py_strip_last: "py_strip s = c # cs \<Longrightarrow> \<not> py_space (last (c # cs))"
proof -
  assume s: "py_strip s = c # cs"
  then have "py_lstrip (rev (py_lstrip s)) = rev (c # cs)"
    unfolding py_strip_def by (metis rev_rev_ident)
  moreover have "rev (c # cs) = last (c # cs) # rev (butlast (c # cs))"
    by (metis append_butlast_last_id list.distinct(1) rev.simps(2) rev_append rev_singleton_conv append_Cons append_Nil)
  ultimately show ?thesis using py_lstrip_hd by metis
qed

lemma digit_char_inj: "a < 10 \<Longrightarrow> b < 10 \<Longrightarrow> digit_char a = digit_char b \<Longrightarrow> a = b"
proof -
  assume "a < 10" "b < 10" "digit_char a = digit_char b"
  then have "(of_char (char_of (48 + a) :: char) :: nat) = of_char (char_of (48 + b) :: char)"
    by (simp add: digit_char_def)
  then show ?thesis using \<open>a < 10\<close> \<open>b < 10\<close> by simp
qed

lemma nat_str_nonempty [simp]: "nat_str n \<noteq> []"
  by (subst nat_str.simps) simp

lemma int_str_nonempty [simp]: "int_str n \<noteq> []"
  by (simp add: int_str_def)

lemma nat_str_inj: "nat_str m = nat_str n \<Longrightarrow> m = n"
proof (induction m arbitrary: n rule: nat_str.induct)
  case (1 m)
  show ?case
  proof (cases "m < 10 \<or> n < 10")
    case True
    with "1.prems" show ?thesis
      by (subst (asm) nat_str.simps, subst (asm) (2) nat_str.simps)
        (auto simp: append_eq_Cons_conv Cons_eq_append_conv digit_char_inj split: if_splits)
  next
    case False
    with "1.prems" have "nat_str (m div 10) = nat_str (n div 10)"
      and "digit_char (m mod 10) = digit_char (n mod 10)"
      by (simp_all add: nat_str.simps [of m] nat_str.simps [of n])
    with False "1.IH" have "m div 10 = n div 10" and "m mod 10 = n mod 10"
      by (auto dest: digit_char_inj [rotated 2])
    then show ?thesis by (metis div_mult_mod_eq)
  qed
qed

lemma nat_str_digits: "c \<in> set (nat_str n) \<Longrightarrow> 48 \<le> (of_char c :: nat) \<and> (of_char c :: nat) \<le> 57"
proof (induction n rule: nat_str.induct)
  case (1 n)
  show ?case
  proof (cases "n < 10")
    case True
    with "1.prems" show ?thesis by (simp add: nat_str.simps [of n] digit_char_def)
  next
    case False
    have "n mod 10 < 10" by simp
    then have d: "48 \<le> (of_char (digit_char (n mod 10)) :: nat) \<and> (of_char (digit_char (n mod 10)) :: nat) \<le> 57"
      by (simp add: digit_char_def)
    from False "1.prems" have "c \<in> set (nat_str (n div 10)) \<or> c = digit_char (n mod 10)"
      by (auto simp: nat_str.simps [of n])
    with False "1.IH" d show ?thesis by auto
  qed
qed

text \<open>Printing an integer and reading it back.\<close>

lemma digit_value_digit_char: "d < 10 \<Longrightarrow> digit_value (digit_char d) = Some (int d)"
  by (simp add: digit_value_def digit_char_def)

lemma py_digits_append:
  "py_digits acc seen xs = Some v \<Longrightarrow> py_digits acc seen (xs @ ys) = py_digits v True ys"
proof (induction xs arbitrary: acc seen)
  case Nil
  then show ?case by (auto split: if_splits)
next
  case (Cons c cs)
  then show ?case by (auto split: option.splits if_splits)
qed

lemma py_digits_nat_str: "py_digits 0 False (nat_str n) = Some (int n)"
proof (induction n rule: nat_str.induct)
  case (1 n)
  show ?case
  proof (cases "n < 10")
    case True
    then show ?thesis by (simp add: nat_str.simps [of n] digit_value_digit_char)
  next
    case False
    have "int (n div 10) * 10 + int (n mod 10) = int n" by presburger
    with False "1.IH" show ?thesis
      by (simp add: nat_str.simps [of n] py_digits_append digit_value_digit_char)
  qed
qed

lemma py_int_int_str: "py_int (int_str i) = Some i"
proof -
  have digit: "\<not> py_space c \<and> c \<noteq> CHR ''-'' \<and> c \<noteq> CHR ''+''" if "c \<in> set (nat_str n)" for c n
    using nat_str_digits [OF that] by (auto simp: py_space_def Let_def)
  have strip: "py_strip (int_str i) = int_str i"
  proof (rule py_strip_hd_last)
    have "\<not> py_space (CHR ''-'')" by (simp add: py_space_def)
    then show "\<not> py_space (hd (int_str i))" "\<not> py_space (last (int_str i))"
      using digit [OF hd_in_set [OF nat_str_nonempty]] digit [OF last_in_set [OF nat_str_nonempty]]
      by (simp_all add: int_str_def)
  qed (simp add: int_str_def)
  show ?thesis
  proof (cases "i < 0")
    case True
    then show ?thesis
      unfolding py_int_def strip by (simp add: int_str_def py_digits_nat_str)
  next
    case False
    obtain c cs where n: "nat_str (nat i) = c # cs" by (cases "nat_str (nat i)") auto
    have "py_digits 0 False (c # cs) = Some (int (nat i))" by (simp only: py_digits_nat_str flip: n)
    with False n digit [of c "nat i"] show ?thesis
      unfolding py_int_def strip by (simp add: int_str_def del: py_digits.simps)
  qed
qed

lemma int_str_inj: "0 \<le> i \<Longrightarrow> 0 \<le> j \<Longrightarrow> int_str i = int_str j \<Longrightarrow> i = j"
  by (auto simp: int_str_def dest: nat_str_inj)

lemma set_dedupe_by: "f ` set (dedupe_by f seen xs) = f ` set xs - set seen"
  by (induction xs arbitrary: seen) auto

lemma dedupe_by_subset: "set (dedupe_by f seen xs) \<subseteq> set xs"
  by (induction xs arbitrary: seen) (auto simp: subset_iff)

lemma distinct_dedupe_by: "distinct (map f (dedupe_by f seen xs))"
proof (induction xs arbitrary: seen)
  case Nil
  then show ?case by simp
next
  case (Cons x xs)
  have "f x \<notin> f ` set (dedupe_by f (f x # seen) xs)"
    by (simp add: set_dedupe_by)
  with Cons show ?case by simp
qed

lemma dedupe_by_fixed:
  "distinct (map f xs) \<Longrightarrow> f ` set xs \<inter> set seen = {} \<Longrightarrow> dedupe_by f seen xs = xs"
  by (induction xs arbitrary: seen) auto

lemma those_map_Some: "those xs = Some ys \<longleftrightarrow> xs = map Some ys"
  by (induction xs arbitrary: ys) (auto simp: Cons_eq_map_conv split: option.splits)

lemma sort_int_set [simp]: "set (sort (xs :: int list)) = set xs"
  by simp

lemma distinct_removeAll_length:
  "distinct xs \<Longrightarrow> x \<in> set xs \<Longrightarrow> Suc (length (removeAll x xs)) = length xs"
  by (induction xs) auto

subsection \<open>Dictionaries\<close>

lemma update_same: "map_of al k = Some v \<Longrightarrow> AList.update k v al = al"
  by (induction al) (auto split: if_splits)

lemma json_get_update: "v \<noteq> JNull \<Longrightarrow> json_get k (AList.update k' v d) = (if k = k' then Some v else json_get k d)"
  by (simp add: json_get_def update_conv' split: json.split)

lemma map_of_json_get: "json_get k d = Some v \<Longrightarrow> map_of d k = Some v"
  by (auto simp: json_get_def split: option.splits json.splits)

end
