(* ===== verification/TtlRegistry.thy ===== *)
theory TtlRegistry
  imports Prelude
begin

text \<open>
  The contract that a file-backed claim with a time to live offers its callers: the leader
  record of \<open>coordination/leader_election.py\<close> and the lease record of
  \<open>coordination/service_group_lease.py\<close> are both used through it.  The world of the
  contract is a registry (the record file and its lock directory), a clock and, for every
  contender, the expiry time it believes its own claim has.  The locale proves, from the laws
  of the three operations, that at most one contender believes in an unexpired claim.
\<close>

section \<open>The world of a registry and its contenders\<close>

text \<open>What one call tells its caller about its claim: it holds a claim until the given time,
  it holds none, or it learned nothing (an exception, or a failed release).\<close>

datatype claim_outcome = Held real | NotHeld | Unknown

type_synonym ('id, 'env, 's) claim_op = "'id \<Rightarrow> real \<Rightarrow> 'env \<Rightarrow> 's \<Rightarrow> claim_outcome \<times> 's"

record ('id, 's) registry_world =
  registry :: 's
  clock :: real
  belief :: "'id \<Rightarrow> real option"

definition learn :: "claim_outcome \<Rightarrow> real option \<Rightarrow> real option" where
  "learn r old = (case r of Held e \<Rightarrow> Some e | NotHeld \<Rightarrow> None | Unknown \<Rightarrow> old)"

definition apply_claim_op ::
  "('id, 'env, 's) claim_op \<Rightarrow> 'id \<Rightarrow> 'env \<Rightarrow> ('id, 's) registry_world \<Rightarrow> ('id, 's) registry_world" where
  "apply_claim_op f i e w =
     (let (r, s') = f i (clock w) e (registry w)
      in w\<lparr>registry := s', belief := (belief w)(i := learn r (belief w i))\<rparr>)"

text \<open>
  One step: time passes, or one contender completes one call.  Calls are serialised here; the
  interleaving of their inner steps is the subject of the theory of the lock directory.
\<close>

inductive registry_step ::
  "('id \<Rightarrow> bool) \<Rightarrow> ('id, 'env, 's) claim_op \<Rightarrow> ('id, 'env, 's) claim_op \<Rightarrow> ('id, 'env, 's) claim_op
   \<Rightarrow> ('id, 's) registry_world \<Rightarrow> ('id, 's) registry_world \<Rightarrow> bool"
  for ok acq ren rel where
  Tick: "clock w \<le> t \<Longrightarrow> registry_step ok acq ren rel w (w\<lparr>clock := t\<rparr>)"
| Acquire: "ok i \<Longrightarrow> registry_step ok acq ren rel w (apply_claim_op acq i e w)"
| Renew: "ok i \<Longrightarrow> registry_step ok acq ren rel w (apply_claim_op ren i e w)"
| Release: "ok i \<Longrightarrow> registry_step ok acq ren rel w (apply_claim_op rel i e w)"

text \<open>The states reached from a registry about which nobody believes anything yet.\<close>

inductive registry_reach ::
  "('id \<Rightarrow> bool) \<Rightarrow> ('id, 'env, 's) claim_op \<Rightarrow> ('id, 'env, 's) claim_op \<Rightarrow> ('id, 'env, 's) claim_op
   \<Rightarrow> ('id, 's) registry_world \<Rightarrow> bool"
  for ok acq ren rel where
  Start: "belief w = (\<lambda>_. None) \<Longrightarrow> registry_reach ok acq ren rel w"
| Step: "registry_reach ok acq ren rel w \<Longrightarrow> registry_step ok acq ren rel w w'
    \<Longrightarrow> registry_reach ok acq ren rel w'"

text \<open>A contender believes, at the current time, that its claim is still running.\<close>

definition believes :: "('id, 's) registry_world \<Rightarrow> 'id \<Rightarrow> bool" where
  "believes w i = (case belief w i of None \<Rightarrow> False | Some e \<Rightarrow> clock w < e)"

section \<open>The abstract claim\<close>

text \<open>Without faults a registry is just an owner and an expiry time; these are the three
  operations on that pair.  The first component is what the caller is told: it holds the claim
  (acquire, renew), or it gave it up (release).\<close>

definition running :: "('i \<times> real) option \<Rightarrow> real \<Rightarrow> bool" where
  "running h t = (case h of None \<Rightarrow> False | Some (j, x) \<Rightarrow> t < x)"

definition claim_acquire :: "'i \<Rightarrow> real \<Rightarrow> real \<Rightarrow> ('i \<times> real) option \<Rightarrow> bool \<times> ('i \<times> real) option" where
  "claim_acquire i ttl t h =
     (if running h t then (fst (the h) = i, h) else (True, Some (i, t + ttl)))"

definition claim_renew :: "'i \<Rightarrow> real \<Rightarrow> real \<Rightarrow> ('i \<times> real) option \<Rightarrow> bool \<times> ('i \<times> real) option" where
  "claim_renew i ttl t h =
     (if running h t \<and> fst (the h) = i then (True, Some (i, t + ttl)) else (False, h))"

definition claim_release :: "'i \<Rightarrow> ('i \<times> real) option \<Rightarrow> bool \<times> ('i \<times> real) option" where
  "claim_release i h =
     (case h of Some (j, x) \<Rightarrow> if j = i then (True, None) else (False, h) | None \<Rightarrow> (False, None))"

lemma running_simps [simp]: "running None t = False" "running (Some (j, x)) t = (t < x)"
  by (simp_all add: running_def)

section \<open>The contract\<close>

locale ttl_registry =
  fixes ok :: "'id \<Rightarrow> bool"
    and acquire :: "('id, 'env, 's) claim_op"
    and renew :: "('id, 'env, 's) claim_op"
    and release :: "('id, 'env, 's) claim_op"
    and holder :: "'s \<Rightarrow> ('id \<times> real) option"
  assumes acquire_held: "ok i \<Longrightarrow> acquire i t e s = (Held x, s') \<Longrightarrow> holder s' = Some (i, x)"
    and acquire_keeps: "ok i \<Longrightarrow> ok j \<Longrightarrow> holder s = Some (j, x) \<Longrightarrow> t < x \<Longrightarrow>
      acquire i t e s = (r, s') \<Longrightarrow> holder s' = Some (j, x)"
    and renew_held: "ok i \<Longrightarrow> renew i t e s = (Held x, s') \<Longrightarrow> holder s' = Some (i, x)"
    and renew_keeps: "ok i \<Longrightarrow> ok j \<Longrightarrow> i \<noteq> j \<Longrightarrow> holder s = Some (j, x) \<Longrightarrow> t < x \<Longrightarrow>
      renew i t e s = (r, s') \<Longrightarrow> holder s' = Some (j, x)"
    and renew_unknown: "ok i \<Longrightarrow> renew i t e s = (Unknown, s') \<Longrightarrow> holder s' = holder s"
    and release_keeps: "ok i \<Longrightarrow> ok j \<Longrightarrow> i \<noteq> j \<Longrightarrow> holder s = Some (j, x) \<Longrightarrow>
      release i t e s = (r, s') \<Longrightarrow> holder s' = Some (j, x)"
    and release_unknown: "ok i \<Longrightarrow> release i t e s = (Unknown, s') \<Longrightarrow> holder s' = holder s"
    and release_not_held: "ok i \<Longrightarrow> release i t e s \<noteq> (Held x, s')"
begin

definition agrees :: "('id, 's) registry_world \<Rightarrow> bool" where
  "agrees w \<longleftrightarrow> (\<forall>i x. belief w i = Some x \<longrightarrow> ok i \<and> (clock w < x \<longrightarrow> holder (registry w) = Some (i, x)))"

text \<open>A call of \<open>i\<close> keeps the agreement when it leaves the running claims of the others
  alone and when what it tells \<open>i\<close> is what the registry then says.\<close>

lemma agrees_call:
  assumes "agrees w" and "ok i"
    and f: "f i (clock w) e (registry w) = (r, s')"
    and others: "\<And>j x. ok j \<Longrightarrow> j \<noteq> i \<Longrightarrow> clock w < x \<Longrightarrow> holder (registry w) = Some (j, x)
      \<Longrightarrow> holder s' = Some (j, x)"
    and held: "\<And>x. r = Held x \<Longrightarrow> holder s' = Some (i, x)"
    and unknown: "\<And>x. r = Unknown \<Longrightarrow> clock w < x \<Longrightarrow> holder (registry w) = Some (i, x)
      \<Longrightarrow> holder s' = Some (i, x)"
  shows "agrees (apply_claim_op f i e w)"
  unfolding agrees_def
proof (intro allI impI)
  fix j x
  assume j: "belief (apply_claim_op f i e w) j = Some x"
  have w: "apply_claim_op f i e w = w\<lparr>registry := s', belief := (belief w)(i := learn r (belief w i))\<rparr>"
    using f by (simp add: apply_claim_op_def)
  show "ok j \<and> (clock (apply_claim_op f i e w) < x \<longrightarrow> holder (registry (apply_claim_op f i e w)) = Some (j, x))"
  proof (cases "j = i")
    case False
    with j w have "belief w j = Some x" by simp
    with assms(1) have "ok j" and "clock w < x \<longrightarrow> holder (registry w) = Some (j, x)"
      by (auto simp: agrees_def)
    with others False w show ?thesis by simp
  next
    case True
    with j w have l: "learn r (belief w i) = Some x" by simp
    show ?thesis
    proof (cases r)
      case (Held y)
      with l held w True assms(2) show ?thesis by (simp add: learn_def)
    next
      case NotHeld
      with l show ?thesis by (simp add: learn_def)
    next
      case Unknown
      with l have "belief w i = Some x" by (simp add: learn_def)
      with assms(1) have "clock w < x \<longrightarrow> holder (registry w) = Some (i, x)"
        by (auto simp: agrees_def)
      with unknown Unknown w True assms(2) show ?thesis by simp
    qed
  qed
qed

lemma agrees_acquire:
  assumes "agrees w" and "ok i"
  shows "agrees (apply_claim_op acquire i e w)"
proof -
  obtain r s' where a: "acquire i (clock w) e (registry w) = (r, s')" by fastforce
  show ?thesis
    by (rule agrees_call [where f = acquire, OF assms a])
      (use a acquire_held [OF assms(2)] acquire_keeps [OF assms(2)] assms(2) in blast)+
qed

lemma agrees_renew:
  assumes "agrees w" and "ok i"
  shows "agrees (apply_claim_op renew i e w)"
proof -
  obtain r s' where a: "renew i (clock w) e (registry w) = (r, s')" by fastforce
  show ?thesis
    by (rule agrees_call [where f = renew, OF assms a])
      (use a renew_held [OF assms(2)] renew_keeps [OF assms(2)] renew_unknown [OF assms(2)] in metis)+
qed

lemma agrees_release:
  assumes "agrees w" and "ok i"
  shows "agrees (apply_claim_op release i e w)"
proof -
  obtain r s' where a: "release i (clock w) e (registry w) = (r, s')" by fastforce
  show ?thesis
    by (rule agrees_call [where f = release, OF assms a])
      (use a release_keeps [OF assms(2)] release_unknown [OF assms(2)] release_not_held [OF assms(2)] in metis)+
qed

lemma agrees_step: "registry_step ok acquire renew release w w' \<Longrightarrow> agrees w \<Longrightarrow> agrees w'"
proof (induction rule: registry_step.induct)
  case (Tick w t)
  then show ?case by (fastforce simp: agrees_def)
qed (simp_all add: agrees_acquire agrees_renew agrees_release)

lemma reach_agrees: "registry_reach ok acquire renew release w \<Longrightarrow> agrees w"
proof (induction rule: registry_reach.induct)
  case (Start w)
  then show ?case by (simp add: agrees_def)
next
  case (Step w w')
  from agrees_step [OF Step(2,3)] show ?case .
qed

text \<open>At most one contender believes in a running claim, and the registry names it.\<close>

lemma believer_is_holder:
  assumes "registry_reach ok acquire renew release w" and "believes w i"
  shows "\<exists>x. clock w < x \<and> holder (registry w) = Some (i, x)"
  using reach_agrees [OF assms(1)] assms(2)
  by (auto simp: agrees_def believes_def split: option.splits)

lemma at_most_one_believer:
  assumes "registry_reach ok acquire renew release w" and "believes w i" and "believes w j"
  shows "i = j"
  using believer_is_holder [OF assms(1,2)] believer_is_holder [OF assms(1,3)] by auto

end

end
