(* ===== verification/LeaderElection.thy ===== *)
theory LeaderElection
  imports TtlRegistry
begin

text \<open>
  The file-based leader election, \<open>coordination/leader_election.py\<close>: one JSON record with a
  time to live per election, guarded by a lock directory.  A call is a function of the
  contender's configuration, of what the operating system answers during the call, and of the
  files; it returns the result model or the exception that leaves the method, and the files
  after the call.
\<close>

section \<open>The files and the operating system\<close>

text \<open>
  A record file as its reader sees it: absent, unreadable or not JSON, not UTF-8 (where
  \<open>read_text\<close> raises a \<open>UnicodeDecodeError\<close>, a \<open>ValueError\<close> that no handler catches),
  JSON but no object, or an object whose fields are taken through the conversions that \<open>_read_record\<close> applies
  (a missing key is its default; a numeric field that \<open>float()\<close> or \<open>int()\<close>
  rejects is \<open>None\<close>).
\<close>

datatype 'f record_file = Absent | Unreadable | NotUtf8 | NotObject | Fields 'f

text \<open>
  What the operating system answers during one call: the clock at the two places where it is
  read, the modification time a created lock directory gets, and which calls fail with an
  \<open>OSError\<close> that the state of the files does not already imply.
\<close>

record os_env =
  lock_now :: real
  now_at :: real
  mkdir_time :: real
  mkdir_error :: bool
  stat_error :: bool
  rmdir_error :: bool
  remkdir_error :: bool
  open_error :: bool
  write_error :: bool
  replace_error :: bool
  unlink_error :: bool
  unlock_error :: bool
  dir_error :: bool

definition calm :: "real \<Rightarrow> os_env" where
  "calm t = \<lparr>lock_now = t, now_at = t, mkdir_time = t, mkdir_error = False, stat_error = False,
     rmdir_error = False, remkdir_error = False, open_error = False, write_error = False,
     replace_error = False, unlink_error = False, unlock_error = False, dir_error = False\<rparr>"

text \<open>The record file and the lock directory (its modification time when it exists).\<close>

record 'f claim_files =
  lock_dir :: "real option"
  record_file :: "'f record_file"

definition stale_multiplier :: real where
  "stale_multiplier = 2"

text \<open>\<open>_is_lock_stale\<close> on a lock directory with modification time \<open>m\<close>.\<close>

definition is_lock_stale :: "int \<Rightarrow> os_env \<Rightarrow> real \<Rightarrow> bool" where
  "is_lock_stale ttl env m =
     (if stat_error env then False
      else lock_now env - m > real_of_int ttl * stale_multiplier)"

text \<open>
  \<open>_acquire_lock\<close>: create the lock directory; when it exists and is stale, remove it and try
  once more.  The second \<open>mkdir\<close> only catches \<open>FileExistsError\<close>, so another
  \<open>OSError\<close> there leaves the method.
\<close>

definition acquire_lock :: "int \<Rightarrow> os_env \<Rightarrow> 'f claim_files \<Rightarrow> bool result \<times> 'f claim_files" where
  "acquire_lock ttl env fs =
     (if mkdir_error env then (Inr False, fs)
      else case lock_dir fs of
        None \<Rightarrow> (Inr True, fs\<lparr>lock_dir := Some (mkdir_time env)\<rparr>)
      | Some m \<Rightarrow>
          if is_lock_stale ttl env m then
            (if rmdir_error env then (Inr False, fs)
             else if remkdir_error env then (Inl OSError, fs\<lparr>lock_dir := None\<rparr>)
             else (Inr True, fs\<lparr>lock_dir := Some (mkdir_time env)\<rparr>))
          else (Inr False, fs))"

definition release_lock :: "os_env \<Rightarrow> 'f claim_files \<Rightarrow> 'f claim_files" where
  "release_lock env fs = (if unlock_error env then fs else fs\<lparr>lock_dir := None\<rparr>)"

section \<open>The leader record\<close>

record leader_record =
  lr_election :: string
  lr_leader :: string
  lr_acquired :: real
  lr_expires :: real

text \<open>The fields of the JSON object, converted as the reader converts them.\<close>

record leader_fields =
  lf_election :: string
  lf_leader :: string
  lf_acquired :: "real option"
  lf_expires :: "real option"

record leader_config =
  election_name :: string
  leader_id :: string
  leader_ttl :: int
  leader_validator :: "(string \<Rightarrow> bool) option"

type_synonym leader_files = "leader_fields claim_files"

text \<open>\<open>model_dump\<close> of a record, as the next reader finds it.\<close>

definition leader_fields_of :: "leader_record \<Rightarrow> leader_fields" where
  "leader_fields_of r =
     \<lparr>lf_election = lr_election r, lf_leader = lr_leader r,
      lf_acquired = Some (lr_acquired r), lf_expires = Some (lr_expires r)\<rparr>"

definition leader_init ::
  "string \<Rightarrow> string \<Rightarrow> int \<Rightarrow> (string \<Rightarrow> bool) option \<Rightarrow> leader_config result" where
  "leader_init name lid ttl validator =
     (if py_strip name = '''' then Inl (ValueError ''election_name must be non-empty.'')
      else if py_strip lid = '''' then Inl (ValueError ''leader_id must be non-empty.'')
      else if ttl < 1 then Inl (ValueError ''ttl_seconds must be greater than zero.'')
      else Inr \<lparr>election_name = py_strip name, leader_id = py_strip lid, leader_ttl = ttl,
                leader_validator = validator\<rparr>)"

definition leader_empty_record :: "leader_config \<Rightarrow> leader_record" where
  "leader_empty_record c =
     \<lparr>lr_election = election_name c, lr_leader = '''', lr_acquired = 0, lr_expires = 0\<rparr>"

definition leader_new_record :: "leader_config \<Rightarrow> real \<Rightarrow> leader_record" where
  "leader_new_record c now =
     \<lparr>lr_election = election_name c, lr_leader = leader_id c, lr_acquired = now,
      lr_expires = now + real_of_int (leader_ttl c)\<rparr>"

definition leader_is_expired :: "leader_record \<Rightarrow> real \<Rightarrow> bool" where
  "leader_is_expired r now = (lr_expires r \<le> now)"

definition leader_remaining :: "leader_record \<Rightarrow> real \<Rightarrow> real" where
  "leader_remaining r now = (let d = lr_expires r - now in if d < 0 then 0 else d)"

definition leader_read_record ::
  "leader_config \<Rightarrow> leader_fields record_file \<Rightarrow> (leader_record \<times> bool) result" where
  "leader_read_record c file =
     (case file of
        Absent \<Rightarrow> Inr (leader_empty_record c, False)
      | Unreadable \<Rightarrow> Inr (leader_empty_record c, False)
      | NotUtf8 \<Rightarrow> Inl (ValueError ''invalid utf-8'')
      | NotObject \<Rightarrow> Inr (leader_empty_record c, False)
      | Fields f \<Rightarrow>
          if lf_election f \<noteq> election_name c then Inr (leader_empty_record c, False)
          else if (case leader_validator c of None \<Rightarrow> False | Some accepts \<Rightarrow> \<not> accepts (lf_leader f))
          then Inr (leader_empty_record c, False)
          else case (lf_acquired f, lf_expires f) of
                 (Some a, Some e) \<Rightarrow>
                   Inr (\<lparr>lr_election = lf_election f, lr_leader = lf_leader f, lr_acquired = a, lr_expires = e\<rparr>, True)
               | _ \<Rightarrow> Inr (leader_empty_record c, False))"

text \<open>
  \<open>_write_record_atomic\<close> creates the file exclusively: it fails without effect when the file
  exists, and removes what it wrote when writing fails.
\<close>

definition leader_write_atomic ::
  "os_env \<Rightarrow> leader_record \<Rightarrow> leader_files \<Rightarrow> bool result \<times> leader_files" where
  "leader_write_atomic env r fs =
     (case record_file fs of
        Absent \<Rightarrow>
          if open_error env then (Inl OSError, fs)
          else if write_error env
          then (Inr False, fs\<lparr>record_file := (if unlink_error env then Unreadable else Absent)\<rparr>)
          else (Inr True, fs\<lparr>record_file := Fields (leader_fields_of r)\<rparr>)
      | _ \<Rightarrow> (Inr False, fs))"

text \<open>\<open>_write_record_replace\<close>: write a temporary file and rename it; an \<open>OSError\<close>
  leaves the method and the record untouched.\<close>

definition leader_write_replace ::
  "os_env \<Rightarrow> leader_record \<Rightarrow> leader_files \<Rightarrow> unit result \<times> leader_files" where
  "leader_write_replace env r fs =
     (if replace_error env then (Inl OSError, fs)
      else (Inr (), fs\<lparr>record_file := Fields (leader_fields_of r)\<rparr>))"

section \<open>The operations\<close>

record leader_acquire_result =
  la_acquired :: bool
  la_is_leader :: bool
  la_leader :: string
  la_acquired_at :: real
  la_expires_at :: real
  la_remaining :: real
  la_message :: string

record leader_renew_result =
  ln_renewed :: bool
  ln_is_leader :: bool
  ln_leader :: string
  ln_acquired_at :: real
  ln_expires_at :: real
  ln_remaining :: real
  ln_message :: string

record leader_release_result =
  ll_released :: bool
  ll_is_leader :: bool
  ll_leader :: string
  ll_message :: string

record leader_status =
  ls_election :: string
  ls_is_leader :: bool
  ls_leader :: string
  ls_acquired_at :: real
  ls_expires_at :: real
  ls_remaining :: real
  ls_state_path :: string
  ls_message :: string

definition leader_acquire_model :: "bool \<Rightarrow> bool \<Rightarrow> leader_record \<Rightarrow> real \<Rightarrow> string \<Rightarrow> leader_acquire_result" where
  "leader_acquire_model acq leads r now msg =
     \<lparr>la_acquired = acq, la_is_leader = leads, la_leader = lr_leader r, la_acquired_at = lr_acquired r,
      la_expires_at = lr_expires r, la_remaining = leader_remaining r now, la_message = msg\<rparr>"

definition leader_renew_model :: "bool \<Rightarrow> leader_record \<Rightarrow> real \<Rightarrow> string \<Rightarrow> leader_renew_result" where
  "leader_renew_model ok r now msg =
     \<lparr>ln_renewed = ok, ln_is_leader = ok, ln_leader = lr_leader r, ln_acquired_at = lr_acquired r,
      ln_expires_at = lr_expires r, ln_remaining = leader_remaining r now, ln_message = msg\<rparr>"

text \<open>The part of \<open>try_acquire\<close> that runs under the lock.\<close>

definition leader_acquire_locked ::
  "leader_config \<Rightarrow> os_env \<Rightarrow> leader_files \<Rightarrow> leader_acquire_result result \<times> leader_files" where
  "leader_acquire_locked c env fs =
     (case leader_read_record c (record_file fs) of Inl x \<Rightarrow> (Inl x, fs) | Inr (r, valid) \<Rightarrow>
      let now = now_at env;
          new = leader_new_record c now
      in if valid \<and> \<not> leader_is_expired r now then
           (if lr_leader r = leader_id c
            then (Inr (leader_acquire_model False True r now ''Already leader.''), fs)
            else (Inr (leader_acquire_model False False r now ''Leader already held.''), fs))
         else
           (let written =
              (if valid then leader_write_replace env new fs
               else case leader_write_atomic env new fs of
                      (Inl x, fs') \<Rightarrow> (Inl x, fs')
                    | (Inr True, fs') \<Rightarrow> (Inr (), fs')
                    | (Inr False, fs') \<Rightarrow> leader_write_replace env new fs')
            in case written of
                 (Inl x, fs') \<Rightarrow> (Inl x, fs')
               | (Inr _, fs') \<Rightarrow> (Inr (leader_acquire_model True True new now ''Leadership acquired.''), fs')))"

definition leader_busy_acquire :: leader_acquire_result where
  "leader_busy_acquire =
     \<lparr>la_acquired = False, la_is_leader = False, la_leader = '''', la_acquired_at = 0,
      la_expires_at = 0, la_remaining = 0, la_message = ''Leader election is busy.''\<rparr>"

definition leader_try_acquire ::
  "leader_config \<Rightarrow> os_env \<Rightarrow> leader_files \<Rightarrow> leader_acquire_result result \<times> leader_files" where
  "leader_try_acquire c env fs =
     (case acquire_lock (leader_ttl c) env fs of
        (Inl x, fs') \<Rightarrow> (Inl x, fs')
      | (Inr False, fs') \<Rightarrow> (Inr leader_busy_acquire, fs')
      | (Inr True, fs') \<Rightarrow>
          (let (out, fs'') = leader_acquire_locked c env fs' in (out, release_lock env fs'')))"

definition leader_renew_locked ::
  "leader_config \<Rightarrow> os_env \<Rightarrow> leader_files \<Rightarrow> leader_renew_result result \<times> leader_files" where
  "leader_renew_locked c env fs =
     (case leader_read_record c (record_file fs) of Inl x \<Rightarrow> (Inl x, fs) | Inr (r, valid) \<Rightarrow>
      let now = now_at env
      in if \<not> valid \<or> leader_is_expired r now
         then (Inr (leader_renew_model False r now ''No active leader record.''), fs)
         else if lr_leader r \<noteq> leader_id c
         then (Inr (leader_renew_model False r now ''Leader held by another contender.''), fs)
         else
           (let renewed = r\<lparr>lr_expires := now + real_of_int (leader_ttl c)\<rparr>
            in case leader_write_replace env renewed fs of
                 (Inl x, fs') \<Rightarrow> (Inl x, fs')
               | (Inr _, fs') \<Rightarrow> (Inr (leader_renew_model True renewed now ''Leadership renewed.''), fs')))"

definition leader_busy_renew :: leader_renew_result where
  "leader_busy_renew =
     \<lparr>ln_renewed = False, ln_is_leader = False, ln_leader = '''', ln_acquired_at = 0,
      ln_expires_at = 0, ln_remaining = 0, ln_message = ''Leader election is busy.''\<rparr>"

definition leader_renew ::
  "leader_config \<Rightarrow> os_env \<Rightarrow> leader_files \<Rightarrow> leader_renew_result result \<times> leader_files" where
  "leader_renew c env fs =
     (case acquire_lock (leader_ttl c) env fs of
        (Inl x, fs') \<Rightarrow> (Inl x, fs')
      | (Inr False, fs') \<Rightarrow> (Inr leader_busy_renew, fs')
      | (Inr True, fs') \<Rightarrow>
          (let (out, fs'') = leader_renew_locked c env fs' in (out, release_lock env fs'')))"

definition leader_release ::
  "leader_config \<Rightarrow> os_env \<Rightarrow> leader_files \<Rightarrow> leader_release_result result \<times> leader_files" where
  "leader_release c env fs =
     (case acquire_lock (leader_ttl c) env fs of
        (Inl x, fs') \<Rightarrow> (Inl x, fs')
      | (Inr False, fs') \<Rightarrow>
          (Inr \<lparr>ll_released = False, ll_is_leader = False, ll_leader = '''',
                ll_message = ''Leader election is busy.''\<rparr>, fs')
      | (Inr True, fs') \<Rightarrow>
          (case leader_read_record c (record_file fs') of
             Inl x \<Rightarrow> (Inl x, release_lock env fs')
           | Inr (r, valid) \<Rightarrow>
              if \<not> valid \<or> lr_leader r \<noteq> leader_id c
              then (Inr \<lparr>ll_released = False, ll_is_leader = False, ll_leader = lr_leader r,
                         ll_message = ''Leader not held by caller.''\<rparr>, release_lock env fs')
              else if unlink_error env
              then (Inr \<lparr>ll_released = False, ll_is_leader = True, ll_leader = lr_leader r,
                         ll_message = ''Failed to release leader record.''\<rparr>, release_lock env fs')
              else (Inr \<lparr>ll_released = True, ll_is_leader = False, ll_leader = '''',
                         ll_message = ''Leadership released.''\<rparr>,
                    release_lock env (fs'\<lparr>record_file := Absent\<rparr>))))"

definition leader_state_path :: "string \<Rightarrow> leader_config \<Rightarrow> string" where
  "leader_state_path dir c = dir @ ''/'' @ election_name c @ ''.json''"

text \<open>\<open>status\<close> reads without taking the lock.\<close>

definition leader_get_status :: "string \<Rightarrow> leader_config \<Rightarrow> real \<Rightarrow> leader_files \<Rightarrow> leader_status result" where
  "leader_get_status dir c now fs =
     (case leader_read_record c (record_file fs) of Inl x \<Rightarrow> Inl x | Inr (r, valid) \<Rightarrow>
         if \<not> valid \<or> leader_is_expired r now
         then Inr \<lparr>ls_election = election_name c, ls_is_leader = False, ls_leader = '''', ls_acquired_at = 0,
               ls_expires_at = 0, ls_remaining = 0, ls_state_path = leader_state_path dir c,
               ls_message = ''No active leader.''\<rparr>
         else Inr \<lparr>ls_election = lr_election r, ls_is_leader = (lr_leader r = leader_id c), ls_leader = lr_leader r,
               ls_acquired_at = lr_acquired r, ls_expires_at = lr_expires r,
               ls_remaining = leader_remaining r now, ls_state_path = leader_state_path dir c,
               ls_message = ''Leader record present.''\<rparr>)"

section \<open>The election as a registry of claims\<close>

text \<open>The record of the election, with its owner and expiry, as any contender would read it.\<close>

definition leader_holder :: "string \<Rightarrow> leader_files \<Rightarrow> (string \<times> real) option" where
  "leader_holder name fs =
     (case record_file fs of
        Fields f \<Rightarrow>
          if lf_election f \<noteq> name then None
          else (case (lf_acquired f, lf_expires f) of
                  (Some a, Some e) \<Rightarrow> Some (lf_leader f, e)
                | _ \<Rightarrow> None)
      | _ \<Rightarrow> None)"

definition leader_accepts :: "(string \<Rightarrow> bool) option \<Rightarrow> string \<Rightarrow> bool" where
  "leader_accepts v i = (case v of None \<Rightarrow> True | Some accepts \<Rightarrow> accepts i)"

text \<open>What the caller of each operation knows about its own claim afterwards.\<close>

definition leader_acquire_claim ::
  "string \<Rightarrow> int \<Rightarrow> (string \<Rightarrow> bool) option \<Rightarrow> (string, os_env, leader_files) claim_op" where
  "leader_acquire_claim name ttl v i t env fs =
     (case leader_try_acquire \<lparr>election_name = name, leader_id = i, leader_ttl = ttl, leader_validator = v\<rparr>
             (env\<lparr>now_at := t\<rparr>) fs of
        (Inl _, fs') \<Rightarrow> (Unknown, fs')
      | (Inr out, fs') \<Rightarrow> (if la_is_leader out then Held (la_expires_at out) else NotHeld, fs'))"

definition leader_renew_claim ::
  "string \<Rightarrow> int \<Rightarrow> (string \<Rightarrow> bool) option \<Rightarrow> (string, os_env, leader_files) claim_op" where
  "leader_renew_claim name ttl v i t env fs =
     (case leader_renew \<lparr>election_name = name, leader_id = i, leader_ttl = ttl, leader_validator = v\<rparr>
             (env\<lparr>now_at := t\<rparr>) fs of
        (Inl _, fs') \<Rightarrow> (Unknown, fs')
      | (Inr out, fs') \<Rightarrow> (if ln_is_leader out then Held (ln_expires_at out) else NotHeld, fs'))"

definition leader_release_claim ::
  "string \<Rightarrow> int \<Rightarrow> (string \<Rightarrow> bool) option \<Rightarrow> (string, os_env, leader_files) claim_op" where
  "leader_release_claim name ttl v i t env fs =
     (case leader_release \<lparr>election_name = name, leader_id = i, leader_ttl = ttl, leader_validator = v\<rparr>
             (env\<lparr>now_at := t\<rparr>) fs of
        (Inl _, fs') \<Rightarrow> (Unknown, fs')
      | (Inr out, fs') \<Rightarrow> (if ll_is_leader out then Unknown else NotHeld, fs'))"


section \<open>Lemmas\<close>

lemma acquire_lock_calm [simp]:
  "lock_dir fs = None \<Longrightarrow> acquire_lock ttl (calm t) fs = (Inr True, fs\<lparr>lock_dir := Some t\<rparr>)"
  by (simp add: acquire_lock_def calm_def)

lemma release_lock_calm [simp]: "release_lock (calm t) fs = fs\<lparr>lock_dir := None\<rparr>"
  by (simp add: release_lock_def calm_def)

lemma calm_simps [simp]:
  "now_at (calm t) = t" "open_error (calm t) = False" "write_error (calm t) = False"
  "replace_error (calm t) = False" "unlink_error (calm t) = False" "dir_error (calm t) = False"
  by (simp_all add: calm_def)

named_theorems lock_rules

lemma acquire_lock_record [lock_rules]:
  "acquire_lock ttl env fs = (r, fs') \<Longrightarrow> record_file fs' = record_file fs"
  by (auto simp: acquire_lock_def split: if_splits option.splits)

lemma release_lock_record [simp]: "record_file (release_lock env fs) = record_file fs"
  by (auto simp: release_lock_def)

lemma leader_holder_cong:
  "record_file fs = record_file fs' \<Longrightarrow> leader_holder name fs = leader_holder name fs'"
  by (simp add: leader_holder_def)

lemma leader_holder_release_lock [simp]: "leader_holder name (release_lock env fs) = leader_holder name fs"
  by (rule leader_holder_cong) simp

lemma leader_holder_Fields [simp]:
  "leader_holder (lr_election r) (fs\<lparr>record_file := Fields (leader_fields_of r)\<rparr>)
     = Some (lr_leader r, lr_expires r)"
  by (simp add: leader_holder_def leader_fields_of_def)

text \<open>Reading a record that a contender wrote gives it back.\<close>

lemma leader_read_written [simp]:
  "lr_election r = election_name c \<Longrightarrow> leader_accepts (leader_validator c) (lr_leader r)
   \<Longrightarrow> leader_read_record c (Fields (leader_fields_of r)) = Inr (r, True)"
  by (auto simp: leader_read_record_def leader_fields_of_def leader_accepts_def split: option.splits)

text \<open>A record read as valid is the one the registry names, and conversely when the validator
  accepts its owner.\<close>

lemma leader_read_validD:
  assumes "leader_read_record c (record_file fs) = Inr (r, True)"
  shows "leader_holder (election_name c) fs = Some (lr_leader r, lr_expires r)"
    and "lr_election r = election_name c"
  using assms by (auto simp: leader_read_record_def leader_holder_def split: record_file.splits option.splits if_splits)


lemma leader_read_Inl: "leader_read_record c file = Inl x \<longleftrightarrow> file = NotUtf8 \<and> x = ValueError ''invalid utf-8''"
  by (auto simp: leader_read_record_def split: record_file.splits option.splits if_splits)

lemma leader_read_obtain:
  assumes "file \<noteq> NotUtf8"
  obtains r v where "leader_read_record c file = Inr (r, v)"
  using assms by (cases "leader_read_record c file") (auto simp: leader_read_Inl)

lemma leader_locked_NotUtf8 [simp]:
  "record_file fs = NotUtf8 \<Longrightarrow> leader_acquire_locked c env fs = (Inl (ValueError ''invalid utf-8''), fs)"
  "record_file fs = NotUtf8 \<Longrightarrow> leader_renew_locked c env fs = (Inl (ValueError ''invalid utf-8''), fs)"
  by (simp_all add: leader_acquire_locked_def leader_renew_locked_def leader_read_record_def)

lemma leader_read_invalid:
  "leader_read_record c file = Inr (r, False) \<Longrightarrow> r = leader_empty_record c"
  by (auto simp: leader_read_record_def split: record_file.splits option.splits if_splits)



subsection \<open>What the locked part of an acquire does\<close>



subsection \<open>The laws of the registry\<close>

abbreviation claim_config :: "string \<Rightarrow> string \<Rightarrow> int \<Rightarrow> (string \<Rightarrow> bool) option \<Rightarrow> leader_config" where
  "claim_config name i ttl v \<equiv>
     \<lparr>election_name = name, leader_id = i, leader_ttl = ttl, leader_validator = v\<rparr>"





lemma leader_claim_of_written:
  "record_file fs = Fields (leader_fields_of r) \<Longrightarrow> lr_election r = name
   \<Longrightarrow> leader_holder name fs = Some (lr_leader r, lr_expires r)"
  by (simp add: leader_holder_def leader_fields_of_def)






subsection \<open>Release\<close>




section \<open>The abstract election and its refinement\<close>

text \<open>
  Without faults of the operating system an election is just an owner and an expiry time.  The
  abstract operations act on that pair; \<open>leader_view\<close> is the pair a contender reads.
\<close>

definition leader_view :: "leader_config \<Rightarrow> leader_files \<Rightarrow> (string \<times> real) option" where
  "leader_view c fs =
     (case leader_read_record c (record_file fs) of
        Inr (r, True) \<Rightarrow> Some (lr_leader r, lr_expires r)
      | _ \<Rightarrow> None)"

lemma leader_view_read:
  "leader_read_record c (record_file fs) = Inr (r, v) \<Longrightarrow>
   leader_view c fs = (if v then Some (lr_leader r, lr_expires r) else None)"
  by (simp add: leader_view_def)

lemma leader_view_written:
  "lr_election r = election_name c \<Longrightarrow>
   leader_accepts (leader_validator c) (lr_leader r) \<Longrightarrow>
   leader_view c (fs\<lparr>record_file := Fields (leader_fields_of r)\<rparr>) = Some (lr_leader r, lr_expires r)"
  by (simp add: leader_view_def)

lemma leader_write_atomic_calm:
  "leader_write_atomic (calm t) r fs =
     (if record_file fs = Absent then (Inr True, fs\<lparr>record_file := Fields (leader_fields_of r)\<rparr>) else (Inr False, fs))"
  by (simp add: leader_write_atomic_def split: record_file.splits)

lemma leader_acquire_calm:
  assumes "lock_dir fs = None" and "leader_read_record c (record_file fs) = Inr (r, v)"
  shows "leader_try_acquire c (calm t) fs =
    (if v \<and> t < lr_expires r
     then (Inr (leader_acquire_model False (lr_leader r = leader_id c) r t
            (if lr_leader r = leader_id c then ''Already leader.'' else ''Leader already held.'')), fs)
     else (Inr (leader_acquire_model True True (leader_new_record c t) t ''Leadership acquired.''),
           fs\<lparr>record_file := Fields (leader_fields_of (leader_new_record c t))\<rparr>))"
  using assms
  by (auto simp: leader_try_acquire_def leader_acquire_locked_def leader_write_replace_def
      leader_write_atomic_calm leader_is_expired_def Let_def)

lemma leader_renew_calm:
  assumes "lock_dir fs = None" and "leader_read_record c (record_file fs) = Inr (r, v)"
  shows "leader_renew c (calm t) fs =
    (if v \<and> t < lr_expires r \<and> lr_leader r = leader_id c
     then (let r' = r\<lparr>lr_expires := t + real_of_int (leader_ttl c)\<rparr>
           in (Inr (leader_renew_model True r' t ''Leadership renewed.''), fs\<lparr>record_file := Fields (leader_fields_of r')\<rparr>))
     else (Inr (leader_renew_model False r t
            (if v \<and> t < lr_expires r then ''Leader held by another contender.''
             else ''No active leader record.'')), fs))"
  using assms
  by (auto simp: leader_renew_def leader_renew_locked_def leader_write_replace_def leader_is_expired_def Let_def)

lemma leader_release_calm:
  assumes "lock_dir fs = None" and "leader_read_record c (record_file fs) = Inr (r, v)"
  shows "leader_release c (calm t) fs =
    (if v \<and> lr_leader r = leader_id c
     then (Inr \<lparr>ll_released = True, ll_is_leader = False, ll_leader = '''', ll_message = ''Leadership released.''\<rparr>,
           fs\<lparr>record_file := Absent\<rparr>)
     else (Inr \<lparr>ll_released = False, ll_is_leader = False, ll_leader = lr_leader r,
            ll_message = ''Leader not held by caller.''\<rparr>, fs))"
  using assms by (auto simp: leader_release_def Let_def)

section \<open>Properties\<close>


definition demo_files :: leader_files where
  "demo_files = \<lparr>lock_dir = None, record_file = Unreadable\<rparr>"





text \<open>C5: Without faults, with the lock free and a record file that is UTF-8 (whatever it holds), the three
  operations refine the abstract claim:
  a running leadership is never taken over, an expired or unreadable record is, a renewal is
  granted exactly to the running leader and extends it by the time to live, a release removes
  exactly the caller's own record; no operation raises, and the lock is free again.\<close>

theorem leader_refines_claim:
  assumes "lock_dir fs = None" and "record_file fs \<noteq> NotUtf8"
    and "leader_accepts (leader_validator c) (leader_id c)"
  shows "(case leader_try_acquire c (calm t) fs of
            (Inr out, fs') \<Rightarrow> lock_dir fs' = None \<and> (la_is_leader out, leader_view c fs') =
               claim_acquire (leader_id c) (real_of_int (leader_ttl c)) t (leader_view c fs)
          | _ \<Rightarrow> False) \<and>
         (case leader_renew c (calm t) fs of
            (Inr out, fs') \<Rightarrow> lock_dir fs' = None \<and> (ln_renewed out, leader_view c fs') =
               claim_renew (leader_id c) (real_of_int (leader_ttl c)) t (leader_view c fs)
          | _ \<Rightarrow> False) \<and>
         (case leader_release c (calm t) fs of
            (Inr out, fs') \<Rightarrow> lock_dir fs' = None \<and> (ll_released out, leader_view c fs') =
               claim_release (leader_id c) (leader_view c fs)
          | _ \<Rightarrow> False)"
proof -
  obtain r v where r: "leader_read_record c (record_file fs) = Inr (r, v)"
    using leader_read_obtain [OF assms(2)] by metis
  have rec: "v \<Longrightarrow> lr_election r = election_name c"
    using r leader_read_validD(2) [of c fs r] by simp
  have absent: "leader_view c (fs\<lparr>record_file := Absent\<rparr>) = None"
    by (simp add: leader_view_def leader_read_record_def)
  note view = leader_view_read [OF r]
  show ?thesis
    using assms rec view
    by (simp add: leader_acquire_calm [OF assms(1) r] leader_renew_calm [OF assms(1) r]
        leader_release_calm [OF assms(1) r] claim_acquire_def claim_renew_def claim_release_def
        leader_acquire_model_def leader_renew_model_def leader_new_record_def leader_view_written absent Let_def)
qed

lemma leader_refines_claim_witness:
  "leader_view (claim_config ''cmts'' ''a'' 30 None)
     (snd (leader_try_acquire (claim_config ''cmts'' ''a'' 30 None) (calm 100) demo_files)) = Some (''a'', 130)"
proof -
  have "leader_view (claim_config ''cmts'' ''a'' 30 None) demo_files = None"
    by (simp add: leader_view_def leader_read_record_def demo_files_def)
  then show ?thesis
    using leader_refines_claim [of demo_files "claim_config ''cmts'' ''a'' 30 None" 100]
    by (auto simp: demo_files_def leader_accepts_def claim_acquire_def split: prod.splits sum.splits)
qed

text \<open>When \<open>status\<close> returns, it reports the caller as leader exactly when the record it reads names it and
  is unexpired, and then with a positive remaining time that is the distance to the expiry;
  otherwise the remaining time it reports is never negative.\<close>

theorem leader_status_sound:
  assumes "leader_get_status dir c now fs = Inr st"
  shows "ls_is_leader st = (running (leader_view c fs) now \<and> fst (the (leader_view c fs)) = leader_id c)
   \<and> 0 \<le> ls_remaining st
   \<and> (0 < ls_remaining st) = running (leader_view c fs) now
   \<and> (\<forall>j x. running (leader_view c fs) now \<longrightarrow> leader_view c fs = Some (j, x) \<longrightarrow>
         ls_leader st = j \<and> ls_expires_at st = x \<and> ls_remaining st = x - now)"
proof -
  have "record_file fs \<noteq> NotUtf8"
    using assms by (auto simp: leader_get_status_def leader_read_record_def)
  then obtain r v where r: "leader_read_record c (record_file fs) = Inr (r, v)"
    by (rule leader_read_obtain)
  show ?thesis
    using leader_view_read [OF r] r assms
    by (auto simp: leader_get_status_def leader_is_expired_def leader_remaining_def Let_def
        split: if_splits)
qed

lemma leader_status_sound_witness:
  "\<exists>st. leader_get_status ''/state'' (claim_config ''cmts'' ''a'' 30 None) 110
     \<lparr>lock_dir = None, record_file = Fields \<lparr>lf_election = ''cmts'', lf_leader = ''a'',
        lf_acquired = Some 100, lf_expires = Some 130\<rparr>\<rparr> = Inr st \<and> ls_is_leader st \<and> ls_remaining st = 20"
  (is "\<exists>st. ?get = Inr st \<and> _")
proof -
  obtain st where st: "?get = Inr st"
    by (simp add: leader_get_status_def leader_read_record_def leader_is_expired_def)
  then show ?thesis
    using leader_status_sound [OF st] by (simp add: leader_view_def leader_read_record_def)
qed

text \<open>No call leaves the lock behind: when the final \<open>rmdir\<close> works, then after an acquire,
  a renew or a release, also one that raises, the lock directory is gone, or it was there before
  the call, is untouched, and the caller was told that the election is busy.\<close>

theorem leader_lock_released:
  assumes "\<not> unlock_error env"
  shows "(case leader_try_acquire c env fs of (out, fs') \<Rightarrow>
            lock_dir fs' = None \<or> lock_dir fs' = lock_dir fs \<and> out = Inr leader_busy_acquire) \<and>
         (case leader_renew c env fs of (out, fs') \<Rightarrow>
            lock_dir fs' = None \<or> lock_dir fs' = lock_dir fs \<and> out = Inr leader_busy_renew) \<and>
         (case leader_release c env fs of (out, fs') \<Rightarrow>
            lock_dir fs' = None \<or> lock_dir fs' = lock_dir fs \<and>
              (\<exists>r. out = Inr r \<and> \<not> ll_released r \<and> ll_message r = ''Leader election is busy.''))"
proof -
  obtain a fs1 where a: "acquire_lock (leader_ttl c) env fs = (a, fs1)" by fastforce
  have locks: "lock_dir fs1 = None \<or> a = Inr True \<or> a = Inr False \<and> lock_dir fs1 = lock_dir fs"
    using a by (auto simp: acquire_lock_def split: if_splits option.splits)
  have free: "lock_dir (release_lock env x) = None" for x :: leader_files
    using assms by (simp add: release_lock_def)
  show ?thesis
  proof (intro conjI)
    show "case leader_try_acquire c env fs of (out, fs') \<Rightarrow>
        lock_dir fs' = None \<or> lock_dir fs' = lock_dir fs \<and> out = Inr leader_busy_acquire"
      using a locks free by (auto simp: leader_try_acquire_def split: sum.splits bool.splits prod.splits)
    show "case leader_renew c env fs of (out, fs') \<Rightarrow>
        lock_dir fs' = None \<or> lock_dir fs' = lock_dir fs \<and> out = Inr leader_busy_renew"
      using a locks free by (auto simp: leader_renew_def split: sum.splits bool.splits prod.splits)
    show "case leader_release c env fs of (out, fs') \<Rightarrow>
        lock_dir fs' = None \<or> lock_dir fs' = lock_dir fs \<and>
          (\<exists>r. out = Inr r \<and> \<not> ll_released r \<and> ll_message r = ''Leader election is busy.'')"
      using a locks free by (auto simp: leader_release_def split: sum.splits bool.splits prod.splits)
  qed
qed

lemma leader_lock_released_witness:
  "lock_dir (snd (leader_try_acquire (claim_config ''cmts'' ''a'' 30 None) ((calm 100)\<lparr>replace_error := True\<rparr>)
     demo_files)) = None"
proof -
  have "\<not> unlock_error ((calm 100)\<lparr>replace_error := True\<rparr>)" by (simp add: calm_def)
  from leader_lock_released [OF this, where c = "claim_config ''cmts'' ''a'' 30 None" and fs = demo_files] show ?thesis
    by (auto simp: demo_files_def split: prod.splits)
qed

text \<open>A record file that is not UTF-8 stays, whatever the contenders do.\<close>

lemma leader_claims_NotUtf8:
  assumes "record_file fs = NotUtf8"
  shows "leader_acquire_claim name ttl v i t env fs = (r, fs') \<Longrightarrow> record_file fs' = NotUtf8 \<and> (\<forall>x. r \<noteq> Held x)"
    and "leader_renew_claim name ttl v i t env fs = (r, fs') \<Longrightarrow> record_file fs' = NotUtf8 \<and> (\<forall>x. r \<noteq> Held x)"
    and "leader_release_claim name ttl v i t env fs = (r, fs') \<Longrightarrow> record_file fs' = NotUtf8 \<and> (\<forall>x. r \<noteq> Held x)"
proof -
  obtain a fs1 where a: "acquire_lock ttl (env\<lparr>now_at := t\<rparr>) fs = (a, fs1)" by fastforce
  from acquire_lock_record [OF a] assms have fs1: "record_file fs1 = NotUtf8" by simp
  show "leader_acquire_claim name ttl v i t env fs = (r, fs') \<Longrightarrow> record_file fs' = NotUtf8 \<and> (\<forall>x. r \<noteq> Held x)"
    using a fs1 assms by (auto simp: leader_acquire_claim_def leader_try_acquire_def leader_busy_acquire_def
        split: sum.splits bool.splits)
  show "leader_renew_claim name ttl v i t env fs = (r, fs') \<Longrightarrow> record_file fs' = NotUtf8 \<and> (\<forall>x. r \<noteq> Held x)"
    using a fs1 assms by (auto simp: leader_renew_claim_def leader_renew_def leader_busy_renew_def
        split: sum.splits bool.splits)
  show "leader_release_claim name ttl v i t env fs = (r, fs') \<Longrightarrow> record_file fs' = NotUtf8 \<and> (\<forall>x. r \<noteq> Held x)"
    using a fs1 assms by (auto simp: leader_release_claim_def leader_release_def leader_read_record_def
        split: sum.splits bool.splits)
qed

text \<open>A record file that is not UTF-8 is never taken over: no call of any contender changes it
  and nobody comes to hold the leadership, in any run of calls, although every other kind of
  corruption is treated as a missing record.\<close>

theorem leader_not_utf8_stuck:
  assumes "(registry_step (leader_accepts v) (leader_acquire_claim name ttl v)
      (leader_renew_claim name ttl v) (leader_release_claim name ttl v))\<^sup>*\<^sup>* w w'"
    and "record_file (registry w) = NotUtf8" and "belief w = (\<lambda>_. None)"
  shows "record_file (registry w') = NotUtf8 \<and> (\<forall>i. \<not> believes w' i)"
proof -
  have "record_file (registry w') = NotUtf8 \<and> belief w' = (\<lambda>_. None)"
    using assms
  proof (induction rule: rtranclp_induct)
    case base
    then show ?case by simp
  next
    case (step y z)
    have k: "learn r None = None" if "\<forall>x. r \<noteq> Held x" for r
      using that by (cases r) (auto simp: learn_def)
    from step.IH step.prems have y: "record_file (registry y) = NotUtf8" "belief y = (\<lambda>_. None)" by auto
    from step.hyps(2) y show ?case
      by (cases rule: registry_step.cases)
        (auto simp: apply_claim_op_def k fun_eq_iff split: prod.splits dest: leader_claims_NotUtf8)
  qed
  then show ?thesis by (simp add: believes_def)
qed

lemma leader_not_utf8_stuck_witness:
  "\<not> believes (apply_claim_op (leader_acquire_claim ''cmts'' 30 None) ''a'' (calm 100)
      \<lparr>registry = \<lparr>lock_dir = None, record_file = NotUtf8\<rparr>, clock = 100, belief = (\<lambda>_. None)\<rparr>) ''a''"
  (is "\<not> believes (apply_claim_op ?f ''a'' ?e ?w) ''a''")
proof -
  have "(registry_step (leader_accepts None) ?f (leader_renew_claim ''cmts'' 30 None)
      (leader_release_claim ''cmts'' 30 None))\<^sup>*\<^sup>* ?w (apply_claim_op ?f ''a'' ?e ?w)"
    by (rule r_into_rtranclp, rule registry_step.Acquire) (simp add: leader_accepts_def)
  from leader_not_utf8_stuck [OF this] show ?thesis by simp
qed

end
