(* ===== verification/LockProtocol.thy ===== *)
theory LockProtocol
  imports LeaderElection
begin

text \<open>
  The lock directory of the coordination files step by step: every call of the file system in
  \<open>_acquire_lock\<close> and \<open>_release_lock\<close> (the same code in
  \<open>coordination/leader_election.py\<close> and \<open>coordination/service_group_lease.py\<close>) is one
  step, and the steps of any number of contenders interleave.  The other theories treat a call
  as one step; this one shows when that is justified.
\<close>

section \<open>States and steps\<close>

text \<open>Where a contender is: before \<open>mkdir\<close>, after it found the directory, after it read the time of
  the directory and before it reads the clock, after it judged the directory stale, after its \<open>rmdir\<close>,
  between acquire and release, or turned away.\<close>

datatype lock_pc = Outside | FoundLock | ReadTime real | FoundStale | RemovedStale | Inside | TurnedAway

record lock_state =
  ls_dir :: "real option"
  ls_clock :: real
  ls_pc :: "nat \<Rightarrow> lock_pc"

definition goto :: "lock_state \<Rightarrow> nat \<Rightarrow> lock_pc \<Rightarrow> lock_state" where
  "goto s i p = s\<lparr>ls_pc := (ls_pc s)(i := p)\<rparr>"

definition too_old :: "real \<Rightarrow> real \<Rightarrow> real \<Rightarrow> bool" where
  "too_old ttl now m = (now - m > ttl * stale_multiplier)"

definition stale_at :: "real \<Rightarrow> lock_state \<Rightarrow> bool" where
  "stale_at ttl s = (case ls_dir s of None \<Rightarrow> False | Some m \<Rightarrow> too_old ttl (ls_clock s) m)"

text \<open>A contender that has read a time and would judge it stale now.\<close>

definition late_reader :: "real \<Rightarrow> lock_state \<Rightarrow> bool" where
  "late_reader ttl s = (\<exists>i m. ls_pc s i = ReadTime m \<and> too_old ttl (ls_clock s) m)"

text \<open>One call of the file system or of the clock by contender \<open>i\<close>.\<close>

definition lock_call :: "real \<Rightarrow> nat \<Rightarrow> lock_state \<Rightarrow> lock_state" where
  "lock_call ttl i s =
     (case ls_pc s i of
        Outside \<Rightarrow>
          (if ls_dir s = None then goto (s\<lparr>ls_dir := Some (ls_clock s)\<rparr>) i Inside else goto s i FoundLock)
      | FoundLock \<Rightarrow> (case ls_dir s of None \<Rightarrow> goto s i TurnedAway | Some m \<Rightarrow> goto s i (ReadTime m))
      | ReadTime m \<Rightarrow> (if too_old ttl (ls_clock s) m then goto s i FoundStale else goto s i TurnedAway)
      | FoundStale \<Rightarrow> goto (s\<lparr>ls_dir := None\<rparr>) i RemovedStale
      | RemovedStale \<Rightarrow>
          (if ls_dir s = None then goto (s\<lparr>ls_dir := Some (ls_clock s)\<rparr>) i Inside else goto s i TurnedAway)
      | Inside \<Rightarrow> goto (s\<lparr>ls_dir := None\<rparr>) i Outside
      | TurnedAway \<Rightarrow> goto s i Outside)"

text \<open>The same call when the operating system refuses it: the contender is turned away, or goes on with the
  directory as it is.\<close>

definition lock_fail :: "nat \<Rightarrow> lock_state \<Rightarrow> lock_state" where
  "lock_fail i s =
     (case ls_pc s i of
        FoundStale \<Rightarrow> goto s i RemovedStale
      | Inside \<Rightarrow> goto s i Outside
      | ReadTime m \<Rightarrow> s
      | _ \<Rightarrow> goto s i TurnedAway)"

text \<open>Time passes.  \<open>fresh\<close> keeps the clock from passing the point where an existing directory is stale, and
  \<open>prompt\<close> the point where a time that a contender has read and not yet compared is.\<close>

inductive lock_step :: "real \<Rightarrow> bool \<Rightarrow> bool \<Rightarrow> lock_state \<Rightarrow> lock_state \<Rightarrow> bool" for ttl fresh prompt where
  Call: "lock_step ttl fresh prompt s (lock_call ttl i s)"
| Refused: "lock_step ttl fresh prompt s (lock_fail i s)"
| Wait: "ls_clock s \<le> t \<Longrightarrow> \<not> (fresh \<and> stale_at ttl (s\<lparr>ls_clock := t\<rparr>)) \<Longrightarrow>
    \<not> (prompt \<and> late_reader ttl (s\<lparr>ls_clock := t\<rparr>)) \<Longrightarrow>
    lock_step ttl fresh prompt s (s\<lparr>ls_clock := t\<rparr>)"

inductive lock_reach :: "real \<Rightarrow> bool \<Rightarrow> bool \<Rightarrow> lock_state \<Rightarrow> bool" for ttl fresh prompt where
  Start: "(\<And>i. ls_pc s i = Outside) \<Longrightarrow> \<not> (fresh \<and> ls_dir s \<noteq> None) \<Longrightarrow> lock_reach ttl fresh prompt s"
| Step: "lock_reach ttl fresh prompt s \<Longrightarrow> lock_step ttl fresh prompt s s' \<Longrightarrow> lock_reach ttl fresh prompt s'"

section \<open>Lemmas\<close>

lemma goto_simps [simp]:
  "ls_dir (goto s i p) = ls_dir s" "ls_clock (goto s i p) = ls_clock s"
  "ls_pc (goto s i p) j = (if j = i then p else ls_pc s j)"
  by (simp_all add: goto_def)

lemma stale_at_goto [simp]: "stale_at ttl (goto s i p) = stale_at ttl s"
  by (simp add: stale_at_def split: option.splits)

text \<open>While no directory and no time that was read gets stale, nobody removes a directory of another, and the
  directory exists whenever somebody is inside.\<close>

definition lock_ok :: "real \<Rightarrow> lock_state \<Rightarrow> bool" where
  "lock_ok ttl s \<longleftrightarrow> \<not> stale_at ttl s \<and> \<not> late_reader ttl s \<and>
     (\<forall>i. ls_pc s i \<noteq> FoundStale \<and> ls_pc s i \<noteq> RemovedStale) \<and>
     (\<forall>i. ls_pc s i = Inside \<longrightarrow> ls_dir s \<noteq> None) \<and>
     (\<forall>i j. ls_pc s i = Inside \<longrightarrow> ls_pc s j = Inside \<longrightarrow> i = j)"

lemma lock_ok_call:
  assumes "lock_ok ttl s" and "0 \<le> ttl"
  shows "lock_ok ttl (lock_call ttl i s)"
proof -
  have free: "\<forall>j. ls_pc s j \<noteq> Inside" if "ls_dir s = None"
    using assms(1) that by (auto simp: lock_ok_def)
  have new: "\<not> too_old ttl (ls_clock s) (ls_clock s)" using assms(2) by (simp add: too_old_def stale_multiplier_def)
  show ?thesis
    using assms free new
    by (cases "ls_pc s i") (auto simp: lock_ok_def lock_call_def stale_at_def late_reader_def split: option.splits)
qed

lemma lock_ok_fail: "lock_ok ttl s \<Longrightarrow> lock_ok ttl (lock_fail i s)"
  by (cases "ls_pc s i") (auto simp: lock_ok_def lock_fail_def stale_at_def late_reader_def split: option.splits)

lemma lock_ok_reach:
  assumes "lock_reach ttl True True s" and "0 \<le> ttl"
  shows "lock_ok ttl s"
  using assms(1)
proof (induction rule: lock_reach.induct)
  case (Start s)
  then show ?case by (simp add: lock_ok_def stale_at_def late_reader_def)
next
  case (Step s s')
  from Step.hyps(2) show ?case
  proof (cases rule: lock_step.cases)
    case (Call i)
    with lock_ok_call [OF Step.IH assms(2)] show ?thesis by simp
  next
    case (Refused i)
    with lock_ok_fail [OF Step.IH] show ?thesis by simp
  next
    case (Wait t)
    with Step.IH show ?thesis by (auto simp: lock_ok_def)
  qed
qed

lemma lock_reach_call: "lock_reach ttl fresh prompt s \<Longrightarrow> lock_reach ttl fresh prompt (lock_call ttl i s)"
  by (rule lock_reach.Step [OF _ lock_step.Call])

section \<open>Properties\<close>

text \<open>C7: As long as nobody stays inside (or dies inside, or fails to remove the directory) for more than twice the time to live, and nobody who has
  read the time of the directory waits until that time is older than this before comparing it with the clock, the
  lock directory excludes: at most one contender is between its acquire and its release, in every interleaving of
  the calls of the file system and of the clock of any number of contenders.\<close>

theorem lock_excludes_while_fresh:
  assumes "lock_reach ttl True True s" and "0 \<le> ttl" and "ls_pc s i = Inside" and "ls_pc s j = Inside"
  shows "i = j"
  using lock_ok_reach [OF assms(1,2)] assms(3,4) by (auto simp: lock_ok_def)

definition free_lock :: lock_state where
  "free_lock = \<lparr>ls_dir = None, ls_clock = 0, ls_pc = (\<lambda>_. Outside)\<rparr>"

lemma lock_excludes_while_fresh_witness:
  "{i. ls_pc (lock_call 10 1 (lock_call 10 0 free_lock)) i = Inside} = {0}"
proof -
  have r: "lock_reach 10 True True (lock_call 10 1 (lock_call 10 0 free_lock))"
    by (intro lock_reach_call lock_reach.Start) (simp_all add: free_lock_def)
  have i: "ls_pc (lock_call 10 1 (lock_call 10 0 free_lock)) 0 = Inside"
    by (simp add: lock_call_def free_lock_def)
  from lock_excludes_while_fresh [OF r _ _ i] i show ?thesis by auto
qed

text \<open>Recovering a stale lock is not exclusive: two contenders that both judge the same abandoned
  directory stale can both get inside, because the second \<open>rmdir\<close> removes the directory the
  first has just created.\<close>

theorem stale_lock_lets_two_in:
  "\<exists>s. lock_reach 10 False True s \<and> ls_pc s 0 = Inside \<and> ls_pc s 1 = Inside"
proof -
  let ?s0 = "\<lparr>ls_dir = Some 0, ls_clock = 100, ls_pc = (\<lambda>_. Outside)\<rparr>"
  let ?c = "lock_call 10"
  let ?s = "?c 1 (?c 1 (?c 0 (?c 0 (?c 1 (?c 0 (?c 1 (?c 0 (?c 1 (?c 0 ?s0)))))))))"
  have "lock_reach 10 False True ?s" by (intro lock_reach_call lock_reach.Start) simp_all
  moreover have "ls_pc ?s 0 = Inside \<and> ls_pc ?s 1 = Inside"
    by (simp add: lock_call_def too_old_def stale_multiplier_def)
  ultimately show ?thesis by blast
qed

text \<open>The promptness is needed: although no directory ever gets stale, a contender that pauses between reading the
  time of one lock and reading the clock removes the fresh lock that another has taken in the meantime.\<close>

theorem paused_reader_lets_two_in:
  "\<exists>s. lock_reach 10 True False s \<and> ls_pc s 1 = Inside \<and> ls_pc s 2 = Inside"
proof -
  let ?c = "lock_call 10"
  let ?a = "?c 0 (?c 1 (?c 1 (?c 0 free_lock)))"
  let ?s = "?c 1 (?c 1 (?c 1 (?c 2 (?a\<lparr>ls_clock := 100\<rparr>))))"
  have "lock_reach 10 True False ?a" by (intro lock_reach_call lock_reach.Start) (simp_all add: free_lock_def)
  moreover have "lock_step 10 True False ?a (?a\<lparr>ls_clock := 100\<rparr>)"
    by (rule lock_step.Wait) (simp_all add: lock_call_def free_lock_def stale_at_def)
  ultimately have "lock_reach 10 True False (?a\<lparr>ls_clock := 100\<rparr>)" by (rule lock_reach.Step)
  then have "lock_reach 10 True False ?s" by (intro lock_reach_call)
  moreover have "ls_pc ?s 1 = Inside \<and> ls_pc ?s 2 = Inside"
    by (simp add: lock_call_def free_lock_def too_old_def stale_multiplier_def)
  ultimately show ?thesis by blast
qed

end
