(* ===== verification/GroupLease.thy ===== *)
theory GroupLease
  imports LeaderElection
begin

text \<open>
  The file-based lease of a service group, \<open>coordination/service_group_lease.py\<close>: the same
  record file and lock directory as the leader election, one pair per election and service
  group.  It differs in three places: the reader also checks the service group, an owner that
  acquires again is told it acquired, and a record that cannot be replaced is reported as written.
\<close>

section \<open>The lease record\<close>

record lease_record =
  sr_election :: string
  sr_sg :: int
  sr_owner :: string
  sr_acquired :: real
  sr_expires :: real

text \<open>The fields of the JSON object, converted as the reader converts them.\<close>

record lease_fields =
  sf_election :: string
  sf_sg :: "int option"
  sf_owner :: string
  sf_acquired :: "real option"
  sf_expires :: "real option"

record lease_config =
  lease_election :: string
  lease_sg :: int
  lease_owner :: string
  lease_ttl :: int

type_synonym lease_files = "lease_fields claim_files"

definition lease_fields_of :: "lease_record \<Rightarrow> lease_fields" where
  "lease_fields_of r =
     \<lparr>sf_election = sr_election r, sf_sg = Some (sr_sg r), sf_owner = sr_owner r,
      sf_acquired = Some (sr_acquired r), sf_expires = Some (sr_expires r)\<rparr>"

text \<open>\<open>__init__\<close>; the group identifier is an integer by its type, \<open>mkdir_fails\<close> is whether the
  state directory cannot be created.\<close>

definition lease_init :: "bool \<Rightarrow> string \<Rightarrow> int \<Rightarrow> string \<Rightarrow> int \<Rightarrow> lease_config result" where
  "lease_init mkdir_fails name sg owner ttl =
     (if py_strip name = '''' then Inl (ValueError ''election_name must be non-empty.'')
      else if py_strip owner = '''' then Inl (ValueError ''owner_id must be non-empty.'')
      else if sg < 0 then Inl (ValueError ''sg_id must be non-negative.'')
      else if ttl < 1 then Inl (ValueError ''ttl_seconds must be greater than zero.'')
      else if mkdir_fails then Inl OSError
      else Inr \<lparr>lease_election = py_strip name, lease_sg = sg, lease_owner = py_strip owner, lease_ttl = ttl\<rparr>)"

definition lease_empty_record :: "lease_config \<Rightarrow> lease_record" where
  "lease_empty_record c =
     \<lparr>sr_election = lease_election c, sr_sg = lease_sg c, sr_owner = '''', sr_acquired = 0, sr_expires = 0\<rparr>"

definition lease_new_record :: "lease_config \<Rightarrow> real \<Rightarrow> lease_record" where
  "lease_new_record c now =
     \<lparr>sr_election = lease_election c, sr_sg = lease_sg c, sr_owner = lease_owner c, sr_acquired = now,
      sr_expires = now + real_of_int (lease_ttl c)\<rparr>"

definition lease_is_expired :: "lease_record \<Rightarrow> real \<Rightarrow> bool" where
  "lease_is_expired r now = (sr_expires r \<le> now)"

definition lease_remaining :: "lease_record \<Rightarrow> real \<Rightarrow> real" where
  "lease_remaining r now = (let d = sr_expires r - now in if d < 0 then 0 else d)"

definition lease_read_record ::
  "lease_config \<Rightarrow> lease_fields record_file \<Rightarrow> (lease_record \<times> bool) result" where
  "lease_read_record c file =
     (case file of
        Absent \<Rightarrow> Inr (lease_empty_record c, False)
      | Unreadable \<Rightarrow> Inr (lease_empty_record c, False)
      | NotUtf8 \<Rightarrow> Inl (ValueError ''invalid utf-8'')
      | NotObject \<Rightarrow> Inr (lease_empty_record c, False)
      | Fields f \<Rightarrow>
          if sf_election f \<noteq> lease_election c then Inr (lease_empty_record c, False)
          else case sf_sg f of
            None \<Rightarrow> Inr (lease_empty_record c, False)
          | Some sg \<Rightarrow>
              if sg \<noteq> lease_sg c then Inr (lease_empty_record c, False)
              else case (sf_acquired f, sf_expires f) of
                     (Some a, Some e) \<Rightarrow>
                       Inr (\<lparr>sr_election = sf_election f, sr_sg = sg, sr_owner = sf_owner f,
                             sr_acquired = a, sr_expires = e\<rparr>, True)
                   | _ \<Rightarrow> Inr (lease_empty_record c, False))"

definition lease_write_atomic ::
  "os_env \<Rightarrow> lease_record \<Rightarrow> lease_files \<Rightarrow> bool result \<times> lease_files" where
  "lease_write_atomic env r fs =
     (case record_file fs of
        Absent \<Rightarrow>
          if open_error env then (Inl OSError, fs)
          else if write_error env
          then (Inr False, fs\<lparr>record_file := (if unlink_error env then Unreadable else Absent)\<rparr>)
          else (Inr True, fs\<lparr>record_file := Fields (lease_fields_of r)\<rparr>)
      | _ \<Rightarrow> (Inr False, fs))"

text \<open>\<open>_write_record_replace\<close> returns also when the record could not be written.\<close>

definition lease_write_replace :: "os_env \<Rightarrow> lease_record \<Rightarrow> lease_files \<Rightarrow> lease_files" where
  "lease_write_replace env r fs =
     (if replace_error env then fs else fs\<lparr>record_file := Fields (lease_fields_of r)\<rparr>)"

section \<open>The operations\<close>

record lease_acquire_result =
  sa_acquired :: bool
  sa_is_owner :: bool
  sa_sg :: int
  sa_owner :: string
  sa_acquired_at :: real
  sa_expires_at :: real
  sa_remaining :: real
  sa_message :: string

record lease_renew_result =
  sn_renewed :: bool
  sn_is_owner :: bool
  sn_sg :: int
  sn_owner :: string
  sn_acquired_at :: real
  sn_expires_at :: real
  sn_remaining :: real
  sn_message :: string

record lease_release_result =
  sl_released :: bool
  sl_is_owner :: bool
  sl_sg :: int
  sl_owner :: string
  sl_message :: string

record lease_status =
  ss_election :: string
  ss_sg :: int
  ss_is_owner :: bool
  ss_owner :: string
  ss_acquired_at :: real
  ss_expires_at :: real
  ss_remaining :: real
  ss_state_path :: string
  ss_message :: string

definition lease_acquire_model :: "bool \<Rightarrow> lease_record \<Rightarrow> real \<Rightarrow> string \<Rightarrow> lease_acquire_result" where
  "lease_acquire_model ok r now msg =
     \<lparr>sa_acquired = ok, sa_is_owner = ok, sa_sg = sr_sg r, sa_owner = sr_owner r, sa_acquired_at = sr_acquired r,
      sa_expires_at = sr_expires r, sa_remaining = lease_remaining r now, sa_message = msg\<rparr>"

definition lease_renew_model :: "bool \<Rightarrow> lease_record \<Rightarrow> real \<Rightarrow> string \<Rightarrow> lease_renew_result" where
  "lease_renew_model ok r now msg =
     \<lparr>sn_renewed = ok, sn_is_owner = ok, sn_sg = sr_sg r, sn_owner = sr_owner r, sn_acquired_at = sr_acquired r,
      sn_expires_at = sr_expires r, sn_remaining = lease_remaining r now, sn_message = msg\<rparr>"

definition lease_acquire_locked ::
  "lease_config \<Rightarrow> os_env \<Rightarrow> lease_files \<Rightarrow> lease_acquire_result result \<times> lease_files" where
  "lease_acquire_locked c env fs =
     (case lease_read_record c (record_file fs) of Inl x \<Rightarrow> (Inl x, fs) | Inr (r, valid) \<Rightarrow>
      let now = now_at env;
          new = lease_new_record c now
      in if valid \<and> \<not> lease_is_expired r now then
           (if sr_owner r = lease_owner c
            then (Inr (lease_acquire_model True r now ''Already lease owner.''), fs)
            else (Inr (lease_acquire_model False r now ''Lease held by another owner.''), fs))
         else
           (let written =
              (if valid then (Inr (), lease_write_replace env new fs)
               else case lease_write_atomic env new fs of
                      (Inl x, fs') \<Rightarrow> (Inl x, fs')
                    | (Inr True, fs') \<Rightarrow> (Inr (), fs')
                    | (Inr False, fs') \<Rightarrow> (Inr (), lease_write_replace env new fs'))
            in case written of
                 (Inl x, fs') \<Rightarrow> (Inl x, fs')
               | (Inr _, fs') \<Rightarrow> (Inr (lease_acquire_model True new now ''Lease acquired.''), fs')))"

definition lease_busy_acquire :: "lease_config \<Rightarrow> lease_acquire_result" where
  "lease_busy_acquire c =
     \<lparr>sa_acquired = False, sa_is_owner = False, sa_sg = lease_sg c, sa_owner = '''', sa_acquired_at = 0,
      sa_expires_at = 0, sa_remaining = 0, sa_message = ''Service group lease is busy.''\<rparr>"

definition lease_try_acquire ::
  "lease_config \<Rightarrow> os_env \<Rightarrow> lease_files \<Rightarrow> lease_acquire_result result \<times> lease_files" where
  "lease_try_acquire c env fs =
     (case acquire_lock (lease_ttl c) env fs of
        (Inl x, fs') \<Rightarrow> (Inl x, fs')
      | (Inr False, fs') \<Rightarrow> (Inr (lease_busy_acquire c), fs')
      | (Inr True, fs') \<Rightarrow>
          (let (out, fs'') = lease_acquire_locked c env fs' in (out, release_lock env fs'')))"

definition lease_renew_locked ::
  "lease_config \<Rightarrow> os_env \<Rightarrow> lease_files \<Rightarrow> lease_renew_result result \<times> lease_files" where
  "lease_renew_locked c env fs =
     (case lease_read_record c (record_file fs) of Inl x \<Rightarrow> (Inl x, fs) | Inr (r, valid) \<Rightarrow>
      let now = now_at env
      in if \<not> valid \<or> lease_is_expired r now
         then (Inr (lease_renew_model False r now ''No active lease.''), fs)
         else if sr_owner r \<noteq> lease_owner c
         then (Inr (lease_renew_model False r now ''Lease held by another owner.''), fs)
         else
           (let renewed = r\<lparr>sr_expires := now + real_of_int (lease_ttl c)\<rparr>
            in (Inr (lease_renew_model True renewed now ''Lease renewed.''), lease_write_replace env renewed fs)))"

definition lease_busy_renew :: "lease_config \<Rightarrow> lease_renew_result" where
  "lease_busy_renew c =
     \<lparr>sn_renewed = False, sn_is_owner = False, sn_sg = lease_sg c, sn_owner = '''', sn_acquired_at = 0,
      sn_expires_at = 0, sn_remaining = 0, sn_message = ''Service group lease is busy.''\<rparr>"

definition lease_renew ::
  "lease_config \<Rightarrow> os_env \<Rightarrow> lease_files \<Rightarrow> lease_renew_result result \<times> lease_files" where
  "lease_renew c env fs =
     (case acquire_lock (lease_ttl c) env fs of
        (Inl x, fs') \<Rightarrow> (Inl x, fs')
      | (Inr False, fs') \<Rightarrow> (Inr (lease_busy_renew c), fs')
      | (Inr True, fs') \<Rightarrow>
          (let (out, fs'') = lease_renew_locked c env fs' in (out, release_lock env fs'')))"

definition lease_release_model :: "bool \<Rightarrow> bool \<Rightarrow> int \<Rightarrow> string \<Rightarrow> string \<Rightarrow> lease_release_result" where
  "lease_release_model released owns sg owner msg =
     \<lparr>sl_released = released, sl_is_owner = owns, sl_sg = sg, sl_owner = owner, sl_message = msg\<rparr>"

definition lease_release_locked ::
  "lease_config \<Rightarrow> os_env \<Rightarrow> lease_files \<Rightarrow> lease_release_result result \<times> lease_files" where
  "lease_release_locked c env fs =
     (case lease_read_record c (record_file fs) of Inl x \<Rightarrow> (Inl x, fs) | Inr (r, valid) \<Rightarrow>
        if \<not> valid \<or> sr_owner r \<noteq> lease_owner c
        then (Inr (lease_release_model False False (sr_sg r) (sr_owner r) ''Lease not held by caller.''), fs)
        else if unlink_error env
        then (Inr (lease_release_model False True (sr_sg r) (sr_owner r) ''Failed to release lease record.''), fs)
        else (Inr (lease_release_model True False (lease_sg c) '''' ''Lease released.''),
              fs\<lparr>record_file := Absent\<rparr>))"

definition lease_release ::
  "lease_config \<Rightarrow> os_env \<Rightarrow> lease_files \<Rightarrow> lease_release_result result \<times> lease_files" where
  "lease_release c env fs =
     (case acquire_lock (lease_ttl c) env fs of
        (Inl x, fs') \<Rightarrow> (Inl x, fs')
      | (Inr False, fs') \<Rightarrow>
          (Inr (lease_release_model False False (lease_sg c) '''' ''Service group lease is busy.''), fs')
      | (Inr True, fs') \<Rightarrow>
          (let (out, fs'') = lease_release_locked c env fs' in (out, release_lock env fs'')))"

definition lease_file_stem :: "string \<Rightarrow> int \<Rightarrow> string" where
  "lease_file_stem name sg = name @ ''.sg-'' @ int_str sg"

definition lease_state_path :: "string \<Rightarrow> lease_config \<Rightarrow> string" where
  "lease_state_path dir c = dir @ ''/'' @ lease_file_stem (lease_election c) (lease_sg c) @ ''.json''"

definition lease_lock_path :: "string \<Rightarrow> lease_config \<Rightarrow> string" where
  "lease_lock_path dir c = dir @ ''/'' @ lease_file_stem (lease_election c) (lease_sg c) @ ''.lock''"

definition lease_get_status :: "string \<Rightarrow> lease_config \<Rightarrow> real \<Rightarrow> lease_files \<Rightarrow> lease_status result" where
  "lease_get_status dir c now fs =
     (case lease_read_record c (record_file fs) of Inl x \<Rightarrow> Inl x | Inr (r, valid) \<Rightarrow>
         if \<not> valid \<or> lease_is_expired r now
         then Inr \<lparr>ss_election = lease_election c, ss_sg = lease_sg c, ss_is_owner = False, ss_owner = '''',
               ss_acquired_at = 0, ss_expires_at = 0, ss_remaining = 0, ss_state_path = lease_state_path dir c,
               ss_message = ''No active lease.''\<rparr>
         else Inr \<lparr>ss_election = sr_election r, ss_sg = sr_sg r, ss_is_owner = (sr_owner r = lease_owner c),
               ss_owner = sr_owner r, ss_acquired_at = sr_acquired r, ss_expires_at = sr_expires r,
               ss_remaining = lease_remaining r now, ss_state_path = lease_state_path dir c,
               ss_message = ''Lease record present.''\<rparr>)"

section \<open>The lease as a registry of claims\<close>

definition lease_holder :: "string \<Rightarrow> int \<Rightarrow> lease_files \<Rightarrow> (string \<times> real) option" where
  "lease_holder name sg fs =
     (case lease_read_record \<lparr>lease_election = name, lease_sg = sg, lease_owner = '''', lease_ttl = 1\<rparr> (record_file fs) of
        Inr (r, True) \<Rightarrow> Some (sr_owner r, sr_expires r)
      | _ \<Rightarrow> None)"

abbreviation lease_cfg :: "string \<Rightarrow> int \<Rightarrow> int \<Rightarrow> string \<Rightarrow> lease_config" where
  "lease_cfg name sg ttl i \<equiv> \<lparr>lease_election = name, lease_sg = sg, lease_owner = i, lease_ttl = ttl\<rparr>"

definition lease_acquire_claim :: "string \<Rightarrow> int \<Rightarrow> int \<Rightarrow> (string, os_env, lease_files) claim_op" where
  "lease_acquire_claim name sg ttl i t env fs =
     (case lease_try_acquire (lease_cfg name sg ttl i) (env\<lparr>now_at := t\<rparr>) fs of
        (Inl _, fs') \<Rightarrow> (Unknown, fs')
      | (Inr out, fs') \<Rightarrow> (if sa_is_owner out then Held (sa_expires_at out) else NotHeld, fs'))"

definition lease_renew_claim :: "string \<Rightarrow> int \<Rightarrow> int \<Rightarrow> (string, os_env, lease_files) claim_op" where
  "lease_renew_claim name sg ttl i t env fs =
     (case lease_renew (lease_cfg name sg ttl i) (env\<lparr>now_at := t\<rparr>) fs of
        (Inl _, fs') \<Rightarrow> (Unknown, fs')
      | (Inr out, fs') \<Rightarrow> (if sn_is_owner out then Held (sn_expires_at out) else NotHeld, fs'))"

definition lease_release_claim :: "string \<Rightarrow> int \<Rightarrow> int \<Rightarrow> (string, os_env, lease_files) claim_op" where
  "lease_release_claim name sg ttl i t env fs =
     (case lease_release (lease_cfg name sg ttl i) (env\<lparr>now_at := t\<rparr>) fs of
        (Inl _, fs') \<Rightarrow> (Unknown, fs')
      | (Inr out, fs') \<Rightarrow> (if sl_is_owner out then Unknown else NotHeld, fs'))"

text \<open>The same operation when records can be replaced.\<close>

definition replaceable :: "(string, os_env, lease_files) claim_op \<Rightarrow> (string, os_env, lease_files) claim_op" where
  "replaceable f i t env fs = f i t (env\<lparr>replace_error := False\<rparr>) fs"

section \<open>Lemmas\<close>

text \<open>All three operations take the lock, run their locked part and unlock.\<close>

definition under_lock ::
  "int \<Rightarrow> os_env \<Rightarrow> 'a \<Rightarrow> ('f claim_files \<Rightarrow> 'a result \<times> 'f claim_files) \<Rightarrow> 'f claim_files \<Rightarrow>
   'a result \<times> 'f claim_files" where
  "under_lock ttl env busy f fs =
     (case acquire_lock ttl env fs of
        (Inl x, fs') \<Rightarrow> (Inl x, fs')
      | (Inr False, fs') \<Rightarrow> (Inr busy, fs')
      | (Inr True, fs') \<Rightarrow> (let (out, fs'') = f fs' in (out, release_lock env fs'')))"

lemma lease_under_lock:
  "lease_try_acquire c env = under_lock (lease_ttl c) env (lease_busy_acquire c) (lease_acquire_locked c env)"
  "lease_renew c env = under_lock (lease_ttl c) env (lease_busy_renew c) (lease_renew_locked c env)"
  "lease_release c env = under_lock (lease_ttl c) env
     (lease_release_model False False (lease_sg c) '''' ''Service group lease is busy.'') (lease_release_locked c env)"
  by (simp_all add: fun_eq_iff lease_try_acquire_def lease_renew_def lease_release_def under_lock_def)

lemma under_lock_cases:
  assumes "under_lock ttl env busy f fs = (out, fs')"
  obtains (Busy) "out = Inr busy \<or> out = Inl OSError" "record_file fs' = record_file fs"
  | (Locked) fs1 fs2 where "record_file fs1 = record_file fs" "f fs1 = (out, fs2)" "fs' = release_lock env fs2"
proof (cases "acquire_lock ttl env fs")
  case (Pair r fs1)
  have rec: "record_file fs1 = record_file fs" by (rule acquire_lock_record [OF Pair])
  show ?thesis
  proof (cases "r = Inr True")
    case True
    with Pair assms have "(case f fs1 of (o', fs2) \<Rightarrow> (o', release_lock env fs2)) = (out, fs')"
      by (simp add: under_lock_def)
    with rec Locked show ?thesis by (auto split: prod.splits)
  next
    case False
    with Pair assms have "out = Inr busy \<or> out = Inl OSError" and "fs' = fs1"
      by (auto simp: under_lock_def acquire_lock_def split: sum.splits bool.splits if_splits option.splits)
    with rec Busy show ?thesis by simp
  qed
qed

lemma lease_holder_cong: "record_file fs = record_file fs' \<Longrightarrow> lease_holder name sg fs = lease_holder name sg fs'"
  by (simp add: lease_holder_def)

lemma lease_holder_release_lock [simp]: "lease_holder name sg (release_lock env fs) = lease_holder name sg fs"
  by (rule lease_holder_cong) simp

lemma lease_holder_lock_dir [simp]: "lease_holder name sg (fs\<lparr>lock_dir := d\<rparr>) = lease_holder name sg fs"
  by (rule lease_holder_cong) simp

lemma lease_read_cases:
  fixes name :: string and sg ttl :: int and i :: string and fs :: lease_files
  defines "c \<equiv> lease_cfg name sg ttl i"
  obtains (Raises) "record_file fs = NotUtf8" "lease_read_record c (record_file fs) = Inl (ValueError ''invalid utf-8'')"
      "lease_holder name sg fs = None"
  | (Invalid) "lease_read_record c (record_file fs) = Inr (lease_empty_record c, False)" "lease_holder name sg fs = None"
  | (Valid) r where "lease_read_record c (record_file fs) = Inr (r, True)" "sr_election r = name" "sr_sg r = sg"
      "lease_holder name sg fs = Some (sr_owner r, sr_expires r)"
proof (cases "record_file fs")
  case (Fields f)
  show ?thesis
  proof (cases "sf_election f = name \<and> sf_sg f = Some sg \<and> sf_acquired f \<noteq> None \<and> sf_expires f \<noteq> None")
    case True
    then obtain a e where "sf_acquired f = Some a" "sf_expires f = Some e" by auto
    with True Fields c_def show ?thesis
      by (intro Valid [of "\<lparr>sr_election = name, sr_sg = sg, sr_owner = sf_owner f, sr_acquired = a, sr_expires = e\<rparr>"])
        (simp_all add: lease_read_record_def lease_holder_def)
  next
    case False
    with Fields c_def show ?thesis
      by (intro Invalid) (auto simp: lease_read_record_def lease_holder_def split: option.splits)
  qed
qed (use c_def Raises Invalid in \<open>auto simp: lease_read_record_def lease_holder_def\<close>)

lemma lease_holder_written [simp]:
  "sr_election r = name \<Longrightarrow> sr_sg r = sg \<Longrightarrow>
   lease_holder name sg (fs\<lparr>record_file := Fields (lease_fields_of r)\<rparr>) = Some (sr_owner r, sr_expires r)"
  by (simp add: lease_holder_def lease_read_record_def lease_fields_of_def)

text \<open>The locked parts, by what the record says.\<close>

lemma lease_acquire_locked_running:
  assumes "lease_read_record c (record_file fs) = Inr (r, True)" and "now_at env < sr_expires r"
  shows "lease_acquire_locked c env fs =
    (Inr (lease_acquire_model (sr_owner r = lease_owner c) r (now_at env)
       (if sr_owner r = lease_owner c then ''Already lease owner.'' else ''Lease held by another owner.'')), fs)"
  using assms by (simp add: lease_acquire_locked_def lease_is_expired_def Let_def)

lemma lease_acquire_locked_free:
  assumes "lease_read_record c (record_file fs) = Inr (r, v)" and "\<not> (v \<and> now_at env < sr_expires r)"
    and "lease_acquire_locked c env fs = (out, fs')" and "\<not> replace_error env"
  shows "out = Inr (lease_acquire_model True (lease_new_record c (now_at env)) (now_at env) ''Lease acquired.'')
      \<and> record_file fs' = Fields (lease_fields_of (lease_new_record c (now_at env)))
    \<or> out = Inl OSError"
  using assms
  by (auto simp: lease_acquire_locked_def lease_is_expired_def lease_write_replace_def lease_write_atomic_def Let_def
      split: prod.splits sum.splits bool.splits if_splits record_file.splits)

lemma lease_renew_locked_refused:
  assumes "lease_read_record c (record_file fs) = Inr (r, v)"
    and "\<not> v \<or> sr_expires r \<le> now_at env \<or> sr_owner r \<noteq> lease_owner c"
  shows "\<exists>msg. lease_renew_locked c env fs = (Inr (lease_renew_model False r (now_at env) msg), fs)"
  using assms by (auto simp: lease_renew_locked_def lease_is_expired_def Let_def)

lemma lease_renew_locked_granted:
  assumes "lease_read_record c (record_file fs) = Inr (r, True)"
    and "now_at env < sr_expires r" and "sr_owner r = lease_owner c"
  shows "lease_renew_locked c env fs =
    (Inr (lease_renew_model True (r\<lparr>sr_expires := now_at env + real_of_int (lease_ttl c)\<rparr>) (now_at env) ''Lease renewed.''),
     lease_write_replace env (r\<lparr>sr_expires := now_at env + real_of_int (lease_ttl c)\<rparr>) fs)"
  using assms by (simp add: lease_renew_locked_def lease_is_expired_def Let_def)

subsection \<open>The laws of the registry\<close>

lemma lease_claim_cases:
  shows "lease_acquire_claim name sg ttl i t env fs = (r, fs') \<Longrightarrow>
      \<exists>out. lease_try_acquire (lease_cfg name sg ttl i) (env\<lparr>now_at := t\<rparr>) fs = (out, fs') \<and>
        r = (case out of Inl _ \<Rightarrow> Unknown | Inr o' \<Rightarrow> if sa_is_owner o' then Held (sa_expires_at o') else NotHeld)"
    and "lease_renew_claim name sg ttl i t env fs = (r, fs') \<Longrightarrow>
      \<exists>out. lease_renew (lease_cfg name sg ttl i) (env\<lparr>now_at := t\<rparr>) fs = (out, fs') \<and>
        r = (case out of Inl _ \<Rightarrow> Unknown | Inr o' \<Rightarrow> if sn_is_owner o' then Held (sn_expires_at o') else NotHeld)"
    and "lease_release_claim name sg ttl i t env fs = (r, fs') \<Longrightarrow>
      \<exists>out. lease_release (lease_cfg name sg ttl i) (env\<lparr>now_at := t\<rparr>) fs = (out, fs') \<and>
        r = (case out of Inl _ \<Rightarrow> Unknown | Inr o' \<Rightarrow> if sl_is_owner o' then Unknown else NotHeld)"
  by (auto simp: lease_acquire_claim_def lease_renew_claim_def lease_release_claim_def split: prod.splits sum.splits)

text \<open>What an acquire does to the registry when records can be replaced.\<close>

lemma lease_acquire_claim_effect:
  assumes "lease_acquire_claim name sg ttl i t env fs = (r, fs')" and "\<not> replace_error env"
  shows "(\<forall>x. r = Held x \<longrightarrow> lease_holder name sg fs' = Some (i, x)) \<and>
    (running (lease_holder name sg fs) t \<longrightarrow> lease_holder name sg fs' = lease_holder name sg fs)"
proof -
  let ?c = "lease_cfg name sg ttl i" and ?env = "env\<lparr>now_at := t\<rparr>"
  obtain out where out: "lease_try_acquire ?c ?env fs = (out, fs')"
    and r: "r = (case out of Inl _ \<Rightarrow> Unknown | Inr o' \<Rightarrow> if sa_is_owner o' then Held (sa_expires_at o') else NotHeld)"
    using lease_claim_cases(1) [OF assms(1)] by blast
  from out [unfolded lease_under_lock] show ?thesis
  proof (cases rule: under_lock_cases)
    case Busy
    with r lease_holder_cong [OF Busy(2)] show ?thesis by (auto simp: lease_busy_acquire_def)
  next
    case (Locked fs1 fs2)
    note h1 = lease_holder_cong [OF Locked(1), of name sg]
    have eff: ?thesis if "record_file fs2 = Fields (lease_fields_of (lease_new_record ?c t)) \<or> out = Inl OSError"
      "out = Inl OSError \<or> out = Inr (lease_acquire_model True (lease_new_record ?c t) t ''Lease acquired.'')"
      "\<not> running (lease_holder name sg fs) t"
      using that r Locked(3)
      by (auto simp: lease_acquire_model_def lease_new_record_def lease_holder_def lease_read_record_def lease_fields_of_def)
    show ?thesis
    proof (cases rule: lease_read_cases [where fs = fs1 and name = name and sg = sg and ttl = ttl and i = i])
      case Raises
      with Locked(2) have "out = Inl (ValueError ''invalid utf-8'')" "fs2 = fs1"
        by (simp_all add: lease_acquire_locked_def)
      with r Locked(3) h1 show ?thesis by simp
    next
      case Invalid
      then have "out = Inr (lease_acquire_model True (lease_new_record ?c t) t ''Lease acquired.'') \<and>
          record_file fs2 = Fields (lease_fields_of (lease_new_record ?c t)) \<or> out = Inl OSError"
        using lease_acquire_locked_free [OF Invalid(1) _ Locked(2)] assms(2) by simp
      then show ?thesis by (intro eff) (use Invalid(2) h1 in auto)
    next
      case (Valid q)
      show ?thesis
      proof (cases "t < sr_expires q")
        case True
        with lease_acquire_locked_running [OF Valid(1), of ?env] Locked(2,3) r Valid h1 show ?thesis
          by (auto simp: lease_acquire_model_def)
      next
        case False
        then have "out = Inr (lease_acquire_model True (lease_new_record ?c t) t ''Lease acquired.'') \<and>
            record_file fs2 = Fields (lease_fields_of (lease_new_record ?c t)) \<or> out = Inl OSError"
          using lease_acquire_locked_free [OF Valid(1) _ Locked(2)] assms(2) by simp
        then show ?thesis by (intro eff) (use Valid(4) h1 False in auto)
      qed
    qed
  qed
qed

text \<open>A renewal changes the registry only when it is granted, and then the caller's own entry.\<close>

lemma lease_renew_claim_effect:
  assumes "lease_renew_claim name sg ttl i t env fs = (r, fs')" and "\<not> replace_error env"
  shows "lease_holder name sg fs' = lease_holder name sg fs \<and> (\<forall>x. r \<noteq> Held x) \<or>
    (\<exists>x. r = Held x \<and> lease_holder name sg fs' = Some (i, x)) \<and> (\<exists>y. lease_holder name sg fs = Some (i, y))"
proof -
  let ?c = "lease_cfg name sg ttl i" and ?env = "env\<lparr>now_at := t\<rparr>"
  obtain out where out: "lease_renew ?c ?env fs = (out, fs')"
    and r: "r = (case out of Inl _ \<Rightarrow> Unknown | Inr o' \<Rightarrow> if sn_is_owner o' then Held (sn_expires_at o') else NotHeld)"
    using lease_claim_cases(2) [OF assms(1)] by blast
  from out [unfolded lease_under_lock] show ?thesis
  proof (cases rule: under_lock_cases)
    case Busy
    with r lease_holder_cong [OF Busy(2)] show ?thesis by (auto simp: lease_busy_renew_def)
  next
    case (Locked fs1 fs2)
    note h1 = lease_holder_cong [OF Locked(1), of name sg]
    have refused: ?thesis if "lease_read_record ?c (record_file fs1) = Inr (q, v)"
      "\<not> v \<or> sr_expires q \<le> now_at ?env \<or> sr_owner q \<noteq> lease_owner ?c" for q v
      using lease_renew_locked_refused [OF that] Locked(2,3) r h1 by (auto simp: lease_renew_model_def)
    show ?thesis
    proof (cases rule: lease_read_cases [where fs = fs1 and name = name and sg = sg and ttl = ttl and i = i])
      case Raises
      with Locked(2) have "out = Inl (ValueError ''invalid utf-8'')" "fs2 = fs1"
        by (simp_all add: lease_renew_locked_def)
      with r Locked(3) h1 show ?thesis by simp
    next
      case Invalid
      then show ?thesis by (intro refused) auto
    next
      case (Valid q)
      show ?thesis
      proof (cases "now_at ?env < sr_expires q \<and> sr_owner q = lease_owner ?c")
        case True
        with lease_renew_locked_granted [OF Valid(1)] Locked(2,3) assms(2) r Valid h1 show ?thesis
          by (auto simp: lease_renew_model_def lease_write_replace_def)
      next
        case False
        then show ?thesis by (intro refused [OF Valid(1)]) auto
      qed
    qed
  qed
qed

text \<open>A granted renewal leaves a record of the caller, also when the new one could not be written.\<close>

lemma lease_renewed_keeps_owner:
  assumes "lease_renew_claim name sg ttl i t env fs = (Held x, fs')"
  shows "\<exists>y. lease_holder name sg fs' = Some (i, y)"
proof (cases "replace_error env")
  case False
  with lease_renew_claim_effect [OF assms] show ?thesis by auto
next
  case True
  let ?c = "lease_cfg name sg ttl i" and ?env = "env\<lparr>now_at := t\<rparr>"
  obtain out where out: "lease_renew ?c ?env fs = (out, fs')"
    and r: "Held x = (case out of Inl _ \<Rightarrow> Unknown | Inr o' \<Rightarrow> if sn_is_owner o' then Held (sn_expires_at o') else NotHeld)"
    using lease_claim_cases(2) [OF assms] by blast
  from out [unfolded lease_under_lock] show ?thesis
  proof (cases rule: under_lock_cases)
    case Busy
    with r show ?thesis by (auto simp: lease_busy_renew_def)
  next
    case (Locked fs1 fs2)
    have refused: ?thesis if "lease_read_record ?c (record_file fs1) = Inr (q, v)"
      "\<not> v \<or> sr_expires q \<le> now_at ?env \<or> sr_owner q \<noteq> lease_owner ?c" for q v
      using lease_renew_locked_refused [OF that] Locked(2) r by (auto simp: lease_renew_model_def)
    show ?thesis
    proof (cases rule: lease_read_cases [where fs = fs1 and name = name and sg = sg and ttl = ttl and i = i])
      case Raises
      with Locked(2) r show ?thesis by (auto simp: lease_renew_locked_def)
    next
      case Invalid
      then show ?thesis by (intro refused) auto
    next
      case (Valid q)
      show ?thesis
      proof (cases "now_at ?env < sr_expires q \<and> sr_owner q = lease_owner ?c")
        case grants: True
        then have "fs2 = fs1" using lease_renew_locked_granted [OF Valid(1)] Locked(2) True by (simp add: lease_write_replace_def)
        then show ?thesis using Valid grants Locked(3) by auto
      next
        case False
        then show ?thesis by (intro refused [OF Valid(1)]) auto
      qed
    qed
  qed
qed

lemma lease_release_claim_effect:
  assumes "lease_release_claim name sg ttl i t env fs = (r, fs')"
  shows "lease_holder name sg fs' = lease_holder name sg fs \<and> (\<forall>x. r \<noteq> Held x) \<or>
    r = NotHeld \<and> (\<exists>x. lease_holder name sg fs = Some (i, x))"
proof -
  let ?c = "lease_cfg name sg ttl i" and ?env = "env\<lparr>now_at := t\<rparr>"
  obtain out where out: "lease_release ?c ?env fs = (out, fs')"
    and r: "r = (case out of Inl _ \<Rightarrow> Unknown | Inr o' \<Rightarrow> if sl_is_owner o' then Unknown else NotHeld)"
    using lease_claim_cases(3) [OF assms(1)] by blast
  from out [unfolded lease_under_lock] show ?thesis
  proof (cases rule: under_lock_cases)
    case Busy
    with r lease_holder_cong [OF Busy(2)] show ?thesis by (auto simp: lease_release_model_def)
  next
    case (Locked fs1 fs2)
    note h1 = lease_holder_cong [OF Locked(1), of name sg]
    show ?thesis
      by (cases rule: lease_read_cases [where fs = fs1 and name = name and sg = sg and ttl = ttl and i = i])
        (use Locked(2,3) r h1 in \<open>auto simp: lease_release_locked_def lease_release_model_def split: if_splits\<close>)
  qed
qed

interpretation lease: ttl_registry "\<lambda>_. True" "replaceable (lease_acquire_claim name sg ttl)"
  "replaceable (lease_renew_claim name sg ttl)" "replaceable (lease_release_claim name sg ttl)"
  "lease_holder name sg"
  for name sg ttl
proof unfold_locales
  fix i j :: string and t x :: real and e s r s'
  show "replaceable (lease_acquire_claim name sg ttl) i t e s = (Held x, s') \<Longrightarrow> lease_holder name sg s' = Some (i, x)"
    unfolding replaceable_def by (drule lease_acquire_claim_effect) auto
  show "lease_holder name sg s = Some (j, x) \<Longrightarrow> t < x \<Longrightarrow>
    replaceable (lease_acquire_claim name sg ttl) i t e s = (r, s') \<Longrightarrow> lease_holder name sg s' = Some (j, x)"
    unfolding replaceable_def by (drule lease_acquire_claim_effect) auto
  show "replaceable (lease_renew_claim name sg ttl) i t e s = (Held x, s') \<Longrightarrow> lease_holder name sg s' = Some (i, x)"
    unfolding replaceable_def by (drule lease_renew_claim_effect) auto
  show "i \<noteq> j \<Longrightarrow> lease_holder name sg s = Some (j, x) \<Longrightarrow>
    replaceable (lease_renew_claim name sg ttl) i t e s = (r, s') \<Longrightarrow> lease_holder name sg s' = Some (j, x)"
    unfolding replaceable_def by (drule lease_renew_claim_effect) auto
  show "replaceable (lease_renew_claim name sg ttl) i t e s = (Unknown, s') \<Longrightarrow>
    lease_holder name sg s' = lease_holder name sg s"
    unfolding replaceable_def by (drule lease_renew_claim_effect) auto
  show "i \<noteq> j \<Longrightarrow> lease_holder name sg s = Some (j, x) \<Longrightarrow>
    replaceable (lease_release_claim name sg ttl) i t e s = (r, s') \<Longrightarrow> lease_holder name sg s' = Some (j, x)"
    unfolding replaceable_def by (drule lease_release_claim_effect) auto
  show "replaceable (lease_release_claim name sg ttl) i t e s = (Unknown, s') \<Longrightarrow>
    lease_holder name sg s' = lease_holder name sg s"
    unfolding replaceable_def by (drule lease_release_claim_effect) auto
  show "replaceable (lease_release_claim name sg ttl) i t e s \<noteq> (Held x, s')"
    unfolding replaceable_def using lease_release_claim_effect [of name sg ttl i t _ s "Held x" s'] by auto
qed

lemmas lease_defs = lease_acquire_claim_def lease_renew_claim_def lease_release_claim_def
  lease_try_acquire_def lease_renew_def lease_release_def lease_acquire_locked_def lease_renew_locked_def
  lease_release_locked_def lease_read_record_def lease_write_atomic_def lease_write_replace_def
  acquire_lock_def release_lock_def lease_acquire_model_def lease_renew_model_def lease_release_model_def
  lease_new_record_def lease_fields_of_def lease_is_expired_def calm_def

section \<open>Properties\<close>


definition demo_lease_files :: lease_files where
  "demo_lease_files = \<lparr>lock_dir = None, record_file = NotObject\<rparr>"

definition demo_lease ::
  "((string, os_env, lease_files) claim_op \<Rightarrow> (string, os_env, lease_files) claim_op) \<Rightarrow>
   os_env \<Rightarrow> (string, lease_files) registry_world" where
  "demo_lease g env = apply_claim_op (g (lease_acquire_claim ''cmts'' 7 30)) ''b'' env
     (apply_claim_op (g (lease_acquire_claim ''cmts'' 7 30)) ''a'' env
       \<lparr>registry = demo_lease_files, clock = 100, belief = (\<lambda>_. None)\<rparr>)"

lemma demo_lease_reach:
  "registry_reach (\<lambda>_. True) (g (lease_acquire_claim ''cmts'' 7 30))
     (g (lease_renew_claim ''cmts'' 7 30)) (g (lease_release_claim ''cmts'' 7 30)) (demo_lease g env)"
  unfolding demo_lease_def
  by (rule registry_reach.Step [OF registry_reach.Step [OF registry_reach.Start
        registry_step.Acquire] registry_step.Acquire]) simp_all



text \<open>When the record cannot be replaced (a full disk, say), the lease loses its mutual exclusion:
  \<open>_write_record_replace\<close> swallows the \<open>OSError\<close> and the acquire reports success, so two
  owners one after the other are both told that they hold the lease.\<close>

theorem lease_two_owners_on_write_failure:
  "\<exists>w i j. registry_reach (\<lambda>_. True) (lease_acquire_claim ''cmts'' 7 30)
      (lease_renew_claim ''cmts'' 7 30) (lease_release_claim ''cmts'' 7 30) w \<and>
     i \<noteq> j \<and> believes w i \<and> believes w j"
proof -
  let ?w = "demo_lease (\<lambda>f. f) ((calm 100)\<lparr>replace_error := True\<rparr>)"
  have "believes ?w ''a'' \<and> believes ?w ''b''"
    by (simp add: demo_lease_def demo_lease_files_def believes_def apply_claim_op_def learn_def
        lease_defs Let_def)
  with demo_lease_reach [of "\<lambda>f. f"] show ?thesis
    by (intro exI [of _ ?w] exI [of _ "''a''"] exI [of _ "''b''"]) auto
qed

definition lease_view :: "lease_config \<Rightarrow> lease_files \<Rightarrow> (string \<times> real) option" where
  "lease_view c fs = lease_holder (lease_election c) (lease_sg c) fs"

text \<open>Without faults, with the lock free and a record file that is UTF-8, the three operations
  refine the abstract claim: a running lease is not taken over (its own owner is told it
  acquired), an expired, missing or corrupt one is, a renewal is granted exactly to the running
  owner, a release removes exactly the caller's record; nothing raises and the lock is free again.\<close>

theorem lease_refines_claim:
  assumes "lock_dir fs = None" and "record_file fs \<noteq> NotUtf8"
  shows "(case lease_try_acquire c (calm t) fs of
            (Inr out, fs') \<Rightarrow> lock_dir fs' = None \<and> (sa_acquired out, lease_view c fs') =
               claim_acquire (lease_owner c) (real_of_int (lease_ttl c)) t (lease_view c fs)
          | _ \<Rightarrow> False) \<and>
         (case lease_renew c (calm t) fs of
            (Inr out, fs') \<Rightarrow> lock_dir fs' = None \<and> (sn_renewed out, lease_view c fs') =
               claim_renew (lease_owner c) (real_of_int (lease_ttl c)) t (lease_view c fs)
          | _ \<Rightarrow> False) \<and>
         (case lease_release c (calm t) fs of
            (Inr out, fs') \<Rightarrow> lock_dir fs' = None \<and> (sl_released out, lease_view c fs') =
               claim_release (lease_owner c) (lease_view c fs)
          | _ \<Rightarrow> False)"
proof -
  obtain name sg ttl i where c: "c = lease_cfg name sg ttl i"
    by (cases c) simp
  have absent: "lease_holder name sg (fs\<lparr>record_file := Absent\<rparr>) = None"
    by (simp add: lease_holder_def lease_read_record_def)
  have atomic: "lease_write_atomic (calm t) r f =
     (if record_file f = Absent then (Inr True, f\<lparr>record_file := Fields (lease_fields_of r)\<rparr>) else (Inr False, f))" for r f
    by (simp add: lease_write_atomic_def split: record_file.splits)
  note ops = lease_try_acquire_def lease_acquire_locked_def lease_renew_def lease_renew_locked_def
    lease_release_def lease_release_locked_def lease_write_replace_def lease_is_expired_def
    lease_acquire_model_def lease_renew_model_def lease_release_model_def lease_new_record_def
    claim_acquire_def claim_renew_def claim_release_def Let_def
  have new: "lease_holder name sg (f\<lparr>record_file := Fields (lease_fields_of
       \<lparr>sr_election = name, sr_sg = sg, sr_owner = j, sr_acquired = a, sr_expires = e\<rparr>)\<rparr>) = Some (j, e)" for f j a e
    by simp
  show ?thesis
  proof (cases rule: lease_read_cases [where fs = fs and name = name and sg = sg and ttl = ttl and i = i])
    case Raises
    with assms(2) show ?thesis by simp
  next
    case Invalid
    then show ?thesis
      using assms(1) by (simp add: c lease_view_def ops atomic new del: lease_holder_written)
  next
    case (Valid r)
    then have ren: "lease_holder name sg (f\<lparr>record_file := Fields (lease_fields_of (r\<lparr>sr_expires := e\<rparr>))\<rparr>) =
        Some (sr_owner r, e)" for f e by simp
    from Valid assms(1) show ?thesis
      by (simp add: c lease_view_def ops new ren absent del: lease_holder_written)
  qed
qed

lemma lease_refines_claim_witness:
  "lease_view (lease_cfg ''cmts'' 7 30 ''a'')
     (snd (lease_try_acquire (lease_cfg ''cmts'' 7 30 ''a'') (calm 100) demo_lease_files)) = Some (''a'', 130)"
proof -
  have "lease_view (lease_cfg ''cmts'' 7 30 ''a'') demo_lease_files = None"
    by (simp add: lease_view_def lease_holder_def lease_read_record_def demo_lease_files_def)
  then show ?thesis
    using lease_refines_claim [of demo_lease_files "lease_cfg ''cmts'' 7 30 ''a''" 100]
    by (auto simp: demo_lease_files_def claim_acquire_def split: prod.splits sum.splits)
qed

text \<open>Leases of different elections or service groups never share a record file or a lock
  directory: the file stem determines the election name and the group.\<close>

theorem lease_files_disjoint:
  assumes "0 \<le> sg" and "0 \<le> sg'" and "lease_file_stem name sg = lease_file_stem name' sg'"
  shows "name = name' \<and> sg = sg'"
proof -
  define digit where "digit c = (48 \<le> (of_char c :: nat) \<and> (of_char c :: nat) \<le> 57)" for c :: char
  have digits: "\<forall>c \<in> set (rev (int_str k)). digit c" if "0 \<le> k" for k
    using that nat_str_digits by (auto simp: int_str_def digit_def)
  have tw: "takeWhile digit (rev (int_str k) @ ''-gs.'' @ ys) = rev (int_str k)" if "0 \<le> k" for k ys
  proof -
    have "takeWhile digit (rev (int_str k) @ ''-gs.'' @ ys) = rev (int_str k) @ takeWhile digit (''-gs.'' @ ys)"
      by (rule takeWhile_append2) (use digits [OF that] in blast)
    then show ?thesis by (simp add: digit_def)
  qed
  have rv: "rev (int_str sg) @ ''-gs.'' @ rev name = rev (int_str sg') @ ''-gs.'' @ rev name'"
    using arg_cong [OF assms(3), of rev] by (simp add: lease_file_stem_def)
  then have "rev (int_str sg) = rev (int_str sg')"
    using tw [OF assms(1)] tw [OF assms(2)] by metis
  with rv int_str_inj [OF assms(1,2)] show ?thesis by simp
qed

lemma lease_files_disjoint_witness: "\<not> lease_file_stem ''cmts'' 1 = lease_file_stem ''cmts'' 11"
  using lease_files_disjoint [of 1 11 "''cmts''" "''cmts''"] by auto

end
