(* ===== verification/CoordinationManager.thy ===== *)
theory CoordinationManager
  imports GroupLease "HOL-Library.Product_Lexorder"
begin

text \<open>
  The coordination manager, \<open>coordination/manager.py\<close>: one contender's view of the leader
  election and of the leases of many service groups.  Its state is the set of leases it believes
  to hold, as a list without repetition, and the files it works on; the operating system's
  answers to its calls are a script, one entry per call.  An exception leaves the tick with the
  state reached so far.
\<close>

section \<open>Configuration and state\<close>

record coord_config =
  cc_leader :: leader_config
  cc_election :: string
  cc_owner :: string
  cc_lease_ttl :: int
  cc_target :: int
  cc_shard_mode :: string
  cc_leader_enabled :: bool
  cc_state_dir :: string

record coord_state =
  held :: "int list"
  leader_fs :: leader_files
  lease_fs :: "int \<Rightarrow> lease_files"
  calls :: nat

type_synonym os_script = "nat \<Rightarrow> os_env"

record tick_result =
  ct_is_leader :: bool
  ct_leader :: string
  ct_acquired :: "int list"
  ct_renewed :: "int list"
  ct_released :: "int list"
  ct_failed :: "int list"
  ct_message :: string

record release_all_result =
  cr_leader :: bool
  cr_released :: "int list"
  cr_failed :: "int list"
  cr_message :: string

record coord_status =
  cs_is_leader :: bool
  cs_leader :: string
  cs_held :: "int list"
  cs_message :: string

definition coord_init ::
  "string \<Rightarrow> string \<Rightarrow> string \<Rightarrow> string \<Rightarrow> int \<Rightarrow> int \<Rightarrow> int \<Rightarrow> string \<Rightarrow> bool \<Rightarrow>
   (string \<Rightarrow> bool) option \<Rightarrow> leader_files \<Rightarrow> (int \<Rightarrow> lease_files) \<Rightarrow> (coord_config \<times> coord_state) result" where
  "coord_init dir name lid owner lttl sttl target mode enabled validator lfs sfs =
     (if target < 0 then Inl (ValueError ''target_service_groups must be non-negative.'')
      else if mode \<noteq> ''sequential'' \<and> mode \<noteq> ''score''
      then Inl (ValueError ''shard_mode must be 'sequential' or 'score'.'')
      else case leader_init name lid lttl validator of
             Inl x \<Rightarrow> Inl x
           | Inr lc \<Rightarrow> Inr (\<lparr>cc_leader = lc, cc_election = name, cc_owner = owner, cc_lease_ttl = sttl,
                 cc_target = target, cc_shard_mode = mode, cc_leader_enabled = enabled, cc_state_dir = dir\<rparr>,
               \<lparr>held = [], leader_fs = lfs, lease_fs = sfs, calls = 0\<rparr>))"

section \<open>Single calls\<close>

definition leader_call ::
  "(leader_config \<Rightarrow> os_env \<Rightarrow> leader_files \<Rightarrow> 'r result \<times> leader_files) \<Rightarrow>
   coord_config \<Rightarrow> os_script \<Rightarrow> coord_state \<Rightarrow> 'r result \<times> coord_state" where
  "leader_call f c os s =
     (let (out, fs') = f (cc_leader c) (os (calls s)) (leader_fs s)
      in (out, s\<lparr>leader_fs := fs', calls := Suc (calls s)\<rparr>))"

text \<open>\<open>_lease_for_sg\<close> builds the lease object for every call, and with it checks the
  identifiers again.\<close>

definition lease_call ::
  "(lease_config \<Rightarrow> os_env \<Rightarrow> lease_files \<Rightarrow> 'r result \<times> lease_files) \<Rightarrow>
   coord_config \<Rightarrow> os_script \<Rightarrow> int \<Rightarrow> coord_state \<Rightarrow> 'r result \<times> coord_state" where
  "lease_call f c os sg s =
     (case lease_init (dir_error (os (calls s))) (cc_election c) sg (cc_owner c) (cc_lease_ttl c) of
        Inl x \<Rightarrow> (Inl x, s)
      | Inr lc \<Rightarrow>
          (let (out, fs') = f lc (os (calls s)) (lease_fs s sg)
           in (out, s\<lparr>lease_fs := (lease_fs s)(sg := fs'), calls := Suc (calls s)\<rparr>)))"

section \<open>The order of the candidates\<close>

text \<open>\<open>int.from_bytes(digest[:8], "big")\<close>; \<open>sha\<close> stands for \<open>hashlib.sha256(...).digest()\<close>.\<close>

definition score_for_sg :: "(string \<Rightarrow> nat list) \<Rightarrow> coord_config \<Rightarrow> int \<Rightarrow> int" where
  "score_for_sg sha c sg =
     foldl (\<lambda>n b. n * 256 + int b) 0 (take 8 (sha (cc_owner c @ '':'' @ int_str sg)))"

definition score_ordered :: "(string \<Rightarrow> nat list) \<Rightarrow> coord_config \<Rightarrow> int list \<Rightarrow> int list" where
  "score_ordered sha c sgs = sort_key (\<lambda>g. (- score_for_sg sha c g, g)) sgs"

definition candidates :: "(string \<Rightarrow> nat list) \<Rightarrow> coord_config \<Rightarrow> int list \<Rightarrow> int list" where
  "candidates sha c sgs = (if cc_shard_mode c = ''score'' then score_ordered sha c sgs else sort sgs)"

section \<open>The tick\<close>

text \<open>The leader half of a tick: acquire, and renew when already leader; or just read.\<close>

definition leader_step :: "coord_config \<Rightarrow> os_script \<Rightarrow> coord_state \<Rightarrow> (bool \<times> string) result \<times> coord_state" where
  "leader_step c os s =
     (if cc_leader_enabled c then
        (case leader_call leader_try_acquire c os s of
           (Inl x, s') \<Rightarrow> (Inl x, s')
         | (Inr a, s') \<Rightarrow>
             if la_is_leader a \<and> \<not> la_acquired a then
               (case leader_call leader_renew c os s' of
                  (Inl x, s'') \<Rightarrow> (Inl x, s'')
                | (Inr r, s'') \<Rightarrow>
                    (Inr (if ln_renewed r then (ln_is_leader r, ln_leader r) else (la_is_leader a, la_leader a)), s''))
             else (Inr (la_is_leader a, la_leader a), s'))
      else
        (case leader_get_status (cc_state_dir c) (cc_leader c) (now_at (os (calls s))) (leader_fs s) of
           Inl x \<Rightarrow> (Inl x, s\<lparr>calls := Suc (calls s)\<rparr>)
         | Inr st \<Rightarrow> (Inr (ls_is_leader st, ls_leader st), s\<lparr>calls := Suc (calls s)\<rparr>)))"

text \<open>Renew the held leases in order; one that is not renewed is forgotten.\<close>

fun renew_held ::
  "coord_config \<Rightarrow> os_script \<Rightarrow> int list \<Rightarrow> int list \<Rightarrow> int list \<Rightarrow> coord_state \<Rightarrow>
   (int list \<times> int list) result \<times> coord_state" where
  "renew_held c os [] ren fl s = (Inr (ren, fl), s)"
| "renew_held c os (g # gs) ren fl s =
     (case lease_call lease_renew c os g s of
        (Inl x, s') \<Rightarrow> (Inl x, s')
      | (Inr out, s') \<Rightarrow>
          if sn_renewed out then renew_held c os gs (ren @ [g]) fl s'
          else renew_held c os gs ren (fl @ [g]) (s'\<lparr>held := removeAll g (held s')\<rparr>))"

text \<open>Release leases, highest group first, until the target is met.\<close>

fun release_excess ::
  "coord_config \<Rightarrow> os_script \<Rightarrow> int list \<Rightarrow> int list \<Rightarrow> int list \<Rightarrow> coord_state \<Rightarrow>
   (int list \<times> int list) result \<times> coord_state" where
  "release_excess c os [] rel fl s = (Inr (rel, fl), s)"
| "release_excess c os (g # gs) rel fl s =
     (if int (length (held s)) \<le> cc_target c then (Inr (rel, fl), s)
      else case lease_call lease_release c os g s of
        (Inl x, s') \<Rightarrow> (Inl x, s')
      | (Inr out, s') \<Rightarrow>
          if sl_released out
          then release_excess c os gs (rel @ [g]) fl (s'\<lparr>held := removeAll g (held s')\<rparr>)
          else release_excess c os gs rel (fl @ [g]) s')"

text \<open>The two acquire passes; the second skips the groups the first attempted.\<close>

fun acquire_pass ::
  "coord_config \<Rightarrow> os_script \<Rightarrow> int list \<Rightarrow> int list \<Rightarrow> int list \<Rightarrow> int list \<Rightarrow> coord_state \<Rightarrow>
   (int list \<times> int list \<times> int list) result \<times> coord_state" where
  "acquire_pass c os [] att acq fl s = (Inr (att, acq, fl), s)"
| "acquire_pass c os (g # gs) att acq fl s =
     (if cc_target c \<le> int (length (held s)) then (Inr (att, acq, fl), s)
      else if g \<in> set (held s) then acquire_pass c os gs att acq fl s
      else case lease_call lease_try_acquire c os g s of
        (Inl x, s') \<Rightarrow> (Inl x, s')
      | (Inr out, s') \<Rightarrow>
          if sa_acquired out
          then acquire_pass c os gs (g # att) (acq @ [g]) fl (s'\<lparr>held := held s' @ [g]\<rparr>)
          else acquire_pass c os gs (g # att) acq (fl @ [g]) s')"

fun acquire_rest ::
  "coord_config \<Rightarrow> os_script \<Rightarrow> int list \<Rightarrow> int list \<Rightarrow> int list \<Rightarrow> int list \<Rightarrow> coord_state \<Rightarrow>
   (int list \<times> int list) result \<times> coord_state" where
  "acquire_rest c os [] att acq fl s = (Inr (acq, fl), s)"
| "acquire_rest c os (g # gs) att acq fl s =
     (if cc_target c \<le> int (length (held s)) then (Inr (acq, fl), s)
      else if g \<in> set (held s) then acquire_rest c os gs att acq fl s
      else if g \<in> set att then acquire_rest c os gs att acq fl s
      else case lease_call lease_try_acquire c os g s of
        (Inl x, s') \<Rightarrow> (Inl x, s')
      | (Inr out, s') \<Rightarrow>
          if sa_acquired out
          then acquire_rest c os gs att (acq @ [g]) fl (s'\<lparr>held := held s' @ [g]\<rparr>)
          else acquire_rest c os gs att acq (fl @ [g]) s')"

definition acquire_missing ::
  "(string \<Rightarrow> nat list) \<Rightarrow> coord_config \<Rightarrow> os_script \<Rightarrow> int list \<Rightarrow> int list \<Rightarrow> coord_state \<Rightarrow>
   (int list \<times> int list) result \<times> coord_state" where
  "acquire_missing sha c os sgs fl s =
     (if int (length (held s)) < cc_target c then
        (case acquire_pass c os (candidates sha c sgs) [] [] fl s of
           (Inl x, s') \<Rightarrow> (Inl x, s')
         | (Inr (att, acq, fl'), s') \<Rightarrow>
             if int (length (held s')) < cc_target c
             then acquire_rest c os (sort sgs) att acq fl' s'
             else (Inr (acq, fl'), s'))
      else (Inr ([], fl), s))"

definition tick_message :: "bool \<Rightarrow> string" where
  "tick_message l = (if l then ''Leader active; lease operations complete.''
                     else ''Leader not held; lease operations complete.'')"

definition coord_tick ::
  "(string \<Rightarrow> nat list) \<Rightarrow> coord_config \<Rightarrow> os_script \<Rightarrow> int list \<Rightarrow> coord_state \<Rightarrow> tick_result result \<times> coord_state" where
  "coord_tick sha c os sgs s =
     (case leader_step c os s of
        (Inl x, s1) \<Rightarrow> (Inl x, s1)
      | (Inr (lead, lid), s1) \<Rightarrow>
     (case renew_held c os (sort (held s1)) [] [] s1 of
        (Inl x, s2) \<Rightarrow> (Inl x, s2)
      | (Inr (ren, fl2), s2) \<Rightarrow>
     (case (if cc_target c < int (length (held s2)) then release_excess c os (rev (sort (held s2))) [] fl2 s2
            else (Inr ([], fl2), s2)) of
        (Inl x, s3) \<Rightarrow> (Inl x, s3)
      | (Inr (rel, fl3), s3) \<Rightarrow>
     (case acquire_missing sha c os sgs fl3 s3 of
        (Inl x, s4) \<Rightarrow> (Inl x, s4)
      | (Inr (acq, fl4), s4) \<Rightarrow>
          (Inr \<lparr>ct_is_leader = lead, ct_leader = lid, ct_acquired = acq, ct_renewed = ren,
                ct_released = rel, ct_failed = fl4, ct_message = tick_message lead\<rparr>, s4)))))"

definition tick_leader_only :: "coord_config \<Rightarrow> os_script \<Rightarrow> coord_state \<Rightarrow> tick_result result \<times> coord_state" where
  "tick_leader_only c os s =
     (case leader_step c os s of
        (Inl x, s1) \<Rightarrow> (Inl x, s1)
      | (Inr (lead, lid), s1) \<Rightarrow>
          (Inr \<lparr>ct_is_leader = lead, ct_leader = lid, ct_acquired = [], ct_renewed = [],
                ct_released = [], ct_failed = [], ct_message = tick_message lead\<rparr>, s1))"

section \<open>Release and status\<close>

text \<open>\<open>release_all\<close> walks the held set in an order Python does not fix; \<open>order\<close> is that order.\<close>

fun release_each ::
  "coord_config \<Rightarrow> os_script \<Rightarrow> int list \<Rightarrow> int list \<Rightarrow> int list \<Rightarrow> coord_state \<Rightarrow>
   (int list \<times> int list) result \<times> coord_state" where
  "release_each c os [] rel fl s = (Inr (rel, fl), s)"
| "release_each c os (g # gs) rel fl s =
     (case lease_call lease_release c os g s of
        (Inl x, s') \<Rightarrow> (Inl x, s')
      | (Inr out, s') \<Rightarrow>
          if sl_released out
          then release_each c os gs (rel @ [g]) fl (s'\<lparr>held := removeAll g (held s')\<rparr>)
          else release_each c os gs rel (fl @ [g]) s')"

definition release_all ::
  "coord_config \<Rightarrow> os_script \<Rightarrow> int list \<Rightarrow> coord_state \<Rightarrow> release_all_result result \<times> coord_state" where
  "release_all c os order s =
     (case release_each c os order [] [] s of
        (Inl x, s1) \<Rightarrow> (Inl x, s1)
      | (Inr (rel, fl), s1) \<Rightarrow>
          if cc_leader_enabled c then
            (case leader_call leader_release c os s1 of
               (Inl x, s2) \<Rightarrow> (Inl x, s2)
             | (Inr l, s2) \<Rightarrow> (Inr \<lparr>cr_leader = ll_released l, cr_released = rel, cr_failed = fl,
                   cr_message = ''Leader and leases released.''\<rparr>, s2))
          else (Inr \<lparr>cr_leader = False, cr_released = rel, cr_failed = fl,
                     cr_message = ''Leader and leases released.''\<rparr>, s1))"

definition coord_get_status :: "coord_config \<Rightarrow> real \<Rightarrow> coord_state \<Rightarrow> coord_status result" where
  "coord_get_status c now s =
     (case leader_get_status (cc_state_dir c) (cc_leader c) now (leader_fs s) of
        Inl x \<Rightarrow> Inl x
      | Inr st \<Rightarrow> Inr \<lparr>cs_is_leader = ls_is_leader st, cs_leader = ls_leader st, cs_held = sort (held s),
                       cs_message = ls_message st\<rparr>)"

section \<open>Lemmas\<close>

lemma lease_call_frame:
  assumes "lease_call f c os g s = (out, s')"
  shows "held s' = held s" and "leader_fs s' = leader_fs s" and "g' \<noteq> g \<Longrightarrow> lease_fs s' g' = lease_fs s g'"
  using assms by (auto simp: lease_call_def split: sum.splits prod.splits)

lemma leader_call_frame:
  assumes "leader_call f c os s = (out, s')"
  shows "held s' = held s" and "lease_fs s' = lease_fs s"
  using assms by (auto simp: leader_call_def split: prod.splits)

lemma leader_step_frame:
  assumes "leader_step c os s = (out, s')"
  shows "held s' = held s" and "lease_fs s' = lease_fs s"
proof -
  have fr: "leader_call f c os a = (b, z) \<Longrightarrow> held z = held a \<and> lease_fs z = lease_fs a"
    for f :: "leader_config \<Rightarrow> os_env \<Rightarrow> leader_files \<Rightarrow> 'r result \<times> leader_files" and a b z
    using leader_call_frame by blast
  have "held s' = held s \<and> lease_fs s' = lease_fs s"
    using assms by (auto simp: leader_step_def split: sum.splits prod.splits if_splits dest!: fr)
  then show "held s' = held s" and "lease_fs s' = lease_fs s" by auto
qed

lemma filter_removeAll: "filter P (removeAll g xs) = filter (\<lambda>x. P x \<and> x \<noteq> g) xs"
  by (induction xs) auto

text \<open>What each loop does to the held set, whatever its calls answer.\<close>

lemma renew_held_spec:
  assumes "renew_held c os gs ren fl s = (Inr (ren', fl'), s')" and "distinct gs"
  shows "\<exists>r f. ren' = ren @ r \<and> fl' = fl @ f \<and> set r \<union> set f = set gs \<and> set r \<inter> set f = {} \<and>
    distinct (r @ f) \<and> held s' = filter (\<lambda>x. x \<notin> set f) (held s)"
  using assms
proof (induction c os gs ren fl s rule: renew_held.induct)
  case (1 c os ren fl s)
  then show ?case by auto
next
  case (2 c os g gs ren fl s)
  obtain out s1 where call: "lease_call lease_renew c os g s = (Inr out, s1)"
    using "2.prems"(1) by (auto split: prod.splits sum.splits)
  note fr = lease_call_frame(1) [OF call]
  show ?case
  proof (cases "sn_renewed out")
    case True
    obtain r f where "ren' = (ren @ [g]) @ r" "fl' = fl @ f" "set r \<union> set f = set gs"
        "set r \<inter> set f = {}" "distinct (r @ f)" "held s' = filter (\<lambda>x. x \<notin> set f) (held s1)"
      using "2.IH"(1) [OF call [symmetric] refl True] "2.prems" call True by auto
    then show ?thesis using "2.prems"(2) fr by (intro exI [of _ "g # r"] exI [of _ f]) auto
  next
    case False
    obtain r f where "ren' = ren @ r" "fl' = (fl @ [g]) @ f" "set r \<union> set f = set gs"
        "set r \<inter> set f = {}" "distinct (r @ f)"
        "held s' = filter (\<lambda>x. x \<notin> set f) (removeAll g (held s1))"
      using "2.IH"(2) [OF call [symmetric] refl False] "2.prems" call False by auto
    then show ?thesis using "2.prems"(2) fr
      by (intro exI [of _ r] exI [of _ "g # f"]) (auto simp: filter_removeAll conj_commute)
  qed
qed

lemma release_excess_spec:
  assumes "release_excess c os gs rel fl s = (Inr (rel', fl'), s')"
    and "distinct gs" and "distinct (held s)" and "set gs \<subseteq> set (held s)"
  shows "\<exists>r f. rel' = rel @ r \<and> fl' = fl @ f \<and> set r \<subseteq> set gs \<and> distinct r \<and>
    held s' = filter (\<lambda>x. x \<notin> set r) (held s) \<and>
    int (length (held s')) \<le> max (cc_target c) (int (length (held s)) - int (length gs) + int (length f)) \<and>
    (cc_target c \<le> int (length (held s)) \<longrightarrow> cc_target c \<le> int (length (held s')))"
  using assms
proof (induction c os gs rel fl s rule: release_excess.induct)
  case (1 c os rel fl s)
  then show ?case by auto
next
  case (2 c os g gs rel fl s)
  show ?case
  proof (cases "int (length (held s)) \<le> cc_target c")
    case True
    with "2.prems" show ?thesis by (intro exI [of _ "[]"]) auto
  next
    case enough: False
    obtain out s1 where call: "lease_call lease_release c os g s = (Inr out, s1)"
      using "2.prems"(1) enough by (auto split: prod.splits sum.splits)
    note fr = lease_call_frame(1) [OF call]
    show ?thesis
    proof (cases "sl_released out")
      case True
      let ?s2 = "s1\<lparr>held := removeAll g (held s1)\<rparr>"
      have len: "Suc (length (held ?s2)) = length (held s)"
        using "2.prems"(3,4) fr by (simp add: distinct_removeAll_length)
      have "distinct (held ?s2)" "set gs \<subseteq> set (held ?s2)"
        using "2.prems"(2-4) fr by (auto simp: distinct_removeAll)
      then obtain r f where "rel' = (rel @ [g]) @ r" "fl' = fl @ f" "set r \<subseteq> set gs" "distinct r"
          "held s' = filter (\<lambda>x. x \<notin> set r) (held ?s2)"
          "int (length (held s')) \<le> max (cc_target c) (int (length (held ?s2)) - int (length gs) + int (length f))"
          "cc_target c \<le> int (length (held ?s2)) \<longrightarrow> cc_target c \<le> int (length (held s'))"
        using "2.IH"(1) [OF enough call [symmetric] refl True] "2.prems" call True enough by auto
      then show ?thesis using "2.prems"(2) fr len enough
        by (intro exI [of _ "g # r"] exI [of _ f]) (auto simp: filter_removeAll conj_commute)
    next
      case False
      obtain r f where "rel' = rel @ r" "fl' = (fl @ [g]) @ f" "set r \<subseteq> set gs" "distinct r"
          "held s' = filter (\<lambda>x. x \<notin> set r) (held s1)"
          "int (length (held s')) \<le> max (cc_target c) (int (length (held s1)) - int (length gs) + int (length f))"
          "cc_target c \<le> int (length (held s1)) \<longrightarrow> cc_target c \<le> int (length (held s'))"
        using "2.IH"(2) [OF enough call [symmetric] refl False] "2.prems" call False enough fr by auto
      then show ?thesis using fr by (intro exI [of _ r] exI [of _ "g # f"]) auto
    qed
  qed
qed

lemma acquire_pass_spec:
  assumes "acquire_pass c os gs att acq fl s = (Inr (att', acq', fl'), s')"
  shows "\<exists>a f. acq' = acq @ a \<and> fl' = fl @ f \<and> held s' = held s @ a \<and> set a \<subseteq> set gs \<and>
    set a \<inter> set (held s) = {} \<and> distinct a \<and> set att \<subseteq> set att' \<and>
    int (length (held s')) \<le> max (cc_target c) (int (length (held s))) \<and>
    (int (length (held s')) < cc_target c \<longrightarrow> set gs \<subseteq> set (held s') \<union> set att')"
  using assms
proof (induction c os gs att acq fl s rule: acquire_pass.induct)
  case (1 c os att acq fl s)
  then show ?case by auto
next
  case (2 c os g gs att acq fl s)
  consider (full) "cc_target c \<le> int (length (held s))"
    | (has) "\<not> cc_target c \<le> int (length (held s))" "g \<in> set (held s)"
    | (tries) "\<not> cc_target c \<le> int (length (held s))" "g \<notin> set (held s)" by blast
  then show ?case
  proof cases
    case full
    with "2.prems" show ?thesis by (intro exI [of _ "[]"]) auto
  next
    case has
    obtain a f where "acq' = acq @ a" "fl' = fl @ f" "held s' = held s @ a" "set a \<subseteq> set gs"
        "set a \<inter> set (held s) = {}" "distinct a" "set att \<subseteq> set att'"
        "int (length (held s')) \<le> max (cc_target c) (int (length (held s)))"
        "int (length (held s')) < cc_target c \<longrightarrow> set gs \<subseteq> set (held s') \<union> set att'"
      using "2.IH"(1) [OF has] "2.prems" has by auto
    with has show ?thesis by (intro exI [of _ a] exI [of _ f]) auto
  next
    case tries
    obtain out s1 where call: "lease_call lease_try_acquire c os g s = (Inr out, s1)"
      using "2.prems" tries by (auto split: prod.splits sum.splits)
    note fr = lease_call_frame(1) [OF call]
    show ?thesis
    proof (cases "sa_acquired out")
      case True
      obtain a f where "acq' = (acq @ [g]) @ a" "fl' = fl @ f" "held s' = (held s @ [g]) @ a" "set a \<subseteq> set gs"
          "set a \<inter> set (held s @ [g]) = {}" "distinct a" "set (g # att) \<subseteq> set att'"
          "int (length (held s')) \<le> max (cc_target c) (int (length (held s @ [g])))"
          "int (length (held s')) < cc_target c \<longrightarrow> set gs \<subseteq> set (held s') \<union> set att'"
        using "2.IH"(2) [OF tries call [symmetric] refl True] "2.prems" call True tries fr by auto
      then show ?thesis using tries by (intro exI [of _ "g # a"] exI [of _ f]) auto
    next
      case False
      obtain a f where "acq' = acq @ a" "fl' = (fl @ [g]) @ f" "held s' = held s @ a" "set a \<subseteq> set gs"
          "set a \<inter> set (held s) = {}" "distinct a" "set (g # att) \<subseteq> set att'"
          "int (length (held s')) \<le> max (cc_target c) (int (length (held s)))"
          "int (length (held s')) < cc_target c \<longrightarrow> set gs \<subseteq> set (held s') \<union> set att'"
        using "2.IH"(3) [OF tries call [symmetric] refl False] "2.prems" call False tries fr by auto
      then show ?thesis by (intro exI [of _ a] exI [of _ "g # f"]) auto
    qed
  qed
qed

text \<open>The second pass finds nothing left to try.\<close>

lemma acquire_rest_idle:
  "set gs \<subseteq> set (held s) \<union> set att \<Longrightarrow> acquire_rest c os gs att acq fl s = (Inr (acq, fl), s)"
  by (induction gs) auto

definition acquire_once ::
  "(string \<Rightarrow> nat list) \<Rightarrow> coord_config \<Rightarrow> os_script \<Rightarrow> int list \<Rightarrow> int list \<Rightarrow> coord_state \<Rightarrow>
   (int list \<times> int list) result \<times> coord_state" where
  "acquire_once sha c os sgs fl s =
     (case acquire_pass c os (candidates sha c sgs) [] [] fl s of
        (Inl x, s') \<Rightarrow> (Inl x, s')
      | (Inr (att, acq, fl'), s') \<Rightarrow> (Inr (acq, fl'), s'))"

lemma set_candidates [simp]: "set (candidates sha c sgs) = set sgs"
  by (simp add: candidates_def score_ordered_def)

lemma acquire_pass_full:
  "cc_target c \<le> int (length (held s)) \<Longrightarrow> acquire_pass c os gs att acq fl s = (Inr (att, acq, fl), s)"
  by (cases gs) auto

lemma acquire_missing_once: "acquire_missing sha c os sgs fl s = acquire_once sha c os sgs fl s"
proof (cases "int (length (held s)) < cc_target c")
  case False
  then show ?thesis by (simp add: acquire_missing_def acquire_once_def acquire_pass_full)
next
  case True
  show ?thesis
  proof (cases "acquire_pass c os (candidates sha c sgs) [] [] fl s")
    case (Pair r s')
    show ?thesis
    proof (cases r)
      case (Inl x)
      with Pair True show ?thesis by (simp add: acquire_missing_def acquire_once_def)
    next
      case (Inr y)
      then obtain att acq fl' where y: "r = Inr (att, acq, fl')" by (cases y) auto
      have "int (length (held s')) < cc_target c \<Longrightarrow> set (sort sgs) \<subseteq> set (held s') \<union> set att"
        using acquire_pass_spec [OF Pair [unfolded y]] by auto
      then show ?thesis
        using Pair True y by (auto simp: acquire_missing_def acquire_once_def acquire_rest_idle)
    qed
  qed
qed

lemma acquire_missing_spec:
  assumes "acquire_missing sha c os sgs fl s = (Inr (acq, fl'), s')"
  shows "held s' = held s @ acq \<and> set acq \<subseteq> set sgs \<and> set acq \<inter> set (held s) = {} \<and> distinct acq \<and>
    (\<exists>f. fl' = fl @ f) \<and> int (length (held s')) \<le> max (cc_target c) (int (length (held s))) \<and>
    (cc_target c \<le> int (length (held s)) \<longrightarrow> acq = [])"
proof -
  obtain att where p: "acquire_pass c os (candidates sha c sgs) [] [] fl s = (Inr (att, acq, fl'), s')"
    using assms by (auto simp: acquire_missing_once acquire_once_def split: prod.splits sum.splits)
  have "cc_target c \<le> int (length (held s)) \<Longrightarrow> acq = []"
    using p acquire_pass_full [of c s os "candidates sha c sgs" "[]" "[]" fl] by simp
  with acquire_pass_spec [OF p] show ?thesis by auto
qed

subsection \<open>The whole tick\<close>

lemma coord_tick_phases:
  assumes "coord_tick sha c os sgs s = (Inr out, s')" and "distinct (held s)"
  obtains s1 s2 s3 fl2 fl3 where
    "leader_step c os s = (Inr (ct_is_leader out, ct_leader out), s1)"
    "renew_held c os (sort (held s1)) [] [] s1 = (Inr (ct_renewed out, fl2), s2)"
    "release_excess c os (rev (sort (held s2))) [] fl2 s2 = (Inr (ct_released out, fl3), s3)"
    "acquire_missing sha c os sgs fl3 s3 = (Inr (ct_acquired out, ct_failed out), s')"
    "held s1 = held s" "distinct (held s2)" "set (held s2) = set (ct_renewed out)"
    "set (ct_renewed out) \<subseteq> set (held s)" "fl3 = [] \<longrightarrow> fl2 = []"
proof -
  from assms(1) obtain lead lid s1 where l: "leader_step c os s = (Inr (lead, lid), s1)"
    by (auto simp: coord_tick_def split: prod.splits sum.splits)
  with assms(1) obtain ren fl2 s2 where r: "renew_held c os (sort (held s1)) [] [] s1 = (Inr (ren, fl2), s2)"
    by (auto simp: coord_tick_def split: prod.splits sum.splits)
  have noop: "release_excess c os gs [] fl2 s2 = (Inr ([], fl2), s2)" if "\<not> cc_target c < int (length (held s2))" for gs
    using that by (cases gs) auto
  let ?rel = "if cc_target c < int (length (held s2)) then release_excess c os (rev (sort (held s2))) [] fl2 s2
            else (Inr ([], fl2), s2)"
  have rel: "?rel = release_excess c os (rev (sort (held s2))) [] fl2 s2"
    using noop by simp
  from assms(1) l r obtain re fl3 s3 where e: "?rel = (Inr (re, fl3), s3)"
    by (auto simp: coord_tick_def split: prod.splits sum.splits)
  from assms(1) l r e obtain acq fl4 where a: "acquire_missing sha c os sgs fl3 s3 = (Inr (acq, fl4), s')"
      and out: "out = \<lparr>ct_is_leader = lead, ct_leader = lid, ct_acquired = acq, ct_renewed = ren,
                ct_released = re, ct_failed = fl4, ct_message = tick_message lead\<rparr>"
    by (auto simp: coord_tick_def split: prod.splits sum.splits)
  have h1: "held s1 = held s" by (rule leader_step_frame(1) [OF l])
  have d: "distinct (sort (held s1))" using h1 assms(2) by simp
  from renew_held_spec [OF r d] h1 have h2: "distinct (held s2)" "set (held s2) = set ren" "set ren \<subseteq> set (held s)"
    using assms(2) by auto
  have "distinct (rev (sort (held s2)))" "set (rev (sort (held s2))) \<subseteq> set (held s2)"
    using h2 by auto
  from release_excess_spec [OF e [unfolded rel] this(1) h2(1) this(2)] have "fl3 = [] \<longrightarrow> fl2 = []" by auto
  with l r e [unfolded rel] a out h1 h2 show ?thesis by (intro that [of s1 fl2 s2 fl3 s3]) auto
qed

subsection \<open>Held leases and their records\<close>

text \<open>The record on disk names this manager as the owner of the group.\<close>

definition owns :: "coord_config \<Rightarrow> coord_state \<Rightarrow> int \<Rightarrow> bool" where
  "owns c s g = (\<exists>x. lease_holder (py_strip (cc_election c)) g (lease_fs s g) = Some (py_strip (cc_owner c), x))"

lemma owns_cong: "lease_fs s' g = lease_fs s g \<Longrightarrow> owns c s' g = owns c s g"
  by (simp add: owns_def)

lemma lease_call_unfold:
  assumes "lease_call f c os g s = (Inr out, s')"
  obtains fs' where "f (lease_cfg (py_strip (cc_election c)) g (cc_lease_ttl c) (py_strip (cc_owner c)))
      (os (calls s)) (lease_fs s g) = (Inr out, fs')" "lease_fs s' g = fs'"
  using assms by (auto simp: lease_call_def lease_init_def split: sum.splits prod.splits if_splits)

lemma lease_acquired_is_owner:
  assumes "lease_try_acquire c env fs = (Inr out, fs')"
  shows "sa_acquired out = sa_is_owner out"
  using assms unfolding lease_under_lock
proof (cases rule: under_lock_cases)
  case Busy
  then show ?thesis by (auto simp: lease_busy_acquire_def)
next
  case (Locked fs1 fs2)
  from Locked(2) show ?thesis
    by (auto simp: lease_acquire_locked_def lease_acquire_model_def Let_def
        split: sum.splits prod.splits if_splits bool.splits)
qed

lemma lease_renewed_is_owner:
  assumes "lease_renew c env fs = (Inr out, fs')"
  shows "sn_renewed out = sn_is_owner out"
  using assms unfolding lease_under_lock
proof (cases rule: under_lock_cases)
  case Busy
  then show ?thesis by (auto simp: lease_busy_renew_def)
next
  case (Locked fs1 fs2)
  from Locked(2) show ?thesis
    by (auto simp: lease_renew_locked_def lease_renew_model_def Let_def split: sum.splits prod.splits if_splits)
qed

lemma lease_not_released_frame:
  assumes "lease_release c env fs = (Inr out, fs')" and "\<not> sl_released out"
  shows "lease_holder name sg fs' = lease_holder name sg fs"
  using assms(1) unfolding lease_under_lock
proof (cases rule: under_lock_cases)
  case Busy
  then show ?thesis by (intro lease_holder_cong)
next
  case (Locked fs1 fs2)
  from Locked(2) assms(2) have "fs2 = fs1"
    by (auto simp: lease_release_locked_def lease_release_model_def split: sum.splits prod.splits if_splits)
  with Locked(1,3) show ?thesis by (simp add: lease_holder_cong [OF Locked(1)])
qed

lemma env_now [simp]: "env\<lparr>now_at := now_at env\<rparr> = env"
  by simp

lemma call_acquired_owns:
  assumes "lease_call lease_try_acquire c os g s = (Inr out, s')" and "sa_acquired out"
    and "\<not> replace_error (os (calls s))"
  shows "owns c s' g"
proof -
  let ?n = "py_strip (cc_election c)" and ?i = "py_strip (cc_owner c)" and ?env = "os (calls s)"
  obtain fs' where f: "lease_try_acquire (lease_cfg ?n g (cc_lease_ttl c) ?i) ?env (lease_fs s g) = (Inr out, fs')"
    and l: "lease_fs s' g = fs'" using lease_call_unfold [OF assms(1)] by metis
  have "lease_acquire_claim ?n g (cc_lease_ttl c) ?i (now_at ?env) ?env (lease_fs s g) = (Held (sa_expires_at out), fs')"
    using f assms(2) lease_acquired_is_owner [OF f] by (simp add: lease_acquire_claim_def)
  from lease_acquire_claim_effect [OF this assms(3)] l show ?thesis by (auto simp: owns_def)
qed

lemma call_renewed_owns:
  assumes "lease_call lease_renew c os g s = (Inr out, s')" and "sn_renewed out"
  shows "owns c s' g"
proof -
  let ?n = "py_strip (cc_election c)" and ?i = "py_strip (cc_owner c)" and ?env = "os (calls s)"
  obtain fs' where f: "lease_renew (lease_cfg ?n g (cc_lease_ttl c) ?i) ?env (lease_fs s g) = (Inr out, fs')"
    and l: "lease_fs s' g = fs'" using lease_call_unfold [OF assms(1)] by metis
  have "lease_renew_claim ?n g (cc_lease_ttl c) ?i (now_at ?env) ?env (lease_fs s g) = (Held (sn_expires_at out), fs')"
    using f assms(2) lease_renewed_is_owner [OF f] by (simp add: lease_renew_claim_def)
  from lease_renewed_keeps_owner [OF this] l show ?thesis by (simp add: owns_def)
qed

lemma renew_held_owns:
  assumes "renew_held c os gs ren fl s = (Inr r, s')"
    and "\<And>g. g \<in> set (held s) \<Longrightarrow> g \<notin> set gs \<Longrightarrow> owns c s g"
  shows "\<forall>g \<in> set (held s'). owns c s' g"
  using assms
proof (induction c os gs ren fl s rule: renew_held.induct)
  case (1 c os ren fl s)
  then show ?case by auto
next
  case (2 c os g gs ren fl s)
  obtain out s1 where call: "lease_call lease_renew c os g s = (Inr out, s1)"
    using "2.prems"(1) by (auto split: prod.splits sum.splits)
  note fr = lease_call_frame [OF call]
  have others: "owns c s1 x" if "x \<in> set (held s)" "x \<notin> set gs" "x \<noteq> g" for x
    using owns_cong [OF fr(3) [OF that(3)]] "2.prems"(2) that by simp
  show ?case
  proof (cases "sn_renewed out")
    case True
    have "owns c s1 x" if "x \<in> set (held s1)" "x \<notin> set gs" for x
      using call_renewed_owns [OF call True] others fr(1) that by (cases "x = g") auto
    then show ?thesis using "2.IH"(1) [OF call [symmetric] refl True] "2.prems"(1) call True by auto
  next
    case False
    let ?s2 = "s1\<lparr>held := removeAll g (held s1)\<rparr>"
    have "owns c ?s2 x" if "x \<in> set (held ?s2)" "x \<notin> set gs" for x
      using others [of x] fr(1) that owns_cong [of ?s2 x s1] by auto
    then show ?thesis using "2.IH"(2) [OF call [symmetric] refl False] "2.prems"(1) call False by auto
  qed
qed

lemma release_excess_owns:
  assumes "release_excess c os gs rel fl s = (Inr r, s')" and "\<And>g. g \<in> set (held s) \<Longrightarrow> owns c s g"
  shows "\<forall>g \<in> set (held s'). owns c s' g"
  using assms
proof (induction c os gs rel fl s rule: release_excess.induct)
  case (1 c os rel fl s)
  then show ?case by auto
next
  case (2 c os g gs rel fl s)
  show ?case
  proof (cases "int (length (held s)) \<le> cc_target c")
    case True
    with "2.prems" show ?thesis by auto
  next
    case enough: False
    obtain out s1 where call: "lease_call lease_release c os g s = (Inr out, s1)"
      using "2.prems"(1) enough by (auto split: prod.splits sum.splits)
    note fr = lease_call_frame [OF call]
    have others: "owns c s1 x" if "x \<in> set (held s)" "x \<noteq> g" for x
      using owns_cong [OF fr(3) [OF that(2)]] "2.prems"(2) that by simp
    show ?thesis
    proof (cases "sl_released out")
      case True
      let ?s2 = "s1\<lparr>held := removeAll g (held s1)\<rparr>"
      have "owns c ?s2 x" if "x \<in> set (held ?s2)" for x
        using others [of x] fr(1) that owns_cong [of ?s2 x s1] by auto
      then show ?thesis using "2.IH"(1) [OF enough call [symmetric] refl True] "2.prems"(1) call True enough by auto
    next
      case False
      obtain fs' where "lease_release (lease_cfg (py_strip (cc_election c)) g (cc_lease_ttl c) (py_strip (cc_owner c)))
          (os (calls s)) (lease_fs s g) = (Inr out, fs')" "lease_fs s1 g = fs'"
        using lease_call_unfold [OF call] by metis
      with lease_not_released_frame [OF this(1) False] have "owns c s1 g = owns c s g"
        by (simp add: owns_def)
      then have "owns c s1 x" if "x \<in> set (held s1)" for x
        using others [of x] fr(1) that "2.prems"(2) by (cases "x = g") auto
      then show ?thesis using "2.IH"(2) [OF enough call [symmetric] refl False] "2.prems"(1) call False enough by auto
    qed
  qed
qed

text \<open>A record could not be replaced in one of the calls from \<open>a\<close> up to \<open>b\<close>.\<close>

definition replace_failed :: "os_script \<Rightarrow> nat \<Rightarrow> nat \<Rightarrow> bool" where
  "replace_failed os a b = (\<exists>n. a \<le> n \<and> n < b \<and> replace_error (os n))"

lemma replace_failed_mono: "replace_failed os a b \<Longrightarrow> a' \<le> a \<Longrightarrow> b \<le> b' \<Longrightarrow> replace_failed os a' b'"
  unfolding replace_failed_def by (meson le_trans less_le_trans)

lemma lease_call_count: "lease_call f c os g s = (Inr out, s') \<Longrightarrow> calls s' = Suc (calls s)"
  by (auto simp: lease_call_def split: sum.splits prod.splits)

lemma acquire_pass_owns:
  assumes "acquire_pass c os gs att acq fl s = (Inr (att', acq', fl'), s')"
    and "\<And>g. g \<in> set (held s) \<Longrightarrow> owns c s g \<or> g \<in> set acq \<and> replace_failed os a (calls s)" and "a \<le> calls s"
  shows "\<forall>g \<in> set (held s'). owns c s' g \<or> g \<in> set acq' \<and> replace_failed os a (calls s')"
  using assms
proof (induction c os gs att acq fl s rule: acquire_pass.induct)
  case (1 c os att acq fl s)
  then show ?case by auto
next
  case (2 c os g gs att acq fl s)
  consider (full) "cc_target c \<le> int (length (held s))"
    | (has) "\<not> cc_target c \<le> int (length (held s))" "g \<in> set (held s)"
    | (tries) "\<not> cc_target c \<le> int (length (held s))" "g \<notin> set (held s)" by blast
  then show ?case
  proof cases
    case full
    with "2.prems" show ?thesis by auto
  next
    case has
    show ?thesis using "2.IH"(1) [OF has] "2.prems" has by auto
  next
    case tries
    obtain out s1 where call: "lease_call lease_try_acquire c os g s = (Inr out, s1)"
      using "2.prems"(1) tries by (auto split: prod.splits sum.splits)
    note fr = lease_call_frame [OF call] and n = lease_call_count [OF call]
    have others: "owns c s1 x \<or> x \<in> set acq \<and> replace_failed os a (Suc (calls s))" if "x \<in> set (held s)" for x
    proof -
      have "owns c s1 x = owns c s x" using tries(2) that owns_cong [OF fr(3), of x c] by metis
      then show ?thesis using "2.prems"(2) [OF that] replace_failed_mono [of os a "calls s" a "Suc (calls s)"] by auto
    qed
    show ?thesis
    proof (cases "sa_acquired out")
      case True
      let ?s2 = "s1\<lparr>held := held s1 @ [g]\<rparr>"
      have new: "owns c s1 g \<or> replace_failed os a (Suc (calls s))"
        using call_acquired_owns [OF call True] "2.prems"(3) by (auto simp: replace_failed_def)
      have "owns c ?s2 x \<or> x \<in> set (acq @ [g]) \<and> replace_failed os a (calls ?s2)" if "x \<in> set (held ?s2)" for x
        using others [of x] new fr(1) n that owns_cong [of ?s2 x s1] by auto
      then show ?thesis
        using "2.IH"(2) [OF tries call [symmetric] refl True] "2.prems"(1,3) call True tries n by auto
    next
      case False
      have "owns c s1 x \<or> x \<in> set acq \<and> replace_failed os a (calls s1)" if "x \<in> set (held s1)" for x
        using others fr(1) n that by simp
      then show ?thesis
        using "2.IH"(3) [OF tries call [symmetric] refl False] "2.prems"(1,3) call False tries n by auto
    qed
  qed
qed

text \<open>The calls of a tick are counted.\<close>

lemma leader_call_count: "leader_call f c os s = (out, s') \<Longrightarrow> calls s' = Suc (calls s)"
  by (auto simp: leader_call_def split: prod.splits)

lemma leader_step_count: "leader_step c os s = (out, s') \<Longrightarrow> calls s \<le> calls s'"
  by (auto simp: leader_step_def split: sum.splits prod.splits if_splits dest!: leader_call_count)

lemma renew_held_count: "renew_held c os gs ren fl s = (Inr r, s') \<Longrightarrow> calls s \<le> calls s'"
proof (induction c os gs ren fl s rule: renew_held.induct)
  case (2 c os g gs ren fl s)
  then show ?case by (auto split: prod.splits sum.splits if_splits dest!: lease_call_count)
qed simp

lemma release_excess_count: "release_excess c os gs rel fl s = (Inr r, s') \<Longrightarrow> calls s \<le> calls s'"
proof (induction c os gs rel fl s rule: release_excess.induct)
  case (2 c os g gs rel fl s)
  then show ?case by (auto split: prod.splits sum.splits if_splits dest!: lease_call_count)
qed simp

section \<open>Properties\<close>

text \<open>A manager that may hold two groups and believes to hold one whose record is corrupt.\<close>

definition demo_cc :: coord_config where
  "demo_cc = \<lparr>cc_leader = claim_config ''cmts'' ''a'' 30 None, cc_election = ''cmts'', cc_owner = ''a'',
     cc_lease_ttl = 30, cc_target = 2, cc_shard_mode = ''sequential'', cc_leader_enabled = True,
     cc_state_dir = ''state''\<rparr>"

definition demo_cs :: coord_state where
  "demo_cs = \<lparr>held = [3], leader_fs = demo_files, lease_fs = (\<lambda>_. demo_lease_files), calls = 0\<rparr>"

definition demo_sha :: "string \<Rightarrow> nat list" where
  "demo_sha s = map of_char s"

lemmas coord_defs = lease_defs leader_try_acquire_def leader_acquire_locked_def leader_read_record_def
  leader_write_atomic_def leader_write_replace_def leader_acquire_model_def leader_new_record_def
  leader_fields_of_def leader_is_expired_def leader_step_def leader_call_def lease_call_def lease_init_def
  coord_tick_def acquire_missing_def candidates_def tick_message_def

lemma demo_tick_value:
  "\<exists>out s'. coord_tick demo_sha demo_cc (\<lambda>_. calm 100) [9, 5, 7] demo_cs = (Inr out, s') \<and>
     ct_is_leader out \<and> ct_acquired out = [5, 7] \<and> ct_failed out = [3] \<and> held s' = [5, 7]"
  by (simp add: coord_defs demo_cc_def demo_cs_def demo_files_def demo_lease_files_def py_strip_def
      py_lstrip_def py_space_def Let_def)

lemma release_each_spec:
  assumes "release_each c os gs rel fl s = (Inr (rel', fl'), s')"
  shows "\<exists>r f. rel' = rel @ r \<and> fl' = fl @ f \<and> set r \<union> set f = set gs \<and>
    (distinct gs \<longrightarrow> set r \<inter> set f = {}) \<and> held s' = filter (\<lambda>x. x \<notin> set r) (held s)"
  using assms
proof (induction c os gs rel fl s rule: release_each.induct)
  case (1 c os rel fl s)
  then show ?case by auto
next
  case (2 c os g gs rel fl s)
  obtain out s1 where call: "lease_call lease_release c os g s = (Inr out, s1)"
    using "2.prems" by (auto split: prod.splits sum.splits)
  note fr = lease_call_frame(1) [OF call]
  show ?case
  proof (cases "sl_released out")
    case True
    obtain r f where "rel' = (rel @ [g]) @ r" "fl' = fl @ f" "set r \<union> set f = set gs"
        "distinct gs \<longrightarrow> set r \<inter> set f = {}" "held s' = filter (\<lambda>x. x \<notin> set r) (removeAll g (held s1))"
      using "2.IH"(1) [OF call [symmetric] refl True] "2.prems" call True by auto
    then show ?thesis using fr
      by (intro exI [of _ "g # r"] exI [of _ f]) (auto simp: filter_removeAll conj_commute)
  next
    case False
    obtain r f where "rel' = rel @ r" "fl' = (fl @ [g]) @ f" "set r \<union> set f = set gs"
        "distinct gs \<longrightarrow> set r \<inter> set f = {}" "held s' = filter (\<lambda>x. x \<notin> set r) (held s1)"
      using "2.IH"(2) [OF call [symmetric] refl False] "2.prems" call False by auto
    then show ?thesis using fr by (intro exI [of _ r] exI [of _ "g # f"]) auto
  qed
qed

text \<open>C10: The result of a tick accounts for the held set exactly: after it the manager holds what it
  renewed and did not release, and what it acquired.  Renewed groups were held before, acquired
  ones are in the inventory and were not held, and a tick that releases acquires nothing.\<close>

theorem coord_tick_accounts:
  assumes "coord_tick sha c os sgs s = (Inr out, s')" and "distinct (held s)"
  shows "distinct (held s') \<and> set (held s') = (set (ct_renewed out) - set (ct_released out)) \<union> set (ct_acquired out)
    \<and> set (ct_renewed out) \<subseteq> set (held s) \<and> set (ct_released out) \<subseteq> set (ct_renewed out)
    \<and> set (ct_acquired out) \<subseteq> set sgs
    \<and> set (ct_acquired out) \<inter> (set (ct_renewed out) - set (ct_released out)) = {}
    \<and> (ct_released out \<noteq> [] \<longrightarrow> ct_acquired out = [])"
proof -
  obtain s1 s2 s3 fl2 fl3 where ph:
    "release_excess c os (rev (sort (held s2))) [] fl2 s2 = (Inr (ct_released out, fl3), s3)"
    "acquire_missing sha c os sgs fl3 s3 = (Inr (ct_acquired out, ct_failed out), s')"
    "distinct (held s2)" "set (held s2) = set (ct_renewed out)" "set (ct_renewed out) \<subseteq> set (held s)"
    using coord_tick_phases [OF assms] by metis
  have "distinct (rev (sort (held s2)))" "set (rev (sort (held s2))) \<subseteq> set (held s2)" using ph(3) by auto
  note rel = release_excess_spec [OF ph(1) this(1) ph(3) this(2)]
  note acq = acquire_missing_spec [OF ph(2)]
  have idle: "int (length (held s2)) \<le> cc_target c \<Longrightarrow> ct_released out = []"
    using ph(1) by (cases "rev (sort (held s2))") auto
  show ?thesis using rel acq idle ph(3-5) by (auto simp: distinct_filter)
qed

lemma coord_tick_accounts_witness:
  "\<exists>out s'. coord_tick demo_sha demo_cc (\<lambda>_. calm 100) [9, 5, 7] demo_cs = (Inr out, s') \<and>
     ct_acquired out = [5, 7] \<and> distinct (held s') \<and> ct_released out = []"
proof -
  obtain out s' where t: "coord_tick demo_sha demo_cc (\<lambda>_. calm 100) [9, 5, 7] demo_cs = (Inr out, s')"
    "ct_acquired out = [5, 7]"
    using demo_tick_value by blast
  have d: "distinct (held demo_cs)" by (simp add: demo_cs_def)
  from coord_tick_accounts [OF t(1) d] t show ?thesis by auto
qed

text \<open>C12: The target bounds the held set: a tick never leaves more leases than the target unless
  releasing failed for each one too many, never grows the set beyond the larger of the target and
  what was held, and without failures it ends at or below the target.\<close>

theorem coord_tick_bound:
  assumes "coord_tick sha c os sgs s = (Inr out, s')" and "distinct (held s)"
  shows "int (length (held s')) \<le> max (cc_target c) (int (length (ct_failed out)))
    \<and> int (length (held s')) \<le> max (cc_target c) (int (length (held s)))
    \<and> (ct_failed out = [] \<and> 0 \<le> cc_target c \<longrightarrow> int (length (held s')) \<le> cc_target c)"
proof -
  obtain s1 s2 s3 fl2 fl3 where ph:
    "renew_held c os (sort (held s1)) [] [] s1 = (Inr (ct_renewed out, fl2), s2)"
    "release_excess c os (rev (sort (held s2))) [] fl2 s2 = (Inr (ct_released out, fl3), s3)"
    "acquire_missing sha c os sgs fl3 s3 = (Inr (ct_acquired out, ct_failed out), s')"
    "held s1 = held s" "distinct (held s2)"
    using coord_tick_phases [OF assms] by metis
  have "distinct (rev (sort (held s2)))" "set (rev (sort (held s2))) \<subseteq> set (held s2)" using ph(5) by auto
  note rel = release_excess_spec [OF ph(2) this(1) ph(5) this(2)]
  note acq = acquire_missing_spec [OF ph(3)]
  have "distinct (sort (held s1))" using ph(4) assms(2) by simp
  from renew_held_spec [OF ph(1) this] ph(4) have "length (held s2) \<le> length (held s)" by auto
  moreover have "length (held s3) \<le> length (held s2)" using rel by auto
  moreover have "length fl3 \<le> length (ct_failed out)" using acq by auto
  moreover have "int (length (held s3)) \<le> max (cc_target c) (int (length fl3))" using rel by auto
  ultimately show ?thesis using acq by auto
qed

lemma coord_tick_bound_witness:
  "\<exists>out s'. coord_tick demo_sha demo_cc (\<lambda>_. calm 100) [9, 5, 7] demo_cs = (Inr out, s') \<and> length (held s') \<le> 2"
proof -
  obtain out s' where t: "coord_tick demo_sha demo_cc (\<lambda>_. calm 100) [9, 5, 7] demo_cs = (Inr out, s')"
    using demo_tick_value by blast
  from coord_tick_bound [OF t] t show ?thesis by (auto simp: demo_cs_def demo_cc_def)
qed

text \<open>The second acquire pass of a tick is dead code: the first pass either reaches the target or
  has tried or found held every group of the inventory, in either sharding mode, so the acquiring
  half of a tick is the first pass alone.\<close>

theorem coord_second_pass_dead:
  "acquire_missing sha c os sgs fl s = acquire_once sha c os sgs fl s"
  by (rule acquire_missing_once)

text \<open>C3: What the manager believes to hold is what the disk says: after every tick that returns, whatever the held
  set, the files and the failures of the operating system, the record of each held group names this manager's
  owner, unless the group was acquired in this very tick and a record could not be replaced in one of its calls.\<close>

theorem coord_tick_owns:
  assumes "coord_tick sha c os sgs s = (Inr out, s')" and "distinct (held s)" and "g \<in> set (held s')"
  shows "(\<exists>x. lease_holder (py_strip (cc_election c)) g (lease_fs s' g) = Some (py_strip (cc_owner c), x)) \<or>
    g \<in> set (ct_acquired out) \<and> (\<exists>n. calls s \<le> n \<and> n < calls s' \<and> replace_error (os n))"
proof -
  obtain s1 s2 s3 fl2 fl3 where ph:
    "leader_step c os s = (Inr (ct_is_leader out, ct_leader out), s1)"
    "renew_held c os (sort (held s1)) [] [] s1 = (Inr (ct_renewed out, fl2), s2)"
    "release_excess c os (rev (sort (held s2))) [] fl2 s2 = (Inr (ct_released out, fl3), s3)"
    "acquire_missing sha c os sgs fl3 s3 = (Inr (ct_acquired out, ct_failed out), s')"
    by (rule coord_tick_phases [OF assms(1,2)]) blast
  from ph(4) obtain att where pass:
    "acquire_pass c os (candidates sha c sgs) [] [] fl3 s3 = (Inr (att, ct_acquired out, ct_failed out), s')"
    by (auto simp: acquire_missing_once acquire_once_def split: prod.splits sum.splits)
  have "\<forall>g \<in> set (held s2). owns c s2 g" by (rule renew_held_owns [OF ph(2)]) auto
  then have own: "\<forall>g \<in> set (held s3). owns c s3 g" by (intro release_excess_owns [OF ph(3)]) auto
  have n: "calls s \<le> calls s3"
    using leader_step_count [OF ph(1)] renew_held_count [OF ph(2)] release_excess_count [OF ph(3)] by simp
  show ?thesis using acquire_pass_owns [OF pass _ n] own assms(3) by (auto simp: owns_def replace_failed_def)
qed

lemma coord_tick_owns_witness:
  "\<exists>out s' x. coord_tick demo_sha demo_cc (\<lambda>_. calm 100) [9, 5, 7] demo_cs = (Inr out, s') \<and>
     lease_holder ''cmts'' 7 (lease_fs s' 7) = Some (''a'', x)"
proof -
  obtain out s' where t: "coord_tick demo_sha demo_cc (\<lambda>_. calm 100) [9, 5, 7] demo_cs = (Inr out, s')"
    "held s' = [5, 7]" using demo_tick_value by blast
  have names: "py_strip (cc_election demo_cc) = ''cmts''" "py_strip (cc_owner demo_cc) = ''a''"
    by (simp_all add: demo_cc_def py_strip_def py_lstrip_def py_space_def)
  from coord_tick_owns [OF t(1), of 7] t show ?thesis
    by (auto simp: demo_cs_def names)
qed

text \<open>\<open>release_all\<close>, in whatever order it walks the held set, tries every held lease, partitions
  them into released and failed, and keeps exactly the failed ones.\<close>

theorem coord_release_all_partition:
  assumes "release_all c os order s = (Inr out, s')" and "distinct order" and "set order = set (held s)"
  shows "set (cr_released out) \<union> set (cr_failed out) = set (held s) \<and>
    set (cr_released out) \<inter> set (cr_failed out) = {} \<and> set (held s') = set (cr_failed out)"
proof -
  obtain rel fl s1 where e: "release_each c os order [] [] s = (Inr (rel, fl), s1)"
    using assms(1) by (auto simp: release_all_def split: prod.splits sum.splits)
  with assms(1) have "held s' = held s1 \<and> cr_released out = rel \<and> cr_failed out = fl"
    by (auto simp: release_all_def split: prod.splits sum.splits if_splits dest: leader_call_frame(1))
  with release_each_spec [OF e] assms(2,3) show ?thesis by auto
qed

lemma coord_release_all_partition_witness:
  "\<exists>out s'. release_all demo_cc (\<lambda>_. calm 100) [3] demo_cs = (Inr out, s') \<and>
     set (cr_released out) \<union> set (cr_failed out) = {3}"
proof -
  have "\<exists>out s'. release_all demo_cc (\<lambda>_. calm 100) [3] demo_cs = (Inr out, s')"
    by (simp add: release_all_def leader_release_def coord_defs demo_cc_def demo_cs_def demo_files_def demo_lease_files_def
        py_strip_def py_lstrip_def py_space_def Let_def)
  then obtain out s' where t: "release_all demo_cc (\<lambda>_. calm 100) [3] demo_cs = (Inr out, s')" by blast
  from coord_release_all_partition [OF t] t show ?thesis by (auto simp: demo_cs_def)
qed

end
