(* ===== verification/Settings.thy ===== *)
theory Settings
  imports Prelude
begin

text \<open>
  The orchestrator settings, \<open>config/orchestrator_config.py\<close>: the pydantic models as records
  and their \<open>model_validator\<close>s as functions that return the adjusted record or raise.  What
  \<open>from_system_config\<close> gathers from the environment and \<open>system.json\<close> before they run is in
  \<open>ConfigCommands\<close>.
\<close>

section \<open>Models\<close>

datatype orch_mode = Standalone | Controller | Worker | Combined

record sg_descriptor =
  sd_id :: int
  sd_name :: string
  sd_cmts_index :: int
  sd_enabled :: bool

record guard_settings =
  gs_enabled :: bool
  gs_rss_mb :: int
  gs_max_error_cycles :: int
  gs_min_interval :: int
  gs_max_per_hour :: int

record sgw_settings =
  sg_enabled :: bool
  sg_discovery_mode :: string
  sg_poll_heavy :: int
  sg_poll_light :: int
  sg_max_workers :: int
  sg_jitter :: int
  sg_max_age :: int
  sg_guard :: guard_settings

record adapter_config =
  ad_label :: string
  ad_hostname :: string
  ad_community :: string
  ad_write_community :: string
  ad_port :: int

record settings =
  st_mode :: orch_mode
  st_adapter :: adapter_config
  st_groups :: "sg_descriptor list"
  st_auto_discover :: bool
  st_tests :: "string list"
  st_sgw :: sgw_settings
  st_owner :: string
  st_target :: int
  st_shard_mode :: string
  st_worker_cap :: int
  st_tick_interval :: real
  st_leader_ttl :: int
  st_lease_ttl :: int
  st_state_dir :: string
  st_election :: string

section \<open>Validators\<close>

definition validate_descriptor :: "sg_descriptor \<Rightarrow> sg_descriptor result" where
  "validate_descriptor d =
     (if sd_id d \<le> 0 then Inl (ValueError ''sg_id must be greater than zero.'') else Inr d)"

definition default_descriptor :: "int \<Rightarrow> sg_descriptor" where
  "default_descriptor sg = \<lparr>sd_id = sg, sd_name = '''', sd_cmts_index = 0, sd_enabled = True\<rparr>"

definition validate_discovery_mode :: "string \<Rightarrow> string result" where
  "validate_discovery_mode m =
     (let v = py_lower (py_strip m);
          v' = (if v = '''' then ''snmp'' else v)
      in if v' \<noteq> ''static'' \<and> v' \<noteq> ''snmp''
         then Inl (ValueError ''sgw.discovery.mode must be 'static' or 'snmp'.'')
         else Inr v')"

definition validate_guard :: "guard_settings \<Rightarrow> guard_settings result" where
  "validate_guard g =
     (if gs_rss_mb g < 0
      then Inl (ValueError ''sgw.guard.rss_restart_threshold_mb must be non-negative.'')
      else if gs_max_error_cycles g < 0
      then Inl (ValueError ''sgw.guard.max_consecutive_error_cycles must be non-negative.'')
      else if gs_min_interval g < 0
      then Inl (ValueError ''sgw.guard.min_restart_interval_seconds must be non-negative.'')
      else if gs_max_per_hour g \<le> 0
      then Inl (ValueError ''sgw.guard.max_restarts_per_hour must be greater than zero.'')
      else Inr g)"

definition validate_sgw_bounds :: "sgw_settings \<Rightarrow> sgw_settings result" where
  "validate_sgw_bounds s =
     (if sg_poll_light s \<le> 0
      then Inl (ValueError ''sgw.poll_light_seconds must be greater than zero.'')
      else if sg_poll_heavy s \<le> 0
      then Inl (ValueError ''sgw.poll_heavy_seconds must be greater than zero.'')
      else if sg_poll_heavy s < sg_poll_light s
      then Inl (ValueError ''sgw.poll_heavy_seconds must be greater than or equal to sgw.poll_light_seconds.'')
      else if sg_jitter s < 0
      then Inl (ValueError ''sgw.refresh_jitter_seconds must be non-negative.'')
      else if sg_poll_light s < sg_jitter s
      then Inl (ValueError ''sgw.refresh_jitter_seconds must be less than or equal to sgw.poll_light_seconds.'')
      else if sg_max_age s < sg_poll_light s
      then Inl (ValueError ''sgw.cache_max_age_seconds must be greater than or equal to sgw.poll_light_seconds.'')
      else if sg_max_workers s < 0
      then Inl (ValueError ''sgw.max_workers must be non-negative.'')
      else Inr s)"

text \<open>Nested models are validated before the model that contains them.\<close>

definition validate_sgw :: "sgw_settings \<Rightarrow> sgw_settings result" where
  "validate_sgw s =
     (case validate_discovery_mode (sg_discovery_mode s) of
        Inl x \<Rightarrow> Inl x
      | Inr m \<Rightarrow>
          (case validate_guard (sg_guard s) of
             Inl x \<Rightarrow> Inl x
           | Inr g \<Rightarrow> validate_sgw_bounds (s\<lparr>sg_discovery_mode := m, sg_guard := g\<rparr>)))"

definition need_adapter :: "settings \<Rightarrow> string \<Rightarrow> unit result" where
  "need_adapter s why =
     (if py_strip (ad_hostname (st_adapter s)) = ''''
      then Inl (ValueError (''adapter.hostname must be set '' @ why))
      else if py_strip (ad_community (st_adapter s)) = ''''
      then Inl (ValueError (''adapter.community must be set '' @ why))
      else Inr ())"

definition apply_default_tests :: "settings \<Rightarrow> settings result" where
  "apply_default_tests s0 =
     (let s = (if st_tests s0 = [] then s0\<lparr>st_tests := [''ds_ofdm_rxmer'']\<rparr> else s0) in
      if st_shard_mode s \<noteq> ''sequential'' \<and> st_shard_mode s \<noteq> ''score''
      then Inl (ValueError ''shard_mode must be 'sequential' or 'score'.'')
      else if st_target s < 0 then Inl (ValueError ''target_service_groups must be non-negative.'')
      else if st_worker_cap s < 0 then Inl (ValueError ''worker_cap must be non-negative.'')
      else if st_tick_interval s \<le> 0 then Inl (ValueError ''tick_interval_seconds must be greater than zero.'')
      else if st_leader_ttl s \<le> 0 then Inl (ValueError ''leader_ttl_seconds must be greater than zero.'')
      else if st_lease_ttl s \<le> 0 then Inl (ValueError ''lease_ttl_seconds must be greater than zero.'')
      else case (if sg_enabled (st_sgw s) \<and> py_lower (py_strip (sg_discovery_mode (st_sgw s))) = ''snmp''
                 then need_adapter s ''for snmp discovery.'' else Inr ()) of
        Inl x \<Rightarrow> Inl x
      | Inr _ \<Rightarrow>
      if real_of_int (min (st_leader_ttl s) (st_lease_ttl s)) \<le> st_tick_interval s
      then Inl (ValueError ''tick_interval_seconds must be less than leader_ttl_seconds and lease_ttl_seconds.'')
      else case (if st_auto_discover s then need_adapter s ''when auto_discover is enabled.'' else Inr ()) of
        Inl x \<Rightarrow> Inl x
      | Inr _ \<Rightarrow>
      if py_strip (st_state_dir s) = '''' then Inl (ValueError ''state_dir must be non-empty.'')
      else Inr (if py_strip (st_election s) = '''' then s\<lparr>st_election := ''''\<rparr> else s))"

fun validate_descriptors :: "sg_descriptor list \<Rightarrow> sg_descriptor list result" where
  "validate_descriptors [] = Inr []"
| "validate_descriptors (d # ds) =
     (case validate_descriptor d of
        Inl x \<Rightarrow> Inl x
      | Inr d' \<Rightarrow> (case validate_descriptors ds of Inl x \<Rightarrow> Inl x | Inr ds' \<Rightarrow> Inr (d' # ds')))"

definition validate_settings :: "settings \<Rightarrow> settings result" where
  "validate_settings s =
     (case validate_descriptors (st_groups s) of
        Inl x \<Rightarrow> Inl x
      | Inr ds \<Rightarrow>
          (case validate_sgw (st_sgw s) of
             Inl x \<Rightarrow> Inl x
           | Inr w \<Rightarrow> apply_default_tests (s\<lparr>st_groups := ds, st_sgw := w\<rparr>)))"

section \<open>Lemmas\<close>

lemma validate_descriptors_Inr:
  "validate_descriptors ds = Inr ds' \<Longrightarrow> ds' = ds \<and> (\<forall>d \<in> set ds. 0 < sd_id d)"
  by (induction ds arbitrary: ds') (auto simp: validate_descriptor_def split: if_splits sum.splits)

lemma validate_sgw_Inr:
  assumes "validate_sgw s = Inr s'"
  shows "0 < sg_poll_light s' \<and> sg_poll_light s' \<le> sg_poll_heavy s' \<and> 0 \<le> sg_jitter s' \<and>
    sg_jitter s' \<le> sg_poll_light s' \<and> sg_poll_light s' \<le> sg_max_age s' \<and> 0 \<le> sg_max_workers s' \<and>
    sg_discovery_mode s' \<in> {''static'', ''snmp''} \<and> 0 < gs_max_per_hour (sg_guard s') \<and>
    0 \<le> gs_min_interval (sg_guard s')"
  using assms
  by (auto simp: validate_sgw_def validate_sgw_bounds_def validate_guard_def validate_discovery_mode_def Let_def
      split: sum.splits if_splits)

lemma apply_default_tests_Inr:
  assumes "apply_default_tests s = Inr s'"
  shows "st_tests s' \<noteq> [] \<and> st_sgw s' = st_sgw s \<and> st_groups s' = st_groups s \<and>
    0 < st_tick_interval s' \<and> st_tick_interval s' < real_of_int (min (st_leader_ttl s') (st_lease_ttl s')) \<and>
    0 \<le> st_target s' \<and> 0 \<le> st_worker_cap s' \<and> 0 < st_leader_ttl s' \<and> 0 < st_lease_ttl s' \<and>
    st_shard_mode s' \<in> {''sequential'', ''score''} \<and>
    (st_auto_discover s' \<longrightarrow> py_strip (ad_hostname (st_adapter s')) \<noteq> '''') \<and>
    (st_election s' = '''' \<or> py_strip (st_election s') \<noteq> '''')"
  using assms
proof -
  let ?s = "if st_tests s = [] then s\<lparr>st_tests := [''ds_ofdm_rxmer'']\<rparr> else s"
  have host: "need_adapter x w = Inr u \<Longrightarrow> py_strip (ad_hostname (st_adapter x)) \<noteq> ''''" for x w u
    by (auto simp: need_adapter_def split: if_splits)
  from assms have ok: "st_shard_mode ?s = ''sequential'' \<or> st_shard_mode ?s = ''score''"
    "0 \<le> st_target ?s" "0 \<le> st_worker_cap ?s" "0 < st_tick_interval ?s" "0 < st_leader_ttl ?s"
    "0 < st_lease_ttl ?s" "st_tick_interval ?s < real_of_int (min (st_leader_ttl ?s) (st_lease_ttl ?s))"
    and disc: "\<exists>u. (if st_auto_discover ?s then need_adapter ?s ''when auto_discover is enabled.'' else Inr ()) = Inr u"
    and s': "s' = (if py_strip (st_election ?s) = '''' then ?s\<lparr>st_election := ''''\<rparr> else ?s)"
    unfolding apply_default_tests_def Let_def by (auto simp only: result_rules not_less not_le sum.inject)
  have "st_auto_discover ?s \<Longrightarrow> py_strip (ad_hostname (st_adapter ?s)) \<noteq> ''''"
    using disc host by auto
  with ok s' show ?thesis by auto
qed

section \<open>Properties\<close>

text \<open>C40: Settings that validate keep the promises the other parts rely on: the tick interval is
  positive and shorter than both times to live (so a healthy replica renews before it expires),
  targets and caps are not negative, every configured group has a positive identifier, the jitter
  is at most the light interval, which is at most the heavy interval and the maximum age, and
  there is at least one test to run.\<close>

theorem validated_settings:
  assumes "validate_settings s = Inr s'"
  shows "0 < st_tick_interval s' \<and> st_tick_interval s' < real_of_int (st_leader_ttl s') \<and>
    st_tick_interval s' < real_of_int (st_lease_ttl s') \<and> 0 \<le> st_target s' \<and> 0 \<le> st_worker_cap s' \<and>
    (\<forall>d \<in> set (st_groups s'). 0 < sd_id d) \<and> st_tests s' \<noteq> [] \<and>
    0 \<le> sg_jitter (st_sgw s') \<and> sg_jitter (st_sgw s') \<le> sg_poll_light (st_sgw s') \<and>
    sg_poll_light (st_sgw s') \<le> sg_poll_heavy (st_sgw s') \<and> sg_poll_light (st_sgw s') \<le> sg_max_age (st_sgw s')"
proof -
  obtain ds w where v: "validate_descriptors (st_groups s) = Inr ds" "validate_sgw (st_sgw s) = Inr w"
    "apply_default_tests (s\<lparr>st_groups := ds, st_sgw := w\<rparr>) = Inr s'"
    using assms by (auto simp: validate_settings_def split: sum.splits)
  show ?thesis
    using validate_descriptors_Inr [OF v(1)] validate_sgw_Inr [OF v(2)] apply_default_tests_Inr [OF v(3)]
    by auto
qed

definition demo_settings :: settings where
  "demo_settings = \<lparr>st_mode = Combined,
     st_adapter = \<lparr>ad_label = ''primary'', ad_hostname = ''cmts'', ad_community = ''public'',
        ad_write_community = '''', ad_port = 161\<rparr>,
     st_groups = [], st_auto_discover = True, st_tests = [],
     st_sgw = \<lparr>sg_enabled = True, sg_discovery_mode = '''', sg_poll_heavy = 900, sg_poll_light = 300,
        sg_max_workers = 0, sg_jitter = 30, sg_max_age = 1200,
        sg_guard = \<lparr>gs_enabled = True, gs_rss_mb = 1536, gs_max_error_cycles = 3, gs_min_interval = 300,
          gs_max_per_hour = 6\<rparr>\<rparr>,
     st_owner = ''host-1'', st_target = 0, st_shard_mode = ''sequential'', st_worker_cap = 0,
     st_tick_interval = 1, st_leader_ttl = 10, st_lease_ttl = 10, st_state_dir = ''state'', st_election = ''''\<rparr>"

lemma demo_settings_valid: "\<exists>s'. validate_settings demo_settings = Inr s'"
  by (simp add: validate_settings_def demo_settings_def validate_sgw_def validate_sgw_bounds_def
      validate_guard_def validate_discovery_mode_def apply_default_tests_def need_adapter_def
      py_strip_def py_lstrip_def py_space_def py_lower_def Let_def)

lemma validated_settings_witness:
  "\<exists>s'. validate_settings demo_settings = Inr s' \<and> st_tests s' \<noteq> [] \<and>
     st_tick_interval s' < real_of_int (st_lease_ttl s')"
proof -
  obtain s' where s: "validate_settings demo_settings = Inr s'" using demo_settings_valid by blast
  from validated_settings [OF s] s show ?thesis by auto
qed

end
