(* ===== verification/ShardPlanner.thy ===== *)
theory ShardPlanner
  imports Settings "HOL-Library.Multiset"
begin

text \<open>
  The shard planner, \<open>orchestrator/sg_shard_planner.py\<close>: the order of the enabled service
  groups and the number of workers, a capped ceiling division.
\<close>

definition order_sg_ids :: "int list \<Rightarrow> string \<Rightarrow> int list" where
  "order_sg_ids ids mode = (if mode = ''score'' then sort ids else if mode = ''sequential'' then sort ids else sort ids)"

definition compute_worker_count :: "int \<Rightarrow> int \<Rightarrow> int \<Rightarrow> int" where
  "compute_worker_count n target cap =
     (if n \<le> 0 then 0
      else
        let w = (if target \<le> 0 then n else (n + max 1 target - 1) div max 1 target);
            w' = (if w < 1 then 1 else w)
        in if 0 < cap then min w' cap else w')"

definition plan :: "sg_descriptor list \<Rightarrow> string \<Rightarrow> int \<Rightarrow> int \<Rightarrow> int list \<times> int" where
  "plan ds mode target cap =
     (let ordered = order_sg_ids (map sd_id (filter sd_enabled ds)) mode
      in (ordered, compute_worker_count (int (length ordered)) target cap))"

section \<open>Lemmas\<close>

lemma ceil_div_covers:
  fixes n t :: int
  assumes "0 < n" "0 < t"
  shows "n \<le> ((n + t - 1) div t) * t" and "(((n + t - 1) div t) - 1) * t < n" and "1 \<le> (n + t - 1) div t"
proof -
  have e: "n + t - 1 = ((n + t - 1) div t) * t + (n + t - 1) mod t" by simp
  have m: "0 \<le> (n + t - 1) mod t" "(n + t - 1) mod t < t" using assms by simp_all
  have d: "(((n + t - 1) div t) - 1) * t = ((n + t - 1) div t) * t - t" by (simp add: left_diff_distrib)
  show "n \<le> ((n + t - 1) div t) * t" using e m by linarith
  show "(((n + t - 1) div t) - 1) * t < n" using e m d by linarith
  show "1 \<le> (n + t - 1) div t" using assms by (simp add: pos_imp_zdiv_pos_iff int_one_le_iff_zero_less)
qed

section \<open>Properties\<close>

text \<open>C25: The plan lists exactly the enabled groups in ascending order.  With a positive target per
  worker and no cap, the worker count is the least number of workers that can cover the groups;
  with target zero it is one worker per group; a positive cap is never exceeded, and it is the
  only reason to have fewer workers; there are no workers exactly when there is no group.\<close>

theorem plan_spec:
  "let (ids, w) = plan ds mode target cap; n = int (length ids) in
     sorted ids \<and> mset ids = mset (map sd_id (filter sd_enabled ds)) \<and>
     (w = 0) = (ids = []) \<and> 0 \<le> w \<and> w \<le> n \<and> (0 < cap \<longrightarrow> w \<le> cap) \<and>
     (0 < target \<and> 0 < n \<and> (cap \<le> 0 \<or> w < cap) \<longrightarrow> n \<le> w * target \<and> (w - 1) * target < n) \<and>
     (target \<le> 0 \<and> (cap \<le> 0 \<or> w < cap) \<longrightarrow> w = n)"
proof -
  define ids where "ids = order_sg_ids (map sd_id (filter sd_enabled ds)) mode"
  define n where "n = int (length ids)"
  have p: "plan ds mode target cap = (ids, compute_worker_count n target cap)"
    by (simp add: plan_def ids_def n_def Let_def)
  have ids: "sorted ids" "mset ids = mset (map sd_id (filter sd_enabled ds))"
    by (auto simp: ids_def order_sg_ids_def)
  show ?thesis
  proof (cases "0 < n")
    case False
    then have "n = 0" by (simp add: n_def)
    then have "ids = []" by (simp add: n_def)
    with \<open>n = 0\<close> show ?thesis using ids by (simp add: p compute_worker_count_def)
  next
    case True
    then have "ids \<noteq> []" by (auto simp: n_def)
    show ?thesis
    proof (cases "0 < target")
      case False
      then show ?thesis using True \<open>ids \<noteq> []\<close> ids
        by (auto simp: p compute_worker_count_def n_def [symmetric] Let_def)
    next
      case target: True
      let ?w = "(n + target - 1) div target"
      note c = ceil_div_covers [OF True target]
      have "?w \<le> n"
      proof -
        have "(?w - 1) * 1 \<le> (?w - 1) * target" using c(3) target by (intro mult_left_mono) auto
        then have "(?w - 1) * 1 < n" using c(2) by (rule le_less_trans)
        then show ?thesis by simp
      qed
      moreover have "compute_worker_count n target cap = (if 0 < cap then min ?w cap else ?w)"
        using True target c(3) by (simp add: compute_worker_count_def Let_def max_absorb2)
      ultimately show ?thesis using c True target \<open>ids \<noteq> []\<close> ids
        by (auto simp: p n_def [symmetric] min_def)
    qed
  qed
qed

lemma plan_spec_witness:
  "plan [default_descriptor 9, default_descriptor 4, (default_descriptor 7)\<lparr>sd_enabled := False\<rparr>, default_descriptor 5]
     ''sequential'' 2 0 = ([4, 5, 9], 2)
   \<and> (let (ids, w) = plan [default_descriptor 9, default_descriptor 4] ''sequential'' 2 0 in sorted ids)"
  using plan_spec [of "[default_descriptor 9, default_descriptor 4]" "''sequential''" 2 0]
  by (auto simp: plan_def order_sg_ids_def compute_worker_count_def default_descriptor_def Let_def)

end
