(* ===== verification/Launcher.thy ===== *)
theory Launcher
  imports CoordinationManager ShardPlanner
begin

text \<open>
  The orchestrator launcher and its tick loop: \<open>orchestrator/launcher.py\<close>,
  \<open>orchestrator/runtime.py\<close>, \<open>orchestrator/work_runner.py\<close>,
  \<open>config/owner_id_resolver.py\<close> and the discovery entry point of
  \<open>cmts/inventory_discovery.py\<close>.  SNMP, the host name and the clock are inputs; the state is
  the coordination manager with its files and the inventory snapshot file.
\<close>

section \<open>Identity\<close>

definition controller_enabled :: "orch_mode \<Rightarrow> bool" where
  "controller_enabled m = (m = Controller \<or> m = Combined)"

definition worker_enabled :: "orch_mode \<Rightarrow> bool" where
  "worker_enabled m = (m = Worker \<or> m = Combined)"

text \<open>\<open>OwnerIdResolver.resolve\<close>; \<open>host\<close> is \<open>socket.gethostname()\<close>, \<open>None\<close> when it raises.\<close>

definition derive_owner :: "string option \<Rightarrow> string" where
  "derive_owner host =
     (let h = (case host of None \<Rightarrow> '''' | Some x \<Rightarrow> py_strip x) in if h = '''' then ''unknown'' else h)"

definition resolve_owner :: "string \<Rightarrow> string option \<Rightarrow> string" where
  "resolve_owner explicit host = (if py_strip explicit \<noteq> '''' then py_strip explicit else derive_owner host)"

definition build_leader_id :: "orch_mode \<Rightarrow> string \<Rightarrow> string" where
  "build_leader_id m owner =
     (let v = (if py_strip owner = '''' then owner else py_strip owner) in
      if controller_enabled m then
        (if py_startswith v ''controller-'' then v
         else if py_startswith v ''worker-'' then
           (let s = drop 7 v in ''controller-'' @ (if s = '''' then py_strip owner else s))
         else ''controller-'' @ v)
      else if py_startswith v ''worker-'' then v
      else if py_startswith v ''controller-'' then
        (let s = drop 11 v in ''worker-'' @ (if s = '''' then py_strip owner else s))
      else ''worker-'' @ v)"

definition leader_id_validator :: "string \<Rightarrow> bool" where
  "leader_id_validator lid = (py_strip lid \<noteq> '''' \<and> \<not> py_startswith (py_strip lid) ''worker-'')"

definition build_election_name :: "settings \<Rightarrow> string" where
  "build_election_name s =
     (if py_strip (st_election s) \<noteq> '''' then py_strip (st_election s)
      else ''cmts-'' @ (let l = py_strip (ad_label (st_adapter s)) in if l \<noteq> '''' then l else ''primary''))"

section \<open>Inventory\<close>

datatype inventory_source = SourceConfig | SourceDiscovery | SourceWorker

datatype snapshot_file = NoSnapshot | SnapshotUnreadable | SnapshotInvalid | Snapshot "int list"

text \<open>What the network and the snapshot directory answer during one inventory build.\<close>

record net_env =
  net_resolves :: bool
  net_groups :: "int list option"
  net_write_error :: bool

definition load_snapshot :: "snapshot_file \<Rightarrow> int list option result" where
  "load_snapshot f =
     (case f of NoSnapshot \<Rightarrow> Inr None
      | SnapshotUnreadable \<Rightarrow> Inl (ValueError ''inventory snapshot could not be read.'')
      | SnapshotInvalid \<Rightarrow> Inl (ValueError ''inventory snapshot is invalid.'')
      | Snapshot ids \<Rightarrow> Inr (Some ids))"

definition persist_inventory :: "net_env \<Rightarrow> int list \<Rightarrow> snapshot_file \<Rightarrow> unit result \<times> snapshot_file" where
  "persist_inventory net ids f =
     (if net_write_error net then (Inl OSError, f) else (Inr (), Snapshot (sort ids)))"

text \<open>\<open>run_discovery\<close>: the modems of each group are fetched too, but no failure there changes the
  group identifiers; a snapshot that cannot be written is only logged.\<close>

definition run_discovery :: "net_env \<Rightarrow> settings \<Rightarrow> snapshot_file \<Rightarrow> int list result \<times> snapshot_file" where
  "run_discovery net s f =
     (if py_strip (ad_hostname (st_adapter s)) = '''' then (Inl (ValueError ''cmts_hostname must be non-empty.''), f)
      else if \<not> net_resolves net then (Inl (ValueError ''Failed to resolve CMTS hostname''), f)
      else case net_groups net of
             None \<Rightarrow> (Inl (RuntimeError ''Failed to discover service groups''), f)
           | Some ids \<Rightarrow> (Inr (sort ids), if net_write_error net then f else Snapshot (sort ids)))"

definition config_groups :: "settings \<Rightarrow> int list" where
  "config_groups s = sort (map sd_id (filter sd_enabled (st_groups s)))"

definition discovered_groups ::
  "net_env \<Rightarrow> settings \<Rightarrow> snapshot_file \<Rightarrow> (int list \<times> inventory_source) result \<times> snapshot_file" where
  "discovered_groups net s f =
     (case run_discovery net s f of
        (Inl x, f') \<Rightarrow> (Inl x, f')
      | (Inr ids, f') \<Rightarrow> (Inr (sort ids, SourceDiscovery), f'))"

definition worker_groups ::
  "settings \<Rightarrow> int option \<Rightarrow> snapshot_file \<Rightarrow> (int list \<times> inventory_source) result" where
  "worker_groups s sg f =
     (case sg of
        None \<Rightarrow>
          (case load_snapshot f of
             Inl x \<Rightarrow> Inl x
           | Inr (Some ids) \<Rightarrow> Inr (sort ids, SourceDiscovery)
           | Inr None \<Rightarrow>
               if st_groups s \<noteq> [] then Inr (config_groups s, SourceConfig)
               else if st_auto_discover s
               then Inl (ValueError ''inventory snapshot not found for worker mode.'')
               else Inr ([], SourceWorker))
      | Some g \<Rightarrow>
          if st_groups s \<noteq> [] then
            (if g \<notin> set (config_groups s)
             then Inl (ValueError ''worker sg-id is not enabled in configuration.'')
             else Inr ([g], SourceConfig))
          else Inr ([g], SourceWorker))"

definition controller_groups ::
  "net_env \<Rightarrow> settings \<Rightarrow> bool \<Rightarrow> snapshot_file \<Rightarrow> (int list \<times> inventory_source) result \<times> snapshot_file" where
  "controller_groups net s is_leader f =
     (if is_leader \<and> st_auto_discover s \<and> py_strip (ad_hostname (st_adapter s)) \<noteq> ''''
      then discovered_groups net s f
      else case load_snapshot f of
             Inl x \<Rightarrow> (Inl x, f)
           | Inr (Some ids) \<Rightarrow> (Inr (sort ids, SourceDiscovery), f)
           | Inr None \<Rightarrow>
               if is_leader \<and> config_groups s \<noteq> [] then
                 (case persist_inventory net (config_groups s) f of
                    (Inl x, f') \<Rightarrow> (Inl x, f')
                  | (Inr _, f') \<Rightarrow> (Inr (config_groups s, SourceConfig), f'))
               else (Inr (config_groups s, SourceConfig), f))"

definition build_service_groups ::
  "net_env \<Rightarrow> settings \<Rightarrow> orch_mode \<Rightarrow> int option \<Rightarrow> snapshot_file \<Rightarrow>
   (int list \<times> inventory_source) result \<times> snapshot_file" where
  "build_service_groups net s m sg f =
     (if m = Worker then (worker_groups s sg f, f)
      else if st_auto_discover s then discovered_groups net s f
      else (Inr (config_groups s, SourceConfig), f))"

definition planner_descriptors :: "settings \<Rightarrow> int list \<Rightarrow> sg_descriptor list result" where
  "planner_descriptors s ids =
     (if st_groups s \<noteq> [] then Inr (st_groups s) else validate_descriptors (map default_descriptor ids))"

definition effective_target :: "settings \<Rightarrow> orch_mode \<Rightarrow> int option \<Rightarrow> int \<Rightarrow> int" where
  "effective_target s m sg n =
     (let requested = (if worker_enabled m \<and> sg \<noteq> None then 1 else st_target s)
      in if n \<le> 0 then 0 else min requested n)"

record inventory_plan =
  ip_groups :: "int list"
  ip_source :: inventory_source
  ip_desired :: "int list"
  ip_workers :: int
  ip_target :: int

definition build_inventory_and_plan ::
  "net_env \<Rightarrow> settings \<Rightarrow> orch_mode \<Rightarrow> int option \<Rightarrow> bool \<Rightarrow> snapshot_file \<Rightarrow>
   inventory_plan result \<times> snapshot_file" where
  "build_inventory_and_plan net s m sg is_leader f =
     (case (if controller_enabled m then controller_groups net s is_leader f
            else build_service_groups net s m sg f) of
        (Inl x, f') \<Rightarrow> (Inl x, f')
      | (Inr (ids, src), f') \<Rightarrow>
          (if controller_enabled m then
             (case planner_descriptors s ids of
                Inl x \<Rightarrow> (Inl x, f')
              | Inr ds \<Rightarrow>
                  (let (desired, w) = plan ds (st_shard_mode s) (st_target s) (st_worker_cap s)
                   in (Inr \<lparr>ip_groups = ids, ip_source = src, ip_desired = desired, ip_workers = w,
                        ip_target = (if st_target s = 0 then int (length desired)
                                     else effective_target s m sg (int (length ids)))\<rparr>, f')))
           else (Inr \<lparr>ip_groups = ids, ip_source = src, ip_desired = ids, ip_workers = 0,
                   ip_target = effective_target s m sg (int (length ids))\<rparr>, f')))"

section \<open>Overrides\<close>

record overrides =
  ov_owner :: "string option"
  ov_target :: "int option"
  ov_shard_mode :: "string option"
  ov_tick_interval :: "real option"
  ov_leader_ttl :: "int option"
  ov_lease_ttl :: "int option"
  ov_state_dir :: "string option"
  ov_election :: "string option"
  ov_hostname :: "string option"
  ov_read_community :: "string option"
  ov_write_community :: "string option"
  ov_port :: "int option"

definition override :: "'a option \<Rightarrow> 'a \<Rightarrow> 'a" where
  "override v d = (case v of None \<Rightarrow> d | Some x \<Rightarrow> x)"

definition override_str :: "string option \<Rightarrow> string \<Rightarrow> string" where
  "override_str v d = (case v of None \<Rightarrow> d | Some x \<Rightarrow> if py_strip x \<noteq> '''' then x else d)"

definition apply_overrides :: "overrides \<Rightarrow> settings \<Rightarrow> settings result" where
  "apply_overrides ov s =
     (let a = st_adapter s in
      validate_settings (s\<lparr>
        st_owner := override_str (ov_owner ov) (st_owner s),
        st_target := override (ov_target ov) (st_target s),
        st_shard_mode := override_str (ov_shard_mode ov) (st_shard_mode s),
        st_tick_interval := override (ov_tick_interval ov) (st_tick_interval s),
        st_leader_ttl := override (ov_leader_ttl ov) (st_leader_ttl s),
        st_lease_ttl := override (ov_lease_ttl ov) (st_lease_ttl s),
        st_state_dir := override_str (ov_state_dir ov) (st_state_dir s),
        st_election := (case ov_election ov of None \<Rightarrow> st_election s | Some e \<Rightarrow> py_strip e),
        st_adapter := a\<lparr>ad_hostname := override_str (ov_hostname ov) (ad_hostname a),
          ad_community := override_str (ov_read_community ov) (ad_community a),
          ad_write_community := override_str (ov_write_community ov) (ad_write_community a),
          ad_port := override (ov_port ov) (ad_port a)\<rparr>\<rparr>))"

section \<open>Work\<close>

definition sanitize_test_name :: "string \<Rightarrow> string" where
  "sanitize_test_name v =
     map (\<lambda>c. if c = CHR 0x5C then CHR ''_'' else c) (map (\<lambda>c. if c = CHR ''/'' then CHR ''_'' else c) (py_strip v))"

definition run_id_for_sg :: "int \<Rightarrow> int \<Rightarrow> string" where
  "run_id_for_sg sg tick = ''sg'' @ int_str sg @ ''_tick'' @ int_str06 tick"

definition result_path :: "string \<Rightarrow> int \<Rightarrow> string \<Rightarrow> string \<Rightarrow> string" where
  "result_path dir sg run_id name =
     dir @ ''/results/sg_'' @ int_str sg @ ''/'' @ run_id @ ''_'' @ sanitize_test_name name @ ''.json''"

record work_result =
  wr_sg :: int
  wr_test :: string
  wr_success :: bool
  wr_duration :: real
  wr_error :: string

text \<open>\<open>run_pnm_tests\<close>; \<open>elapsed k\<close> is the difference of the two \<open>perf_counter\<close> readings of
  test \<open>k\<close>.  The result files are written best effort and are not part of the result.\<close>

definition run_pnm_tests :: "(nat \<Rightarrow> real) \<Rightarrow> int \<Rightarrow> string list \<Rightarrow> work_result list" where
  "run_pnm_tests elapsed sg tests =
     map (\<lambda>(k, t). \<lparr>wr_sg = sg, wr_test = t, wr_success = True,
       wr_duration = max (elapsed k) (1 / 1000000), wr_error = ''''\<rparr>) (enumerate 0 tests)"

definition select_work_sg_ids :: "int list \<Rightarrow> int list \<Rightarrow> int list" where
  "select_work_sg_ids acquired hld = (if acquired \<noteq> [] then take 1 (sort acquired) else take 1 (sort hld))"

definition worker_lease_held :: "orch_mode \<Rightarrow> int list \<Rightarrow> bool" where
  "worker_lease_held m hld = (if \<not> worker_enabled m then False else hld \<noteq> [])"

definition run_worker_tests ::
  "(nat \<Rightarrow> real) \<Rightarrow> orch_mode \<Rightarrow> settings \<Rightarrow> int list \<Rightarrow> bool \<Rightarrow> work_result list" where
  "run_worker_tests elapsed m s work lease_held =
     (if \<not> worker_enabled m then [] else if \<not> lease_held then [] else if work = [] then []
      else run_pnm_tests elapsed (hd (sort work)) (st_tests s))"

definition build_run_id :: "orch_mode \<Rightarrow> int list \<Rightarrow> int \<Rightarrow> bool \<Rightarrow> string" where
  "build_run_id m work tick lease_held =
     (if \<not> worker_enabled m then '''' else if \<not> lease_held then '''' else if work = [] then ''''
      else run_id_for_sg (hd (sort work)) tick)"

record conflict =
  cf_sg :: int
  cf_owner :: string
  cf_reason :: string

fun conflicts_for ::
  "string \<Rightarrow> string \<Rightarrow> string \<Rightarrow> int \<Rightarrow> real \<Rightarrow> (int \<Rightarrow> lease_files) \<Rightarrow> int list \<Rightarrow> int list \<Rightarrow> conflict list result" where
  "conflicts_for dir name owner ttl now fs leased [] = Inr []"
| "conflicts_for dir name owner ttl now fs leased (g # gs) =
     (if g \<in> set leased then conflicts_for dir name owner ttl now fs leased gs
      else case lease_init False name g owner ttl of
        Inl x \<Rightarrow> Inl x
      | Inr lc \<Rightarrow>
          (case lease_get_status dir lc now (fs g) of
             Inl x \<Rightarrow> Inl x
           | Inr st \<Rightarrow>
               (case conflicts_for dir name owner ttl now fs leased gs of
                  Inl x \<Rightarrow> Inl x
                | Inr cs \<Rightarrow> Inr (\<lparr>cf_sg = g, cf_owner = ss_owner st,
                    cf_reason = (if ss_message st \<noteq> '''' then ss_message st else ''Lease not acquired.'')\<rparr> # cs))))"

definition build_conflicts ::
  "string \<Rightarrow> string \<Rightarrow> string \<Rightarrow> int \<Rightarrow> real \<Rightarrow> (int \<Rightarrow> lease_files) \<Rightarrow> int list \<Rightarrow> int list \<Rightarrow> conflict list result" where
  "build_conflicts dir name owner ttl now fs desired leased =
     (if desired = [] then Inr [] else conflicts_for dir name owner ttl now fs leased (sort desired))"

section \<open>One run and the tick loop\<close>

text \<open>A tick result as the launcher completes it (\<open>model_copy\<close>).\<close>

record run_tick =
  rt_tick :: tick_result
  rt_index :: int
  rt_enabled :: "int list"
  rt_desired :: "int list"
  rt_leased :: "int list"
  rt_conflicts :: "conflict list"
  rt_workers :: int

record run_result =
  rr_mode :: orch_mode
  rr_index :: int
  rr_run_id :: string
  rr_lease_held :: bool
  rr_inventory :: "int list"
  rr_source :: inventory_source
  rr_tick :: run_tick
  rr_status :: coord_status
  rr_leader :: leader_status
  rr_target :: int
  rr_work :: "work_result list"

text \<open>The constants of a run.\<close>

record run_env =
  re_mode :: orch_mode
  re_sg :: "int option"
  re_settings :: settings
  re_owner :: string
  re_election :: string
  re_dir :: string
  re_sha :: "string \<Rightarrow> nat list"
  re_script :: os_script
  re_net :: "nat \<Rightarrow> net_env"
  re_now :: "nat \<Rightarrow> real"
  re_elapsed :: "nat \<Rightarrow> real"

text \<open>What changes during a run: the manager's state, the groups the runtime ticks with, the
  launcher's closure variables and the snapshot file.\<close>

record run_ctx =
  rc_mgr :: coord_state
  rc_groups :: "int list"
  rc_plan :: inventory_plan
  rc_initialized :: bool
  rc_snapshot :: snapshot_file
  rc_emitted :: "run_result list"

definition build_manager ::
  "run_env \<Rightarrow> inventory_plan \<Rightarrow> leader_files \<Rightarrow> (int \<Rightarrow> lease_files) \<Rightarrow> (coord_config \<times> coord_state) result" where
  "build_manager e p lfs sfs =
     coord_init (re_dir e) (re_election e) (build_leader_id (re_mode e) (re_owner e)) (re_owner e)
       (st_leader_ttl (re_settings e)) (st_lease_ttl (re_settings e)) (ip_target p)
       (st_shard_mode (re_settings e)) (controller_enabled (re_mode e))
       (if controller_enabled (re_mode e) then Some leader_id_validator else None) lfs sfs"

text \<open>The result of tick \<open>k\<close> from the manager's state after it (\<open>idx\<close> is its index, \<open>tick_idx\<close> the
  index inside the tick result, which \<open>run_once\<close> leaves unset), as \<open>run_once\<close> and the callback of
  \<open>run_forever\<close> both assemble it.\<close>

definition assemble_result ::
  "run_env \<Rightarrow> coord_config \<Rightarrow> int \<Rightarrow> int \<Rightarrow> nat \<Rightarrow> inventory_plan \<Rightarrow> tick_result \<Rightarrow> coord_status \<Rightarrow> coord_state \<Rightarrow>
   run_result result" where
  "assemble_result e c idx tick_idx k p t st s =
     (let hld = (if re_mode e = Controller then [] else sort (cs_held st));
          work = select_work_sg_ids (sort (ct_acquired t)) hld;
          lease_held = worker_lease_held (re_mode e) hld
      in case build_conflicts (re_dir e) (re_election e) (re_owner e) (st_lease_ttl (re_settings e)) (re_now e k)
                (lease_fs s) (ip_desired p) hld of
           Inl x \<Rightarrow> Inl x
         | Inr cs \<Rightarrow>
             (case leader_get_status (re_dir e) (cc_leader c) (re_now e k) (leader_fs s) of
                Inl x \<Rightarrow> Inl x
              | Inr ls \<Rightarrow>
                  Inr \<lparr>rr_mode = re_mode e, rr_index = idx,
                    rr_run_id = build_run_id (re_mode e) work idx lease_held, rr_lease_held = lease_held,
                    rr_inventory = ip_groups p, rr_source = ip_source p,
                    rr_tick = \<lparr>rt_tick = t, rt_index = tick_idx, rt_enabled = sort (ip_groups p),
                      rt_desired = sort (ip_desired p), rt_leased = sort hld, rt_conflicts = cs,
                      rt_workers = ip_workers p\<rparr>,
                    rr_status = st, rr_leader = ls, rr_target = ip_target p,
                    rr_work = run_worker_tests (re_elapsed e) (re_mode e) (re_settings e) work lease_held\<rparr>))"

definition should_refresh_inventory :: "run_env \<Rightarrow> bool" where
  "should_refresh_inventory e =
     (if \<not> controller_enabled (re_mode e) then False
      else if st_auto_discover (re_settings e) \<and> py_strip (ad_hostname (st_adapter (re_settings e))) = '''' then False
      else True)"

text \<open>\<open>_emit_result\<close>, with \<open>_refresh_leader_inventory\<close> inside; \<open>has_callback\<close> is whether
  \<open>on_tick\<close> was given.  The manager is not rebuilt when the inventory is.\<close>

definition emit_result ::
  "run_env \<Rightarrow> coord_config \<Rightarrow> bool \<Rightarrow> nat \<Rightarrow> tick_result \<Rightarrow> run_ctx \<Rightarrow> unit result \<times> run_ctx" where
  "emit_result e c has_callback k t x =
     (case coord_get_status c (re_now e k) (rc_mgr x) of
        Inl err \<Rightarrow> (Inl err, x)
      | Inr st \<Rightarrow>
          (let refreshed =
             (if cs_is_leader st \<and> \<not> rc_initialized x \<and> should_refresh_inventory e then
                (case build_inventory_and_plan (re_net e k) (re_settings e) (re_mode e) (re_sg e) True (rc_snapshot x) of
                   (Inl err, f) \<Rightarrow> (Inl err, x\<lparr>rc_snapshot := f\<rparr>)
                 | (Inr p, f) \<Rightarrow> (Inr (), x\<lparr>rc_snapshot := f, rc_plan := p, rc_groups := ip_groups p,
                                          rc_initialized := True\<rparr>))
              else (Inr (), x))
           in case refreshed of
                (Inl err, x') \<Rightarrow> (Inl err, x')
              | (Inr _, x') \<Rightarrow>
                  if \<not> has_callback then (Inr (), x')
                  else (case assemble_result e c (int k) (int k) k (rc_plan x') t st (rc_mgr x') of
                          Inl err \<Rightarrow> (Inl err, x')
                        | Inr r \<Rightarrow> (Inr (), x'\<lparr>rc_emitted := rc_emitted x' @ [r]\<rparr>))))"

text \<open>One tick of the runtime.\<close>

definition runtime_tick :: "run_env \<Rightarrow> coord_config \<Rightarrow> run_ctx \<Rightarrow> tick_result result \<times> run_ctx" where
  "runtime_tick e c x =
     (case (if re_mode e = Controller then tick_leader_only c (re_script e) (rc_mgr x)
            else coord_tick (re_sha e) c (re_script e) (rc_groups x) (rc_mgr x)) of
        (r, m) \<Rightarrow> (r, x\<lparr>rc_mgr := m\<rparr>))"

text \<open>
  The loop of \<open>run_forever\<close>: \<open>stop k\<close> is what reading the stop flag for the \<open>k\<close>-th time
  gives (a signal handler or another thread may set it between any two reads).  The loop may run
  forever when \<open>max_ticks\<close> is \<open>None\<close>, so it takes fuel; \<open>None\<close> is out of fuel.
\<close>

fun runtime_loop ::
  "nat \<Rightarrow> run_env \<Rightarrow> coord_config \<Rightarrow> bool \<Rightarrow> int option \<Rightarrow> (nat \<Rightarrow> bool) \<Rightarrow> nat \<Rightarrow>
   (nat \<times> tick_result) list \<Rightarrow> run_ctx \<Rightarrow> ((nat \<times> tick_result) list result \<times> run_ctx) option" where
  "runtime_loop 0 e c cb max_ticks stop ticks results x = None"
| "runtime_loop (Suc fuel) e c cb max_ticks stop ticks results x =
     (if stop (2 * ticks) then Some (Inr results, x)
      else case runtime_tick e c x of
        (Inl err, x1) \<Rightarrow> Some (Inl err, x1)
      | (Inr t, x1) \<Rightarrow>
          (let results' = (if max_ticks \<noteq> None then results @ [(Suc ticks, t)] else results) in
           case emit_result e c cb (Suc ticks) t x1 of
             (Inl err, x2) \<Rightarrow> Some (Inl err, x2)
           | (Inr _, x2) \<Rightarrow>
               if (case max_ticks of None \<Rightarrow> False | Some m \<Rightarrow> m \<le> int (Suc ticks)) then Some (Inr results', x2)
               else if stop (2 * ticks + 1) then Some (Inr results', x2)
               else runtime_loop fuel e c cb max_ticks stop (Suc ticks) results' x2))"

text \<open>\<open>CmtsOrchestratorRuntime.run_forever\<close>: whatever ends the loop, \<open>release_all\<close> runs at the end
  and its own exception is suppressed; \<open>order\<close> is the order in which it walks a held set.\<close>

definition runtime_run ::
  "nat \<Rightarrow> run_env \<Rightarrow> coord_config \<Rightarrow> bool \<Rightarrow> int option \<Rightarrow> (nat \<Rightarrow> bool) \<Rightarrow> (int list \<Rightarrow> int list) \<Rightarrow> run_ctx \<Rightarrow>
   ((nat \<times> tick_result) list result \<times> run_ctx) option" where
  "runtime_run fuel e c cb max_ticks stop order x =
     (if (case max_ticks of None \<Rightarrow> False | Some m \<Rightarrow> m < 0)
      then Some (Inl (ValueError ''max_ticks must be non-negative.''), x)
      else case runtime_loop fuel e c cb max_ticks stop 0 [] x of
             None \<Rightarrow> None
           | Some (r, x') \<Rightarrow>
               Some (r, x'\<lparr>rc_mgr := snd (release_all c (re_script e) (order (held (rc_mgr x'))) (rc_mgr x'))\<rparr>))"

text \<open>\<open>CmtsOrchestratorLauncher.run_forever\<close>, from validated settings.\<close>

definition launcher_run_forever ::
  "nat \<Rightarrow> run_env \<Rightarrow> bool \<Rightarrow> int option \<Rightarrow> (nat \<Rightarrow> bool) \<Rightarrow> (int list \<Rightarrow> int list) \<Rightarrow>
   leader_files \<Rightarrow> (int \<Rightarrow> lease_files) \<Rightarrow> snapshot_file \<Rightarrow>
   ((nat \<times> tick_result) list result \<times> run_result list) option" where
  "launcher_run_forever fuel e cb max_ticks stop order lfs sfs f =
     (case build_inventory_and_plan (re_net e 0) (re_settings e) (re_mode e) (re_sg e) False f of
        (Inl err, f') \<Rightarrow> Some (Inl err, [])
      | (Inr p, f') \<Rightarrow>
          (case build_manager e p lfs sfs of
             Inl err \<Rightarrow> Some (Inl err, [])
           | Inr (c, s) \<Rightarrow>
               (case runtime_run fuel e c cb max_ticks stop order
                       \<lparr>rc_mgr = s, rc_groups = ip_groups p, rc_plan = p, rc_initialized = False,
                        rc_snapshot = f', rc_emitted = []\<rparr> of
                  None \<Rightarrow> None
                | Some (r, x) \<Rightarrow> Some (r, rc_emitted x))))"

text \<open>\<open>run_once\<close>: in controller mode the inventory is built again after the tick, as leader or not.\<close>

definition launcher_run_once ::
  "run_env \<Rightarrow> leader_files \<Rightarrow> (int \<Rightarrow> lease_files) \<Rightarrow> snapshot_file \<Rightarrow> run_result result" where
  "launcher_run_once e lfs sfs f =
     (case build_inventory_and_plan (re_net e 0) (re_settings e) (re_mode e) (re_sg e) False f of
        (Inl err, f') \<Rightarrow> Inl err
      | (Inr p, f') \<Rightarrow>
          (case build_manager e p lfs sfs of
             Inl err \<Rightarrow> Inl err
           | Inr (c, s) \<Rightarrow>
               (case (if re_mode e = Controller then
                        (case tick_leader_only c (re_script e) s of
                           (Inl err, s') \<Rightarrow> Inl err
                         | (Inr t, s') \<Rightarrow>
                             (case leader_get_status (re_dir e) (cc_leader c) (re_now e 0) (leader_fs s') of
                                Inl err \<Rightarrow> Inl err
                              | Inr ls \<Rightarrow>
                                  (case build_inventory_and_plan (re_net e 1) (re_settings e) (re_mode e) (re_sg e)
                                          (ls_is_leader ls) f' of
                                     (Inl err, _) \<Rightarrow> Inl err
                                   | (Inr p', _) \<Rightarrow> Inr (t, p', s'))))
                      else (case coord_tick (re_sha e) c (re_script e) (ip_groups p) s of
                              (Inl err, s') \<Rightarrow> Inl err
                            | (Inr t, s') \<Rightarrow> Inr (t, p, s'))) of
                  Inl err \<Rightarrow> Inl err
                | Inr (t, p', s') \<Rightarrow>
                    (case coord_get_status c (re_now e 1) s' of
                       Inl err \<Rightarrow> Inl err
                     | Inr st \<Rightarrow> assemble_result e c 1 0 1 p' t st s'))))"

section \<open>Lemmas\<close>

lemma py_strip_Cons: "\<not> py_space c \<Longrightarrow> \<exists>t. py_strip (c # s) = c # t"
proof -
  assume c: "\<not> py_space c"
  have "py_lstrip (rev (c # s)) = py_lstrip (rev s) @ [c]"
    using c by (simp add: py_lstrip_append_last)
  with c show ?thesis by (simp add: py_strip_def py_lstrip_of_nonspace)
qed

lemma leader_id_validator_strip [simp]: "leader_id_validator (py_strip s) = leader_id_validator s"
  by (simp add: leader_id_validator_def)

lemma runtime_loop_ticks:
  assumes "runtime_loop fuel e c cb (Some n) stop ticks results x = Some (Inr r, x')"
  shows "\<exists>m. map fst r = map fst results @ [Suc ticks..<Suc m] \<and> ticks \<le> m \<and> m \<le> max (Suc ticks) (nat n) \<and>
    ((\<forall>k. \<not> stop k) \<longrightarrow> m = max (Suc ticks) (nat n))"
  using assms
proof (induction fuel arbitrary: ticks results x)
  case 0
  then show ?case by simp
next
  case (Suc fuel)
  show ?case
  proof (cases "stop (2 * ticks)")
    case True
    with Suc.prems show ?thesis by (intro exI [of _ ticks]) auto
  next
    case go: False
    obtain t x1 where t: "runtime_tick e c x = (Inr t, x1)"
      using Suc.prems go by (auto split: prod.splits sum.splits)
    obtain u x2 where em: "emit_result e c cb (Suc ticks) t x1 = (Inr u, x2)"
      using Suc.prems go t by (auto simp: Let_def split: prod.splits sum.splits)
    let ?r = "results @ [(Suc ticks, t)]"
    show ?thesis
    proof (cases "n \<le> int (Suc ticks) \<or> stop (2 * ticks + 1)")
      case True
      with Suc.prems go t em have "r = ?r" by (auto simp: Let_def split: if_splits)
      with True show ?thesis by (intro exI [of _ "Suc ticks"]) auto
    next
      case False
      with Suc.prems go t em have "runtime_loop fuel e c cb (Some n) stop (Suc ticks) ?r x2 = Some (Inr r, x')"
        by (simp add: Let_def)
      from Suc.IH [OF this] obtain m where m: "map fst r = map fst ?r @ [Suc (Suc ticks)..<Suc m]" "Suc ticks \<le> m"
        "m \<le> max (Suc (Suc ticks)) (nat n)" "(\<forall>k. \<not> stop k) \<longrightarrow> m = max (Suc (Suc ticks)) (nat n)" by blast
      moreover have "[Suc ticks..<Suc m] = Suc ticks # [Suc (Suc ticks)..<Suc m]"
        using m(2) by (simp add: upt_conv_Cons)
      ultimately show ?thesis using False by (intro exI [of _ m]) auto
    qed
  qed
qed

lemma runtime_loop_fuel:
  "nat n \<le> ticks + fuel \<Longrightarrow> 0 < fuel \<Longrightarrow>
   runtime_loop fuel e c cb (Some n) stop ticks results x \<noteq> None"
proof (induction fuel arbitrary: ticks results x)
  case 0
  then show ?case by simp
next
  case (Suc fuel)
  obtain rt x1 where t: "runtime_tick e c x = (rt, x1)" by fastforce
  show ?case
  proof (cases "stop (2 * ticks) \<or> (\<exists>err. rt = Inl err)")
    case True
    with t show ?thesis by auto
  next
    case go: False
    then obtain tr where rt: "rt = Inr tr" by (cases rt) auto
    obtain re x2 where em: "emit_result e c cb (Suc ticks) tr x1 = (re, x2)" by fastforce
    show ?thesis
    proof (cases "(\<exists>err. re = Inl err) \<or> n \<le> int (Suc ticks) \<or> stop (2 * ticks + 1)")
      case True
      with t go rt em show ?thesis by (auto simp: Let_def split: sum.splits)
    next
      case False
      then have "nat n \<le> Suc ticks + fuel" "0 < fuel" using Suc.prems by auto
      from Suc.IH [OF this] show ?thesis using t go rt em False by (auto simp: Let_def split: sum.splits)
    qed
  qed
qed

text \<open>A manager that may hold nothing and holds nothing acquires nothing.\<close>

lemma coord_tick_idle:
  assumes "coord_tick sha c os sgs s = (r, s')" and "cc_target c = 0" and "held s = []"
  shows "held s' = [] \<and> (\<forall>t. r = Inr t \<longrightarrow> ct_acquired t = [])"
proof -
  have no: "acquire_missing sha c os sgs fl z = (Inr ([], fl), z)" for fl z
    using assms(2) by (simp add: acquire_missing_def)
  obtain a s1 where l: "leader_step c os s = (a, s1)" by fastforce
  have h1: "held s1 = []" using leader_step_frame(1) [OF l] assms(3) by simp
  show ?thesis
    using assms(1) l h1 assms(2) by (auto simp: coord_tick_def no split: sum.splits prod.splits)
qed

lemma runtime_tick_idle:
  assumes "runtime_tick e c x = (r, x')" and "cc_target c = 0" and "held (rc_mgr x) = []"
  shows "held (rc_mgr x') = [] \<and> (\<forall>t. r = Inr t \<longrightarrow> ct_acquired t = [])"
proof (cases "re_mode e = Controller")
  case True
  obtain a s1 where l: "leader_step c (re_script e) (rc_mgr x) = (a, s1)" by fastforce
  from leader_step_frame(1) [OF l] assms True l show ?thesis
    by (auto simp: runtime_tick_def tick_leader_only_def split: sum.splits prod.splits)
next
  case False
  obtain a m where t: "coord_tick (re_sha e) c (re_script e) (rc_groups x) (rc_mgr x) = (a, m)" by fastforce
  from coord_tick_idle [OF t assms(2,3)] assms(1) False t show ?thesis by (auto simp: runtime_tick_def)
qed

lemma emit_result_mgr:
  assumes "emit_result e c cb k t x = (r, x')"
  shows "rc_mgr x' = rc_mgr x"
  using assms by (auto simp: emit_result_def Let_def split: sum.splits prod.splits if_splits)

lemma runtime_loop_idle:
  assumes "runtime_loop fuel e c cb mt stop ticks results x = Some (Inr r, x')"
    and "cc_target c = 0" and "held (rc_mgr x) = []" and "\<forall>(k, t) \<in> set results. ct_acquired t = []"
  shows "\<forall>(k, t) \<in> set r. ct_acquired t = []"
  using assms
proof (induction fuel arbitrary: ticks results x)
  case 0
  then show ?case by simp
next
  case (Suc fuel)
  show ?case
  proof (cases "stop (2 * ticks)")
    case True
    with Suc.prems show ?thesis by auto
  next
    case go: False
    obtain t x1 where t: "runtime_tick e c x = (Inr t, x1)"
      using Suc.prems(1) go by (auto split: prod.splits sum.splits)
    obtain u x2 where em: "emit_result e c cb (Suc ticks) t x1 = (Inr u, x2)"
      using Suc.prems(1) go t by (auto simp: Let_def split: prod.splits sum.splits)
    define rs where "rs = (if mt \<noteq> None then results @ [(Suc ticks, t)] else results)"
    from runtime_tick_idle [OF t Suc.prems(2,3)] have i: "held (rc_mgr x1) = []" "ct_acquired t = []" by auto
    have rs: "\<forall>(k, t) \<in> set rs. ct_acquired t = []" using Suc.prems(4) i(2) by (auto simp: rs_def)
    have h2: "held (rc_mgr x2) = []" using emit_result_mgr [OF em] i(1) by simp
    from Suc.prems(1) go t em have "r = rs \<or> runtime_loop fuel e c cb mt stop (Suc ticks) rs x2 = Some (Inr r, x')"
      by (auto simp: Let_def rs_def split: if_splits)
    then show ?thesis using Suc.IH [OF _ Suc.prems(2) h2 rs] rs by blast
  qed
qed

section \<open>Properties\<close>

text \<open>In the controller and combined modes the leader identifier built from any owner passes the
  validator that the election applies to records, so a controller always recognises its own
  record; in the other modes it never does, so no worker's record counts as a leader.\<close>

theorem leader_id_accepted:
  assumes "py_strip owner \<noteq> ''''"
  shows "leader_id_validator (py_strip (build_leader_id m owner)) = controller_enabled m"
proof -
  define v where "v = py_strip owner"
  have v: "v \<noteq> ''''" "py_strip v = v" using assms by (simp_all add: v_def)
  have ctl: "leader_id_validator (''controller-'' @ s)" for s
  proof -
    obtain t where "py_strip (''controller-'' @ s) = CHR ''c'' # t"
      using py_strip_Cons [of "CHR ''c''" "''ontroller-'' @ s"] by (auto simp: py_space_def)
    then show ?thesis unfolding leader_id_validator_def by (simp add: py_startswith_def)
  qed
  have wrk: "\<not> leader_id_validator (''worker-'' @ s)" for s
  proof (cases "py_strip (''worker-'' @ s) = ''''")
    case True
    then show ?thesis by (simp add: leader_id_validator_def)
  next
    case False
    have l: "py_lstrip (rev s @ rev ''worker-'') = (if py_lstrip (rev s) = [] then rev ''worker-''
        else py_lstrip (rev s) @ rev ''worker-'')"
      by (auto simp: py_lstrip_def dropWhile_append py_space_def)
    have "py_strip (''worker-'' @ s) = ''worker-'' @ rev (py_lstrip (rev s))"
      using l by (auto simp: py_strip_def py_lstrip_of_nonspace py_space_def)
    then show ?thesis unfolding leader_id_validator_def by (simp add: py_startswith_def)
  qed
  have pre: "py_startswith v p \<Longrightarrow> \<exists>s. v = p @ s" for p by (simp add: py_startswith_iff)
  show ?thesis
    unfolding build_leader_id_def v_def [symmetric] Let_def
    using v ctl wrk pre [of "''controller-''"] pre [of "''worker-''"] assms
    by (auto simp: v_def [symmetric] Let_def)
qed

lemma leader_id_accepted_witness:
  "leader_id_validator (py_strip (build_leader_id Combined ''worker-7''))"
proof -
  have "py_strip ''worker-7'' \<noteq> ''''" by (simp add: py_strip_def py_lstrip_def py_space_def)
  from leader_id_accepted [OF this, of Combined] show ?thesis by (simp add: controller_enabled_def)
qed

text \<open>C14: The loop of \<open>run_forever\<close> ends when \<open>max_ticks\<close> is given, whatever the ticks do.  When it returns it
  has run the ticks 1, 2, ... in order, at most \<open>max_ticks\<close> of them, but one when \<open>max_ticks\<close> is 0, and exactly
  that many when nobody asks it to stop; a stop that is requested before the loop leaves none.\<close>

theorem runtime_runs_max_ticks:
  assumes "0 \<le> n"
  shows "(nat (max 1 n) \<le> fuel \<longrightarrow> runtime_run fuel e c cb (Some n) stop order x \<noteq> None) \<and>
    (\<forall>results x'. runtime_run fuel e c cb (Some n) stop order x = Some (Inr results, x') \<longrightarrow>
       (\<exists>m \<le> nat (max 1 n). map fst results = [1..<Suc m] \<and> ((\<forall>k. \<not> stop k) \<longrightarrow> m = nat (max 1 n))))"
proof (intro conjI impI allI)
  assume "nat (max 1 n) \<le> fuel"
  then have "nat n \<le> 0 + fuel" "0 < fuel" by auto
  from runtime_loop_fuel [OF this] assms show "runtime_run fuel e c cb (Some n) stop order x \<noteq> None"
    by (auto simp: runtime_run_def split: option.splits)
next
  fix results x'
  assume "runtime_run fuel e c cb (Some n) stop order x = Some (Inr results, x')"
  then obtain y where "runtime_loop fuel e c cb (Some n) stop 0 [] x = Some (Inr results, y)"
    using assms by (auto simp: runtime_run_def split: option.splits)
  from runtime_loop_ticks [OF this] obtain m where m: "map fst results = [Suc 0..<Suc m]"
    "m \<le> max (Suc 0) (nat n)" "(\<forall>k. \<not> stop k) \<longrightarrow> m = max (Suc 0) (nat n)" by auto
  have "max (Suc 0) (nat n) = nat (max 1 n)" by linarith
  with m show "\<exists>m \<le> nat (max 1 n). map fst results = [1..<Suc m] \<and> ((\<forall>k. \<not> stop k) \<longrightarrow> m = nat (max 1 n))"
    by (intro exI [of _ m]) auto
qed

text \<open>What the leader publishes is what a follower plans with: after a controller built the groups as
  leader and its snapshot could be written, building them as a follower with the same settings
  gives the same groups, and a follower never changes the snapshot.\<close>

theorem follower_reads_leader_inventory:
  assumes "controller_groups net s True f = (Inr (ids, src), f')" and "\<not> net_write_error net"
  shows "\<exists>src'. controller_groups net' s False f' = (Inr (ids, src'), f')"
proof -
  have [simp]: "sort (config_groups s) = config_groups s" by (simp add: config_groups_def sorted_sort_id)
  show ?thesis
    using assms
    by (auto simp: controller_groups_def discovered_groups_def run_discovery_def persist_inventory_def
        load_snapshot_def split: sum.splits option.splits prod.splits if_splits snapshot_file.splits)
qed

definition demo_net :: net_env where
  "demo_net = \<lparr>net_resolves = True, net_groups = Some [4, 2], net_write_error = False\<rparr>"

lemma follower_reads_leader_inventory_witness:
  "\<exists>src'. controller_groups demo_net demo_settings False (Snapshot [2, 4]) = (Inr ([2, 4], src'), Snapshot [2, 4])"
proof -
  have "controller_groups demo_net demo_settings True NoSnapshot = (Inr ([2, 4], SourceDiscovery), Snapshot [2, 4])"
    by (simp add: controller_groups_def discovered_groups_def run_discovery_def demo_net_def demo_settings_def
        py_strip_def py_lstrip_def py_space_def)
  then show ?thesis by (rule follower_reads_leader_inventory) (simp add: demo_net_def)
qed

text \<open>The manager's target is fixed when a run starts.  A run whose first inventory gives a target
  of zero acquires no lease at any tick, also when a later refresh finds groups and the results
  report their number as the target.\<close>

theorem run_with_zero_target_idle:
  assumes "build_inventory_and_plan (re_net e 0) (re_settings e) (re_mode e) (re_sg e) False f = (Inr p, f')"
    and "ip_target p = 0"
    and "launcher_run_forever fuel e cb max_ticks stop order lfs sfs f = Some (Inr results, emitted)"
  shows "\<forall>(k, t) \<in> set results. ct_acquired t = []"
proof -
  obtain c s x where m: "build_manager e p lfs sfs = Inr (c, s)"
    and r: "runtime_run fuel e c cb max_ticks stop order
      \<lparr>rc_mgr = s, rc_groups = ip_groups p, rc_plan = p, rc_initialized = False,
       rc_snapshot = f', rc_emitted = []\<rparr> = Some (Inr results, x)"
    using assms by (auto simp: launcher_run_forever_def split: sum.splits option.splits)
  from m assms(2) have cs: "cc_target c = 0" "held s = []"
    by (auto simp: build_manager_def coord_init_def split: sum.splits if_splits)
  from r obtain y where "runtime_loop fuel e c cb max_ticks stop 0 []
      \<lparr>rc_mgr = s, rc_groups = ip_groups p, rc_plan = p, rc_initialized = False,
       rc_snapshot = f', rc_emitted = []\<rparr> = Some (Inr results, y)"
    by (cases "case max_ticks of None \<Rightarrow> False | Some m \<Rightarrow> m < 0") (auto simp: runtime_run_def split: option.splits)
  from runtime_loop_idle [OF this cs(1)] cs(2) show ?thesis by simp
qed

text \<open>Without a controller, and without a group bound to a worker, a configured target of zero
  groups is a target of zero leases, not of all groups.\<close>

theorem zero_target_without_controller:
  assumes "build_inventory_and_plan net s m sg lead f = (Inr p, f')" and "\<not> controller_enabled m"
    and "st_target s = 0" and "m = Standalone \<or> sg = None"
  shows "ip_target p = 0"
  using assms
  by (auto simp: build_inventory_and_plan_def effective_target_def controller_enabled_def worker_enabled_def
      split: sum.splits prod.splits)

lemma zero_target_without_controller_witness:
  "\<exists>p. fst (build_inventory_and_plan demo_net (demo_settings\<lparr>st_groups := [default_descriptor 3], st_auto_discover := False\<rparr>)
       Standalone None False NoSnapshot) = Inr p \<and> ip_groups p = [3] \<and> ip_target p = 0"
proof -
  let ?s = "demo_settings\<lparr>st_groups := [default_descriptor 3], st_auto_discover := False\<rparr>"
  have "\<exists>p. build_inventory_and_plan demo_net ?s Standalone None False NoSnapshot = (Inr p, NoSnapshot) \<and> ip_groups p = [3]"
    by (simp add: build_inventory_and_plan_def controller_enabled_def build_service_groups_def config_groups_def
        default_descriptor_def)
  then obtain p where p: "build_inventory_and_plan demo_net ?s Standalone None False NoSnapshot = (Inr p, NoSnapshot)"
    "ip_groups p = [3]" by blast
  from zero_target_without_controller [OF p(1)] p show ?thesis
    by (auto simp: controller_enabled_def demo_settings_def)
qed

subsection \<open>A combined replica with an empty first inventory\<close>

definition demo_env :: run_env where
  "demo_env = \<lparr>re_mode = Combined, re_sg = None, re_settings = demo_settings, re_owner = ''host-1'',
     re_election = ''cmts-primary'', re_dir = ''state'', re_sha = demo_sha, re_script = (\<lambda>_. calm 100),
     re_net = (\<lambda>_. demo_net), re_now = (\<lambda>_. 100), re_elapsed = (\<lambda>_. 0)\<rparr>"

definition demo_run :: "((nat \<times> tick_result) list result \<times> run_result list) option" where
  "demo_run = launcher_run_forever 2 demo_env True (Some 2) (\<lambda>_. False) (\<lambda>xs. xs)
     \<lparr>lock_dir = None, record_file = Absent\<rparr> (\<lambda>_. \<lparr>lock_dir = None, record_file = Absent\<rparr>) NoSnapshot"

lemma demo_first_plan:
  "\<exists>p. build_inventory_and_plan (re_net demo_env 0) (re_settings demo_env) (re_mode demo_env) (re_sg demo_env)
     False NoSnapshot = (Inr p, NoSnapshot) \<and> ip_target p = 0"
  by (simp add: demo_env_def build_inventory_and_plan_def controller_enabled_def controller_groups_def
      load_snapshot_def config_groups_def planner_descriptors_def demo_settings_def plan_def order_sg_ids_def
      compute_worker_count_def Let_def)

lemma demo_strips:
  "py_strip ''cmts-primary'' = ''cmts-primary''" "py_strip ''host-1'' = ''host-1''" "py_strip ''cmts'' = ''cmts''"
  "py_strip ''controller-host-1'' = ''controller-host-1''"
  by (simp_all add: py_strip_def py_lstrip_def py_space_def)

lemmas run_defs = launcher_run_forever_def demo_env_def build_inventory_and_plan_def controller_enabled_def
      controller_groups_def load_snapshot_def config_groups_def planner_descriptors_def demo_settings_def plan_def
      order_sg_ids_def compute_worker_count_def build_manager_def coord_init_def leader_init_def demo_strips
      build_leader_id_def py_startswith_def 

lemmas loop_defs = runtime_run_def runtime_tick_def emit_result_def coord_get_status_def leader_get_status_def
  leader_renew_def leader_renew_locked_def leader_renew_model_def leader_id_validator_def
   should_refresh_inventory_def assemble_result_def build_conflicts_def
   discovered_groups_def run_discovery_def demo_net_def validate_descriptor_def default_descriptor_def
   select_work_sg_ids_def worker_lease_held_def worker_enabled_def lease_get_status_def

lemma demo_run_value:
  "\<exists>rs es. demo_run = Some (Inr rs, es) \<and> map rr_target es = [2, 2] \<and> length rs = 2"
  by (simp add: demo_run_def run_defs loop_defs coord_defs numeral_2_eq_2 Let_def)

lemma run_with_zero_target_idle_witness:
  "\<exists>rs es. demo_run = Some (Inr rs, es) \<and> map rr_target es = [2, 2] \<and> map (\<lambda>(k, t). ct_acquired t) rs = [[], []]"
proof -
  obtain rs es where r: "demo_run = Some (Inr rs, es)" "map rr_target es = [2, 2]" "length rs = 2"
    using demo_run_value by (elim exE conjE) (rule that)
  obtain p where p: "build_inventory_and_plan (re_net demo_env 0) (re_settings demo_env) (re_mode demo_env)
     (re_sg demo_env) False NoSnapshot = (Inr p, NoSnapshot)" "ip_target p = 0"
    using demo_first_plan by blast
  have "\<forall>(k, t) \<in> set rs. ct_acquired t = []"
    using run_with_zero_target_idle [OF p r(1) [unfolded demo_run_def]] .
  moreover obtain a b where "rs = [a, b]" using r(3) by (auto simp: length_Suc_conv numeral_2_eq_2)
  ultimately have "map (\<lambda>(k, t). ct_acquired t) rs = [[], []]" by auto
  with r(1,2) show ?thesis by (intro exI conjI)
qed

definition demo_ctx :: run_ctx where
  "demo_ctx = \<lparr>rc_mgr = demo_cs, rc_groups = [5], rc_plan = \<lparr>ip_groups = [5], ip_source = SourceConfig,
      ip_desired = [5], ip_workers = 1, ip_target = 1\<rparr>, rc_initialized = True, rc_snapshot = NoSnapshot,
      rc_emitted = []\<rparr>"

lemma runtime_runs_max_ticks_witness:
  "\<exists>results x'. runtime_run 1 demo_env demo_cc False (Some 0) (\<lambda>_. False) (\<lambda>xs. xs) demo_ctx = Some (Inr results, x') \<and>
     map fst results = [1]"
proof -
  have "\<exists>results x'. runtime_run 1 demo_env demo_cc False (Some 0) (\<lambda>_. False) (\<lambda>xs. xs) demo_ctx = Some (Inr results, x')"
    by (simp add: demo_ctx_def demo_cc_def demo_cs_def demo_env_def demo_files_def demo_lease_files_def
        loop_defs coord_defs demo_strips demo_settings_def py_strip_def py_lstrip_def py_space_def Let_def)
  then obtain results x' where r:
    "runtime_run 1 demo_env demo_cc False (Some 0) (\<lambda>_. False) (\<lambda>xs. xs) demo_ctx = Some (Inr results, x')" by blast
  with runtime_runs_max_ticks [of 0 1 demo_env demo_cc False "\<lambda>_. False" "\<lambda>xs. xs" demo_ctx]
  have "map fst results = [1]" by auto
  with r show ?thesis by (intro exI conjI)
qed

end
