(* ===== verification/SgwStore.thy ===== *)
theory SgwStore
  imports Settings
begin

text \<open>
  The cache of the serving group worker: the models of \<open>sgw/models.py\<close> and
  \<open>orchestrator/models.py\<close> and the store of \<open>sgw/store.py\<close>.  The store is a map from service
  group to entry; entries are values, so the deep copies of the code are the identity here.
\<close>

section \<open>Models\<close>

datatype refresh_state = StateOk | StateStale | StateError

record cache_metadata =
  md_snapshot :: real
  md_age :: real
  md_heavy :: "real option"
  md_light :: "real option"
  md_state :: refresh_state
  md_error :: "string option"

datatype rf_type = ScQam | Ofdm | Ofdma

record rf_channel =
  rf_id :: int
  rf_kind :: rf_type
  rf_center :: "int option"
  rf_start :: "int option"
  rf_plc :: "int option"
  rf_width :: "int option"
  rf_lower :: "int option"
  rf_upper :: "int option"

record cable_modem =
  cm_mac :: string
  cm_ipv4 :: string
  cm_ipv6 :: string
  cm_ds_set :: int
  cm_us_set :: int
  cm_status :: int
  cm_sysdescr :: string

record channel_summary =
  ch_count :: int
  ch_ids :: "int list"

record payload =
  pl_ds_set :: int
  pl_us_set :: int
  pl_ds :: channel_summary
  pl_us :: channel_summary
  pl_ds_rf :: "rf_channel list"
  pl_us_rf :: "rf_channel list"
  pl_modems :: "cable_modem list"

record snapshot =
  sn_sg :: int
  sn_payload :: payload
  sn_metadata :: cache_metadata

record cache_entry =
  ce_sg :: int
  ce_snapshot :: snapshot

type_synonym store = "int \<rightharpoonup> cache_entry"

definition default_metadata :: cache_metadata where
  "default_metadata = \<lparr>md_snapshot = 0, md_age = 0, md_heavy = None, md_light = None,
     md_state = StateOk, md_error = None\<rparr>"

definition empty_payload :: payload where
  "empty_payload = \<lparr>pl_ds_set = 0, pl_us_set = 0, pl_ds = \<lparr>ch_count = 0, ch_ids = []\<rparr>,
     pl_us = \<lparr>ch_count = 0, ch_ids = []\<rparr>, pl_ds_rf = [], pl_us_rf = [], pl_modems = []\<rparr>"

definition new_entry :: "int \<Rightarrow> cache_metadata \<Rightarrow> cache_entry" where
  "new_entry sg md = \<lparr>ce_sg = sg, ce_snapshot = \<lparr>sn_sg = sg, sn_payload = empty_payload, sn_metadata = md\<rparr>\<rparr>"

definition entry_metadata :: "cache_entry \<Rightarrow> cache_metadata" where
  "entry_metadata e = sn_metadata (ce_snapshot e)"

definition with_metadata :: "cache_metadata \<Rightarrow> cache_entry \<Rightarrow> cache_entry" where
  "with_metadata md e = e\<lparr>ce_snapshot := (ce_snapshot e)\<lparr>sn_metadata := md\<rparr>\<rparr>"

section \<open>The store\<close>

text \<open>\<open>get_ids\<close>: the keys in ascending order; \<open>keys\<close> is any list of the keys of the dictionary.\<close>

definition store_get_ids :: "int list \<Rightarrow> int list" where
  "store_get_ids keys = sort keys"

definition store_get :: "store \<Rightarrow> int \<Rightarrow> cache_entry option" where
  "store_get s sg = s sg"

definition store_upsert :: "cache_entry \<Rightarrow> store \<Rightarrow> store" where
  "store_upsert e s = s(ce_sg e \<mapsto> e)"

definition store_update_metadata :: "int \<Rightarrow> cache_metadata \<Rightarrow> store \<Rightarrow> store" where
  "store_update_metadata sg md s =
     (case s sg of
        None \<Rightarrow> s(sg \<mapsto> new_entry sg md)
      | Some e \<Rightarrow> s(sg \<mapsto> with_metadata md e))"

definition normalize_error :: "string \<Rightarrow> string" where
  "normalize_error msg = (if py_strip msg = '''' then '''' else take 256 (py_strip msg))"

definition store_mark_error :: "int \<Rightarrow> string \<Rightarrow> real \<Rightarrow> store \<Rightarrow> cache_metadata \<times> store" where
  "store_mark_error sg msg now s =
     (let e = (case s sg of None \<Rightarrow> new_entry sg default_metadata | Some e \<Rightarrow> e);
          md = (entry_metadata e)\<lparr>md_snapshot := now, md_age := 0, md_state := StateError,
                 md_error := Some (normalize_error msg)\<rparr>
      in (md, s(sg \<mapsto> with_metadata md e)))"

definition compute_staleness :: "real \<Rightarrow> int \<Rightarrow> bool" where
  "compute_staleness age max_age = (real_of_int max_age \<le> age)"

text \<open>The counters of \<open>get_memory_debug_stats\<close> over the entries, byte estimates aside.\<close>

definition store_modem_count :: "cache_entry list \<Rightarrow> int" where
  "store_modem_count es = int (sum_list (map (\<lambda>e. length (pl_modems (sn_payload (ce_snapshot e)))) es))"

text \<open>The serialiser of a channel drops the fields that its kind does not have.\<close>

definition serialized_fields :: "rf_channel \<Rightarrow> string list" where
  "serialized_fields c =
     (case rf_kind c of
        ScQam \<Rightarrow> [''channel_id'', ''channel_type'', ''center_frequency_hz'', ''channel_width_hz'',
                   ''lower_frequency_hz'', ''upper_frequency_hz'']
      | Ofdm \<Rightarrow> [''channel_id'', ''channel_type'', ''plc_frequency_hz'', ''channel_width_hz'',
                  ''lower_frequency_hz'', ''upper_frequency_hz'']
      | Ofdma \<Rightarrow> [''channel_id'', ''channel_type'', ''channel_width_hz'',
                   ''lower_frequency_hz'', ''upper_frequency_hz''])"

section \<open>Lemmas\<close>

text \<open>Every entry is stored under its own group and carries it in its snapshot; a stored error
  message is bounded.\<close>

definition entry_ok :: "int \<Rightarrow> cache_entry \<Rightarrow> bool" where
  "entry_ok sg e \<longleftrightarrow> ce_sg e = sg \<and> sn_sg (ce_snapshot e) = sg \<and>
     (case md_error (entry_metadata e) of None \<Rightarrow> True | Some m \<Rightarrow> length m \<le> 256)"

definition store_ok :: "store \<Rightarrow> bool" where
  "store_ok s \<longleftrightarrow> (\<forall>sg e. s sg = Some e \<longrightarrow> entry_ok sg e)"

named_theorems store_rules

lemma length_normalize_error [simp]: "length (normalize_error m) \<le> 256"
  by (simp add: normalize_error_def)

lemma with_metadata_simps [simp]:
  "ce_sg (with_metadata md e) = ce_sg e" "sn_sg (ce_snapshot (with_metadata md e)) = sn_sg (ce_snapshot e)"
  "entry_metadata (with_metadata md e) = md" "sn_payload (ce_snapshot (with_metadata md e)) = sn_payload (ce_snapshot e)"
  by (simp_all add: with_metadata_def entry_metadata_def)

lemma new_entry_simps [simp]:
  "ce_sg (new_entry sg md) = sg" "sn_sg (ce_snapshot (new_entry sg md)) = sg"
  "entry_metadata (new_entry sg md) = md"
  by (simp_all add: new_entry_def entry_metadata_def)

lemma store_upsert_ok [store_rules]:
  "store_ok s \<Longrightarrow> entry_ok (ce_sg e) e \<Longrightarrow> store_ok (store_upsert e s)"
  by (simp add: store_ok_def store_upsert_def)

lemma store_mark_error_ok [store_rules]:
  "store_ok s \<Longrightarrow> store_ok (snd (store_mark_error sg msg now s))"
  by (auto simp: store_ok_def store_mark_error_def entry_ok_def Let_def split: option.splits)

lemma store_update_metadata_ok [store_rules]:
  "store_ok s \<Longrightarrow> (case md_error md of None \<Rightarrow> True | Some m \<Rightarrow> length m \<le> 256) \<Longrightarrow>
   store_ok (store_update_metadata sg md s)"
  by (auto simp: store_ok_def store_update_metadata_def entry_ok_def split: option.splits)

lemma store_mark_error_simps:
  "store_mark_error sg msg now s = (md, s') \<Longrightarrow>
   s' = s(sg \<mapsto> with_metadata md (case s sg of None \<Rightarrow> new_entry sg default_metadata | Some e \<Rightarrow> e)) \<and>
   md_snapshot md = now \<and> md_state md = StateError \<and> md_error md = Some (normalize_error msg)"
  by (auto simp: store_mark_error_def Let_def)

end
