(* ===== verification/SgwManager.thy ===== *)
theory SgwManager
  imports SgwStore
begin

text \<open>
  The serving group worker manager, \<open>sgw/manager.py\<close>: which groups it refreshes, when, and what
  a refresh does to the cache.  The pollers are inputs of a cycle (they may raise); metrics are
  the counters the cycle increments; other threads act between cycles.
\<close>

section \<open>State\<close>

datatype request_mode = RequestNone | RequestLight | RequestHeavy

datatype refresh_mode = ModeNone | ModeHeavy | ModeLight

record sgw_manager =
  sm_store :: store
  sm_groups :: "int list"
  sm_jitter :: "int \<rightharpoonup> int"
  sm_requests :: "int \<rightharpoonup> request_mode"
  sm_started :: "int \<rightharpoonup> real"
  sm_counts :: "int \<rightharpoonup> int \<times> int"
  sm_stop :: bool

text \<open>The pollers and the jitter source of one cycle; a poller that raises is \<open>Inl\<close> of the text of
  its exception, \<open>str(exc)\<close>.\<close>

record pollers =
  po_heavy :: "int \<Rightarrow> string + payload"
  po_light :: "int \<Rightarrow> cable_modem list \<Rightarrow> (string + cable_modem list)"
  po_jitter :: "int \<Rightarrow> int \<Rightarrow> int"

text \<open>What one refresh reports; \<open>oc_error\<close> is the normalised message of a caught exception.  The
  store normalises it once more (cutting a message can leave a blank at its end), and the result
  reports what the store kept.\<close>

record refresh_outcome =
  oc_sg :: int
  oc_mode :: refresh_mode
  oc_applied :: bool
  oc_error :: "string option"
  oc_stale :: bool

record refresh_result =
  rs_time :: real
  rs_heavy :: "int list"
  rs_light :: "int list"
  rs_stale :: "int list"
  rs_errors :: "(int \<times> string) list"
  rs_metric_errors :: int

section \<open>Jitter\<close>

definition clamp_jitter :: "int \<Rightarrow> int \<Rightarrow> int" where
  "clamp_jitter v m = (if v < 0 then 0 else if m < v then m else v)"

definition resolve_jitter ::
  "sgw_settings \<Rightarrow> (int \<Rightarrow> int \<Rightarrow> int) \<Rightarrow> int \<Rightarrow> (int \<rightharpoonup> int) \<Rightarrow> int \<times> (int \<rightharpoonup> int)" where
  "resolve_jitter cfg src sg j =
     (case j sg of
        Some v \<Rightarrow> (v, j)
      | None \<Rightarrow>
          (let v = (if sg_jitter cfg \<le> 0 then 0 else clamp_jitter (src sg (sg_jitter cfg)) (sg_jitter cfg))
           in (v, j(sg \<mapsto> v))))"

definition initialize_jitter :: "sgw_settings \<Rightarrow> (int \<Rightarrow> int \<Rightarrow> int) \<Rightarrow> int list \<Rightarrow> int \<rightharpoonup> int" where
  "initialize_jitter cfg src sgs = foldl (\<lambda>j sg. snd (resolve_jitter cfg src sg j)) Map.empty sgs"

section \<open>Groups and requests\<close>

definition initialize_worker_state :: "real \<Rightarrow> int list \<Rightarrow> sgw_manager \<Rightarrow> sgw_manager" where
  "initialize_worker_state now sgs m =
     m\<lparr>sm_started := (\<lambda>sg. if sg \<in> set sgs then Some (case sm_started m sg of None \<Rightarrow> now | Some t \<Rightarrow> t) else None),
       sm_counts := (\<lambda>sg. if sg \<in> set sgs then Some (case sm_counts m sg of None \<Rightarrow> (0, 0) | Some c \<Rightarrow> c) else None)\<rparr>"

definition set_service_groups ::
  "sgw_settings \<Rightarrow> (int \<Rightarrow> int \<Rightarrow> int) \<Rightarrow> real \<Rightarrow> int list \<Rightarrow> sgw_manager \<Rightarrow> sgw_manager" where
  "set_service_groups cfg src now sgs m =
     initialize_worker_state now sgs (m\<lparr>sm_groups := sgs, sm_jitter := initialize_jitter cfg src sgs\<rparr>)"

definition manager_init ::
  "sgw_settings \<Rightarrow> (int \<Rightarrow> int \<Rightarrow> int) \<Rightarrow> real \<Rightarrow> store \<Rightarrow> int list \<Rightarrow> sgw_manager" where
  "manager_init cfg src now s sgs =
     (let m = \<lparr>sm_store = s, sm_groups = sgs, sm_jitter = Map.empty, sm_requests = Map.empty,
               sm_started = Map.empty, sm_counts = Map.empty, sm_stop = False\<rparr>
      in if sgs \<noteq> [] then set_service_groups cfg src now sgs m else m)"

definition clone_for_restart ::
  "sgw_settings \<Rightarrow> (int \<Rightarrow> int \<Rightarrow> int) \<Rightarrow> real \<Rightarrow> store option \<Rightarrow> sgw_manager \<Rightarrow> sgw_manager" where
  "clone_for_restart cfg src now s m =
     manager_init cfg src now (case s of None \<Rightarrow> sm_store m | Some x \<Rightarrow> x) (sm_groups m)"

definition reset_refresh_counts :: "int \<Rightarrow> sgw_manager \<Rightarrow> (bool \<times> string) \<times> sgw_manager" where
  "reset_refresh_counts sg m =
     (if sg \<notin> set (sm_groups m) then ((False, ''sg_id not managed by sgw''), m)
      else ((True, ''''), m\<lparr>sm_counts := (sm_counts m)(sg \<mapsto> (0, 0))\<rparr>))"

definition heavy_rate_limited :: "sgw_settings \<Rightarrow> int \<Rightarrow> real \<Rightarrow> sgw_manager \<Rightarrow> bool" where
  "heavy_rate_limited cfg sg now m =
     (case sm_store m sg of
        None \<Rightarrow> False
      | Some e \<Rightarrow>
          (case md_heavy (entry_metadata e) of
             None \<Rightarrow> False
           | Some h \<Rightarrow> now - h < real_of_int (sg_poll_heavy cfg)))"

definition request_refresh ::
  "sgw_settings \<Rightarrow> int \<Rightarrow> request_mode \<Rightarrow> real \<Rightarrow> sgw_manager \<Rightarrow> (bool \<times> string) \<times> sgw_manager" where
  "request_refresh cfg sg mode now m =
     (if mode = RequestNone then ((False, ''''), m)
      else if sg \<notin> set (sm_groups m) then ((False, ''sg_id not managed by sgw''), m)
      else if mode = RequestHeavy \<and> heavy_rate_limited cfg sg now m
      then ((False, ''heavy refresh rate limited''), m)
      else if sm_requests m sg = Some RequestHeavy then ((True, ''''), m)
      else if mode = RequestHeavy \<or> sm_requests m sg = None
      then ((True, ''''), m\<lparr>sm_requests := (sm_requests m)(sg \<mapsto> mode)\<rparr>)
      else ((True, ''''), m))"

text \<open>The worker limit of \<open>run_scoped_job\<close> and the groups it runs.\<close>

definition scoped_filter :: "int list \<Rightarrow> sgw_manager \<Rightarrow> int list" where
  "scoped_filter sgs m = filter (\<lambda>sg. sg \<in> set (sm_groups m)) sgs"

definition scoped_workers :: "sgw_settings \<Rightarrow> int option \<Rightarrow> int \<Rightarrow> int" where
  "scoped_workers cfg override n =
     (let l = (case override of Some k \<Rightarrow> k | None \<Rightarrow> sg_max_workers cfg);
          l' = (if l \<le> 0 then n else l)
      in max 1 (min l' n))"

section \<open>One refresh\<close>

definition refresh_due :: "real option \<Rightarrow> int \<Rightarrow> int \<Rightarrow> real \<Rightarrow> bool" where
  "refresh_due prev interval jitter now =
     (case prev of None \<Rightarrow> True | Some t \<Rightarrow> real_of_int (interval + jitter) \<le> now - t)"

definition ensure_entry :: "int \<Rightarrow> real \<Rightarrow> store \<Rightarrow> cache_entry \<times> store" where
  "ensure_entry sg now s =
     (case s sg of
        Some e \<Rightarrow> (e, s)
      | None \<Rightarrow> (let e = new_entry sg (default_metadata\<lparr>md_snapshot := now, md_age := 0\<rparr>)
                 in (e, store_upsert e s)))"

definition refresh_heavy :: "int \<Rightarrow> real \<Rightarrow> payload \<Rightarrow> store \<Rightarrow> store" where
  "refresh_heavy sg now p s =
     (let (e, s') = ensure_entry sg now s;
          md = (entry_metadata e)\<lparr>md_snapshot := now, md_age := 0, md_heavy := Some now, md_light := Some now,
                 md_state := StateOk, md_error := None\<rparr>
      in store_upsert (e\<lparr>ce_snapshot := (ce_snapshot e)\<lparr>sn_payload := p, sn_metadata := md\<rparr>\<rparr>) s')"

definition refresh_light :: "int \<Rightarrow> real \<Rightarrow> cable_modem list \<Rightarrow> store \<Rightarrow> store" where
  "refresh_light sg now cms s =
     (let (e, s') = ensure_entry sg now s;
          md = (entry_metadata e)\<lparr>md_snapshot := now, md_age := 0, md_light := Some now,
                 md_state := StateOk, md_error := None\<rparr>;
          sn = ce_snapshot e
      in store_upsert (e\<lparr>ce_snapshot := sn\<lparr>sn_payload := (sn_payload sn)\<lparr>pl_modems := cms\<rparr>, sn_metadata := md\<rparr>\<rparr>) s')"

text \<open>\<open>updated_by_mac\<close> is a dictionary: the last modem with a given address wins.\<close>

definition merge_light :: "cable_modem list \<Rightarrow> cable_modem list \<Rightarrow> cable_modem list" where
  "merge_light existing updated =
     (if updated = [] then existing
      else map (\<lambda>m. case map_of (rev (map (\<lambda>u. (cm_mac u, u)) updated)) (cm_mac m) of
                     None \<Rightarrow> m | Some u \<Rightarrow> u) existing)"

definition incr_counts :: "int \<Rightarrow> refresh_mode \<Rightarrow> (int \<rightharpoonup> int \<times> int) \<Rightarrow> int \<rightharpoonup> int \<times> int" where
  "incr_counts sg mode c =
     (let (h, l) = (case c sg of None \<Rightarrow> (0, 0) | Some p \<Rightarrow> p)
      in case mode of
           ModeHeavy \<Rightarrow> c(sg \<mapsto> (h + 1, l + 1))
         | ModeLight \<Rightarrow> c(sg \<mapsto> (h, l + 1))
         | ModeNone \<Rightarrow> c)"

text \<open>Which refresh a group gets: a pending request decides, else the two intervals.\<close>

definition choose_mode ::
  "sgw_settings \<Rightarrow> request_mode option \<Rightarrow> cache_metadata \<Rightarrow> int \<Rightarrow> real \<Rightarrow> refresh_mode" where
  "choose_mode cfg req md jitter now =
     (case req of
        Some RequestHeavy \<Rightarrow> ModeHeavy
      | Some RequestLight \<Rightarrow> ModeLight
      | _ \<Rightarrow>
          if refresh_due (md_heavy md) (sg_poll_heavy cfg) jitter now then ModeHeavy
          else if refresh_due (md_light md) (sg_poll_light cfg) jitter now then ModeLight
          else ModeNone)"

text \<open>The body of the loop of \<open>refresh_once\<close>, in its order: ensure the entry, take the request,
  poll and store (or mark the error), then age the entry and set its state.\<close>

definition poll_and_store ::
  "pollers \<Rightarrow> refresh_mode \<Rightarrow> int \<Rightarrow> real \<Rightarrow> cache_entry \<Rightarrow> store \<Rightarrow> (bool \<times> string option) \<times> store" where
  "poll_and_store po mode sg now e s =
     (case mode of
        ModeHeavy \<Rightarrow>
          (case po_heavy po sg of
             Inr p \<Rightarrow> ((True, None), refresh_heavy sg now p s)
           | Inl x \<Rightarrow> (let msg = normalize_error x
                        in ((False, Some msg), snd (store_mark_error sg msg now s))))
      | ModeLight \<Rightarrow>
          (case po_light po sg (pl_modems (sn_payload (ce_snapshot e))) of
             Inr ups \<Rightarrow> ((True, None), refresh_light sg now (merge_light (pl_modems (sn_payload (ce_snapshot e))) ups) s)
           | Inl x \<Rightarrow> (let msg = normalize_error x
                        in ((False, Some msg), snd (store_mark_error sg msg now s))))
      | ModeNone \<Rightarrow> ((False, None), s))"

definition age_entry :: "sgw_settings \<Rightarrow> real \<Rightarrow> cache_entry \<Rightarrow> bool \<times> cache_entry" where
  "age_entry cfg now e =
     (let md = entry_metadata e;
          age = max 0 (now - md_snapshot md);
          stale = (md_state md \<noteq> StateError \<and> compute_staleness age (sg_max_age cfg));
          st = (if md_state md = StateError then StateError else if stale then StateStale else StateOk)
      in (stale, with_metadata (md\<lparr>md_age := age, md_state := st\<rparr>) e))"

definition refresh_sg ::
  "sgw_settings \<Rightarrow> pollers \<Rightarrow> real \<Rightarrow> int \<Rightarrow> sgw_manager \<Rightarrow> refresh_outcome \<times> sgw_manager" where
  "refresh_sg cfg po now sg m =
     (let (e, s1) = ensure_entry sg now (sm_store m);
          (jit, js) = resolve_jitter cfg (po_jitter po) sg (sm_jitter m);
          req = sm_requests m sg;
          mode = choose_mode cfg req (entry_metadata e) jit now;
          ((applied, err), s2) = poll_and_store po mode sg now e s1;
          e2 = (case s2 sg of None \<Rightarrow> e | Some x \<Rightarrow> x);
          (stale, e3) = age_entry cfg now e2;
          counted = (mode \<noteq> ModeNone \<and> (applied \<or> (err \<noteq> None \<and> err \<noteq> Some '''')))
      in (\<lparr>oc_sg = sg, oc_mode = mode, oc_applied = applied, oc_error = err, oc_stale = stale\<rparr>,
          m\<lparr>sm_store := store_upsert e3 s2, sm_jitter := js, sm_requests := (sm_requests m)(sg := None),
            sm_counts := (if counted then incr_counts sg mode (sm_counts m) else sm_counts m)\<rparr>))"

fun refresh_groups ::
  "sgw_settings \<Rightarrow> pollers \<Rightarrow> real \<Rightarrow> int list \<Rightarrow> sgw_manager \<Rightarrow> refresh_outcome list \<times> sgw_manager" where
  "refresh_groups cfg po now [] m = ([], m)"
| "refresh_groups cfg po now (sg # sgs) m =
     (let (o1, m1) = refresh_sg cfg po now sg m; (os, m2) = refresh_groups cfg po now sgs m1 in (o1 # os, m2))"

definition collect_result :: "real \<Rightarrow> refresh_outcome list \<Rightarrow> refresh_result" where
  "collect_result now os =
     \<lparr>rs_time = now,
      rs_heavy = map oc_sg (filter (\<lambda>o1. oc_mode o1 = ModeHeavy \<and> oc_applied o1) os),
      rs_light = map oc_sg (filter oc_applied os),
      rs_stale = map oc_sg (filter oc_stale os),
      rs_errors = map (\<lambda>o1. (oc_sg o1, normalize_error (the (oc_error o1)))) (filter (\<lambda>o1. oc_error o1 \<noteq> None) os),
      rs_metric_errors = int (length (filter (\<lambda>o1. oc_error o1 \<noteq> None \<and> oc_error o1 \<noteq> Some '''') os))\<rparr>"

definition refresh_once ::
  "sgw_settings \<Rightarrow> pollers \<Rightarrow> real \<Rightarrow> sgw_manager \<Rightarrow> refresh_result result \<times> sgw_manager" where
  "refresh_once cfg po now m =
     (if now < 0 then (Inl (ValueError ''now_epoch must be non-negative.''), m)
      else if \<not> sg_enabled cfg then (Inr (collect_result now []), m)
      else (let (os, m') = refresh_groups cfg po now (sm_groups m) m in (Inr (collect_result now os), m')))"

section \<open>The refresh loop\<close>

text \<open>\<open>refresh_forever\<close>: \<open>po k\<close> and \<open>clock k\<close> are the inputs of cycle \<open>k\<close>, \<open>stop k\<close> what the
  stop flag says after it, \<open>after\<close> the callback.  Fuel as in the orchestrator's loop.\<close>

fun refresh_loop ::
  "nat \<Rightarrow> sgw_settings \<Rightarrow> (nat \<Rightarrow> pollers) \<Rightarrow> (nat \<Rightarrow> real) \<Rightarrow> (nat \<Rightarrow> bool) \<Rightarrow>
   (refresh_result \<Rightarrow> nat \<Rightarrow> bool) \<Rightarrow> int option \<Rightarrow> nat \<Rightarrow> refresh_result list \<Rightarrow> sgw_manager \<Rightarrow>
   (refresh_result list result \<times> nat \<times> sgw_manager) option" where
  "refresh_loop 0 cfg po clock stop after max_cycles k results m = None"
| "refresh_loop (Suc fuel) cfg po clock stop after max_cycles k results m =
     (case refresh_once cfg (po k) (clock k) m of
        (Inl x, m') \<Rightarrow> Some (Inl x, k, m')
      | (Inr r, m') \<Rightarrow>
          (let results' = (if max_cycles \<noteq> None then results @ [r] else results)
           in if after r k then Some (Inr results', Suc k, m')
              else if (case max_cycles of None \<Rightarrow> False | Some n \<Rightarrow> n \<le> int (Suc k)) then Some (Inr results', Suc k, m')
              else if stop k then Some (Inr results', Suc k, m')
              else refresh_loop fuel cfg po clock stop after max_cycles (Suc k) results' m'))"

definition refresh_forever ::
  "nat \<Rightarrow> sgw_settings \<Rightarrow> (nat \<Rightarrow> pollers) \<Rightarrow> (nat \<Rightarrow> real) \<Rightarrow> (nat \<Rightarrow> bool) \<Rightarrow>
   (refresh_result \<Rightarrow> nat \<Rightarrow> bool) \<Rightarrow> int option \<Rightarrow> sgw_manager \<Rightarrow>
   (refresh_result list result \<times> nat \<times> sgw_manager) option" where
  "refresh_forever fuel cfg po clock stop after max_cycles m =
     (if (case max_cycles of None \<Rightarrow> False | Some n \<Rightarrow> n < 0)
      then Some (Inl (ValueError ''max_cycles must be non-negative.''), 0, m)
      else if sm_stop m then Some (Inr [], 0, m)
      else refresh_loop fuel cfg po clock stop after max_cycles 0 [] m)"

section \<open>Lemmas\<close>

lemma ensure_entry_cases:
  assumes "ensure_entry sg now s = (e, s')" and "store_ok s"
  shows "s' = s(sg \<mapsto> e) \<and> entry_ok sg e \<and> store_ok s' \<and> (s sg = None \<longrightarrow> md_snapshot (entry_metadata e) = now)"
proof (cases "s sg")
  case None
  let ?n = "new_entry sg (default_metadata\<lparr>md_snapshot := now, md_age := 0\<rparr>)"
  have "e = ?n" "s' = s(sg \<mapsto> ?n)"
    using assms(1) None by (auto simp: ensure_entry_def store_upsert_def Let_def)
  with assms(2) show ?thesis by (auto simp: store_ok_def entry_ok_def default_metadata_def)
next
  case (Some x)
  with assms have "e = x" "s' = s" by (auto simp: ensure_entry_def)
  with Some assms(2) show ?thesis by (auto simp: store_ok_def)
qed

text \<open>What an outcome says about the entry it leaves.\<close>

definition outcome_ok :: "sgw_settings \<Rightarrow> real \<Rightarrow> refresh_outcome \<Rightarrow> cache_entry \<Rightarrow> bool" where
  "outcome_ok cfg now o1 e \<longleftrightarrow> entry_ok (oc_sg o1) e \<and>
     md_age (entry_metadata e) = max 0 (now - md_snapshot (entry_metadata e)) \<and>
     oc_stale o1 = (md_state (entry_metadata e) = StateStale) \<and>
     (md_state (entry_metadata e) = StateStale) =
       (md_state (entry_metadata e) \<noteq> StateError \<and> compute_staleness (md_age (entry_metadata e)) (sg_max_age cfg)) \<and>
     (oc_applied o1 \<longrightarrow> oc_error o1 = None \<and> oc_mode o1 \<noteq> ModeNone \<and> md_snapshot (entry_metadata e) = now \<and>
        md_light (entry_metadata e) = Some now \<and> md_error (entry_metadata e) = None \<and>
        md_state (entry_metadata e) \<noteq> StateError) \<and>
     (oc_applied o1 \<and> oc_mode o1 = ModeHeavy \<longrightarrow> md_heavy (entry_metadata e) = Some now) \<and>
     (\<forall>msg. oc_error o1 = Some msg \<longrightarrow> md_snapshot (entry_metadata e) = now \<and>
        md_error (entry_metadata e) = Some (normalize_error msg) \<and> md_state (entry_metadata e) = StateError)"

text \<open>The entry after polling, before it is aged.\<close>

lemma poll_and_store_spec:
  assumes "poll_and_store po mode sg now e s = ((applied, err), s')" and "s sg = Some e" and "store_ok s"
  shows "\<exists>e'. s' = s(sg \<mapsto> e') \<and> entry_ok sg e' \<and> (mode = ModeNone \<longrightarrow> \<not> applied \<and> err = None) \<and>
    (applied \<longrightarrow> err = None \<and> md_snapshot (entry_metadata e') = now \<and> md_light (entry_metadata e') = Some now \<and>
       md_error (entry_metadata e') = None \<and> md_state (entry_metadata e') = StateOk) \<and>
    (applied \<and> mode = ModeHeavy \<longrightarrow> md_heavy (entry_metadata e') = Some now \<and>
       Inr (sn_payload (ce_snapshot e')) = po_heavy po sg) \<and>
    (\<forall>msg. err = Some msg \<longrightarrow> md_snapshot (entry_metadata e') = now \<and> md_error (entry_metadata e') = Some (normalize_error msg) \<and>
       md_state (entry_metadata e') = StateError)"
proof -
  have ok: "entry_ok sg e" using assms(2,3) by (simp add: store_ok_def)
  have ens: "ensure_entry sg now s = (e, s)" using assms(2) by (simp add: ensure_entry_def)
  have up: "store_upsert x s = s(sg \<mapsto> x)" if "ce_sg x = sg" for x
    using that by (simp add: store_upsert_def)
  have err: ?thesis if "s' = snd (store_mark_error sg msg now s)" "\<not> applied" "err = Some msg" "mode \<noteq> ModeNone" for msg
  proof -
    let ?e = "with_metadata (fst (store_mark_error sg msg now s)) e"
    have "s' = s(sg \<mapsto> ?e)" "entry_ok sg ?e" "entry_metadata ?e = fst (store_mark_error sg msg now s)"
      using that(1) assms(2) ok by (auto simp: store_mark_error_def entry_ok_def Let_def)
    with that assms(2) show ?thesis by (intro exI [of _ ?e]) (auto simp: store_mark_error_def Let_def)
  qed
  show ?thesis
  proof (cases mode)
    case ModeNone
    with assms(1,2) ok show ?thesis by (intro exI [of _ e]) (auto simp: poll_and_store_def)
  next
    case ModeHeavy
    show ?thesis
    proof (cases "po_heavy po sg")
      case (Inl x)
      with assms(1) ModeHeavy show ?thesis by (intro err) (auto simp: poll_and_store_def Let_def)
    next
      case (Inr p)
      let ?md = "(entry_metadata e)\<lparr>md_snapshot := now, md_age := 0, md_heavy := Some now, md_light := Some now,
                 md_state := StateOk, md_error := None\<rparr>"
      let ?e = "e\<lparr>ce_snapshot := (ce_snapshot e)\<lparr>sn_payload := p, sn_metadata := ?md\<rparr>\<rparr>"
      have "s' = s(sg \<mapsto> ?e)" "applied" "err = None"
        using assms(1) ModeHeavy Inr ok
        by (auto simp: poll_and_store_def refresh_heavy_def ens store_upsert_def entry_ok_def Let_def)
      with Inr ok ModeHeavy show ?thesis by (intro exI [of _ ?e]) (auto simp: entry_ok_def entry_metadata_def)
    qed
  next
    case ModeLight
    let ?old = "pl_modems (sn_payload (ce_snapshot e))"
    show ?thesis
    proof (cases "po_light po sg ?old")
      case (Inl x)
      with assms(1) ModeLight show ?thesis by (intro err) (auto simp: poll_and_store_def Let_def)
    next
      case (Inr ups)
      let ?md = "(entry_metadata e)\<lparr>md_snapshot := now, md_age := 0, md_light := Some now,
                 md_state := StateOk, md_error := None\<rparr>"
      let ?e = "e\<lparr>ce_snapshot := (ce_snapshot e)\<lparr>sn_payload := (sn_payload (ce_snapshot e))\<lparr>pl_modems := merge_light ?old ups\<rparr>,
                 sn_metadata := ?md\<rparr>\<rparr>"
      have "s' = s(sg \<mapsto> ?e)" "applied" "err = None"
        using assms(1) ModeLight Inr ok
        by (auto simp: poll_and_store_def refresh_light_def ens store_upsert_def entry_ok_def Let_def)
      with ok ModeLight show ?thesis by (intro exI [of _ ?e]) (auto simp: entry_ok_def entry_metadata_def)
    qed
  qed
qed

lemma age_entry_spec:
  assumes "age_entry cfg now e = (stale, e')"
  shows "md_age (entry_metadata e') = max 0 (now - md_snapshot (entry_metadata e'))"
    and "md_snapshot (entry_metadata e') = md_snapshot (entry_metadata e)"
    and "md_light (entry_metadata e') = md_light (entry_metadata e)"
    and "md_heavy (entry_metadata e') = md_heavy (entry_metadata e)"
    and "md_error (entry_metadata e') = md_error (entry_metadata e)"
    and "md_state (entry_metadata e') = StateError \<longleftrightarrow> md_state (entry_metadata e) = StateError"
    and "md_state (entry_metadata e') = StateStale \<longleftrightarrow> stale"
    and "stale \<longleftrightarrow> md_state (entry_metadata e') \<noteq> StateError \<and> compute_staleness (md_age (entry_metadata e')) (sg_max_age cfg)"
    and "sn_payload (ce_snapshot e') = sn_payload (ce_snapshot e)" and "entry_ok sg e \<Longrightarrow> entry_ok sg e'"
proof -
  have s: "stale = (md_state (entry_metadata e) \<noteq> StateError \<and>
      compute_staleness (max 0 (now - md_snapshot (entry_metadata e))) (sg_max_age cfg))"
    using assms by (simp add: age_entry_def Let_def)
  have e: "e' = with_metadata ((entry_metadata e)\<lparr>md_age := max 0 (now - md_snapshot (entry_metadata e)),
      md_state := (if md_state (entry_metadata e) = StateError then StateError else if stale then StateStale else StateOk)\<rparr>) e"
    using assms unfolding age_entry_def Let_def s by simp
  show "md_state (entry_metadata e') = StateStale \<longleftrightarrow> stale" using s by (simp add: e)
  show "stale \<longleftrightarrow> md_state (entry_metadata e') \<noteq> StateError \<and> compute_staleness (md_age (entry_metadata e')) (sg_max_age cfg)"
    using s by (simp add: e)
  show "md_state (entry_metadata e') = StateError \<longleftrightarrow> md_state (entry_metadata e) = StateError" by (simp add: e)
  show "entry_ok sg e \<Longrightarrow> entry_ok sg e'" by (simp add: e entry_ok_def)
  show "md_age (entry_metadata e') = max 0 (now - md_snapshot (entry_metadata e'))"
    "md_snapshot (entry_metadata e') = md_snapshot (entry_metadata e)"
    "md_light (entry_metadata e') = md_light (entry_metadata e)"
    "md_heavy (entry_metadata e') = md_heavy (entry_metadata e)"
    "md_error (entry_metadata e') = md_error (entry_metadata e)"
    "sn_payload (ce_snapshot e') = sn_payload (ce_snapshot e)"
    by (simp_all add: e)
qed

lemma refresh_sg_spec:
  assumes "refresh_sg cfg po now sg m = (o1, m')" and "store_ok (sm_store m)"
  shows "\<exists>e. sm_store m' = (sm_store m)(sg \<mapsto> e) \<and> outcome_ok cfg now o1 e \<and> oc_sg o1 = sg \<and>
    sm_groups m' = sm_groups m \<and> sm_requests m' = (sm_requests m)(sg := None) \<and>
    (sm_requests m sg = Some RequestHeavy \<longrightarrow> oc_mode o1 = ModeHeavy) \<and>
    (oc_mode o1 = ModeHeavy \<longrightarrow> (\<forall>p. po_heavy po sg = Inr p \<longrightarrow> oc_applied o1 \<and> sn_payload (ce_snapshot e) = p))"
proof -
  obtain e s1 where en: "ensure_entry sg now (sm_store m) = (e, s1)" by fastforce
  obtain jit js where j: "resolve_jitter cfg (po_jitter po) sg (sm_jitter m) = (jit, js)" by fastforce
  define mode where "mode = choose_mode cfg (sm_requests m sg) (entry_metadata e) jit now"
  obtain applied err s2 where p: "poll_and_store po mode sg now e s1 = ((applied, err), s2)"
    by (metis prod.exhaust)
  from ensure_entry_cases [OF en assms(2)] have s1: "s1 = (sm_store m)(sg \<mapsto> e)" "store_ok s1" by auto
  then have "s1 sg = Some e" by simp
  from poll_and_store_spec [OF p this s1(2)] obtain e' where e': "s2 = s1(sg \<mapsto> e')" "entry_ok sg e'"
    "mode = ModeNone \<longrightarrow> \<not> applied \<and> err = None"
    "applied \<longrightarrow> err = None \<and> md_snapshot (entry_metadata e') = now \<and> md_light (entry_metadata e') = Some now \<and>
       md_error (entry_metadata e') = None \<and> md_state (entry_metadata e') = StateOk"
    "applied \<and> mode = ModeHeavy \<longrightarrow> md_heavy (entry_metadata e') = Some now \<and>
       Inr (sn_payload (ce_snapshot e')) = po_heavy po sg"
    "\<forall>msg. err = Some msg \<longrightarrow> md_snapshot (entry_metadata e') = now \<and>
       md_error (entry_metadata e') = Some (normalize_error msg) \<and> md_state (entry_metadata e') = StateError"
    by (elim exE conjE) (rule that)
  obtain stale e3 where a: "age_entry cfg now e' = (stale, e3)" by fastforce
  note age = age_entry_spec [OF a]
  have e3: "entry_ok sg e3" "ce_sg e3 = sg" "sn_payload (ce_snapshot e3) = sn_payload (ce_snapshot e')"
    using age(9,10) e'(2) by (auto simp: entry_ok_def)
  have "refresh_sg cfg po now sg m = (\<lparr>oc_sg = sg, oc_mode = mode, oc_applied = applied, oc_error = err, oc_stale = stale\<rparr>,
     m\<lparr>sm_store := store_upsert e3 s2, sm_jitter := js, sm_requests := (sm_requests m)(sg := None),
       sm_counts := (if mode \<noteq> ModeNone \<and> (applied \<or> (err \<noteq> None \<and> err \<noteq> Some [])) then incr_counts sg mode (sm_counts m) else sm_counts m)\<rparr>)"
    unfolding refresh_sg_def by (cases err) (simp_all add: en j p [unfolded mode_def] mode_def e'(1) a Let_def)
  with assms(1) have o1: "o1 = \<lparr>oc_sg = sg, oc_mode = mode, oc_applied = applied, oc_error = err, oc_stale = stale\<rparr>"
    and m': "sm_store m' = store_upsert e3 s2" "sm_groups m' = sm_groups m"
      "sm_requests m' = (sm_requests m)(sg := None)"
    by (auto simp del: fun_upd_apply)
  have "sm_store m' = (sm_store m)(sg \<mapsto> e3)"
    using m'(1) e3(2) e'(1) s1(1) by (simp add: store_upsert_def fun_eq_iff)
  moreover have "applied \<Longrightarrow> mode \<noteq> ModeNone" using e'(3) by auto
  moreover from this have "outcome_ok cfg now o1 e3"
    unfolding outcome_ok_def o1 refresh_outcome.simps
    using e'(4-6) e3(1) age(1-8) \<open>applied \<Longrightarrow> mode \<noteq> ModeNone\<close> by simp
  moreover have "oc_applied o1" if "oc_mode o1 = ModeHeavy" "po_heavy po sg = Inr q" for q
    using p that by (auto simp: o1 poll_and_store_def)
  moreover have "sm_requests m sg = Some RequestHeavy \<longrightarrow> oc_mode o1 = ModeHeavy"
    by (simp add: o1 mode_def choose_mode_def)
  ultimately show ?thesis using m'(2,3) e'(5) e3(3) by (intro exI [of _ e3]) (auto simp: o1)
qed

lemma refresh_groups_keeps:
  "refresh_groups cfg po now sgs m = (os, m') \<Longrightarrow> sm_groups m' = sm_groups m"
proof (induction sgs arbitrary: m os)
  case Nil
  then show ?case by simp
next
  case (Cons sg sgs)
  have "sm_groups (snd (refresh_sg cfg po now sg m)) = sm_groups m"
    by (simp add: refresh_sg_def Let_def split: prod.splits)
  with Cons show ?case by (auto split: prod.splits)
qed

lemma refresh_groups_spec:
  assumes "refresh_groups cfg po now sgs m = (os, m')" and "store_ok (sm_store m)" and "distinct sgs"
  shows "map oc_sg os = sgs \<and> store_ok (sm_store m') \<and>
    (\<forall>o1 \<in> set os. \<exists>e. sm_store m' (oc_sg o1) = Some e \<and> outcome_ok cfg now o1 e \<and>
       (sm_requests m (oc_sg o1) = Some RequestHeavy \<longrightarrow> oc_mode o1 = ModeHeavy) \<and>
       (oc_mode o1 = ModeHeavy \<longrightarrow> (\<forall>p. po_heavy po (oc_sg o1) = Inr p \<longrightarrow> oc_applied o1 \<and> sn_payload (ce_snapshot e) = p))) \<and>
    (\<forall>sg. sg \<notin> set sgs \<longrightarrow> sm_store m' sg = sm_store m sg) \<and>
    (\<forall>sg. sm_requests m' sg = (if sg \<in> set sgs then None else sm_requests m sg)) \<and> sm_groups m' = sm_groups m"
  using assms
proof (induction sgs arbitrary: m os)
  case Nil
  then show ?case by simp
next
  case (Cons sg sgs)
  obtain o1 m1 where r1: "refresh_sg cfg po now sg m = (o1, m1)" by fastforce
  obtain os2 where r2: "refresh_groups cfg po now sgs m1 = (os2, m')" and os: "os = o1 # os2"
    using Cons.prems(1) r1 by (auto split: prod.splits)
  obtain e where e: "sm_store m1 = (sm_store m)(sg \<mapsto> e)" "outcome_ok cfg now o1 e" "oc_sg o1 = sg"
    "sm_groups m1 = sm_groups m" "sm_requests m1 = (sm_requests m)(sg := None)"
    "sm_requests m sg = Some RequestHeavy \<longrightarrow> oc_mode o1 = ModeHeavy"
    "oc_mode o1 = ModeHeavy \<longrightarrow> (\<forall>p. po_heavy po sg = Inr p \<longrightarrow> oc_applied o1 \<and> sn_payload (ce_snapshot e) = p)"
    using refresh_sg_spec [OF r1 Cons.prems(2)] by blast
  have ok1: "store_ok (sm_store m1)"
    using Cons.prems(2) e(1,2,3) by (auto simp: store_ok_def outcome_ok_def)
  have d: "sg \<notin> set sgs" "distinct sgs" using Cons.prems(3) by auto
  note ih = Cons.IH [OF r2 ok1 d(2)]
  have neq: "oc_sg o2 \<noteq> sg" if "o2 \<in> set os2" for o2
    using ih d(1) that by (metis image_eqI list.set_map)
  have "sm_store m' sg = Some e" using ih d(1) e(1) by auto
  moreover have "\<exists>f. sm_store m' (oc_sg o2) = Some f \<and> outcome_ok cfg now o2 f \<and>
       (sm_requests m (oc_sg o2) = Some RequestHeavy \<longrightarrow> oc_mode o2 = ModeHeavy) \<and>
       (oc_mode o2 = ModeHeavy \<longrightarrow> (\<forall>p. po_heavy po (oc_sg o2) = Inr p \<longrightarrow> oc_applied o2 \<and> sn_payload (ce_snapshot f) = p))"
    if "o2 \<in> set os2" for o2
    using ih that neq [OF that] e(5) by (metis fun_upd_other)
  ultimately show ?case using ih e os d by auto
qed

lemma collect_membership:
  assumes "distinct (map oc_sg os)" and "o1 \<in> set os"
  shows "oc_sg o1 \<in> set (rs_light (collect_result now os)) \<longleftrightarrow> oc_applied o1"
    and "oc_sg o1 \<in> set (rs_heavy (collect_result now os)) \<longleftrightarrow> oc_applied o1 \<and> oc_mode o1 = ModeHeavy"
    and "oc_sg o1 \<in> set (rs_stale (collect_result now os)) \<longleftrightarrow> oc_stale o1"
    and "oc_sg o1 \<in> fst ` set (rs_errors (collect_result now os)) \<longleftrightarrow> oc_error o1 \<noteq> None"
proof -
  have same: "o2 = o1" if "o2 \<in> set os" "oc_sg o2 = oc_sg o1" for o2
    using assms that unfolding distinct_map inj_on_def by blast
  have in_map: "oc_sg o1 \<in> oc_sg ` {o2 \<in> set os. P o2} \<longleftrightarrow> P o1" for P
  proof
    assume "oc_sg o1 \<in> oc_sg ` {o2 \<in> set os. P o2}"
    then obtain o2 where o2: "o2 \<in> set os" "P o2" "oc_sg o2 = oc_sg o1" by fastforce
    from same [OF o2(1,3)] o2(2) show "P o1" by simp
  next
    assume "P o1"
    with assms(2) show "oc_sg o1 \<in> oc_sg ` {o2 \<in> set os. P o2}" by (intro imageI) simp
  qed
  show "oc_sg o1 \<in> set (rs_light (collect_result now os)) \<longleftrightarrow> oc_applied o1"
    using in_map [of oc_applied] by (simp add: collect_result_def)
  show "oc_sg o1 \<in> set (rs_heavy (collect_result now os)) \<longleftrightarrow> oc_applied o1 \<and> oc_mode o1 = ModeHeavy"
    using in_map [of "\<lambda>o2. oc_mode o2 = ModeHeavy \<and> oc_applied o2"] by (auto simp: collect_result_def)
  show "oc_sg o1 \<in> set (rs_stale (collect_result now os)) \<longleftrightarrow> oc_stale o1"
    using in_map [of oc_stale] by (simp add: collect_result_def)
  show "oc_sg o1 \<in> fst ` set (rs_errors (collect_result now os)) \<longleftrightarrow> oc_error o1 \<noteq> None"
    using in_map [of "\<lambda>o2. oc_error o2 \<noteq> None"] by (simp add: collect_result_def image_image)
qed

lemma outcome_okD:
  assumes "outcome_ok cfg now o1 e"
  shows "md_age (entry_metadata e) = max 0 (now - md_snapshot (entry_metadata e))"
    and "oc_stale o1 = (md_state (entry_metadata e) = StateStale)"
    and "(md_state (entry_metadata e) = StateStale) =
       (md_state (entry_metadata e) \<noteq> StateError \<and> real_of_int (sg_max_age cfg) \<le> md_age (entry_metadata e))"
    and "oc_applied o1 \<Longrightarrow> oc_error o1 = None \<and> md_snapshot (entry_metadata e) = now \<and>
       md_light (entry_metadata e) = Some now \<and> md_error (entry_metadata e) = None"
    and "oc_applied o1 \<Longrightarrow> oc_mode o1 = ModeHeavy \<Longrightarrow> md_heavy (entry_metadata e) = Some now"
    and "oc_error o1 = Some msg \<Longrightarrow> md_snapshot (entry_metadata e) = now \<and> md_state (entry_metadata e) = StateError"
proof -
  note a = assms [unfolded outcome_ok_def compute_staleness_def]
  show "md_age (entry_metadata e) = max 0 (now - md_snapshot (entry_metadata e))" using a by (elim conjE)
  show "oc_stale o1 = (md_state (entry_metadata e) = StateStale)" using a by (elim conjE)
  show "(md_state (entry_metadata e) = StateStale) =
       (md_state (entry_metadata e) \<noteq> StateError \<and> real_of_int (sg_max_age cfg) \<le> md_age (entry_metadata e))"
    using a by (elim conjE)
  show "oc_applied o1 \<Longrightarrow> oc_error o1 = None \<and> md_snapshot (entry_metadata e) = now \<and>
       md_light (entry_metadata e) = Some now \<and> md_error (entry_metadata e) = None"
    "oc_applied o1 \<Longrightarrow> oc_mode o1 = ModeHeavy \<Longrightarrow> md_heavy (entry_metadata e) = Some now"
    "oc_error o1 = Some msg \<Longrightarrow> md_snapshot (entry_metadata e) = now \<and> md_state (entry_metadata e) = StateError"
    using a by blast+
qed

lemma outcome_of_group:
  assumes "map oc_sg os = sgs" and "sg \<in> set sgs"
  shows "\<exists>o1. o1 \<in> set os \<and> oc_sg o1 = sg"
proof -
  from assms(2) have "sg \<in> set (map oc_sg os)" unfolding assms(1) .
  then show ?thesis by auto
qed

lemma refresh_once_outcomes:
  assumes "refresh_once cfg po now m = (Inr r, m')" and "store_ok (sm_store m)" and "distinct (sm_groups m)"
    and "sg_enabled cfg"
  obtains os where "r = collect_result now os" "refresh_groups cfg po now (sm_groups m) m = (os, m')"
    "distinct (map oc_sg os)" "map oc_sg os = sm_groups m"
proof -
  obtain os where os: "refresh_groups cfg po now (sm_groups m) m = (os, m')" "r = collect_result now os"
    using assms(1,4) by (auto simp: refresh_once_def split: if_splits prod.splits)
  from refresh_groups_spec [OF os(1) assms(2,3)] assms(3) os show ?thesis by (intro that [of os]) auto
qed

lemma resolve_jitter_bounds:
  assumes "0 \<le> sg_jitter cfg" and "\<forall>g v. j g = Some v \<longrightarrow> 0 \<le> v \<and> v \<le> sg_jitter cfg"
  shows "\<forall>g v. snd (resolve_jitter cfg src sg j) g = Some v \<longrightarrow> 0 \<le> v \<and> v \<le> sg_jitter cfg"
proof (cases "j sg")
  case None
  have "0 \<le> clamp_jitter v (sg_jitter cfg) \<and> clamp_jitter v (sg_jitter cfg) \<le> sg_jitter cfg" for v
    using assms(1) by (simp add: clamp_jitter_def)
  then have "0 \<le> fst (resolve_jitter cfg src sg j) \<and> fst (resolve_jitter cfg src sg j) \<le> sg_jitter cfg"
    using None assms(1) by (simp add: resolve_jitter_def Let_def)
  moreover have "snd (resolve_jitter cfg src sg j) = j(sg \<mapsto> fst (resolve_jitter cfg src sg j))"
    using None by (simp add: resolve_jitter_def Let_def)
  ultimately show ?thesis using assms(2) by (metis fun_upd_apply option.inject)
next
  case (Some v)
  with assms show ?thesis by (simp add: resolve_jitter_def)
qed

lemma dom_foldl_jitter:
  "dom (foldl (\<lambda>j g. snd (resolve_jitter cfg src g j)) j gs) = dom j \<union> set gs"
proof (induction gs arbitrary: j)
  case Nil
  then show ?case by simp
next
  case (Cons g gs)
  have "dom (snd (resolve_jitter cfg src g j)) = insert g (dom j)"
    by (cases "j g") (auto simp: resolve_jitter_def Let_def)
  with Cons.IH [of "snd (resolve_jitter cfg src g j)"] show ?case by simp
qed

section \<open>Properties\<close>

text \<open>C6: After a cycle the cache says of every managed group what the result reports: its age is the
  distance to its last snapshot; a group reported as refreshed (heavily: in both intervals) carries
  the cycle's time and no error; a group whose poll raised is in the error state with the cycle's
  time; a group is reported stale exactly when its entry is, and that is when it is not in error
  and at least the maximum age old.  Groups that are not managed keep their entries, and the
  store stays well-formed.\<close>

theorem refresh_once_reports:
  assumes "refresh_once cfg po now m = (Inr r, m')" and "store_ok (sm_store m)"
    and "distinct (sm_groups m)" and "sg_enabled cfg"
  shows "store_ok (sm_store m') \<and> (\<forall>sg. sg \<notin> set (sm_groups m) \<longrightarrow> sm_store m' sg = sm_store m sg) \<and>
    (\<forall>sg \<in> set (sm_groups m). \<exists>e. sm_store m' sg = Some e \<and>
       (let md = entry_metadata e in
          md_age md = max 0 (now - md_snapshot md) \<and>
          (sg \<in> set (rs_light r) \<longrightarrow> md_snapshot md = now \<and> md_light md = Some now \<and> md_error md = None) \<and>
          (sg \<in> set (rs_heavy r) \<longrightarrow> sg \<in> set (rs_light r) \<and> md_heavy md = Some now) \<and>
          (sg \<in> fst ` set (rs_errors r) \<longrightarrow> sg \<notin> set (rs_light r) \<and> md_snapshot md = now \<and> md_state md = StateError) \<and>
          (sg \<in> set (rs_stale r)) = (md_state md = StateStale) \<and>
          (md_state md = StateStale) = (md_state md \<noteq> StateError \<and> real_of_int (sg_max_age cfg) \<le> md_age md)))"
proof -
  obtain os where os: "r = collect_result now os" "refresh_groups cfg po now (sm_groups m) m = (os, m')"
    "distinct (map oc_sg os)" "map oc_sg os = sm_groups m"
    by (rule refresh_once_outcomes [OF assms])
  note spec = refresh_groups_spec [OF os(2) assms(2,3)]
  have "\<exists>e. sm_store m' sg = Some e \<and>
       (let md = entry_metadata e in
          md_age md = max 0 (now - md_snapshot md) \<and>
          (sg \<in> set (rs_light r) \<longrightarrow> md_snapshot md = now \<and> md_light md = Some now \<and> md_error md = None) \<and>
          (sg \<in> set (rs_heavy r) \<longrightarrow> sg \<in> set (rs_light r) \<and> md_heavy md = Some now) \<and>
          (sg \<in> fst ` set (rs_errors r) \<longrightarrow> sg \<notin> set (rs_light r) \<and> md_snapshot md = now \<and> md_state md = StateError) \<and>
          (sg \<in> set (rs_stale r)) = (md_state md = StateStale) \<and>
          (md_state md = StateStale) = (md_state md \<noteq> StateError \<and> real_of_int (sg_max_age cfg) \<le> md_age md))"
    if "sg \<in> set (sm_groups m)" for sg
  proof -
    obtain o1 where o1: "o1 \<in> set os" "oc_sg o1 = sg"
      using outcome_of_group [OF os(4) \<open>sg \<in> set (sm_groups m)\<close>] by blast
    have "\<exists>e. sm_store m' (oc_sg o1) = Some e \<and> outcome_ok cfg now o1 e"
      using bspec [OF spec [THEN conjunct2, THEN conjunct2, THEN conjunct1] o1(1)] by (elim exE conjE) (intro exI conjI)
    then obtain e where e: "sm_store m' sg = Some e" "outcome_ok cfg now o1 e" unfolding o1(2) by (elim exE conjE)
    note mem = collect_membership [OF os(3) o1(1), of now, folded os(1), unfolded o1(2)]
    note ok = outcome_okD [OF e(2)]
    show ?thesis
      unfolding Let_def
    proof (intro exI [of _ e] conjI impI)
      show "sm_store m' sg = Some e" by (rule e(1))
      show "md_age (entry_metadata e) = max 0 (now - md_snapshot (entry_metadata e))" by (rule ok(1))
      show "(sg \<in> set (rs_stale r)) = (md_state (entry_metadata e) = StateStale)" using ok(2) mem(3) by simp
      show "(md_state (entry_metadata e) = StateStale) =
        (md_state (entry_metadata e) \<noteq> StateError \<and> real_of_int (sg_max_age cfg) \<le> md_age (entry_metadata e))"
        by (rule ok(3))
    next
      assume "sg \<in> set (rs_light r)"
      then have a: "oc_applied o1" using mem(1) by simp
      show "md_snapshot (entry_metadata e) = now" "md_light (entry_metadata e) = Some now"
        "md_error (entry_metadata e) = None" using ok(4) [OF a] by simp_all
    next
      assume "sg \<in> set (rs_heavy r)"
      then have a: "oc_applied o1" "oc_mode o1 = ModeHeavy" using mem(2) by simp_all
      show "sg \<in> set (rs_light r)" using a mem(1) by simp
      show "md_heavy (entry_metadata e) = Some now" by (rule ok(5) [OF a])
    next
      assume "sg \<in> fst ` set (rs_errors r)"
      then obtain msg where a: "oc_error o1 = Some msg" using mem(4) by auto
      show "sg \<notin> set (rs_light r)" using ok(4) a mem(1) by auto
      show "md_snapshot (entry_metadata e) = now" "md_state (entry_metadata e) = StateError"
        using ok(6) [OF a] by simp_all
    qed
  qed
  then show ?thesis
    using spec [THEN conjunct2, THEN conjunct1] spec [THEN conjunct2, THEN conjunct2, THEN conjunct2, THEN conjunct1]
    by (intro conjI ballI)
qed

definition demo_payload :: payload where
  "demo_payload = empty_payload\<lparr>pl_modems := [\<lparr>cm_mac = ''aa:bb:cc:dd:ee:ff'', cm_ipv4 = ''10.0.0.2'', cm_ipv6 = '''',
     cm_ds_set = 1, cm_us_set = 2, cm_status = 8, cm_sysdescr = ''''\<rparr>]\<rparr>"

definition demo_pollers :: pollers where
  "demo_pollers = \<lparr>po_heavy = (\<lambda>sg. if sg = 4 then Inl '''' else Inr demo_payload),
     po_light = (\<lambda>_ cms. Inr cms), po_jitter = (\<lambda>_ m. m)\<rparr>"

definition demo_cfg :: sgw_settings where
  "demo_cfg = st_sgw demo_settings"

definition demo_manager :: sgw_manager where
  "demo_manager = manager_init demo_cfg (\<lambda>_ m. m) 0 Map.empty [2, 4]"

lemma demo_manager_facts:
  "sm_groups demo_manager = [2, 4]" "store_ok (sm_store demo_manager)" "sg_enabled demo_cfg"
  "sm_requests demo_manager = Map.empty" "sm_store demo_manager = Map.empty"
  by (simp_all add: demo_manager_def manager_init_def set_service_groups_def initialize_worker_state_def
      store_ok_def demo_cfg_def demo_settings_def Let_def)

lemma demo_refresh:
  "\<exists>r m'. refresh_once demo_cfg demo_pollers 100 demo_manager = (Inr r, m')"
  by (simp add: refresh_once_def demo_manager_facts split: prod.splits)

lemma refresh_once_reports_witness:
  "\<exists>r m' e. refresh_once demo_cfg demo_pollers 100 demo_manager = (Inr r, m') \<and> sm_store m' 4 = Some e \<and>
     md_age (entry_metadata e) = max 0 (100 - md_snapshot (entry_metadata e))"
proof -
  obtain r m' where r: "refresh_once demo_cfg demo_pollers 100 demo_manager = (Inr r, m')"
    using demo_refresh by blast
  have "distinct (sm_groups demo_manager)" by (simp add: demo_manager_facts)
  from refresh_once_reports [OF r demo_manager_facts(2) this demo_manager_facts(3), THEN conjunct2, THEN conjunct2]
  have "\<exists>e. sm_store m' 4 = Some e \<and> md_age (entry_metadata e) = max 0 (100 - md_snapshot (entry_metadata e))"
    unfolding demo_manager_facts(1) Let_def by (elim ballE [of _ _ 4] exE conjE) (intro exI conjI, assumption+, simp)
  with r show ?thesis by blast
qed

text \<open>C13: An accepted heavy request is served by the next cycle: if the group's poll returns, the cycle
  stores exactly the polled payload, reports the group as heavily refreshed and the request is
  gone; a light request made in between does not weaken it.\<close>

theorem heavy_request_served:
  assumes "request_refresh cfg sg RequestHeavy t m = ((True, msg), m1)"
    and "request_refresh cfg sg RequestLight t' m1 = (answer, m2)"
    and "refresh_once cfg po now m2 = (Inr r, m')" and "store_ok (sm_store m)"
    and "distinct (sm_groups m)" and "sg_enabled cfg" and "po_heavy po sg = Inr p"
  shows "sg \<in> set (rs_heavy r) \<and> sm_requests m' sg = None \<and>
    (\<exists>e. sm_store m' sg = Some e \<and> sn_payload (ce_snapshot e) = p)"
proof -
  have m1: "sm_requests m1 sg = Some RequestHeavy" "sm_groups m1 = sm_groups m" "sm_store m1 = sm_store m"
    "sg \<in> set (sm_groups m)"
    using assms(1) by (auto simp: request_refresh_def split: if_splits)
  have "m2 = m1" using assms(2) m1 by (auto simp: request_refresh_def)
  with m1 assms have m2: "store_ok (sm_store m2)" "distinct (sm_groups m2)" "sg \<in> set (sm_groups m2)"
    "sm_requests m2 sg = Some RequestHeavy" by auto
  obtain os where os: "r = collect_result now os" "refresh_groups cfg po now (sm_groups m2) m2 = (os, m')"
    "distinct (map oc_sg os)" "map oc_sg os = sm_groups m2"
    by (rule refresh_once_outcomes [OF assms(3) m2(1,2) assms(6)])
  note spec = refresh_groups_spec [OF os(2) m2(1,2)]
  obtain o1 where o1: "o1 \<in> set os" "oc_sg o1 = sg"
    using outcome_of_group [OF os(4) m2(3)] by blast
  then obtain e where e: "sm_store m' sg = Some e" "oc_mode o1 = ModeHeavy" "oc_applied o1" "sn_payload (ce_snapshot e) = p"
    using spec m2(4) assms(7) by blast
  have "sg \<in> set (rs_heavy r)"
    using collect_membership(2) [OF os(3) o1(1), of now] e o1(2) by (simp add: os(1))
  moreover have "sm_requests m' sg = None" using spec m2(3) by simp
  ultimately show ?thesis using e by auto
qed

lemma heavy_request_served_witness:
  "\<exists>m1 m2 r m'. request_refresh demo_cfg 2 RequestHeavy 50 demo_manager = ((True, ''''), m1) \<and>
     request_refresh demo_cfg 2 RequestLight 60 m1 = ((True, ''''), m2) \<and>
     refresh_once demo_cfg demo_pollers 100 m2 = (Inr r, m') \<and> 2 \<in> set (rs_heavy r)"
proof -
  let ?m1 = "demo_manager\<lparr>sm_requests := [2 \<mapsto> RequestHeavy]\<rparr>"
  have a: "request_refresh demo_cfg 2 RequestHeavy 50 demo_manager = ((True, ''''), ?m1)"
    by (simp add: request_refresh_def heavy_rate_limited_def demo_manager_facts)
  have b: "request_refresh demo_cfg 2 RequestLight 60 ?m1 = ((True, ''''), ?m1)"
    by (simp add: request_refresh_def demo_manager_facts)
  obtain r m' where c: "refresh_once demo_cfg demo_pollers 100 ?m1 = (Inr r, m')"
    by (cases "refresh_groups demo_cfg demo_pollers 100 [2, 4] ?m1") (auto simp: refresh_once_def demo_manager_facts)
  have "po_heavy demo_pollers 2 = Inr demo_payload" by (simp add: demo_pollers_def)
  from heavy_request_served [OF a b c _ _ _ this] demo_manager_facts a b c show ?thesis by auto
qed

text \<open>A light refresh updates modems and never changes the membership: the merged list has the same
  addresses in the same order, and each modem is the old one or an updated one with its address.\<close>

theorem merge_light_membership:
  "map cm_mac (merge_light existing updated) = map cm_mac existing \<and>
   set (merge_light existing updated) \<subseteq> set existing \<union> set updated"
proof -
  let ?pick = "\<lambda>m. case map_of (rev (map (\<lambda>u. (cm_mac u, u)) updated)) (cm_mac m) of None \<Rightarrow> m | Some u \<Rightarrow> u"
  have pick: "cm_mac (?pick m) = cm_mac m \<and> ?pick m \<in> insert m (set updated)" for m
  proof (cases "map_of (rev (map (\<lambda>u. (cm_mac u, u)) updated)) (cm_mac m)")
    case None
    then show ?thesis by simp
  next
    case (Some u)
    from map_of_SomeD [OF this] have "cm_mac u = cm_mac m" "u \<in> set updated" by auto
    with Some show ?thesis by simp
  qed
  show ?thesis
  proof (cases "updated = []")
    case True
    then show ?thesis by (simp add: merge_light_def)
  next
    case False
    then have m: "merge_light existing updated = map ?pick existing" by (simp add: merge_light_def)
    have "map cm_mac (map ?pick existing) = map cm_mac existing"
      unfolding map_map o_def using pick by (simp only: simp_thms)
    moreover have "set (map ?pick existing) \<subseteq> set existing \<union> set updated"
      using pick by (force simp only: set_map)
    ultimately show ?thesis unfolding m by (rule conjI)
  qed
qed

text \<open>The jitter that staggers the groups is bounded by the configured maximum, whatever the jitter
  source answers: after the groups are set every group has a jitter between zero and it.\<close>

theorem jitter_bounded:
  assumes "0 \<le> sg_jitter cfg" and "sg \<in> set sgs"
  shows "\<exists>j. sm_jitter (set_service_groups cfg src now sgs m) sg = Some j \<and> 0 \<le> j \<and> j \<le> sg_jitter cfg"
proof -
  let ?step = "\<lambda>j g. snd (resolve_jitter cfg src g j)"
  have inv: "\<forall>g v. foldl ?step j gs g = Some v \<longrightarrow> 0 \<le> v \<and> v \<le> sg_jitter cfg"
    if "\<forall>g v. j g = Some v \<longrightarrow> 0 \<le> v \<and> v \<le> sg_jitter cfg" for j gs
    using that
  proof (induction gs arbitrary: j)
    case Nil
    then show ?case by simp
  next
    case (Cons g gs)
    from Cons.IH [OF resolve_jitter_bounds [OF assms(1) Cons.prems]] show ?case by simp
  qed
  have "sg \<in> dom (initialize_jitter cfg src sgs)"
    using assms(2) by (simp add: initialize_jitter_def dom_foldl_jitter)
  moreover have "\<forall>g v. initialize_jitter cfg src sgs g = Some v \<longrightarrow> 0 \<le> v \<and> v \<le> sg_jitter cfg"
    unfolding initialize_jitter_def by (rule inv) simp
  ultimately show ?thesis
    by (auto simp: set_service_groups_def initialize_worker_state_def)
qed

lemma jitter_bounded_witness:
  "\<exists>j. sm_jitter (set_service_groups demo_cfg (\<lambda>_ _. 1000) 0 [2, 4] demo_manager) 4 = Some j \<and> j \<le> 30"
  using jitter_bounded [of demo_cfg 4 "[2, 4]" "\<lambda>_ _. 1000" 0 demo_manager]
  by (auto simp: demo_cfg_def demo_settings_def)

text \<open>A group that is polled for the first time and whose poll raises.\<close>

lemma refresh_sg_first_failure:
  assumes "sm_store m sg = None" and "sm_requests m sg = None" and "po_heavy po sg = Inl x"
  shows "fst (refresh_sg cfg po now sg m) = \<lparr>oc_sg = sg, oc_mode = ModeHeavy, oc_applied = False,
     oc_error = Some (normalize_error x), oc_stale = False\<rparr> \<and>
   (normalize_error x = '''' \<longrightarrow> sm_counts (snd (refresh_sg cfg po now sg m)) = sm_counts m)"
proof -
  let ?e = "new_entry sg (default_metadata\<lparr>md_snapshot := now, md_age := 0\<rparr>)"
  have en: "ensure_entry sg now (sm_store m) = (?e, (sm_store m)(sg \<mapsto> ?e))"
    using assms(1) by (simp add: ensure_entry_def store_upsert_def Let_def)
  have mode: "choose_mode cfg None (entry_metadata ?e) j now = ModeHeavy" for j
    by (simp add: choose_mode_def refresh_due_def default_metadata_def)
  let ?s = "(sm_store m)(sg \<mapsto> ?e)"
  have ps: "poll_and_store po ModeHeavy sg now ?e ?s = ((False, Some (normalize_error x)),
      snd (store_mark_error sg (normalize_error x) now ?s))"
    using assms(3) by (simp add: poll_and_store_def Let_def)
  obtain md s2 where mk: "store_mark_error sg (normalize_error x) now ?s = (md, s2)" by fastforce
  from store_mark_error_simps [OF mk] have s2: "s2 = ?s(sg \<mapsto> with_metadata md ?e)" "md_state md = StateError" by auto
  have ag: "fst (age_entry cfg now (with_metadata md ?e)) = False"
    using s2(2) by (simp add: age_entry_def Let_def)
  obtain jit js where j: "resolve_jitter cfg (po_jitter po) sg (sm_jitter m) = (jit, js)" by fastforce
  show ?thesis
    unfolding refresh_sg_def en j prod.case Let_def assms(2) mode ps mk snd_conv s2(1) fun_upd_same option.case
    using ag by (cases "age_entry cfg now (with_metadata md ?e)") simp
qed

text \<open>A failed poll whose exception has a blank text (\<open>TimeoutError()\<close>, say) is listed among the
  errors of the cycle, but neither the error metric nor the refresh counts of the group see it.\<close>

theorem blank_error_not_counted:
  "\<exists>r m'. refresh_once demo_cfg demo_pollers 100 (demo_manager\<lparr>sm_groups := [4]\<rparr>) = (Inr r, m') \<and>
     rs_errors r = [(4, '''')] \<and> rs_metric_errors r = 0 \<and> sm_counts m' = sm_counts demo_manager"
proof -
  let ?m = "demo_manager\<lparr>sm_groups := [4]\<rparr>"
  have e: "normalize_error '''' = ''''" by (simp add: normalize_error_def)
  have "po_heavy demo_pollers 4 = Inl ''''" by (simp add: demo_pollers_def)
  from refresh_sg_first_failure [of ?m 4, OF _ _ this, of demo_cfg 100] e
  have "fst (refresh_sg demo_cfg demo_pollers 100 4 ?m) = \<lparr>oc_sg = 4, oc_mode = ModeHeavy, oc_applied = False,
     oc_error = Some '''', oc_stale = False\<rparr>"
    "sm_counts (snd (refresh_sg demo_cfg demo_pollers 100 4 ?m)) = sm_counts demo_manager"
    by (simp_all add: demo_manager_facts)
  then show ?thesis
    by (cases "refresh_sg demo_cfg demo_pollers 100 4 ?m")
      (simp add: refresh_once_def demo_manager_facts collect_result_def e)
qed

end
