(* ===== verification/WorkerGuard.thy ===== *)
theory WorkerGuard
  imports Prelude
begin

text \<open>
  The restart governor \<open>support/worker_guard.py\<close> and the web service memory guard
  \<open>support/web_service_memory_guard.py\<close> that asks it.  The monotonic clock readings are
  arguments, and so are the lines of \<open>/proc/self/status\<close>.
\<close>

section \<open>The controller\<close>

record guard_ctl =
  gc_min :: int
  gc_max :: int
  gc_window :: int
  gc_times :: "real list"

record observation =
  ob_rss :: "int option"
  ob_errors :: int

record decision =
  de_restart :: bool
  de_reasons :: "string list"

definition guard_init :: "int \<Rightarrow> int \<Rightarrow> int \<Rightarrow> guard_ctl" where
  "guard_init min_interval max_restarts window =
     \<lparr>gc_min = max 0 min_interval, gc_max = max 1 max_restarts, gc_window = max 1 window, gc_times = []\<rparr>"

definition prune :: "real \<Rightarrow> guard_ctl \<Rightarrow> guard_ctl" where
  "prune now g = g\<lparr>gc_times := dropWhile (\<lambda>t. t < now - real_of_int (gc_window g)) (gc_times g)\<rparr>"

definition gate_reason :: "real \<Rightarrow> guard_ctl \<Rightarrow> string option \<times> guard_ctl" where
  "gate_reason now g0 =
     (let g = prune now g0
      in if gc_times g \<noteq> [] \<and> now - last (gc_times g) < real_of_int (gc_min g)
         then (Some (''restart suppressed by min_restart_interval_seconds='' @ int_str (gc_min g)), g)
         else if gc_max g \<le> int (length (gc_times g))
         then (Some (''restart suppressed by max_restarts_per_window='' @ int_str (gc_max g) @ '' over '' @
                     int_str (gc_window g) @ ''s''), g)
         else (None, g))"

definition rss_reason :: "observation \<Rightarrow> int option \<Rightarrow> string list" where
  "rss_reason ob threshold =
     (case (threshold, ob_rss ob) of
        (Some t, Some r) \<Rightarrow>
          if 0 < t \<and> t \<le> r
          then [''rss_bytes='' @ int_str r @ '' exceeded threshold_bytes='' @ int_str t] else []
      | _ \<Rightarrow> [])"

definition error_reason :: "observation \<Rightarrow> int option \<Rightarrow> string list" where
  "error_reason ob limit =
     (case limit of
        Some l \<Rightarrow>
          if 0 < l \<and> l \<le> ob_errors ob
          then [''consecutive_error_cycles='' @ int_str (ob_errors ob) @ '' exceeded limit='' @ int_str l] else []
      | None \<Rightarrow> [])"

definition guard_evaluate ::
  "observation \<Rightarrow> int option \<Rightarrow> int option \<Rightarrow> real \<Rightarrow> guard_ctl \<Rightarrow> decision \<times> guard_ctl" where
  "guard_evaluate ob threshold limit now g =
     (let reasons = rss_reason ob threshold @ error_reason ob limit
      in if reasons = [] then (\<lparr>de_restart = False, de_reasons = []\<rparr>, g)
         else (case gate_reason now g of
                 (Some r, g') \<Rightarrow> (\<lparr>de_restart = False, de_reasons = reasons @ [r]\<rparr>, g')
               | (None, g') \<Rightarrow> (\<lparr>de_restart = True, de_reasons = reasons\<rparr>, g')))"

definition record_restart :: "real \<Rightarrow> guard_ctl \<Rightarrow> guard_ctl" where
  "record_restart now g = (let g' = prune now g in g'\<lparr>gc_times := gc_times g' @ [now]\<rparr>)"

section \<open>Reading the resident set size\<close>

text \<open>\<open>None\<close> for a missing file; a second word that is not a number raises.\<close>

fun parse_rss :: "string list \<Rightarrow> int option result" where
  "parse_rss [] = Inr None"
| "parse_rss (line # rest) =
     (if \<not> py_startswith line ''VmRSS:'' then parse_rss rest
      else (case py_words line of
              _ # w # _ \<Rightarrow> (case py_int w of
                                None \<Rightarrow> Inl (ValueError ''invalid literal for int()'')
                              | Some k \<Rightarrow> Inr (Some (k * 1024)))
            | _ \<Rightarrow> Inr None))"

definition read_process_rss_bytes :: "string list option \<Rightarrow> int option result" where
  "read_process_rss_bytes status = (case status of None \<Rightarrow> Inr None | Some ls \<Rightarrow> parse_rss ls)"

section \<open>The web service memory guard\<close>

text \<open>The settings \<open>evaluate_once\<close> reads, and its state: the controller, once there is one.  The
  second component of the answer says whether a reload was requested.\<close>

record memory_guard_settings =
  mg_rss_mb :: int
  mg_min_interval :: int
  mg_max_per_hour :: int

definition memory_guard_controller :: "memory_guard_settings \<Rightarrow> guard_ctl" where
  "memory_guard_controller cfg = guard_init (mg_min_interval cfg) (mg_max_per_hour cfg) 3600"

definition evaluate_once ::
  "memory_guard_settings \<Rightarrow> string list option \<Rightarrow> real \<Rightarrow> real \<Rightarrow> guard_ctl option \<Rightarrow>
   bool result \<times> guard_ctl option" where
  "evaluate_once cfg status now after ctl =
     (let g = (case ctl of None \<Rightarrow> memory_guard_controller cfg | Some g \<Rightarrow> g)
      in if mg_rss_mb cfg \<le> 0 then (Inr False, Some g)
         else (case read_process_rss_bytes status of
                 Inl x \<Rightarrow> (Inl x, Some g)
               | Inr rss \<Rightarrow>
                   (let (d, g') = guard_evaluate \<lparr>ob_rss = rss, ob_errors = 0\<rparr> (Some (mg_rss_mb cfg * 1024 * 1024))
                                    (Some 0) now g
                    in if \<not> de_restart d then (Inr False, Some g')
                       else (Inr True, Some (record_restart after g')))))"

section \<open>The governor as an interface\<close>

text \<open>
  What the supervisors rely on: \<open>ask\<close> answers whether to restart at a time, \<open>note\<close> records a
  restart, and \<open>inv now h g\<close> relates the controller to the whole history \<open>h\<close> of restarts.
\<close>

locale restart_governor =
  fixes ask :: "'o \<Rightarrow> real \<Rightarrow> 'g \<Rightarrow> bool \<times> 'g"
    and record_at :: "real \<Rightarrow> 'g \<Rightarrow> 'g"
    and inv :: "real \<Rightarrow> real list \<Rightarrow> 'g \<Rightarrow> bool"
    and gap window :: real
    and cap :: nat
  assumes ask_inv: "inv now h g \<Longrightarrow> now \<le> t \<Longrightarrow> inv t h (snd (ask ob t g))"
    and ask_gap: "inv now h g \<Longrightarrow> now \<le> t \<Longrightarrow> fst (ask ob t g) \<Longrightarrow> h \<noteq> [] \<Longrightarrow> last h + gap \<le> t"
    and ask_cap: "inv now h g \<Longrightarrow> now \<le> t \<Longrightarrow> fst (ask ob t g) \<Longrightarrow>
      length (filter (\<lambda>x. t - window \<le> x) h) < cap"
    and record_inv: "inv now h g \<Longrightarrow> now \<le> t \<Longrightarrow> inv t (h @ [t]) (record_at t g)"
    and cap_pos: "0 < cap"
begin

text \<open>A supervisor: it asks at \<open>te\<close> and, when told to, restarts and records at \<open>tr\<close>.\<close>

fun session :: "('o \<times> real \<times> real) list \<Rightarrow> 'g \<Rightarrow> real list" where
  "session [] g = []"
| "session ((ob, te, tr) # evs) g =
     (if fst (ask ob te g) then tr # session evs (record_at tr (snd (ask ob te g)))
      else session evs (snd (ask ob te g)))"

text \<open>A history in which every restart keeps its distance and its budget.\<close>

definition limited :: "real list \<Rightarrow> bool" where
  "limited h \<longleftrightarrow> (\<forall>i. Suc i < length h \<longrightarrow> h ! i + gap \<le> h ! Suc i) \<and>
     (\<forall>x. length (filter (\<lambda>t. x \<le> t \<and> t \<le> x + window) h) \<le> cap)"

lemma limited_snoc:
  assumes "limited h" and "h \<noteq> [] \<Longrightarrow> last h + gap \<le> te" and "te \<le> tr"
    and "length (filter (\<lambda>x. te - window \<le> x) h) < cap"
  shows "limited (h @ [tr])"
proof -
  have "(h @ [tr]) ! i + gap \<le> (h @ [tr]) ! Suc i" if "Suc i < length (h @ [tr])" for i
  proof (cases "Suc i < length h")
    case True
    with assms(1) show ?thesis by (simp add: limited_def nth_append)
  next
    case False
    with that have i: "i = length h - 1" "h \<noteq> []" by auto
    then have "h \<noteq> []" "(h @ [tr]) ! i = last h" "(h @ [tr]) ! Suc i = tr"
      by (auto simp: nth_append last_conv_nth)
    with assms(2,3) show ?thesis by simp
  qed
  moreover have "length (filter (\<lambda>t. x \<le> t \<and> t \<le> x + window) (h @ [tr])) \<le> cap" for x
  proof (cases "x \<le> tr \<and> tr \<le> x + window")
    case False
    with assms(1) show ?thesis by (auto simp: limited_def)
  next
    case True
    have "length (filter (\<lambda>t. x \<le> t \<and> t \<le> x + window) h) \<le> length (filter (\<lambda>t. te - window \<le> t) h)"
    proof (induction h)
      case Nil
      then show ?case by simp
    next
      case (Cons a h)
      from True assms(3) have "x \<le> a \<Longrightarrow> te - window \<le> a" by linarith
      with Cons show ?case by auto
    qed
    with assms(4) True show ?thesis by simp
  qed
  ultimately show ?thesis by (simp add: limited_def)
qed

lemma session_limited:
  assumes "inv now h g" and "limited h" and "sorted (now # concat (map (\<lambda>(ob, te, tr). [te, tr]) evs))"
  shows "limited (h @ session evs g)"
  using assms
proof (induction evs arbitrary: now h g)
  case Nil
  then show ?case by simp
next
  case (Cons ev evs)
  obtain ob te tr where ev: "ev = (ob, te, tr)" by (cases ev)
  from Cons.prems(3) have t: "now \<le> te" "te \<le> tr" "sorted (tr # concat (map (\<lambda>(ob, te, tr). [te, tr]) evs))"
    "sorted (te # concat (map (\<lambda>(ob, te, tr). [te, tr]) evs))"
    by (auto simp: ev)
  let ?g = "snd (ask ob te g)"
  have g: "inv te h ?g" by (rule ask_inv [OF Cons.prems(1) t(1)])
  show ?case
  proof (cases "fst (ask ob te g)")
    case True
    have l: "limited (h @ [tr])"
      by (rule limited_snoc [OF Cons.prems(2) ask_gap [OF Cons.prems(1) t(1) True] t(2)
            ask_cap [OF Cons.prems(1) t(1) True]])
    from Cons.IH [OF record_inv [OF g t(2)] l t(3)] True show ?thesis by (simp add: ev)
  next
    case False
    from Cons.IH [OF g Cons.prems(2) t(4)] False show ?thesis by (simp add: ev)
  qed
qed

lemma limited_Nil: "limited []"
  by (simp add: limited_def)

end

section \<open>The controller implements it\<close>

text \<open>The controller keeps the part of the history that is inside its window.\<close>

definition guard_inv :: "int \<Rightarrow> int \<Rightarrow> int \<Rightarrow> real \<Rightarrow> real list \<Rightarrow> guard_ctl \<Rightarrow> bool" where
  "guard_inv a b w now h g \<longleftrightarrow> gc_min g = max 0 a \<and> gc_max g = max 1 b \<and> gc_window g = max 1 w \<and> sorted h \<and>
     (\<forall>x \<in> set h. x \<le> now) \<and>
     (\<exists>old. h = old @ gc_times g \<and> (\<forall>x \<in> set old. x < now - real_of_int (max 1 w)))"

lemma guard_inv_init: "guard_inv a b w now [] (guard_init a b w)"
  by (simp add: guard_inv_def guard_init_def)

lemma guard_inv_prune:
  assumes "guard_inv a b w now h g" and "now \<le> t"
  shows "guard_inv a b w t h (prune t g)"
proof -
  let ?P = "\<lambda>x. x < t - real_of_int (max 1 w)"
  from assms(1) obtain old where old: "h = old @ gc_times g" "\<forall>x \<in> set old. x < now - real_of_int (max 1 w)"
    and g: "gc_min g = max 0 a" "gc_max g = max 1 b" "gc_window g = max 1 w" "sorted h" "\<forall>x \<in> set h. x \<le> now"
    unfolding guard_inv_def by (elim conjE exE)
  have "h = (old @ takeWhile ?P (gc_times g)) @ gc_times (prune t g)"
    using old(1) g(3) by (simp add: prune_def)
  moreover have "\<forall>x \<in> set (old @ takeWhile ?P (gc_times g)). ?P x"
    using old(2) assms(2) by (auto dest: set_takeWhileD)
  moreover have "gc_min (prune t g) = gc_min g" "gc_max (prune t g) = gc_max g" "gc_window (prune t g) = gc_window g"
    by (simp_all add: prune_def)
  moreover have "\<forall>x \<in> set h. x \<le> t" using g(5) assms(2) by fastforce
  ultimately show ?thesis unfolding guard_inv_def using g(1-4)
    by (intro conjI exI [of _ "old @ takeWhile ?P (gc_times g)"]) (assumption | simp)+
qed

lemma prune_keeps_window:
  assumes "sorted h" and "h = old @ gc_times (prune t g)" and "gc_window g = w"
    and "\<forall>x \<in> set old. x < t - real_of_int w"
  shows "filter (\<lambda>x. t - real_of_int w \<le> x) h = gc_times (prune t g)"
proof -
  have "t - real_of_int w \<le> x" if "x \<in> set (gc_times (prune t g))" for x
  proof -
    obtain y ys where y: "gc_times (prune t g) = y # ys"
      using \<open>x \<in> set (gc_times (prune t g))\<close> by (cases "gc_times (prune t g)") auto
    then have "\<not> y < t - real_of_int w" using assms(3) by (simp add: prune_def dropWhile_eq_Cons_conv)
    moreover have "y \<le> x" using assms(1,2) that y by (auto simp: sorted_append)
    ultimately show ?thesis by linarith
  qed
  moreover have "filter (\<lambda>x. t - real_of_int w \<le> x) old = []" using assms(4) by (auto simp: filter_empty_conv)
  ultimately show ?thesis using assms(2) by (metis append_Nil filter_True filter_append)
qed

lemma gate_reason_prunes: "snd (gate_reason now g) = prune now g"
  by (simp add: gate_reason_def Let_def)

text \<open>A question to the controller: what was observed, and the two limits.\<close>

type_synonym guard_question = "observation \<times> int option \<times> int option"

definition question_reasons :: "guard_question \<Rightarrow> string list" where
  "question_reasons q = (case q of (ob, threshold, limit) \<Rightarrow> rss_reason ob threshold @ error_reason ob limit)"

definition guard_ask :: "guard_question \<Rightarrow> real \<Rightarrow> guard_ctl \<Rightarrow> bool \<times> guard_ctl" where
  "guard_ask q now g =
     (case q of (ob, threshold, limit) \<Rightarrow>
        let (d, g') = guard_evaluate ob threshold limit now g in (de_restart d, g'))"

lemma guard_ask_cases:
  "guard_ask q now g =
     (if question_reasons q = [] then (False, g) else (fst (gate_reason now g) = None, prune now g))"
  using gate_reason_prunes [of now g]
  by (cases q) (auto simp: guard_ask_def question_reasons_def guard_evaluate_def Let_def split: prod.splits option.splits)

lemma gate_open:
  "fst (gate_reason now g) = None \<longleftrightarrow>
   (gc_times (prune now g) \<noteq> [] \<longrightarrow> last (gc_times (prune now g)) + real_of_int (gc_min g) \<le> now) \<and>
   int (length (gc_times (prune now g))) < gc_max g"
proof -
  have "gc_min (prune now g) = gc_min g" "gc_max (prune now g) = gc_max g" by (simp_all add: prune_def)
  then show ?thesis by (auto simp: gate_reason_def Let_def not_less not_le)
qed

interpretation gov: restart_governor guard_ask record_restart "guard_inv a b w"
  "real_of_int (min (max 0 a) (max 1 w))" "real_of_int (max 1 w)" "nat (max 1 b)"
  for a b w
proof unfold_locales
  fix now t h g q
  assume i: "guard_inv a b w now h g" and t: "now \<le> (t :: real)"
  note p = guard_inv_prune [OF i t]
  have "guard_inv a b w t h g"
    using i t unfolding guard_inv_def by (elim conjE exE, intro conjI exI) (assumption | fastforce)+
  with p show "guard_inv a b w t h (snd (guard_ask q t g))" by (simp add: guard_ask_cases)
  from p obtain old where old: "h = old @ gc_times (prune t g)" "\<forall>x \<in> set old. x < t - real_of_int (max 1 w)"
    and s: "sorted h" unfolding guard_inv_def by (elim conjE exE)
  have g: "gc_min g = max 0 a" "gc_max g = max 1 b" "gc_window g = max 1 w" using i by (simp_all add: guard_inv_def)
  show "guard_inv a b w t (h @ [t]) (record_restart t g)"
  proof -
    have "sorted (h @ [t])" using s i t by (fastforce simp: guard_inv_def sorted_append)
    moreover have "gc_times (record_restart t g) = gc_times (prune t g) @ [t]"
      "gc_min (record_restart t g) = max 0 a" "gc_max (record_restart t g) = max 1 b" "gc_window (record_restart t g) = max 1 w"
      using g by (simp_all add: record_restart_def Let_def prune_def)
    moreover have "\<forall>x \<in> set (h @ [t]). x \<le> t" using i t by (fastforce simp: guard_inv_def)
    ultimately show ?thesis unfolding guard_inv_def using old by (intro conjI exI [of _ old]) simp_all
  qed
  assume "fst (guard_ask q t g)"
  then have open_gate: "gc_times (prune t g) \<noteq> [] \<Longrightarrow> last (gc_times (prune t g)) + real_of_int (max 0 a) \<le> t"
    "int (length (gc_times (prune t g))) < max 1 b"
    by (auto simp: guard_ask_cases gate_open g split: if_splits)
  have "filter (\<lambda>x. t - real_of_int (max 1 w) \<le> x) h = gc_times (prune t g)"
    by (rule prune_keeps_window [OF s old(1) g(3) old(2)])
  with open_gate(2) show "length (filter (\<lambda>x. t - real_of_int (max 1 w) \<le> x) h) < nat (max 1 b)" by simp
  show "last h + real_of_int (min (max 0 a) (max 1 w)) \<le> t" if "h \<noteq> []"
  proof (cases "gc_times (prune t g) = []")
    case False
    then have "last h = last (gc_times (prune t g))" using old(1) by simp
    with open_gate(1) [OF False] show ?thesis by linarith
  next
    case True
    with old that have "last h < t - real_of_int (max 1 w)" by (metis append_Nil2 last_in_set)
    then show ?thesis by linarith
  qed
next
  show "0 < nat (max 1 b)" by simp
qed

section \<open>Properties\<close>

text \<open>The loop of the memory guard: each check reads the settings and the status of the process, asks at one time of
  the clock and records at a later one.  An exception ends the thread.  The result lists the times at which a reload
  was recorded.\<close>

record guard_check =
  gk_settings :: memory_guard_settings
  gk_status :: "string list option"
  gk_asked :: real
  gk_recorded :: real

fun memory_guard_loop :: "guard_check list \<Rightarrow> guard_ctl option \<Rightarrow> real list" where
  "memory_guard_loop [] ctl = []"
| "memory_guard_loop (k # ks) ctl =
     (case evaluate_once (gk_settings k) (gk_status k) (gk_asked k) (gk_recorded k) ctl of
        (Inl e, ctl') \<Rightarrow> []
      | (Inr reload, ctl') \<Rightarrow> (if reload then [gk_recorded k] else []) @ memory_guard_loop ks ctl')"

definition check_times :: "guard_check list \<Rightarrow> real list" where
  "check_times ks = concat (map (\<lambda>k. [gk_asked k, gk_recorded k]) ks)"

text \<open>The questions of the loop to its controller.\<close>

fun loop_questions :: "guard_check list \<Rightarrow> (guard_question \<times> real \<times> real) list" where
  "loop_questions [] = []"
| "loop_questions (k # ks) =
     (if mg_rss_mb (gk_settings k) \<le> 0 then loop_questions ks
      else (case read_process_rss_bytes (gk_status k) of
              Inl e \<Rightarrow> []
            | Inr rss \<Rightarrow>
                ((\<lparr>ob_rss = rss, ob_errors = 0\<rparr>, Some (mg_rss_mb (gk_settings k) * 1024 * 1024), Some 0), gk_asked k, gk_recorded k)
                  # loop_questions ks))"

lemma memory_guard_loop_session: "memory_guard_loop ks (Some g) = gov.session (loop_questions ks) g"
  by (induction ks arbitrary: g)
    (auto simp: evaluate_once_def guard_ask_def Let_def split: prod.splits sum.splits)

lemma loop_questions_sorted:
  "sorted (t # check_times ks) \<Longrightarrow> sorted (t # concat (map (\<lambda>(q, te, tr). [te, tr]) (loop_questions ks)))"
proof (induction ks arbitrary: t)
  case (Cons k ks)
  have s: "sorted (t # check_times ks)" "sorted (gk_recorded k # check_times ks)" "t \<le> gk_asked k" "gk_asked k \<le> gk_recorded k"
    using Cons.prems by (auto simp: check_times_def)
  have "sorted (t # gk_asked k # gk_recorded k # concat (map (\<lambda>(q, te, tr). [te, tr]) (loop_questions ks)))"
    using Cons.IH [OF s(2)] s(3,4) by (simp only: sorted2 simp_thms)
  with Cons.IH [OF s(1)] s(3,4) show ?case by (auto simp del: sorted_simps split: sum.split)
qed (simp add: check_times_def)

text \<open>C23: The memory guard limits the reloads it requests: whatever the process uses, however the settings change
  while it runs and whenever it wakes up, two consecutive reloads are apart by at least the configured minimum
  interval or one hour, whichever is less, and no span of an hour holds more of them than the configured maximum.
  Settings below the least allowed values, no interval and one reload, count as these.\<close>

theorem governor_limits_restarts:
  assumes "sorted (check_times ks)" and "h = memory_guard_loop ks (Some (memory_guard_controller cfg))"
  shows "(\<forall>i. Suc i < length h \<longrightarrow> h ! i + real_of_int (min (max 0 (mg_min_interval cfg)) 3600) \<le> h ! Suc i) \<and>
    (\<forall>x. length (filter (\<lambda>t. x \<le> t \<and> t \<le> x + 3600) h) \<le> nat (max 1 (mg_max_per_hour cfg)))"
proof -
  obtain t where t: "sorted (t # check_times ks)" using assms(1) by (cases "check_times ks") auto
  have "guard_inv (mg_min_interval cfg) (mg_max_per_hour cfg) 3600 t [] (memory_guard_controller cfg)"
    unfolding memory_guard_controller_def by (rule guard_inv_init)
  from gov.session_limited [OF this gov.limited_Nil loop_questions_sorted [OF t]] show ?thesis
    unfolding gov.limited_def by (simp add: assms(2) memory_guard_loop_session)
qed

text \<open>A process of 2 MB with a threshold of 1 MB.\<close>

definition small_guard :: "int \<Rightarrow> memory_guard_settings" where
  "small_guard gap = \<lparr>mg_rss_mb = 1, mg_min_interval = gap, mg_max_per_hour = 6\<rparr>"

definition fat_check :: "real \<Rightarrow> guard_check" where
  "fat_check t = \<lparr>gk_settings = small_guard 0, gk_status = Some [''VmRSS:  2048 kB''], gk_asked = t, gk_recorded = t + 1\<rparr>"

lemma fat_rss: "read_process_rss_bytes (Some [''VmRSS:  2048 kB'']) = Inr (Some 2097152)"
  by (simp add: read_process_rss_bytes_def py_startswith_def py_words.simps py_lstrip_def py_space_def py_int_def
      py_strip_def digit_value_def)

lemmas fat_guard_defs = fat_check_def fat_rss small_guard_def evaluate_once_def memory_guard_controller_def guard_init_def
  guard_evaluate_def rss_reason_def error_reason_def gate_reason_def prune_def record_restart_def Let_def

lemma governor_limits_restarts_witness:
  "memory_guard_loop [fat_check 0, fat_check 50, fat_check 400] (Some (memory_guard_controller (small_guard 300))) = [1, 401] \<and>
   (1 :: real) + 300 \<le> 401"
proof -
  have h: "[1, 401] = memory_guard_loop [fat_check 0, fat_check 50, fat_check 400] (Some (memory_guard_controller (small_guard 300)))"
    by (simp add: fat_guard_defs)
  have "sorted (check_times [fat_check 0, fat_check 50, fat_check 400])" by (simp add: check_times_def fat_check_def)
  from governor_limits_restarts [OF this h] h [symmetric] show ?thesis by (auto simp: small_guard_def)
qed

text \<open>A minimum interval longer than an hour is not kept: with a minimum of two hours, a reload one hour and a moment
  after the last is requested, because the last one has left the window.\<close>

theorem long_interval_forgotten:
  "memory_guard_loop [fat_check 0, fat_check 3602] (Some (memory_guard_controller (small_guard 7200))) = [1, 3603]"
  by (simp add: fat_guard_defs)

text \<open>The memory guard asks for a reload only when the process is known to use at least the
  configured memory, and never when the threshold is zero or the status file is missing.\<close>

theorem reload_only_above_threshold:
  assumes "evaluate_once cfg status now after ctl = (Inr True, ctl')"
  shows "0 < mg_rss_mb cfg \<and> (\<exists>rss. read_process_rss_bytes status = Inr (Some rss) \<and> mg_rss_mb cfg * 1024 * 1024 \<le> rss) \<and>
    (\<exists>g. ctl' = Some g \<and> gc_times g \<noteq> [] \<and> last (gc_times g) = after)"
proof -
  let ?g = "case ctl of None \<Rightarrow> memory_guard_controller cfg | Some g \<Rightarrow> g"
  have pos: "0 < mg_rss_mb cfg"
    using assms by (auto simp: evaluate_once_def Let_def split: if_splits)
  then obtain rss where rss: "read_process_rss_bytes status = Inr rss"
    using assms by (cases "read_process_rss_bytes status") (auto simp: evaluate_once_def Let_def)
  obtain d g' where d: "guard_evaluate \<lparr>ob_rss = rss, ob_errors = 0\<rparr> (Some (mg_rss_mb cfg * 1024 * 1024)) (Some 0) now ?g = (d, g')"
    by fastforce
  have r: "de_restart d" "ctl' = Some (record_restart after g')"
    using assms pos rss d by (auto simp: evaluate_once_def Let_def split: if_splits)
  have "rss_reason \<lparr>ob_rss = rss, ob_errors = 0\<rparr> (Some (mg_rss_mb cfg * 1024 * 1024)) \<noteq> []"
    using d r(1) by (auto simp: guard_evaluate_def error_reason_def Let_def)
  then obtain v where "rss = Some v" "mg_rss_mb cfg * 1024 * 1024 \<le> v"
    by (auto simp: rss_reason_def split: option.splits if_splits)
  with pos rss r(2) show ?thesis by (simp add: record_restart_def Let_def)
qed

lemma reload_only_above_threshold_witness:
  "\<exists>ctl'. evaluate_once \<lparr>mg_rss_mb = 1, mg_min_interval = 300, mg_max_per_hour = 6\<rparr> (Some [''VmRSS:  2048 kB'']) 10 11 None = (Inr True, ctl') \<and>
     (\<exists>g. ctl' = Some g \<and> last (gc_times g) = 11)"
proof -
  let ?cfg = "\<lparr>mg_rss_mb = 1, mg_min_interval = 300, mg_max_per_hour = 6\<rparr>"
  have "read_process_rss_bytes (Some [''VmRSS:  2048 kB'']) = Inr (Some 2097152)"
    by (simp add: read_process_rss_bytes_def py_startswith_def py_words.simps py_lstrip_def py_space_def py_int_def
        py_strip_def digit_value_def)
  then have "\<exists>ctl'. evaluate_once ?cfg (Some [''VmRSS:  2048 kB'']) 10 11 None = (Inr True, ctl')"
    by (simp add: evaluate_once_def memory_guard_controller_def guard_init_def guard_evaluate_def rss_reason_def
        gate_reason_def prune_def Let_def)
  then obtain ctl' where c: "evaluate_once ?cfg (Some [''VmRSS:  2048 kB'']) 10 11 None = (Inr True, ctl')" by blast
  from reload_only_above_threshold [OF c] c show ?thesis by auto
qed

end
