(* ===== verification/SgwRuntime.thy ===== *)
theory SgwRuntime
  imports SgwManager WorkerGuard
begin

text \<open>
  The process-wide serving group state, \<open>sgw/runtime_state.py\<close>, the supervisor thread that
  recycles the manager when the guard says so, and the startup \<open>sgw/startup.py\<close> that fills the
  state.  The three module variables are one record; the refresh thread is its supervisor state.
\<close>

section \<open>State\<close>

record startup_status =
  ss_completed :: bool
  ss_discovery_ok :: bool
  ss_groups :: "int list"
  ss_last_refresh :: "int option"
  ss_error :: string
  ss_prime_failed :: bool
  ss_guard_restarts :: int
  ss_guard_reason :: string
  ss_guard_epoch :: "int option"

record runtime =
  rt_status :: startup_status
  rt_store :: "store option"
  rt_manager :: "sgw_manager option"
  rt_running :: bool

definition initial_status :: startup_status where
  "initial_status = \<lparr>ss_completed = False, ss_discovery_ok = False, ss_groups = [], ss_last_refresh = None,
     ss_error = '''', ss_prime_failed = False, ss_guard_restarts = 0, ss_guard_reason = '''', ss_guard_epoch = None\<rparr>"

definition reset_runtime :: "runtime \<Rightarrow> runtime" where
  "reset_runtime rt = \<lparr>rt_status = initial_status, rt_store = None, rt_manager = None, rt_running = False\<rparr>"

definition bounded_startup_error :: "string \<Rightarrow> string" where
  "bounded_startup_error msg =
     take 256 (if py_strip msg = '''' then ''sgw startup failed'' else py_strip msg)"

definition startup_success :: "int list \<Rightarrow> store \<Rightarrow> sgw_manager \<Rightarrow> int \<Rightarrow> runtime \<Rightarrow> runtime" where
  "startup_success sgs s m epoch rt =
     rt\<lparr>rt_store := Some s, rt_manager := Some m,
        rt_status := initial_status\<lparr>ss_completed := True, ss_discovery_ok := True, ss_groups := sgs,
          ss_last_refresh := Some epoch\<rparr>\<rparr>"

definition startup_failure :: "string \<Rightarrow> runtime \<Rightarrow> runtime" where
  "startup_failure msg rt =
     rt\<lparr>rt_store := None, rt_manager := None,
        rt_status := initial_status\<lparr>ss_completed := True, ss_error := bounded_startup_error msg\<rparr>\<rparr>"

definition startup_prime_failure :: "int list \<Rightarrow> string \<Rightarrow> runtime \<Rightarrow> runtime" where
  "startup_prime_failure sgs msg rt =
     rt\<lparr>rt_store := None, rt_manager := None,
        rt_status := initial_status\<lparr>ss_completed := True, ss_discovery_ok := True, ss_groups := sgs,
          ss_error := bounded_startup_error msg, ss_prime_failed := True\<rparr>\<rparr>"

text \<open>\<open>start_sgw_background_refresh\<close>: the answer, and the state with the thread running.\<close>

definition start_background :: "runtime \<Rightarrow> bool \<times> runtime" where
  "start_background rt =
     (if \<not> ss_completed (rt_status rt) \<or> \<not> ss_discovery_ok (rt_status rt) \<or> ss_prime_failed (rt_status rt)
      then (False, rt)
      else (case rt_manager rt of
              None \<Rightarrow> (False, rt)
            | Some m \<Rightarrow>
                if rt_running rt then (True, rt)
                else (True, rt\<lparr>rt_manager := Some (m\<lparr>sm_stop := False\<rparr>), rt_running := True\<rparr>)))"

definition compute_cache_ready :: "int list \<Rightarrow> store option \<Rightarrow> bool \<times> int list" where
  "compute_cache_ready sgs s =
     (if sgs = [] then (True, [])
      else (case s of
              None \<Rightarrow> (False, sgs)
            | Some st \<Rightarrow>
                (let missing = filter (\<lambda>sg. case st sg of
                                         None \<Rightarrow> True
                                       | Some e \<Rightarrow> md_snapshot (entry_metadata e) \<le> 0) sgs
                 in (missing = [], missing))))"

section \<open>The supervisor\<close>

text \<open>The refresh thread: the manager it runs, its controller, and the count of error cycles.  The
  manager in the record is the object that \<open>rt_manager\<close> names as well.\<close>

record supervisor =
  su_manager :: sgw_manager
  su_guard :: "guard_ctl option"
  su_errors :: int
  su_runtime :: runtime

text \<open>The inputs of one cycle: the clock, the pollers, the resident set size (or the exception reading it
  raises), the monotonic clock when the controller is asked and when the restart is recorded, and the
  clock that dates the workers of a new manager, and whether a stop is requested meanwhile.\<close>

record cycle_input =
  ci_now :: real
  ci_pollers :: pollers
  ci_rss :: "int option result"
  ci_ask :: real
  ci_record :: real
  ci_started :: real
  ci_stop :: bool

definition normalize_epoch :: "real \<Rightarrow> int" where
  "normalize_epoch v = (if v < 0 then \<lceil>v\<rceil> else \<lfloor>v\<rfloor>)"

definition build_controller :: "sgw_settings \<Rightarrow> guard_ctl option" where
  "build_controller cfg =
     (if \<not> gs_enabled (sg_guard cfg) then None
      else Some (guard_init (gs_min_interval (sg_guard cfg)) (gs_max_per_hour (sg_guard cfg)) 3600))"

definition guard_decision ::
  "sgw_settings \<Rightarrow> guard_ctl option \<Rightarrow> int \<Rightarrow> cycle_input \<Rightarrow> (decision option \<times> guard_ctl option) result" where
  "guard_decision cfg g errors ci =
     (case g of
        None \<Rightarrow> Inr (None, None)
      | Some ctl \<Rightarrow>
          if \<not> gs_enabled (sg_guard cfg) then Inr (None, g)
          else (case ci_rss ci of
                  Inl x \<Rightarrow> Inl x
                | Inr rss \<Rightarrow>
                    (let threshold = (if 0 < gs_rss_mb (sg_guard cfg) then Some (gs_rss_mb (sg_guard cfg) * 1024 * 1024) else None);
                         (d, ctl') = guard_evaluate \<lparr>ob_rss = rss, ob_errors = errors\<rparr> threshold
                                       (Some (gs_max_error_cycles (sg_guard cfg))) (ci_ask ci) ctl
                     in Inr (if de_restart d then Some d else None, Some ctl'))))"

text \<open>\<open>_restart_sgw_runtime_manager\<close>: a new store, a clone of the manager on it, and the status.\<close>

definition restart_runtime_manager ::
  "sgw_settings \<Rightarrow> (int \<Rightarrow> int \<Rightarrow> int) \<Rightarrow> real \<Rightarrow> sgw_manager \<Rightarrow> int \<Rightarrow> string \<Rightarrow> runtime \<Rightarrow> sgw_manager \<times> runtime" where
  "restart_runtime_manager cfg src started m epoch reason rt =
     (let m' = clone_for_restart cfg src started (Some Map.empty) m
      in (m', rt\<lparr>rt_store := Some Map.empty, rt_manager := Some m',
             rt_status := (rt_status rt)\<lparr>ss_last_refresh := Some epoch,
               ss_guard_restarts := ss_guard_restarts (rt_status rt) + 1,
               ss_guard_reason := take 256 (py_strip reason), ss_guard_epoch := Some epoch\<rparr>\<rparr>))"

text \<open>\<open>_after_cycle\<close>: record the epoch, count the error cycles, ask the guard, and restart when it
  says so; the new manager gets a new controller.\<close>

definition after_cycle :: "sgw_settings \<Rightarrow> cycle_input \<Rightarrow> refresh_result \<Rightarrow> supervisor \<Rightarrow> bool result \<times> supervisor" where
  "after_cycle cfg ci r su =
     (let epoch = normalize_epoch (rs_time r);
          rt = (su_runtime su)\<lparr>rt_status := (rt_status (su_runtime su))\<lparr>ss_last_refresh := Some epoch\<rparr>\<rparr>;
          errors = (if rs_errors r \<noteq> [] then su_errors su + 1 else 0);
          su1 = su\<lparr>su_runtime := rt, su_errors := errors\<rparr>
      in case guard_decision cfg (su_guard su) errors ci of
           Inl x \<Rightarrow> (Inl x, su1)
         | Inr (None, g) \<Rightarrow> (Inr False, su1\<lparr>su_guard := g\<rparr>)
         | Inr (Some d, g) \<Rightarrow>
             (let (m', rt') = restart_runtime_manager cfg (po_jitter (ci_pollers ci)) (ci_started ci) (su_manager su)
                                epoch (py_join ''; '' (de_reasons d)) rt
              in (Inr True, \<lparr>su_manager = m', su_guard = build_controller cfg, su_errors = 0, su_runtime = rt'\<rparr>)))"

text \<open>One cycle of the thread: refresh, publish the manager, decide.  A stop request that arrives
  during the refresh is seen on the manager afterwards.\<close>

definition supervise_cycle :: "sgw_settings \<Rightarrow> cycle_input \<Rightarrow> supervisor \<Rightarrow> bool result \<times> supervisor" where
  "supervise_cycle cfg ci su =
     (case refresh_once cfg (ci_pollers ci) (ci_now ci) (su_manager su) of
        (Inl x, m) \<Rightarrow> (Inl x, su\<lparr>su_manager := m\<rparr>)
      | (Inr r, m0) \<Rightarrow>
          (let m = (if ci_stop ci then m0\<lparr>sm_stop := True\<rparr> else m0)
           in after_cycle cfg ci r
                (su\<lparr>su_manager := m,
                    su_runtime := (su_runtime su)\<lparr>rt_manager := Some m, rt_store := Some (sm_store m)\<rparr>\<rparr>)))"

text \<open>The thread over the inputs of its cycles.  It ends with an exception, or when the cycle did not
  restart the manager and a stop was requested; after a restart it goes on with the new manager.
  The flags say of each cycle whether it restarted.\<close>

definition thread_ended :: "supervisor \<Rightarrow> supervisor" where
  "thread_ended su = su\<lparr>su_runtime := (su_runtime su)\<lparr>rt_running := False\<rparr>\<rparr>"

fun supervise :: "sgw_settings \<Rightarrow> cycle_input list \<Rightarrow> supervisor \<Rightarrow> bool list \<times> supervisor" where
  "supervise cfg [] su = ([], su)"
| "supervise cfg (ci # rest) su =
     (case supervise_cycle cfg ci su of
        (Inl x, su') \<Rightarrow> ([], thread_ended su')
      | (Inr restarted, su') \<Rightarrow>
          if \<not> restarted \<and> sm_stop (su_manager su') then ([False], thread_ended su')
          else (let (flags, su2) = supervise cfg rest su' in (restarted # flags, su2)))"

definition start_supervisor :: "sgw_settings \<Rightarrow> sgw_manager \<Rightarrow> runtime \<Rightarrow> supervisor" where
  "start_supervisor cfg m rt = \<lparr>su_manager = m, su_guard = build_controller cfg, su_errors = 0, su_runtime = rt\<rparr>"

section \<open>Startup\<close>

text \<open>What \<open>initialize\<close> reads: the precheck's verdict (its message when it failed), what discovery
  returns, the clocks, and whether it runs under pytest.  The precheck and the discovery may
  raise; the text of the exception is then the left side.  The settings have been read before.\<close>

record startup_env =
  se_mode :: string
  se_state_dir :: string
  se_precheck :: "string + (bool \<times> string)"
  se_discover :: "string + int list"
  se_now :: int
  se_started :: real
  se_pytest :: bool
  se_jitter :: "int \<Rightarrow> int \<Rightarrow> int"

definition discovery_mode :: "startup_env \<Rightarrow> string" where
  "discovery_mode se = (let m = py_lower (py_strip (se_mode se)) in if m = '''' then ''snmp'' else m)"

definition sgw_initialize :: "sgw_settings \<Rightarrow> startup_env \<Rightarrow> runtime \<Rightarrow> runtime" where
  "sgw_initialize cfg se rt =
     (if \<not> sg_enabled cfg
      then startup_success [] Map.empty (manager_init cfg (se_jitter se) (se_started se) Map.empty []) (se_now se) rt
      else if py_strip (se_state_dir se) = '''' then startup_failure ''state_dir must be set for SGW discovery'' rt
      else (let precheck = (if discovery_mode se = ''snmp'' then se_precheck se else Inr (True, ''''))
            in case precheck of
                 Inl text \<Rightarrow> startup_failure text rt
               | Inr (False, msg) \<Rightarrow> startup_failure (if msg \<noteq> '''' then msg else ''cmts precheck failed'') rt
               | Inr (True, _) \<Rightarrow>
                   (case se_discover se of
                      Inl text \<Rightarrow> startup_failure text rt
                    | Inr sgs \<Rightarrow>
                        (let m = manager_init cfg (se_jitter se) (se_started se) Map.empty sgs;
                             rt' = startup_success sgs Map.empty m (se_now se) rt
                         in if se_pytest se then rt' else snd (start_background rt')))))"

section \<open>Lemmas\<close>

lemma manager_init_simps [simp]:
  "sm_store (manager_init cfg src now s sgs) = s" "sm_groups (manager_init cfg src now s sgs) = sgs"
  "sm_requests (manager_init cfg src now s sgs) = Map.empty" "sm_stop (manager_init cfg src now s sgs) = False"
  by (simp_all add: manager_init_def set_service_groups_def initialize_worker_state_def Let_def)

text \<open>A group without an entry is polled, and the poll either succeeds or is reported.\<close>

lemma refresh_sg_first:
  assumes "refresh_sg cfg po now sg m = (o1, m')" and "sm_store m sg = None"
  shows "oc_applied o1 \<or> oc_error o1 \<noteq> None"
proof -
  let ?e = "new_entry sg (default_metadata\<lparr>md_snapshot := now, md_age := 0\<rparr>)"
  let ?s = "(sm_store m)(sg \<mapsto> ?e)"
  have en: "ensure_entry sg now (sm_store m) = (?e, ?s)"
    using assms(2) by (simp add: ensure_entry_def store_upsert_def Let_def)
  obtain jit js where j: "resolve_jitter cfg (po_jitter po) sg (sm_jitter m) = (jit, js)" by fastforce
  define mode where "mode = choose_mode cfg (sm_requests m sg) (entry_metadata ?e) jit now"
  have mode: "mode \<noteq> ModeNone"
    by (simp add: mode_def choose_mode_def refresh_due_def default_metadata_def split: option.split request_mode.split)
  obtain applied err s2 where p: "poll_and_store po mode sg now ?e ?s = ((applied, err), s2)"
    by (metis prod.exhaust)
  have "applied \<or> err \<noteq> None"
    using p mode by (cases mode) (auto simp: poll_and_store_def Let_def split: sum.splits)
  moreover have "oc_applied o1 = applied \<and> oc_error o1 = err"
    using assms(1) unfolding refresh_sg_def en j prod.case Let_def mode_def [symmetric] p
    by (auto split: prod.splits)
  ultimately show ?thesis by simp
qed

lemma refresh_groups_first:
  assumes "refresh_groups cfg po now sgs m = (os, m')" and "store_ok (sm_store m)" and "distinct sgs"
    and "\<forall>sg \<in> set sgs. sm_store m sg = None" and "o1 \<in> set os"
  shows "oc_applied o1 \<or> oc_error o1 \<noteq> None"
  using assms
proof (induction sgs arbitrary: m os)
  case Nil
  then show ?case by simp
next
  case (Cons sg sgs)
  obtain o2 m1 where r1: "refresh_sg cfg po now sg m = (o2, m1)" by fastforce
  obtain os2 where r2: "refresh_groups cfg po now sgs m1 = (os2, m')" and os: "os = o2 # os2"
    using Cons.prems(1) r1 by (auto split: prod.splits)
  obtain e where e: "sm_store m1 = (sm_store m)(sg \<mapsto> e)" "outcome_ok cfg now o2 e" "oc_sg o2 = sg"
    using refresh_sg_spec [OF r1 Cons.prems(2)] by (elim exE conjE)
  have "entry_ok sg e" using e(2,3) by (simp add: outcome_ok_def)
  then have ok: "store_ok (sm_store m1)" using Cons.prems(2) e(1) by (simp add: store_ok_def)
  have none: "\<forall>g \<in> set sgs. sm_store m1 g = None" using Cons.prems(3,4) e(1) by auto
  show ?case
  proof (cases "o1 = o2")
    case True
    have "sm_store m sg = None" using Cons.prems(4) by simp
    from refresh_sg_first [OF r1 this] True show ?thesis by simp
  next
    case False
    with Cons.prems(5) os have "o1 \<in> set os2" by simp
    from Cons.IH [OF r2 ok _ none this] Cons.prems(3) show ?thesis by simp
  qed
qed

text \<open>A manager that has stored nothing and whose polls all raise reports errors.\<close>

lemma refresh_once_all_fail:
  assumes "sm_store m = Map.empty" and "sm_requests m = Map.empty" and "sm_groups m \<noteq> []" and "sg_enabled cfg"
    and "0 \<le> now" and "\<And>sg. \<exists>x. po_heavy po sg = Inl x"
  shows "\<exists>r m'. refresh_once cfg po now m = (Inr r, m') \<and> rs_errors r \<noteq> [] \<and> rs_time r = now \<and>
    sm_groups m' = sm_groups m"
proof -
  obtain sg sgs where g: "sm_groups m = sg # sgs" using assms(3) by (cases "sm_groups m") auto
  obtain x where x: "po_heavy po sg = Inl x" using assms(6) by blast
  obtain os m' where r: "refresh_groups cfg po now (sm_groups m) m = (os, m')" by fastforce
  have "oc_error (fst (refresh_sg cfg po now sg m)) \<noteq> None"
    using refresh_sg_first_failure [of m sg po x cfg now] assms(1,2) x by simp
  then have "collect_result now os \<noteq> collect_result now os \<or> rs_errors (collect_result now os) \<noteq> []"
    using r by (auto simp: g collect_result_def filter_empty_conv split: prod.splits)
  moreover have "sm_groups m' = sm_groups m"
    using r by (rule refresh_groups_keeps)
  ultimately show ?thesis
    using assms(4,5) r by (simp add: refresh_once_def) (simp add: collect_result_def)
qed

text \<open>A fresh controller allows a restart.\<close>

lemma fresh_guard_allows:
  assumes "gs_enabled (sg_guard cfg)" and "gs_max_error_cycles (sg_guard cfg) = 1" and "ci_rss ci = Inr None" and "0 < k"
  shows "\<exists>d g. guard_decision cfg (build_controller cfg) k ci = Inr (Some d, g)"
proof -
  let ?c = "guard_init (gs_min_interval (sg_guard cfg)) (gs_max_per_hour (sg_guard cfg)) 3600"
  have gate: "gate_reason t ?c = (None, ?c)" for t
    by (simp add: gate_reason_def prune_def guard_init_def Let_def)
  have "rss_reason \<lparr>ob_rss = None, ob_errors = k\<rparr> t = []" for t
    by (simp add: rss_reason_def split: option.split)
  moreover have "error_reason \<lparr>ob_rss = None, ob_errors = k\<rparr> (Some 1) \<noteq> []"
    using assms(4) by (simp add: error_reason_def)
  ultimately show ?thesis
    using assms(1-3) by (simp add: guard_decision_def build_controller_def guard_evaluate_def gate Let_def)
qed

text \<open>Startup fails, succeeds, or succeeds and starts the thread.\<close>

lemma sgw_initialize_outcomes:
  assumes "\<And>msg. P (startup_failure msg rt)"
    and "\<And>sgs. P (startup_success sgs Map.empty (manager_init cfg (se_jitter se) (se_started se) Map.empty sgs) (se_now se) rt)"
    and "\<And>sgs. P (snd (start_background
      (startup_success sgs Map.empty (manager_init cfg (se_jitter se) (se_started se) Map.empty sgs) (se_now se) rt)))"
  shows "P (sgw_initialize cfg se rt)"
  unfolding sgw_initialize_def Let_def using assms
  by (simp split: sum.split prod.split bool.split)

section \<open>Properties\<close>

text \<open>C33: Startup, begun while no background refresh runs, leaves a consistent state on each of its paths: discovery is reported as good exactly when there is a manager,
  the manager and the status name the same groups, an error message is present exactly when
  discovery failed and is bounded, and the background refresh runs only on a good state.\<close>

theorem startup_consistent:
  assumes "rt_running rt = False"
  shows "let rt' = sgw_initialize cfg se rt; s = rt_status rt' in
     ss_completed s \<and> ss_discovery_ok s = (rt_manager rt' \<noteq> None) \<and> ss_discovery_ok s = (rt_store rt' = Some Map.empty) \<and>
     (ss_error s = '''') = ss_discovery_ok s \<and> length (ss_error s) \<le> 256 \<and> \<not> (rt_running rt' \<and> \<not> ss_discovery_ok s) \<and>
     (case rt_manager rt' of None \<Rightarrow> ss_groups s = [] | Some m \<Rightarrow> sm_groups m = ss_groups s)"
proof -
  let ?ok = "\<lambda>rt'. ss_completed (rt_status rt') \<and> ss_discovery_ok (rt_status rt') = (rt_manager rt' \<noteq> None) \<and>
     ss_discovery_ok (rt_status rt') = (rt_store rt' = Some Map.empty) \<and>
     (ss_error (rt_status rt') = '''') = ss_discovery_ok (rt_status rt') \<and> length (ss_error (rt_status rt')) \<le> 256 \<and>
     \<not> (rt_running rt' \<and> \<not> ss_discovery_ok (rt_status rt')) \<and>
     (case rt_manager rt' of None \<Rightarrow> ss_groups (rt_status rt') = [] | Some m \<Rightarrow> sm_groups m = ss_groups (rt_status rt'))"
  have bad: "?ok (startup_failure msg rt)" for msg
  proof -
    have "bounded_startup_error msg \<noteq> ''''" "length (bounded_startup_error msg) \<le> 256"
      by (simp_all add: bounded_startup_error_def)
    with assms show ?thesis by (simp add: startup_failure_def initial_status_def)
  qed
  have good: "?ok (startup_success sgs Map.empty (manager_init cfg (se_jitter se) t Map.empty sgs) e rt)"
    "?ok (snd (start_background (startup_success sgs Map.empty (manager_init cfg (se_jitter se) t Map.empty sgs) e rt)))" for sgs t e
    using assms by (simp_all add: startup_success_def initial_status_def start_background_def)
  have "?ok (sgw_initialize cfg se rt)"
    by (rule sgw_initialize_outcomes [where P = ?ok]) (rule bad, rule good(1), rule good(2))
  then show ?thesis unfolding Let_def .
qed

definition demo_env :: startup_env where
  "demo_env = \<lparr>se_mode = '' snmp '', se_state_dir = ''state'', se_precheck = Inr (True, ''''), se_discover = Inr [2, 4],
     se_now = 100, se_started = 100, se_pytest = False, se_jitter = (\<lambda>_ m. m)\<rparr>"

definition demo_runtime :: runtime where
  "demo_runtime = \<lparr>rt_status = initial_status, rt_store = None, rt_manager = None, rt_running = False\<rparr>"

lemma startup_consistent_witness:
  "\<exists>m. rt_manager (sgw_initialize demo_cfg demo_env demo_runtime) = Some m \<and>
     sm_groups m = ss_groups (rt_status (sgw_initialize demo_cfg demo_env demo_runtime))"
proof -
  have "rt_running demo_runtime = False" by (simp add: demo_runtime_def)
  note c = startup_consistent [OF this, of demo_cfg demo_env, unfolded Let_def, THEN conjunct2]
  have "discovery_mode demo_env = ''snmp''"
    by (simp add: discovery_mode_def demo_env_def py_strip_def py_lstrip_def py_space_def py_lower_def Let_def)
  then have "ss_discovery_ok (rt_status (sgw_initialize demo_cfg demo_env demo_runtime))"
    by (simp add: sgw_initialize_def demo_env_def demo_cfg_def demo_settings_def py_strip_def py_lstrip_def py_space_def
        start_background_def startup_success_def Let_def split: option.split)
  then obtain m where m: "rt_manager (sgw_initialize demo_cfg demo_env demo_runtime) = Some m"
    using c [THEN conjunct1] by auto
  have "sm_groups m = ss_groups (rt_status (sgw_initialize demo_cfg demo_env demo_runtime))"
    using c unfolding m option.case by (elim conjE)
  with m show ?thesis by blast
qed

text \<open>The first cycle makes the cache ready for every managed group, whatever the polls do: a group
  whose only poll raised has an entry with the cycle's time, so it counts as ready.\<close>

theorem first_cycle_makes_ready:
  assumes "refresh_once cfg po now m = (Inr r, m')" and "sm_store m = Map.empty" and "distinct (sm_groups m)"
    and "sg_enabled cfg" and "0 < now" and "set sgs \<subseteq> set (sm_groups m)"
  shows "compute_cache_ready sgs (Some (sm_store m')) = (True, [])"
proof -
  have ok: "store_ok (sm_store m)" using assms(2) by (simp add: store_ok_def)
  obtain os where os: "r = collect_result now os" "refresh_groups cfg po now (sm_groups m) m = (os, m')"
    "distinct (map oc_sg os)" "map oc_sg os = sm_groups m"
    by (rule refresh_once_outcomes [OF assms(1) ok assms(3,4)])
  note spec = refresh_groups_spec [OF os(2) ok assms(3)]
  have "\<exists>e. sm_store m' sg = Some e \<and> \<not> md_snapshot (entry_metadata e) \<le> 0" if "sg \<in> set sgs" for sg
  proof -
    obtain o1 where o1: "o1 \<in> set os" "oc_sg o1 = sg"
      using outcome_of_group [OF os(4)] assms(6) \<open>sg \<in> set sgs\<close> by blast
    have "\<exists>e. sm_store m' (oc_sg o1) = Some e \<and> outcome_ok cfg now o1 e"
      using bspec [OF spec [THEN conjunct2, THEN conjunct2, THEN conjunct1] o1(1)] by (elim exE conjE) (intro exI conjI)
    then obtain e where e: "sm_store m' sg = Some e" "outcome_ok cfg now o1 e" unfolding o1(2) by (elim exE conjE)
    have "oc_applied o1 \<or> oc_error o1 \<noteq> None"
      by (rule refresh_groups_first [OF os(2) ok assms(3) _ o1(1)]) (simp add: assms(2))
    then have "md_snapshot (entry_metadata e) = now"
      using outcome_okD(4,6) [OF e(2)] by blast
    with e(1) assms(5) show ?thesis by simp
  qed
  then have "filter (\<lambda>sg. case sm_store m' sg of None \<Rightarrow> True | Some e \<Rightarrow> md_snapshot (entry_metadata e) \<le> 0) sgs = []"
    unfolding filter_empty_conv by fastforce
  then show ?thesis by (simp add: compute_cache_ready_def Let_def)
qed

definition dead_pollers :: pollers where
  "dead_pollers = \<lparr>po_heavy = (\<lambda>_. Inl ''timeout''), po_light = (\<lambda>_ _. Inl ''timeout''), po_jitter = (\<lambda>_ m. m)\<rparr>"

lemma first_cycle_makes_ready_witness:
  "\<exists>r m'. refresh_once demo_cfg dead_pollers 100 demo_manager = (Inr r, m') \<and> rs_errors r \<noteq> [] \<and>
     compute_cache_ready [2, 4] (Some (sm_store m')) = (True, [])"
proof -
  obtain r m' where r: "refresh_once demo_cfg dead_pollers 100 demo_manager = (Inr r, m')" "rs_errors r \<noteq> []"
    using refresh_once_all_fail [of demo_manager demo_cfg 100 dead_pollers] demo_manager_facts
    by (auto simp: dead_pollers_def)
  have "compute_cache_ready [2, 4] (Some (sm_store m')) = (True, [])"
    by (rule first_cycle_makes_ready [OF r(1)]) (simp_all add: demo_manager_facts)
  with r show ?thesis by blast
qed

lemma restart_effect:
  assumes "supervise_cycle cfg ci su = (Inr True, su')"
  shows "rt_store (su_runtime su') = Some Map.empty \<and> rt_manager (su_runtime su') = Some (su_manager su') \<and>
    sm_groups (su_manager su') = sm_groups (su_manager su) \<and> \<not> sm_stop (su_manager su') \<and> su_errors su' = 0 \<and>
    ss_guard_restarts (rt_status (su_runtime su')) = ss_guard_restarts (rt_status (su_runtime su)) + 1 \<and>
    length (ss_guard_reason (rt_status (su_runtime su'))) \<le> 256"
proof -
  obtain r m0 where r: "refresh_once cfg (ci_pollers ci) (ci_now ci) (su_manager su) = (Inr r, m0)"
    using assms by (auto simp: supervise_cycle_def split: prod.splits sum.splits)
  have g: "sm_groups m0 = sm_groups (su_manager su)"
    using r by (auto simp: refresh_once_def split: if_splits prod.splits dest: refresh_groups_keeps)
  define m where "m = (if ci_stop ci then m0\<lparr>sm_stop := True\<rparr> else m0)"
  define su1 where "su1 = su\<lparr>su_manager := m,
      su_runtime := (su_runtime su)\<lparr>rt_manager := Some m, rt_store := Some (sm_store m)\<rparr>\<rparr>"
  have a: "after_cycle cfg ci r su1 = (Inr True, su')"
    using assms by (simp add: supervise_cycle_def r m_def su1_def Let_def)
  have su1: "su_manager su1 = m" "sm_groups m = sm_groups (su_manager su)"
    "ss_guard_restarts (rt_status (su_runtime su1)) = ss_guard_restarts (rt_status (su_runtime su))"
    by (simp_all add: su1_def m_def g)
  obtain d g' where d: "guard_decision cfg (su_guard su1) (if rs_errors r \<noteq> [] then su_errors su1 + 1 else 0) ci = Inr (Some d, g')"
    using a by (auto simp: after_cycle_def Let_def split: sum.splits option.splits prod.splits)
  have s: "su' = (let rt = (su_runtime su1)\<lparr>rt_status := (rt_status (su_runtime su1))\<lparr>ss_last_refresh := Some (normalize_epoch (rs_time r))\<rparr>\<rparr>;
      (m', rt') = restart_runtime_manager cfg (po_jitter (ci_pollers ci)) (ci_started ci) (su_manager su1)
                    (normalize_epoch (rs_time r)) (py_join ''; '' (de_reasons d)) rt
      in \<lparr>su_manager = m', su_guard = build_controller cfg, su_errors = 0, su_runtime = rt'\<rparr>)"
    using a unfolding after_cycle_def Let_def d sum.case prod.case option.case by (simp split: prod.splits)
  show ?thesis
    by (simp add: s restart_runtime_manager_def clone_for_restart_def su1 Let_def)
qed

lemma restarted_not_stopped: "supervise_cycle cfg ci su = (Inr True, su') \<Longrightarrow> \<not> sm_stop (su_manager su')"
  using restart_effect by blast

text \<open>A guard restart starts from nothing: the cache is dropped for every group until the next cycle, the
  new manager keeps the groups and has no stop request, the error count is zero, and the restart is
  counted with a bounded reason.\<close>

theorem restart_starts_empty:
  assumes "supervise_cycle cfg ci su = (Inr True, su')"
  shows "rt_store (su_runtime su') = Some Map.empty \<and> rt_manager (su_runtime su') = Some (su_manager su') \<and>
    sm_groups (su_manager su') = sm_groups (su_manager su) \<and> \<not> sm_stop (su_manager su') \<and> su_errors su' = 0 \<and>
    ss_guard_restarts (rt_status (su_runtime su')) = ss_guard_restarts (rt_status (su_runtime su)) + 1 \<and>
    length (ss_guard_reason (rt_status (su_runtime su'))) \<le> 256 \<and>
    (sm_groups (su_manager su) = [] \<or>
     compute_cache_ready (sm_groups (su_manager su)) (rt_store (su_runtime su')) = (False, sm_groups (su_manager su)))"
  using restart_effect [OF assms] by (simp add: compute_cache_ready_def)

definition demo_input :: "real \<Rightarrow> bool \<Rightarrow> cycle_input" where
  "demo_input t stop = \<lparr>ci_now = t, ci_pollers = dead_pollers, ci_rss = Inr None, ci_ask = t, ci_record = t,
     ci_started = t, ci_stop = stop\<rparr>"

definition strict_cfg :: sgw_settings where
  "strict_cfg = demo_cfg\<lparr>sg_guard := (sg_guard demo_cfg)\<lparr>gs_max_error_cycles := 1\<rparr>\<rparr>"

definition strict_supervisor :: supervisor where
  "strict_supervisor = start_supervisor strict_cfg demo_manager (demo_runtime\<lparr>rt_running := True\<rparr>)"

text \<open>One cycle of a thread whose polls all raise, when one error cycle is enough to restart.\<close>

lemma failing_cycle_restarts:
  assumes "gs_enabled (sg_guard cfg)" and "gs_max_error_cycles (sg_guard cfg) = 1" and "sg_enabled cfg"
    and "sm_store (su_manager su) = Map.empty" and "sm_requests (su_manager su) = Map.empty"
    and "sm_groups (su_manager su) \<noteq> []" and "su_guard su = build_controller cfg" and "su_errors su = 0"
    and "0 \<le> ci_now ci" and "ci_rss ci = Inr None" and "\<And>sg. \<exists>x. po_heavy (ci_pollers ci) sg = Inl x"
  shows "\<exists>su'. supervise_cycle cfg ci su = (Inr True, su') \<and> sm_store (su_manager su') = Map.empty \<and>
    sm_requests (su_manager su') = Map.empty \<and> sm_groups (su_manager su') = sm_groups (su_manager su) \<and>
    su_guard su' = build_controller cfg \<and> su_errors su' = 0 \<and>
    rt_running (su_runtime su') = rt_running (su_runtime su) \<and>
    ss_guard_restarts (rt_status (su_runtime su')) = ss_guard_restarts (rt_status (su_runtime su)) + 1"
proof -
  obtain r m0 where r: "refresh_once cfg (ci_pollers ci) (ci_now ci) (su_manager su) = (Inr r, m0)"
    "rs_errors r \<noteq> []" "sm_groups m0 = sm_groups (su_manager su)"
    using refresh_once_all_fail [OF assms(4,5,6,3,9,11)] by blast
  obtain d g where d: "guard_decision cfg (build_controller cfg) 1 ci = Inr (Some d, g)"
    using fresh_guard_allows [OF assms(1,2,10), of 1] by auto
  show ?thesis
    by (simp add: supervise_cycle_def r after_cycle_def assms(7,8) d restart_runtime_manager_def clone_for_restart_def Let_def)
qed

lemma failing_thread_restarts:
  assumes "gs_enabled (sg_guard cfg)" and "gs_max_error_cycles (sg_guard cfg) = 1" and "sg_enabled cfg"
    and "sm_store (su_manager su) = Map.empty" and "sm_requests (su_manager su) = Map.empty"
    and "sm_groups (su_manager su) \<noteq> []" and "su_guard su = build_controller cfg" and "su_errors su = 0"
    and "\<forall>ci \<in> set inputs. 0 \<le> ci_now ci \<and> ci_rss ci = Inr None \<and> (\<forall>sg. \<exists>x. po_heavy (ci_pollers ci) sg = Inl x)"
  shows "fst (supervise cfg inputs su) = replicate (length inputs) True \<and>
    rt_running (su_runtime (snd (supervise cfg inputs su))) = rt_running (su_runtime su) \<and>
    ss_guard_restarts (rt_status (su_runtime (snd (supervise cfg inputs su)))) =
      ss_guard_restarts (rt_status (su_runtime su)) + int (length inputs)"
  using assms(4-)
proof (induction inputs arbitrary: su)
  case Nil
  then show ?case by simp
next
  case (Cons ci rest)
  obtain su' where c: "supervise_cycle cfg ci su = (Inr True, su')" "sm_store (su_manager su') = Map.empty"
    "sm_requests (su_manager su') = Map.empty" "sm_groups (su_manager su') = sm_groups (su_manager su)"
    "su_guard su' = build_controller cfg" "su_errors su' = 0" "rt_running (su_runtime su') = rt_running (su_runtime su)"
    "ss_guard_restarts (rt_status (su_runtime su')) = ss_guard_restarts (rt_status (su_runtime su)) + 1"
    using failing_cycle_restarts [OF assms(1-3) Cons.prems(1-5), of ci] Cons.prems(6) by auto
  have "sm_groups (su_manager su') \<noteq> []" using c(4) Cons.prems(3) by simp
  from Cons.IH [OF c(2,3) this c(5,6)] Cons.prems(6) show ?case
    by (cases "supervise cfg rest su'") (simp add: c(1,7,8))
qed

text \<open>The restart budget of the settings does not bound the guard restarts of the refresh thread: each
  restart comes with a new controller that remembers nothing, so when every cycle fails and one
  failed cycle is enough, every cycle restarts, whatever the minimum interval and the hourly
  maximum are and however close the cycles follow each other.\<close>

theorem guard_budget_not_kept:
  assumes "gs_enabled (sg_guard cfg)" and "gs_max_error_cycles (sg_guard cfg) = 1" and "sg_enabled cfg"
    and "sm_store m = Map.empty" and "sm_requests m = Map.empty" and "sm_groups m \<noteq> []"
    and "\<forall>ci \<in> set inputs. 0 \<le> ci_now ci \<and> ci_rss ci = Inr None \<and> (\<forall>sg. \<exists>x. po_heavy (ci_pollers ci) sg = Inl x)"
  shows "ss_guard_restarts (rt_status (su_runtime (snd (supervise cfg inputs (start_supervisor cfg m rt))))) =
    ss_guard_restarts (rt_status rt) + int (length inputs)"
  using failing_thread_restarts [OF assms(1-3), of "start_supervisor cfg m rt" inputs] assms(4-)
  by (simp add: start_supervisor_def)

lemma guard_budget_not_kept_witness:
  "gs_max_per_hour (sg_guard strict_cfg) = 6 \<and> gs_min_interval (sg_guard strict_cfg) = 300 \<and>
   ss_guard_restarts (rt_status (su_runtime (snd (supervise strict_cfg (replicate 10 (demo_input 100 False)) strict_supervisor)))) = 10"
proof -
  have cfg: "gs_enabled (sg_guard strict_cfg)" "gs_max_error_cycles (sg_guard strict_cfg) = 1" "sg_enabled strict_cfg"
    by (simp_all add: strict_cfg_def demo_cfg_def demo_settings_def)
  have i: "\<forall>ci \<in> set (replicate 10 (demo_input 100 False)). 0 \<le> ci_now ci \<and> ci_rss ci = Inr None \<and>
      (\<forall>sg. \<exists>x. po_heavy (ci_pollers ci) sg = Inl x)"
    by (simp add: demo_input_def dead_pollers_def)
  have "ss_guard_restarts (rt_status (su_runtime (snd (supervise strict_cfg (replicate 10 (demo_input 100 False)) strict_supervisor)))) =
    ss_guard_restarts (rt_status (demo_runtime\<lparr>rt_running := True\<rparr>)) + int (length (replicate 10 (demo_input 100 False)))"
    unfolding strict_supervisor_def
    by (rule guard_budget_not_kept [OF cfg _ _ _ i]) (simp_all add: demo_manager_facts)
  then show ?thesis
    by (simp add: demo_runtime_def initial_status_def strict_cfg_def demo_cfg_def demo_settings_def)
qed

text \<open>A stop request that arrives during a cycle that ends with a guard restart is lost: it marks the
  old manager, and the thread goes on with a new one.\<close>

theorem stop_lost_in_restart:
  "\<exists>su. supervise strict_cfg [demo_input 100 True, demo_input 101 False] strict_supervisor = ([True, True], su) \<and>
     rt_running (su_runtime su) \<and> \<not> sm_stop (su_manager su)"
proof -
  have cfg: "gs_enabled (sg_guard strict_cfg)" "gs_max_error_cycles (sg_guard strict_cfg) = 1" "sg_enabled strict_cfg"
    by (simp_all add: strict_cfg_def demo_cfg_def demo_settings_def)
  let ?in = "[demo_input 100 True, demo_input 101 False]"
  have "fst (supervise strict_cfg ?in strict_supervisor) = [True, True] \<and>
      rt_running (su_runtime (snd (supervise strict_cfg ?in strict_supervisor)))"
    using failing_thread_restarts [OF cfg, of strict_supervisor ?in] demo_manager_facts
    by (simp add: strict_supervisor_def start_supervisor_def demo_input_def dead_pollers_def eval_nat_numeral)
  moreover have "\<not> sm_stop (su_manager (snd (supervise strict_cfg ?in strict_supervisor)))"
    if "fst (supervise strict_cfg ?in strict_supervisor) = [True, True]"
    using that by (auto split: prod.splits sum.splits if_splits dest: restarted_not_stopped)
  ultimately show ?thesis by (metis prod.collapse)
qed

lemma restart_starts_empty_witness:
  "\<exists>su'. supervise_cycle strict_cfg (demo_input 100 False) strict_supervisor = (Inr True, su') \<and>
     compute_cache_ready [2, 4] (rt_store (su_runtime su')) = (False, [2, 4])"
proof -
  have cfg: "gs_enabled (sg_guard strict_cfg)" "gs_max_error_cycles (sg_guard strict_cfg) = 1" "sg_enabled strict_cfg"
    by (simp_all add: strict_cfg_def demo_cfg_def demo_settings_def)
  obtain su' where s: "supervise_cycle strict_cfg (demo_input 100 False) strict_supervisor = (Inr True, su')"
    using failing_cycle_restarts [OF cfg, of strict_supervisor "demo_input 100 False"] demo_manager_facts
    by (auto simp: strict_supervisor_def start_supervisor_def demo_input_def dead_pollers_def)
  have "sm_groups (su_manager strict_supervisor) = [2, 4]"
    by (simp add: strict_supervisor_def start_supervisor_def demo_manager_facts)
  with restart_starts_empty [OF s] s show ?thesis by auto
qed

end
