(* ===== verification/OperationStore.thy ===== *)
theory OperationStore
  imports Prelude "HOL-Library.List_Lexorder" "HOL-Library.Char_ord" "HOL-Library.Multiset"
begin

text \<open>
  The capture operations on disk: the models of \<open>api/common/operations/models.py\<close> and the
  store of \<open>api/common/operations/store.py\<close>.  An operation's directory is a record of its files
  (\<open>state.json\<close>, \<open>request_context.json\<close>, \<open>cancel.flag\<close> and the result files by name);
  pydantic writes and reads its models back unchanged, so a file holds the value itself.  The
  lock makes every save one step.
\<close>

section \<open>Models\<close>

datatype op_kind = OpQueued | OpRunning | OpCompleted | OpFailed | OpCancelling | OpCancelled

datatype op_stage = EligibilityStage | PrecheckStage | CaptureStage

datatype failure_reason =
  PerModemTimeout | OverallTimeout | HttpError | PypnmError | RequestError | UnknownReason

text \<open>\<open>ServiceStatusCode\<close> is an enumeration of the pypnm package; the codes the modelled parts name
  have constructors, every other code is a number.\<close>

datatype status_code =
  StatusSuccess | StatusFailure | StatusInvalidParameters | StatusTransactionNotFound | StatusOther int

record op_counters =
  oc_total :: int
  oc_eligible :: int
  oc_precheck :: int
  oc_started :: int
  oc_completed :: int
  oc_success :: int
  oc_failed :: int
  oc_skipped :: int

record op_times =
  ot_created :: int
  ot_started :: int
  ot_updated :: int
  ot_finished :: int

record op_execution =
  ex_workers :: int
  ex_retries :: int
  ex_delay :: real
  ex_modem_timeout :: real
  ex_overall :: real

record op_request =
  rq_groups :: "int list"
  rq_macs :: "string list"
  rq_channels :: "int list"
  rq_execution :: op_execution

record op_context =
  cx_hostname :: "string option"
  cx_tftp_ipv4 :: "string option"
  cx_tftp_ipv6 :: "string option"
  cx_community :: "string option"
  cx_modulation_offset :: "int option"
  cx_sample_symbol :: "int option"
  cx_inactivity_timeout :: "int option"
  cx_first_center :: "int option"
  cx_last_center :: "int option"
  cx_resolution_bw :: "int option"
  cx_noise_bw :: "int option"
  cx_window_function :: "int option"
  cx_num_averages :: "int option"
  cx_retrieval_type :: "int option"
  cx_sample_duration :: "int option"
  cx_fec_summary :: "int option"

record op_error =
  er_message :: string
  er_detail :: string

record stage_result =
  sr_stage :: op_stage
  sr_status :: status_code
  sr_reason :: "failure_reason option"
  sr_channel :: "int option"
  sr_transactions :: "string list"
  sr_files :: "string list"
  sr_message :: string
  sr_started :: int
  sr_finished :: int

record operation =
  op_id :: string
  op_state :: op_kind
  op_counts :: op_counters
  op_stamps :: op_times
  op_summary :: op_request
  op_error_summary :: "op_error option"

record linkage =
  lk_operation :: string
  lk_sg :: int
  lk_mac :: string
  lk_ip :: "string option"
  lk_stage :: stage_result

text \<open>One operation's directory, and the base directory.  A directory that does not exist is empty.\<close>

record op_dir =
  od_state :: "operation option"
  od_context :: "op_context option"
  od_cancel :: bool
  od_results :: "(string \<times> linkage list) list"

type_synonym op_fs = "string \<Rightarrow> op_dir"

definition empty_dir :: op_dir where
  "empty_dir = \<lparr>od_state = None, od_context = None, od_cancel = False, od_results = []\<rparr>"

definition zero_counters :: op_counters where
  "zero_counters = \<lparr>oc_total = 0, oc_eligible = 0, oc_precheck = 0, oc_started = 0, oc_completed = 0,
     oc_success = 0, oc_failed = 0, oc_skipped = 0\<rparr>"

section \<open>State\<close>

definition is_terminal :: "op_kind \<Rightarrow> bool" where
  "is_terminal k = (k \<in> {OpCompleted, OpFailed, OpCancelled})"

definition can_replace :: "op_kind \<Rightarrow> op_kind \<Rightarrow> bool" where
  "can_replace current incoming = (if is_terminal current then current = incoming else True)"

definition load_state :: "string \<Rightarrow> op_fs \<Rightarrow> operation result" where
  "load_state i fs = (case od_state (fs i) of None \<Rightarrow> Inl FileNotFoundError | Some s \<Rightarrow> Inr s)"

definition save_state :: "operation \<Rightarrow> op_fs \<Rightarrow> op_fs" where
  "save_state s fs =
     (let d = fs (op_id s)
      in case od_state d of
           Some cur \<Rightarrow> if \<not> can_replace (op_state cur) (op_state s) then fs
                       else fs(op_id s := d\<lparr>od_state := Some s\<rparr>)
         | None \<Rightarrow> fs(op_id s := d\<lparr>od_state := Some s\<rparr>))"

definition save_context :: "string \<Rightarrow> op_context \<Rightarrow> op_fs \<Rightarrow> op_fs" where
  "save_context i cx fs = fs(i := (fs i)\<lparr>od_context := Some cx\<rparr>)"

definition load_context :: "string \<Rightarrow> op_fs \<Rightarrow> op_context option" where
  "load_context i fs = od_context (fs i)"

text \<open>\<open>create_operation\<close>, the generated identifier and the clock as arguments.\<close>

definition create_operation :: "string \<Rightarrow> int \<Rightarrow> op_request \<Rightarrow> op_context option \<Rightarrow> op_fs \<Rightarrow> operation \<times> op_fs" where
  "create_operation i now rq cx fs =
     (let s = \<lparr>op_id = i, op_state = OpQueued, op_counts = zero_counters,
               op_stamps = \<lparr>ot_created = now, ot_started = 0, ot_updated = now, ot_finished = 0\<rparr>,
               op_summary = rq, op_error_summary = None\<rparr>;
          fs' = save_state s fs
      in (s, case cx of None \<Rightarrow> fs' | Some c \<Rightarrow> save_context i c fs'))"

section \<open>Cancellation\<close>

text \<open>The three steps of \<open>request_cancel\<close>: read, then flag, then save; other threads may act between
  them, and \<open>request_cancel\<close> runs them in a row.\<close>

definition cancel_update :: "int \<Rightarrow> operation \<Rightarrow> operation" where
  "cancel_update now s = s\<lparr>op_state := OpCancelling, op_stamps := (op_stamps s)\<lparr>ot_updated := now\<rparr>\<rparr>"

definition touch_cancel :: "string \<Rightarrow> op_fs \<Rightarrow> op_fs" where
  "touch_cancel i fs = fs(i := (fs i)\<lparr>od_cancel := True\<rparr>)"

definition request_cancel :: "string \<Rightarrow> int \<Rightarrow> op_fs \<Rightarrow> operation result \<times> op_fs" where
  "request_cancel i now fs =
     (case load_state i fs of
        Inl x \<Rightarrow> (Inl x, fs)
      | Inr s \<Rightarrow>
          if is_terminal (op_state s) then (Inr s, fs)
          else (Inr (cancel_update now s), save_state (cancel_update now s) (touch_cancel i fs)))"

definition is_cancel_requested :: "string \<Rightarrow> op_fs \<Rightarrow> bool" where
  "is_cancel_requested i fs = od_cancel (fs i)"

section \<open>Results\<close>

definition result_file :: "int \<Rightarrow> string" where
  "result_file sg = ''sg-'' @ int_str sg @ ''.jsonl''"

fun append_line :: "string \<Rightarrow> linkage \<Rightarrow> (string \<times> linkage list) list \<Rightarrow> (string \<times> linkage list) list" where
  "append_line f r [] = [(f, [r])]"
| "append_line f r ((g, rs) # rest) =
     (if g = f then (g, rs @ [r]) # rest else (g, rs) # append_line f r rest)"

definition append_result :: "linkage \<Rightarrow> op_fs \<Rightarrow> op_fs" where
  "append_result r fs =
     (let d = fs (lk_operation r)
      in fs(lk_operation r := d\<lparr>od_results := append_line (result_file (lk_sg r)) r (od_results d)\<rparr>))"

text \<open>\<open>_list_result_files\<close>: the files in the order of their names.\<close>

definition list_result_files :: "string \<Rightarrow> op_fs \<Rightarrow> (string \<times> linkage list) list" where
  "list_result_files i fs = sort_key fst (od_results (fs i))"

definition count_result_files :: "string \<Rightarrow> op_fs \<Rightarrow> int" where
  "count_result_files i fs = int (length (list_result_files i fs))"

definition load_result_records :: "string \<Rightarrow> int option \<Rightarrow> op_fs \<Rightarrow> linkage list" where
  "load_result_records i max_records fs =
     (let rs = concat (map snd (list_result_files i fs))
      in case max_records of None \<Rightarrow> rs | Some n \<Rightarrow> take (nat n) rs)"

definition count_result_records :: "string \<Rightarrow> op_fs \<Rightarrow> int" where
  "count_result_records i fs = int (sum_list (map (length \<circ> snd) (list_result_files i fs)))"

section \<open>The service's view\<close>

text \<open>\<open>_load_operation_state\<close> and \<open>_load_operation_results\<close> of the operation service: whether the
  operation was found, the message, and what is returned.\<close>

definition service_status :: "string \<Rightarrow> op_fs \<Rightarrow> status_code \<times> string \<times> operation option" where
  "service_status i fs =
     (case load_state i fs of
        Inl _ \<Rightarrow> (StatusFailure, ''operation not found'', None)
      | Inr s \<Rightarrow>
          (StatusSuccess,
           if op_state s = OpCompleted \<and> oc_total (op_counts s) = 0 then ''no modems selected'' else '''', Some s))"

record results_summary =
  su_records :: int
  su_included :: int
  su_files :: int

definition service_results ::
  "int \<Rightarrow> string \<Rightarrow> op_fs \<Rightarrow> status_code \<times> string \<times> results_summary \<times> linkage list" where
  "service_results max_inline i fs =
     (case load_state i fs of
        Inl _ \<Rightarrow> (StatusFailure, ''operation not found'', \<lparr>su_records = 0, su_included = 0, su_files = 0\<rparr>, [])
      | Inr s \<Rightarrow>
          (let total = count_result_records i fs;
               rs = (if total \<le> max_inline then load_result_records i None fs else [])
           in (StatusSuccess, if 0 < total then '''' else ''no results recorded'',
               \<lparr>su_records = total, su_included = int (length rs), su_files = count_result_files i fs\<rparr>, rs)))"

definition service_cancel :: "string \<Rightarrow> int \<Rightarrow> op_fs \<Rightarrow> (status_code \<times> string \<times> operation option) \<times> op_fs" where
  "service_cancel i now fs =
     (case request_cancel i now fs of
        (Inl _, fs') \<Rightarrow> ((StatusFailure, ''operation not found'', None), fs')
      | (Inr s, fs') \<Rightarrow> ((StatusSuccess, '''', Some s), fs'))"

section \<open>Concurrent use\<close>

text \<open>What the threads of the program do to the files, one locked access at a time: any state is
  saved, a context is saved, the flag is set, a record is appended.\<close>

inductive fs_step :: "op_fs \<Rightarrow> op_fs \<Rightarrow> bool" where
  Save: "fs_step fs (save_state s fs)"
| Context: "fs_step fs (save_context i cx fs)"
| Flag: "fs_step fs (touch_cancel i fs)"
| Append: "fs_step fs (append_result r fs)"

inductive fs_steps :: "op_fs \<Rightarrow> op_fs \<Rightarrow> bool" where
  Done: "fs_steps fs fs"
| More: "fs_steps fs fs1 \<Longrightarrow> fs_step fs1 fs2 \<Longrightarrow> fs_steps fs fs2"

inductive_cases fs_stepE: "fs_step fs fs'"

section \<open>Lemmas\<close>

lemma load_state_Inr: "load_state i fs = Inr s \<longleftrightarrow> od_state (fs i) = Some s"
  by (simp add: load_state_def split: option.split)

lemma save_state_other [simp]: "i \<noteq> op_id s \<Longrightarrow> save_state s fs i = fs i"
  by (simp add: save_state_def Let_def split: option.split)

lemma save_state_files [simp]:
  "od_cancel (save_state s fs i) = od_cancel (fs i)" "od_results (save_state s fs i) = od_results (fs i)"
  "od_context (save_state s fs i) = od_context (fs i)"
  by (simp_all add: save_state_def Let_def split: option.split)

lemma other_files_state [simp]:
  "od_state (save_context i cx fs j) = od_state (fs j)" "od_state (touch_cancel i fs j) = od_state (fs j)"
  "od_state (append_result r fs j) = od_state (fs j)"
  by (simp_all add: save_context_def touch_cancel_def append_result_def Let_def)

text \<open>A save either writes the state or leaves a terminal one.\<close>

lemma save_state_cases:
  "od_state (save_state s fs (op_id s)) = Some s \<or>
   (\<exists>cur. od_state (fs (op_id s)) = Some cur \<and> is_terminal (op_state cur) \<and> op_state cur \<noteq> op_state s \<and> save_state s fs = fs)"
  by (auto simp: save_state_def can_replace_def Let_def split: option.splits)

lemma int_str_injective: "int_str i = int_str j \<Longrightarrow> i = j"
  by (metis option.inject py_int_int_str)

lemma result_file_inj: "result_file a = result_file b \<longleftrightarrow> a = b"
  by (auto simp: result_file_def dest: int_str_injective)

lemma mset_append_line: "mset (concat (map snd (append_line f r fl))) = add_mset r (mset (concat (map snd fl)))"
  by (induction f r fl rule: append_line.induct) auto

lemma fst_append_line: "fst ` set (append_line f r fl) = insert f (fst ` set fl)"
  by (induction f r fl rule: append_line.induct) auto

lemma distinct_append_line: "distinct (map fst fl) \<Longrightarrow> distinct (map fst (append_line f r fl))"
proof (induction f r fl rule: append_line.induct)
  case (1 f r)
  then show ?case by simp
next
  case (2 f r g rs rest)
  then show ?case using fst_append_line [of f r rest] by (auto simp flip: set_map)
qed

lemma append_line_lookup:
  "map_of (append_line f r fl) g =
     (if g = f then Some ((case map_of fl f of None \<Rightarrow> [] | Some rs \<Rightarrow> rs) @ [r]) else map_of fl g)"
  by (induction f r fl rule: append_line.induct) auto

text \<open>The result files after some records were appended: one file per group, holding the group's
  records in the order they came.\<close>

definition files_hold :: "linkage list \<Rightarrow> (string \<times> linkage list) list \<Rightarrow> bool" where
  "files_hold rs fl \<longleftrightarrow> distinct (map fst fl) \<and> fst ` set fl = result_file ` lk_sg ` set rs \<and>
     mset (concat (map snd fl)) = mset rs \<and>
     (\<forall>sg. map_of fl (result_file sg) =
        (if sg \<in> lk_sg ` set rs then Some (filter (\<lambda>r. lk_sg r = sg) rs) else None))"

lemma files_hold_Nil: "files_hold [] []"
  by (simp add: files_hold_def)

lemma filter_absent: "sg \<notin> lk_sg ` set rs \<Longrightarrow> filter (\<lambda>r. lk_sg r = sg) rs = []"
  by (auto simp: filter_empty_conv)

lemma mset_concat_snd: "mset (concat (map snd xs)) = (\<Sum>x \<in># mset xs. mset (snd x))"
  by (induction xs) simp_all

lemma files_hold_append:
  assumes "files_hold rs fl"
  shows "files_hold (rs @ [r]) (append_line (result_file (lk_sg r)) r fl)"
proof -
  have m: "map_of fl (result_file sg) = (if sg \<in> lk_sg ` set rs then Some (filter (\<lambda>r. lk_sg r = sg) rs) else None)" for sg
    using assms by (simp add: files_hold_def)
  have "map_of (append_line (result_file (lk_sg r)) r fl) (result_file sg) =
      (if sg \<in> lk_sg ` set (rs @ [r]) then Some (filter (\<lambda>r. lk_sg r = sg) (rs @ [r])) else None)" for sg
    unfolding append_line_lookup result_file_inj m using filter_absent [of "lk_sg r" rs] by simp
  moreover have "distinct (map fst (append_line (result_file (lk_sg r)) r fl))"
    "fst ` set (append_line (result_file (lk_sg r)) r fl) = result_file ` lk_sg ` set (rs @ [r])"
    "mset (concat (map snd (append_line (result_file (lk_sg r)) r fl))) = mset (rs @ [r])"
    using assms by (simp_all add: files_hold_def fst_append_line mset_append_line distinct_append_line)
  ultimately show ?thesis unfolding files_hold_def by blast
qed

lemma files_hold_sort:
  assumes "files_hold rs fl"
  shows "files_hold rs (sort_key fst fl)"
proof -
  have d: "distinct (map fst fl)" using assms by (simp add: files_hold_def)
  have ds: "distinct (map fst (sort_key fst fl))"
    using d by (metis distinct_map distinct_sort set_sort)
  have "map_of (sort_key fst fl) k = map_of fl k" for k
  proof (cases "map_of fl k")
    case None
    then have "map_of (sort_key fst fl) k = None" unfolding map_of_eq_None_iff by simp
    with None show ?thesis by simp
  next
    case (Some v)
    then have "(k, v) \<in> set (sort_key fst fl)" by (simp add: map_of_SomeD)
    with ds Some show ?thesis by (simp add: map_of_is_SomeI)
  qed
  moreover have "mset (concat (map snd (sort_key fst fl))) = mset (concat (map snd fl))"
    by (simp add: mset_concat_snd)
  ultimately show ?thesis using assms ds by (simp add: files_hold_def)
qed

lemma files_hold_group:
  assumes "files_hold rs fl"
  shows "filter (\<lambda>r. lk_sg r = sg) (concat (map snd fl)) = filter (\<lambda>r. lk_sg r = sg) rs"
proof -
  have pure: "(f, ls) \<in> set fl \<Longrightarrow> \<exists>g. f = result_file g \<and> (\<forall>r \<in> set ls. lk_sg r = g)" for f ls
  proof -
    assume m: "(f, ls) \<in> set fl"
    then have "f \<in> result_file ` lk_sg ` set rs" using assms by (force simp: files_hold_def)
    then obtain g where g: "f = result_file g" "g \<in> lk_sg ` set rs" by blast
    have "map_of fl f = Some ls" using m assms by (simp add: files_hold_def)
    with g assms have "ls = filter (\<lambda>r. lk_sg r = g) rs" by (simp add: files_hold_def)
    with g show ?thesis by auto
  qed
  have sel: "filter (\<lambda>r. lk_sg r = sg) (concat (map snd xs)) =
      (case map_of xs (result_file sg) of None \<Rightarrow> [] | Some ls \<Rightarrow> ls)"
    if "distinct (map fst xs)" "set xs \<subseteq> set fl" for xs
    using that
  proof (induction xs)
    case Nil
    then show ?case by simp
  next
    case (Cons x xs)
    obtain f ls where x: "x = (f, ls)" by (cases x)
    obtain g where g: "f = result_file g" "\<forall>r \<in> set ls. lk_sg r = g"
      using pure [of f ls] Cons.prems(2) x by auto
    have ih: "filter (\<lambda>r. lk_sg r = sg) (concat (map snd xs)) =
      (case map_of xs (result_file sg) of None \<Rightarrow> [] | Some ls \<Rightarrow> ls)"
      using Cons by simp
    show ?case
    proof (cases "g = sg")
      case True
      then have "map_of xs (result_file sg) = None"
        using Cons.prems(1) g(1) x by (simp add: map_of_eq_None_iff)
      with True ih g x show ?thesis by (simp add: filter_True)
    next
      case False
      then have "filter (\<lambda>r. lk_sg r = sg) ls = []" using g(2) by (auto simp: filter_empty_conv)
      with False ih g x show ?thesis by (simp add: result_file_inj)
    qed
  qed
  have "filter (\<lambda>r. lk_sg r = sg) rs = []" if "sg \<notin> lk_sg ` set rs"
    using that by (auto simp: filter_empty_conv)
  with sel [of fl] assms show ?thesis by (auto simp: files_hold_def)
qed

lemma results_after_appends:
  assumes "\<forall>r \<in> set rs. lk_operation r = i" and "files_hold old (od_results (fs i))"
  shows "files_hold (old @ rs) (od_results (fold append_result rs fs i))"
  using assms
proof (induction rs arbitrary: old fs)
  case Nil
  then show ?case by simp
next
  case (Cons r rs)
  have "files_hold (old @ [r]) (od_results (append_result r fs i))"
    using files_hold_append [OF Cons.prems(2)] Cons.prems(1) by (simp add: append_result_def Let_def)
  from Cons.IH [of "old @ [r]" "append_result r fs"] this Cons.prems(1) show ?case by simp
qed

section \<open>Properties\<close>

text \<open>C11: A finished operation stays as it finished: whatever threads save, flag or append afterwards, its
  persisted state is still the same terminal state.\<close>

theorem terminal_state_sticks:
  assumes "fs_steps fs fs'" and "load_state i fs = Inr s" and "is_terminal (op_state s)"
  shows "\<exists>s'. load_state i fs' = Inr s' \<and> op_state s' = op_state s"
  using assms(1,2)
proof (induction rule: fs_steps.induct)
  case (Done fs)
  then show ?case by blast
next
  case (More fs fs1 fs2)
  then obtain s1 where s1: "od_state (fs1 i) = Some s1" "op_state s1 = op_state s" by (auto simp: load_state_Inr)
  show ?case
  proof (rule fs_stepE [OF More.hyps(2)])
    fix s2
    assume fs2: "fs2 = save_state s2 fs1"
    show ?thesis
    proof (cases "op_id s2 = i")
      case True
      then show ?thesis
        using save_state_cases [of s2 fs1] s1 assms(3) unfolding fs2 load_state_Inr
        by (auto simp: save_state_def can_replace_def Let_def)
    next
      case False
      with s1 show ?thesis by (auto simp: fs2 load_state_Inr)
    qed
  qed (use s1 in \<open>auto simp: load_state_Inr\<close>)
qed

definition demo_request :: op_request where
  "demo_request = \<lparr>rq_groups = [2, 4], rq_macs = [''m1'', ''m2''], rq_channels = [],
     rq_execution = \<lparr>ex_workers = 2, ex_retries = 1, ex_delay = 0, ex_modem_timeout = 10, ex_overall = 100\<rparr>\<rparr>"

definition demo_fs :: op_fs where
  "demo_fs = snd (create_operation ''op1'' 100 demo_request None (\<lambda>_. empty_dir))"

definition demo_op :: operation where
  "demo_op = fst (create_operation ''op1'' 100 demo_request None (\<lambda>_. empty_dir))"

lemma demo_fs_state: "od_state (demo_fs ''op1'') = Some demo_op" "op_id demo_op = ''op1''"
  "op_state demo_op = OpQueued" "od_results (demo_fs ''op1'') = []" "od_cancel (demo_fs ''op1'') = False"
  by (simp_all add: demo_fs_def demo_op_def create_operation_def save_state_def empty_dir_def Let_def)

lemma terminal_state_sticks_witness:
  "\<exists>s'. load_state ''op1'' (save_state demo_op (save_state (demo_op\<lparr>op_state := OpFailed\<rparr>) demo_fs)) = Inr s' \<and>
     op_state s' = OpFailed"
proof -
  let ?s = "demo_op\<lparr>op_state := OpFailed\<rparr>"
  have "fs_steps (save_state ?s demo_fs) (save_state demo_op (save_state ?s demo_fs))"
    by (rule fs_steps.More [OF fs_steps.Done fs_step.Save])
  moreover have "load_state ''op1'' (save_state ?s demo_fs) = Inr ?s"
    by (simp add: load_state_Inr save_state_def demo_fs_state can_replace_def is_terminal_def Let_def)
  ultimately show ?thesis
    using terminal_state_sticks [of _ _ "''op1''" ?s] by (simp add: is_terminal_def)
qed

text \<open>Results come back as they were appended: the loaded records are the appended ones with their
  multiplicities, each group's in the order they were appended, and the counts agree.\<close>

theorem results_roundtrip:
  assumes "od_results (fs i) = []" and "\<forall>r \<in> set rs. lk_operation r = i"
    and "fs' = fold append_result rs fs"
  shows "mset (load_result_records i None fs') = mset rs \<and>
    (\<forall>sg. filter (\<lambda>r. lk_sg r = sg) (load_result_records i None fs') = filter (\<lambda>r. lk_sg r = sg) rs) \<and>
    count_result_records i fs' = int (length rs) \<and> count_result_files i fs' = int (card (lk_sg ` set rs))"
proof -
  have h: "files_hold rs (list_result_files i fs')"
    using files_hold_sort [OF results_after_appends [OF assms(2), of "[]" fs]] assms(1)
    by (simp add: files_hold_Nil list_result_files_def assms(3))
  have m: "mset (load_result_records i None fs') = mset rs"
    using h by (simp add: load_result_records_def files_hold_def Let_def)
  have "count_result_records i fs' = int (length (load_result_records i None fs'))"
    by (simp add: count_result_records_def load_result_records_def length_concat o_def)
  also have "\<dots> = int (length rs)" using m by (metis size_mset)
  finally have c: "count_result_records i fs' = int (length rs)" .
  have "length (list_result_files i fs') = card (fst ` set (list_result_files i fs'))"
    using h by (metis distinct_card files_hold_def length_map list.set_map)
  also have "\<dots> = card (result_file ` lk_sg ` set rs)" using h by (simp add: files_hold_def)
  also have "\<dots> = card (lk_sg ` set rs)" by (rule card_image) (simp add: inj_on_def result_file_inj)
  finally have "count_result_files i fs' = int (card (lk_sg ` set rs))" by (simp add: count_result_files_def)
  with m c files_hold_group [OF h] show ?thesis by (simp add: load_result_records_def Let_def)
qed

definition demo_link :: "int \<Rightarrow> string \<Rightarrow> linkage" where
  "demo_link sg mac = \<lparr>lk_operation = ''op1'', lk_sg = sg, lk_mac = mac, lk_ip = None,
     lk_stage = \<lparr>sr_stage = CaptureStage, sr_status = StatusSuccess, sr_reason = None, sr_channel = None,
       sr_transactions = [], sr_files = [], sr_message = '''', sr_started = 0, sr_finished = 0\<rparr>\<rparr>"

lemma results_roundtrip_witness:
  "count_result_records ''op1'' (fold append_result [demo_link 4 ''m2'', demo_link 10 ''m3'', demo_link 4 ''m1''] demo_fs) = 3 \<and>
   filter (\<lambda>r. lk_sg r = 4)
     (load_result_records ''op1'' None (fold append_result [demo_link 4 ''m2'', demo_link 10 ''m3'', demo_link 4 ''m1''] demo_fs)) =
   [demo_link 4 ''m2'', demo_link 4 ''m1'']"
proof -
  let ?rs = "[demo_link 4 ''m2'', demo_link 10 ''m3'', demo_link 4 ''m1'']"
  have op: "\<forall>r \<in> set ?rs. lk_operation r = ''op1''" by (simp add: demo_link_def)
  note r = results_roundtrip [of demo_fs "''op1''" ?rs "fold append_result ?rs demo_fs", OF demo_fs_state(4) op refl]
  have "filter (\<lambda>r. lk_sg r = 4) ?rs = [demo_link 4 ''m2'', demo_link 4 ''m1'']"
    by (simp add: demo_link_def)
  with r [THEN conjunct2, THEN conjunct1] r [THEN conjunct2, THEN conjunct2, THEN conjunct1]
  show ?thesis by (simp del: filter.simps)
qed

text \<open>The results endpoint returns all records or none: at most the inline maximum are included, all of
  them when they fit, and the counts it reports are those of the files.\<close>

theorem inline_results_bounded:
  assumes "load_state i fs = Inr s" and "0 \<le> max_inline"
  shows "\<exists>su rs msg. service_results max_inline i fs = (StatusSuccess, msg, su, rs) \<and>
    su_included su = int (length rs) \<and> su_included su \<le> max_inline \<and>
    su_records su = int (length (load_result_records i None fs)) \<and> su_files su = count_result_files i fs \<and>
    rs = (if su_records su \<le> max_inline then load_result_records i None fs else [])"
proof -
  have "count_result_records i fs = int (length (load_result_records i None fs))"
    by (simp add: count_result_records_def load_result_records_def length_concat o_def)
  with assms show ?thesis by (simp add: service_results_def Let_def)
qed

lemma inline_results_bounded_witness:
  "\<exists>su rs msg. service_results 2 ''op1'' demo_fs = (StatusSuccess, msg, su, rs) \<and> su_included su \<le> 2"
proof -
  have "load_state ''op1'' demo_fs = Inr demo_op" by (simp add: load_state_Inr demo_fs_state)
  from inline_results_bounded [OF this, of 2] show ?thesis by auto
qed

end
