(* ===== verification/Scope.thy ===== *)
theory Scope
  imports SgwStore
begin

text \<open>
  Which modems an operation is about, \<open>api/common/service/pnm/scope.py\<close>, and how a modem's
  management address is found, \<open>api/common/service/pnm/modem.py\<close>; both read the serving group
  cache.  A store comes with the list of its keys.  The address parsers of the pypnm package are
  parameters: \<open>hex\<close> is \<open>InetGenerate.hex_to_inet\<close> and \<open>inet\<close> the text of \<open>Inet(...)\<close>, \<open>None\<close> where
  they raise.
\<close>

section \<open>The resolver\<close>

type_synonym keyed_store = "store \<times> int list"

text \<open>The resolver keeps the store it was given or has loaded; \<open>loader\<close> is what the runtime returns
  now (\<open>None\<close> without a loader or a store).\<close>

definition resolve_store :: "keyed_store option \<Rightarrow> keyed_store option \<Rightarrow> keyed_store option" where
  "resolve_store kept loader = (case kept of Some s \<Rightarrow> Some s | None \<Rightarrow> loader)"

definition load_cache_entries :: "store \<Rightarrow> int list \<Rightarrow> (int \<times> cable_modem list) list" where
  "load_cache_entries s sgs =
     List.map_filter (\<lambda>sg. map_option (\<lambda>e. (sg, pl_modems (sn_payload (ce_snapshot e)))) (store_get s sg)) sgs"

text \<open>\<open>mac_to_sg_ids\<close>: a group for every modem with the address, in the order of the cache.\<close>

definition groups_of_mac :: "(int \<times> cable_modem list) list \<Rightarrow> string \<Rightarrow> int list" where
  "groups_of_mac es mac = concat (map (\<lambda>(sg, ms). map (\<lambda>_. sg) (filter (\<lambda>m. cm_mac m = mac) ms)) es)"

definition expand_macs :: "string list \<Rightarrow> (int \<times> cable_modem list) list \<Rightarrow> int list \<times> string list" where
  "expand_macs macs es =
     (let ps = concat (map (\<lambda>mac. map (\<lambda>sg. (sg, mac)) (groups_of_mac es mac)) macs)
      in (map fst ps, map snd ps))"

definition expand_modems :: "(int \<times> cable_modem list) list \<Rightarrow> int list \<times> string list" where
  "expand_modems es =
     (let ps = concat (map (\<lambda>(sg, ms). map (\<lambda>m. (sg, cm_mac m)) ms) es)
      in (map fst ps, map snd ps))"

text \<open>The answer, and the store the resolver keeps afterwards.\<close>

definition resolve_modem_scope ::
  "keyed_store option \<Rightarrow> keyed_store option \<Rightarrow> int list \<Rightarrow> string list \<Rightarrow>
   (int list \<times> string list) \<times> keyed_store option" where
  "resolve_modem_scope kept loader sgs macs =
     (if sgs \<noteq> [] \<and> macs \<noteq> [] then ((sgs, macs), kept)
      else case resolve_store kept loader of
             None \<Rightarrow> ((sgs, macs), kept)
           | Some (s, keys) \<Rightarrow>
               (let ids = (if sgs \<noteq> [] then sgs else store_get_ids keys)
                in if ids = [] then (([], []), Some (s, keys))
                   else (let es = load_cache_entries s ids
                         in (if macs \<noteq> [] then expand_macs macs es else expand_modems es, Some (s, keys)))))"

section \<open>The address of a modem\<close>

definition normalize_ip :: "(string \<Rightarrow> string option) \<Rightarrow> string \<Rightarrow> string" where
  "normalize_ip hex raw =
     (let v = py_strip raw
      in if v = '''' then ''''
         else if \<not> py_startswith v ''0x'' then v
         else (case hex (drop 2 v) of None \<Rightarrow> v | Some a \<Rightarrow> a))"

definition select_ip :: "(string \<Rightarrow> string option) \<Rightarrow> cable_modem \<Rightarrow> string option" where
  "select_ip hex m =
     (let v4 = normalize_ip hex (cm_ipv4 m); v6 = normalize_ip hex (cm_ipv6 m)
      in if v4 \<notin> {'''', ''0.0.0.0''} then Some v4
         else if v6 \<notin> {'''', ''::''} then Some v6 else None)"

definition resolve_modem_ip ::
  "(string \<Rightarrow> string option) \<Rightarrow> (string \<Rightarrow> string option) \<Rightarrow> keyed_store option \<Rightarrow> keyed_store option \<Rightarrow>
   int \<Rightarrow> string \<Rightarrow> string option \<times> keyed_store option" where
  "resolve_modem_ip hex inet kept runtime sg mac =
     (case (case kept of Some s \<Rightarrow> Some s | None \<Rightarrow> runtime) of
        None \<Rightarrow> (None, kept)
      | Some (s, keys) \<Rightarrow>
          (case store_get s sg of
             None \<Rightarrow> (None, Some (s, keys))
           | Some e \<Rightarrow>
               (case find (\<lambda>m. cm_mac m = mac) (pl_modems (sn_payload (ce_snapshot e))) of
                  None \<Rightarrow> (None, Some (s, keys))
                | Some m \<Rightarrow>
                    (case select_ip hex m of
                       None \<Rightarrow> (None, Some (s, keys))
                     | Some ip \<Rightarrow> (inet ip, Some (s, keys))))))"

section \<open>Lemmas\<close>

text \<open>A modem with the address is in the group's cached snapshot.\<close>

definition in_group :: "store \<Rightarrow> int \<Rightarrow> string \<Rightarrow> bool" where
  "in_group s sg mac = (case s sg of
     None \<Rightarrow> False | Some e \<Rightarrow> mac \<in> cm_mac ` set (pl_modems (sn_payload (ce_snapshot e))))"

lemma in_cache_entries:
  "(sg, ms) \<in> set (load_cache_entries s sgs) \<longleftrightarrow>
   sg \<in> set sgs \<and> (\<exists>e. s sg = Some e \<and> ms = pl_modems (sn_payload (ce_snapshot e)))"
proof -
  have "set (load_cache_entries s sgs) = {(sg, pl_modems (sn_payload (ce_snapshot e))) |sg e. sg \<in> set sgs \<and> s sg = Some e}"
  proof (induction sgs)
    case Nil
    then show ?case by (simp add: load_cache_entries_def map_filter_simps)
  next
    case (Cons g gs)
    then show ?case
      by (cases "s g") (auto simp: load_cache_entries_def map_filter_simps store_get_def)
  qed
  then show ?thesis by auto
qed

lemma in_groups_of_mac:
  "sg \<in> set (groups_of_mac (load_cache_entries s sgs) mac) \<longleftrightarrow> sg \<in> set sgs \<and> in_group s sg mac"
  by (auto simp: groups_of_mac_def in_cache_entries in_group_def split: option.splits) (force simp: in_cache_entries)

lemma expand_macs_pairs:
  "set (zip (fst (expand_macs macs (load_cache_entries s sgs))) (snd (expand_macs macs (load_cache_entries s sgs)))) =
   {(sg, mac). mac \<in> set macs \<and> sg \<in> set sgs \<and> in_group s sg mac}"
  by (auto simp: expand_macs_def Let_def zip_map_fst_snd in_groups_of_mac)

lemma expand_modems_pairs:
  "set (zip (fst (expand_modems (load_cache_entries s sgs))) (snd (expand_modems (load_cache_entries s sgs)))) =
   {(sg, mac). sg \<in> set sgs \<and> in_group s sg mac}"
  by (auto simp: expand_modems_def Let_def zip_map_fst_snd in_cache_entries in_group_def split: option.splits)
     (force simp: in_cache_entries)

lemma expand_lengths:
  "length (fst (expand_macs macs es)) = length (snd (expand_macs macs es))"
  "length (fst (expand_modems es)) = length (snd (expand_modems es))"
  by (simp_all add: expand_macs_def expand_modems_def Let_def)

section \<open>Properties\<close>

text \<open>Leaving the groups or the modems open selects from the cache: the answer pairs groups and modems
  position by position, and the pairs are exactly the modems of the cached snapshots that match
  the request, each with its own group.\<close>

theorem open_scope_pairs:
  assumes "sgs = [] \<or> macs = []" and "resolve_store kept loader = Some (s, keys)" and "set keys = dom s"
    and "resolve_modem_scope kept loader sgs macs = ((rsgs, rmacs), kept')"
  shows "length rsgs = length rmacs \<and> kept' = Some (s, keys) \<and>
    set (zip rsgs rmacs) = {(sg, mac). in_group s sg mac \<and> (sgs \<noteq> [] \<longrightarrow> sg \<in> set sgs) \<and> (macs \<noteq> [] \<longrightarrow> mac \<in> set macs)}"
proof -
  define ids where "ids = (if sgs \<noteq> [] then sgs else store_get_ids keys)"
  let ?es = "load_cache_entries s ids"
  have ids: "in_group s sg mac \<Longrightarrow> (sg \<in> set ids \<longleftrightarrow> (sgs \<noteq> [] \<longrightarrow> sg \<in> set sgs))" for sg mac
    using assms(3) by (auto simp: ids_def store_get_ids_def in_group_def split: option.splits)
  show ?thesis
  proof (cases "ids = []")
    case True
    then have e: "sgs = []" "sort keys = []" by (auto simp: ids_def store_get_ids_def split: if_splits)
    have "set keys = set (sort keys)" by (rule set_sort [symmetric])
    with e assms(3) have "dom s = {}" "sgs = []" by simp_all
    have "resolve_modem_scope kept loader sgs macs = (([], []), Some (s, keys))"
      using e assms(2) by (simp add: resolve_modem_scope_def store_get_ids_def Let_def)
    with \<open>dom s = {}\<close> assms(4) show ?thesis by (auto simp: in_group_def)
  next
    case False
    have r: "(rsgs, rmacs) = (if macs \<noteq> [] then expand_macs macs ?es else expand_modems ?es)" "kept' = Some (s, keys)"
      using assms(1,2,4) False by (auto simp: resolve_modem_scope_def ids_def [symmetric] Let_def split: if_splits)
    have f: "rsgs = fst (if macs \<noteq> [] then expand_macs macs ?es else expand_modems ?es)"
      "rmacs = snd (if macs \<noteq> [] then expand_macs macs ?es else expand_modems ?es)"
      using r(1) by (metis fst_conv, metis snd_conv)
    show ?thesis
    proof (cases "macs = []")
      case True
      with f expand_lengths(2) have "length rsgs = length rmacs"
        "set (zip rsgs rmacs) = {(sg, mac). sg \<in> set ids \<and> in_group s sg mac}"
        by (simp_all add: expand_modems_pairs)
      with True r(2) ids show ?thesis by auto
    next
      case False
      with f expand_lengths(1) have "length rsgs = length rmacs"
        "set (zip rsgs rmacs) = {(sg, mac). mac \<in> set macs \<and> sg \<in> set ids \<and> in_group s sg mac}"
        by (simp_all add: expand_macs_pairs)
      with False r(2) ids show ?thesis by auto
    qed
  qed
qed

definition demo_modem :: "string \<Rightarrow> cable_modem" where
  "demo_modem mac = \<lparr>cm_mac = mac, cm_ipv4 = ''10.0.0.2'', cm_ipv6 = '''', cm_ds_set = 1, cm_us_set = 2,
     cm_status = 8, cm_sysdescr = ''''\<rparr>"

definition group_entry :: "int \<Rightarrow> string list \<Rightarrow> cache_entry" where
  "group_entry sg macs = \<lparr>ce_sg = sg, ce_snapshot = \<lparr>sn_sg = sg,
     sn_payload = empty_payload\<lparr>pl_modems := map demo_modem macs\<rparr>, sn_metadata = default_metadata\<rparr>\<rparr>"

definition two_groups :: store where
  "two_groups = [2 \<mapsto> group_entry 2 [''m1''], 4 \<mapsto> group_entry 4 [''m2'', ''m3'']]"

lemma open_scope_pairs_witness:
  "\<exists>rsgs rmacs kept'. resolve_modem_scope None (Some (two_groups, [4, 2])) [] [''m3'', ''m1''] = ((rsgs, rmacs), kept') \<and>
     set (zip rsgs rmacs) = {(4, ''m3''), (2, ''m1'')}"
proof -
  obtain rsgs rmacs kept' where r: "resolve_modem_scope None (Some (two_groups, [4, 2])) [] [''m3'', ''m1''] = ((rsgs, rmacs), kept')"
    by (metis prod.exhaust)
  have "resolve_store None (Some (two_groups, [4, 2])) = Some (two_groups, [4, 2])" by (simp add: resolve_store_def)
  moreover have "set [4, 2] = dom two_groups" by (auto simp: two_groups_def)
  ultimately have "set (zip rsgs rmacs) = {(sg, mac). in_group two_groups sg mac \<and> mac \<in> {''m3'', ''m1''}}"
    using open_scope_pairs [OF _ _ _ r] by simp
  also have "\<dots> = {(4, ''m3''), (2, ''m1'')}"
    by (auto simp: in_group_def two_groups_def group_entry_def demo_modem_def split: if_splits)
  finally show ?thesis using r by blast
qed

text \<open>The resolver never lets go of the store it has loaded: once a request has loaded a store, every
  later request reads that one, whatever store the runtime has put in its place since.\<close>

theorem resolver_keeps_first_store:
  assumes "resolve_modem_scope None (Some first) sgs macs = (scope, kept)" and "sgs = [] \<or> macs = []"
  shows "resolve_modem_scope kept (Some new) sgs' macs' = resolve_modem_scope (Some first) None sgs' macs'"
proof -
  have "kept = Some first"
    using assms by (cases first) (auto simp: resolve_modem_scope_def resolve_store_def Let_def split: if_splits)
  then show ?thesis by (simp add: resolve_modem_scope_def resolve_store_def)
qed

lemma resolver_keeps_first_store_witness:
  "\<exists>scope kept. resolve_modem_scope None (Some (two_groups, [4, 2])) [] [] = (scope, kept) \<and>
     fst (resolve_modem_scope kept (Some (two_groups(4 := None), [2])) [4] []) = ([4, 4], [''m2'', ''m3''])"
proof -
  obtain scope kept where r: "resolve_modem_scope None (Some (two_groups, [4, 2])) [] [] = (scope, kept)"
    by (metis prod.exhaust)
  have "fst (resolve_modem_scope (Some (two_groups, [4, 2])) None [4] []) = ([4, 4], [''m2'', ''m3''])"
    by (simp add: resolve_modem_scope_def resolve_store_def load_cache_entries_def expand_modems_def map_filter_simps
        store_get_def two_groups_def group_entry_def demo_modem_def Let_def)
  with resolver_keeps_first_store [OF r, of "(two_groups(4 := None), [2])" "[4]" "[]"] r show ?thesis by auto
qed

text \<open>A modem's address comes from its group's snapshot: it is the first modem with the address there, its
  IPv4 address when it has one and its IPv6 address otherwise, and a modem that is not in the group
  has none.\<close>

theorem modem_ip_from_group:
  assumes "resolve_modem_ip hex inet kept runtime sg mac = (Some ip, kept')"
  shows "\<exists>s keys (m :: cable_modem). kept' = Some (s, keys) \<and> in_group s sg mac \<and> cm_mac m = mac \<and>
    (if normalize_ip hex (cm_ipv4 m) \<notin> {'''', ''0.0.0.0''} then inet (normalize_ip hex (cm_ipv4 m)) = Some ip
     else normalize_ip hex (cm_ipv6 m) \<notin> {'''', ''::''} \<and> inet (normalize_ip hex (cm_ipv6 m)) = Some ip)"
proof -
  obtain s keys where s: "(case kept of Some s \<Rightarrow> Some s | None \<Rightarrow> runtime) = Some (s, keys)"
    using assms by (auto simp: resolve_modem_ip_def split: option.splits)
  obtain e where e: "s sg = Some e"
    using assms s by (auto simp: resolve_modem_ip_def store_get_def split: option.splits)
  obtain m where m: "find (\<lambda>m. cm_mac m = mac) (pl_modems (sn_payload (ce_snapshot e))) = Some m"
    using assms s e by (auto simp: resolve_modem_ip_def store_get_def split: option.splits)
  have k: "kept' = Some (s, keys)" and sel: "select_ip hex m \<noteq> None" "inet (the (select_ip hex m)) = Some ip"
    using assms s e m by (auto simp: resolve_modem_ip_def store_get_def split: option.splits)
  have mm: "cm_mac m = mac" "m \<in> set (pl_modems (sn_payload (ce_snapshot e)))"
    using m by (auto simp: find_Some_iff in_set_conv_nth)
  then have "in_group s sg mac" using e by (auto simp: in_group_def)
  moreover have "if normalize_ip hex (cm_ipv4 m) \<notin> {'''', ''0.0.0.0''} then inet (normalize_ip hex (cm_ipv4 m)) = Some ip
     else normalize_ip hex (cm_ipv6 m) \<notin> {'''', ''::''} \<and> inet (normalize_ip hex (cm_ipv6 m)) = Some ip"
  proof (cases "normalize_ip hex (cm_ipv4 m) \<notin> {'''', ''0.0.0.0''}")
    case True
    then have "select_ip hex m = Some (normalize_ip hex (cm_ipv4 m))" by (simp add: select_ip_def Let_def)
    with sel(2) True show ?thesis by simp
  next
    case False
    then have v6: "normalize_ip hex (cm_ipv6 m) \<notin> {'''', ''::''}"
      "select_ip hex m = Some (normalize_ip hex (cm_ipv6 m))"
      using sel(1) unfolding select_ip_def Let_def by (metis, metis)
    with sel(2) False show ?thesis by simp
  qed
  ultimately show ?thesis using k mm(1) by (intro exI [of _ s] exI [of _ keys] exI [of _ m] conjI)
qed

lemma modem_ip_from_group_witness:
  "\<exists>kept'. resolve_modem_ip Some Some None (Some (two_groups, [4, 2])) 4 ''m3'' = (Some ''10.0.0.2'', kept') \<and>
     (\<exists>s keys. kept' = Some (s, keys) \<and> in_group s 4 ''m3'')"
proof -
  have r: "resolve_modem_ip Some Some None (Some (two_groups, [4, 2])) 4 ''m3'' = (Some ''10.0.0.2'', Some (two_groups, [4, 2]))"
    by (simp add: resolve_modem_ip_def store_get_def two_groups_def group_entry_def demo_modem_def select_ip_def
        normalize_ip_def py_strip_def py_lstrip_def py_space_def py_startswith_def Let_def)
  from modem_ip_from_group [OF r] r show ?thesis by blast
qed

end
