(* ===== verification/OperationRunner.thy ===== *)
theory OperationRunner
  imports OperationStore
begin

text \<open>
  The background runner of an operation, \<open>api/common/operations/runner.py\<close>.  The executor's
  futures are numbers; one pass of the scheduling loop reads its inputs from a \<open>tick\<close>: the clock
  readings, which futures are done and with what, and whether another thread asks for
  cancellation meanwhile.  The list of ticks is the schedule of a run.
\<close>

section \<open>Results\<close>

record work_item =
  wi_operation :: string
  wi_sg :: int
  wi_mac :: string
  wi_attempt :: int

record worker_result =
  wr_ip :: "string option"
  wr_stages :: "stage_result list"

definition find_stage :: "worker_result \<Rightarrow> op_stage \<Rightarrow> stage_result option" where
  "find_stage r st = find (\<lambda>s. sr_stage s = st) (wr_stages r)"

definition final_status :: "worker_result \<Rightarrow> status_code" where
  "final_status r =
     (case find_stage r CaptureStage of
        Some s \<Rightarrow> sr_status s
      | None \<Rightarrow>
          (case find_stage r PrecheckStage of
             Some s \<Rightarrow> sr_status s
           | None \<Rightarrow>
               (case find_stage r EligibilityStage of
                  Some s \<Rightarrow> sr_status s
                | None \<Rightarrow> StatusFailure)))"

definition plain_stage :: "op_stage \<Rightarrow> status_code \<Rightarrow> failure_reason option \<Rightarrow> string \<Rightarrow> int \<Rightarrow> int \<Rightarrow> stage_result" where
  "plain_stage st code reason msg t0 t1 =
     \<lparr>sr_stage = st, sr_status = code, sr_reason = reason, sr_channel = None, sr_transactions = [], sr_files = [],
      sr_message = msg, sr_started = t0, sr_finished = t1\<rparr>"

definition build_stage_results ::
  "status_code \<Rightarrow> string \<Rightarrow> int \<Rightarrow> int \<Rightarrow> bool \<Rightarrow> failure_reason option \<Rightarrow> stage_result list" where
  "build_stage_results code msg t0 t1 capture_only reason =
     (if capture_only
      then [plain_stage EligibilityStage StatusSuccess None '''' t0 t1, plain_stage PrecheckStage StatusSuccess None '''' t0 t1,
            plain_stage CaptureStage code reason msg t0 t1]
      else [plain_stage EligibilityStage code reason msg t0 t1, plain_stage PrecheckStage code reason msg t0 t1,
            plain_stage CaptureStage code reason msg t0 t1])"

text \<open>\<open>code\<close> is what \<open>getattr(ServiceStatusCode, "MEASUREMENT_TIMEOUT", FAILURE)\<close> gives.\<close>

definition timeout_result :: "status_code \<Rightarrow> int \<Rightarrow> worker_result" where
  "timeout_result code now =
     \<lparr>wr_ip = None, wr_stages = build_stage_results code ''per-modem timeout exceeded'' now now True (Some PerModemTimeout)\<rparr>"

definition failure_result :: "string \<Rightarrow> int \<Rightarrow> worker_result" where
  "failure_result msg now =
     \<lparr>wr_ip = None, wr_stages = build_stage_results StatusFailure msg now now True (Some UnknownReason)\<rparr>"

definition default_worker_result :: "int \<Rightarrow> int \<Rightarrow> worker_result" where
  "default_worker_result t0 t1 = \<lparr>wr_ip = None, wr_stages = build_stage_results StatusSuccess ''completed'' t0 t1 False None\<rparr>"

text \<open>A future that raised gives \<open>Inl\<close> of the text of its exception.\<close>

definition resolve_future :: "string + worker_result \<Rightarrow> int \<Rightarrow> worker_result" where
  "resolve_future out now = (case out of Inl msg \<Rightarrow> failure_result msg now | Inr r \<Rightarrow> r)"

definition update_counters :: "worker_result \<Rightarrow> op_counters \<Rightarrow> op_counters" where
  "update_counters r c =
     (let ok = (\<lambda>st. case find_stage r st of None \<Rightarrow> False | Some s \<Rightarrow> sr_status s = StatusSuccess);
          good = (final_status r = StatusSuccess)
      in c\<lparr>oc_eligible := oc_eligible c + (if ok EligibilityStage then 1 else 0),
           oc_precheck := oc_precheck c + (if ok PrecheckStage then 1 else 0),
           oc_started := oc_started c + (if find_stage r CaptureStage \<noteq> None then 1 else 0),
           oc_completed := oc_completed c + 1,
           oc_success := oc_success c + (if good then 1 else 0),
           oc_failed := oc_failed c + (if good then 0 else 1)\<rparr>)"

definition stage_linkage :: "string \<Rightarrow> work_item \<Rightarrow> worker_result \<Rightarrow> stage_result \<Rightarrow> linkage" where
  "stage_linkage i item r s = \<lparr>lk_operation = i, lk_sg = wi_sg item, lk_mac = wi_mac item, lk_ip = wr_ip r, lk_stage = s\<rparr>"

definition persist_stage_records :: "string \<Rightarrow> work_item \<Rightarrow> worker_result \<Rightarrow> op_fs \<Rightarrow> op_fs" where
  "persist_stage_records i item r fs = fold append_result (map (stage_linkage i item r) (wr_stages r)) fs"

section \<open>State changes\<close>

definition transition_to_running :: "int \<Rightarrow> operation \<Rightarrow> operation" where
  "transition_to_running now s =
     s\<lparr>op_state := OpRunning,
       op_stamps := (op_stamps s)\<lparr>ot_started := (if ot_started (op_stamps s) = 0 then now else ot_started (op_stamps s)),
                                  ot_updated := now\<rparr>\<rparr>"

definition touch_times :: "int \<Rightarrow> operation \<Rightarrow> operation" where
  "touch_times now s = s\<lparr>op_stamps := (op_stamps s)\<lparr>ot_updated := now\<rparr>\<rparr>"

definition finish :: "op_kind \<Rightarrow> op_error option \<Rightarrow> int \<Rightarrow> operation \<Rightarrow> operation" where
  "finish k err now s =
     s\<lparr>op_state := k, op_stamps := (op_stamps s)\<lparr>ot_updated := now, ot_finished := now\<rparr>, op_error_summary := err\<rparr>"

text \<open>\<open>_mark_cancelled\<close> and \<open>_mark_failed\<close> read the persisted state again; when it is gone they
  raise and write nothing.\<close>

definition mark_cancelled :: "string \<Rightarrow> int \<Rightarrow> op_fs \<Rightarrow> op_fs" where
  "mark_cancelled i now fs =
     (case load_state i fs of Inl _ \<Rightarrow> fs | Inr s \<Rightarrow> save_state (finish OpCancelled None now s) fs)"

definition mark_failed :: "string \<Rightarrow> string \<Rightarrow> int \<Rightarrow> op_fs \<Rightarrow> op_fs" where
  "mark_failed i msg now fs =
     (case load_state i fs of
        Inl _ \<Rightarrow> fs | Inr s \<Rightarrow> save_state (finish OpFailed (Some \<lparr>er_message = msg, er_detail = ''''\<rparr>) now s) fs)"

definition set_total :: "int \<Rightarrow> operation \<Rightarrow> operation" where
  "set_total n s = s\<lparr>op_counts := (op_counts s)\<lparr>oc_total := n\<rparr>\<rparr>"

section \<open>Work items\<close>

definition build_work_items :: "string \<Rightarrow> string list \<Rightarrow> int list \<Rightarrow> work_item list" where
  "build_work_items i macs sgs =
     map (\<lambda>(k, mac). \<lparr>wi_operation = i, wi_sg = sgs ! (k mod length sgs), wi_mac = mac, wi_attempt = 0\<rparr>) (enumerate 0 macs)"

section \<open>The scheduling loop\<close>

text \<open>The variables of the loop: futures are numbered in the order they are submitted, \<open>pending\<close> and
  \<open>abandoned\<close> are the dictionaries in insertion order.\<close>

type_synonym flight = "nat \<times> work_item \<times> real"

record exec_state =
  xs_queue :: "work_item list"
  xs_pending :: "flight list"
  xs_abandoned :: "flight list"
  xs_retry :: "(real \<times> work_item) list"
  xs_next :: nat
  xs_op :: operation
  xs_fs :: op_fs

record tick =
  tk_deadline :: real
  tk_ready :: real
  tk_submit :: "nat \<Rightarrow> real"
  tk_done :: "nat list"
  tk_late :: "nat list"
  tk_outcome :: "nat \<Rightarrow> string + worker_result"
  tk_check :: real
  tk_retry :: "nat \<Rightarrow> real"
  tk_epoch :: "nat \<Rightarrow> int"
  tk_cancel :: "int option"

definition handle_result ::
  "op_execution \<Rightarrow> real \<Rightarrow> int \<Rightarrow> work_item \<Rightarrow> worker_result \<Rightarrow> exec_state \<Rightarrow> exec_state" where
  "handle_result ex clock now item r x =
     (if final_status r \<noteq> StatusSuccess \<and> wi_attempt item < ex_retries ex
      then (let op = touch_times now (xs_op x)
            in x\<lparr>xs_retry := xs_retry x @ [(clock + ex_delay ex, item\<lparr>wi_attempt := wi_attempt item + 1\<rparr>)],
                 xs_op := op, xs_fs := save_state op (xs_fs x)\<rparr>)
      else (let fs = persist_stage_records (op_id (xs_op x)) item r (xs_fs x);
                op = touch_times now ((xs_op x)\<lparr>op_counts := update_counters r (op_counts (xs_op x))\<rparr>)
            in x\<lparr>xs_op := op, xs_fs := save_state op fs\<rparr>))"

text \<open>The loops inside a pass: move the ready retries to the queue, submit while there is room, abandon
  what timed out, take what is done.\<close>

definition take_ready :: "real \<Rightarrow> exec_state \<Rightarrow> exec_state" where
  "take_ready now x =
     x\<lparr>xs_queue := xs_queue x @ map snd (sort_key fst (filter (\<lambda>(t, _). t \<le> now) (xs_retry x))),
       xs_retry := filter (\<lambda>(t, _). \<not> t \<le> now) (xs_retry x)\<rparr>"

fun submit_ready :: "nat \<Rightarrow> op_execution \<Rightarrow> (nat \<Rightarrow> real) \<Rightarrow> exec_state \<Rightarrow> exec_state" where
  "submit_ready 0 ex clock x = x"
| "submit_ready (Suc n) ex clock x =
     (case xs_queue x of
        [] \<Rightarrow> x
      | item # rest \<Rightarrow>
          if int (length (xs_pending x) + length (xs_abandoned x)) < ex_workers ex
          then submit_ready n ex clock
                 (x\<lparr>xs_queue := rest, xs_pending := xs_pending x @ [(xs_next x, item, clock (xs_next x))],
                    xs_next := Suc (xs_next x)\<rparr>)
          else x)"

definition expired :: "op_execution \<Rightarrow> real \<Rightarrow> real \<Rightarrow> bool" where
  "expired ex now start = (ex_modem_timeout ex \<le> now - start)"

definition timed_out :: "op_execution \<Rightarrow> tick \<Rightarrow> flight list \<Rightarrow> flight list" where
  "timed_out ex tk ps =
     filter (\<lambda>(f, _, start). f \<notin> set (tk_done tk) \<and> f \<notin> set (tk_late tk) \<and> expired ex (tk_check tk) start) ps"

definition drop_flight :: "nat \<Rightarrow> flight list \<Rightarrow> flight list" where
  "drop_flight f ps = filter (\<lambda>(g, _, _). g \<noteq> f) ps"

fun abandon :: "op_execution \<Rightarrow> status_code \<Rightarrow> tick \<Rightarrow> flight list \<Rightarrow> exec_state \<Rightarrow> exec_state" where
  "abandon ex code tk [] x = x"
| "abandon ex code tk ((f, item, start) # rest) x =
     abandon ex code tk rest
       (handle_result ex (tk_retry tk f) (tk_epoch tk f) item (timeout_result code (tk_epoch tk f))
          (x\<lparr>xs_pending := drop_flight f (xs_pending x), xs_abandoned := xs_abandoned x @ [(f, item, start)]\<rparr>))"

fun take_done :: "op_execution \<Rightarrow> status_code \<Rightarrow> tick \<Rightarrow> nat list \<Rightarrow> exec_state \<Rightarrow> exec_state" where
  "take_done ex code tk [] x = x"
| "take_done ex code tk (f # fs) x =
     take_done ex code tk fs
       (if f \<in> fst ` set (xs_abandoned x) then x\<lparr>xs_abandoned := drop_flight f (xs_abandoned x)\<rparr>
        else (case map_of (xs_pending x) f of
                None \<Rightarrow> x
              | Some (item, start) \<Rightarrow>
                  handle_result ex (tk_retry tk f) (tk_epoch tk f) item
                    (if expired ex (tk_check tk) start then timeout_result code (tk_epoch tk f)
                     else resolve_future (tk_outcome tk f) (tk_epoch tk f))
                    (x\<lparr>xs_pending := drop_flight f (xs_pending x)\<rparr>)))"

definition idle :: "exec_state \<Rightarrow> bool" where
  "idle x = (xs_queue x = [] \<and> xs_pending x = [] \<and> xs_abandoned x = [] \<and> xs_retry x = [])"

definition external_cancel :: "int option \<Rightarrow> exec_state \<Rightarrow> exec_state" where
  "external_cancel c x =
     (case c of None \<Rightarrow> x | Some now \<Rightarrow> x\<lparr>xs_fs := snd (request_cancel (op_id (xs_op x)) now (xs_fs x))\<rparr>)"

datatype pass = PassCancelled | PassDeadline | PassOn exec_state

definition loop_pass :: "op_execution \<Rightarrow> status_code \<Rightarrow> real \<Rightarrow> tick \<Rightarrow> exec_state \<Rightarrow> pass" where
  "loop_pass ex code deadline tk x =
     (if is_cancel_requested (op_id (xs_op x)) (xs_fs x) then PassCancelled
      else if deadline \<le> tk_deadline tk then PassDeadline
      else (let x1 = take_ready (tk_ready tk) (external_cancel (tk_cancel tk) x);
                x2 = submit_ready (length (xs_queue x1)) ex (tk_submit tk) x1
            in if xs_pending x2 = [] \<and> xs_abandoned x2 = [] then PassOn x2
               else PassOn (take_done ex code tk (tk_done tk) (abandon ex code tk (timed_out ex tk (xs_pending x2)) x2))))"

datatype ending = EndedIdle | EndedCancelled | EndedDeadline

fun run_loop :: "op_execution \<Rightarrow> status_code \<Rightarrow> real \<Rightarrow> tick list \<Rightarrow> exec_state \<Rightarrow> (ending \<times> exec_state) option" where
  "run_loop ex code deadline tks x =
     (if idle x then Some (EndedIdle, x)
      else case tks of
             [] \<Rightarrow> None
           | tk # rest \<Rightarrow>
               (case loop_pass ex code deadline tk x of
                  PassCancelled \<Rightarrow> Some (EndedCancelled, x)
                | PassDeadline \<Rightarrow> Some (EndedDeadline, x)
                | PassOn x' \<Rightarrow> run_loop ex code deadline rest x'))"

declare run_loop.simps [simp del]

text \<open>After the loop: the terminal state.\<close>

definition conclude :: "string \<Rightarrow> int \<Rightarrow> ending \<times> exec_state \<Rightarrow> op_fs" where
  "conclude i now e =
     (case e of
        (EndedCancelled, x) \<Rightarrow> mark_cancelled i now (xs_fs x)
      | (EndedDeadline, x) \<Rightarrow> mark_failed i ''overall timeout exceeded'' now (xs_fs x)
      | (EndedIdle, x) \<Rightarrow>
          save_state (finish (if 0 < oc_failed (op_counts (xs_op x)) then OpFailed else OpCompleted) None now (xs_op x)) (xs_fs x))"

section \<open>The operation\<close>

text \<open>What a run reads besides its ticks.  \<open>None\<close> when the ticks run out before the loop ends.  The
  executor refuses a number of workers that is not positive.\<close>

record run_inputs =
  ri_start :: int
  ri_mono :: real
  ri_ticks :: "tick list"
  ri_finish :: int
  ri_timeout_code :: status_code

definition initial_exec :: "string \<Rightarrow> operation \<Rightarrow> op_fs \<Rightarrow> exec_state" where
  "initial_exec i op fs =
     \<lparr>xs_queue = build_work_items i (rq_macs (op_summary op)) (rq_groups (op_summary op)), xs_pending = [],
      xs_abandoned = [], xs_retry = [], xs_next = 0, xs_op = op, xs_fs = fs\<rparr>"

definition execute_operation :: "string \<Rightarrow> run_inputs \<Rightarrow> op_fs \<Rightarrow> op_fs result option" where
  "execute_operation i ri fs =
     (case load_state i fs of
        Inl x \<Rightarrow> Some (Inl x)
      | Inr s0 \<Rightarrow>
          (let s1 = transition_to_running (ri_start ri) s0;
               fs1 = save_state s1 fs;
               rq = op_summary s1; ex = rq_execution rq
           in if rq_macs rq = [] \<or> rq_groups rq = []
              then Some (Inr (save_state (finish OpCompleted None (ri_finish ri) (set_total 0 s1)) fs1))
              else (let s2 = set_total (int (length (rq_macs rq))) s1; fs2 = save_state s2 fs1
                    in if ex_workers ex \<le> 0
                       then Some (Inr (mark_failed i ''max_workers must be greater than 0'' (ri_finish ri) fs2))
                       else map_option (\<lambda>e. Inr (conclude i (ri_finish ri) e))
                              (run_loop ex (ri_timeout_code ri) (ri_mono ri + ex_overall ex) (ri_ticks ri) (initial_exec i s2 fs2)))))"

section \<open>Lemmas\<close>

subsection \<open>Accounting\<close>

text \<open>Which modem an item or a record is about, and the modems that are recorded: a result has one
  eligibility stage, so the eligibility records count the recorded items.\<close>

definition item_key :: "work_item \<Rightarrow> int \<times> string" where
  "item_key item = (wi_sg item, wi_mac item)"

definition recorded :: "string \<Rightarrow> op_fs \<Rightarrow> (int \<times> string) multiset" where
  "recorded i fs = image_mset (\<lambda>r. (lk_sg r, lk_mac r))
     (filter_mset (\<lambda>r. sr_stage (lk_stage r) = EligibilityStage) (mset (load_result_records i None fs)))"

definition well_staged :: "worker_result \<Rightarrow> bool" where
  "well_staged r = (length (filter (\<lambda>s. sr_stage s = EligibilityStage) (wr_stages r)) = 1)"

lemma load_append_result:
  "mset (load_result_records i None (append_result r fs)) =
   (if lk_operation r = i then add_mset r (mset (load_result_records i None fs)) else mset (load_result_records i None fs))"
  by (simp add: load_result_records_def list_result_files_def append_result_def mset_concat_snd Let_def)
    (simp add: mset_append_line flip: mset_concat_snd)

lemma recorded_same_files: "od_results (fs' i) = od_results (fs i) \<Longrightarrow> recorded i fs' = recorded i fs"
  by (simp add: recorded_def load_result_records_def list_result_files_def)

lemma recorded_save [simp]: "recorded i (save_state s fs) = recorded i fs"
  by (rule recorded_same_files) simp

lemma load_persisted:
  "mset (load_result_records i None (fold append_result (map (stage_linkage i item r) ss) fs)) =
   mset (map (stage_linkage i item r) ss) + mset (load_result_records i None fs)"
  by (induction ss arbitrary: fs) (simp_all add: load_append_result stage_linkage_def)

lemma recorded_persist:
  assumes "well_staged r"
  shows "recorded i (persist_stage_records i item r fs) = add_mset (item_key item) (recorded i fs)"
proof -
  obtain s where s: "filter (\<lambda>s. sr_stage s = EligibilityStage) (wr_stages r) = [s]"
    using assms by (auto simp: well_staged_def length_Suc_conv)
  have "filter_mset (\<lambda>x. sr_stage (lk_stage x) = EligibilityStage) (mset (map (stage_linkage i item r) (wr_stages r))) =
      mset (map (stage_linkage i item r) (filter (\<lambda>s. sr_stage s = EligibilityStage) (wr_stages r)))"
    unfolding mset_filter [symmetric] filter_map by (simp add: o_def stage_linkage_def)
  then show ?thesis
    unfolding recorded_def persist_stage_records_def load_persisted filter_union_mset s
    by (simp add: stage_linkage_def item_key_def)
qed

lemma persist_state [simp]: "od_state (persist_stage_records i item r fs j) = od_state (fs j)"
proof -
  have "od_state (fold append_result rs fs j) = od_state (fs j)" for rs
    by (induction rs arbitrary: fs) auto
  then show ?thesis by (simp add: persist_stage_records_def)
qed

lemma persist_cancel [simp]: "od_cancel (persist_stage_records i item r fs j) = od_cancel (fs j)"
proof -
  have "od_cancel (fold append_result rs fs j) = od_cancel (fs j)" for rs
    by (induction rs arbitrary: fs) (auto simp: append_result_def Let_def)
  then show ?thesis by (simp add: persist_stage_records_def)
qed

lemma timeout_well_staged [simp]: "well_staged (timeout_result code now)"
  and failure_well_staged [simp]: "well_staged (failure_result msg now)"
  by (simp_all add: well_staged_def timeout_result_def failure_result_def build_stage_results_def plain_stage_def)

lemma update_counters_simps:
  "oc_total (update_counters r c) = oc_total c" "oc_completed (update_counters r c) = oc_completed c + 1"
  "oc_success (update_counters r c) + oc_failed (update_counters r c) = oc_success c + oc_failed c + 1"
  "oc_failed (update_counters r c) = oc_failed c + (if final_status r = StatusSuccess then 0 else 1)"
  by (simp_all add: update_counters_def Let_def)

subsection \<open>The invariant of the loop\<close>

text \<open>The books of a run: every work item is waiting, in flight, due for a retry or recorded, the counters
  count the recorded ones, attempts stay in their budget and the persisted state is not terminal.\<close>

definition live_items :: "exec_state \<Rightarrow> work_item list" where
  "live_items x = xs_queue x @ map (fst \<circ> snd) (xs_pending x) @ map snd (xs_retry x)"

definition tallies :: "op_execution \<Rightarrow> string \<Rightarrow> (int \<times> string) multiset \<Rightarrow> int \<Rightarrow> exec_state \<Rightarrow> bool" where
  "tallies ex i all n x \<longleftrightarrow>
     op_id (xs_op x) = i \<and> op_state (xs_op x) = OpRunning \<and>
     image_mset item_key (mset (live_items x)) + recorded i (xs_fs x) = all \<and>
     oc_completed (op_counts (xs_op x)) = int (size (recorded i (xs_fs x))) \<and>
     oc_success (op_counts (xs_op x)) + oc_failed (op_counts (xs_op x)) = oc_completed (op_counts (xs_op x)) \<and>
     0 \<le> oc_failed (op_counts (xs_op x)) \<and> oc_total (op_counts (xs_op x)) = n \<and>
     (\<forall>item \<in> set (live_items x). 0 \<le> wi_attempt item \<and> wi_attempt item \<le> max 0 (ex_retries ex)) \<and>
     (\<exists>s. od_state (xs_fs x i) = Some s \<and> op_id s = i \<and> \<not> is_terminal (op_state s))"

lemma talliesD:
  assumes "tallies ex i all n x"
  shows "op_id (xs_op x) = i" and "op_state (xs_op x) = OpRunning"
    and "image_mset item_key (mset (live_items x)) + recorded i (xs_fs x) = all"
    and "oc_completed (op_counts (xs_op x)) = int (size (recorded i (xs_fs x)))"
    and "oc_success (op_counts (xs_op x)) + oc_failed (op_counts (xs_op x)) = oc_completed (op_counts (xs_op x))"
    and "0 \<le> oc_failed (op_counts (xs_op x))" and "oc_total (op_counts (xs_op x)) = n"
    and "\<forall>item \<in> set (live_items x). 0 \<le> wi_attempt item \<and> wi_attempt item \<le> max 0 (ex_retries ex)"
    and "\<exists>s. od_state (xs_fs x i) = Some s \<and> op_id s = i \<and> \<not> is_terminal (op_state s)"
  using assms unfolding tallies_def by blast+

lemma save_keeps_live:
  assumes "\<exists>s. od_state (fs i) = Some s \<and> op_id s = i \<and> \<not> is_terminal (op_state s)"
    and "op_id op = i" and "\<not> is_terminal (op_state op)"
  shows "\<exists>s. od_state (save_state op fs i) = Some s \<and> op_id s = i \<and> \<not> is_terminal (op_state s)"
  using assms by (auto simp: save_state_def can_replace_def Let_def)

lemma tallies_handle:
  assumes "tallies ex i (all - {#item_key item#}) n x" and "item_key item \<in># all" and "well_staged r"
    and "0 \<le> wi_attempt item" and "wi_attempt item \<le> max 0 (ex_retries ex)"
  shows "tallies ex i all n (handle_result ex clock now item r x)"
proof -
  note t = talliesD [OF assms(1)]
  have all: "add_mset (item_key item) (image_mset item_key (mset (live_items x)) + recorded i (xs_fs x)) = all"
    using t(3) assms(2) by simp
  show ?thesis
  proof (cases "final_status r \<noteq> StatusSuccess \<and> wi_attempt item < ex_retries ex")
    case True
    let ?op = "touch_times now (xs_op x)"
    let ?x = "x\<lparr>xs_retry := xs_retry x @ [(clock + ex_delay ex, item\<lparr>wi_attempt := wi_attempt item + 1\<rparr>)],
        xs_op := ?op, xs_fs := save_state ?op (xs_fs x)\<rparr>"
    have h: "handle_result ex clock now item r x = ?x" using True by (simp add: handle_result_def Let_def)
    have op: "op_id ?op = i" "op_state ?op = OpRunning" "op_counts ?op = op_counts (xs_op x)"
      using t(1,2) by (simp_all add: touch_times_def)
    have live: "live_items ?x = live_items x @ [item\<lparr>wi_attempt := wi_attempt item + 1\<rparr>]"
      by (simp add: live_items_def)
    have st: "\<exists>s. od_state (save_state ?op (xs_fs x) i) = Some s \<and> op_id s = i \<and> \<not> is_terminal (op_state s)"
      by (rule save_keeps_live [of "xs_fs x" i ?op, OF t(9) op(1)]) (simp add: op(2) is_terminal_def)
    have "item_key (item\<lparr>wi_attempt := wi_attempt item + 1\<rparr>) = item_key item" by (simp add: item_key_def)
    then show ?thesis
      unfolding h tallies_def live using t op st all True assms(4) by simp
  next
    case False
    let ?op = "touch_times now ((xs_op x)\<lparr>op_counts := update_counters r (op_counts (xs_op x))\<rparr>)"
    let ?fs = "persist_stage_records (op_id (xs_op x)) item r (xs_fs x)"
    let ?x = "x\<lparr>xs_op := ?op, xs_fs := save_state ?op ?fs\<rparr>"
    have h: "handle_result ex clock now item r x = ?x"
      unfolding handle_result_def Let_def if_not_P [OF False] ..
    have op: "op_id ?op = i" "op_state ?op = OpRunning" "op_counts ?op = update_counters r (op_counts (xs_op x))"
      using t(1,2) by (simp_all add: touch_times_def)
    have rec: "recorded i (save_state ?op ?fs) = add_mset (item_key item) (recorded i (xs_fs x))"
      using recorded_persist [OF assms(3)] t(1) by simp
    have st: "\<exists>s. od_state (save_state ?op ?fs i) = Some s \<and> op_id s = i \<and> \<not> is_terminal (op_state s)"
      by (rule save_keeps_live [of ?fs i ?op, OF _ op(1)]) (use t(9) in \<open>simp_all add: op(2) is_terminal_def\<close>)
    have live: "live_items ?x = live_items x" by (simp add: live_items_def)
    have c: "0 \<le> oc_failed (update_counters r (op_counts (xs_op x)))"
      using t(6) by (simp add: update_counters_simps(4))
    show ?thesis
      unfolding h tallies_def live
      using t op st all rec c update_counters_simps(1-3) [of r "op_counts (xs_op x)"] by simp
  qed
qed

text \<open>The bookkeeping of the futures: numbers are used once and there is a worker for every flight.\<close>

definition flights_ok :: "op_execution \<Rightarrow> exec_state \<Rightarrow> bool" where
  "flights_ok ex x \<longleftrightarrow> distinct (map fst (xs_pending x @ xs_abandoned x)) \<and>
     (\<forall>f \<in> set (map fst (xs_pending x @ xs_abandoned x)). f < xs_next x) \<and>
     int (length (xs_pending x) + length (xs_abandoned x)) \<le> max 0 (ex_workers ex)"

lemma handle_result_flights [simp]:
  "xs_pending (handle_result ex clock now item r x) = xs_pending x"
  "xs_abandoned (handle_result ex clock now item r x) = xs_abandoned x"
  "xs_next (handle_result ex clock now item r x) = xs_next x"
  "xs_queue (handle_result ex clock now item r x) = xs_queue x"
  by (simp_all add: handle_result_def Let_def)

lemma flights_ok_handle [simp]: "flights_ok ex (handle_result ex clock now item r x) = flights_ok ex x"
  by (simp add: flights_ok_def)

lemma fst_drop_flight: "map fst (drop_flight f ps) = filter (\<lambda>g. g \<noteq> f) (map fst ps)"
  by (induction ps) (auto simp: drop_flight_def)

lemma length_drop_flight: "length (drop_flight f ps) \<le> length ps"
  by (simp add: drop_flight_def)

lemma drop_flight_member:
  assumes "distinct (map fst ps)" and "(f, item, start) \<in> set ps"
  shows "mset (map (fst \<circ> snd) ps) = add_mset item (mset (map (fst \<circ> snd) (drop_flight f ps)))"
    and "length ps = Suc (length (drop_flight f ps))"
proof -
  obtain as bs where ps: "ps = as @ (f, item, start) # bs" using assms(2) by (meson split_list)
  have "drop_flight f as = as" "drop_flight f bs = bs"
    using assms(1) by (auto simp: ps drop_flight_def filter_id_conv rev_image_eqI)
  then have d: "drop_flight f ps = as @ bs" by (simp add: ps drop_flight_def)
  show "mset (map (fst \<circ> snd) ps) = add_mset item (mset (map (fst \<circ> snd) (drop_flight f ps)))"
    and "length ps = Suc (length (drop_flight f ps))"
    unfolding d by (simp_all add: ps)
qed

lemma flights_ok_forget:
  assumes "flights_ok ex x"
  shows "flights_ok ex (x\<lparr>xs_abandoned := drop_flight f (xs_abandoned x)\<rparr>)"
proof -
  have sub: "set (map fst (drop_flight f (xs_abandoned x))) \<subseteq> set (map fst (xs_abandoned x))"
    unfolding fst_drop_flight by auto
  have dist: "distinct (map fst (drop_flight f (xs_abandoned x)))"
    using assms unfolding fst_drop_flight flights_ok_def by simp
  have shrink: "distinct (P @ A') \<and> (\<forall>f \<in> set (P @ A'). f < N)"
    if "set A' \<subseteq> set A" "distinct A'" "distinct (P @ A) \<and> (\<forall>f \<in> set (P @ A). f < N)" for P A A' :: "nat list" and N
    using that by auto
  have "distinct (map fst (xs_pending x) @ map fst (xs_abandoned x)) \<and>
      (\<forall>f \<in> set (map fst (xs_pending x) @ map fst (xs_abandoned x)). f < xs_next x)"
    using assms unfolding flights_ok_def map_append by (elim conjE) (rule conjI)
  from shrink [OF sub dist this] show ?thesis
    using assms length_drop_flight [of f "xs_abandoned x"] unfolding flights_ok_def map_append
    by (simp del: list.set_map set_append distinct_append)
qed

text \<open>Taking a flight out of the pending ones removes its item from the live ones.\<close>

lemma tallies_drop:
  assumes "tallies ex i all n x" and "flights_ok ex x" and "(f, item, start) \<in> set (xs_pending x)"
  shows "tallies ex i (all - {#item_key item#}) n (x\<lparr>xs_pending := drop_flight f (xs_pending x), xs_abandoned := ab\<rparr>)"
    and "item_key item \<in># all" and "0 \<le> wi_attempt item" and "wi_attempt item \<le> max 0 (ex_retries ex)"
proof -
  let ?x = "x\<lparr>xs_pending := drop_flight f (xs_pending x), xs_abandoned := ab\<rparr>"
  note t = talliesD [OF assms(1)]
  have d: "distinct (map fst (xs_pending x))" using assms(2) by (simp add: flights_ok_def)
  have live: "mset (live_items x) = add_mset item (mset (live_items ?x))"
    using drop_flight_member(1) [OF d assms(3)] by (simp add: live_items_def)
  then show "item_key item \<in># all" using t(3) by auto
  have mem: "item \<in> set (live_items x)" using live by (metis union_single_eq_member set_mset_mset add_mset_add_single)
  with t(8) show "0 \<le> wi_attempt item" "wi_attempt item \<le> max 0 (ex_retries ex)" by auto
  have sub: "set (live_items ?x) \<subseteq> set (live_items x)"
    using live by (metis mset_subset_eq_add_right set_mset_mset set_mset_mono add_mset_add_single mset_subset_eq_add_left)
  have "image_mset item_key (mset (live_items ?x)) + recorded i (xs_fs x) = all - {#item_key item#}"
    using t(3) [symmetric] live by simp
  with t sub show "tallies ex i (all - {#item_key item#}) n ?x"
    unfolding tallies_def by auto
qed

lemma flights_ok_drop:
  assumes "flights_ok ex x" and "(f, item, start) \<in> set (xs_pending x)"
  shows "flights_ok ex (x\<lparr>xs_pending := drop_flight f (xs_pending x)\<rparr>)"
    and "flights_ok ex (x\<lparr>xs_pending := drop_flight f (xs_pending x), xs_abandoned := xs_abandoned x @ [(f, item, start)]\<rparr>)"
proof -
  have d: "distinct (map fst (xs_pending x))" using assms(1) by (simp add: flights_ok_def)
  note len = drop_flight_member(2) [OF d assms(2)]
  have f: "f \<in> fst ` set (xs_pending x)" using assms(2) by force
  show "flights_ok ex (x\<lparr>xs_pending := drop_flight f (xs_pending x)\<rparr>)"
    using assms(1) len unfolding flights_ok_def map_append fst_drop_flight by (auto simp: fst_drop_flight simp flip: set_map)
  show "flights_ok ex (x\<lparr>xs_pending := drop_flight f (xs_pending x), xs_abandoned := xs_abandoned x @ [(f, item, start)]\<rparr>)"
    using assms(1) len f unfolding flights_ok_def map_append fst_drop_flight by (auto simp: fst_drop_flight simp flip: set_map)
qed

subsection \<open>One pass keeps the books\<close>

definition tick_ok :: "tick \<Rightarrow> bool" where
  "tick_ok tk \<longleftrightarrow> (\<forall>f r. tk_outcome tk f = Inr r \<longrightarrow> well_staged r)"

definition run_ok :: "op_execution \<Rightarrow> string \<Rightarrow> (int \<times> string) multiset \<Rightarrow> int \<Rightarrow> exec_state \<Rightarrow> bool" where
  "run_ok ex i all n x \<longleftrightarrow> tallies ex i all n x \<and> flights_ok ex x"

lemma tallies_same:
  assumes "tallies ex i all n x" and "xs_op y = xs_op x" and "mset (live_items y) = mset (live_items x)"
    and "recorded i (xs_fs y) = recorded i (xs_fs x)"
    and "\<exists>s. od_state (xs_fs y i) = Some s \<and> op_id s = i \<and> \<not> is_terminal (op_state s)"
  shows "tallies ex i all n y"
proof -
  have "set (live_items y) = set (live_items x)" using assms(3) by (metis set_mset_mset)
  with talliesD [OF assms(1)] assms(2-5) show ?thesis unfolding tallies_def by simp
qed

lemma live_split: "mset (filter (\<lambda>(t, _). t \<le> now) ps) + mset (filter (\<lambda>(t, _). \<not> t \<le> now) ps) = mset ps"
  by (simp add: mset_filter case_prod_beta multiset_partition [symmetric])

lemma run_ok_take_ready:
  assumes "run_ok ex i all n x"
  shows "run_ok ex i all n (take_ready now x)"
proof -
  let ?a = "filter (\<lambda>(t, _). t \<le> now) (xs_retry x)" and ?b = "filter (\<lambda>(t, _). \<not> t \<le> now) (xs_retry x)"
  have "image_mset snd (mset ?a) + image_mset snd (mset ?b) = image_mset snd (mset (xs_retry x))"
    using arg_cong [OF live_split [of now "xs_retry x"], of "image_mset snd"] by (simp only: image_mset_union)
  then have "mset (live_items (take_ready now x)) = mset (live_items x)"
    unfolding live_items_def take_ready_def by (simp del: mset_filter add: ac_simps)
  then have "tallies ex i all n (take_ready now x)"
    using assms talliesD(9) [of ex i all n x]
    by (intro tallies_same [of ex i all n x "take_ready now x"]) (simp_all add: run_ok_def take_ready_def)
  with assms show ?thesis by (simp add: run_ok_def flights_ok_def take_ready_def)
qed

lemma run_ok_cancel:
  assumes "run_ok ex i all n x"
  shows "run_ok ex i all n (external_cancel c x)"
proof (cases c)
  case None
  with assms show ?thesis by (simp add: external_cancel_def)
next
  case (Some now)
  have t: "tallies ex i all n x" using assms by (simp add: run_ok_def)
  note id = talliesD(1) [OF t]
  obtain s where s: "od_state (xs_fs x i) = Some s" "op_id s = i" "\<not> is_terminal (op_state s)"
    using talliesD(9) [OF t] by blast
  let ?fs = "snd (request_cancel i now (xs_fs x))"
  have fs: "?fs = save_state (cancel_update now s) (touch_cancel i (xs_fs x))"
    using s by (simp add: request_cancel_def load_state_def)
  have st: "\<exists>s. od_state (?fs i) = Some s \<and> op_id s = i \<and> \<not> is_terminal (op_state s)"
    unfolding fs
    by (rule save_keeps_live [of "touch_cancel i (xs_fs x)" i])
      (use s in \<open>simp_all add: cancel_update_def is_terminal_def touch_cancel_def\<close>)
  have rec: "recorded i ?fs = recorded i (xs_fs x)"
    unfolding fs by (rule recorded_same_files) (simp add: touch_cancel_def)
  have "tallies ex i all n (x\<lparr>xs_fs := ?fs\<rparr>)"
  proof (rule tallies_same [OF t])
    show "recorded i (xs_fs (x\<lparr>xs_fs := ?fs\<rparr>)) = recorded i (xs_fs x)" using rec by simp
    show "\<exists>s. od_state (xs_fs (x\<lparr>xs_fs := ?fs\<rparr>) i) = Some s \<and> op_id s = i \<and> \<not> is_terminal (op_state s)"
      using st by simp
  qed (simp_all add: live_items_def)
  with assms show ?thesis by (simp add: run_ok_def external_cancel_def Some id flights_ok_def)
qed

lemma run_ok_submit:
  assumes "run_ok ex i all n x"
  shows "run_ok ex i all n (submit_ready k ex clock x)"
  using assms
proof (induction k ex clock x rule: submit_ready.induct)
  case (1 ex clock x)
  then show ?case by simp
next
  case (2 k ex clock x)
  show ?case
  proof (cases "xs_queue x")
    case Nil
    with 2 show ?thesis by simp
  next
    case (Cons item rest)
    let ?x = "x\<lparr>xs_queue := rest, xs_pending := xs_pending x @ [(xs_next x, item, clock (xs_next x))], xs_next := Suc (xs_next x)\<rparr>"
    show ?thesis
    proof (cases "int (length (xs_pending x) + length (xs_abandoned x)) < ex_workers ex")
      case True
      have "mset (live_items ?x) = mset (live_items x)" by (simp add: live_items_def Cons)
      then have a: "tallies ex i all n ?x"
        using "2.prems" talliesD(9) [of ex i all n x] by (intro tallies_same [of ex i all n x ?x]) (simp_all add: run_ok_def)
      have "xs_next x \<notin> set (map fst (xs_pending x @ xs_abandoned x))"
        using "2.prems" by (auto simp: run_ok_def flights_ok_def)
      then have "flights_ok ex ?x"
        using "2.prems" True unfolding run_ok_def flights_ok_def by (auto simp: less_Suc_eq)
      with a have "run_ok ex i all n ?x" by (simp add: run_ok_def)
      from "2.IH" [OF Cons True this] Cons True show ?thesis by simp
    next
      case False
      with Cons "2.prems" show ?thesis by simp
    qed
  qed
qed

lemma run_ok_handle_pending:
  assumes "run_ok ex i all n x" and "(f, item, start) \<in> set (xs_pending x)" and "well_staged r"
  shows "run_ok ex i all n (handle_result ex clock now item r (x\<lparr>xs_pending := drop_flight f (xs_pending x)\<rparr>))"
    and "run_ok ex i all n (handle_result ex clock now item r
      (x\<lparr>xs_pending := drop_flight f (xs_pending x), xs_abandoned := xs_abandoned x @ [(f, item, start)]\<rparr>))"
proof -
  have a: "tallies ex i all n x" "flights_ok ex x" using assms(1) by (simp_all add: run_ok_def)
  note d = tallies_drop [OF a assms(2)] and fl = flights_ok_drop [OF a(2) assms(2)]
  have "x\<lparr>xs_pending := drop_flight f (xs_pending x)\<rparr> = x\<lparr>xs_pending := drop_flight f (xs_pending x), xs_abandoned := xs_abandoned x\<rparr>"
    by simp
  with tallies_handle [OF d(1) [where ab = "xs_abandoned x"] d(2) assms(3) d(3,4)] fl
  show "run_ok ex i all n (handle_result ex clock now item r (x\<lparr>xs_pending := drop_flight f (xs_pending x)\<rparr>))"
    unfolding run_ok_def flights_ok_handle by metis
  from tallies_handle [OF d(1) d(2) assms(3) d(3,4)] fl
  show "run_ok ex i all n (handle_result ex clock now item r
      (x\<lparr>xs_pending := drop_flight f (xs_pending x), xs_abandoned := xs_abandoned x @ [(f, item, start)]\<rparr>))"
    unfolding run_ok_def flights_ok_handle by blast
qed

lemma run_ok_abandon:
  assumes "run_ok ex i all n x" and "distinct (map fst fl)" and "set fl \<subseteq> set (xs_pending x)"
  shows "run_ok ex i all n (abandon ex code tk fl x)"
  using assms
proof (induction ex code tk fl x rule: abandon.induct)
  case (1 ex code tk x)
  then show ?case by simp
next
  case (2 ex code tk f item start rest x)
  have m: "(f, item, start) \<in> set (xs_pending x)" using "2.prems"(3) by simp
  have "set rest \<subseteq> set (drop_flight f (xs_pending x))"
    using "2.prems"(2,3) by (force simp: drop_flight_def)
  with "2.IH" [OF run_ok_handle_pending(2) [OF "2.prems"(1) m timeout_well_staged]] "2.prems"(2)
  show ?case by simp
qed

lemma run_ok_take_done:
  assumes "run_ok ex i all n x" and "tick_ok tk"
  shows "run_ok ex i all n (take_done ex code tk fl x)"
  using assms
proof (induction ex code tk fl x rule: take_done.induct)
  case (1 ex code tk x)
  then show ?case by simp
next
  case (2 ex code tk f fs x)
  show ?case
  proof (cases "f \<in> fst ` set (xs_abandoned x)")
    case True
    have t: "tallies ex i all n x" "flights_ok ex x" using "2.prems"(1) by (simp_all add: run_ok_def)
    have "tallies ex i all n (x\<lparr>xs_abandoned := drop_flight f (xs_abandoned x)\<rparr>)"
    proof (rule tallies_same [OF t(1)])
      show "\<exists>s. od_state (xs_fs (x\<lparr>xs_abandoned := drop_flight f (xs_abandoned x)\<rparr>) i) = Some s \<and> op_id s = i \<and>
          \<not> is_terminal (op_state s)" using talliesD(9) [OF t(1)] by simp
    qed (simp_all add: live_items_def)
    with flights_ok_forget [OF t(2)] show ?thesis using "2.IH" "2.prems"(2) True by (simp add: run_ok_def)
  next
    case False
    show ?thesis
    proof (cases "map_of (xs_pending x) f")
      case None
      with False 2 show ?thesis by simp
    next
      case (Some v)
      obtain item start where v: "v = (item, start)" by (cases v)
      have m: "(f, item, start) \<in> set (xs_pending x)" using map_of_SomeD [OF Some] v by simp
      have ws: "well_staged (if expired ex (tk_check tk) start then timeout_result code (tk_epoch tk f)
          else resolve_future (tk_outcome tk f) (tk_epoch tk f))"
        using "2.prems"(2) by (simp add: resolve_future_def tick_ok_def split: sum.split)
      from "2.IH" [OF _ "2.prems"(2)] run_ok_handle_pending(1) [OF "2.prems"(1) m ws] False Some v
      show ?thesis by simp
    qed
  qed
qed

lemma run_ok_pass:
  assumes "run_ok ex i all n x" and "tick_ok tk" and "loop_pass ex code deadline tk x = PassOn y"
  shows "run_ok ex i all n y"
proof -
  let ?x1 = "take_ready (tk_ready tk) (external_cancel (tk_cancel tk) x)"
  let ?x2 = "submit_ready (length (xs_queue ?x1)) ex (tk_submit tk) ?x1"
  have ok: "run_ok ex i all n ?x2"
    by (intro run_ok_submit run_ok_take_ready run_ok_cancel assms(1))
  have "distinct (map fst (xs_pending ?x2))" using ok by (simp add: run_ok_def flights_ok_def)
  then have d: "distinct (map fst (timed_out ex tk (xs_pending ?x2)))"
    by (simp add: timed_out_def distinct_map_filter)
  have "set (timed_out ex tk (xs_pending ?x2)) \<subseteq> set (xs_pending ?x2)" by (auto simp: timed_out_def)
  from run_ok_take_done [OF run_ok_abandon [OF ok d this] assms(2)] ok assms(3)
  show ?thesis by (auto simp: loop_pass_def Let_def split: if_splits)
qed

lemma run_ok_loop:
  assumes "run_loop ex code deadline tks x = Some (e, y)" and "run_ok ex i all n x" and "\<forall>tk \<in> set tks. tick_ok tk"
  shows "run_ok ex i all n y \<and> (e = EndedIdle \<longrightarrow> idle y)"
  using assms
proof (induction tks arbitrary: x)
  case Nil
  then show ?case by (auto simp: run_loop.simps [of ex code deadline "[]"] split: if_splits)
next
  case (Cons tk tks)
  show ?case
  proof (cases "idle x")
    case True
    with Cons.prems show ?thesis by (simp add: run_loop.simps [of ex code deadline "tk # tks"])
  next
    case False
    show ?thesis
    proof (cases "loop_pass ex code deadline tk x")
      case (PassOn x')
      have "run_loop ex code deadline tks x' = Some (e, y)"
        using Cons.prems(1) False PassOn by (simp add: run_loop.simps [of ex code deadline "tk # tks"])
      moreover have "run_ok ex i all n x'"
        using run_ok_pass [OF Cons.prems(2) _ PassOn] Cons.prems(3) by simp
      ultimately show ?thesis using Cons.IH [of x'] Cons.prems(3) by auto
    qed (use Cons.prems False in \<open>auto simp: run_loop.simps [of ex code deadline "tk # tks"]\<close>)
  qed
qed

text \<open>The start of the loop.\<close>

lemma build_work_items_keys:
  "map item_key (build_work_items i macs sgs) = map (\<lambda>(k, mac). (sgs ! (k mod length sgs), mac)) (enumerate 0 macs)"
  by (simp add: build_work_items_def item_key_def case_prod_beta)

lemma run_ok_initial:
  assumes "od_state (fs i) = Some op" and "op_id op = i" and "op_state op = OpRunning" and "od_results (fs i) = []"
    and "oc_total (op_counts op) = n" and "oc_completed (op_counts op) = 0" and "oc_success (op_counts op) = 0"
    and "oc_failed (op_counts op) = 0"
  shows "run_ok ex i (mset (map item_key (build_work_items i (rq_macs (op_summary op)) (rq_groups (op_summary op))))) n
    (initial_exec i op fs)"
proof -
  have "recorded i fs = {#}"
    using assms(4) by (simp add: recorded_def load_result_records_def list_result_files_def)
  moreover have "wi_attempt item = 0" if "item \<in> set (build_work_items i macs sgs)" for item macs sgs
    using that by (auto simp: build_work_items_def)
  ultimately have "tallies ex i (mset (map item_key (build_work_items i (rq_macs (op_summary op)) (rq_groups (op_summary op))))) n
      (initial_exec i op fs)"
    using assms unfolding tallies_def by (simp add: initial_exec_def live_items_def is_terminal_def)
  then show ?thesis by (simp add: run_ok_def flights_ok_def initial_exec_def)
qed

text \<open>What the terminal step leaves.\<close>

lemma conclude_terminal:
  assumes "run_ok ex i all n x" and "e = EndedIdle \<longrightarrow> idle x" and "fs' = conclude i now (e, x)"
    and "n = int (size all)"
  shows "\<exists>s. load_state i fs' = Inr s \<and> is_terminal (op_state s) \<and> recorded i fs' = recorded i (xs_fs x) \<and>
    (op_state s = OpCancelled) = (e = EndedCancelled) \<and>
    (op_state s = OpCompleted \<longrightarrow> oc_failed (op_counts s) = 0 \<and> oc_completed (op_counts s) = n \<and>
       oc_success (op_counts s) = n \<and> oc_total (op_counts s) = n \<and> recorded i fs' = all) \<and>
    (e = EndedIdle \<longrightarrow> recorded i fs' = all) \<and>
    (e = EndedIdle \<and> oc_failed (op_counts (xs_op x)) = 0 \<longrightarrow> op_state s = OpCompleted)"
proof -
  have t: "tallies ex i all n x" using assms(1) by (simp add: run_ok_def)
  obtain s where s: "od_state (xs_fs x i) = Some s" "op_id s = i" "\<not> is_terminal (op_state s)"
    using talliesD(9) [OF t] by blast
  have save: "od_state (save_state op (xs_fs x) i) = Some op" if "op_id op = i" for op
    using s that by (auto simp: save_state_def can_replace_def Let_def)
  show ?thesis
  proof (cases e)
    case EndedIdle
    let ?op = "finish (if 0 < oc_failed (op_counts (xs_op x)) then OpFailed else OpCompleted) None now (xs_op x)"
    have fs: "fs' = save_state ?op (xs_fs x)" using assms(3) EndedIdle by (simp add: conclude_def)
    have idle: "live_items x = []" using assms(2) EndedIdle by (simp add: idle_def live_items_def)
    then have rec: "recorded i (xs_fs x) = all" using talliesD(3) [OF t] by simp
    have "load_state i fs' = Inr ?op" using save [of ?op] talliesD(1) [OF t] by (simp add: fs load_state_Inr finish_def)
    moreover have "recorded i fs' = all" by (simp add: fs rec)
    ultimately show ?thesis
      using EndedIdle talliesD(4-7) [OF t] rec assms(4) by (auto simp: finish_def is_terminal_def)
  next
    case EndedCancelled
    let ?op = "finish OpCancelled None now s"
    have fs: "fs' = save_state ?op (xs_fs x)" using assms(3) EndedCancelled s by (simp add: conclude_def mark_cancelled_def load_state_def)
    have "load_state i fs' = Inr ?op" using save [of ?op] s(2) by (simp add: fs load_state_Inr finish_def)
    then show ?thesis using EndedCancelled by (auto simp: fs finish_def is_terminal_def)
  next
    case EndedDeadline
    let ?op = "finish OpFailed (Some \<lparr>er_message = ''overall timeout exceeded'', er_detail = ''''\<rparr>) now s"
    have fs: "fs' = save_state ?op (xs_fs x)" using assms(3) EndedDeadline s by (simp add: conclude_def mark_failed_def load_state_def)
    have "load_state i fs' = Inr ?op" using save [of ?op] s(2) by (simp add: fs load_state_Inr finish_def)
    then show ?thesis using EndedDeadline by (auto simp: fs finish_def is_terminal_def)
  qed
qed

text \<open>An operation that has just been created.\<close>

definition fresh_operation :: "string \<Rightarrow> op_fs \<Rightarrow> operation \<Rightarrow> bool" where
  "fresh_operation i fs s \<longleftrightarrow> load_state i fs = Inr s \<and> op_id s = i \<and> op_state s = OpQueued \<and>
     op_counts s = zero_counters \<and> od_results (fs i) = []"

lemma create_is_fresh:
  assumes "fs i = empty_dir"
  shows "fresh_operation i (snd (create_operation i now rq cx fs)) (fst (create_operation i now rq cx fs))"
  using assms
  by (cases cx) (simp_all add: fresh_operation_def create_operation_def save_state_def save_context_def empty_dir_def
      load_state_def Let_def)

text \<open>The loop of an operation that has work, from its first state.\<close>

lemma execute_loop:
  assumes "fresh_operation i fs s0" and "rq_macs (op_summary s0) \<noteq> []" and "rq_groups (op_summary s0) \<noteq> []"
    and "0 < ex_workers (rq_execution (op_summary s0))"
  obtains x where "run_ok (rq_execution (op_summary s0)) i
      (mset (map item_key (build_work_items i (rq_macs (op_summary s0)) (rq_groups (op_summary s0)))))
      (int (length (rq_macs (op_summary s0)))) x"
    and "execute_operation i ri fs = map_option (\<lambda>e. Inr (conclude i (ri_finish ri) e))
      (run_loop (rq_execution (op_summary s0)) (ri_timeout_code ri)
        (ri_mono ri + ex_overall (rq_execution (op_summary s0))) (ri_ticks ri) x)"
    and "xs_queue x \<noteq> []" and "od_cancel (xs_fs x i) = od_cancel (fs i)" and "recorded i (xs_fs x) = {#}"
    and "xs_next x = 0" and "xs_pending x = []" and "xs_abandoned x = []"
proof -
  let ?s1 = "transition_to_running (ri_start ri) s0"
  let ?fs1 = "save_state ?s1 fs"
  let ?s2 = "set_total (int (length (rq_macs (op_summary s0)))) ?s1"
  let ?fs2 = "save_state ?s2 ?fs1"
  have s0: "load_state i fs = Inr s0" "od_state (fs i) = Some s0" "op_id s0 = i" "op_state s0 = OpQueued"
    "op_counts s0 = zero_counters" "od_results (fs i) = []"
    using assms(1) by (auto simp: fresh_operation_def load_state_Inr)
  have s1: "op_id ?s1 = i" "op_state ?s1 = OpRunning" "op_summary ?s1 = op_summary s0" "op_counts ?s1 = zero_counters"
    using s0 by (simp_all add: transition_to_running_def)
  have s2: "op_id ?s2 = i" "op_state ?s2 = OpRunning" "op_summary ?s2 = op_summary s0"
    "op_counts ?s2 = zero_counters\<lparr>oc_total := int (length (rq_macs (op_summary s0)))\<rparr>"
    using s1 by (simp_all add: set_total_def)
  have fs1: "od_state (?fs1 i) = Some ?s1"
    using s0 s1 by (auto simp: save_state_def can_replace_def is_terminal_def Let_def)
  have fs2: "od_state (?fs2 i) = Some ?s2"
    using fs1 s1 s2 by (simp add: save_state_def can_replace_def is_terminal_def Let_def)
  have "run_ok (rq_execution (op_summary s0)) i
      (mset (map item_key (build_work_items i (rq_macs (op_summary s0)) (rq_groups (op_summary s0)))))
      (int (length (rq_macs (op_summary s0)))) (initial_exec i ?s2 ?fs2)"
    using run_ok_initial [of ?fs2 i ?s2 "int (length (rq_macs (op_summary s0)))" "rq_execution (op_summary s0)"]
      fs2 s2 s0 by (simp add: zero_counters_def)
  moreover have "execute_operation i ri fs = map_option (\<lambda>e. Inr (conclude i (ri_finish ri) e))
      (run_loop (rq_execution (op_summary s0)) (ri_timeout_code ri)
        (ri_mono ri + ex_overall (rq_execution (op_summary s0))) (ri_ticks ri) (initial_exec i ?s2 ?fs2))"
    using assms(2-4) s0(1) s1(3) by (simp add: execute_operation_def Let_def)
  moreover have "xs_queue (initial_exec i ?s2 ?fs2) \<noteq> []"
    using assms(2) s2(3) by (auto simp: initial_exec_def build_work_items_def dest: arg_cong [of _ _ length])
  moreover have "recorded i ?fs2 = {#}"
    using s0(6) by (simp add: recorded_def load_result_records_def list_result_files_def)
  ultimately show ?thesis using that [of "initial_exec i ?s2 ?fs2"] by (simp add: initial_exec_def)
qed

lemma size_work_items: "size (mset (map item_key (build_work_items i macs sgs))) = length macs"
  by (simp add: build_work_items_def)

subsection \<open>A future that never returns\<close>

text \<open>The future is in flight, waited for or abandoned.\<close>

definition in_flight :: "nat \<Rightarrow> exec_state \<Rightarrow> bool" where
  "in_flight f x \<longleftrightarrow> f \<in> fst ` set (xs_pending x) \<or> f \<in> fst ` set (xs_abandoned x)"

lemma in_flight_drop: "g \<noteq> f \<Longrightarrow> f \<in> fst ` set (drop_flight g ps) \<longleftrightarrow> f \<in> fst ` set ps"
  unfolding drop_flight_def by force

lemma in_flight_submit: "in_flight f x \<Longrightarrow> in_flight f (submit_ready k ex clock x)"
proof (induction k ex clock x rule: submit_ready.induct)
  case (2 k ex clock x)
  then show ?case by (auto simp: in_flight_def split: list.split)
qed simp

lemma in_flight_abandon: "in_flight f x \<Longrightarrow> in_flight f (abandon ex code tk fl x)"
proof (induction ex code tk fl x rule: abandon.induct)
  case (2 ex code tk g item start rest x)
  have "in_flight f (handle_result ex (tk_retry tk g) (tk_epoch tk g) item (timeout_result code (tk_epoch tk g))
      (x\<lparr>xs_pending := drop_flight g (xs_pending x), xs_abandoned := xs_abandoned x @ [(g, item, start)]\<rparr>))"
    using "2.prems" in_flight_drop [of g f "xs_pending x"] by (cases "f = g") (auto simp: in_flight_def)
  from "2.IH" [OF this] show ?case by simp
qed simp

lemma in_flight_done: "in_flight f x \<Longrightarrow> f \<notin> set fl \<Longrightarrow> in_flight f (take_done ex code tk fl x)"
proof (induction ex code tk fl x rule: take_done.induct)
  case (2 ex code tk g fs x)
  then have g: "g \<noteq> f" by auto
  note d = in_flight_drop [OF g]
  from 2 show ?case by (auto simp: in_flight_def d split: option.split prod.split)
qed simp

lemma in_flight_pass:
  assumes "in_flight f (submit_ready (length (xs_queue x1)) ex (tk_submit tk) x1)"
    and "x1 = take_ready (tk_ready tk) (external_cancel (tk_cancel tk) x)"
    and "loop_pass ex code deadline tk x = PassOn y" and "f \<notin> set (tk_done tk)"
  shows "in_flight f y"
proof -
  let ?x2 = "submit_ready (length (xs_queue x1)) ex (tk_submit tk) x1"
  have "\<not> (xs_pending ?x2 = [] \<and> xs_abandoned ?x2 = [])" using assms(1) by (auto simp: in_flight_def)
  then have "y = take_done ex code tk (tk_done tk) (abandon ex code tk (timed_out ex tk (xs_pending ?x2)) ?x2)"
    using assms(2,3) unfolding loop_pass_def Let_def by (simp split: if_splits)
  with in_flight_done [OF in_flight_abandon [OF assms(1)] assms(4)] show ?thesis by simp
qed

lemma in_flight_before: "in_flight f (take_ready now (external_cancel c x)) = in_flight f x"
  by (simp add: in_flight_def take_ready_def external_cancel_def split: option.split)

lemma run_loop_hung:
  assumes "run_loop ex code deadline tks x = Some (e, y)" and "in_flight f x" and "\<forall>tk \<in> set tks. f \<notin> set (tk_done tk)"
  shows "e \<noteq> EndedIdle"
  using assms
proof (induction tks arbitrary: x)
  case Nil
  then show ?case by (auto simp: run_loop.simps [of ex code deadline "[]"] idle_def in_flight_def split: if_splits)
next
  case (Cons tk tks)
  have "\<not> idle x" using Cons.prems(2) by (auto simp: idle_def in_flight_def)
  with Cons.prems(1) consider "e \<noteq> EndedIdle"
    | x' where "loop_pass ex code deadline tk x = PassOn x'" "run_loop ex code deadline tks x' = Some (e, y)"
    by (auto simp: run_loop.simps [of ex code deadline "tk # tks"] split: pass.splits)
  then show ?case
  proof cases
    case (2 x')
    have "in_flight f x'"
      by (rule in_flight_pass [OF _ refl 2(1)])
        (use Cons.prems(2,3) in \<open>simp_all add: in_flight_submit in_flight_before\<close>)
    from Cons.IH [OF 2(2) this] Cons.prems(3) show ?thesis by simp
  qed
qed

text \<open>From the state a run starts in the first future is submitted, unless the run ends before.\<close>

lemma run_loop_first_hung:
  assumes "run_loop ex code deadline tks x = Some (e, y)" and "xs_queue x \<noteq> []" and "xs_pending x = []"
    and "xs_abandoned x = []" and "xs_next x = f" and "0 < ex_workers ex" and "\<forall>tk \<in> set tks. f \<notin> set (tk_done tk)"
  shows "e \<noteq> EndedIdle"
proof (cases tks)
  case Nil
  with assms(1,2) show ?thesis by (simp add: run_loop.simps [of ex code deadline "[]"] idle_def)
next
  case (Cons tk rest)
  have "\<not> idle x" using assms(2) by (simp add: idle_def)
  with assms(1) Cons consider "e \<noteq> EndedIdle"
    | x' where "loop_pass ex code deadline tk x = PassOn x'" "run_loop ex code deadline rest x' = Some (e, y)"
    by (auto simp: run_loop.simps [of ex code deadline "tk # rest"] split: pass.splits)
  then show ?thesis
  proof cases
    case (2 x')
    let ?x1 = "take_ready (tk_ready tk) (external_cancel (tk_cancel tk) x)"
    have x1: "xs_queue ?x1 \<noteq> []" "xs_pending ?x1 = []" "xs_abandoned ?x1 = []" "xs_next ?x1 = f"
      using assms(2-5) by (simp_all add: take_ready_def external_cancel_def split: option.split)
    then obtain item q where q: "xs_queue ?x1 = item # q" by (meson neq_Nil_conv)
    have new: "in_flight f (?x1\<lparr>xs_queue := q, xs_pending := [(f, item, tk_submit tk f)], xs_next := Suc f\<rparr>)"
      by (simp add: in_flight_def)
    have "in_flight f (submit_ready (length (xs_queue ?x1)) ex (tk_submit tk) ?x1)"
      using in_flight_submit [OF new, of "length q" ex "tk_submit tk"] by (simp add: q x1 assms(6))
    from in_flight_pass [OF this refl 2(1)] have "in_flight f x'" using assms(7) Cons by simp
    from run_loop_hung [OF 2(2) this] assms(7) Cons show ?thesis by simp
  qed
qed

text \<open>Nobody but a request for cancellation sets its flag.\<close>

lemma handle_result_cancel [simp]: "od_cancel (xs_fs (handle_result ex clock now item r x) i) = od_cancel (xs_fs x i)"
  by (simp add: handle_result_def Let_def)

lemma submit_cancel [simp]: "xs_fs (submit_ready k ex clock x) = xs_fs x"
  by (induction k ex clock x rule: submit_ready.induct) (auto split: list.split)

lemma abandon_cancel [simp]: "od_cancel (xs_fs (abandon ex code tk fl x) i) = od_cancel (xs_fs x i)"
  by (induction ex code tk fl x rule: abandon.induct) simp_all

lemma take_done_cancel [simp]: "od_cancel (xs_fs (take_done ex code tk fl x) i) = od_cancel (xs_fs x i)"
  by (induction ex code tk fl x rule: take_done.induct) (simp_all split: option.split prod.split)

lemma pass_cancel:
  assumes "loop_pass ex code deadline tk x = PassOn y" and "tk_cancel tk = None"
  shows "od_cancel (xs_fs y i) = od_cancel (xs_fs x i)"
proof -
  let ?x1 = "take_ready (tk_ready tk) x"
  have "y \<in> {submit_ready (length (xs_queue ?x1)) ex (tk_submit tk) ?x1,
      take_done ex code tk (tk_done tk) (abandon ex code tk
        (timed_out ex tk (xs_pending (submit_ready (length (xs_queue ?x1)) ex (tk_submit tk) ?x1)))
        (submit_ready (length (xs_queue ?x1)) ex (tk_submit tk) ?x1))}"
    using assms unfolding loop_pass_def Let_def external_cancel_def by (simp split: if_splits)
  then show ?thesis by (auto simp: take_ready_def)
qed

lemma run_loop_not_cancelled:
  assumes "run_loop ex code deadline tks x = Some (e, y)" and "run_ok ex i all n x" and "\<forall>tk \<in> set tks. tick_ok tk"
    and "\<not> od_cancel (xs_fs x i)" and "\<forall>tk \<in> set tks. tk_cancel tk = None"
  shows "e \<noteq> EndedCancelled"
  using assms
proof (induction tks arbitrary: x)
  case Nil
  then show ?case by (auto simp: run_loop.simps [of ex code deadline "[]"] split: if_splits)
next
  case (Cons tk tks)
  have "op_id (xs_op x) = i" using Cons.prems(2) by (auto simp: run_ok_def dest: talliesD(1))
  then have "loop_pass ex code deadline tk x \<noteq> PassCancelled"
    using Cons.prems(4) by (simp add: loop_pass_def is_cancel_requested_def Let_def)
  with Cons.prems(1) consider "e \<noteq> EndedCancelled"
    | x' where "loop_pass ex code deadline tk x = PassOn x'" "run_loop ex code deadline tks x' = Some (e, y)"
    by (auto simp: run_loop.simps [of ex code deadline "tk # tks"] split: pass.splits if_splits)
  then show ?case
  proof cases
    case (2 x')
    have "run_ok ex i all n x'" using run_ok_pass [OF Cons.prems(2) _ 2(1)] Cons.prems(3) by simp
    from Cons.IH [OF 2(2) this] Cons.prems(3-5) pass_cancel [OF 2(1)] show ?thesis by simp
  qed
qed

lemma conclude_deadline:
  assumes "run_ok ex i all n x"
  shows "\<exists>s. load_state i (conclude i now (EndedDeadline, x)) = Inr s \<and> op_state s = OpFailed \<and>
    op_error_summary s = Some \<lparr>er_message = ''overall timeout exceeded'', er_detail = ''''\<rparr>"
proof -
  have "tallies ex i all n x" using assms by (simp add: run_ok_def)
  then obtain s where s: "od_state (xs_fs x i) = Some s" "op_id s = i" "\<not> is_terminal (op_state s)"
    using talliesD(9) by blast
  let ?op = "finish OpFailed (Some \<lparr>er_message = ''overall timeout exceeded'', er_detail = ''''\<rparr>) now s"
  have "od_state (save_state ?op (xs_fs x) i) = Some ?op" "op_id ?op = i"
    using s by (auto simp: save_state_def can_replace_def finish_def Let_def)
  then show ?thesis using s by (simp add: conclude_def mark_failed_def load_state_def finish_def)
qed

section \<open>Properties\<close>

text \<open>C4: A run of a new operation that selects modems and groups and has a worker, if it ends, leaves the operation in a
  terminal state, whatever its workers answer, raise or leave open (an answer has one eligibility stage, as the base worker gives), and
  has recorded only selected modems, none of them more often than it is selected.  Completion means complete: the
  state is completed only if every selected modem was captured successfully, every one of them is recorded exactly
  once, and the counters say so.  A run that fails or is cancelled may leave modems unrecorded.\<close>

theorem completed_operation_accounts:
  assumes "execute_operation i ri fs = Some (Inr fs')" and "fresh_operation i fs s0"
    and "rq_macs (op_summary s0) \<noteq> []" and "rq_groups (op_summary s0) \<noteq> []"
    and "0 < ex_workers (rq_execution (op_summary s0))" and "\<forall>tk \<in> set (ri_ticks ri). tick_ok tk"
  shows "\<exists>s. load_state i fs' = Inr s \<and> is_terminal (op_state s) \<and>
    recorded i fs' \<subseteq># mset (map item_key (build_work_items i (rq_macs (op_summary s0)) (rq_groups (op_summary s0)))) \<and>
    (op_state s = OpCompleted \<longrightarrow>
       recorded i fs' = mset (map item_key (build_work_items i (rq_macs (op_summary s0)) (rq_groups (op_summary s0)))) \<and>
       oc_total (op_counts s) = int (length (rq_macs (op_summary s0))) \<and> oc_success (op_counts s) = oc_total (op_counts s) \<and>
       oc_completed (op_counts s) = oc_total (op_counts s) \<and> oc_failed (op_counts s) = 0)"
proof -
  let ?all = "mset (map item_key (build_work_items i (rq_macs (op_summary s0)) (rq_groups (op_summary s0))))"
  obtain x where x: "run_ok (rq_execution (op_summary s0)) i ?all (int (length (rq_macs (op_summary s0)))) x"
    "execute_operation i ri fs = map_option (\<lambda>e. Inr (conclude i (ri_finish ri) e))
      (run_loop (rq_execution (op_summary s0)) (ri_timeout_code ri)
        (ri_mono ri + ex_overall (rq_execution (op_summary s0))) (ri_ticks ri) x)"
    by (rule execute_loop [OF assms(2-5)])
  obtain e y where y: "run_loop (rq_execution (op_summary s0)) (ri_timeout_code ri)
        (ri_mono ri + ex_overall (rq_execution (op_summary s0))) (ri_ticks ri) x = Some (e, y)"
    and fs': "fs' = conclude i (ri_finish ri) (e, y)"
    using assms(1) x(2) by auto
  note ok = run_ok_loop [OF y x(1) assms(6)]
  have t: "tallies (rq_execution (op_summary s0)) i ?all (int (length (rq_macs (op_summary s0)))) y"
    using ok by (simp add: run_ok_def)
  have sub: "recorded i (xs_fs y) \<subseteq># ?all"
    using talliesD(3) [OF t] by (metis mset_subset_eq_add_right)
  have "int (length (rq_macs (op_summary s0))) = int (size ?all)" unfolding size_work_items ..
  from conclude_terminal [OF ok [THEN conjunct1] ok [THEN conjunct2] fs' this]
  obtain s where "load_state i fs' = Inr s" "is_terminal (op_state s)" "recorded i fs' = recorded i (xs_fs y)"
    "op_state s = OpCompleted \<longrightarrow> oc_failed (op_counts s) = 0 \<and> oc_completed (op_counts s) = int (length (rq_macs (op_summary s0))) \<and>
       oc_success (op_counts s) = int (length (rq_macs (op_summary s0))) \<and> oc_total (op_counts s) = int (length (rq_macs (op_summary s0))) \<and>
       recorded i fs' = ?all"
    by (elim exE conjE) (rule that)
  with sub show ?thesis by (intro exI [of _ s]) simp
qed

text \<open>C16: A run never outlives its overall timeout: once the loop looks at a clock at or after the deadline,
  or the clock of any earlier pass did, it has ended.\<close>

theorem loop_ends_by_deadline:
  assumes "tk \<in> set tks" and "deadline \<le> tk_deadline tk"
  shows "\<exists>e y. run_loop ex code deadline tks x = Some (e, y)"
  using assms(1)
proof (induction tks arbitrary: x)
  case Nil
  then show ?case by simp
next
  case (Cons tk' tks)
  show ?case
  proof (cases "tk' = tk")
    case True
    with assms(2) show ?thesis
      by (subst run_loop.simps) (simp add: loop_pass_def)
  next
    case False
    with Cons.prems have "tk \<in> set tks" by simp
    from Cons.IH [OF this] show ?thesis
      by (auto simp: run_loop.simps [of ex code deadline "tk' # tks"] split: pass.split)
  qed
qed

text \<open>A cancellation that is requested before the run starts is kept: the run ends cancelled after its
  first look at the flag and no modem is recorded.\<close>

theorem early_cancel_honoured:
  assumes "fresh_operation i fs s0" and "is_cancel_requested i fs" and "rq_macs (op_summary s0) \<noteq> []"
    and "rq_groups (op_summary s0) \<noteq> []" and "0 < ex_workers (rq_execution (op_summary s0))" and "ri_ticks ri \<noteq> []"
  shows "\<exists>fs' s. execute_operation i ri fs = Some (Inr fs') \<and> load_state i fs' = Inr s \<and>
    op_state s = OpCancelled \<and> recorded i fs' = {#}"
proof -
  let ?all = "mset (map item_key (build_work_items i (rq_macs (op_summary s0)) (rq_groups (op_summary s0))))"
  obtain x where x: "run_ok (rq_execution (op_summary s0)) i ?all (int (length (rq_macs (op_summary s0)))) x"
    "execute_operation i ri fs = map_option (\<lambda>e. Inr (conclude i (ri_finish ri) e))
      (run_loop (rq_execution (op_summary s0)) (ri_timeout_code ri)
        (ri_mono ri + ex_overall (rq_execution (op_summary s0))) (ri_ticks ri) x)"
    "xs_queue x \<noteq> []" "od_cancel (xs_fs x i) = od_cancel (fs i)" "recorded i (xs_fs x) = {#}"
    by (rule execute_loop [OF assms(1,3-5)])
  obtain tk tks where tks: "ri_ticks ri = tk # tks" using assms(6) by (cases "ri_ticks ri") auto
  have "op_id (xs_op x) = i" using x(1) by (auto simp: run_ok_def dest: talliesD(1))
  with assms(2) x(4) have "loop_pass ex code deadline tk x = PassCancelled" for ex code deadline
    by (simp add: loop_pass_def is_cancel_requested_def)
  moreover have "\<not> idle x" using x(3) by (simp add: idle_def)
  ultimately have e: "execute_operation i ri fs = Some (Inr (conclude i (ri_finish ri) (EndedCancelled, x)))"
    by (simp add: x(2) tks run_loop.simps [of _ _ _ "tk # tks"])
  have "int (length (rq_macs (op_summary s0))) = int (size ?all)" unfolding size_work_items ..
  from conclude_terminal [OF x(1) _ refl this, of EndedCancelled "ri_finish ri"] e x(5) show ?thesis by auto
qed

text \<open>While an operation runs, another thread's cancellation shows in its state only until the runner
  saves: the next result that is handled writes the running state over the cancelling one.\<close>

theorem cancelling_overwritten:
  assumes "request_cancel i now fs = (Inr s, xs_fs x)" and "op_state s = OpCancelling"
    and "op_id (xs_op x) = i" and "op_state (xs_op x) = OpRunning"
  shows "\<exists>s'. load_state i (xs_fs (handle_result ex clock epoch item r x)) = Inr s' \<and> op_state s' = OpRunning"
proof -
  obtain s0 where s0: "od_state (fs i) = Some s0"
    using assms(1) by (auto simp: request_cancel_def load_state_def split: option.splits)
  have nt: "\<not> is_terminal (op_state s0)"
    using assms(1,2) s0 by (auto simp: request_cancel_def load_state_def is_terminal_def split: if_splits)
  then have fs: "xs_fs x = save_state (cancel_update now s0) (touch_cancel i fs)"
    using assms(1) s0 by (auto simp: request_cancel_def load_state_def)
  have "od_state (xs_fs x i) \<in> {Some s0, Some (cancel_update now s0)}"
    using s0 unfolding fs by (cases "op_id s0 = i") (auto simp: save_state_def cancel_update_def Let_def split: option.split)
  with nt obtain s1 where s1: "od_state (xs_fs x i) = Some s1" "\<not> is_terminal (op_state s1)"
    by (auto simp: cancel_update_def is_terminal_def)
  have sv: "od_state (save_state op fs2 i) = Some op"
    if "op_id op = i" "od_state (fs2 i) = od_state (xs_fs x i)" for op fs2
    using that s1 by (simp add: save_state_def can_replace_def Let_def)
  show ?thesis
    using assms(3,4) sv by (auto simp: handle_result_def load_state_Inr touch_times_def Let_def)
qed

section \<open>Witnesses\<close>

definition good_result :: worker_result where
  "good_result = default_worker_result 10 11"

definition quiet_tick :: tick where
  "quiet_tick = \<lparr>tk_deadline = 0, tk_ready = 0, tk_submit = (\<lambda>_. 0), tk_done = [], tk_late = [],
     tk_outcome = (\<lambda>_. Inr good_result), tk_check = 1, tk_retry = (\<lambda>_. 1), tk_epoch = (\<lambda>_. 12), tk_cancel = None\<rparr>"

definition demo_run :: run_inputs where
  "demo_run = \<lparr>ri_start = 1, ri_mono = 0, ri_ticks = [quiet_tick\<lparr>tk_done := [1, 0]\<rparr>], ri_finish = 20,
     ri_timeout_code = StatusOther 7\<rparr>"

lemma good_result_facts:
  "well_staged good_result" "final_status good_result = StatusSuccess"
  by (simp_all add: good_result_def default_worker_result_def well_staged_def build_stage_results_def plain_stage_def
      final_status_def find_stage_def)

lemma quiet_tick_ok: "tick_ok (quiet_tick\<lparr>tk_done := fs\<rparr>)" "tick_ok quiet_tick"
  by (simp_all add: tick_ok_def quiet_tick_def good_result_facts)

lemma demo_fresh: "fresh_operation ''op1'' demo_fs demo_op"
  unfolding demo_fs_def demo_op_def by (rule create_is_fresh) simp

text \<open>A run that gets as far as its loop.\<close>

lemma execute_eq:
  assumes "load_state i fs = Inr s0" and "rq_macs (op_summary s0) \<noteq> []" and "rq_groups (op_summary s0) \<noteq> []"
    and "0 < ex_workers (rq_execution (op_summary s0))"
  shows "execute_operation i ri fs = map_option (\<lambda>e. Inr (conclude i (ri_finish ri) e))
    (run_loop (rq_execution (op_summary s0)) (ri_timeout_code ri)
       (ri_mono ri + ex_overall (rq_execution (op_summary s0))) (ri_ticks ri)
       (initial_exec i (set_total (int (length (rq_macs (op_summary s0)))) (transition_to_running (ri_start ri) s0))
          (save_state (set_total (int (length (rq_macs (op_summary s0)))) (transition_to_running (ri_start ri) s0))
             (save_state (transition_to_running (ri_start ri) s0) fs))))"
proof -
  have "op_summary (transition_to_running (ri_start ri) s0) = op_summary s0" by (simp add: transition_to_running_def)
  with assms show ?thesis by (simp add: execute_operation_def Let_def)
qed

lemma demo_summary: "op_summary demo_op = demo_request"
  by (simp add: demo_op_def create_operation_def Let_def)

text \<open>The first pass of a run of two items, both submitted and both done.\<close>

lemma demo_pass:
  assumes "op_id op = ''op1''" and "od_cancel (fs ''op1'') = False" and "op_summary op = demo_request"
  shows "\<exists>y. loop_pass (rq_execution demo_request) code 100 (quiet_tick\<lparr>tk_done := [1, 0]\<rparr>) (initial_exec ''op1'' op fs) = PassOn y \<and>
    idle y \<and> oc_failed (op_counts (xs_op y)) = oc_failed (op_counts op)"
proof -
  have items: "build_work_items ''op1'' [''m1'', ''m2''] [2, 4] =
      [\<lparr>wi_operation = ''op1'', wi_sg = 2, wi_mac = ''m1'', wi_attempt = 0\<rparr>,
       \<lparr>wi_operation = ''op1'', wi_sg = 4, wi_mac = ''m2'', wi_attempt = 0\<rparr>]" (is "_ = [?a, ?b]")
    by (simp add: build_work_items_def)
  have h: "xs_op (handle_result ex c e item good_result z) =
      touch_times e ((xs_op z)\<lparr>op_counts := update_counters good_result (op_counts (xs_op z))\<rparr>)"
    "xs_retry (handle_result ex c e item good_result z) = xs_retry z" for ex c e item z
    by (simp_all add: handle_result_def good_result_facts Let_def)
  have x: "initial_exec ''op1'' op fs = \<lparr>xs_queue = [?a, ?b], xs_pending = [], xs_abandoned = [], xs_retry = [],
      xs_next = 0, xs_op = op, xs_fs = fs\<rparr>"
    using assms(3) items by (simp add: initial_exec_def demo_request_def)
  show ?thesis
    unfolding x using assms(1,2)
    by (simp add: loop_pass_def is_cancel_requested_def quiet_tick_def external_cancel_def numeral_2_eq_2 timed_out_def
        drop_flight_def expired_def resolve_future_def demo_request_def take_ready_def idle_def h touch_times_def
        update_counters_simps good_result_facts Let_def)
qed

lemma completed_operation_accounts_witness:
  "\<exists>fs' s. execute_operation ''op1'' demo_run demo_fs = Some (Inr fs') \<and> load_state ''op1'' fs' = Inr s \<and>
     op_state s = OpCompleted \<and> oc_success (op_counts s) = 2 \<and> recorded ''op1'' fs' = {#(2, ''m1''), (4, ''m2'')#}"
proof -
  let ?s1 = "transition_to_running 1 demo_op"
  let ?s2 = "set_total 2 ?s1"
  let ?fs2 = "save_state ?s2 (save_state ?s1 demo_fs)"
  have c: "op_id ?s2 = ''op1''" "op_summary ?s2 = demo_request" "od_cancel (?fs2 ''op1'') = False"
    "oc_failed (op_counts ?s2) = 0"
    using demo_fresh by (simp_all add: set_total_def transition_to_running_def demo_summary demo_fs_state
        fresh_operation_def zero_counters_def)
  obtain y where y: "loop_pass (rq_execution demo_request) (StatusOther 7) 100 (quiet_tick\<lparr>tk_done := [1, 0]\<rparr>)
      (initial_exec ''op1'' ?s2 ?fs2) = PassOn y" "idle y" "oc_failed (op_counts (xs_op y)) = 0"
    using demo_pass [of ?s2 ?fs2, OF c(1,3,2)] c(4) by auto
  have "\<not> idle (initial_exec ''op1'' ?s2 ?fs2)"
    by (simp add: idle_def initial_exec_def c(2) demo_request_def build_work_items_def)
  with y have "run_loop (rq_execution demo_request) (StatusOther 7) 100 [quiet_tick\<lparr>tk_done := [1, 0]\<rparr>]
      (initial_exec ''op1'' ?s2 ?fs2) = Some (EndedIdle, y)"
    by (subst run_loop.simps) (simp add: run_loop.simps [of _ _ _ "[]"])
  then have loop: "run_loop (rq_execution demo_request) (StatusOther 7) 100 [quiet_tick\<lparr>tk_done := [1, 0]\<rparr>]
      (initial_exec ''op1'' ?s2 ?fs2) = Some (EndedIdle, y)" .
  have macs: "rq_macs (op_summary demo_op) = [''m1'', ''m2'']" "rq_groups (op_summary demo_op) = [2, 4]"
    "0 < ex_workers (rq_execution (op_summary demo_op))"
    by (simp_all add: demo_summary demo_request_def)
  have ri: "ri_start demo_run = 1" "ri_mono demo_run + ex_overall (rq_execution demo_request) = 100"
    "ri_ticks demo_run = [quiet_tick\<lparr>tk_done := [1, 0]\<rparr>]" "ri_finish demo_run = 20" "ri_timeout_code demo_run = StatusOther 7"
    by (simp_all add: demo_run_def demo_request_def)
  have ld: "load_state ''op1'' demo_fs = Inr demo_op" using demo_fresh by (simp add: fresh_operation_def)
  have two: "int (length (rq_macs demo_request)) = 2" by (simp add: demo_request_def)
  have "rq_macs (op_summary demo_op) \<noteq> []" "rq_groups (op_summary demo_op) \<noteq> []" by (simp_all add: macs)
  from execute_eq [OF ld this macs(3), of demo_run]
  have ex: "execute_operation ''op1'' demo_run demo_fs = Some (Inr (conclude ''op1'' 20 (EndedIdle, y)))"
    unfolding ri demo_summary two loop by (simp only: loop option.map)
  have ticks: "\<forall>tk \<in> set (ri_ticks demo_run). tick_ok tk" by (simp add: demo_run_def quiet_tick_ok)
  obtain s where s: "load_state ''op1'' (conclude ''op1'' 20 (EndedIdle, y)) = Inr s"
    "op_state s = OpCompleted \<longrightarrow> recorded ''op1'' (conclude ''op1'' 20 (EndedIdle, y)) =
       mset (map item_key (build_work_items ''op1'' (rq_macs (op_summary demo_op)) (rq_groups (op_summary demo_op)))) \<and>
       oc_total (op_counts s) = int (length (rq_macs (op_summary demo_op))) \<and> oc_success (op_counts s) = oc_total (op_counts s)"
    using completed_operation_accounts [OF ex demo_fresh _ _ macs(3) ticks] macs by auto
  have keys: "map item_key (build_work_items ''op1'' [''m1'', ''m2''] [2, 4]) = [(2, ''m1''), (4, ''m2'')]"
    by (simp add: build_work_items_def item_key_def)
  let ?all = "mset (map item_key (build_work_items ''op1'' (rq_macs (op_summary ?s2)) (rq_groups (op_summary ?s2))))"
  have st: "od_state (save_state ?s1 demo_fs ''op1'') = Some ?s1" "od_state (?fs2 ''op1'') = Some ?s2"
    using demo_fresh by (simp_all add: save_state_def can_replace_def is_terminal_def set_total_def
        transition_to_running_def demo_fs_state Let_def)
  have "run_ok (rq_execution demo_request) ''op1'' ?all 2 (initial_exec ''op1'' ?s2 ?fs2)"
    by (rule run_ok_initial [of ?fs2 "''op1''" ?s2, OF st(2) c(1)])
      (simp_all add: set_total_def transition_to_running_def demo_fs_state demo_fresh [unfolded fresh_operation_def] zero_counters_def)
  from run_ok_pass [OF this quiet_tick_ok(1) y(1)] have "run_ok (rq_execution demo_request) ''op1'' ?all 2 y" .
  from conclude_terminal [OF this _ refl, of EndedIdle 20] y(2,3) s(1)
  have "op_state s = OpCompleted" unfolding c(2) by (auto simp: demo_request_def keys)
  with s ex keys show ?thesis by (simp add: macs)
qed

lemma loop_ends_by_deadline_witness:
  "\<exists>e y. run_loop (rq_execution demo_request) StatusFailure 100 [quiet_tick, quiet_tick\<lparr>tk_deadline := 100\<rparr>]
     (initial_exec ''op1'' demo_op demo_fs) = Some (e, y)"
  by (rule loop_ends_by_deadline [of "quiet_tick\<lparr>tk_deadline := 100\<rparr>"]) simp_all

lemma early_cancel_honoured_witness:
  "\<exists>fs' s. execute_operation ''op1'' demo_run (touch_cancel ''op1'' demo_fs) = Some (Inr fs') \<and>
     load_state ''op1'' fs' = Inr s \<and> op_state s = OpCancelled \<and> recorded ''op1'' fs' = {#}"
proof (rule early_cancel_honoured)
  show "fresh_operation ''op1'' (touch_cancel ''op1'' demo_fs) demo_op"
    using demo_fresh by (simp add: fresh_operation_def load_state_def touch_cancel_def)
qed (simp_all add: is_cancel_requested_def touch_cancel_def demo_summary demo_request_def demo_run_def)

lemma cancelling_overwritten_witness:
  "\<exists>s'. load_state ''op1'' (xs_fs (handle_result (rq_execution demo_request) 1 2
     \<lparr>wi_operation = ''op1'', wi_sg = 2, wi_mac = ''m1'', wi_attempt = 0\<rparr> good_result
     (initial_exec ''op1'' (transition_to_running 1 demo_op) (snd (request_cancel ''op1'' 105 demo_fs))))) = Inr s' \<and>
     op_state s' = OpRunning"
proof (rule cancelling_overwritten [of "''op1''" 105 demo_fs "cancel_update 105 demo_op"])
  show "request_cancel ''op1'' 105 demo_fs = (Inr (cancel_update 105 demo_op),
      xs_fs (initial_exec ''op1'' (transition_to_running 1 demo_op) (snd (request_cancel ''op1'' 105 demo_fs))))"
    by (simp add: request_cancel_def load_state_def demo_fs_state is_terminal_def initial_exec_def)
qed (simp_all add: cancel_update_def initial_exec_def transition_to_running_def demo_fs_state)

text \<open>A modem whose worker hangs: the first attempt is abandoned, the retry succeeds, and the hung future
  is still there when the deadline passes.\<close>

definition one_request :: op_request where
  "one_request = demo_request\<lparr>rq_groups := [2], rq_macs := [''m1'']\<rparr>"

definition one_op :: operation where
  "one_op = (transition_to_running 1 demo_op)\<lparr>op_summary := one_request, op_counts := zero_counters\<lparr>oc_total := 1\<rparr>\<rparr>"

definition hung_ticks :: "tick list" where
  "hung_ticks =
     [quiet_tick\<lparr>tk_check := 20, tk_retry := (\<lambda>_. 20)\<rparr>,
      quiet_tick\<lparr>tk_ready := 21, tk_submit := (\<lambda>_. 21), tk_done := [1], tk_check := 22\<rparr>,
      quiet_tick\<lparr>tk_deadline := 100\<rparr>]"

text \<open>C21: One worker that hangs fails the whole operation, one that is new, selects modems and groups and has a worker.  When the first attempt at the first modem never returns
  and nobody cancels, a run that ends leaves the operation failed with the overall timeout, whatever became of the
  retry of this modem and of all other modems: the loop waits for the abandoned attempt until the deadline.\<close>

theorem hung_worker_fails_operation:
  assumes "execute_operation i ri fs = Some (Inr fs')" and "fresh_operation i fs s0"
    and "rq_macs (op_summary s0) \<noteq> []" and "rq_groups (op_summary s0) \<noteq> []"
    and "0 < ex_workers (rq_execution (op_summary s0))" and "\<forall>tk \<in> set (ri_ticks ri). tick_ok tk"
    and "\<forall>tk \<in> set (ri_ticks ri). 0 \<notin> set (tk_done tk)"
    and "\<not> is_cancel_requested i fs" and "\<forall>tk \<in> set (ri_ticks ri). tk_cancel tk = None"
  shows "\<exists>s. load_state i fs' = Inr s \<and> op_state s = OpFailed \<and>
    op_error_summary s = Some \<lparr>er_message = ''overall timeout exceeded'', er_detail = ''''\<rparr>"
proof -
  let ?ex = "rq_execution (op_summary s0)"
  obtain x where x: "run_ok ?ex i (mset (map item_key (build_work_items i (rq_macs (op_summary s0)) (rq_groups (op_summary s0)))))
      (int (length (rq_macs (op_summary s0)))) x"
    "execute_operation i ri fs = map_option (\<lambda>e. Inr (conclude i (ri_finish ri) e))
      (run_loop ?ex (ri_timeout_code ri) (ri_mono ri + ex_overall ?ex) (ri_ticks ri) x)"
    "xs_queue x \<noteq> []" "od_cancel (xs_fs x i) = od_cancel (fs i)" "recorded i (xs_fs x) = {#}"
    "xs_next x = 0" "xs_pending x = []" "xs_abandoned x = []"
    by (rule execute_loop [OF assms(2-5)])
  obtain e y where y: "run_loop ?ex (ri_timeout_code ri) (ri_mono ri + ex_overall ?ex) (ri_ticks ri) x = Some (e, y)"
    and fs': "fs' = conclude i (ri_finish ri) (e, y)" using assms(1) x(2) by auto
  have "e \<noteq> EndedIdle" by (rule run_loop_first_hung [OF y x(3,7,8,6) assms(5,7)])
  moreover have "e \<noteq> EndedCancelled"
    by (rule run_loop_not_cancelled [OF y x(1) assms(6) _ assms(9)]) (use assms(8) x(4) in \<open>simp add: is_cancel_requested_def\<close>)
  ultimately have "e = EndedDeadline" by (cases e) auto
  with conclude_deadline [OF run_ok_loop [OF y x(1) assms(6), THEN conjunct1]] fs' show ?thesis by simp
qed

definition hung_run :: run_inputs where
  "hung_run = demo_run\<lparr>ri_ticks := hung_ticks\<rparr>"

lemma hung_worker_fails_operation_witness:
  "\<exists>fs' s. execute_operation ''op1'' hung_run demo_fs = Some (Inr fs') \<and> load_state ''op1'' fs' = Inr s \<and> op_state s = OpFailed"
proof -
  have ld: "load_state ''op1'' demo_fs = Inr demo_op" using demo_fresh by (simp add: fresh_operation_def)
  have ok: "rq_macs (op_summary demo_op) \<noteq> []" "rq_groups (op_summary demo_op) \<noteq> []"
    "0 < ex_workers (rq_execution (op_summary demo_op))" "ex_overall (rq_execution (op_summary demo_op)) = 100"
    by (simp_all add: demo_summary demo_request_def)
  have "\<exists>e. run_loop ex code 100 hung_ticks x = Some e" for ex code x
    by (simp add: hung_ticks_def run_loop.simps loop_pass_def split: pass.split)
  then obtain fs' where e: "execute_operation ''op1'' hung_run demo_fs = Some (Inr fs')"
    using execute_eq [OF ld ok(1-3), of hung_run] by (fastforce simp: hung_run_def demo_run_def ok(4))
  have "\<forall>tk \<in> set (ri_ticks hung_run). tick_ok tk \<and> 0 \<notin> set (tk_done tk) \<and> tk_cancel tk = None"
    by (simp add: hung_run_def hung_ticks_def tick_ok_def quiet_tick_def good_result_facts)
  with hung_worker_fails_operation [OF e demo_fresh ok(1-3)] e show ?thesis
    by (auto simp: is_cancel_requested_def demo_fs_state)
qed

text \<open>Such a run may have captured everything: with one modem, whose retry succeeds, the loop ends at the deadline
  with nothing left to do and nothing failed but the abandoned attempt.\<close>

theorem hung_modem_was_captured:
  "\<exists>y. run_loop (rq_execution one_request) (StatusOther 7) 100 hung_ticks (initial_exec ''op1'' one_op demo_fs) = Some (EndedDeadline, y) \<and>
     oc_success (op_counts (xs_op y)) = 1 \<and> oc_total (op_counts (xs_op y)) = 1 \<and> oc_failed (op_counts (xs_op y)) = 0 \<and>
     xs_queue y = [] \<and> xs_pending y = [] \<and> xs_retry y = [] \<and> map fst (xs_abandoned y) = [0]"
proof -
  have items: "build_work_items ''op1'' [''m1''] [2] = [\<lparr>wi_operation = ''op1'', wi_sg = 2, wi_mac = ''m1'', wi_attempt = 0\<rparr>]" (is "_ = [?a]")
    by (simp add: build_work_items_def)
  have x: "initial_exec ''op1'' one_op demo_fs = \<lparr>xs_queue = [?a], xs_pending = [], xs_abandoned = [], xs_retry = [],
      xs_next = 0, xs_op = one_op, xs_fs = demo_fs\<rparr>"
    using items by (simp add: initial_exec_def one_op_def one_request_def demo_request_def)
  have op: "op_id one_op = ''op1''" "op_state one_op = OpRunning" "op_counts one_op = zero_counters\<lparr>oc_total := 1\<rparr>"
    by (simp_all add: one_op_def transition_to_running_def demo_fs_state)
  let ?fs1 = "save_state (touch_times 12 one_op) demo_fs"
  let ?x1 = "\<lparr>xs_queue = [], xs_pending = [], xs_abandoned = [(0, ?a, 0)], xs_retry = [(20, ?a\<lparr>wi_attempt := 1\<rparr>)],
      xs_next = 1, xs_op = touch_times 12 one_op, xs_fs = ?fs1\<rparr>"
  have timeout: "final_status (timeout_result (StatusOther 7) e) = StatusOther 7" for e
    by (simp add: timeout_result_def build_stage_results_def plain_stage_def final_status_def find_stage_def)
  have p1: "loop_pass (rq_execution one_request) (StatusOther 7) 100 (quiet_tick\<lparr>tk_check := 20, tk_retry := (\<lambda>_. 20)\<rparr>)
      (initial_exec ''op1'' one_op demo_fs) = PassOn ?x1"
    unfolding x
    by (simp add: loop_pass_def is_cancel_requested_def quiet_tick_def external_cancel_def timed_out_def op demo_fs_state
        drop_flight_def expired_def one_request_def demo_request_def take_ready_def handle_result_def timeout Let_def)
  have op2: "op_id (touch_times 12 one_op) = ''op1''" "op_counts (touch_times 12 one_op) = zero_counters\<lparr>oc_total := 1\<rparr>"
    by (simp_all add: touch_times_def op)
  have pass2: "\<exists>x2. loop_pass (rq_execution one_request) (StatusOther 7) 100
      (quiet_tick\<lparr>tk_ready := 21, tk_submit := (\<lambda>_. 21), tk_done := [1], tk_check := 22\<rparr>)
      \<lparr>xs_queue = [], xs_pending = [], xs_abandoned = [(0, ?a, 0)], xs_retry = [(20, ?a\<lparr>wi_attempt := 1\<rparr>)],
       xs_next = 1, xs_op = op1, xs_fs = fs1\<rparr> = PassOn x2 \<and>
      xs_queue x2 = [] \<and> xs_pending x2 = [] \<and> xs_retry x2 = [] \<and> xs_abandoned x2 = [(0, ?a, 0)] \<and>
      op_counts (xs_op x2) = update_counters good_result (op_counts op1) \<and> op_id (xs_op x2) = ''op1'' \<and>
      od_cancel (xs_fs x2 ''op1'') = False"
    if "op_id op1 = ''op1''" "od_cancel (fs1 ''op1'') = False" for op1 fs1
    using that
    by (simp add: loop_pass_def is_cancel_requested_def quiet_tick_def external_cancel_def timed_out_def
        drop_flight_def expired_def one_request_def demo_request_def take_ready_def handle_result_def good_result_facts
        resolve_future_def touch_times_def Let_def)
  have "od_cancel (?fs1 ''op1'') = False" by (simp add: demo_fs_state)
  from pass2 [of "touch_times 12 one_op" ?fs1, OF op2(1) this] obtain x2 where p2: "loop_pass (rq_execution one_request) (StatusOther 7) 100
      (quiet_tick\<lparr>tk_ready := 21, tk_submit := (\<lambda>_. 21), tk_done := [1], tk_check := 22\<rparr>) ?x1 = PassOn x2"
    "xs_queue x2 = []" "xs_pending x2 = []" "xs_retry x2 = []" "xs_abandoned x2 = [(0, ?a, 0)]"
    "op_counts (xs_op x2) = update_counters good_result (zero_counters\<lparr>oc_total := 1\<rparr>)" "op_id (xs_op x2) = ''op1''"
    "od_cancel (xs_fs x2 ''op1'') = False"
    unfolding op2(2) by (elim exE conjE) (rule that)
  have p3: "loop_pass (rq_execution one_request) (StatusOther 7) 100 (quiet_tick\<lparr>tk_deadline := 100\<rparr>) x2 = PassDeadline"
    by (simp add: loop_pass_def is_cancel_requested_def p2)
  have idle: "\<not> idle (initial_exec ''op1'' one_op demo_fs)" "\<not> idle ?x1" "\<not> idle x2"
    by (simp_all add: x idle_def p2)
  have "run_loop (rq_execution one_request) (StatusOther 7) 100 hung_ticks (initial_exec ''op1'' one_op demo_fs) = Some (EndedDeadline, x2)"
    unfolding hung_ticks_def
    by (subst run_loop.simps, simp only: idle(1) p1 if_False list.case pass.case,
        subst run_loop.simps, simp only: idle(2) p2(1) if_False list.case pass.case,
        subst run_loop.simps, simp only: idle(3) p3 if_False list.case pass.case)
  moreover have "oc_success (op_counts (xs_op x2)) = 1 \<and> oc_total (op_counts (xs_op x2)) = 1 \<and> oc_failed (op_counts (xs_op x2)) = 0"
    by (simp add: p2 update_counters_def good_result_facts zero_counters_def Let_def)
  ultimately show ?thesis using p2 by simp
qed

text \<open>The states the loop passes through.\<close>

inductive pass_reach :: "op_execution \<Rightarrow> status_code \<Rightarrow> real \<Rightarrow> exec_state \<Rightarrow> exec_state \<Rightarrow> bool" for ex code deadline x0 where
  Begin: "pass_reach ex code deadline x0 x0"
| Pass: "pass_reach ex code deadline x0 x \<Longrightarrow> tick_ok tk \<Longrightarrow> loop_pass ex code deadline tk x = PassOn y \<Longrightarrow>
    pass_reach ex code deadline x0 y"

lemma run_ok_reach: "pass_reach ex code deadline x0 x \<Longrightarrow> run_ok ex i all n x0 \<Longrightarrow> run_ok ex i all n x"
  by (induction rule: pass_reach.induct) (auto intro: run_ok_pass)

text \<open>C8: In every state of the loop no more futures are in flight, abandoned ones included, than there are
  workers, no future is in two places, every attempt is within the retry budget, and the items
  that wait, fly or are due for a retry together with the completed count make up the total.\<close>

theorem loop_keeps_bounds:
  assumes "pass_reach (rq_execution (op_summary op)) code deadline (initial_exec i op fs) x"
    and "load_state i fs = Inr op" and "op_id op = i" and "op_state op = OpRunning" and "od_results (fs i) = []"
    and "op_counts op = zero_counters\<lparr>oc_total := int (length (rq_macs (op_summary op)))\<rparr>"
  shows "int (length (xs_pending x) + length (xs_abandoned x)) \<le> max 0 (ex_workers (rq_execution (op_summary op))) \<and>
    distinct (map fst (xs_pending x @ xs_abandoned x)) \<and>
    (\<forall>item \<in> set (live_items x). wi_attempt item \<le> max 0 (ex_retries (rq_execution (op_summary op)))) \<and>
    oc_completed (op_counts (xs_op x)) + int (length (live_items x)) = oc_total (op_counts (xs_op x))"
proof -
  let ?all = "mset (map item_key (build_work_items i (rq_macs (op_summary op)) (rq_groups (op_summary op))))"
  have "run_ok (rq_execution (op_summary op)) i ?all (int (length (rq_macs (op_summary op)))) (initial_exec i op fs)"
    by (rule run_ok_initial [of fs i op]) (use assms(2-6) in \<open>simp_all add: load_state_Inr zero_counters_def\<close>)
  from run_ok_reach [OF assms(1) this]
  have t: "tallies (rq_execution (op_summary op)) i ?all (int (length (rq_macs (op_summary op)))) x"
    and f: "flights_ok (rq_execution (op_summary op)) x" by (simp_all add: run_ok_def)
  have "size (image_mset item_key (mset (live_items x)) + recorded i (xs_fs x)) = length (rq_macs (op_summary op))"
    unfolding talliesD(3) [OF t] size_work_items ..
  then have "int (length (live_items x)) + int (size (recorded i (xs_fs x))) = int (length (rq_macs (op_summary op)))"
    by simp
  with talliesD(4,7,8) [OF t] f show ?thesis by (simp add: flights_ok_def)
qed

lemma loop_keeps_bounds_witness:
  "\<exists>y. loop_pass (rq_execution demo_request) StatusFailure 100 (quiet_tick\<lparr>tk_done := [1, 0]\<rparr>)
     (initial_exec ''op1'' (set_total 2 (transition_to_running 1 demo_op))
        (save_state (set_total 2 (transition_to_running 1 demo_op)) demo_fs)) = PassOn y \<and>
     int (length (xs_pending y) + length (xs_abandoned y)) \<le> 2"
proof -
  let ?op = "set_total 2 (transition_to_running 1 demo_op)"
  let ?fs = "save_state ?op demo_fs"
  have op: "op_id ?op = ''op1''" "op_summary ?op = demo_request" "op_state ?op = OpRunning"
    "op_counts ?op = zero_counters\<lparr>oc_total := 2\<rparr>"
    using demo_fresh by (simp_all add: set_total_def transition_to_running_def demo_summary fresh_operation_def)
  have fs: "od_cancel (?fs ''op1'') = False" "od_results (?fs ''op1'') = []" by (simp_all add: demo_fs_state)
  have ld: "load_state ''op1'' ?fs = Inr ?op"
    using op demo_fs_state by (simp add: load_state_Inr save_state_def can_replace_def is_terminal_def Let_def)
  obtain y where y: "loop_pass (rq_execution demo_request) StatusFailure 100 (quiet_tick\<lparr>tk_done := [1, 0]\<rparr>)
      (initial_exec ''op1'' ?op ?fs) = PassOn y"
    using demo_pass [of ?op ?fs, OF op(1) fs(1) op(2)] by blast
  have "pass_reach (rq_execution (op_summary ?op)) StatusFailure 100 (initial_exec ''op1'' ?op ?fs) y"
    unfolding op(2) by (rule pass_reach.Pass [OF pass_reach.Begin quiet_tick_ok(1) y])
  from loop_keeps_bounds [OF this ld op(1,3) fs(2)] y show ?thesis
    unfolding op(2) by (simp add: op(4) demo_request_def)
qed

end
