(* ===== verification/CaptureWorker.thy ===== *)
theory CaptureWorker
  imports Scope OperationRunner
begin

text \<open>
  What a worker does with one modem: the three stages of
  \<open>api/common/service/pnm/capture_worker.py\<close>, the reading of the capture's answer in
  \<open>api/common/service/pnm/capture.py\<close>, and the RxMER capture stage and request summary of
  \<open>api/routes/pnm/sg/ds/ofdm/rxmer/service.py\<close>.  The precheck and the capture call are inputs
  (they run in the pypnm package); \<open>py_str\<close> is \<open>str\<close> on a JSON value.
\<close>

section \<open>The capture's answer\<close>

datatype payload_element = MessagePayload string json | DictPayload "(string \<times> json) list" | OtherPayload

record message_response =
  mr_status :: status_code
  mr_payload :: "payload_element list option"

definition extract_payload_entry :: "(json \<Rightarrow> string) \<Rightarrow> payload_element \<Rightarrow> string option \<times> json option" where
  "extract_payload_entry py_str el =
     (case el of
        MessagePayload ty msg \<Rightarrow> (Some ty, Some msg)
      | DictPayload d \<Rightarrow> (map_option py_str (json_get ''message_type'' d), json_get ''message'' d)
      | OtherPayload \<Rightarrow> (None, None))"

text \<open>The transaction and the file name of an element, when it is a message of the expected type that
  has both.\<close>

definition entry_transaction :: "(json \<Rightarrow> string) \<Rightarrow> string \<Rightarrow> payload_element \<Rightarrow> (string \<times> string) option" where
  "entry_transaction py_str expected el =
     (case extract_payload_entry py_str el of
        (ty, Some (JDict m)) \<Rightarrow>
          if ty \<noteq> Some expected then None
          else (case (json_get ''transaction_id'' m, json_get ''filename'' m) of
                  (Some tx, Some f) \<Rightarrow> Some (py_str tx, py_str f)
                | _ \<Rightarrow> None)
      | _ \<Rightarrow> None)"

fun first_transaction :: "(json \<Rightarrow> string) \<Rightarrow> string \<Rightarrow> payload_element list \<Rightarrow> (string \<times> string) option" where
  "first_transaction py_str expected [] = None"
| "first_transaction py_str expected (el # els) =
     (case entry_transaction py_str expected el of
        Some t \<Rightarrow> Some t | None \<Rightarrow> first_transaction py_str expected els)"

definition parse_capture_response ::
  "(json \<Rightarrow> string) \<Rightarrow> (status_code \<Rightarrow> string) \<Rightarrow> string \<Rightarrow> message_response option \<Rightarrow>
   status_code \<times> (string \<times> string) option \<times> string" where
  "parse_capture_response py_str name expected resp =
     (case resp of
        None \<Rightarrow> (StatusFailure, None, ''capture returned no message response'')
      | Some r \<Rightarrow>
          if mr_status r \<noteq> StatusSuccess then (mr_status r, None, name (mr_status r))
          else (case mr_payload r of
                  None \<Rightarrow> (StatusFailure, None, ''missing transaction_id or filename'')
                | Some els \<Rightarrow>
                    (case first_transaction py_str expected els of
                       Some t \<Rightarrow> (StatusSuccess, Some t, '''')
                     | None \<Rightarrow> (StatusTransactionNotFound, None, ''missing transaction_id or filename''))))"

definition resolve_tftp_servers :: "string \<times> string \<Rightarrow> op_context option \<Rightarrow> string \<times> string" where
  "resolve_tftp_servers defaults cx =
     ((case cx of None \<Rightarrow> fst defaults | Some c \<Rightarrow> (case cx_tftp_ipv4 c of None \<Rightarrow> fst defaults | Some a \<Rightarrow> a)),
      (case cx of None \<Rightarrow> snd defaults | Some c \<Rightarrow> (case cx_tftp_ipv6 c of None \<Rightarrow> snd defaults | Some a \<Rightarrow> a)))"

definition resolve_write_community :: "string \<Rightarrow> op_context option \<Rightarrow> string" where
  "resolve_write_community fallback cx =
     (case cx of None \<Rightarrow> fallback | Some c \<Rightarrow> (case cx_community c of None \<Rightarrow> fallback | Some x \<Rightarrow> x))"

section \<open>The stages\<close>

text \<open>What a worker reads outside the store.  The precheck and the capture may raise (the text of the
  exception); an address the parser refuses raises when the modem object is built.\<close>

record worker_env =
  we_now :: int
  we_resolve :: "int \<Rightarrow> string \<Rightarrow> string option"
  we_community :: string
  we_precheck :: "string \<Rightarrow> string \<Rightarrow> string \<Rightarrow> string + (status_code \<times> string)"
  we_tftp :: "string \<times> string"
  we_capture :: "string \<Rightarrow> string \<Rightarrow> string \<Rightarrow> int list \<Rightarrow> string \<times> string \<Rightarrow> string + message_response option"
  we_str :: "json \<Rightarrow> string"
  we_name :: "status_code \<Rightarrow> string"
  we_capture_now :: int

definition stage_of :: "op_stage \<Rightarrow> status_code \<Rightarrow> string \<Rightarrow> int \<Rightarrow> stage_result" where
  "stage_of st code msg now = plain_stage st code None msg now now"

text \<open>The RxMER capture stage.\<close>

definition rxmer_capture ::
  "worker_env \<Rightarrow> string \<Rightarrow> string \<Rightarrow> string \<Rightarrow> int list \<Rightarrow> op_context option \<Rightarrow> string + stage_result" where
  "rxmer_capture we mac ip community channels cx =
     (case we_capture we mac ip community channels (resolve_tftp_servers (we_tftp we) cx) of
        Inl msg \<Rightarrow> Inl msg
      | Inr resp \<Rightarrow>
          (let (code, tx, msg) = parse_capture_response (we_str we) (we_name we) ''PNM_FILE_TRANSACTION'' resp;
               found = (code = StatusSuccess \<and> tx \<noteq> None)
           in Inr \<lparr>sr_stage = CaptureStage, sr_status = code, sr_reason = None,
                   sr_channel = (case channels of [c] \<Rightarrow> Some c | _ \<Rightarrow> None),
                   sr_transactions = (if found then [fst (the tx)] else []),
                   sr_files = (if found then [snd (the tx)] else []),
                   sr_message = (if found then msg
                                 else if msg \<noteq> '''' then msg else ''missing transaction_id or filename''),
                   sr_started = we_capture_now we, sr_finished = we_capture_now we\<rparr>))"

text \<open>\<open>__call__\<close>: eligibility, precheck, capture, stopping at the first that fails.  \<open>Inl\<close> is the text of
  the exception that leaves the worker.\<close>

definition run_worker :: "worker_env \<Rightarrow> op_fs \<Rightarrow> work_item \<Rightarrow> string + worker_result" where
  "run_worker we fs item =
     (case load_state (wi_operation item) fs of
        Inl _ \<Rightarrow> Inl ''operation state not found''
      | Inr s \<Rightarrow>
          (let cx = load_context (wi_operation item) fs;
               ip = we_resolve we (wi_sg item) (wi_mac item)
           in case ip of
                None \<Rightarrow> Inr \<lparr>wr_ip = None,
                  wr_stages = [stage_of EligibilityStage StatusInvalidParameters ''modem ip address missing'' (we_now we)]\<rparr>
              | Some a \<Rightarrow>
                  (let e = stage_of EligibilityStage StatusSuccess '''' (we_now we);
                       community = resolve_write_community (we_community we) cx
                   in case we_precheck we (wi_mac item) a community of
                        Inl msg \<Rightarrow> Inl msg
                      | Inr (code, msg) \<Rightarrow>
                          (let p = stage_of PrecheckStage code msg (we_now we)
                           in if code \<noteq> StatusSuccess then Inr \<lparr>wr_ip = Some a, wr_stages = [e, p]\<rparr>
                              else (case rxmer_capture we (wi_mac item) a community (rq_channels (op_summary s)) cx of
                                      Inl msg \<Rightarrow> Inl msg
                                    | Inr c \<Rightarrow> Inr \<lparr>wr_ip = Some a, wr_stages = [e, p, c]\<rparr>)))))"

section \<open>The request\<close>

text \<open>\<open>_validate_requested_downstream_ofdm_channel_ids\<close> on the store it resolved: the channels it
  rejects.\<close>

definition valid_ofdm_channels :: "store \<Rightarrow> int list \<Rightarrow> int list" where
  "valid_ofdm_channels s sgs =
     dedupe_by id [] (concat (map (\<lambda>sg. case s sg of
        None \<Rightarrow> []
      | Some e \<Rightarrow> map rf_id (filter (\<lambda>c. rf_kind c = Ofdm) (pl_ds_rf (sn_payload (ce_snapshot e))))) sgs))"

definition validate_channels :: "int list \<Rightarrow> int list \<Rightarrow> store option \<Rightarrow> int list" where
  "validate_channels requested sgs st =
     (if requested = [] \<or> sgs = [] then []
      else case st of
             None \<Rightarrow> []
           | Some s \<Rightarrow>
               (let valid = valid_ofdm_channels s sgs
                in if valid = [] then [] else filter (\<lambda>c. c \<notin> set valid) requested))"

text \<open>\<open>_build_request_summary\<close>: the scope, the channels checked (422 with the rejected ones), and the
  summary that is stored.\<close>

definition build_request_summary ::
  "keyed_store option \<Rightarrow> keyed_store option \<Rightarrow> int list \<Rightarrow> string list \<Rightarrow> int list \<Rightarrow> op_execution \<Rightarrow>
   (int list + op_request) \<times> keyed_store option" where
  "build_request_summary kept loader sgs macs channels ex =
     (let ((rsgs, rmacs), kept') = resolve_modem_scope kept loader sgs macs;
          st = resolve_store kept' loader;
          bad = validate_channels channels rsgs (map_option fst st)
      in (if bad \<noteq> [] then Inl bad
          else Inr \<lparr>rq_groups = rsgs, rq_macs = rmacs, rq_channels = channels, rq_execution = ex\<rparr>,
          if channels = [] \<or> rsgs = [] then kept' else st))"

section \<open>Lemmas\<close>

lemma run_worker_well_staged: "run_worker we fs item = Inr r \<Longrightarrow> well_staged r"
  by (auto simp: run_worker_def rxmer_capture_def well_staged_def stage_of_def plain_stage_def Let_def
      split: sum.splits option.splits prod.splits if_splits)


lemma build_work_items_aligned:
  "length macs = length sgs \<Longrightarrow> map item_key (build_work_items i macs sgs) = zip sgs macs"
  by (rule nth_equalityI) (simp_all add: build_work_items_keys nth_enumerate_eq)

lemma build_work_items_one:
  "build_work_items i [mac] (sg # sgs) = [\<lparr>wi_operation = i, wi_sg = sg, wi_mac = mac, wi_attempt = 0\<rparr>]"
  by (simp add: build_work_items_def)

lemma not_in_group_no_ip:
  "\<not> in_group s sg mac \<Longrightarrow> fst (resolve_modem_ip hex inet (Some (s, keys)) runtime sg mac) = None"
  by (auto simp: resolve_modem_ip_def in_group_def store_get_def find_None_iff split: option.splits)
     (metis (mono_tags, lifting) find_None_iff image_eqI option.distinct(1))

lemma no_channels_accepted: "\<exists>rq kept'. build_request_summary kept loader sgs macs [] ex = (Inr rq, kept')"
proof -
  obtain rsgs rmacs k where "resolve_modem_scope kept loader sgs macs = ((rsgs, rmacs), k)" by (metis prod.exhaust)
  then show ?thesis by (simp add: build_request_summary_def validate_channels_def Let_def)
qed

lemma parse_success:
  "parse_capture_response ps nm ty resp = (StatusSuccess, tx, msg) \<Longrightarrow> \<exists>t f. tx = Some (t, f)"
  by (cases tx) (auto simp: parse_capture_response_def split: option.splits if_splits)

lemma rxmer_capture_success:
  assumes "rxmer_capture we mac ip community channels cx = Inr c"
  shows "sr_stage c = CaptureStage \<and>
    (sr_status c = StatusSuccess \<longleftrightarrow> (\<exists>t f. sr_transactions c = [t] \<and> sr_files c = [f]))"
proof -
  obtain resp where resp: "we_capture we mac ip community channels (resolve_tftp_servers (we_tftp we) cx) = Inr resp"
    using assms by (auto simp: rxmer_capture_def split: sum.splits)
  obtain code tx msg where p: "parse_capture_response (we_str we) (we_name we) ''PNM_FILE_TRANSACTION'' resp = (code, tx, msg)"
    by (metis prod.exhaust)
  have c: "sr_stage c = CaptureStage" "sr_status c = code"
    "sr_transactions c = (if code = StatusSuccess \<and> tx \<noteq> None then [fst (the tx)] else [])"
    "sr_files c = (if code = StatusSuccess \<and> tx \<noteq> None then [snd (the tx)] else [])"
    using assms resp p unfolding rxmer_capture_def by (auto simp: Let_def)
  from p have "code = StatusSuccess \<Longrightarrow> tx \<noteq> None" using parse_success by blast
  with c show ?thesis by auto
qed

section \<open>Properties\<close>

text \<open>C19: When a request leaves the groups or the modems open, the operation has exactly one kind of work item:
  a modem of the cache that matches the request, to be captured in a group whose snapshot holds it,
  and every such modem has one.\<close>

theorem open_scope_items:
  assumes "sgs = [] \<or> macs = []" and "resolve_store kept loader = Some (s, keys)" and "set keys = dom s"
    and "build_request_summary kept loader sgs macs channels ex = (Inr rq, kept')"
  shows "item_key ` set (build_work_items i (rq_macs rq) (rq_groups rq)) =
    {(sg, mac). in_group s sg mac \<and> (sgs \<noteq> [] \<longrightarrow> sg \<in> set sgs) \<and> (macs \<noteq> [] \<longrightarrow> mac \<in> set macs)}"
proof -
  obtain rsgs rmacs k where r: "resolve_modem_scope kept loader sgs macs = ((rsgs, rmacs), k)"
    by (metis prod.exhaust)
  have rq: "rq_groups rq = rsgs" "rq_macs rq = rmacs"
    using assms(4) by (auto simp: build_request_summary_def r Let_def split: if_splits)
  note ps = open_scope_pairs [OF assms(1-3) r]
  then have "map item_key (build_work_items i rmacs rsgs) = zip rsgs rmacs"
    by (intro build_work_items_aligned) simp
  then have "item_key ` set (build_work_items i rmacs rsgs) = set (zip rsgs rmacs)"
    by (metis list.set_map)
  with ps show ?thesis by (simp add: rq)
qed

lemma open_scope_items_witness:
  "\<exists>rq kept'. build_request_summary None (Some (two_groups, [4, 2])) [] [''m3'', ''m1''] [] (rq_execution demo_request) = (Inr rq, kept') \<and>
     item_key ` set (build_work_items ''op1'' (rq_macs rq) (rq_groups rq)) = {(4, ''m3''), (2, ''m1'')}"
proof -
  obtain rq kept' where r: "build_request_summary None (Some (two_groups, [4, 2])) [] [''m3'', ''m1''] [] (rq_execution demo_request) = (Inr rq, kept')"
    using no_channels_accepted by blast
  have "resolve_store None (Some (two_groups, [4, 2])) = Some (two_groups, [4, 2])" by (simp add: resolve_store_def)
  moreover have "set [4, 2] = dom two_groups" by (auto simp: two_groups_def)
  ultimately have "item_key ` set (build_work_items ''op1'' (rq_macs rq) (rq_groups rq)) =
      {(sg, mac). in_group two_groups sg mac \<and> mac \<in> {''m3'', ''m1''}}"
    using open_scope_items [OF _ _ _ r] by simp
  also have "\<dots> = {(4, ''m3''), (2, ''m1'')}"
    by (auto simp: in_group_def two_groups_def group_entry_def demo_modem_def split: if_splits)
  finally show ?thesis using r by blast
qed

text \<open>A request that names both groups and modems is taken as it is and paired by position: a modem that the
  cache has in the second group named is captured in the first one only, where it has no address, so
  it fails eligibility although its own group was asked for.\<close>

theorem explicit_scope_mispairs:
  assumes "in_group s g2 mac" and "\<not> in_group s g1 mac"
    and "build_request_summary (Some (s, keys)) loader [g1, g2] [mac] [] ex = (Inr rq, kept')"
    and "we_resolve we = (\<lambda>sg m. fst (resolve_modem_ip hex inet (Some (s, keys)) loader sg m))"
    and "load_state i fs = Inr st"
  shows "\<exists>item. build_work_items i (rq_macs rq) (rq_groups rq) = [item] \<and> item_key item = (g1, mac) \<and>
    run_worker we fs item = Inr \<lparr>wr_ip = None,
      wr_stages = [stage_of EligibilityStage StatusInvalidParameters ''modem ip address missing'' (we_now we)]\<rparr>"
proof -
  have "rq_groups rq = [g1, g2] \<and> rq_macs rq = [mac]"
    using assms(3) by (auto simp: build_request_summary_def resolve_modem_scope_def validate_channels_def Let_def)
  moreover have "we_resolve we g1 mac = None"
    unfolding assms(4) by (rule not_in_group_no_ip [OF assms(2)])
  ultimately show ?thesis
    using assms(5) by (simp add: build_work_items_one item_key_def run_worker_def)
qed

definition demo_worker :: worker_env where
  "demo_worker = \<lparr>we_now = 10, we_resolve = (\<lambda>sg m. fst (resolve_modem_ip Some Some (Some (two_groups, [4, 2])) None sg m)),
     we_community = ''private'', we_precheck = (\<lambda>_ _ _. Inr (StatusSuccess, '''')), we_tftp = (''10.0.0.1'', ''''),
     we_capture = (\<lambda>_ _ _ _ _. Inr (Some \<lparr>mr_status = StatusSuccess, mr_payload =
       Some [OtherPayload, MessagePayload ''PNM_FILE_TRANSACTION'' (JDict [(''transaction_id'', JStr ''t1''), (''filename'', JStr ''f1'')])]\<rparr>)),
     we_str = (\<lambda>j. case j of JStr x \<Rightarrow> x | _ \<Rightarrow> ''?''), we_name = (\<lambda>_. ''ERR''), we_capture_now = 11\<rparr>"

lemma demo_state: "load_state ''op1'' demo_fs = Inr demo_op"
  using demo_fresh by (simp add: fresh_operation_def)

lemma explicit_scope_mispairs_witness:
  "\<exists>rq kept' item. build_request_summary (Some (two_groups, [4, 2])) None [2, 4] [''m3''] [] (rq_execution demo_request) = (Inr rq, kept') \<and>
     in_group two_groups 4 ''m3'' \<and> build_work_items ''op1'' (rq_macs rq) (rq_groups rq) = [item] \<and>
     wi_sg item = 2 \<and> (\<exists>r. run_worker demo_worker demo_fs item = Inr r \<and> final_status r = StatusInvalidParameters)"
proof -
  obtain rq kept' where r: "build_request_summary (Some (two_groups, [4, 2])) None [2, 4] [''m3''] [] (rq_execution demo_request) = (Inr rq, kept')"
    using no_channels_accepted by blast
  have g: "in_group two_groups 4 ''m3''" "\<not> in_group two_groups 2 ''m3''"
    by (simp_all add: in_group_def two_groups_def group_entry_def demo_modem_def)
  obtain item where item: "build_work_items ''op1'' (rq_macs rq) (rq_groups rq) = [item]" "item_key item = (2, ''m3'')"
    "run_worker demo_worker demo_fs item = Inr \<lparr>wr_ip = None,
      wr_stages = [stage_of EligibilityStage StatusInvalidParameters ''modem ip address missing'' (we_now demo_worker)]\<rparr>"
    using explicit_scope_mispairs [OF g r _ demo_state, of demo_worker Some Some] by (auto simp: demo_worker_def)
  show ?thesis using r g(1) item
    by (intro exI [of _ rq] exI [of _ kept'] exI [of _ item])
       (simp add: item_key_def final_status_def find_stage_def stage_of_def plain_stage_def)
qed

text \<open>A worker that returns has run the stages in order and stopped at the first that failed: every stage
  before the last succeeded, without an address there is only the eligibility stage, and a
  capture counts as a success exactly when its answer gave one transaction with its file.\<close>

theorem worker_stops_at_failure:
  assumes "run_worker we fs item = Inr r"
  shows "\<exists>k \<in> {1, 2, 3}. map sr_stage (wr_stages r) = take k [EligibilityStage, PrecheckStage, CaptureStage] \<and>
    (\<forall>s \<in> set (butlast (wr_stages r)). sr_status s = StatusSuccess) \<and>
    (k < 3 \<longrightarrow> sr_status (last (wr_stages r)) \<noteq> StatusSuccess) \<and>
    (wr_ip r = None \<longleftrightarrow> k = 1) \<and> wr_ip r = we_resolve we (wi_sg item) (wi_mac item) \<and>
    (k = 3 \<longrightarrow> (sr_status (last (wr_stages r)) = StatusSuccess \<longleftrightarrow>
       (\<exists>t f. sr_transactions (last (wr_stages r)) = [t] \<and> sr_files (last (wr_stages r)) = [f])))"
proof -
  obtain s where s: "load_state (wi_operation item) fs = Inr s"
    using assms by (auto simp: run_worker_def split: sum.splits)
  let ?cx = "load_context (wi_operation item) fs"
  show ?thesis
  proof (cases "we_resolve we (wi_sg item) (wi_mac item)")
    case None
    with assms s show ?thesis
      by (intro bexI [of _ 1]) (auto simp: run_worker_def stage_of_def plain_stage_def)
  next
    case (Some a)
    let ?com = "resolve_write_community (we_community we) ?cx"
    obtain code msg where p: "we_precheck we (wi_mac item) a ?com = Inr (code, msg)"
      using assms s Some by (auto simp: run_worker_def Let_def split: sum.splits)
    show ?thesis
    proof (cases "code = StatusSuccess")
      case False
      with assms s Some p show ?thesis
        by (intro bexI [of _ 2]) (auto simp: run_worker_def Let_def stage_of_def plain_stage_def)
    next
      case True
      then obtain c where c: "rxmer_capture we (wi_mac item) a ?com (rq_channels (op_summary s)) ?cx = Inr c"
        "r = \<lparr>wr_ip = Some a, wr_stages = [stage_of EligibilityStage StatusSuccess '''' (we_now we),
          stage_of PrecheckStage code msg (we_now we), c]\<rparr>"
        using assms s Some p by (auto simp: run_worker_def Let_def split: sum.splits)
      from rxmer_capture_success [OF c(1)] c(2) True Some show ?thesis
        by (intro bexI [of _ 3]) (simp_all add: stage_of_def plain_stage_def)
    qed
  qed
qed

lemma worker_stops_at_failure_witness:
  "\<exists>r t f. run_worker demo_worker demo_fs \<lparr>wi_operation = ''op1'', wi_sg = 4, wi_mac = ''m3'', wi_attempt = 0\<rparr> = Inr r \<and>
     final_status r = StatusSuccess \<and> sr_transactions (last (wr_stages r)) = [t] \<and> sr_files (last (wr_stages r)) = [f]"
proof -
  let ?item = "\<lparr>wi_operation = ''op1'', wi_sg = 4, wi_mac = ''m3'', wi_attempt = 0\<rparr>"
  have ip: "we_resolve demo_worker 4 ''m3'' = Some ''10.0.0.2''"
    by (simp add: demo_worker_def resolve_modem_ip_def store_get_def two_groups_def group_entry_def demo_modem_def
        select_ip_def normalize_ip_def py_strip_def py_lstrip_def py_space_def py_startswith_def Let_def)
  obtain c where c: "rxmer_capture demo_worker ''m3'' ''10.0.0.2'' (resolve_write_community ''private'' (load_context ''op1'' demo_fs))
      (rq_channels (op_summary demo_op)) (load_context ''op1'' demo_fs) = Inr c" "sr_status c = StatusSuccess"
    "sr_stage c = CaptureStage"
    by (simp add: rxmer_capture_def demo_worker_def parse_capture_response_def entry_transaction_def
        extract_payload_entry_def json_get_def Let_def)
  have r: "run_worker demo_worker demo_fs ?item = Inr \<lparr>wr_ip = Some ''10.0.0.2'',
      wr_stages = [stage_of EligibilityStage StatusSuccess '''' 10, stage_of PrecheckStage StatusSuccess '''' 10, c]\<rparr>"
    using c ip by (simp add: run_worker_def demo_state demo_worker_def)
  from worker_stops_at_failure [OF r] c ip show ?thesis
    by (auto simp: r final_status_def find_stage_def stage_of_def plain_stage_def take_Cons')
qed


end
