(* ===== verification/ResultsView.thy ===== *)
theory ResultsView
  imports CaptureWorker "HOL-Library.Product_Lexorder"
begin

text \<open>
  What the results endpoint shows of an operation: the filter and the structured results of
  \<open>api/routes/pnm/sg/ds/ofdm/rxmer/service.py\<close> with the models of
  \<open>api/common/service/pnm/results_schemas.py\<close>, the filter of
  \<open>api/routes/pnm/sg/ds/ofdm/const_display/service.py\<close>, and the analysis of stored captures,
  \<open>api/common/service/pnm/results_analysis.py\<close>.  The file parser and the signal analyses of the
  pypnm package are inputs; a JSON object is the list of its members, and \<open>py_str\<close> is \<open>str\<close> on a
  JSON value.
\<close>

section \<open>Grouping\<close>

text \<open>\<open>d.setdefault(k, []).append(v)\<close> on a dictionary in insertion order, and the dictionary that a loop
  of them builds.\<close>

fun group_add :: "'k \<Rightarrow> 'v \<Rightarrow> ('k \<times> 'v list) list \<Rightarrow> ('k \<times> 'v list) list" where
  "group_add k v [] = [(k, [v])]"
| "group_add k v ((k', vs) # d) = (if k' = k then (k', vs @ [v]) # d else (k', vs) # group_add k v d)"

definition group_all :: "('v \<Rightarrow> 'k) \<Rightarrow> 'v list \<Rightarrow> ('k \<times> 'v list) list" where
  "group_all f xs = foldl (\<lambda>d x. group_add (f x) x d) [] xs"

section \<open>The analysis of a stored capture\<close>

datatype pnm_file_type =
  ReceiveModulationErrorRatio | OfdmChannelEstimateCoefficient | OfdmModulationProfile |
  DownstreamConstellationDisplay | DownstreamHistogram | OfdmFecSummary |
  UpstreamPreEqualizerCoefficients | UpstreamPreEqualizerCoefficientsLastUpdate | OtherFileType string

datatype basic_analysis =
  AnalysisRxMer | AnalysisChanEst | AnalysisModulationProfile | AnalysisConstellation | AnalysisHistogram |
  AnalysisFecSummary | AnalysisPreEqualization

definition file_type_name :: "pnm_file_type \<Rightarrow> string" where
  "file_type_name t =
     (case t of
        ReceiveModulationErrorRatio \<Rightarrow> ''RECEIVE_MODULATION_ERROR_RATIO''
      | OfdmChannelEstimateCoefficient \<Rightarrow> ''OFDM_CHANNEL_ESTIMATE_COEFFICIENT''
      | OfdmModulationProfile \<Rightarrow> ''OFDM_MODULATION_PROFILE''
      | DownstreamConstellationDisplay \<Rightarrow> ''DOWNSTREAM_CONSTELLATION_DISPLAY''
      | DownstreamHistogram \<Rightarrow> ''DOWNSTREAM_HISTOGRAM''
      | OfdmFecSummary \<Rightarrow> ''OFDM_FEC_SUMMARY''
      | UpstreamPreEqualizerCoefficients \<Rightarrow> ''UPSTREAM_PRE_EQUALIZER_COEFFICIENTS''
      | UpstreamPreEqualizerCoefficientsLastUpdate \<Rightarrow> ''UPSTREAM_PRE_EQUALIZER_COEFFICIENTS_LAST_UPDATE''
      | OtherFileType n \<Rightarrow> n)"

definition dispatch_basic_analysis :: "pnm_file_type \<Rightarrow> string + basic_analysis" where
  "dispatch_basic_analysis t =
     (case t of
        ReceiveModulationErrorRatio \<Rightarrow> Inr AnalysisRxMer
      | OfdmChannelEstimateCoefficient \<Rightarrow> Inr AnalysisChanEst
      | OfdmModulationProfile \<Rightarrow> Inr AnalysisModulationProfile
      | DownstreamConstellationDisplay \<Rightarrow> Inr AnalysisConstellation
      | DownstreamHistogram \<Rightarrow> Inr AnalysisHistogram
      | OfdmFecSummary \<Rightarrow> Inr AnalysisFecSummary
      | UpstreamPreEqualizerCoefficients \<Rightarrow> Inr AnalysisPreEqualization
      | UpstreamPreEqualizerCoefficientsLastUpdate \<Rightarrow> Inr AnalysisPreEqualization
      | OtherFileType n \<Rightarrow> Inl (''Basic analysis not implemented for file type: '' @ n))"

record analysis_result =
  ar_transaction :: string
  ar_type :: "string option"
  ar_sysdescr :: "(string \<times> json) list option"
  ar_payload :: "(string \<times> json) list option"
  ar_error :: "string option"

text \<open>The pypnm package: the transaction's record, the parsed file, and an analysis of it (\<open>Inl\<close> where they
  raise, with the text of the exception); \<open>an_details\<close> is \<open>PnmFileTransaction.DEVICE_DETAILS\<close>.\<close>

record 'm analysis_env =
  an_details :: string
  an_record :: "string \<Rightarrow> string + json"
  an_parse :: "string \<Rightarrow> string + (pnm_file_type \<times> 'm)"
  an_run :: "basic_analysis \<Rightarrow> 'm \<Rightarrow> string + json"

definition load_system_description :: "string \<Rightarrow> json \<Rightarrow> (string \<times> json) list option" where
  "load_system_description details j =
     (case j of
        JDict d \<Rightarrow> (case json_get details d of
            Some (JDict dd) \<Rightarrow> (case json_get ''system_description'' dd of
                Some (JDict sd) \<Rightarrow> Some sd | _ \<Rightarrow> None)
          | _ \<Rightarrow> None)
      | _ \<Rightarrow> None)"

definition unavailable :: "string \<Rightarrow> string \<Rightarrow> analysis_result" where
  "unavailable tx msg =
     \<lparr>ar_transaction = tx, ar_type = None, ar_sysdescr = None, ar_payload = None,
      ar_error = Some (''analysis unavailable for transaction '' @ tx @ '': '' @ msg)\<rparr>"

definition analyze_transaction :: "'m analysis_env \<Rightarrow> string \<Rightarrow> analysis_result" where
  "analyze_transaction env tx =
     (case an_record env tx of
        Inl msg \<Rightarrow> unavailable tx msg
      | Inr j \<Rightarrow>
          (case an_parse env tx of
             Inl msg \<Rightarrow> unavailable tx msg
           | Inr (t, m) \<Rightarrow>
               (case dispatch_basic_analysis t of
                  Inl msg \<Rightarrow> unavailable tx msg
                | Inr k \<Rightarrow>
                    (case an_run env k m of
                       Inl msg \<Rightarrow> unavailable tx msg
                     | Inr (JDict p) \<Rightarrow>
                         \<lparr>ar_transaction = tx, ar_type = Some (file_type_name t),
                          ar_sysdescr = load_system_description (an_details env) j, ar_payload = Some p, ar_error = None\<rparr>
                     | Inr _ \<Rightarrow>
                         \<lparr>ar_transaction = tx, ar_type = Some (file_type_name t),
                          ar_sysdescr = load_system_description (an_details env) j, ar_payload = None,
                          ar_error = Some (''analysis payload is not a JSON object for transaction '' @ tx)\<rparr>))))"

text \<open>\<open>analyze_transactions_basic\<close>; the threads only change the order in which the dictionary is filled.\<close>

definition analyze_transactions :: "'m analysis_env \<Rightarrow> string list \<Rightarrow> (string \<rightharpoonup> analysis_result)" where
  "analyze_transactions env txs =
     map_of (map (\<lambda>tx. (tx, analyze_transaction env tx)) (dedupe_by id [] txs))"

section \<open>The structured results\<close>

datatype capture_status = CaptureSucceeded | CaptureFailed | CaptureSkipped

record stage_codes =
  sc_eligibility :: "status_code option"
  sc_precheck :: "status_code option"
  sc_capture :: "status_code option"

record stage_texts =
  sx_eligibility :: "string option"
  sx_precheck :: "string option"
  sx_capture :: "string option"

record modem_view =
  mo_mac :: string
  mo_sysdescr :: "(string \<times> string) list option"
  mo_status :: capture_status
  mo_message :: string
  mo_transactions :: "string list"
  mo_files :: "string list"
  mo_file :: "(string option \<times> string option) option"
  mo_codes :: stage_codes
  mo_texts :: "stage_texts option"
  mo_type :: "string option"
  mo_analysis :: "(string \<times> json) list option"
  mo_error :: "string option"

record channel_view =
  ch_id :: "int option"
  ch_sg :: "int option"
  ch_modems :: "modem_view list"

record group_view =
  gv_sg :: "int option"
  gv_channels :: "channel_view list"

record results_view =
  rv_time :: "int option"
  rv_hostname :: "string option"
  rv_groups :: "group_view list"

text \<open>The results request: the selection, and whether the basic analysis is asked for.\<close>

record selection =
  se_groups :: "int list"
  se_channels :: "int list"
  se_macs :: "string list"

record results_request =
  rr_selection :: selection
  rr_basic :: bool

text \<open>\<open>_filter_results_records\<close> of the RxMER service and of the constellation display service.\<close>

definition filter_records :: "selection \<Rightarrow> linkage list \<Rightarrow> linkage list" where
  "filter_records se rs =
     (if se_groups se = [] \<and> se_macs se = [] then rs
      else filter (\<lambda>r. \<not> (se_groups se \<noteq> [] \<and> lk_sg r \<notin> set (se_groups se)) \<and>
                       \<not> (se_macs se \<noteq> [] \<and> py_lower (lk_mac r) \<notin> set (map py_lower (se_macs se)))) rs)"

definition filter_records_by_channel :: "selection \<Rightarrow> linkage list \<Rightarrow> linkage list" where
  "filter_records_by_channel se rs =
     (if se_groups se = [] \<and> se_channels se = [] \<and> se_macs se = [] then rs
      else filter (\<lambda>r. \<not> (se_groups se \<noteq> [] \<and> lk_sg r \<notin> set (se_groups se)) \<and>
                       \<not> (se_channels se \<noteq> [] \<and>
                          (case sr_channel (lk_stage r) of None \<Rightarrow> True | Some c \<Rightarrow> c \<notin> set (se_channels se))) \<and>
                       \<not> (se_macs se \<noteq> [] \<and> py_lower (lk_mac r) \<notin> set (map py_lower (se_macs se)))) rs)"

fun stage_order :: "op_stage \<Rightarrow> nat" where
  "stage_order EligibilityStage = 1"
| "stage_order PrecheckStage = 2"
| "stage_order CaptureStage = 3"

definition select_final_stage :: "linkage list \<Rightarrow> linkage option" where
  "select_final_stage rs =
     (let ordered = sort_key (\<lambda>r. stage_order (sr_stage (lk_stage r))) rs
      in if ordered = [] then None else Some (last ordered))"

definition set_stage_code :: "linkage \<Rightarrow> stage_codes \<Rightarrow> stage_codes" where
  "set_stage_code r c =
     (case sr_stage (lk_stage r) of
        EligibilityStage \<Rightarrow> c\<lparr>sc_eligibility := Some (sr_status (lk_stage r))\<rparr>
      | PrecheckStage \<Rightarrow> c\<lparr>sc_precheck := Some (sr_status (lk_stage r))\<rparr>
      | CaptureStage \<Rightarrow> c\<lparr>sc_capture := Some (sr_status (lk_stage r))\<rparr>)"

definition set_stage_text :: "linkage \<Rightarrow> stage_texts \<Rightarrow> stage_texts" where
  "set_stage_text r c =
     (case sr_stage (lk_stage r) of
        EligibilityStage \<Rightarrow> c\<lparr>sx_eligibility := Some (sr_message (lk_stage r))\<rparr>
      | PrecheckStage \<Rightarrow> c\<lparr>sx_precheck := Some (sr_message (lk_stage r))\<rparr>
      | CaptureStage \<Rightarrow> c\<lparr>sx_capture := Some (sr_message (lk_stage r))\<rparr>)"

definition resolve_channel_id :: "linkage list \<Rightarrow> int option" where
  "resolve_channel_id rs =
     (let ids = dedupe_by id [] (List.map_filter (\<lambda>r. sr_channel (lk_stage r))
                  (filter (\<lambda>r. sr_stage (lk_stage r) = CaptureStage) rs))
      in (case ids of [c] \<Rightarrow> Some c | _ \<Rightarrow> None))"

text \<open>\<open>_decode_records_basic_analysis\<close>: the analyses by transaction.\<close>

definition decode_records ::
  "'m analysis_env \<Rightarrow> results_request option \<Rightarrow> linkage list \<Rightarrow> (string \<rightharpoonup> analysis_result)" where
  "decode_records env req rs =
     (if \<not> (case req of None \<Rightarrow> False | Some q \<Rightarrow> rr_basic q) then Map.empty
      else (let txs = concat (map (\<lambda>r. sr_transactions (lk_stage r))
                        (filter (\<lambda>r. sr_stage (lk_stage r) = CaptureStage \<and> sr_status (lk_stage r) = StatusSuccess) rs))
            in if txs = [] then Map.empty else analyze_transactions env txs))"

fun first_decoded :: "(string \<rightharpoonup> analysis_result) \<Rightarrow> string list \<Rightarrow> (string \<times> analysis_result) option" where
  "first_decoded decoded [] = None"
| "first_decoded decoded (tx # txs) =
     (case decoded tx of Some a \<Rightarrow> Some (tx, a) | None \<Rightarrow> first_decoded decoded txs)"

text \<open>\<open>_resolve_modem_analysis\<close>: payload, file type, error and the transaction they are of.\<close>

definition resolve_analysis ::
  "results_request option \<Rightarrow> capture_status \<Rightarrow> string list \<Rightarrow> (string \<rightharpoonup> analysis_result) \<Rightarrow>
   (string \<times> json) list option \<times> string option \<times> string option \<times> string option" where
  "resolve_analysis req status txs decoded =
     (if \<not> (case req of None \<Rightarrow> False | Some q \<Rightarrow> rr_basic q) then (None, None, None, None)
      else if status \<noteq> CaptureSucceeded \<or> txs = [] then (None, None, None, None)
      else (case first_decoded decoded txs of
              None \<Rightarrow> (None, None, None, None)
            | Some (tx, a) \<Rightarrow> (ar_payload a, ar_type a, ar_error a, Some tx)))"

text \<open>\<open>_build_modem_file_link\<close>: the transaction and the file at the position of the analysed transaction, the
  first when there is none.\<close>

fun index_of :: "string \<Rightarrow> string list \<Rightarrow> nat option" where
  "index_of x [] = None"
| "index_of x (y # ys) = (if y = x then Some 0 else map_option Suc (index_of x ys))"

definition build_file_link ::
  "string list \<Rightarrow> string list \<Rightarrow> string option \<Rightarrow> (string option \<times> string option) option" where
  "build_file_link txs files analyzed =
     (if txs = [] \<and> files = [] then None
      else (let k = (case analyzed of None \<Rightarrow> 0
                     | Some a \<Rightarrow> (case index_of a txs of None \<Rightarrow> 0 | Some i \<Rightarrow> i));
                t = (if k < length txs then Some (txs ! k) else None);
                f = (if k < length files then Some (files ! k) else None)
            in if t = None \<and> f = None then None else Some (t, f)))"

text \<open>\<open>_resolve_modem_system_description\<close>.\<close>

fun first_description ::
  "(json \<Rightarrow> string) \<Rightarrow> (string \<rightharpoonup> analysis_result) \<Rightarrow> string list \<Rightarrow> (string \<times> string) list option" where
  "first_description py_str decoded [] = None"
| "first_description py_str decoded (tx # txs) =
     (case decoded tx of
        None \<Rightarrow> first_description py_str decoded txs
      | Some a \<Rightarrow>
          (case ar_sysdescr a of
             None \<Rightarrow> first_description py_str decoded txs
           | Some d \<Rightarrow> if d = [] then None else Some (map (\<lambda>(k, v). (k, py_str v)) d)))"

definition resolve_description ::
  "(json \<Rightarrow> string) \<Rightarrow> (string \<rightharpoonup> analysis_result) \<Rightarrow> string list \<Rightarrow> string option \<Rightarrow> (string \<times> string) list option" where
  "resolve_description py_str decoded txs analyzed =
     first_description py_str decoded
       ((case analyzed of None \<Rightarrow> [] | Some a \<Rightarrow> [a]) @ filter (\<lambda>tx. Some tx \<noteq> analyzed) txs)"

text \<open>\<open>int\<close> on a JSON value, \<open>None\<close> where it raises, and \<open>_resolve_channel_id_from_analysis_payload\<close>.\<close>

definition json_int :: "json \<Rightarrow> int option" where
  "json_int j =
     (case j of
        JInt n \<Rightarrow> Some n
      | JBool b \<Rightarrow> Some (if b then 1 else 0)
      | JFloat x \<Rightarrow> Some (if 0 \<le> x then \<lfloor>x\<rfloor> else \<lceil>x\<rceil>)
      | JStr s \<Rightarrow> py_int s
      | _ \<Rightarrow> None)"

definition channel_of_payload :: "(string \<times> json) list option \<Rightarrow> int option" where
  "channel_of_payload p =
     (case p of None \<Rightarrow> None
      | Some d \<Rightarrow> (case json_get ''channel_id'' d of None \<Rightarrow> None | Some v \<Rightarrow> json_int v))"

text \<open>One turn of the loop over the modems: the modem's group and channel, and its entry, over the service's
  way to find the analysis of the modem's transactions.\<close>

type_synonym analysis_shown = "(string \<times> json) list option \<times> string option \<times> string option \<times> string option"

definition view_modem_with ::
  "(json \<Rightarrow> string) \<Rightarrow> (capture_status \<Rightarrow> string list \<Rightarrow> (string \<rightharpoonup> analysis_result) \<Rightarrow> analysis_shown) \<Rightarrow>
   (string \<rightharpoonup> analysis_result) \<Rightarrow> string \<Rightarrow> linkage list \<Rightarrow> (int option \<times> int option) \<times> modem_view" where
  "view_modem_with py_str resolve decoded mac rs =
     (let caps = filter (\<lambda>r. sr_stage (lk_stage r) = CaptureStage) rs;
          src = (if caps \<noteq> [] then caps else rs);
          txs = dedupe_by id [] (concat (map (\<lambda>r. sr_transactions (lk_stage r)) src));
          files = dedupe_by id [] (concat (map (\<lambda>r. sr_files (lk_stage r)) src));
          codes = fold set_stage_code rs \<lparr>sc_eligibility = None, sc_precheck = None, sc_capture = None\<rparr>;
          said = filter (\<lambda>r. sr_message (lk_stage r) \<noteq> '''') rs;
          texts = fold set_stage_text said \<lparr>sx_eligibility = None, sx_precheck = None, sx_capture = None\<rparr>;
          final = select_final_stage rs;
          status = (case final of None \<Rightarrow> CaptureFailed
                    | Some r \<Rightarrow> if sr_status (lk_stage r) \<noteq> StatusSuccess then CaptureFailed else CaptureSucceeded);
          message = (case final of None \<Rightarrow> '''' | Some r \<Rightarrow> sr_message (lk_stage r));
          sg = (if rs = [] then None else Some (lk_sg (hd rs)));
          (payload, ty, err, analyzed) = resolve status txs decoded;
          channel = (case resolve_channel_id rs of Some c \<Rightarrow> Some c | None \<Rightarrow> channel_of_payload payload)
      in ((sg, channel),
          \<lparr>mo_mac = mac, mo_sysdescr = resolve_description py_str decoded txs analyzed, mo_status = status,
           mo_message = message, mo_transactions = txs, mo_files = files,
           mo_file = build_file_link txs files analyzed, mo_codes = codes,
           mo_texts = (if said \<noteq> [] then Some texts else None), mo_type = ty, mo_analysis = payload,
           mo_error = err\<rparr>))"

definition view_modem ::
  "(json \<Rightarrow> string) \<Rightarrow> results_request option \<Rightarrow> (string \<rightharpoonup> analysis_result) \<Rightarrow> string \<Rightarrow> linkage list \<Rightarrow>
   (int option \<times> int option) \<times> modem_view" where
  "view_modem py_str req decoded mac rs = view_modem_with py_str (resolve_analysis req) decoded mac rs"

definition or_minus :: "int option \<Rightarrow> int" where
  "or_minus x = (case x of None \<Rightarrow> - 1 | Some n \<Rightarrow> n)"

definition build_groups :: "channel_view list \<Rightarrow> group_view list" where
  "build_groups chs = map (\<lambda>(sg, cs). \<lparr>gv_sg = sg, gv_channels = cs\<rparr>) (sort_key (\<lambda>(sg, cs). or_minus sg) (group_all ch_sg chs))"

definition build_channels :: "((int option \<times> int option) \<times> modem_view) list \<Rightarrow> channel_view list" where
  "build_channels ms =
     map (\<lambda>((sg, ch), es). \<lparr>ch_id = ch, ch_sg = sg, ch_modems = map snd es\<rparr>)
       (sort_key (\<lambda>((sg, ch), es). (or_minus sg, or_minus ch)) (group_all fst ms))"

definition capture_time :: "linkage list \<Rightarrow> int option" where
  "capture_time rs =
     (let ts = filter (\<lambda>t. 0 < t) (map (\<lambda>r. sr_finished (lk_stage r)) (filter (\<lambda>r. sr_stage (lk_stage r) = CaptureStage) rs))
      in if ts = [] then None else Some (Max (set ts)))"

definition structured_results ::
  "(string \<Rightarrow> linkage list \<Rightarrow> (int option \<times> int option) \<times> modem_view) \<Rightarrow> linkage list \<Rightarrow> string option \<Rightarrow> results_view" where
  "structured_results view rs host =
     (let modems = sort_key fst (group_all lk_mac rs);
          chs = build_channels (map (\<lambda>(mac, mrs). view mac mrs) modems)
      in \<lparr>rv_time = capture_time rs, rv_hostname = host, rv_groups = build_groups chs\<rparr>)"

definition build_structured_results ::
  "(json \<Rightarrow> string) \<Rightarrow> 'm analysis_env \<Rightarrow> linkage list \<Rightarrow> results_request option \<Rightarrow> string option \<Rightarrow> results_view" where
  "build_structured_results py_str env rs req host =
     structured_results (view_modem py_str req (decode_records env req rs)) rs host"

text \<open>\<open>_resolve_results_cmts_hostname\<close>; \<open>configured\<close> is the configured host name, \<open>None\<close> when reading it
  raises.\<close>

definition capture_hostname :: "string option \<Rightarrow> string option" where
  "capture_hostname configured =
     (case configured of None \<Rightarrow> None | Some h \<Rightarrow> if py_strip h = '''' then None else Some (py_strip h))"

definition results_hostname :: "string option \<Rightarrow> op_context option \<Rightarrow> string option" where
  "results_hostname configured cx =
     (case cx of
        None \<Rightarrow> capture_hostname configured
      | Some c \<Rightarrow> (case cx_hostname c of
            None \<Rightarrow> capture_hostname configured
          | Some h \<Rightarrow> if py_strip h \<noteq> '''' then Some (py_strip h) else capture_hostname configured))"

record results_answer =
  ra_status :: status_code
  ra_message :: string
  ra_results :: results_view
  ra_summary :: results_summary
  ra_records :: "linkage list"

text \<open>\<open>results\<close>: the limit on the records in the answer applies before the selection.\<close>

definition rxmer_results ::
  "(json \<Rightarrow> string) \<Rightarrow> 'm analysis_env \<Rightarrow> string option \<Rightarrow> int \<Rightarrow> string \<Rightarrow> results_request option \<Rightarrow> op_fs \<Rightarrow> results_answer" where
  "rxmer_results py_str env configured max_inline i req fs =
     (let (status, msg, su, rs) = service_results max_inline i fs;
          sel = (case req of None \<Rightarrow> rs | Some q \<Rightarrow> filter_records (rr_selection q) rs)
      in \<lparr>ra_status = status, ra_message = msg,
          ra_results = build_structured_results py_str env sel req (results_hostname configured (load_context i fs)),
          ra_summary = su, ra_records = sel\<rparr>)"

section \<open>Lemmas\<close>

lemma group_add_keys: "fst ` set (group_add k v d) = insert k (fst ` set d)"
  by (induction k v d rule: group_add.induct) auto

lemma group_add_distinct: "distinct (map fst d) \<Longrightarrow> distinct (map fst (group_add k v d))"
proof (induction k v d rule: group_add.induct)
  case (2 k v k' vs d)
  then show ?case using group_add_keys [of k v d] by (auto simp: image_iff)
qed simp

lemma in_group_add:
  "distinct (map fst d) \<Longrightarrow>
   (k', vs) \<in> set (group_add k v d) \<longleftrightarrow>
   (if k' = k then vs = (case map_of d k of None \<Rightarrow> [] | Some ws \<Rightarrow> ws) @ [v] else (k', vs) \<in> set d)"
proof (induction k v d rule: group_add.induct)
  case (2 k v k0 ws d)
  then show ?case by (auto simp: rev_image_eqI)
qed auto

lemma group_all_simps [simp]:
  "group_all f [] = []" "group_all f (xs @ [x]) = group_add (f x) x (group_all f xs)"
  by (simp_all add: group_all_def)

lemma group_all_single [simp]: "group_all f [x] = [(f x, [x])]"
  by (simp add: group_all_def)

lemma group_all_distinct: "distinct (map fst (group_all f xs))"
  by (induction xs rule: rev_induct) (simp_all add: group_add_distinct)

text \<open>The dictionary of the loop is the grouping by the key: every key that occurs, with its values in order.\<close>

lemma in_group_all: "(k, vs) \<in> set (group_all f xs) \<longleftrightarrow> k \<in> f ` set xs \<and> vs = filter (\<lambda>x. f x = k) xs"
proof (induction xs arbitrary: k vs rule: rev_induct)
  case (snoc x xs)
  have m: "map_of (group_all f xs) k = (if k \<in> f ` set xs then Some (filter (\<lambda>x. f x = k) xs) else None)" for k
  proof (cases "k \<in> f ` set xs")
    case True
    with snoc.IH [of k] group_all_distinct [of f xs] show ?thesis by (simp add: map_of_eq_Some_iff)
  next
    case False
    then have "k \<notin> fst ` set (group_all f xs)" using snoc.IH by fastforce
    with False show ?thesis by (simp add: map_of_eq_None_iff)
  qed
  have "f x \<notin> f ` set xs \<Longrightarrow> filter (\<lambda>y. f y = f x) xs = []" by (auto simp: filter_empty_conv image_iff)
  then show ?case
    by (auto simp: in_group_add [OF group_all_distinct] m snoc.IH split: if_splits)
qed simp

lemma keys_group_all: "fst ` set (group_all f xs) = f ` set xs"
  by (induction xs rule: rev_induct) (simp_all add: group_add_keys)

lemma mset_concat_perm: "mset xs = mset ys \<Longrightarrow> mset (concat xs) = mset (concat ys)"
proof -
  assume "mset xs = mset ys"
  then have "image_mset mset (mset xs) = image_mset mset (mset ys)" by simp
  then have "sum_mset (mset (map mset xs)) = sum_mset (mset (map mset ys))" by (simp only: mset_map)
  then show ?thesis by (simp only: mset_concat sum_mset_sum_list)
qed

lemma mset_group_add: "mset (concat (map snd (group_add k v d))) = add_mset v (mset (concat (map snd d)))"
  by (induction k v d rule: group_add.induct) auto

lemma mset_group_all: "mset (concat (map snd (group_all f xs))) = mset xs"
  by (induction xs rule: rev_induct) (simp_all add: mset_group_add)

lemma mset_sorted_groups: "mset (concat (map snd (sort_key h (group_all f xs)))) = mset xs"
proof -
  have "mset (concat (map snd (sort_key h (group_all f xs)))) = mset (concat (map snd (group_all f xs)))"
    by (rule mset_concat_perm) simp
  then show ?thesis by (simp only: mset_group_all)
qed

text \<open>The modems of the channels, of the groups and of the whole answer.\<close>

definition shown :: "group_view list \<Rightarrow> modem_view list" where
  "shown gs = concat (map ch_modems (concat (map gv_channels gs)))"

lemma build_channels_modems: "mset (concat (map ch_modems (build_channels ms))) = mset (map snd ms)"
proof -
  have "concat (map ch_modems (build_channels ms)) =
      map snd (concat (map snd (sort_key (\<lambda>((sg, ch), es). (or_minus sg, or_minus ch)) (group_all fst ms))))"
    by (simp add: build_channels_def map_concat o_def case_prod_beta)
  then show ?thesis by (simp only: mset_map mset_sorted_groups)
qed

lemma build_groups_modems: "mset (shown (build_groups chs)) = mset (concat (map ch_modems chs))"
proof -
  have "shown (build_groups chs) = concat (map ch_modems (concat (map snd (sort_key (\<lambda>(sg, cs). or_minus sg) (group_all ch_sg chs)))))"
    by (simp add: shown_def build_groups_def o_def case_prod_beta)
  moreover have "mset (concat (map ch_modems (concat (map snd (sort_key (\<lambda>(sg, cs). or_minus sg) (group_all ch_sg chs)))))) =
      mset (concat (map ch_modems chs))"
    by (rule mset_concat_perm) (simp only: mset_map mset_sorted_groups)
  ultimately show ?thesis by simp
qed

lemma build_groups_channel:
  "g \<in> set (build_groups chs) \<Longrightarrow> c \<in> set (gv_channels g) \<Longrightarrow> c \<in> set chs \<and> ch_sg c = gv_sg g"
  by (auto simp: build_groups_def in_group_all)

lemma build_channels_modem:
  "c \<in> set (build_channels ms) \<Longrightarrow> m \<in> set (ch_modems c) \<Longrightarrow> ((ch_sg c, ch_id c), m) \<in> set ms"
  by (auto simp: build_channels_def in_group_all)

lemma view_modem_with_fields:
  assumes "view_modem_with py_str resolve decoded mac rs = (key, m)"
  shows "mo_mac m = mac" "fst key = (if rs = [] then None else Some (lk_sg (hd rs)))"
    "mo_status m = (case select_final_stage rs of None \<Rightarrow> CaptureFailed
       | Some r \<Rightarrow> if sr_status (lk_stage r) \<noteq> StatusSuccess then CaptureFailed else CaptureSucceeded)"
    "mo_message m = (case select_final_stage rs of None \<Rightarrow> '''' | Some r \<Rightarrow> sr_message (lk_stage r))"
  using assms by (auto simp: view_modem_with_def Let_def split: prod.splits)

lemma view_modem_fields:
  assumes "view_modem py_str req decoded mac rs = (key, m)"
  shows "mo_mac m = mac" "fst key = (if rs = [] then None else Some (lk_sg (hd rs)))"
    "mo_status m = (case select_final_stage rs of None \<Rightarrow> CaptureFailed
       | Some r \<Rightarrow> if sr_status (lk_stage r) \<noteq> StatusSuccess then CaptureFailed else CaptureSucceeded)"
    "mo_message m = (case select_final_stage rs of None \<Rightarrow> '''' | Some r \<Rightarrow> sr_message (lk_stage r))"
  by (rule view_modem_with_fields [OF assms [unfolded view_modem_def]])+

text \<open>Whatever the entries hold, each modem of the records has one, and each group occurs once.\<close>

lemma structured_once:
  fixes view and rs :: "linkage list" and host
  assumes "\<And>mac mrs. mo_mac (snd (view mac mrs)) = mac"
  defines "gs \<equiv> rv_groups (structured_results view rs host)"
  shows "distinct (map mo_mac (shown gs)) \<and> mo_mac ` set (shown gs) = lk_mac ` set rs \<and> distinct (map gv_sg gs)"
proof -
  let ?view = "\<lambda>(mac, mrs). view mac mrs"
  let ?ms = "sort_key fst (group_all lk_mac rs)"
  let ?chs = "build_channels (map ?view ?ms)"
  have gs: "gs = build_groups ?chs" by (simp add: gs_def structured_results_def Let_def)
  have macs: "map (mo_mac \<circ> snd) (map ?view ?ms) = map fst ?ms"
    using assms(1) by (simp add: o_def case_prod_beta)
  have "mset (shown gs) = mset (map snd (map ?view ?ms))"
    unfolding gs build_groups_modems build_channels_modems ..
  then have "mset (map mo_mac (shown gs)) = mset (map (mo_mac \<circ> snd) (map ?view ?ms))"
    by (metis map_map mset_map)
  also have "\<dots> = mset (map fst (group_all lk_mac rs))"
    unfolding macs by (simp only: mset_map mset_sort)
  finally have m: "mset (map mo_mac (shown gs)) = mset (map fst (group_all lk_mac rs))" .
  have d: "distinct (map mo_mac (shown gs))"
    using m group_all_distinct mset_eq_imp_distinct_iff by blast
  have s: "set (map mo_mac (shown gs)) = set (map fst (group_all lk_mac rs))"
    using m by (rule mset_eq_setD)
  have "mset (map gv_sg gs) = mset (map fst (group_all ch_sg ?chs))"
    unfolding gs build_groups_def by (simp add: o_def case_prod_beta)
  then have "distinct (map gv_sg gs)" using group_all_distinct mset_eq_imp_distinct_iff by blast
  with d s show ?thesis by (simp add: keys_group_all)
qed

lemma select_final_stage_max:
  assumes "rs \<noteq> []"
  shows "\<exists>r \<in> set rs. select_final_stage rs = Some r \<and>
    (\<forall>r' \<in> set rs. stage_order (sr_stage (lk_stage r')) \<le> stage_order (sr_stage (lk_stage r)))"
proof -
  let ?k = "\<lambda>r. stage_order (sr_stage (lk_stage r))"
  let ?o = "sort_key ?k rs"
  have ne: "?o \<noteq> []" using assms by (metis length_0_conv length_sort)
  then have "select_final_stage rs = Some (last ?o)" by (simp add: select_final_stage_def Let_def)
  moreover have "last ?o \<in> set rs" using last_in_set [OF ne] by simp
  moreover have "?k r' \<le> ?k (last ?o)" if "r' \<in> set rs" for r'
  proof -
    obtain i where i: "i < length ?o" "?o ! i = r'" using \<open>r' \<in> set rs\<close> by (metis in_set_conv_nth set_sort)
    have "sorted (map ?k ?o)" by simp
    then have "map ?k ?o ! i \<le> map ?k ?o ! (length ?o - 1)"
      using i(1) by (intro sorted_nth_mono) auto
    with i ne show ?thesis by (simp add: last_conv_nth)
  qed
  ultimately show ?thesis by blast
qed


section \<open>Properties\<close>

text \<open>C15: The structured results list every modem of the selected records exactly once, each serving group once,
  whatever the records' order and however often a modem occurs in them.\<close>

theorem results_list_modems_once:
  fixes py_str and env :: "'m analysis_env" and rs req host
  defines "gs \<equiv> rv_groups (build_structured_results py_str env rs req host)"
  shows "distinct (map mo_mac (shown gs)) \<and> mo_mac ` set (shown gs) = lk_mac ` set rs \<and> distinct (map gv_sg gs)"
  unfolding gs_def build_structured_results_def
  by (rule structured_once) (metis view_modem_fields(1) prod.collapse)

text \<open>A modem is shown under the group of its first record, and its outcome is that of a record of the last
  stage it reached: it succeeded exactly when that record did.\<close>

theorem shown_modem_outcome:
  assumes "g \<in> set (rv_groups (build_structured_results py_str env rs req host))"
    and "c \<in> set (gv_channels g)" and "m \<in> set (ch_modems c)"
    and "own = filter (\<lambda>r. lk_mac r = mo_mac m) rs"
  shows "own \<noteq> [] \<and> gv_sg g = Some (lk_sg (hd own)) \<and> ch_sg c = gv_sg g \<and>
    (\<exists>r \<in> set own. (\<forall>r' \<in> set own. stage_order (sr_stage (lk_stage r')) \<le> stage_order (sr_stage (lk_stage r))) \<and>
       mo_message m = sr_message (lk_stage r) \<and> (mo_status m = CaptureSucceeded \<longleftrightarrow> sr_status (lk_stage r) = StatusSuccess))"
proof -
  let ?view = "\<lambda>(mac, mrs). view_modem py_str req (decode_records env req rs) mac mrs"
  let ?ms = "sort_key fst (group_all lk_mac rs)"
  have "g \<in> set (build_groups (build_channels (map ?view ?ms)))"
    using assms(1) by (simp add: build_structured_results_def structured_results_def Let_def)
  from build_groups_channel [OF this assms(2)] have c: "c \<in> set (build_channels (map ?view ?ms))" "ch_sg c = gv_sg g"
    by simp_all
  from build_channels_modem [OF c(1) assms(3)] obtain mac mrs
    where v: "(mac, mrs) \<in> set (group_all lk_mac rs)"
      "view_modem py_str req (decode_records env req rs) mac mrs = ((ch_sg c, ch_id c), m)"
    by (auto simp: case_prod_beta)
  note f = view_modem_fields [OF v(2)]
  have own: "own = mrs" "mrs \<noteq> []"
    using v(1) f(1) assms(4) by (auto simp: in_group_all filter_empty_conv)
  from select_final_stage_max [OF own(2)] obtain r where r: "r \<in> set mrs" "select_final_stage mrs = Some r"
    "\<forall>r' \<in> set mrs. stage_order (sr_stage (lk_stage r')) \<le> stage_order (sr_stage (lk_stage r))" by blast
  have "gv_sg g = Some (lk_sg (hd own))" using f(2) own c(2) by simp
  moreover have "mo_message m = sr_message (lk_stage r)" "mo_status m = CaptureSucceeded \<longleftrightarrow> sr_status (lk_stage r) = StatusSuccess"
    using f(3,4) r(2) by simp_all
  ultimately show ?thesis using own c(2) r(1,3) by blast
qed

text \<open>An operation with more records than the limit answers every results request with success and nothing
  at all: the limit applies before the selection, so even a request for one of its modems shows
  none.\<close>

theorem large_operation_shows_nothing:
  assumes "load_state i fs = Inr s" and "max_inline < count_result_records i fs" and "0 \<le> max_inline"
  shows "ra_status (rxmer_results py_str env configured max_inline i req fs) = StatusSuccess \<and>
    ra_message (rxmer_results py_str env configured max_inline i req fs) = '''' \<and>
    ra_records (rxmer_results py_str env configured max_inline i req fs) = [] \<and>
    rv_groups (ra_results (rxmer_results py_str env configured max_inline i req fs)) = []"
  using assms by (auto simp: rxmer_results_def service_results_def filter_records_def build_structured_results_def structured_results_def
      build_channels_def build_groups_def Let_def split: option.splits)

text \<open>The records of a modem that was captured in two groups are merged under the group of the first one: a
  failure in the second group is all the answer says of it, and the success in the first is gone.\<close>

theorem modem_of_two_groups_merged:
  assumes "lk_mac a = mac" and "lk_mac b = mac" and "lk_sg a \<noteq> lk_sg b"
    and "sr_stage (lk_stage a) = CaptureStage" and "sr_stage (lk_stage b) = CaptureStage"
    and "sr_status (lk_stage a) = StatusSuccess" and "sr_status (lk_stage b) \<noteq> StatusSuccess"
  shows "\<exists>g m. rv_groups (build_structured_results py_str env [a, b] req host) = [g] \<and> gv_sg g = Some (lk_sg a) \<and>
    shown [g] = [m] \<and> mo_mac m = mac \<and> mo_status m = CaptureFailed"
proof -
  have ga: "group_all lk_mac [a, b] = [(mac, [a, b])]" using assms(1,2) by (simp add: group_all_def)
  have f: "select_final_stage [a, b] = Some b" using assms(4,5) by (simp add: select_final_stage_def insort_key_def)
  obtain key m where v: "view_modem py_str req (decode_records env req [a, b]) mac [a, b] = (key, m)"
    by (metis prod.exhaust)
  obtain sg ch where key: "key = (sg, ch)" by (metis prod.exhaust)
  note vf = view_modem_fields [OF v]
  have "sg = Some (lk_sg a)" using vf(2) key by simp
  moreover have "mo_status m = CaptureFailed" using vf(3) f assms(7) by simp
  moreover have "rv_groups (build_structured_results py_str env [a, b] req host) =
      [\<lparr>gv_sg = sg, gv_channels = [\<lparr>ch_id = ch, ch_sg = sg, ch_modems = [m]\<rparr>]\<rparr>]"
    by (simp add: build_structured_results_def structured_results_def ga v key build_channels_def build_groups_def Let_def)
  ultimately show ?thesis using vf(1) by (simp add: shown_def)
qed

definition demo_record :: "int \<Rightarrow> string \<Rightarrow> status_code \<Rightarrow> string \<Rightarrow> linkage" where
  "demo_record sg mac code msg = \<lparr>lk_operation = ''op1'', lk_sg = sg, lk_mac = mac, lk_ip = Some ''10.0.0.2'',
     lk_stage = plain_stage CaptureStage code None msg 10 11\<rparr>"

definition demo_analysis :: "unit analysis_env" where
  "demo_analysis = \<lparr>an_details = ''device_details'', an_record = (\<lambda>_. Inr JNull),
     an_parse = (\<lambda>_. Inr (ReceiveModulationErrorRatio, ())), an_run = (\<lambda>_ _. Inr (JDict [(''channel_id'', JInt 33)]))\<rparr>"

lemma modem_of_two_groups_merged_witness:
  "\<exists>g m. rv_groups (build_structured_results (\<lambda>_. '''') demo_analysis
       [demo_record 2 ''m1'' StatusSuccess '''', demo_record 4 ''m1'' StatusFailure ''timeout''] None None) = [g] \<and>
     gv_sg g = Some 2 \<and> shown [g] = [m] \<and> mo_status m = CaptureFailed"
  using modem_of_two_groups_merged [of "demo_record 2 ''m1'' StatusSuccess ''''" "''m1''"
    "demo_record 4 ''m1'' StatusFailure ''timeout''" "\<lambda>_. ''''" demo_analysis None None]
  by (auto simp: demo_record_def plain_stage_def)

lemma shown_modem_outcome_witness:
  "\<exists>g c m. g \<in> set (rv_groups (build_structured_results (\<lambda>_. '''') demo_analysis [demo_record 2 ''m1'' StatusFailure ''timeout''] None None)) \<and>
     c \<in> set (gv_channels g) \<and> m \<in> set (ch_modems c) \<and> gv_sg g = Some 2 \<and> mo_message m = ''timeout'' \<and> mo_status m \<noteq> CaptureSucceeded"
proof -
  let ?r = "demo_record 2 ''m1'' StatusFailure ''timeout''"
  let ?gs = "rv_groups (build_structured_results (\<lambda>_. '''') demo_analysis [?r] None None)"
  obtain key m where v: "view_modem (\<lambda>_. '''') None (decode_records demo_analysis None [?r]) ''m1'' [?r] = (key, m)"
    by (metis prod.exhaust)
  obtain sg ch where key: "key = (sg, ch)" by (metis prod.exhaust)
  have "?gs = [\<lparr>gv_sg = sg, gv_channels = [\<lparr>ch_id = ch, ch_sg = sg, ch_modems = [m]\<rparr>]\<rparr>]"
    using v by (simp add: build_structured_results_def structured_results_def demo_record_def key build_channels_def build_groups_def Let_def)
  then obtain g c where g: "g \<in> set ?gs" "c \<in> set (gv_channels g)" "m \<in> set (ch_modems c)" by simp
  have own: "filter (\<lambda>r. lk_mac r = mo_mac m) [?r] = [?r]"
    using view_modem_fields(1) [OF v] by (simp add: demo_record_def)
  from shown_modem_outcome [OF g own [symmetric]] g show ?thesis
    by (intro exI [of _ g] exI [of _ c] exI [of _ m]) (auto simp: demo_record_def plain_stage_def)
qed

text \<open>A store whose operation has recorded the capture of a hundred modems.\<close>

definition large_fs :: op_fs where
  "large_fs = demo_fs(''op1'' := (demo_fs ''op1'')\<lparr>od_results :=
     [(''r'', map (\<lambda>k. demo_record 2 (nat_str k) StatusSuccess '''') [0..<300])]\<rparr>)"

lemma large_operation_shows_nothing_witness:
  "\<exists>s. load_state ''op1'' large_fs = Inr s \<and> count_result_records ''op1'' large_fs = 300 \<and>
     rv_groups (ra_results (rxmer_results (\<lambda>_. '''') demo_analysis None 250 ''op1''
       (Some \<lparr>rr_selection = \<lparr>se_groups = [], se_channels = [], se_macs = [''7'']\<rparr>, rr_basic = True\<rparr>) large_fs)) = []"
proof -
  have s: "load_state ''op1'' large_fs = Inr demo_op"
    using demo_state by (simp add: load_state_Inr large_fs_def)
  have n: "count_result_records ''op1'' large_fs = 300"
    by (simp add: count_result_records_def list_result_files_def large_fs_def)
  from large_operation_shows_nothing [OF s, of 250 "\<lambda>_. ''''" demo_analysis None] n s show ?thesis by simp
qed

text \<open>A channel selection of the constellation display service keeps only records that name one channel:
  for a capture that was requested on no or several channels it drops all records of every modem.\<close>

theorem channel_selection_drops_all:
  assumes "run_worker we fs item = Inr r" and "load_state (wi_operation item) fs = Inr s"
    and "length (rq_channels (op_summary s)) \<noteq> 1" and "se_channels se \<noteq> []"
  shows "filter_records_by_channel se (map (stage_linkage i item r) (wr_stages r)) = []"
proof -
  have "sr_channel st = None" if "st \<in> set (wr_stages r)" for st
    using that assms(1-3)
    by (auto simp: run_worker_def rxmer_capture_def stage_of_def plain_stage_def Let_def
        split: sum.splits option.splits prod.splits if_splits list.splits)
  then show ?thesis using assms(4) by (simp add: filter_records_by_channel_def stage_linkage_def filter_empty_conv)
qed

lemma channel_selection_drops_all_witness:
  "\<exists>r. run_worker demo_worker demo_fs \<lparr>wi_operation = ''op1'', wi_sg = 2, wi_mac = ''m3'', wi_attempt = 0\<rparr> = Inr r \<and>
     wr_stages r \<noteq> [] \<and>
     filter_records_by_channel \<lparr>se_groups = [], se_channels = [33], se_macs = []\<rparr>
       (map (stage_linkage ''op1'' \<lparr>wi_operation = ''op1'', wi_sg = 2, wi_mac = ''m3'', wi_attempt = 0\<rparr> r) (wr_stages r)) = []"
proof -
  let ?item = "\<lparr>wi_operation = ''op1'', wi_sg = 2, wi_mac = ''m3'', wi_attempt = 0\<rparr>"
  have "we_resolve demo_worker 2 ''m3'' = None"
    by (simp add: demo_worker_def resolve_modem_ip_def store_get_def two_groups_def group_entry_def demo_modem_def)
  then obtain r where r: "run_worker demo_worker demo_fs ?item = Inr r" "wr_stages r \<noteq> []"
    by (simp add: run_worker_def demo_state)
  have "length (rq_channels (op_summary demo_op)) \<noteq> 1" by (simp add: demo_summary demo_request_def)
  from channel_selection_drops_all [OF r(1) _ this] r show ?thesis by (simp add: demo_state)
qed


end
