(* ===== verification/CmtsSnmp.thy ===== *)
theory CmtsSnmp
  imports Prelude "HOL-Library.AList" "HOL-Library.List_Lexorder" "HOL-Library.Char_ord" "HOL-Library.Product_Lexorder"
begin

text \<open>
  What the CMTS tells about its service groups and modems, \<open>docsis/cmts_operation.py\<close> and
  \<open>docsis/data_type/cmts_cm_reg_status_entry.py\<close>: object identifiers, channel lists, the service
  group table and its join with the channel sets, and the registration table.  The SNMP client
  of the pypnm package is a record of functions.
\<close>

section \<open>The SNMP client\<close>

text \<open>A value the client returns, and \<open>int\<close> on it (\<open>None\<close> where it raises).\<close>

datatype py_val = PyInt int | PyStr string | PyBytes "nat list" | PyOther

fun int_of_val :: "py_val \<Rightarrow> int option" where
  "int_of_val (PyInt n) = Some n"
| "int_of_val (PyStr s) = py_int s"
| "int_of_val (PyBytes bs) = py_int (map char_of bs)"
| "int_of_val PyOther = None"

fun int_or_str :: "py_val \<Rightarrow> bool" where
  "int_or_str (PyInt n) = True"
| "int_or_str (PyStr s) = True"
| "int_or_str v = False"

fun bytes_or_str :: "py_val \<Rightarrow> bool" where
  "bytes_or_str (PyBytes bs) = True"
| "bytes_or_str (PyStr s) = True"
| "bytes_or_str v = False"

text \<open>A row of a walk: its object identifier as a tuple of integers (\<open>None\<close> when it is not one) and as
  text, and its value: an object that prints itself, bytes, anything else by its \<open>str\<close>, or a
  row that is not a tuple, with what the client makes of it.\<close>

datatype vb_value = VbPretty string | VbBytes "nat list" | VbPlain string | VbObject "string option"

record varbind =
  vb_oid :: "int list option"
  vb_text :: string
  vb_value :: vb_value

text \<open>The client: \<open>walk\<close> and \<open>get\<close> (\<open>Inl\<close> where they raise; \<open>get\<close> with the value of its answer, \<open>None\<close>
  without one), \<open>snmp_get_result_value\<close>, \<open>snmp_get_result_bytes\<close>, \<open>extract_last_oid_index\<close>,
  \<open>resolve_oid\<close>, the text of \<open>MacAddress(v)\<close> (\<open>None\<close> where it raises), \<open>InetGenerate.hex_to_inet\<close> and
  whether \<open>Inet\<close> accepts a text; \<open>bytes.decode\<close> with replacement; \<open>truth_value\<close> and \<open>float\<close> on a text
  (\<open>None\<close> where they raise).\<close>

record snmp =
  sn_walk :: "string \<Rightarrow> string + varbind list"
  sn_get :: "string \<Rightarrow> string + string option"
  sn_values :: "varbind list \<Rightarrow> py_val list"
  sn_bytes :: "varbind list \<Rightarrow> py_val list"
  sn_indices :: "varbind list \<Rightarrow> int list"
  sn_resolve :: "string \<Rightarrow> string"
  sn_mac :: "py_val \<Rightarrow> string option"
  sn_hex_inet :: "string \<Rightarrow> string option"
  sn_inet_ok :: "string \<Rightarrow> bool"
  sn_text :: "int list \<Rightarrow> string"
  sn_truth :: "string \<Rightarrow> bool option"
  sn_float :: "string \<Rightarrow> real option"

text \<open>A walk that raises is logged and counts as empty.\<close>

definition walk_rows :: "snmp \<Rightarrow> string \<Rightarrow> varbind list" where
  "walk_rows sn oid = (case sn_walk sn oid of Inl _ \<Rightarrow> [] | Inr rs \<Rightarrow> rs)"

definition get_value :: "snmp \<Rightarrow> string \<Rightarrow> string option" where
  "get_value sn oid = (case sn_get sn oid of Inl _ \<Rightarrow> None | Inr v \<Rightarrow> v)"

definition varbind_value :: "varbind \<Rightarrow> string option" where
  "varbind_value vb =
     (case vb_value vb of
        VbPretty s \<Rightarrow> Some s
      | VbBytes bs \<Rightarrow> Some (map char_of (filter (\<lambda>b. b < 128) bs))
      | VbPlain s \<Rightarrow> Some s
      | VbObject v \<Rightarrow> v)"

definition oid0 :: "string \<Rightarrow> string" where
  "oid0 oid = (if drop (length oid - 2) oid = ''.0'' then oid else oid @ ''.0'')"

definition snmp_get_str :: "snmp \<Rightarrow> string \<Rightarrow> string" where
  "snmp_get_str sn oid = (case get_value sn (oid0 oid) of None \<Rightarrow> '''' | Some s \<Rightarrow> s)"

definition snmp_get_int :: "snmp \<Rightarrow> string \<Rightarrow> int" where
  "snmp_get_int sn oid =
     (let s = snmp_get_str sn oid in if s = '''' then 0 else (case py_int s of None \<Rightarrow> 0 | Some n \<Rightarrow> n))"

section \<open>Object identifiers\<close>

fun split_on :: "char \<Rightarrow> string \<Rightarrow> string list" where
  "split_on c [] = [[]]"
| "split_on c (x # xs) =
     (if x = c then [] # split_on c xs
      else (case split_on c xs of [] \<Rightarrow> [[x]] | w # ws \<Rightarrow> (x # w) # ws))"

definition strip_char :: "char \<Rightarrow> string \<Rightarrow> string" where
  "strip_char c s = rev (dropWhile (\<lambda>x. x = c) (rev (dropWhile (\<lambda>x. x = c) s)))"

text \<open>\<open>tuple(int(part) for part in base_str.strip(".").split("."))\<close>.\<close>

definition oid_tuple :: "string \<Rightarrow> int list option" where
  "oid_tuple s =
     (let ps = map py_int (split_on (CHR ''.'') (strip_char (CHR ''.'') s))
      in if None \<in> set ps then None else Some (map the ps))"

text \<open>The common head of the three parsers: what follows the column in a row's identifier.\<close>

definition oid_suffix :: "snmp \<Rightarrow> string \<Rightarrow> varbind \<Rightarrow> int list option" where
  "oid_suffix sn oid_base vb =
     (case (oid_tuple (sn_resolve sn oid_base), vb_oid vb) of
        (Some base, Some oid) \<Rightarrow> if length oid \<le> length base + 2 then None else Some (drop (length base) oid)
      | _ \<Rightarrow> None)"

text \<open>\<open>bytes\<close> of identifier components, which raises outside 0..255, and the name they spell.\<close>

definition node_name :: "snmp \<Rightarrow> int list \<Rightarrow> string result" where
  "node_name sn bs =
     (if \<exists>b \<in> set bs. b < 0 \<or> 255 < b then Inl (ValueError ''bytes must be in range(0, 256)'')
      else Inr (sn_text sn bs))"

definition parse_node_oid :: "snmp \<Rightarrow> string \<Rightarrow> varbind \<Rightarrow> (int \<times> string) option result" where
  "parse_node_oid sn oid_base vb =
     (case oid_suffix sn oid_base vb of
        Some (ifx # len # rest) \<Rightarrow>
          if rest = [] \<or> len < 0 \<or> int (length rest) < len + 1 then Inr None
          else map_sum id (\<lambda>name. Some (ifx, name)) (node_name sn (take (nat len) rest))
      | _ \<Rightarrow> Inr None)"

definition parse_node_oid_with_sg :: "snmp \<Rightarrow> string \<Rightarrow> varbind \<Rightarrow> (int \<times> string \<times> int) option result" where
  "parse_node_oid_with_sg sn oid_base vb =
     (case oid_suffix sn oid_base vb of
        Some (ifx # len # rest) \<Rightarrow>
          if rest = [] \<or> len < 0 \<or> int (length rest) < len + 1 then Inr None
          else map_sum id (\<lambda>name. Some (ifx, name, rest ! nat len)) (node_name sn (take (nat len) rest))
      | _ \<Rightarrow> Inr None)"

definition parse_node_key :: "snmp \<Rightarrow> string \<Rightarrow> varbind \<Rightarrow> (int \<times> string \<times> int) option result" where
  "parse_node_key sn oid_base vb =
     (case oid_suffix sn oid_base vb of
        Some (ifx # len # rest) \<Rightarrow>
          if length rest < 2 \<or> len < 0 \<or> int (length rest) \<le> len then Inr None
          else map_sum id (\<lambda>name. Some (ifx, name, rest ! nat len)) (node_name sn (take (nat len) rest))
      | _ \<Rightarrow> Inr None)"

section \<open>Channel lists\<close>

definition hex_value :: "char \<Rightarrow> nat option" where
  "hex_value c =
     (let n = (of_char c :: nat)
      in if 48 \<le> n \<and> n \<le> 57 then Some (n - 48)
         else if 65 \<le> n \<and> n \<le> 70 then Some (n - 55)
         else if 97 \<le> n \<and> n \<le> 102 then Some (n - 87) else None)"

text \<open>\<open>bytes.fromhex\<close>, which skips ASCII blanks between the pairs.\<close>

definition ascii_space :: "char \<Rightarrow> bool" where
  "ascii_space c = (let n = (of_char c :: nat) in n = 32 \<or> (9 \<le> n \<and> n \<le> 13))"

fun from_hex :: "string \<Rightarrow> nat list option" where
  "from_hex [] = Some []"
| "from_hex [c] = (if ascii_space c then Some [] else None)"
| "from_hex (c # d # s) =
     (if ascii_space c then from_hex (d # s)
      else (case (hex_value c, hex_value d, from_hex s) of
              (Some a, Some b, Some bs) \<Rightarrow> Some ((16 * a + b) # bs)
            | _ \<Rightarrow> None))"

text \<open>\<open>re.findall(r"\<backslash>d+", text)\<close> read as numbers.\<close>

fun find_numbers :: "int option \<Rightarrow> string \<Rightarrow> int list" where
  "find_numbers acc [] = (case acc of None \<Rightarrow> [] | Some n \<Rightarrow> [n])"
| "find_numbers acc (c # s) =
     (case digit_value c of
        Some d \<Rightarrow> find_numbers (Some (case acc of None \<Rightarrow> d | Some n \<Rightarrow> n * 10 + d)) s
      | None \<Rightarrow> (case acc of None \<Rightarrow> [] | Some n \<Rightarrow> [n]) @ find_numbers None s)"

definition parse_channel_list :: "string \<Rightarrow> int list" where
  "parse_channel_list text =
     (if py_startswith text ''0x'' \<and> even (length (drop 2 text))
      then (case from_hex (drop 2 text) of
              Some bs \<Rightarrow> map int bs
            | None \<Rightarrow> find_numbers None text)
      else find_numbers None text)"

section \<open>Service groups\<close>

text \<open>\<open>__collect_md_node_status\<close>: interface, node and column value of the rows that parse.\<close>

fun node_status :: "snmp \<Rightarrow> string \<Rightarrow> (varbind \<times> py_val) list \<Rightarrow> (int \<times> string \<times> int) list result" where
  "node_status sn oid [] = Inr []"
| "node_status sn oid ((vb, v) # rows) =
     (case parse_node_oid sn oid vb of
        Inl x \<Rightarrow> Inl x
      | Inr None \<Rightarrow> node_status sn oid rows
      | Inr (Some (ifx, name)) \<Rightarrow>
          (case int_of_val v of
             None \<Rightarrow> node_status sn oid rows
           | Some n \<Rightarrow> map_sum id (Cons (ifx, name, n)) (node_status sn oid rows)))"

definition collect_node_status :: "snmp \<Rightarrow> string \<Rightarrow> (int \<times> string \<times> int) list result" where
  "collect_node_status sn oid =
     (let rs = walk_rows sn oid in if rs = [] then Inr [] else node_status sn oid (zip rs (sn_values sn rs)))"

text \<open>\<open>__collect_md_node_status_value\<close>: the index and the column value.\<close>

fun node_values ::
  "snmp \<Rightarrow> string \<Rightarrow> (varbind \<times> py_val) list \<Rightarrow> ((int \<times> string \<times> int) \<times> int) list result" where
  "node_values sn oid [] = Inr []"
| "node_values sn oid ((vb, v) # rows) =
     (case parse_node_key sn oid vb of
        Inl x \<Rightarrow> Inl x
      | Inr None \<Rightarrow> node_values sn oid rows
      | Inr (Some k) \<Rightarrow>
          (case (if int_or_str v then int_of_val v else None) of
             None \<Rightarrow> node_values sn oid rows
           | Some n \<Rightarrow> map_sum id (Cons (k, n)) (node_values sn oid rows)))"

definition collect_node_values :: "snmp \<Rightarrow> string \<Rightarrow> ((int \<times> string \<times> int) \<times> int) list result" where
  "collect_node_values sn oid =
     (let rs = walk_rows sn oid in if rs = [] then Inr [] else node_values sn oid (zip rs (sn_values sn rs)))"

record service_group =
  sg_if :: int
  sg_node :: string
  sg_cm :: int
  sg_ds :: int
  sg_us :: int

definition group_of :: "int \<times> string \<times> int \<Rightarrow> int \<Rightarrow> int \<Rightarrow> service_group" where
  "group_of k ds us = \<lparr>sg_if = fst k, sg_node = fst (snd k), sg_cm = snd (snd k), sg_ds = ds, sg_us = us\<rparr>"

text \<open>The merge of the downstream and the upstream column, a dictionary in insertion order.\<close>

type_synonym group_table = "((int \<times> string \<times> int) \<times> service_group) list"

definition add_ds :: "group_table \<Rightarrow> (int \<times> string \<times> int) \<times> int \<Rightarrow> group_table" where
  "add_ds t r = AList.update (fst r) (group_of (fst r) (snd r) 0) t"

definition add_us :: "group_table \<Rightarrow> (int \<times> string \<times> int) \<times> int \<Rightarrow> group_table" where
  "add_us t r =
     (case map_of t (fst r) of
        None \<Rightarrow> AList.update (fst r) (group_of (fst r) 0 (snd r)) t
      | Some g \<Rightarrow> AList.update (fst r) (g\<lparr>sg_us := snd r\<rparr>) t)"

definition merge_groups ::
  "((int \<times> string \<times> int) \<times> int) list \<Rightarrow> ((int \<times> string \<times> int) \<times> int) list \<Rightarrow> group_table" where
  "merge_groups ds us = foldl add_us (foldl add_ds [] ds) us"

definition list_service_groups :: "snmp \<Rightarrow> service_group list result" where
  "list_service_groups sn =
     (case collect_node_values sn ''docsIf3MdNodeStatusMdDsSgId'' of
        Inl x \<Rightarrow> Inl x
      | Inr ds \<Rightarrow>
          (case collect_node_values sn ''docsIf3MdNodeStatusMdUsSgId'' of
             Inl x \<Rightarrow> Inl x
           | Inr us \<Rightarrow> Inr (map snd (sort_key fst (merge_groups ds us)))))"

section \<open>Channel sets\<close>

text \<open>The rows of a column, with the first two components of their index.\<close>

definition row_index :: "string \<Rightarrow> varbind \<Rightarrow> (int \<times> int) option" where
  "row_index prefix vb =
     (let s = dropWhile (\<lambda>c. c = CHR ''.'') (vb_text vb)
      in if \<not> py_startswith s prefix then None
         else (case map py_int (split_on (CHR ''.'') (drop (length prefix) s)) of
                 Some a # Some b # _ \<Rightarrow> Some (a, b)
               | _ \<Rightarrow> None))"

definition ch_set_row :: "string \<Rightarrow> varbind \<Rightarrow> ((int \<times> int) \<times> int) option" where
  "ch_set_row prefix vb =
     (case row_index prefix vb of
        None \<Rightarrow> None
      | Some k \<Rightarrow> (case varbind_value vb of None \<Rightarrow> None | Some s \<Rightarrow> map_option (Pair k) (py_int s)))"

definition channel_row :: "string \<Rightarrow> varbind \<Rightarrow> ((int \<times> int) \<times> int list) option" where
  "channel_row prefix vb =
     (case row_index prefix vb of
        None \<Rightarrow> None
      | Some k \<Rightarrow> (case varbind_value vb of None \<Rightarrow> None | Some s \<Rightarrow> Some (k, parse_channel_list s)))"

text \<open>A dictionary built by a loop: the last row of a key counts.\<close>

definition collect_ch_sets :: "snmp \<Rightarrow> string \<Rightarrow> (int \<times> int) \<rightharpoonup> int" where
  "collect_ch_sets sn oid =
     map_of (rev (List.map_filter (ch_set_row (sn_resolve sn oid @ ''.'')) (walk_rows sn oid)))"

definition collect_channels :: "snmp \<Rightarrow> string \<Rightarrow> (int \<times> int) \<rightharpoonup> int list" where
  "collect_channels sn oid =
     map_of (rev (List.map_filter (channel_row (sn_resolve sn oid @ ''.'')) (walk_rows sn oid)))"

definition has_ch_sets :: "snmp \<Rightarrow> string \<Rightarrow> bool" where
  "has_ch_sets sn oid =
     (List.map_filter (ch_set_row (sn_resolve sn oid @ ''.'')) (walk_rows sn oid) \<noteq> [])"

definition two_index :: "string \<Rightarrow> int \<Rightarrow> int \<Rightarrow> string" where
  "two_index oid a b = oid @ ''.'' @ int_str a @ ''.'' @ int_str b"

definition get_ds_ch_set :: "snmp \<Rightarrow> int \<Rightarrow> int \<Rightarrow> bool \<times> int" where
  "get_ds_ch_set sn ifx sg =
     (case get_value sn (two_index ''docsIf3MdDsSgStatusChSetId'' ifx sg) of
        None \<Rightarrow> (False, 0)
      | Some s \<Rightarrow> (case py_int s of None \<Rightarrow> (False, 0) | Some n \<Rightarrow> (True, n)))"

definition get_us_ch_set :: "snmp \<Rightarrow> int \<Rightarrow> int \<Rightarrow> bool \<times> int" where
  "get_us_ch_set sn ifx sg =
     (case get_value sn (two_index ''docsIf3MdUsSgStatusChSetId'' ifx sg) of
        None \<Rightarrow> (False, 0)
      | Some s \<Rightarrow> (case py_int s of None \<Rightarrow> (False, 0) | Some n \<Rightarrow> (True, n)))"

definition get_ds_channels :: "snmp \<Rightarrow> int \<Rightarrow> int \<Rightarrow> int list" where
  "get_ds_channels sn ifx cset =
     (case get_value sn (two_index ''docsIf3DsChSetChList'' ifx cset) of
        Some s \<Rightarrow> parse_channel_list s
      | None \<Rightarrow> (case collect_channels sn ''docsIf3DsChSetChList'' (ifx, cset) of None \<Rightarrow> [] | Some cs \<Rightarrow> cs))"

definition get_us_channels :: "snmp \<Rightarrow> int \<Rightarrow> int \<Rightarrow> int list" where
  "get_us_channels sn ifx cset =
     (case get_value sn (two_index ''docsIf3UsChSetChList'' ifx cset) of
        Some s \<Rightarrow> parse_channel_list s
      | None \<Rightarrow> (case collect_channels sn ''docsIf3UsChSetChList'' (ifx, cset) of None \<Rightarrow> [] | Some cs \<Rightarrow> cs))"

section \<open>Topology\<close>

record topology_entry =
  te_group :: service_group
  te_ds_exists :: bool
  te_us_exists :: bool
  te_ds_set :: int
  te_us_set :: int
  te_ds_channels :: "int list"
  te_us_channels :: "int list"

definition group_topology :: "snmp \<Rightarrow> service_group \<Rightarrow> topology_entry" where
  "group_topology sn g =
     (let ds_sets = collect_ch_sets sn ''docsIf3MdDsSgStatusChSetId'';
          us_sets = collect_ch_sets sn ''docsIf3MdUsSgStatusChSetId'';
          ds_chs = collect_channels sn ''docsIf3DsChSetChList'';
          us_chs = collect_channels sn ''docsIf3UsChSetChList'';
          (ds_ok, ds_set) =
            (if 0 < sg_ds g
             then if has_ch_sets sn ''docsIf3MdDsSgStatusChSetId''
                  then (case ds_sets (sg_if g, sg_ds g) of None \<Rightarrow> (False, 0) | Some n \<Rightarrow> (True, n))
                  else get_ds_ch_set sn (sg_if g) (sg_ds g)
             else (False, 0));
          (us_ok, us_set) =
            (if 0 < sg_us g
             then if has_ch_sets sn ''docsIf3MdUsSgStatusChSetId''
                  then (case us_sets (sg_if g, sg_us g) of None \<Rightarrow> (False, 0) | Some n \<Rightarrow> (True, n))
                  else get_us_ch_set sn (sg_if g) (sg_us g)
             else (False, 0));
          ds = (case ds_chs (sg_if g, ds_set) of Some cs \<Rightarrow> cs
                | None \<Rightarrow> if ds_ok \<and> 0 < ds_set then get_ds_channels sn (sg_if g) ds_set else []);
          us = (case us_chs (sg_if g, us_set) of Some cs \<Rightarrow> cs
                | None \<Rightarrow> if us_ok \<and> 0 < us_set then get_us_channels sn (sg_if g) us_set else [])
      in \<lparr>te_group = g, te_ds_exists = ds_ok, te_us_exists = us_ok, te_ds_set = ds_set, te_us_set = us_set,
          te_ds_channels = ds, te_us_channels = us\<rparr>)"

definition service_group_topology :: "snmp \<Rightarrow> topology_entry list result" where
  "service_group_topology sn = map_sum id (map (group_topology sn)) (list_service_groups sn)"

section \<open>Groups by node name\<close>

fun find_node :: "string \<Rightarrow> (int \<times> string \<times> int) list \<Rightarrow> int option" where
  "find_node name [] = None"
| "find_node name ((ifx, node, n) # rows) = (if node = name then Some n else find_node name rows)"

text \<open>An exception of the downstream table is logged and counts as no rows, one of the upstream table ends
  the search.\<close>

definition cm_sg_of_node :: "snmp \<Rightarrow> string \<Rightarrow> bool \<times> int" where
  "cm_sg_of_node sn node =
     (let name = py_strip node
      in if name = '''' then (False, 0)
         else (case find_node name (case collect_node_status sn ''docsIf3MdNodeStatusMdDsSgId'' of Inl _ \<Rightarrow> [] | Inr rs \<Rightarrow> rs) of
                 Some n \<Rightarrow> (True, n)
               | None \<Rightarrow>
                   (case collect_node_status sn ''docsIf3MdNodeStatusMdUsSgId'' of
                      Inl _ \<Rightarrow> (False, 0)
                    | Inr rs \<Rightarrow> (case find_node name rs of Some n \<Rightarrow> (True, n) | None \<Rightarrow> (False, 0)))))"

fun reg_sg_rows :: "snmp \<Rightarrow> string \<Rightarrow> varbind list \<Rightarrow> (bool \<times> int) result" where
  "reg_sg_rows sn name [] = Inr (False, 0)"
| "reg_sg_rows sn name (vb # rows) =
     (case parse_node_oid_with_sg sn ''docsIf3MdNodeStatusMdDsSgId'' vb of
        Inl x \<Rightarrow> Inl x
      | Inr (Some (ifx, node, sg)) \<Rightarrow> if node = name then Inr (True, sg) else reg_sg_rows sn name rows
      | Inr None \<Rightarrow> reg_sg_rows sn name rows)"

definition reg_sg_of_node :: "snmp \<Rightarrow> string \<Rightarrow> (bool \<times> int) result" where
  "reg_sg_of_node sn node =
     (let name = py_strip node
      in if name = '''' then Inr (False, 0)
         else reg_sg_rows sn name (walk_rows sn ''docsIf3MdNodeStatusMdDsSgId''))"

fun reg_sg_values :: "snmp \<Rightarrow> int \<Rightarrow> (varbind \<times> py_val) list \<Rightarrow> (bool \<times> int) result" where
  "reg_sg_values sn target [] = Inr (False, 0)"
| "reg_sg_values sn target ((vb, v) # rows) =
     (if \<not> int_or_str v \<or> int_of_val v \<noteq> Some target then reg_sg_values sn target rows
      else (case parse_node_oid_with_sg sn ''docsIf3MdNodeStatusMdDsSgId'' vb of
              Inl x \<Rightarrow> Inl x
            | Inr (Some (ifx, node, sg)) \<Rightarrow> Inr (True, sg)
            | Inr None \<Rightarrow> reg_sg_values sn target rows))"

definition reg_sg_of_ds :: "snmp \<Rightarrow> int \<Rightarrow> (bool \<times> int) result" where
  "reg_sg_of_ds sn target =
     (let rs = walk_rows sn ''docsIf3MdNodeStatusMdDsSgId''
      in if rs = [] then Inr (False, 0) else reg_sg_values sn target (zip rs (sn_values sn rs)))"

section \<open>Registered modems\<close>

text \<open>\<open>int(value, 0)\<close>: a prefix gives the base, a decimal number has no leading zero.\<close>

fun base_digits :: "nat \<Rightarrow> int \<Rightarrow> bool \<Rightarrow> string \<Rightarrow> int option" where
  "base_digits b acc seen [] = (if seen then Some acc else None)"
| "base_digits b acc seen (c # cs) =
     (case hex_value c of
        Some d \<Rightarrow> if d < b then base_digits b (acc * int b + int d) True cs else None
      | None \<Rightarrow> if c = CHR ''_'' \<and> seen then base_digits b acc False cs else None)"

definition drop_sep :: "string \<Rightarrow> string" where
  "drop_sep s = (case s of c # cs \<Rightarrow> if c = CHR ''_'' then cs else s | [] \<Rightarrow> s)"

definition unsigned_int0 :: "string \<Rightarrow> int option" where
  "unsigned_int0 s =
     (let p = py_lower (take 2 s)
      in if p = ''0x'' then base_digits 16 0 False (drop_sep (drop 2 s))
         else if p = ''0o'' then base_digits 8 0 False (drop_sep (drop 2 s))
         else if p = ''0b'' then base_digits 2 0 False (drop_sep (drop 2 s))
         else (case base_digits 10 0 False s of
                 None \<Rightarrow> None
               | Some n \<Rightarrow> if hd s = CHR ''0'' \<and> n \<noteq> 0 then None else Some n))"

definition py_int0 :: "string \<Rightarrow> int option" where
  "py_int0 s =
     (case py_strip s of
        [] \<Rightarrow> None
      | c # cs \<Rightarrow> if c = CHR ''-'' then map_option uminus (unsigned_int0 cs)
                  else if c = CHR ''+'' then unsigned_int0 cs
                  else unsigned_int0 (c # cs))"

record reg_entry =
  re_id :: int
  re_mac :: "string option"
  re_ipv6 :: "string option"
  re_ipv6_ll :: "string option"
  re_ipv4 :: "string option"
  re_value :: "int option"
  re_md_if :: "int option"
  re_md_sg :: "int option"
  re_rcp :: "string option"
  re_rcc :: "int option"
  re_rcs :: "int option"
  re_tcs :: "int option"
  re_qos :: "int option"
  re_last_reg :: "string option"
  re_addr_reqs :: "int option"
  re_energy_on :: "int option"
  re_energy_status :: "int option"

text \<open>\<open>fetch\<close> with its three kinds of cast.\<close>

definition field_text :: "snmp \<Rightarrow> string \<Rightarrow> int \<Rightarrow> string option" where
  "field_text sn field ix =
     (case get_value sn (field @ ''.'' @ int_str ix) of
        None \<Rightarrow> None | Some s \<Rightarrow> if s = '''' then None else Some s)"

definition field_int :: "snmp \<Rightarrow> string \<Rightarrow> int \<Rightarrow> int option" where
  "field_int sn field ix = (case field_text sn field ix of None \<Rightarrow> None | Some s \<Rightarrow> py_int0 s)"

definition field_mac :: "snmp \<Rightarrow> string \<Rightarrow> int \<Rightarrow> string option" where
  "field_mac sn field ix = (case field_text sn field ix of None \<Rightarrow> None | Some s \<Rightarrow> sn_mac sn (PyStr s))"

definition reg_entry_from_snmp :: "snmp \<Rightarrow> int \<Rightarrow> reg_entry" where
  "reg_entry_from_snmp sn ix =
     \<lparr>re_id = ix,
      re_mac = field_mac sn ''docsIf3CmtsCmRegStatusMacAddr'' ix,
      re_ipv6 = field_text sn ''docsIf3CmtsCmRegStatusIPv6Addr'' ix,
      re_ipv6_ll = field_text sn ''docsIf3CmtsCmRegStatusIPv6LinkLocal'' ix,
      re_ipv4 = field_text sn ''docsIf3CmtsCmRegStatusIPv4Addr'' ix,
      re_value = field_int sn ''docsIf3CmtsCmRegStatusValue'' ix,
      re_md_if = field_int sn ''docsIf3CmtsCmRegStatusMdIfIndex'' ix,
      re_md_sg = field_int sn ''docsIf3CmtsCmRegStatusMdCmSgId'' ix,
      re_rcp = field_text sn ''docsIf3CmtsCmRegStatusRcpId'' ix,
      re_rcc = field_int sn ''docsIf3CmtsCmRegStatusRccStatusId'' ix,
      re_rcs = field_int sn ''docsIf3CmtsCmRegStatusRcsId'' ix,
      re_tcs = field_int sn ''docsIf3CmtsCmRegStatusTcsId'' ix,
      re_qos = field_int sn ''docsIf3CmtsCmRegStatusQosVersion'' ix,
      re_last_reg = field_text sn ''docsIf3CmtsCmRegStatusLastRegTime'' ix,
      re_addr_reqs = field_int sn ''docsIf3CmtsCmRegStatusAddrResolutionReqs'' ix,
      re_energy_on = field_int sn ''docsIf3CmtsCmRegStatusEnergyMgtEnabled'' ix,
      re_energy_status = field_int sn ''docsIf3CmtsCmRegStatusEnergyMgtOperStatus'' ix\<rparr>"

definition reg_entries :: "snmp \<Rightarrow> int list \<Rightarrow> reg_entry list" where
  "reg_entries sn ixs = filter (\<lambda>e. re_id e \<noteq> 0) (map (reg_entry_from_snmp sn) ixs)"

definition matched_indices :: "snmp \<Rightarrow> int \<Rightarrow> int list" where
  "matched_indices sn target =
     (let rs = walk_rows sn ''docsIf3CmtsCmRegStatusMdCmSgId''
      in if rs = [] then []
         else map fst (filter (\<lambda>(ix, v). int_or_str v \<and> int_of_val v = Some target) (zip (sn_indices sn rs) (sn_values sn rs))))"

definition all_register_cm :: "snmp \<Rightarrow> int \<Rightarrow> reg_entry list" where
  "all_register_cm sn target =
     (let ixs = matched_indices sn target in if ixs = [] then [] else reg_entries sn ixs)"

text \<open>\<open>getAllRegisterCmMacInetAddress\<close>: index, MAC address and the three inet addresses.\<close>

definition fetch_text :: "snmp \<Rightarrow> string \<Rightarrow> int \<Rightarrow> string" where
  "fetch_text sn field ix = (case get_value sn (field @ ''.'' @ int_str ix) of None \<Rightarrow> '''' | Some s \<Rightarrow> s)"

definition cm_mac_inet_row :: "snmp \<Rightarrow> int \<Rightarrow> (int \<times> string \<times> string \<times> string \<times> string) option" where
  "cm_mac_inet_row sn ix =
     (let mac = fetch_text sn ''docsIf3CmtsCmRegStatusMacAddr'' ix
      in if mac = '''' then None
         else (case sn_mac sn (PyStr mac) of
                 None \<Rightarrow> None
               | Some m \<Rightarrow> Some (ix, m, fetch_text sn ''docsIf3CmtsCmRegStatusIPv4Addr'' ix,
                   fetch_text sn ''docsIf3CmtsCmRegStatusIPv6Addr'' ix,
                   fetch_text sn ''docsIf3CmtsCmRegStatusIPv6LinkLocal'' ix)))"

definition all_register_cm_mac_inet :: "snmp \<Rightarrow> int \<Rightarrow> (int \<times> string \<times> string \<times> string \<times> string) list" where
  "all_register_cm_mac_inet sn target =
     (let rs = walk_rows sn ''docsIf3CmtsCmRegStatusMdCmSgId''
      in if rs = [] then []
         else List.map_filter (\<lambda>(ix, v). if int_of_val v = Some target then cm_mac_inet_row sn ix else None)
                (zip (sn_indices sn rs) (sn_values sn rs)))"

text \<open>The registration index of a MAC address.\<close>

fun find_mac :: "snmp \<Rightarrow> string \<Rightarrow> (int \<times> py_val) list \<Rightarrow> int option" where
  "find_mac sn mac [] = None"
| "find_mac sn mac ((ix, v) # rows) =
     (if bytes_or_str v \<and> sn_mac sn v = Some mac then Some ix else find_mac sn mac rows)"

definition mac_index :: "snmp \<Rightarrow> string \<Rightarrow> int option" where
  "mac_index sn mac =
     (let rs = walk_rows sn ''docsIf3CmtsCmRegStatusMacAddr''
      in if rs = [] then None else find_mac sn mac (zip (sn_indices sn rs) (sn_bytes sn rs)))"

definition cm_sg_of_mac :: "snmp \<Rightarrow> string \<Rightarrow> bool \<times> int" where
  "cm_sg_of_mac sn mac =
     (case mac_index sn mac of
        None \<Rightarrow> (False, 0)
      | Some found \<Rightarrow>
          (let rs = walk_rows sn ''docsIf3CmtsCmRegStatusMdCmSgId''
           in if rs = [] then (True, 0)
              else (case map_of (zip (sn_indices sn rs) (sn_values sn rs)) found of
                      None \<Rightarrow> (True, 0)
                    | Some v \<Rightarrow> if \<not> int_or_str v then (True, 0)
                                else (case int_of_val v of None \<Rightarrow> (True, 0) | Some n \<Rightarrow> (True, n)))))"

definition reg_status_macs :: "snmp \<Rightarrow> (int \<times> string) list" where
  "reg_status_macs sn =
     (let rs = walk_rows sn ''docsIf3CmtsCmRegStatusMacAddr''
      in if rs = [] then []
         else List.map_filter (\<lambda>(ix, v). if bytes_or_str v then map_option (Pair ix) (sn_mac sn v) else None)
                (zip (sn_indices sn rs) (sn_bytes sn rs)))"

text \<open>\<open>getCmInetAddress\<close>; \<open>str\<close> of a walked value is \<open>show_val\<close>.\<close>

definition walk_text :: "(py_val \<Rightarrow> string) \<Rightarrow> snmp \<Rightarrow> string \<Rightarrow> int \<Rightarrow> string" where
  "walk_text show_val sn oid found =
     (let rs = walk_rows sn oid
      in if rs = [] then ''''
         else (case map_of (zip (sn_indices sn rs) (sn_values sn rs)) found of None \<Rightarrow> '''' | Some v \<Rightarrow> show_val v))"

definition validate_inet :: "snmp \<Rightarrow> string \<Rightarrow> string" where
  "validate_inet sn s =
     (if s = '''' then ''''
      else (let n = (if \<not> py_startswith s ''0x'' then s
                     else (case sn_hex_inet sn (drop 2 s) of None \<Rightarrow> s | Some a \<Rightarrow> a))
            in if sn_inet_ok sn n then n else ''''))"

definition cm_inet_address :: "(py_val \<Rightarrow> string) \<Rightarrow> snmp \<Rightarrow> string \<Rightarrow> bool \<times> (string \<times> string \<times> string)" where
  "cm_inet_address show_val sn mac =
     (case mac_index sn mac of
        None \<Rightarrow> (False, ('''', '''', ''''))
      | Some ix \<Rightarrow>
          (let a = fetch_text sn ''docsIf3CmtsCmRegStatusIPv4Addr'' ix;
               b = fetch_text sn ''docsIf3CmtsCmRegStatusIPv6Addr'' ix;
               c = fetch_text sn ''docsIf3CmtsCmRegStatusIPv6LinkLocal'' ix;
               (a, b, c) = (if a = '''' \<and> b = '''' \<and> c = ''''
                 then (walk_text show_val sn ''docsIf3CmtsCmRegStatusIPv4Addr'' ix,
                       walk_text show_val sn ''docsIf3CmtsCmRegStatusIPv6Addr'' ix,
                       walk_text show_val sn ''docsIf3CmtsCmRegStatusIPv6LinkLocal'' ix)
                 else (a, b, c))
           in (True, (validate_inet sn a, validate_inet sn b, validate_inet sn c))))"

section \<open>Lemmas\<close>

lemma map_of_foldl_add_ds:
  "map_of (foldl add_ds t rs) k = (case map_of (rev rs) k of None \<Rightarrow> map_of t k | Some v \<Rightarrow> Some (group_of k v 0))"
  by (induction rs rule: rev_induct) (auto simp: add_ds_def update_conv')

lemma map_of_foldl_add_us:
  "map_of (foldl add_us t rs) k =
   (case map_of (rev rs) k of
      None \<Rightarrow> map_of t k
    | Some u \<Rightarrow> Some (case map_of t k of None \<Rightarrow> group_of k 0 u | Some g \<Rightarrow> g\<lparr>sg_us := u\<rparr>))"
  by (induction rs rule: rev_induct) (auto simp: add_us_def update_conv' group_of_def split: option.splits)

lemma distinct_merge: "distinct (map fst (merge_groups ds us))"
proof -
  have "distinct (map fst (foldl add_ds [] ds))"
    by (induction ds rule: rev_induct) (simp_all add: add_ds_def distinct_update)
  then show ?thesis unfolding merge_groups_def
    by (induction us rule: rev_induct) (auto simp: add_us_def distinct_update split: option.splits)
qed

definition last_value :: "((int \<times> string \<times> int) \<times> int) list \<Rightarrow> int \<times> string \<times> int \<Rightarrow> int" where
  "last_value rs k = (case map_of (rev rs) k of None \<Rightarrow> 0 | Some v \<Rightarrow> v)"

lemma map_of_rev_None: "map_of (rev rs) k = None \<longleftrightarrow> k \<notin> fst ` set rs"
  by (simp add: map_of_eq_None_iff)

lemma map_of_merge:
  "map_of (merge_groups ds us) k =
   (if k \<in> fst ` set ds \<union> fst ` set us then Some (group_of k (last_value ds k) (last_value us k)) else None)"
proof -
  have d: "k \<in> fst ` set ds \<longleftrightarrow> map_of (rev ds) k \<noteq> None" and u: "k \<in> fst ` set us \<longleftrightarrow> map_of (rev us) k \<noteq> None"
    by (simp_all add: map_of_rev_None)
  have cases: "(case B of None \<Rightarrow> (case A of None \<Rightarrow> map_of [] k | Some v \<Rightarrow> Some (group_of k v 0))
      | Some u \<Rightarrow> Some (case (case A of None \<Rightarrow> map_of [] k | Some v \<Rightarrow> Some (group_of k v 0)) of
          None \<Rightarrow> group_of k 0 u | Some g \<Rightarrow> g\<lparr>sg_us := u\<rparr>)) =
    (if A \<noteq> None \<or> B \<noteq> None
     then Some (group_of k (case A of None \<Rightarrow> 0 | Some v \<Rightarrow> v) (case B of None \<Rightarrow> 0 | Some v \<Rightarrow> v)) else None)" for A B
    by (cases A; cases B) (simp_all add: group_of_def)
  show ?thesis
    unfolding Un_iff d u merge_groups_def map_of_foldl_add_us map_of_foldl_add_ds last_value_def by (rule cases)
qed

definition group_key :: "service_group \<Rightarrow> int \<times> string \<times> int" where
  "group_key g = (sg_if g, sg_node g, sg_cm g)"

lemma group_key_group_of [simp]: "group_key (group_of k ds us) = k"
  by (simp add: group_key_def group_of_def)

lemma in_merge:
  "(k, g) \<in> set (merge_groups ds us) \<longleftrightarrow>
   k \<in> fst ` set ds \<union> fst ` set us \<and> g = group_of k (last_value ds k) (last_value us k)"
  using map_of_eq_Some_iff [OF distinct_merge, of ds us k g] by (auto simp: map_of_merge split: if_splits)

lemma length_find_numbers: "2 * length (find_numbers acc s) \<le> length s + (if acc = None then 1 else 2)"
  by (induction acc s rule: find_numbers.induct) (auto split: option.splits)

lemma length_from_hex: "from_hex s = Some bs \<Longrightarrow> 2 * length bs \<le> length s"
proof (induction s arbitrary: bs rule: from_hex.induct)
  case (3 c d s)
  then show ?case by (fastforce split: if_splits option.splits)
qed (auto split: if_splits)

section \<open>Properties\<close>

text \<open>The index of a service group row reads back: a row whose identifier is the column followed by the
  interface, the length and bytes of the node name and the group number is parsed to exactly
  these, whatever the bytes of the name are.\<close>

theorem node_key_roundtrip:
  assumes "oid_tuple (sn_resolve sn col) = Some base"
    and "vb_oid vb = Some (base @ [ifx, int (length bs)] @ map int bs @ [cm])"
    and "bs \<noteq> []" and "\<forall>b \<in> set bs. b < 256"
  shows "parse_node_key sn col vb = Inr (Some (ifx, sn_text sn (map int bs), cm))"
proof -
  have "oid_suffix sn col vb = Some (ifx # int (length bs) # map int bs @ [cm])"
    using assms(1-3) by (simp add: oid_suffix_def)
  moreover have "node_name sn (map int bs) = Inr (sn_text sn (map int bs))"
    using assms(4) by (auto simp: node_name_def)
  ultimately show ?thesis using assms(3) by (simp add: parse_node_key_def nth_append)
qed

text \<open>C26: The service groups are the join of the two columns: every index of either column is one group, in
  strictly ascending order, with the last value each column gives for it and zero where it
  gives none.\<close>

theorem service_groups_joined:
  assumes "list_service_groups sn = Inr gs"
    and "collect_node_values sn ''docsIf3MdNodeStatusMdDsSgId'' = Inr ds"
    and "collect_node_values sn ''docsIf3MdNodeStatusMdUsSgId'' = Inr us"
  shows "sorted_wrt (<) (map group_key gs) \<and> group_key ` set gs = fst ` set ds \<union> fst ` set us \<and>
    (\<forall>g \<in> set gs. sg_ds g = last_value ds (group_key g) \<and> sg_us g = last_value us (group_key g))"
proof -
  let ?t = "sort_key fst (merge_groups ds us)"
  have gs: "gs = map snd ?t" using assms by (simp add: list_service_groups_def)
  have row: "group_key g = k" "sg_ds g = last_value ds k" "sg_us g = last_value us k" if "(k, g) \<in> set ?t" for k g
    using that by (simp_all add: in_merge group_of_def group_key_def)
  have k: "map group_key gs = map fst ?t" unfolding gs using row(1) by auto
  have "sorted (map fst ?t)" "distinct (map fst ?t)"
    using distinct_merge [of ds us] by (simp_all add: distinct_map)
  then have "sorted_wrt (<) (map group_key gs)" unfolding k by (simp add: strict_sorted_iff)
  moreover have "set (map group_key gs) = fst ` set ds \<union> fst ` set us"
  proof -
    have "x \<in> fst ` set (merge_groups ds us) \<longleftrightarrow> x \<in> fst ` set ds \<union> fst ` set us" for x
      using map_of_eq_None_iff [of "merge_groups ds us" x] by (simp add: map_of_merge split: if_splits)
    then have "fst ` set (merge_groups ds us) = fst ` set ds \<union> fst ` set us" by (rule set_eqI)
    then show ?thesis unfolding k by simp
  qed
  moreover have "sg_ds g = last_value ds (group_key g) \<and> sg_us g = last_value us (group_key g)" if "g \<in> set gs" for g
    using that row unfolding gs by fastforce
  ultimately show ?thesis by simp
qed

definition hex_digit :: "nat \<Rightarrow> char" where
  "hex_digit n = char_of (if n < 10 then 48 + n else 87 + n)"

lemma hex_value_hex_digit: "n < 16 \<Longrightarrow> hex_value (hex_digit n) = Some n \<and> \<not> ascii_space (hex_digit n)"
  by (auto simp: hex_value_def ascii_space_def hex_digit_def)

definition hex_digits :: "nat \<Rightarrow> string" where
  "hex_digits b = [hex_digit (b div 16), hex_digit (b mod 16)]"

lemma from_hex_digits: "\<forall>b \<in> set bs. b < 256 \<Longrightarrow> from_hex (concat (map hex_digits bs)) = Some bs"
proof (induction bs)
  case (Cons b bs)
  have "b div 16 < 16" using Cons.prems by (simp add: less_mult_imp_div_less)
  then show ?case using Cons
      hex_value_hex_digit [of "b div 16"] hex_value_hex_digit [of "b mod 16"] by (simp add: hex_digits_def)
qed simp

lemma even_hex_digits: "even (length (concat (map hex_digits bs)))"
  by (induction bs) (simp_all add: hex_digits_def)

text \<open>A channel list that the client prints in hexadecimal reads back as the channel numbers.\<close>

theorem channel_list_roundtrip:
  assumes "\<forall>b \<in> set bs. b < 256"
  shows "parse_channel_list (''0x'' @ concat (map hex_digits bs)) = map int bs"
  using from_hex_digits [OF assms] even_hex_digits [of bs] by (simp add: parse_channel_list_def py_startswith_def)

text \<open>A channel list whose bytes are all printable characters is always misread when the client prints
  such bytes as text, as pysnmp does: the channels come out as other numbers, or not at all.\<close>

theorem printable_channels_misread:
  assumes "\<forall>b \<in> set bs. 32 \<le> b \<and> b \<le> 126" and "bs \<noteq> []" and "pretty bs = map char_of bs"
  shows "parse_channel_list (pretty bs) \<noteq> map int bs"
proof
  assume e: "parse_channel_list (pretty bs) = map int bs"
  have n: "2 * length (find_numbers None (pretty bs)) \<le> length bs + 1"
    using length_find_numbers [of None "pretty bs"] assms(3) by simp
  show False
  proof (cases "py_startswith (pretty bs) ''0x'' \<and> (\<exists>cs. from_hex (drop 2 (pretty bs)) = Some cs)")
    case True
    then obtain cs where cs: "from_hex (drop 2 (pretty bs)) = Some cs" by blast
    have "2 \<le> length bs" using True assms(3) by (auto simp: py_startswith_iff dest: arg_cong [of _ _ length])
    moreover have "length cs = length bs \<or> length (find_numbers None (pretty bs)) = length bs"
      using e cs by (auto simp: parse_channel_list_def dest: arg_cong [of _ _ length] split: if_splits)
    moreover have "2 * length cs \<le> length bs - 2" using length_from_hex [OF cs] assms(3) by simp
    ultimately show False using n by linarith
  next
    case False
    then have f: "find_numbers None (pretty bs) = map int bs"
      using e by (auto simp: parse_channel_list_def split: if_splits option.splits)
    then have "length bs \<le> 1" using n by (auto dest: arg_cong [of _ _ length])
    then obtain b where b: "bs = [b]" using assms(2) by (cases bs) auto
    have "(of_char (char_of b :: char) :: nat) = b" using assms(1) b by simp
    then show False using f assms(3) b by (auto simp: digit_value_def Let_def split: if_splits)
  qed
qed


text \<open>The lookup of a node's MD-CM-SG-ID answers the downstream service group instead: it returns the
  column value, where the service group list and the other lookup take the group number from the
  index.\<close>

theorem node_lookup_returns_channel_group:
  assumes "sn_walk sn ''docsIf3MdNodeStatusMdDsSgId'' = Inr [vb]" and "sn_values sn [vb] = [PyInt ds]"
    and "parse_node_key sn ''docsIf3MdNodeStatusMdDsSgId'' vb = Inr (Some (ifx, node, cm))"
    and "sn_walk sn ''docsIf3MdNodeStatusMdUsSgId'' = Inr []" and "py_strip node = node" and "node \<noteq> ''''"
  shows "cm_sg_of_node sn node = (True, ds) \<and> reg_sg_of_node sn node = Inr (True, cm) \<and>
    list_service_groups sn = Inr [group_of (ifx, node, cm) ds 0]"
proof -
  obtain len rest where o: "oid_suffix sn ''docsIf3MdNodeStatusMdDsSgId'' vb = Some (ifx # len # rest)"
    "\<not> (length rest < 2 \<or> len < 0 \<or> int (length rest) \<le> len)"
    "node_name sn (take (nat len) rest) = Inr node" "rest ! nat len = cm"
    using assms(3) by (auto simp: parse_node_key_def map_sum_def split: option.splits list.splits if_splits sum.splits)
  have p: "parse_node_oid sn ''docsIf3MdNodeStatusMdDsSgId'' vb = Inr (Some (ifx, node))"
    "parse_node_oid_with_sg sn ''docsIf3MdNodeStatusMdDsSgId'' vb = Inr (Some (ifx, node, cm))"
    using o by (auto simp: parse_node_oid_def parse_node_oid_with_sg_def)
  show ?thesis
    using assms p
    by (simp add: cm_sg_of_node_def reg_sg_of_node_def collect_node_status_def walk_rows_def list_service_groups_def
        collect_node_values_def merge_groups_def add_ds_def)
qed

text \<open>The two registration lookups agree: a modem found by its MAC address in a group is among the
  registered modems of that group.\<close>

theorem mac_lookup_in_group:
  assumes "cm_sg_of_mac sn mac = (True, n)" and "n \<noteq> 0"
    and "mac_index sn mac = Some ix" and "ix \<noteq> 0"
  shows "\<exists>e \<in> set (all_register_cm sn n). re_id e = ix"
proof -
  let ?rs = "walk_rows sn ''docsIf3CmtsCmRegStatusMdCmSgId''"
  obtain v where v: "map_of (zip (sn_indices sn ?rs) (sn_values sn ?rs)) ix = Some v" "int_or_str v"
    "int_of_val v = Some n" "?rs \<noteq> []"
    using assms(1-3) by (auto simp: cm_sg_of_mac_def Let_def split: option.splits if_splits)
  from map_of_SomeD [OF v(1)] v(2-4) have "ix \<in> set (matched_indices sn n)"
    by (auto simp: matched_indices_def Let_def intro!: rev_image_eqI [of "(ix, v)"])
  then show ?thesis using assms(4)
    by (auto simp: all_register_cm_def reg_entries_def reg_entry_from_snmp_def Let_def intro!: bexI)
qed


text \<open>A CMTS with one downstream service group and one registered modem.\<close>

definition demo_row :: "int list \<Rightarrow> varbind" where
  "demo_row oid = \<lparr>vb_oid = Some oid, vb_text = '''', vb_value = VbPretty ''7''\<rparr>"

definition demo_snmp :: snmp where
  "demo_snmp =
     \<lparr>sn_walk = (\<lambda>c. if c = ''docsIf3MdNodeStatusMdDsSgId'' then Inr [demo_row [1, 2, 10, 2, 78, 49, 5]]
        else if c = ''docsIf3CmtsCmRegStatusMacAddr'' \<or> c = ''docsIf3CmtsCmRegStatusMdCmSgId'' then Inr [demo_row [1, 3, 99]]
        else Inr []),
      sn_get = (\<lambda>c. Inr None), sn_values = map (\<lambda>vb. PyInt 7), sn_bytes = map (\<lambda>vb. PyStr ''aa''),
      sn_indices = map (\<lambda>vb. last (the (vb_oid vb))), sn_resolve = (\<lambda>c. ''1.2''),
      sn_mac = (\<lambda>v. Some ''aa''), sn_hex_inet = (\<lambda>s. None), sn_inet_ok = (\<lambda>s. True),
      sn_text = map (\<lambda>b. char_of (nat b)),
      sn_truth = (\<lambda>s. None), sn_float = (\<lambda>s. None)\<rparr>"

lemma demo_snmp_simps:
  "sn_walk demo_snmp c = (if c = ''docsIf3MdNodeStatusMdDsSgId'' then Inr [demo_row [1, 2, 10, 2, 78, 49, 5]]
     else if c = ''docsIf3CmtsCmRegStatusMacAddr'' \<or> c = ''docsIf3CmtsCmRegStatusMdCmSgId'' then Inr [demo_row [1, 3, 99]]
     else Inr [])"
  "sn_values demo_snmp rs = map (\<lambda>vb. PyInt 7) rs" "sn_bytes demo_snmp rs = map (\<lambda>vb. PyStr ''aa'') rs"
  "sn_indices demo_snmp rs = map (\<lambda>vb. last (the (vb_oid vb))) rs" "sn_mac demo_snmp v = Some ''aa''"
  "sn_text demo_snmp bs = map (\<lambda>b. char_of (nat b)) bs" "vb_oid (demo_row oid) = Some oid"
  by (simp_all add: demo_snmp_def demo_row_def)

lemma demo_chars:
  "char_of (78 :: nat) = CHR ''N''" "char_of (49 :: nat) = CHR ''1''" "char_of (48 :: nat) = CHR ''0''"
  "char_of (102 :: nat) = CHR ''f''" "char_of (35 :: nat) = CHR ''#''" "char_of (36 :: nat) = CHR ''$''"
  "char_of (37 :: nat) = CHR ''%''" "char_of (38 :: nat) = CHR ''&''"
  by (simp_all add: char_of_def bit_Suc_0_iff)

lemma demo_oid: "oid_tuple (sn_resolve demo_snmp c) = Some [1, 2]"
  by (simp add: demo_snmp_def oid_tuple_def strip_char_def py_int_def py_strip_def py_lstrip_def py_space_def digit_value_def Let_def)

lemma node_key_roundtrip_witness:
  "parse_node_key demo_snmp ''docsIf3MdNodeStatusMdDsSgId'' (demo_row [1, 2, 10, 2, 78, 49, 5]) = Inr (Some (10, ''N1'', 5))"
  using node_key_roundtrip [of demo_snmp "''docsIf3MdNodeStatusMdDsSgId''" "[1, 2]" "demo_row [1, 2, 10, 2, 78, 49, 5]" 10 "[78, 49]" 5, OF demo_oid]
  by (simp add: demo_snmp_simps demo_chars)

lemma demo_key: "parse_node_key demo_snmp c (demo_row [1, 2, 10, 2, 78, 49, 5]) = Inr (Some (10, ''N1'', 5))"
  by (simp add: parse_node_key_def oid_suffix_def demo_oid node_name_def demo_snmp_simps demo_chars)

lemma demo_ds: "collect_node_values demo_snmp ''docsIf3MdNodeStatusMdDsSgId'' = Inr [((10, ''N1'', 5), 7)]"
  by (simp add: collect_node_values_def walk_rows_def demo_snmp_simps demo_key)

lemma demo_us: "collect_node_values demo_snmp ''docsIf3MdNodeStatusMdUsSgId'' = Inr []"
  by (simp add: collect_node_values_def walk_rows_def demo_snmp_simps)

lemma service_groups_joined_witness:
  "\<exists>gs. list_service_groups demo_snmp = Inr gs \<and> group_key ` set gs = {(10, ''N1'', 5)} \<and> (\<forall>g \<in> set gs. sg_ds g = 7 \<and> sg_us g = 0)"
proof -
  obtain gs where gs: "list_service_groups demo_snmp = Inr gs" using demo_ds demo_us by (simp add: list_service_groups_def)
  from service_groups_joined [OF gs demo_ds demo_us] have k: "group_key ` set gs = {(10, ''N1'', 5)}"
    "\<forall>g \<in> set gs. sg_ds g = last_value [((10, ''N1'', 5), 7)] (group_key g) \<and> sg_us g = last_value [] (group_key g)"
    by simp_all
  moreover have "group_key g = (10, ''N1'', 5)" if "g \<in> set gs" for g using that k(1) by blast
  ultimately show ?thesis using gs by (auto simp: last_value_def)
qed

lemma channel_list_roundtrip_witness: "parse_channel_list ''0x01ff'' = [1, 255]"
  using channel_list_roundtrip [of "[1, 255]"] by (simp add: hex_digits_def hex_digit_def demo_chars)

lemma printable_channels_misread_witness:
  "parse_channel_list ''#$%&'' \<noteq> [35, 36, 37, 38]"
  using printable_channels_misread [of "[35, 36, 37, 38]" "map char_of"] by (simp add: demo_chars)

lemma node_lookup_returns_channel_group_witness:
  "cm_sg_of_node demo_snmp ''N1'' = (True, 7) \<and> reg_sg_of_node demo_snmp ''N1'' = Inr (True, 5)"
proof -
  have w: "sn_walk demo_snmp ''docsIf3MdNodeStatusMdDsSgId'' = Inr [demo_row [1, 2, 10, 2, 78, 49, 5]]"
    "sn_walk demo_snmp ''docsIf3MdNodeStatusMdUsSgId'' = Inr []"
    "sn_values demo_snmp [demo_row [1, 2, 10, 2, 78, 49, 5]] = [PyInt 7]"
    by (simp_all add: demo_snmp_simps)
  have "py_strip ''N1'' = ''N1''" by (simp add: py_strip_def py_lstrip_def py_space_def)
  from node_lookup_returns_channel_group [OF w(1,3) demo_key w(2) this] show ?thesis by simp
qed

lemma mac_lookup_in_group_witness: "cm_sg_of_mac demo_snmp ''aa'' = (True, 7) \<and> (\<exists>e \<in> set (all_register_cm demo_snmp 7). re_id e = 99)"
proof -
  have "mac_index demo_snmp ''aa'' = Some 99" by (simp add: mac_index_def walk_rows_def demo_snmp_simps)
  moreover from this have "cm_sg_of_mac demo_snmp ''aa'' = (True, 7)"
    by (simp add: cm_sg_of_mac_def walk_rows_def demo_snmp_simps)
  ultimately show ?thesis using mac_lookup_in_group [of demo_snmp "''aa''" 7 99] by simp
qed


end
