(* ===== verification/ChannelTables.thy ===== *)
theory ChannelTables
  imports CmtsSnmp
begin

text \<open>
  The channel tables of the CMTS: one module of \<open>docsis/data_type\<close> per table, each reading the
  rows whose index a walk of the identifier column gives.  A field is \<open>None\<close> when its get raises,
  is empty or does not parse.
\<close>

text \<open>\<open>fetch\<close> with the casts \<open>int\<close>, \<open>truth_value\<close> and tenths to a float.\<close>

definition cast_int :: "snmp \<Rightarrow> string \<Rightarrow> int \<Rightarrow> int option" where
  "cast_int sn field ix = (case field_text sn field ix of None \<Rightarrow> None | Some s \<Rightarrow> py_int s)"

definition cast_truth :: "snmp \<Rightarrow> string \<Rightarrow> int \<Rightarrow> bool option" where
  "cast_truth sn field ix = (case field_text sn field ix of None \<Rightarrow> None | Some s \<Rightarrow> sn_truth sn s)"

definition cast_tenths :: "snmp \<Rightarrow> string \<Rightarrow> int \<Rightarrow> real option" where
  "cast_tenths sn field ix =
     (case field_text sn field ix of None \<Rightarrow> None | Some s \<Rightarrow> map_option (\<lambda>x. x / 10) (sn_float sn s))"

text \<open>The indices of a table; a channel is identified by its identifier field, zero when that is missing.\<close>

definition table_indices :: "snmp \<Rightarrow> string \<Rightarrow> int list" where
  "table_indices sn oid = (let rs = walk_rows sn oid in if rs = [] then [] else sn_indices sn rs)"

definition id_or_zero :: "int option \<Rightarrow> int" where
  "id_or_zero x = (case x of None \<Rightarrow> 0 | Some n \<Rightarrow> n)"

section \<open>The downstream channel table\<close>

record ds_channel_entry =
  docsIfDownChannelId :: "int option"
  docsIfDownChannelFrequency :: "int option"
  docsIfDownChannelWidth :: "int option"
  docsIfDownChannelModulation :: "int option"
  docsIfDownChannelInterleave :: "int option"
  docsIfDownChannelPower :: "real option"
  docsIfDownChannelAnnex :: "int option"
  docsIfDownChannelStorageType :: "int option"

record ds_channel_record =
  ds_channel_index :: int
  ds_channel_id :: int
  ds_channel_fields :: ds_channel_entry

definition ds_channel_from_snmp :: "snmp \<Rightarrow> int \<Rightarrow> ds_channel_record" where
  "ds_channel_from_snmp sn ix =
     (let e = \<lparr>docsIfDownChannelId = cast_int sn ''docsIfDownChannelId'' ix,
        docsIfDownChannelFrequency = cast_int sn ''docsIfDownChannelFrequency'' ix,
        docsIfDownChannelWidth = cast_int sn ''docsIfDownChannelWidth'' ix,
        docsIfDownChannelModulation = cast_int sn ''docsIfDownChannelModulation'' ix,
        docsIfDownChannelInterleave = cast_int sn ''docsIfDownChannelInterleave'' ix,
        docsIfDownChannelPower = cast_tenths sn ''docsIfDownChannelPower'' ix,
        docsIfDownChannelAnnex = cast_int sn ''docsIfDownChannelAnnex'' ix,
        docsIfDownChannelStorageType = cast_int sn ''docsIfDownChannelStorageType'' ix\<rparr>
      in \<lparr>ds_channel_index = ix, ds_channel_id = id_or_zero (docsIfDownChannelId e), ds_channel_fields = e\<rparr>)"

definition ds_channel_all :: "snmp \<Rightarrow> ds_channel_record list" where
  "ds_channel_all sn = map (ds_channel_from_snmp sn) (table_indices sn ''docsIfDownChannelId'')"

section \<open>The upstream channel table\<close>

record us_channel_entry =
  docsIfUpChannelId :: "int option"
  docsIfUpChannelFrequency :: "int option"
  docsIfUpChannelWidth :: "int option"
  docsIfUpChannelModulationProfile :: "int option"
  docsIfUpChannelSlotSize :: "int option"
  docsIfUpChannelTxTimingOffset :: "int option"
  docsIfUpChannelRangingBackoffStart :: "int option"
  docsIfUpChannelRangingBackoffEnd :: "int option"
  docsIfUpChannelTxBackoffStart :: "int option"
  docsIfUpChannelTxBackoffEnd :: "int option"
  docsIfUpChannelScdmaActiveCodes :: "int option"
  docsIfUpChannelScdmaCodesPerSlot :: "int option"
  docsIfUpChannelScdmaFrameSize :: "int option"
  docsIfUpChannelScdmaHoppingSeed :: "int option"
  docsIfUpChannelType :: "int option"
  docsIfUpChannelCloneFrom :: "int option"
  docsIfUpChannelUpdate :: "bool option"
  docsIfUpChannelStatus :: "int option"
  docsIfUpChannelPreEqEnable :: "bool option"

record us_channel_record =
  us_channel_index :: int
  us_channel_id :: int
  us_channel_fields :: us_channel_entry

definition us_channel_from_snmp :: "snmp \<Rightarrow> int \<Rightarrow> us_channel_record" where
  "us_channel_from_snmp sn ix =
     (let e = \<lparr>docsIfUpChannelId = cast_int sn ''docsIfUpChannelId'' ix,
        docsIfUpChannelFrequency = cast_int sn ''docsIfUpChannelFrequency'' ix,
        docsIfUpChannelWidth = cast_int sn ''docsIfUpChannelWidth'' ix,
        docsIfUpChannelModulationProfile = cast_int sn ''docsIfUpChannelModulationProfile'' ix,
        docsIfUpChannelSlotSize = cast_int sn ''docsIfUpChannelSlotSize'' ix,
        docsIfUpChannelTxTimingOffset = cast_int sn ''docsIfUpChannelTxTimingOffset'' ix,
        docsIfUpChannelRangingBackoffStart = cast_int sn ''docsIfUpChannelRangingBackoffStart'' ix,
        docsIfUpChannelRangingBackoffEnd = cast_int sn ''docsIfUpChannelRangingBackoffEnd'' ix,
        docsIfUpChannelTxBackoffStart = cast_int sn ''docsIfUpChannelTxBackoffStart'' ix,
        docsIfUpChannelTxBackoffEnd = cast_int sn ''docsIfUpChannelTxBackoffEnd'' ix,
        docsIfUpChannelScdmaActiveCodes = None,
        docsIfUpChannelScdmaCodesPerSlot = None,
        docsIfUpChannelScdmaFrameSize = None,
        docsIfUpChannelScdmaHoppingSeed = None,
        docsIfUpChannelType = cast_int sn ''docsIfUpChannelType'' ix,
        docsIfUpChannelCloneFrom = cast_int sn ''docsIfUpChannelCloneFrom'' ix,
        docsIfUpChannelUpdate = cast_truth sn ''docsIfUpChannelUpdate'' ix,
        docsIfUpChannelStatus = cast_int sn ''docsIfUpChannelStatus'' ix,
        docsIfUpChannelPreEqEnable = cast_truth sn ''docsIfUpChannelPreEqEnable'' ix\<rparr>
      in \<lparr>us_channel_index = ix, us_channel_id = id_or_zero (docsIfUpChannelId e), us_channel_fields = e\<rparr>)"

definition us_channel_all :: "snmp \<Rightarrow> us_channel_record list" where
  "us_channel_all sn = map (us_channel_from_snmp sn) (table_indices sn ''docsIfUpChannelId'')"

section \<open>The downstream OFDM channel table\<close>

record ds_ofdm_entry =
  docsIf31CmtsDsOfdmChanChannelId :: "int option"
  docsIf31CmtsDsOfdmChanLowerBdryFreq :: "int option"
  docsIf31CmtsDsOfdmChanUpperBdryFreq :: "int option"
  docsIf31CmtsDsOfdmChanLowerBdryEncompSpectrum :: "int option"
  docsIf31CmtsDsOfdmChanUpperBdryEncompSpectrum :: "int option"
  docsIf31CmtsDsOfdmChanPlcFreq :: "int option"
  docsIf31CmtsDsOfdmChanSubcarrierZeroFreq :: "int option"
  docsIf31CmtsDsOfdmChanFirstActiveSubcarrierNum :: "int option"
  docsIf31CmtsDsOfdmChanLastActiveSubcarrierNum :: "int option"
  docsIf31CmtsDsOfdmChanNumActiveSubcarriers :: "int option"
  docsIf31CmtsDsOfdmChanSubcarrierSpacing :: "int option"
  docsIf31CmtsDsOfdmChanLowerGuardbandWidth :: "int option"
  docsIf31CmtsDsOfdmChanUpperGuardbandWidth :: "int option"
  docsIf31CmtsDsOfdmChanCyclicPrefix :: "int option"
  docsIf31CmtsDsOfdmChanRollOffPeriod :: "int option"
  docsIf31CmtsDsOfdmChanTimeInterleaverDepth :: "int option"
  docsIf31CmtsDsOfdmChanNumPilots :: "int option"
  docsIf31CmtsDsOfdmChanPilotScaleFactor :: "int option"
  docsIf31CmtsDsOfdmChanNcpModulation :: "int option"
  docsIf31CmtsDsOfdmChanUtilization :: "int option"
  docsIf31CmtsDsOfdmChanPowerAdjust :: "int option"

record ds_ofdm_record =
  ds_ofdm_index :: int
  ds_ofdm_id :: int
  ds_ofdm_fields :: ds_ofdm_entry

definition ds_ofdm_from_snmp :: "snmp \<Rightarrow> int \<Rightarrow> ds_ofdm_record" where
  "ds_ofdm_from_snmp sn ix =
     (let e = \<lparr>docsIf31CmtsDsOfdmChanChannelId = cast_int sn ''docsIf31CmtsDsOfdmChanChannelId'' ix,
        docsIf31CmtsDsOfdmChanLowerBdryFreq = cast_int sn ''docsIf31CmtsDsOfdmChanLowerBdryFreq'' ix,
        docsIf31CmtsDsOfdmChanUpperBdryFreq = cast_int sn ''docsIf31CmtsDsOfdmChanUpperBdryFreq'' ix,
        docsIf31CmtsDsOfdmChanLowerBdryEncompSpectrum = cast_int sn ''docsIf31CmtsDsOfdmChanLowerBdryEncompSpectrum'' ix,
        docsIf31CmtsDsOfdmChanUpperBdryEncompSpectrum = cast_int sn ''docsIf31CmtsDsOfdmChanUpperBdryEncompSpectrum'' ix,
        docsIf31CmtsDsOfdmChanPlcFreq = cast_int sn ''docsIf31CmtsDsOfdmChanPlcFreq'' ix,
        docsIf31CmtsDsOfdmChanSubcarrierZeroFreq = cast_int sn ''docsIf31CmtsDsOfdmChanSubcarrierZeroFreq'' ix,
        docsIf31CmtsDsOfdmChanFirstActiveSubcarrierNum = cast_int sn ''docsIf31CmtsDsOfdmChanFirstActiveSubcarrierNum'' ix,
        docsIf31CmtsDsOfdmChanLastActiveSubcarrierNum = cast_int sn ''docsIf31CmtsDsOfdmChanLastActiveSubcarrierNum'' ix,
        docsIf31CmtsDsOfdmChanNumActiveSubcarriers = cast_int sn ''docsIf31CmtsDsOfdmChanNumActiveSubcarriers'' ix,
        docsIf31CmtsDsOfdmChanSubcarrierSpacing = cast_int sn ''docsIf31CmtsDsOfdmChanSubcarrierSpacing'' ix,
        docsIf31CmtsDsOfdmChanLowerGuardbandWidth = cast_int sn ''docsIf31CmtsDsOfdmChanLowerGuardbandWidth'' ix,
        docsIf31CmtsDsOfdmChanUpperGuardbandWidth = cast_int sn ''docsIf31CmtsDsOfdmChanUpperGuardbandWidth'' ix,
        docsIf31CmtsDsOfdmChanCyclicPrefix = cast_int sn ''docsIf31CmtsDsOfdmChanCyclicPrefix'' ix,
        docsIf31CmtsDsOfdmChanRollOffPeriod = cast_int sn ''docsIf31CmtsDsOfdmChanRollOffPeriod'' ix,
        docsIf31CmtsDsOfdmChanTimeInterleaverDepth = cast_int sn ''docsIf31CmtsDsOfdmChanTimeInterleaverDepth'' ix,
        docsIf31CmtsDsOfdmChanNumPilots = cast_int sn ''docsIf31CmtsDsOfdmChanNumPilots'' ix,
        docsIf31CmtsDsOfdmChanPilotScaleFactor = cast_int sn ''docsIf31CmtsDsOfdmChanPilotScaleFactor'' ix,
        docsIf31CmtsDsOfdmChanNcpModulation = cast_int sn ''docsIf31CmtsDsOfdmChanNcpModulation'' ix,
        docsIf31CmtsDsOfdmChanUtilization = cast_int sn ''docsIf31CmtsDsOfdmChanUtilization'' ix,
        docsIf31CmtsDsOfdmChanPowerAdjust = cast_int sn ''docsIf31CmtsDsOfdmChanPowerAdjust'' ix\<rparr>
      in \<lparr>ds_ofdm_index = ix, ds_ofdm_id = id_or_zero (docsIf31CmtsDsOfdmChanChannelId e), ds_ofdm_fields = e\<rparr>)"

definition ds_ofdm_all :: "snmp \<Rightarrow> ds_ofdm_record list" where
  "ds_ofdm_all sn = map (ds_ofdm_from_snmp sn) (table_indices sn ''docsIf31CmtsDsOfdmChanChannelId'')"

section \<open>The upstream OFDMA channel table\<close>

record us_ofdma_entry =
  docsIf31CmtsUsOfdmaChanTemplateIndex :: "int option"
  docsIf31CmtsUsOfdmaChanConfigChangeCt :: "int option"
  docsIf31CmtsUsOfdmaChanTargetRxPower :: "int option"
  docsIf31CmtsUsOfdmaChanLowerBdryFreq :: "int option"
  docsIf31CmtsUsOfdmaChanUpperBdryFreq :: "int option"
  docsIf31CmtsUsOfdmaChanSubcarrierSpacing :: "int option"
  docsIf31CmtsUsOfdmaChanCyclicPrefix :: "int option"
  docsIf31CmtsUsOfdmaChanNumSymbolsPerFrame :: "int option"
  docsIf31CmtsUsOfdmaChanRollOffPeriod :: "int option"
  docsIf31CmtsUsOfdmaChanPreEqEnable :: "bool option"
  docsIf31CmtsUsOfdmaChanFineRngGuardband :: "int option"
  docsIf31CmtsUsOfdmaChanFineRngNumSubcarriers :: "int option"
  docsIf31CmtsUsOfdmaChanFineRngPreambleLen :: "int option"
  docsIf31CmtsUsOfdmaChanInitRngGuardband :: "int option"
  docsIf31CmtsUsOfdmaChanInitRngNumSubcarriers :: "int option"
  docsIf31CmtsUsOfdmaChanInitRngPreambleLen :: "int option"
  docsIf31CmtsUsOfdmaChanProvAttribMask :: "int option"
  docsIf31CmtsUsOfdmaChanTxBackoffStart :: "int option"
  docsIf31CmtsUsOfdmaChanTxBackoffEnd :: "int option"
  docsIf31CmtsUsOfdmaChanRangingBackoffStart :: "int option"
  docsIf31CmtsUsOfdmaChanRangingBackoffEnd :: "int option"
  docsIf31CmtsUsOfdmaChanUtilization :: "int option"
  docsIf31CmtsUsOfdmaChanId :: "int option"
  docsIf31CmtsUsOfdmaChanSubcarrierZeroFreq :: "int option"
  docsIf31CmtsUsOfdmaChanTargetMapInterval :: "int option"
  docsIf31CmtsUsOfdmaChanUpChannelTotalCms :: "int option"

record us_ofdma_record =
  us_ofdma_index :: int
  us_ofdma_id :: int
  us_ofdma_fields :: us_ofdma_entry

definition us_ofdma_from_snmp :: "snmp \<Rightarrow> int \<Rightarrow> us_ofdma_record" where
  "us_ofdma_from_snmp sn ix =
     (let e = \<lparr>docsIf31CmtsUsOfdmaChanTemplateIndex = cast_int sn ''docsIf31CmtsUsOfdmaChanTemplateIndex'' ix,
        docsIf31CmtsUsOfdmaChanConfigChangeCt = cast_int sn ''docsIf31CmtsUsOfdmaChanConfigChangeCt'' ix,
        docsIf31CmtsUsOfdmaChanTargetRxPower = cast_int sn ''docsIf31CmtsUsOfdmaChanTargetRxPower'' ix,
        docsIf31CmtsUsOfdmaChanLowerBdryFreq = cast_int sn ''docsIf31CmtsUsOfdmaChanLowerBdryFreq'' ix,
        docsIf31CmtsUsOfdmaChanUpperBdryFreq = cast_int sn ''docsIf31CmtsUsOfdmaChanUpperBdryFreq'' ix,
        docsIf31CmtsUsOfdmaChanSubcarrierSpacing = cast_int sn ''docsIf31CmtsUsOfdmaChanSubcarrierSpacing'' ix,
        docsIf31CmtsUsOfdmaChanCyclicPrefix = cast_int sn ''docsIf31CmtsUsOfdmaChanCyclicPrefix'' ix,
        docsIf31CmtsUsOfdmaChanNumSymbolsPerFrame = cast_int sn ''docsIf31CmtsUsOfdmaChanNumSymbolsPerFrame'' ix,
        docsIf31CmtsUsOfdmaChanRollOffPeriod = cast_int sn ''docsIf31CmtsUsOfdmaChanRollOffPeriod'' ix,
        docsIf31CmtsUsOfdmaChanPreEqEnable = cast_truth sn ''docsIf31CmtsUsOfdmaChanPreEqEnable'' ix,
        docsIf31CmtsUsOfdmaChanFineRngGuardband = cast_int sn ''docsIf31CmtsUsOfdmaChanFineRngGuardband'' ix,
        docsIf31CmtsUsOfdmaChanFineRngNumSubcarriers = cast_int sn ''docsIf31CmtsUsOfdmaChanFineRngNumSubcarriers'' ix,
        docsIf31CmtsUsOfdmaChanFineRngPreambleLen = cast_int sn ''docsIf31CmtsUsOfdmaChanFineRngPreambleLen'' ix,
        docsIf31CmtsUsOfdmaChanInitRngGuardband = cast_int sn ''docsIf31CmtsUsOfdmaChanInitRngGuardband'' ix,
        docsIf31CmtsUsOfdmaChanInitRngNumSubcarriers = cast_int sn ''docsIf31CmtsUsOfdmaChanInitRngNumSubcarriers'' ix,
        docsIf31CmtsUsOfdmaChanInitRngPreambleLen = cast_int sn ''docsIf31CmtsUsOfdmaChanInitRngPreambleLen'' ix,
        docsIf31CmtsUsOfdmaChanProvAttribMask = cast_int sn ''docsIf31CmtsUsOfdmaChanProvAttribMask'' ix,
        docsIf31CmtsUsOfdmaChanTxBackoffStart = cast_int sn ''docsIf31CmtsUsOfdmaChanTxBackoffStart'' ix,
        docsIf31CmtsUsOfdmaChanTxBackoffEnd = cast_int sn ''docsIf31CmtsUsOfdmaChanTxBackoffEnd'' ix,
        docsIf31CmtsUsOfdmaChanRangingBackoffStart = cast_int sn ''docsIf31CmtsUsOfdmaChanRangingBackoffStart'' ix,
        docsIf31CmtsUsOfdmaChanRangingBackoffEnd = cast_int sn ''docsIf31CmtsUsOfdmaChanRangingBackoffEnd'' ix,
        docsIf31CmtsUsOfdmaChanUtilization = cast_int sn ''docsIf31CmtsUsOfdmaChanUtilization'' ix,
        docsIf31CmtsUsOfdmaChanId = cast_int sn ''docsIf31CmtsUsOfdmaChanId'' ix,
        docsIf31CmtsUsOfdmaChanSubcarrierZeroFreq = cast_int sn ''docsIf31CmtsUsOfdmaChanSubcarrierZeroFreq'' ix,
        docsIf31CmtsUsOfdmaChanTargetMapInterval = cast_int sn ''docsIf31CmtsUsOfdmaChanTargetMapInterval'' ix,
        docsIf31CmtsUsOfdmaChanUpChannelTotalCms = cast_int sn ''docsIf31CmtsUsOfdmaChanUpChannelTotalCms'' ix\<rparr>
      in \<lparr>us_ofdma_index = ix, us_ofdma_id = id_or_zero (docsIf31CmtsUsOfdmaChanId e), us_ofdma_fields = e\<rparr>)"

definition us_ofdma_all :: "snmp \<Rightarrow> us_ofdma_record list" where
  "us_ofdma_all sn = map (us_ofdma_from_snmp sn) (table_indices sn ''docsIf31CmtsUsOfdmaChanId'')"

end
