(* ===== verification/Inventory.thy ===== *)
theory Inventory
  imports Settings ChannelTables
begin

text \<open>
  Discovery over SNMP: \<open>lib/cmts_hostname_resolver.py\<close>, the inventory service of
  \<open>cmts/inventory_discovery.py\<close> with its models of \<open>cmts/discovery_models.py\<close>, and the discovery
  providers of \<open>sgw/discovery.py\<close>.  Writing the snapshot file is not modelled.
\<close>

section \<open>Reaching the CMTS\<close>

text \<open>The text of \<open>Inet(v)\<close> (\<open>None\<close> where it raises), \<open>HostEndpoint(v).resolve()\<close> (\<open>None\<close> where it raises), and
  the SNMP client of an address and a community.\<close>

record cmts_env =
  ct_inet :: "string \<Rightarrow> string option"
  ct_resolve :: "string \<Rightarrow> string list option"
  ct_client :: "string \<Rightarrow> string \<Rightarrow> snmp"

definition resolve_cmts_inet :: "cmts_env \<Rightarrow> string \<Rightarrow> string result" where
  "resolve_cmts_inet ev hostname =
     (let h = py_strip hostname
      in if h = '''' then Inl (ValueError ''CMTS hostname is required.'')
         else (case ct_inet ev h of
                 Some a \<Rightarrow> Inr a
               | None \<Rightarrow>
                   (case ct_resolve ev h of
                      None \<Rightarrow> Inl (ValueError (''Failed to resolve hostname: '' @ h))
                    | Some as \<Rightarrow>
                        (case List.map_filter (ct_inet ev) as of
                           a # _ \<Rightarrow> Inr a
                         | [] \<Rightarrow> Inl (ValueError (''Failed to resolve hostname: '' @ h))))))"

text \<open>\<open>str\<close> of the exceptions that occur here.\<close>

fun exn_text :: "py_exn \<Rightarrow> string" where
  "exn_text (ValueError s) = s"
| "exn_text (TypeError s) = s"
| "exn_text (RuntimeError s) = s"
| "exn_text (HTTPException n s) = s"
| "exn_text (OtherError s) = s"
| "exn_text x = ''''"

record discovery_service =
  dv_host :: string
  dv_read :: string
  dv_write :: string

definition build_operation :: "cmts_env \<Rightarrow> discovery_service \<Rightarrow> snmp result" where
  "build_operation ev sv =
     (let h = py_strip (dv_host sv)
      in if h = '''' then Inl (ValueError ''cmts_hostname must be non-empty.'')
         else (case resolve_cmts_inet ev h of
                 Inl _ \<Rightarrow> Inl (ValueError (''Failed to resolve CMTS hostname: '' @ h))
               | Inr a \<Rightarrow> Inr (ct_client ev a (if py_strip (dv_write sv) = '''' then dv_read sv else py_strip (dv_write sv)))))"

section \<open>The inventory\<close>

record registered_modem =
  rm_mac :: string
  rm_ipv4 :: string
  rm_ipv6 :: string
  rm_ipv6_ll :: string
  rm_ds_set :: int
  rm_us_set :: int
  rm_status :: int

record group_inventory =
  gi_sg :: int
  gi_count :: int
  gi_cms :: "registered_modem list"

record inventory_result =
  ir_host :: string
  ir_groups :: "int list"
  ir_per_sg :: "group_inventory list"

definition normalize_inet :: "snmp \<Rightarrow> string \<Rightarrow> string" where
  "normalize_inet sn raw =
     (let v = py_strip raw
      in if v = '''' then '''' else if \<not> py_startswith v ''0x'' then v
         else (case sn_hex_inet sn (drop 2 v) of None \<Rightarrow> v | Some a \<Rightarrow> a))"

definition text_or_empty :: "string option \<Rightarrow> string" where
  "text_or_empty x = (case x of None \<Rightarrow> '''' | Some s \<Rightarrow> s)"

definition map_register_cm :: "snmp \<Rightarrow> reg_entry \<Rightarrow> registered_modem option" where
  "map_register_cm sn e =
     (case re_mac e of
        None \<Rightarrow> None
      | Some mac \<Rightarrow>
          if py_strip mac = '''' then None
          else (case sn_mac sn (PyStr mac) of
                  None \<Rightarrow> None
                | Some m \<Rightarrow> Some
                    \<lparr>rm_mac = m, rm_ipv4 = normalize_inet sn (text_or_empty (re_ipv4 e)),
                     rm_ipv6 = normalize_inet sn (text_or_empty (re_ipv6 e)),
                     rm_ipv6_ll = normalize_inet sn (text_or_empty (re_ipv6_ll e)),
                     rm_ds_set = id_or_zero (re_rcs e), rm_us_set = id_or_zero (re_tcs e),
                     rm_status = (case re_value e of None \<Rightarrow> 1 | Some n \<Rightarrow> n)\<rparr>))"

definition fetch_registered_cms :: "snmp \<Rightarrow> int \<Rightarrow> registered_modem list" where
  "fetch_registered_cms sn sg = List.map_filter (map_register_cm sn) (all_register_cm sn sg)"

definition discover_by_sg :: "snmp \<Rightarrow> int list \<Rightarrow> group_inventory list" where
  "discover_by_sg sn sgs =
     map (\<lambda>sg. let cms = sort_key (\<lambda>m. py_lower (rm_mac m)) (fetch_registered_cms sn sg)
               in \<lparr>gi_sg = sg, gi_count = int (length cms), gi_cms = cms\<rparr>) (sort sgs)"

definition discover_registered_cms :: "cmts_env \<Rightarrow> discovery_service \<Rightarrow> int list \<Rightarrow> group_inventory list result" where
  "discover_registered_cms ev sv sgs = map_sum id (\<lambda>sn. discover_by_sg sn sgs) (build_operation ev sv)"

definition discover_service_groups :: "cmts_env \<Rightarrow> discovery_service \<Rightarrow> service_group list result" where
  "discover_service_groups ev sv =
     (case build_operation ev sv of
        Inl x \<Rightarrow> Inl x
      | Inr sn \<Rightarrow>
          (case list_service_groups sn of
             Inl x \<Rightarrow> Inl (RuntimeError (''Failed to discover service groups: '' @ exn_text x))
           | Inr gs \<Rightarrow> Inr gs))"

definition discover_inventory :: "cmts_env \<Rightarrow> discovery_service \<Rightarrow> inventory_result result" where
  "discover_inventory ev sv =
     (case discover_service_groups ev sv of
        Inl x \<Rightarrow> Inl x
      | Inr gs \<Rightarrow>
          (let ids = sort (map sg_cm gs)
           in map_sum id (\<lambda>per. \<lparr>ir_host = dv_host sv, ir_groups = ids, ir_per_sg = per\<rparr>)
                (discover_registered_cms ev sv ids)))"

section \<open>The providers\<close>

definition sorted_unique :: "int list \<Rightarrow> int list" where
  "sorted_unique xs = sort (remdups xs)"

text \<open>Configured groups: those that are enabled.\<close>

definition static_discover :: "sg_descriptor list \<Rightarrow> int list" where
  "static_discover gs = sorted_unique (map sd_id (filter sd_enabled gs))"

definition snmp_discover :: "cmts_env \<Rightarrow> adapter_config \<Rightarrow> int list result" where
  "snmp_discover ev ad =
     (if py_strip (ad_hostname ad) = '''' then Inl (ValueError ''adapter.hostname must be set for snmp discovery.'')
      else if py_strip (ad_community ad) = '''' then Inl (ValueError ''adapter.community must be set for snmp discovery.'')
      else (case discover_service_groups ev
              \<lparr>dv_host = ad_hostname ad, dv_read = ad_community ad, dv_write = ad_write_community ad\<rparr> of
              Inl x \<Rightarrow> Inl (RuntimeError (''SNMP discovery failed: '' @ exn_text x))
            | Inr gs \<Rightarrow> Inr (sorted_unique (map sg_cm gs))))"

section \<open>Properties\<close>

text \<open>The inventory lists one group for each service group row, ascending, with a count that is the number
  of its modems; a group number that several rows share (two MAC domains, two nodes) is listed and queried
  once for each, while the discovery of the worker lists it once.
\<close>

theorem inventory_repeats_shared_groups:
  assumes "discover_inventory ev \<lparr>dv_host = ad_hostname ad, dv_read = ad_community ad, dv_write = ad_write_community ad\<rparr> = Inr r"
    and "snmp_discover ev ad = Inr ids"
  shows "map gi_sg (ir_per_sg r) = ir_groups r \<and> sorted (ir_groups r) \<and> ids = remdups (ir_groups r) \<and>
    (\<forall>g\<in>set (ir_per_sg r). gi_count g = int (length (gi_cms g)))"
proof -
  obtain gs sn where r: "discover_service_groups ev \<lparr>dv_host = ad_hostname ad, dv_read = ad_community ad, dv_write = ad_write_community ad\<rparr> = Inr gs"
    "r = \<lparr>ir_host = ad_hostname ad, ir_groups = sort (map sg_cm gs), ir_per_sg = discover_by_sg sn (sort (map sg_cm gs))\<rparr>"
    using assms(1) by (auto simp: discover_inventory_def discover_registered_cms_def Let_def split: sum.splits)
       (cases "build_operation ev \<lparr>dv_host = ad_hostname ad, dv_read = ad_community ad, dv_write = ad_write_community ad\<rparr>"; auto)
  have ids: "ids = sorted_unique (map sg_cm gs)"
    using assms(2) r(1) by (auto simp: snmp_discover_def split: if_splits)
  have "sorted_unique (map sg_cm gs) = remdups (sort (map sg_cm gs))"
    unfolding sorted_unique_def by (rule sorted_distinct_set_unique) (simp_all add: sorted_remdups)
  then show ?thesis
    by (auto simp: r(2) ids discover_by_sg_def Let_def comp_def sorted_sort_id)
qed

definition demo_cmts :: cmts_env where
  "demo_cmts = \<lparr>ct_inet = Some, ct_resolve = (\<lambda>h. None), ct_client = (\<lambda>a c. demo_snmp)\<rparr>"

definition lab_adapter :: adapter_config where
  "lab_adapter = \<lparr>ad_label = '''', ad_hostname = ''c'', ad_community = ''p'', ad_write_community = '''', ad_port = 161\<rparr>"

lemma lab_groups:
  "discover_service_groups demo_cmts \<lparr>dv_host = ''c'', dv_read = ''p'', dv_write = ''''\<rparr> = Inr [group_of (10, ''N1'', 5) 7 0]"
  "build_operation demo_cmts \<lparr>dv_host = ''c'', dv_read = ''p'', dv_write = ''''\<rparr> = Inr demo_snmp"
  by (simp_all add: discover_service_groups_def build_operation_def resolve_cmts_inet_def demo_cmts_def py_strip_def py_lstrip_def
      py_space_def Let_def list_service_groups_def demo_ds demo_us merge_groups_def add_ds_def)

lemma inventory_repeats_shared_groups_witness:
  "\<exists>r. discover_inventory demo_cmts \<lparr>dv_host = ''c'', dv_read = ''p'', dv_write = ''''\<rparr> = Inr r \<and> ir_groups r = [5] \<and>
     map gi_sg (ir_per_sg r) = [5]"
proof -
  obtain r where r: "discover_inventory demo_cmts \<lparr>dv_host = ''c'', dv_read = ''p'', dv_write = ''''\<rparr> = Inr r" "ir_groups r = [5]"
    by (simp add: discover_inventory_def discover_registered_cms_def lab_groups group_of_def Let_def)
  have "snmp_discover demo_cmts lab_adapter = Inr [5]"
    by (simp add: snmp_discover_def lab_adapter_def lab_groups sorted_unique_def group_of_def py_strip_def py_lstrip_def py_space_def)
  from inventory_repeats_shared_groups [OF _ this, of r] r show ?thesis by (simp add: lab_adapter_def)
qed

end
