(* ===== verification/HeavyPoller.thy ===== *)
theory HeavyPoller
  imports Scope Inventory
begin

text \<open>
  The heavy poller, \<open>sgw/pollers/heavy.py\<close>: how the topology, the channel tables and the
  registered modems of a service group become the payload of its cache snapshot.  The system
  description of a modem is the text its SNMP get gives, empty when there is none; \<open>None\<close> when the
  modem cannot be asked.  The collectors \<open>cmts/service_group_topology_collector.py\<close> and
  \<open>cmts/channel_inventory_collector.py\<close> build the client the same way.
\<close>

section \<open>Frequencies\<close>

definition sc_qam_bounds :: "int option \<Rightarrow> int option \<Rightarrow> int option \<times> int option" where
  "sc_qam_bounds center width =
     (case (center, width) of
        (Some c, Some w) \<Rightarrow> (Some (c - w div 2), Some (c + w div 2))
      | _ \<Rightarrow> (None, None))"

definition ofdm_bounds :: "ds_ofdm_entry \<Rightarrow> int option \<times> int option" where
  "ofdm_bounds e =
     (case (docsIf31CmtsDsOfdmChanSubcarrierZeroFreq e, docsIf31CmtsDsOfdmChanFirstActiveSubcarrierNum e,
            docsIf31CmtsDsOfdmChanLastActiveSubcarrierNum e, docsIf31CmtsDsOfdmChanSubcarrierSpacing e,
            docsIf31CmtsDsOfdmChanLowerGuardbandWidth e, docsIf31CmtsDsOfdmChanUpperGuardbandWidth e) of
        (Some base, Some first_active, Some last_active, Some spacing, Some lower_guard, Some upper_guard) \<Rightarrow>
          if first_active \<le> 0 then (None, None)
          else (Some (base - (first_active - 1) * spacing - lower_guard), Some (last_active * spacing + base + upper_guard))
      | _ \<Rightarrow> (None, None))"

definition ofdm_width :: "int option \<Rightarrow> int option \<Rightarrow> int option" where
  "ofdm_width lower upper =
     (case (lower, upper) of (Some l, Some u) \<Rightarrow> if u < l then None else Some (u - l) | _ \<Rightarrow> None)"

definition ofdma_width :: "int option \<Rightarrow> int option \<Rightarrow> int option" where
  "ofdma_width lower upper =
     (case (lower, upper) of (Some l, Some u) \<Rightarrow> if u < l then None else Some (u - l) | _ \<Rightarrow> None)"

definition ofdma_start :: "us_ofdma_entry \<Rightarrow> int option \<Rightarrow> int option" where
  "ofdma_start e lower =
     (case (lower, docsIf31CmtsUsOfdmaChanSubcarrierSpacing e, docsIf31CmtsUsOfdmaChanSubcarrierZeroFreq e) of
        (Some base, Some spacing, Some zero) \<Rightarrow> Some (base + zero * spacing)
      | _ \<Rightarrow> None)"

section \<open>RF channels\<close>

definition normalize_channels :: "int list \<Rightarrow> int list" where
  "normalize_channels ids = sort (remdups (filter (\<lambda>c. 0 < c) ids))"

text \<open>A dictionary comprehension: the last entry of an identifier counts.\<close>

definition by_id :: "('e \<Rightarrow> int) \<Rightarrow> 'e list \<Rightarrow> (int \<rightharpoonup> 'e)" where
  "by_id f es = map_of (rev (map (\<lambda>e. (f e, e)) (filter (\<lambda>e. 0 < f e) es)))"

definition sc_qam_channel :: "int \<Rightarrow> int option \<Rightarrow> int option \<Rightarrow> rf_channel" where
  "sc_qam_channel c center width =
     \<lparr>rf_id = c, rf_kind = ScQam, rf_center = center, rf_start = None, rf_plc = None, rf_width = width,
      rf_lower = fst (sc_qam_bounds center width), rf_upper = snd (sc_qam_bounds center width)\<rparr>"

definition ofdm_channel :: "int \<Rightarrow> ds_ofdm_entry \<Rightarrow> rf_channel" where
  "ofdm_channel c e =
     (let (lower, upper) = (case ofdm_bounds e of
            (Some l, Some u) \<Rightarrow> (Some l, Some u)
          | _ \<Rightarrow> (docsIf31CmtsDsOfdmChanLowerBdryFreq e, docsIf31CmtsDsOfdmChanUpperBdryFreq e))
      in \<lparr>rf_id = c, rf_kind = Ofdm, rf_center = None, rf_start = None,
          rf_plc = docsIf31CmtsDsOfdmChanPlcFreq e, rf_width = ofdm_width lower upper,
          rf_lower = lower, rf_upper = upper\<rparr>)"

definition ofdma_channel :: "int \<Rightarrow> us_ofdma_entry \<Rightarrow> rf_channel" where
  "ofdma_channel c e =
     (let lower = docsIf31CmtsUsOfdmaChanLowerBdryFreq e; upper = docsIf31CmtsUsOfdmaChanUpperBdryFreq e
      in \<lparr>rf_id = c, rf_kind = Ofdma, rf_center = None, rf_start = ofdma_start e lower, rf_plc = None,
          rf_width = ofdma_width lower upper, rf_lower = lower, rf_upper = upper\<rparr>)"

definition build_ds_rf :: "int list \<Rightarrow> ds_channel_record list \<Rightarrow> ds_ofdm_record list \<Rightarrow> rf_channel list" where
  "build_ds_rf ids scs ofdms =
     map (\<lambda>c. case by_id ds_ofdm_id ofdms c of
                Some r \<Rightarrow> ofdm_channel c (ds_ofdm_fields r)
              | None \<Rightarrow>
                  (case by_id ds_channel_id scs c of
                     None \<Rightarrow> sc_qam_channel c None None
                   | Some r \<Rightarrow> sc_qam_channel c (docsIfDownChannelFrequency (ds_channel_fields r))
                                (docsIfDownChannelWidth (ds_channel_fields r))))
       (normalize_channels ids)"

definition build_us_rf :: "int list \<Rightarrow> us_channel_record list \<Rightarrow> us_ofdma_record list \<Rightarrow> rf_channel list" where
  "build_us_rf ids scs ofdmas =
     map (\<lambda>c. case by_id us_ofdma_id ofdmas c of
                Some r \<Rightarrow> ofdma_channel c (us_ofdma_fields r)
              | None \<Rightarrow>
                  (case by_id us_channel_id scs c of
                     None \<Rightarrow> sc_qam_channel c None None
                   | Some r \<Rightarrow> sc_qam_channel c (docsIfUpChannelFrequency (us_channel_fields r))
                                (docsIfUpChannelWidth (us_channel_fields r))))
       (normalize_channels ids)"

section \<open>The inventory of a group\<close>

record heavy_inventory =
  hi_ds_set :: int
  hi_us_set :: int
  hi_ds :: "int list"
  hi_us :: "int list"
  hi_ds_rf :: "rf_channel list"
  hi_us_rf :: "rf_channel list"
  hi_modems :: "cable_modem list"

definition extract_channels :: "topology_entry list \<Rightarrow> int \<Rightarrow> int list \<times> int list \<times> int \<times> int" where
  "extract_channels topology sg =
     (case find (\<lambda>t. sg_cm (te_group t) = sg) topology of
        None \<Rightarrow> ([], [], 0, 0)
      | Some t \<Rightarrow> (te_ds_channels t, te_us_channels t, te_ds_set t, te_us_set t))"

text \<open>\<open>_fetch_modem_sysdescr\<close>: \<open>ask\<close> is the SNMP query of the modem.\<close>

definition fetch_modem_sysdescr ::
  "(string \<Rightarrow> string \<Rightarrow> string \<Rightarrow> string option) \<Rightarrow> string \<Rightarrow> string \<Rightarrow> string \<Rightarrow> string" where
  "fetch_modem_sysdescr ask mac ip community =
     (if py_strip ip = '''' then '''' else if py_strip community = '''' then ''''
      else (case ask mac ip community of None \<Rightarrow> '''' | Some d \<Rightarrow> d))"

definition modem_community :: "string option \<Rightarrow> string" where
  "modem_community configured = (case configured of None \<Rightarrow> '''' | Some c \<Rightarrow> py_strip c)"

text \<open>What the provider reads besides the CMTS.\<close>

record heavy_env =
  he_cmts :: cmts_env
  he_hex :: "string \<Rightarrow> string option"
  he_community :: "string option"
  he_sysdescr :: "string \<Rightarrow> string \<Rightarrow> string \<Rightarrow> string option"

definition fetch_cable_modems :: "heavy_env \<Rightarrow> adapter_config \<Rightarrow> int \<Rightarrow> cable_modem list result" where
  "fetch_cable_modems he ad sg =
     (case discover_registered_cms (he_cmts he)
             \<lparr>dv_host = ad_hostname ad, dv_read = ad_community ad, dv_write = ad_write_community ad\<rparr> [sg] of
        Inl x \<Rightarrow> Inl (RuntimeError (''Failed to collect cable modem membership: '' @ exn_text x))
      | Inr [] \<Rightarrow> Inr []
      | Inr (g # _) \<Rightarrow> Inr (map (\<lambda>cm.
          let v4 = normalize_ip (he_hex he) (rm_ipv4 cm); v6 = normalize_ip (he_hex he) (rm_ipv6 cm)
          in \<lparr>cm_mac = rm_mac cm, cm_ipv4 = v4, cm_ipv6 = v6, cm_ds_set = rm_ds_set cm, cm_us_set = rm_us_set cm,
              cm_status = rm_status cm,
              cm_sysdescr = fetch_modem_sysdescr (he_sysdescr he) (rm_mac cm) v4 (modem_community (he_community he))\<rparr>)
          (gi_cms g)))"

text \<open>The client the two collectors use.\<close>

definition collector_client :: "cmts_env \<Rightarrow> adapter_config \<Rightarrow> snmp result" where
  "collector_client ev ad =
     (let h = py_strip (ad_hostname ad)
      in if h = '''' then Inl (ValueError ''CMTS hostname is required.'')
         else (case resolve_cmts_inet ev h of
                 Inl x \<Rightarrow> Inl x
               | Inr a \<Rightarrow> Inr (ct_client ev a
                   (if py_strip (ad_write_community ad) = '''' then py_strip (ad_community ad)
                    else py_strip (ad_write_community ad)))))"

definition fetch_topology :: "cmts_env \<Rightarrow> adapter_config \<Rightarrow> topology_entry list result" where
  "fetch_topology ev ad =
     (case (case collector_client ev ad of Inl x \<Rightarrow> Inl x | Inr sn \<Rightarrow> service_group_topology sn) of
        Inl x \<Rightarrow> Inl (RuntimeError (''Failed to collect service group topology: '' @ exn_text x))
      | Inr ts \<Rightarrow> Inr ts)"

definition fetch_channel_inventory ::
  "cmts_env \<Rightarrow> adapter_config \<Rightarrow>
   (ds_channel_record list \<times> us_channel_record list \<times> ds_ofdm_record list \<times> us_ofdma_record list) result" where
  "fetch_channel_inventory ev ad =
     (case collector_client ev ad of
        Inl x \<Rightarrow> Inl (RuntimeError (''Failed to collect channel inventory: '' @ exn_text x))
      | Inr sn \<Rightarrow> Inr (ds_channel_all sn, us_channel_all sn, ds_ofdm_all sn, us_ofdma_all sn))"

definition fetch_inventory_inner :: "heavy_env \<Rightarrow> adapter_config \<Rightarrow> int \<Rightarrow> heavy_inventory result" where
  "fetch_inventory_inner he ad sg =
     (case fetch_topology (he_cmts he) ad of
        Inl x \<Rightarrow> Inl x
      | Inr topology \<Rightarrow>
          (case fetch_channel_inventory (he_cmts he) ad of
             Inl x \<Rightarrow> Inl x
           | Inr (ds_sc, us_sc, ds_ofdm, us_ofdma) \<Rightarrow>
               (case fetch_cable_modems he ad sg of
                  Inl x \<Rightarrow> Inl x
                | Inr modems \<Rightarrow>
                    (let (ds, us, ds_set, us_set) = extract_channels topology sg
                     in Inr \<lparr>hi_ds_set = ds_set, hi_us_set = us_set, hi_ds = ds, hi_us = us,
                             hi_ds_rf = build_ds_rf ds ds_sc ds_ofdm, hi_us_rf = build_us_rf us us_sc us_ofdma,
                             hi_modems = modems\<rparr>))))"

definition fetch_inventory :: "heavy_env \<Rightarrow> adapter_config \<Rightarrow> int \<Rightarrow> heavy_inventory result" where
  "fetch_inventory he ad sg =
     (case fetch_inventory_inner he ad sg of
        Inl x \<Rightarrow> Inl (RuntimeError (''Heavy refresh inventory failed: '' @ exn_text x))
      | Inr iv \<Rightarrow> Inr iv)"

section \<open>The poller\<close>

definition modem_key :: "cable_modem \<Rightarrow> string \<times> string \<times> string" where
  "modem_key m = (cm_mac m, cm_ipv4 m, cm_ipv6 m)"

definition normalize_modems :: "cable_modem list \<Rightarrow> cable_modem list" where
  "normalize_modems ms = sort_key modem_key (dedupe_by modem_key [] ms)"

text \<open>The order of \<open>str(channel_type)\<close>.\<close>

fun kind_rank :: "rf_type \<Rightarrow> int" where
  "kind_rank Ofdm = 0"
| "kind_rank Ofdma = 1"
| "kind_rank ScQam = 2"

definition normalize_rf :: "rf_channel list \<Rightarrow> int list \<Rightarrow> rf_channel list" where
  "normalize_rf chs ids =
     (let allowed = filter (\<lambda>c. 0 < c) ids
      in sort_key (\<lambda>c. (rf_id c, kind_rank (rf_kind c)))
           (filter (\<lambda>c. 0 < rf_id c \<and> (allowed = [] \<or> rf_id c \<in> set allowed)) chs))"

definition heavy_payload :: "heavy_inventory \<Rightarrow> payload" where
  "heavy_payload iv =
     (let ds = normalize_channels (hi_ds iv); us = normalize_channels (hi_us iv)
      in \<lparr>pl_ds_set = hi_ds_set iv, pl_us_set = hi_us_set iv,
          pl_ds = \<lparr>ch_count = int (length ds), ch_ids = ds\<rparr>, pl_us = \<lparr>ch_count = int (length us), ch_ids = us\<rparr>,
          pl_ds_rf = normalize_rf (hi_ds_rf iv) ds, pl_us_rf = normalize_rf (hi_us_rf iv) us,
          pl_modems = normalize_modems (hi_modems iv)\<rparr>)"

definition heavy_poll :: "heavy_env \<Rightarrow> adapter_config \<Rightarrow> int \<Rightarrow> payload result" where
  "heavy_poll he ad sg = map_sum id heavy_payload (fetch_inventory he ad sg)"

section \<open>Lemmas\<close>

lemma set_normalize_channels [simp]: "set (normalize_channels ids) = {c \<in> set ids. 0 < c}"
  by (auto simp: normalize_channels_def)

lemma sorted_normalize_channels [simp]: "sorted (normalize_channels ids)"
  by (simp add: normalize_channels_def)

lemma distinct_normalize_channels [simp]: "distinct (normalize_channels ids)"
  by (simp add: normalize_channels_def)

lemma rf_id_channels [simp]:
  "rf_id (sc_qam_channel c f w) = c" "rf_id (ofdm_channel c e) = c" "rf_id (ofdma_channel c a) = c"
  by (auto simp: sc_qam_channel_def ofdm_channel_def ofdma_channel_def Let_def split: prod.splits option.splits)

lemma rf_ids_built [simp]:
  "map rf_id (build_ds_rf ids scs ofdms) = normalize_channels ids"
  "map rf_id (build_us_rf ids scs' ofdmas) = normalize_channels ids"
  by (auto simp: build_ds_rf_def build_us_rf_def comp_def intro!: map_idI split: option.split)

text \<open>Channels that are already in the order of their identifiers stay as they are.\<close>

lemma normalize_rf_id:
  assumes "map rf_id chs = normalize_channels ids"
  shows "normalize_rf chs (normalize_channels ids) = chs"
proof -
  have ids: "set (map rf_id chs) = {c \<in> set ids. 0 < c}" using assms by simp
  have all: "filter (\<lambda>c. 0 < c) (normalize_channels ids) = normalize_channels ids"
    by (simp add: filter_id_conv)
  have keep: "filter (\<lambda>c. 0 < rf_id c \<and> (normalize_channels ids = [] \<or> rf_id c \<in> set (normalize_channels ids))) chs = chs"
    using ids by (auto simp: filter_id_conv image_def)
  have "sorted_wrt (<) (map rf_id chs)"
    unfolding assms by (simp add: strict_sorted_iff)
  then have lt: "sorted_wrt (\<lambda>c d. rf_id c < rf_id d) chs"
    by (simp only: sorted_wrt_map)
  have "sorted (map (\<lambda>c. (rf_id c, kind_rank (rf_kind c))) chs)"
    unfolding sorted_map by (rule sorted_wrt_mono_rel [OF _ lt]) (simp add: less_eq_prod_simp)
  then show ?thesis
    unfolding normalize_rf_def Let_def all keep by (rule sort_key_id_if_sorted)
qed

definition summary_ok :: "channel_summary \<Rightarrow> rf_channel list \<Rightarrow> bool" where
  "summary_ok s chs \<longleftrightarrow> sorted (ch_ids s) \<and> distinct (ch_ids s) \<and> (\<forall>c\<in>set (ch_ids s). 0 < c) \<and>
     ch_count s = int (length (ch_ids s)) \<and> map rf_id chs = ch_ids s"

lemma sorted_normalize_modems: "sorted (map modem_key (normalize_modems ms))"
  by (simp add: normalize_modems_def)

lemma distinct_normalize_modems: "distinct (map modem_key (normalize_modems ms))"
  by (simp add: normalize_modems_def distinct_map distinct_dedupe_by [unfolded distinct_map])

lemma keys_normalize_modems: "modem_key ` set (normalize_modems ms) = modem_key ` set ms"
  by (simp add: normalize_modems_def set_dedupe_by)

lemma fetch_inventory_channels:
  assumes "fetch_inventory he ad sg = Inr iv"
  shows "map rf_id (hi_ds_rf iv) = normalize_channels (hi_ds iv)"
    and "map rf_id (hi_us_rf iv) = normalize_channels (hi_us iv)"
  using assms
  by (auto simp: fetch_inventory_def fetch_inventory_inner_def Let_def split: sum.splits prod.splits)

lemma heavy_poll_summaries:
  assumes "heavy_poll he ad sg = Inr p"
  shows "summary_ok (pl_ds p) (pl_ds_rf p)" "summary_ok (pl_us p) (pl_us_rf p)"
    and "sorted (map modem_key (pl_modems p))" "distinct (map modem_key (pl_modems p))"
proof -
  obtain iv where iv: "fetch_inventory he ad sg = Inr iv" and p: "p = heavy_payload iv"
    using assms by (cases "fetch_inventory he ad sg") (auto simp: heavy_poll_def)
  note rf = fetch_inventory_channels [OF iv]
  show "summary_ok (pl_ds p) (pl_ds_rf p)" "summary_ok (pl_us p) (pl_us_rf p)"
    "sorted (map modem_key (pl_modems p))" "distinct (map modem_key (pl_modems p))"
    by (simp_all add: p heavy_payload_def Let_def summary_ok_def normalize_rf_id [OF rf(1)] normalize_rf_id [OF rf(2)]
        rf sorted_normalize_modems distinct_normalize_modems)
qed

section \<open>Properties\<close>

text \<open>Whatever the CMTS answers, the payload of a heavy refresh is in normal form.  The channel
  identifiers of each direction are positive, ascending and without repetitions, their number is the
  count, and there is exactly one RF channel for each, in the same order; no two modems share their MAC
  and addresses, and they are sorted by them.
\<close>

theorem heavy_poll_normal_form:
  assumes "heavy_poll he ad sg = Inr p"
  shows "summary_ok (pl_ds p) (pl_ds_rf p) \<and> summary_ok (pl_us p) (pl_us_rf p) \<and>
    sorted (map modem_key (pl_modems p)) \<and> distinct (map modem_key (pl_modems p))"
  using heavy_poll_summaries [OF assms] by simp

text \<open>A CMTS with one service group and one downstream channel.\<close>

definition heavy_snmp :: snmp where
  "heavy_snmp = demo_snmp\<lparr>sn_get := \<lambda>c. Inr (Some ''7'')\<rparr>"

definition demo_heavy :: heavy_env where
  "demo_heavy = \<lparr>he_cmts = \<lparr>ct_inet = Some, ct_resolve = (\<lambda>h. None), ct_client = (\<lambda>a c. heavy_snmp)\<rparr>,
     he_hex = (\<lambda>s. None), he_community = None, he_sysdescr = (\<lambda>m a c. None)\<rparr>"

definition demo_adapter :: adapter_config where
  "demo_adapter = \<lparr>ad_label = '''', ad_hostname = ''c'', ad_community = ''p'', ad_write_community = '''', ad_port = 161\<rparr>"

lemma heavy_snmp_simps:
  "sn_walk heavy_snmp c = sn_walk demo_snmp c" "sn_get heavy_snmp c = Inr (Some ''7'')"
  "sn_values heavy_snmp = sn_values demo_snmp" "sn_bytes heavy_snmp = sn_bytes demo_snmp"
  "sn_indices heavy_snmp = sn_indices demo_snmp" "sn_mac heavy_snmp = sn_mac demo_snmp"
  "sn_text heavy_snmp = sn_text demo_snmp" "sn_resolve heavy_snmp = sn_resolve demo_snmp"
  by (simp_all add: heavy_snmp_def)

lemma demo_heavy_key: "parse_node_key heavy_snmp c (demo_row [1, 2, 10, 2, 78, 49, 5]) = Inr (Some (10, ''N1'', 5))"
  by (simp add: parse_node_key_def oid_suffix_def heavy_snmp_simps demo_oid node_name_def demo_snmp_simps demo_chars)

lemma demo_heavy_groups: "list_service_groups heavy_snmp = Inr [group_of (10, ''N1'', 5) 7 0]"
  by (simp add: list_service_groups_def collect_node_values_def walk_rows_def heavy_snmp_simps demo_snmp_simps
      demo_heavy_key merge_groups_def add_ds_def)


lemma demo_heavy_parse:
  "py_int ''7'' = Some 7" "parse_channel_list ''7'' = [7]"
  by (simp_all add: py_int_def py_strip_def py_lstrip_def py_space_def digit_value_def parse_channel_list_def
      py_startswith_def Let_def)

lemma demo_heavy_topology:
  "service_group_topology heavy_snmp =
     Inr [\<lparr>te_group = group_of (10, ''N1'', 5) 7 0, te_ds_exists = True, te_us_exists = False, te_ds_set = 7, te_us_set = 0,
           te_ds_channels = [7], te_us_channels = []\<rparr>]"
proof -
  have none: "has_ch_sets heavy_snmp c = False" "collect_channels heavy_snmp c = Map.empty"
    if "c \<in> {''docsIf3MdDsSgStatusChSetId'', ''docsIf3DsChSetChList'', ''docsIf3UsChSetChList''}" for c
    using that by (auto simp: has_ch_sets_def collect_channels_def walk_rows_def heavy_snmp_simps demo_snmp_simps
        List.map_filter_def)
  have set: "get_ds_ch_set heavy_snmp i g = (True, 7)" "get_ds_channels heavy_snmp i g = [7]" for i g
    by (simp_all add: get_ds_ch_set_def get_ds_channels_def get_value_def heavy_snmp_simps demo_heavy_parse)
  show ?thesis
    by (simp add: service_group_topology_def demo_heavy_groups group_topology_def group_of_def none set)
qed

lemma demo_heavy_client: "collector_client (he_cmts demo_heavy) demo_adapter = Inr heavy_snmp"
  by (simp add: collector_client_def demo_heavy_def demo_adapter_def resolve_cmts_inet_def py_strip_def py_lstrip_def
      py_space_def Let_def)

lemma demo_heavy_tables:
  "ds_channel_all heavy_snmp = []" "us_channel_all heavy_snmp = []" "ds_ofdm_all heavy_snmp = []" "us_ofdma_all heavy_snmp = []"
  by (simp_all add: ds_channel_all_def us_channel_all_def ds_ofdm_all_def us_ofdma_all_def table_indices_def walk_rows_def
      heavy_snmp_simps demo_snmp_simps)

lemma demo_heavy_modems: "fetch_cable_modems demo_heavy demo_adapter 5 = Inr []"
proof -
  have "all_register_cm heavy_snmp 5 = []"
    by (simp add: all_register_cm_def matched_indices_def walk_rows_def heavy_snmp_simps demo_snmp_simps Let_def)
  then show ?thesis
    by (simp add: fetch_cable_modems_def discover_registered_cms_def build_operation_def demo_heavy_def demo_adapter_def
        resolve_cmts_inet_def py_strip_def py_lstrip_def py_space_def discover_by_sg_def fetch_registered_cms_def Let_def
        List.map_filter_def)
qed

lemma heavy_poll_normal_form_witness:
  "\<exists>p. heavy_poll demo_heavy demo_adapter 5 = Inr p \<and> ch_ids (pl_ds p) = [7] \<and> summary_ok (pl_ds p) (pl_ds_rf p)"
proof -
  have "\<exists>p. heavy_poll demo_heavy demo_adapter 5 = Inr p \<and> ch_ids (pl_ds p) = [7]"
    by (simp add: heavy_poll_def fetch_inventory_def fetch_inventory_inner_def fetch_topology_def
        fetch_channel_inventory_def demo_heavy_client demo_heavy_topology demo_heavy_tables demo_heavy_modems
        extract_channels_def group_of_def heavy_payload_def normalize_channels_def Let_def)
  then show ?thesis using heavy_poll_normal_form [of demo_heavy demo_adapter 5] by blast
qed

text \<open>The occupied spectrum of an OFDM channel starts at its first active subcarrier, above the
  frequency of subcarrier zero.  The lower boundary that the poller computes lies below subcarrier zero
  instead, and the reported width exceeds the distance of the active subcarriers with their guard bands
  by almost twice the offset of the first one.
\<close>

theorem ofdm_lower_edge_mirrored:
  assumes "docsIf31CmtsDsOfdmChanSubcarrierZeroFreq e = Some base"
    and "docsIf31CmtsDsOfdmChanFirstActiveSubcarrierNum e = Some a"
    and "docsIf31CmtsDsOfdmChanLastActiveSubcarrierNum e = Some z"
    and "docsIf31CmtsDsOfdmChanSubcarrierSpacing e = Some spacing"
    and "docsIf31CmtsDsOfdmChanLowerGuardbandWidth e = Some lg"
    and "docsIf31CmtsDsOfdmChanUpperGuardbandWidth e = Some ug"
    and "0 < a" "a \<le> z" "0 < spacing" "0 \<le> lg" "0 \<le> ug"
  shows "rf_lower (ofdm_channel c e) = Some (base - lg - (a - 1) * spacing) \<and>
    base - lg - (a - 1) * spacing \<le> base \<and> base < base + a * spacing \<and>
    rf_width (ofdm_channel c e) = Some ((z - a) * spacing + lg + ug + (2 * a - 1) * spacing)"
proof -
  have pos: "0 \<le> (a - 1) * spacing" "0 < a * spacing" "0 \<le> z * spacing"
    using assms(7-9) by simp_all
  then show ?thesis
    using assms(1-7,10,11) by (simp add: ofdm_channel_def ofdm_bounds_def ofdm_width_def algebra_simps)
qed

definition demo_ofdm :: ds_ofdm_entry where
  "demo_ofdm = (ds_ofdm_fields (ds_ofdm_from_snmp heavy_snmp 1))\<lparr>
     docsIf31CmtsDsOfdmChanSubcarrierZeroFreq := Some 600000000,
     docsIf31CmtsDsOfdmChanFirstActiveSubcarrierNum := Some 148,
     docsIf31CmtsDsOfdmChanLastActiveSubcarrierNum := Some 3947,
     docsIf31CmtsDsOfdmChanSubcarrierSpacing := Some 50000,
     docsIf31CmtsDsOfdmChanLowerGuardbandWidth := Some 1000000,
     docsIf31CmtsDsOfdmChanUpperGuardbandWidth := Some 1000000\<rparr>"

lemma ofdm_lower_edge_mirrored_witness: "rf_lower (ofdm_channel 1 demo_ofdm) = Some 591650000"
  using ofdm_lower_edge_mirrored [of demo_ofdm 600000000 148 3947 50000 1000000 1000000 1] by (simp add: demo_ofdm_def)

end
