(* ===== verification/RefreshCycle.thy ===== *)
theory RefreshCycle
  imports HeavyPoller SgwManager
begin

text \<open>
  The refresh cycle of \<open>sgw/manager.py\<close> with the pollers the program runs, \<open>sgw/pollers/heavy.py\<close> and
  \<open>sgw/pollers/light.py\<close>.  The interface \<open>payload_law\<close> is a property of payloads that every poll
  keeps; the store then keeps it through every cycle.
\<close>

section \<open>The pollers of the program\<close>

definition sgw_light_poller :: "int \<Rightarrow> cable_modem list \<Rightarrow> cable_modem list" where
  "sgw_light_poller sg ms = ms"

definition sgw_pollers :: "heavy_env \<Rightarrow> adapter_config \<Rightarrow> (int \<Rightarrow> int \<Rightarrow> int) \<Rightarrow> pollers" where
  "sgw_pollers he ad jitter =
     \<lparr>po_heavy = (\<lambda>sg. map_sum exn_text id (heavy_poll he ad sg)), po_light = (\<lambda>sg ms. Inr (sgw_light_poller sg ms)),
      po_jitter = jitter\<rparr>"

section \<open>Properties of payloads that polls keep\<close>

definition store_good :: "(payload \<Rightarrow> bool) \<Rightarrow> store \<Rightarrow> bool" where
  "store_good good s \<longleftrightarrow> (\<forall>sg e. s sg = Some e \<longrightarrow> good (sn_payload (ce_snapshot e)))"

lemma store_good_update:
  "store_good good s \<Longrightarrow> good (sn_payload (ce_snapshot e)) \<Longrightarrow> store_good good (s(sg \<mapsto> e))"
  by (simp add: store_good_def)

lemma store_goodD: "store_good good s \<Longrightarrow> s sg = Some e \<Longrightarrow> good (sn_payload (ce_snapshot e))"
  by (simp add: store_good_def)

locale payload_law =
  fixes good :: "payload \<Rightarrow> bool"
  assumes empty: "good empty_payload"
    and light: "good p \<Longrightarrow> good (p\<lparr>pl_modems := merge_light (pl_modems p) ups\<rparr>)"
begin

lemma ensured:
  assumes "ensure_entry sg now s = (e, s')" "store_good good s"
  shows "store_good good s'" "good (sn_payload (ce_snapshot e))"
  using assms empty
  by (auto simp: ensure_entry_def store_upsert_def new_entry_def Let_def intro: store_good_update dest: store_goodD
      split: option.splits)

lemma marked: "store_good good s \<Longrightarrow> store_good good (snd (store_mark_error sg msg now s))"
  using empty
  by (auto simp: store_mark_error_def with_metadata_def new_entry_def Let_def intro!: store_good_update dest: store_goodD
      split: option.splits)

lemma polled:
  assumes s: "store_good good s" and e: "s sg = Some e"
    and heavy: "\<forall>p. po_heavy po sg = Inr p \<longrightarrow> good p"
  shows "store_good good (snd (poll_and_store po mode sg now e s))"
proof (cases mode)
  case ModeNone
  with s show ?thesis by (simp add: poll_and_store_def)
next
  case ModeHeavy
  from e heavy ModeHeavy s show ?thesis
    by (auto simp: poll_and_store_def refresh_heavy_def ensure_entry_def store_upsert_def Let_def
        intro!: store_good_update marked split: sum.splits)
next
  case ModeLight
  from e store_goodD [OF s e] ModeLight s show ?thesis
    by (auto simp: poll_and_store_def refresh_light_def ensure_entry_def store_upsert_def Let_def
        intro!: store_good_update marked light split: sum.splits)
qed

lemma refreshed_sg:
  assumes "refresh_sg cfg po now sg m = (o1, m')" "store_ok (sm_store m)" "store_good good (sm_store m)"
    and heavy: "\<forall>p. po_heavy po sg = Inr p \<longrightarrow> good p"
  shows "store_good good (sm_store m')"
proof -
  obtain e s1 where en: "ensure_entry sg now (sm_store m) = (e, s1)" by fastforce
  obtain jit js where j: "resolve_jitter cfg (po_jitter po) sg (sm_jitter m) = (jit, js)" by fastforce
  define mode where "mode = choose_mode cfg (sm_requests m sg) (entry_metadata e) jit now"
  obtain applied err s2 where p: "poll_and_store po mode sg now e s1 = ((applied, err), s2)"
    by (metis prod.exhaust)
  obtain stale e3 where a: "age_entry cfg now (case s2 sg of None \<Rightarrow> e | Some x \<Rightarrow> x) = (stale, e3)" by fastforce
  from ensure_entry_cases [OF en assms(2)] have "s1 sg = Some e" by simp
  from polled [OF ensured(1) [OF en assms(3)] this heavy, where mode = mode and now = now] p have s2: "store_good good s2" by simp
  have "good (sn_payload (ce_snapshot (case s2 sg of None \<Rightarrow> e | Some x \<Rightarrow> x)))"
    using ensured(2) [OF en assms(3)] store_goodD [OF s2] by (simp split: option.split)
  with age_entry_spec(9) [OF a] have "good (sn_payload (ce_snapshot e3))" by simp
  moreover have "sm_store m' = store_upsert e3 s2"
    using assms(1) unfolding refresh_sg_def by (auto simp: en j p [unfolded mode_def] a Let_def)
  ultimately show ?thesis by (simp add: store_upsert_def store_good_update s2)
qed

lemma refreshed_groups:
  assumes "refresh_groups cfg po now sgs m = (os, m')" "store_ok (sm_store m)" "store_good good (sm_store m)"
    and heavy: "\<forall>sg p. po_heavy po sg = Inr p \<longrightarrow> good p"
  shows "store_good good (sm_store m') \<and> store_ok (sm_store m')"
  using assms(1-3)
proof (induction sgs arbitrary: m os)
  case (Cons sg sgs)
  obtain o1 m1 where 1: "refresh_sg cfg po now sg m = (o1, m1)" by fastforce
  obtain os2 where 2: "refresh_groups cfg po now sgs m1 = (os2, m')"
    using Cons.prems(1) 1 by (auto split: prod.splits)
  from refresh_sg_spec [OF 1 Cons.prems(2)] obtain e where "sm_store m1 = (sm_store m)(sg \<mapsto> e)" "entry_ok sg e"
    unfolding outcome_ok_def by blast
  then have ok: "store_ok (sm_store m1)" using Cons.prems(2) by (simp add: store_ok_def)
  from Cons.IH [OF 2 ok refreshed_sg [OF 1 Cons.prems(2,3) spec [OF heavy]]] show ?case by simp
qed simp

lemma refreshed_once:
  assumes "refresh_once cfg po now m = (r, m')" "store_ok (sm_store m)" "store_good good (sm_store m)"
    and heavy: "\<forall>sg p. po_heavy po sg = Inr p \<longrightarrow> good p"
  shows "store_good good (sm_store m') \<and> store_ok (sm_store m')"
  using assms(1-3) refreshed_groups [OF _ assms(2,3) heavy]
  by (auto simp: refresh_once_def split: if_splits prod.splits)

lemma refreshed_loop:
  assumes "store_ok (sm_store m)" "store_good good (sm_store m)" "int k \<le> n" "n < int k + int fuel"
    and heavy: "\<forall>k sg p. po_heavy (po k) sg = Inr p \<longrightarrow> good p"
  shows "\<exists>res j m'. refresh_loop fuel cfg po clock stop after (Some n) k rs m = Some (res, j, m') \<and> store_good good (sm_store m')"
  using assms(1-4)
proof (induction fuel arbitrary: k rs m)
  case (Suc fuel)
  obtain r m1 where 1: "refresh_once cfg (po k) (clock k) m = (r, m1)" by fastforce
  note m1 = refreshed_once [OF 1 Suc.prems(1,2) spec [OF heavy]]
  show ?case
  proof (cases r)
    case (Inl x)
    with 1 m1 show ?thesis by simp
  next
    case (Inr rr)
    show ?thesis
    proof (cases "n \<le> int (Suc k)")
      case True
      with 1 Inr m1 show ?thesis by (simp add: Let_def)
    next
      case False
      then have "\<exists>res j m'. refresh_loop fuel cfg po clock stop after (Some n) (Suc k) (rs @ [rr]) m1 = Some (res, j, m') \<and>
          store_good good (sm_store m')"
        using m1 Suc.prems(4) by (intro Suc.IH) auto
      with 1 Inr m1 False show ?thesis by (simp add: Let_def)
    qed
  qed
qed simp

end

section \<open>Channels\<close>

definition channels_ok :: "payload \<Rightarrow> bool" where
  "channels_ok p \<longleftrightarrow> summary_ok (pl_ds p) (pl_ds_rf p) \<and> summary_ok (pl_us p) (pl_us_rf p)"

interpretation channels: payload_law channels_ok
  by unfold_locales (simp_all add: channels_ok_def empty_payload_def summary_ok_def)

lemma heavy_channels_ok: "po_heavy (sgw_pollers he ad jitter) sg = Inr p \<Longrightarrow> channels_ok p"
  by (cases "heavy_poll he ad sg") (auto simp: sgw_pollers_def channels_ok_def heavy_poll_summaries(1,2))

definition same_mac :: "cable_modem list \<Rightarrow> cable_modem \<Rightarrow> cable_modem" where
  "same_mac ms m = (case map_of (rev (map (\<lambda>u. (cm_mac u, u)) ms)) (cm_mac m) of None \<Rightarrow> m | Some u \<Rightarrow> u)"

lemma same_mac:
  assumes "m \<in> set ms"
  shows "same_mac ms m \<in> set ms" "cm_mac (same_mac ms m) = cm_mac m"
proof -
  have "map_of (rev (map (\<lambda>u. (cm_mac u, u)) ms)) (cm_mac m) \<noteq> None"
    using assms by (simp add: map_of_eq_None_iff image_image)
  then obtain u where u: "map_of (rev (map (\<lambda>u. (cm_mac u, u)) ms)) (cm_mac m) = Some u" by blast
  from map_of_SomeD [OF this] u show "same_mac ms m \<in> set ms" "cm_mac (same_mac ms m) = cm_mac m"
    by (auto simp: same_mac_def)
qed

lemma same_mac_cong: "x \<in> set ms \<Longrightarrow> y \<in> set ms \<Longrightarrow> cm_mac x = cm_mac y \<Longrightarrow> same_mac ms x = same_mac ms y"
proof -
  assume x: "x \<in> set ms" and "y \<in> set ms" and e: "cm_mac x = cm_mac y"
  have "map_of (rev (map (\<lambda>u. (cm_mac u, u)) ms)) (cm_mac x) \<noteq> None"
    using x by (simp add: map_of_eq_None_iff image_image)
  then show ?thesis unfolding same_mac_def e by (auto split: option.split)
qed

lemma same_mac_inj: "inj_on cm_mac (set ms) \<Longrightarrow> m \<in> set ms \<Longrightarrow> same_mac ms m = m"
  using same_mac by (metis inj_onD)

lemma merge_light_same: "merge_light ms (sgw_light_poller sg ms) = map (same_mac ms) ms"
  by (simp add: merge_light_def sgw_light_poller_def same_mac_def)

section \<open>Properties\<close>

text \<open>C9: With the program's pollers the refresh loop returns within the cycles it is given, and every entry
  it leaves in the cache has consistent channels (positive ascending identifiers without repetitions, the
  right count, one RF channel each), whatever the CMTS answers in each cycle and whichever polls fail.
\<close>

theorem cache_channels_consistent:
  assumes "store_ok (sm_store m)" "store_good channels_ok (sm_store m)" "0 \<le> n" "n < int fuel"
  shows "\<exists>res k m'. refresh_forever fuel cfg (\<lambda>k. sgw_pollers (he k) (ad k) (jitter k)) clock stop after (Some n) m =
      Some (res, k, m') \<and> store_good channels_ok (sm_store m')"
  using assms channels.refreshed_loop [of m 0 n fuel "\<lambda>k. sgw_pollers (he k) (ad k) (jitter k)" cfg clock stop after "[]"]
  by (auto simp: refresh_forever_def heavy_channels_ok)

lemma cache_channels_consistent_witness:
  "\<exists>res k m'. refresh_forever 3 demo_cfg (\<lambda>k. sgw_pollers demo_heavy demo_adapter (\<lambda>_ m. m)) real (\<lambda>_. False) (\<lambda>_ _. False)
     (Some 2) demo_manager = Some (res, k, m') \<and> store_good channels_ok (sm_store m')"
  by (rule cache_channels_consistent) (simp_all add: demo_manager_facts store_good_def store_ok_def)

text \<open>The light poller returns the modems it is given, yet a light refresh leaves the list unchanged only
  where no two of its modems share a MAC address; where two do, the merge replaces both by the later one,
  and modems that were pairwise different become repeated.
\<close>

theorem light_refresh_merges_same_mac:
  assumes "distinct (map modem_key ms)"
  shows "(merge_light ms (sgw_light_poller sg ms) = ms \<longleftrightarrow> inj_on cm_mac (set ms)) \<and>
    (distinct (map modem_key (merge_light ms (sgw_light_poller sg ms))) \<longleftrightarrow> inj_on cm_mac (set ms))"
proof -
  have inj: "map (same_mac ms) ms = ms" if "inj_on cm_mac (set ms)"
    using that by (simp add: map_idI same_mac_inj)
  have "inj_on cm_mac (set ms)" if "map (same_mac ms) ms = ms"
  proof (rule inj_onI)
    fix x y
    assume "x \<in> set ms" "y \<in> set ms" "cm_mac x = cm_mac y"
    from same_mac_cong [OF this] this that show "x = y" by (metis list.map_id map_eq_conv id_apply)
  qed
  moreover have "inj_on cm_mac (set ms)" if "distinct (map modem_key (map (same_mac ms) ms))"
  proof (rule inj_onI)
    fix x y
    assume xy: "x \<in> set ms" "y \<in> set ms" "cm_mac x = cm_mac y"
    from that have "inj_on (\<lambda>m. modem_key (same_mac ms m)) (set ms)" by (simp add: distinct_map comp_def)
    from inj_onD [OF this _ xy(1,2)] same_mac_cong [OF xy] show "x = y" by simp
  qed
  moreover have "distinct (map modem_key (map (same_mac ms) ms))" if "inj_on cm_mac (set ms)"
    unfolding inj [OF that] by (rule assms)
  ultimately show ?thesis unfolding merge_light_same using inj by (intro conjI iffI)
qed

definition modem_at :: "string \<Rightarrow> cable_modem" where
  "modem_at ip = \<lparr>cm_mac = ''aa'', cm_ipv4 = ip, cm_ipv6 = '''', cm_ds_set = 1, cm_us_set = 1, cm_status = 8, cm_sysdescr = ''''\<rparr>"

lemma light_refresh_merges_same_mac_witness:
  "\<not> distinct (map modem_key (merge_light [modem_at ''1'', modem_at ''2''] (sgw_light_poller 5 [modem_at ''1'', modem_at ''2''])))"
  using light_refresh_merges_same_mac [of "[modem_at ''1'', modem_at ''2'']" 5]
  by (simp add: modem_at_def modem_key_def inj_on_def)

end
