(* ===== verification/Requests.thy ===== *)
theory Requests
  imports Inventory
begin

text \<open>
  The request models every endpoint shares: the list checks of
  \<open>api/common/validation/request_normalization.py\<close>, the envelope of \<open>api/common/cmts_request.py\<close> with
  its validators and its defaults, and the defaults of \<open>config/request_defaults.py\<close>.  The MAC format of
  the pypnm package, \<open>MacAddress(m).to_mac_format(COLON)\<close>, is a parameter, \<open>None\<close> where it raises.
\<close>

section \<open>Lists\<close>

fun repeated :: "'a list \<Rightarrow> 'a list \<Rightarrow> 'a list" where
  "repeated seen [] = []"
| "repeated seen (x # xs) = (if x \<in> set seen then x # repeated seen xs else repeated (x # seen) xs)"

definition join_comma :: "string list \<Rightarrow> string" where
  "join_comma xs = (case xs of [] \<Rightarrow> '''' | x # ys \<Rightarrow> x @ concat (map (\<lambda>y. '', '' @ y) ys))"

definition assert_unique :: "('a \<Rightarrow> string) \<Rightarrow> string \<Rightarrow> 'a list \<Rightarrow> 'a list result" where
  "assert_unique str label values =
     (let d = repeated [] values
      in if d = [] then Inr values
         else Inl (ValueError (label @ '' contains duplicate values: '' @ join_comma (map str d))))"

definition assert_unique_ints :: "string \<Rightarrow> int list option \<Rightarrow> int list option result" where
  "assert_unique_ints label values =
     (case values of None \<Rightarrow> Inr None | Some vs \<Rightarrow> map_sum id Some (assert_unique int_str label vs))"

definition dedupe_ordered :: "'a list \<Rightarrow> 'a list" where
  "dedupe_ordered values = dedupe_by id [] values"

definition dedupe_service_group_ids :: "int list \<Rightarrow> int list" where
  "dedupe_service_group_ids values = (if values = [] then values else sorted_unique values)"

section \<open>The envelope\<close>

record tftp_params =
  tp_ipv4 :: "string option"
  tp_ipv6 :: "string option"

record pnm_params =
  pp_tftp :: "tftp_params option"
  pp_channels :: "int list option option"

text \<open>The outer option of a community is the \<open>snmpV2C\<close> model.\<close>

record modem_filter =
  mf_macs :: "string list"
  mf_pnm :: "pnm_params option"
  mf_snmp :: "string option option option"

record envelope =
  en_sgs :: "int list"
  en_modems :: modem_filter

definition validate_sg_filter :: "int list \<Rightarrow> int list result" where
  "validate_sg_filter sgs =
     (if \<exists>sg\<in>set sgs. sg < 0 then Inl (ValueError ''serving_group.id values must be zero or greater.'')
      else assert_unique int_str ''serving_group.id'' sgs)"

definition reject_blank :: "string \<Rightarrow> string option \<Rightarrow> string option result" where
  "reject_blank msg v =
     (case v of None \<Rightarrow> Inr None | Some s \<Rightarrow> if py_strip s = '''' then Inl (ValueError msg) else Inr (Some s))"

definition validate_tftp :: "string option \<Rightarrow> string option \<Rightarrow> tftp_params result" where
  "validate_tftp v4 v6 =
     (case reject_blank ''tftp.ipv4 must be null or a valid IP address'' v4 of
        Inl x \<Rightarrow> Inl x
      | Inr a \<Rightarrow> (case reject_blank ''tftp.ipv6 must be null or a valid IP address'' v6 of
                  Inl x \<Rightarrow> Inl x
                | Inr b \<Rightarrow> Inr \<lparr>tp_ipv4 = a, tp_ipv6 = b\<rparr>))"

definition validate_channel_ids :: "int list option \<Rightarrow> int list option result" where
  "validate_channel_ids chs =
     (case chs of
        None \<Rightarrow> Inr None
      | Some [] \<Rightarrow> Inr None
      | Some cs \<Rightarrow> assert_unique_ints ''pnm_parameters.capture.channel_ids'' (Some cs))"

definition validate_community :: "string option \<Rightarrow> string option result" where
  "validate_community v = reject_blank ''snmpV2C.community must not be blank'' v"

fun normalize_macs :: "(string \<Rightarrow> string option) \<Rightarrow> string list \<Rightarrow> string list result" where
  "normalize_macs fmt [] = Inr []"
| "normalize_macs fmt (m # ms) =
     (case fmt m of
        None \<Rightarrow> Inl (ValueError ''cable_modem.mac_address entries must be valid MAC addresses.'')
      | Some a \<Rightarrow> map_sum id (\<lambda>as. a # as) (normalize_macs fmt ms))"

definition validate_mac_filter :: "(string \<Rightarrow> string option) \<Rightarrow> string list \<Rightarrow> string list result" where
  "validate_mac_filter fmt macs =
     (case normalize_macs fmt macs of
        Inl x \<Rightarrow> Inl x
      | Inr ms \<Rightarrow> assert_unique id ''cable_modem.mac_address'' ms)"

text \<open>An empty list means all.\<close>

definition resolve_sg_ids :: "envelope \<Rightarrow> int list \<Rightarrow> int list" where
  "resolve_sg_ids en discovered = (if en_sgs en \<noteq> [] then en_sgs en else discovered)"

definition resolve_mac_addresses :: "envelope \<Rightarrow> string list \<Rightarrow> string list" where
  "resolve_mac_addresses en discovered = (if mf_macs (en_modems en) \<noteq> [] then mf_macs (en_modems en) else discovered)"

section \<open>Defaults\<close>

record request_defaults =
  rd_community :: "string option"
  rd_ipv4 :: "string option"
  rd_ipv6 :: "string option"

definition env_or_config :: "string option \<Rightarrow> string \<Rightarrow> string option" where
  "env_or_config env config =
     (let e = py_strip (case env of None \<Rightarrow> '''' | Some s \<Rightarrow> s); v = (if e = '''' then py_strip config else e)
      in if v \<noteq> '''' then Some v else None)"

text \<open>\<open>from_system_config\<close>: the three variables of the environment and the three values of the configuration.\<close>

definition from_system_config ::
  "string option \<times> string \<Rightarrow> string option \<times> string \<Rightarrow> string option \<times> string \<Rightarrow> request_defaults" where
  "from_system_config w v4 v6 =
     \<lparr>rd_community = env_or_config (fst w) (snd w), rd_ipv4 = env_or_config (fst v4) (snd v4),
      rd_ipv6 = env_or_config (fst v6) (snd v6)\<rparr>"

definition write_community :: "modem_filter \<Rightarrow> string option" where
  "write_community m = (case mf_snmp m of Some (Some c) \<Rightarrow> c | _ \<Rightarrow> None)"

definition tftp_of :: "modem_filter \<Rightarrow> tftp_params option" where
  "tftp_of m = (case mf_pnm m of None \<Rightarrow> None | Some p \<Rightarrow> pp_tftp p)"

definition or_default :: "'a option \<Rightarrow> 'a option \<Rightarrow> 'a option" where
  "or_default a b = (case a of None \<Rightarrow> b | Some x \<Rightarrow> Some x)"

definition default_community :: "request_defaults \<Rightarrow> modem_filter \<Rightarrow> modem_filter" where
  "default_community d m =
     (if write_community m = None \<and> rd_community d \<noteq> None then m\<lparr>mf_snmp := Some (Some (rd_community d))\<rparr> else m)"

definition default_tftp :: "request_defaults \<Rightarrow> modem_filter \<Rightarrow> modem_filter" where
  "default_tftp d m =
     (let t = tftp_of m;
          v4 = or_default (case t of None \<Rightarrow> None | Some p \<Rightarrow> tp_ipv4 p) (rd_ipv4 d);
          v6 = or_default (case t of None \<Rightarrow> None | Some p \<Rightarrow> tp_ipv6 p) (rd_ipv6 d)
      in if v4 \<noteq> None \<or> v6 \<noteq> None
         then m\<lparr>mf_pnm := Some ((case mf_pnm m of None \<Rightarrow> \<lparr>pp_tftp = None, pp_channels = None\<rparr> | Some p \<Rightarrow> p)
                  \<lparr>pp_tftp := Some \<lparr>tp_ipv4 = v4, tp_ipv6 = v6\<rparr>\<rparr>)\<rparr>
         else m)"

definition apply_defaults :: "request_defaults \<Rightarrow> envelope \<Rightarrow> envelope" where
  "apply_defaults d en = en\<lparr>en_modems := default_tftp d (default_community d (en_modems en))\<rparr>"

section \<open>Lemmas\<close>

lemma repeated_empty_iff: "repeated seen xs = [] \<longleftrightarrow> distinct xs \<and> set xs \<inter> set seen = {}"
  by (induction seen xs rule: repeated.induct) auto

lemma set_repeated: "set (repeated seen xs) \<subseteq> set xs"
  by (induction seen xs rule: repeated.induct) auto

lemma assert_unique_Inr: "assert_unique str label xs = Inr ys \<longleftrightarrow> distinct xs \<and> ys = xs"
  by (auto simp: assert_unique_def Let_def repeated_empty_iff)

lemma normalize_macs_Inr: "normalize_macs fmt ms = Inr as \<longleftrightarrow> map fmt ms = map Some as"
proof (induction ms arbitrary: as)
  case (Cons m ms)
  show ?case
  proof (cases "fmt m")
    case (Some a)
    show ?thesis
    proof (cases "normalize_macs fmt ms")
      case (Inl x)
      with Cons have "map fmt ms \<noteq> map Some bs" for bs by (metis Inl_Inr_False)
      with Inl Some show ?thesis by (cases as) simp_all
    next
      case (Inr bs)
      with Cons have "map fmt ms = map Some bs" by blast
      with Inr Some show ?thesis by (cases as) (auto simp: inj_map_eq_map)
    qed
  qed (cases as; simp)
qed auto

lemma write_community_default: "write_community (default_community d m) = or_default (write_community m) (rd_community d)"
  by (auto simp: default_community_def or_default_def write_community_def split: option.splits)

lemma tftp_default:
  "tftp_of (default_tftp d m) =
     (case (or_default (Option.bind (tftp_of m) tp_ipv4) (rd_ipv4 d), or_default (Option.bind (tftp_of m) tp_ipv6) (rd_ipv6 d)) of
        (None, None) \<Rightarrow> tftp_of m
      | (a, b) \<Rightarrow> Some \<lparr>tp_ipv4 = a, tp_ipv6 = b\<rparr>)"
  by (auto simp: default_tftp_def or_default_def tftp_of_def Let_def split: option.splits)

lemma defaults_frame [simp]:
  "mf_macs (default_community d m) = mf_macs m" "mf_pnm (default_community d m) = mf_pnm m"
  "mf_macs (default_tftp d m) = mf_macs m" "mf_snmp (default_tftp d m) = mf_snmp m"
  by (simp_all add: default_community_def default_tftp_def Let_def)

lemma tftp_of_default_community [simp]: "tftp_of (default_community d m) = tftp_of m"
  by (simp add: tftp_of_def)

lemma write_community_default_tftp [simp]: "write_community (default_tftp d m) = write_community m"
  by (simp add: write_community_def)

section \<open>Properties\<close>

text \<open>A request that names a community or an address keeps it and one that does not gets the configured
  one; the selection and the channels stay as they are, and filling in the defaults again changes nothing.
\<close>

theorem apply_defaults_fills:
  "write_community (en_modems (apply_defaults d en)) = or_default (write_community (en_modems en)) (rd_community d) \<and>
   Option.bind (tftp_of (en_modems (apply_defaults d en))) tp_ipv4 =
     or_default (Option.bind (tftp_of (en_modems en)) tp_ipv4) (rd_ipv4 d) \<and>
   Option.bind (tftp_of (en_modems (apply_defaults d en))) tp_ipv6 =
     or_default (Option.bind (tftp_of (en_modems en)) tp_ipv6) (rd_ipv6 d) \<and>
   en_sgs (apply_defaults d en) = en_sgs en \<and> mf_macs (en_modems (apply_defaults d en)) = mf_macs (en_modems en) \<and>
   apply_defaults d (apply_defaults d en) = apply_defaults d en"
proof -
  let ?m = "en_modems en"
  have c: "default_community d (default_tftp d (default_community d ?m)) = default_tftp d (default_community d ?m)"
    using write_community_default [of d ?m] by (auto simp: default_community_def or_default_def split: option.splits)
  have i: "default_tftp d (default_tftp d x) = default_tftp d x" for x
    by (cases "mf_pnm x") (auto simp: default_tftp_def tftp_of_def or_default_def Let_def split: option.splits)
  show ?thesis
    unfolding apply_defaults_def
    by (simp add: c i write_community_default tftp_default or_default_def split: option.split)
qed

text \<open>A MAC filter is accepted exactly if every entry is a MAC address and no two entries are spellings of
  one; it then holds the canonical spellings in the order of the request.
\<close>

theorem mac_filter_accepted:
  "validate_mac_filter fmt macs = Inr as \<longleftrightarrow> map fmt macs = map Some as \<and> distinct as"
  by (cases "normalize_macs fmt macs") (auto simp: validate_mac_filter_def assert_unique_Inr normalize_macs_Inr [symmetric])

end
