(* ===== verification/CacheService.thy ===== *)
theory CacheService
  imports Requests HeavyPoller SgwRuntime OperationStore
begin

text \<open>
  The cache-backed endpoints of a serving group, \<open>api/routes/serving_group/operations/service.py\<close> with the
  request checks of its \<open>schemas.py\<close> and the registration states of
  \<open>docsis/data_type/cmts_cm_reg_state.py\<close>.  A request reads the cache several times while the refresh
  thread goes on; a \<open>cache_view\<close> holds what it sees each time and the clock readings.
\<close>

section \<open>Registration states\<close>

definition decode_reg_state :: "int \<Rightarrow> string" where
  "decode_reg_state v =
     (if v = 1 then ''other'' else if v = 2 then ''initialRanging'' else if v = 4 then ''rangingAutoAdjComplete''
      else if v = 5 then ''dhcpv4Complete'' else if v = 6 then ''registrationComplete'' else if v = 8 then ''operational''
      else if v = 9 then ''bpiInit'' else if v = 10 then ''startEae'' else if v = 11 then ''startDhcpv4''
      else if v = 12 then ''startDhcpv6'' else if v = 13 then ''dhcpv6Complete''
      else if v = 14 then ''startConfigFileDownload'' else if v = 15 then ''configFileDownloadComplete''
      else if v = 16 then ''startRegistration'' else if v = 17 then ''forwardingDisabled''
      else if v = 18 then ''rfMuteAll'' else ''other'')"

section \<open>Metadata\<close>

definition error_metadata :: "string \<Rightarrow> cache_metadata" where
  "error_metadata msg = default_metadata\<lparr>md_snapshot := 0, md_state := StateError, md_error := Some (take 256 msg)\<rparr>"

definition snapshot_missing :: "int \<Rightarrow> string" where
  "snapshot_missing sg = ''sgw snapshot missing for sg_id='' @ int_str sg"

definition resolve_metadata :: "int \<Rightarrow> store option \<Rightarrow> real \<Rightarrow> cache_metadata" where
  "resolve_metadata sg s now =
     (case s of
        None \<Rightarrow> error_metadata ''sgw store not available''
      | Some st \<Rightarrow>
          (case st sg of
             None \<Rightarrow> error_metadata (snapshot_missing sg)
           | Some e \<Rightarrow>
               (let md = entry_metadata e
                in if md_snapshot md \<le> 0 then md else md\<lparr>md_age := max 0 (now - md_snapshot md)\<rparr>)))"

fun newest_entry :: "cache_entry \<Rightarrow> cache_entry list \<Rightarrow> cache_entry" where
  "newest_entry e [] = e"
| "newest_entry e (x # xs) =
     newest_entry (if md_snapshot (entry_metadata e) < md_snapshot (entry_metadata x) then x else e) xs"

definition aggregate_metadata :: "int list \<Rightarrow> store option \<Rightarrow> real \<Rightarrow> cache_metadata \<times> string" where
  "aggregate_metadata sgs s now =
     (case s of
        None \<Rightarrow> (error_metadata ''sgw store not available'', ''sgw store not available'')
      | Some st \<Rightarrow>
          (case filter (\<lambda>sg. st sg = None) sgs of
             sg # _ \<Rightarrow> (error_metadata (snapshot_missing sg), snapshot_missing sg)
           | [] \<Rightarrow>
               (case List.map_filter st sgs of
                  [] \<Rightarrow> (error_metadata ''no discovered service groups'', ''no discovered service groups'')
                | e # es \<Rightarrow> (resolve_metadata (ce_sg (newest_entry e es)) s now, ''''))))"

definition apply_metadata_error :: "cache_metadata \<Rightarrow> string \<Rightarrow> cache_metadata" where
  "apply_metadata_error md msg = md\<lparr>md_state := StateError, md_error := Some (take 256 msg)\<rparr>"

section \<open>Identifiers and status\<close>

record ids_response =
  ip_message :: string
  ip_groups :: "int list"
  ip_ready :: bool
  ip_summaries :: "(int \<times> cache_metadata) list"

definition get_ids :: "real \<Rightarrow> runtime \<Rightarrow> ids_response" where
  "get_ids now rt =
     (let sgs = ss_groups (rt_status rt); ready = fst (compute_cache_ready sgs (rt_store rt))
      in \<lparr>ip_message = (if ready then '''' else ''sgw cache not ready''), ip_groups = sgs, ip_ready = ready,
          ip_summaries = map (\<lambda>sg. (sg, resolve_metadata sg (rt_store rt) now)) sgs\<rparr>)"

record status_response =
  tp_message :: string
  tp_startup :: startup_status
  tp_running :: bool
  tp_count :: int
  tp_ready :: bool
  tp_missing :: "int list"

definition get_status :: "runtime \<Rightarrow> status_response" where
  "get_status rt =
     (let sgs = ss_groups (rt_status rt); (ready, missing) = compute_cache_ready sgs (rt_store rt)
      in \<lparr>tp_message = (if ready then '''' else ''sgw cache not ready''), tp_startup = rt_status rt,
          tp_running = rt_running rt, tp_count = int (length sgs), tp_ready = ready, tp_missing = missing\<rparr>)"

section \<open>Modems of a group\<close>

definition sort_modems :: "cable_modem list \<Rightarrow> cable_modem list" where
  "sort_modems ms = sort_key modem_key ms"

text \<open>Pages count from 1.\<close>

definition paginate_modems :: "cable_modem list \<Rightarrow> int \<Rightarrow> int \<Rightarrow> cable_modem list" where
  "paginate_modems ms page psize =
     (let start = (page - 1) * psize
      in if int (length ms) \<le> start then [] else take (nat psize) (drop (nat start) ms))"

definition total_pages :: "int \<Rightarrow> int \<Rightarrow> int" where
  "total_pages n psize = (if n \<le> 0 then 0 else (n + psize - 1) div psize)"

definition resolve_channel_ids :: "rf_channel list \<Rightarrow> int list \<Rightarrow> int list" where
  "resolve_channel_ids chs fallback =
     (if chs \<noteq> [] then map rf_id (sort_key rf_id chs) else filter (\<lambda>c. 0 < c) fallback)"

record modem_entry =
  cme_mac :: string
  cme_ipv4 :: string
  cme_ipv6 :: string
  cme_sysdescr :: string
  cme_ds :: "int list"
  cme_us :: "int list"
  cme_status :: int
  cme_text :: string

definition cached_inet :: "(string \<Rightarrow> string option) \<Rightarrow> string \<Rightarrow> string" where
  "cached_inet hex raw =
     (let v = py_strip raw
      in if v = '''' then '''' else if \<not> py_startswith v ''0x'' then v
         else (case hex (drop 2 v) of None \<Rightarrow> v | Some a \<Rightarrow> a))"

definition build_modem_entry :: "(string \<Rightarrow> string option) \<Rightarrow> int list \<Rightarrow> int list \<Rightarrow> cable_modem \<Rightarrow> modem_entry" where
  "build_modem_entry hex ds us m =
     \<lparr>cme_mac = cm_mac m, cme_ipv4 = cached_inet hex (cm_ipv4 m), cme_ipv6 = cached_inet hex (cm_ipv6 m),
      cme_sysdescr = cm_sysdescr m, cme_ds = ds, cme_us = us, cme_status = cm_status m,
      cme_text = decode_reg_state (cm_status m)\<rparr>"

record modem_group =
  cmg_sg :: int
  cmg_page :: int
  cmg_size :: int
  cmg_total :: int
  cmg_pages :: int
  cmg_items :: "modem_entry list"
  cmg_metadata :: cache_metadata

definition build_modem_group ::
  "(string \<Rightarrow> string option) \<Rightarrow> int \<Rightarrow> store \<Rightarrow> real \<Rightarrow> int \<Rightarrow> int \<Rightarrow> modem_group" where
  "build_modem_group hex sg s now page psize =
     (case s sg of
        None \<Rightarrow> \<lparr>cmg_sg = sg, cmg_page = page, cmg_size = psize, cmg_total = 0, cmg_pages = 0, cmg_items = [],
                 cmg_metadata = error_metadata (snapshot_missing sg)\<rparr>
      | Some e \<Rightarrow>
          (let p = sn_payload (ce_snapshot e); ms = sort_modems (pl_modems p); n = int (length ms);
               ds = resolve_channel_ids (pl_ds_rf p) (ch_ids (pl_ds p));
               us = resolve_channel_ids (pl_us_rf p) (ch_ids (pl_us p))
           in \<lparr>cmg_sg = sg, cmg_page = page, cmg_size = psize, cmg_total = n, cmg_pages = total_pages n psize,
               cmg_items = map (build_modem_entry hex ds us) (paginate_modems ms page psize),
               cmg_metadata = resolve_metadata sg (Some s) now\<rparr>))"

section \<open>Refresh on request\<close>

definition snapshot_baseline :: "int list \<Rightarrow> store \<Rightarrow> int \<Rightarrow> real" where
  "snapshot_baseline sgs s sg =
     (if sg \<in> set sgs then (case s sg of None \<Rightarrow> 0 | Some e \<Rightarrow> md_snapshot (entry_metadata e)) else 0)"

definition snapshot_advanced :: "int list \<Rightarrow> (int \<Rightarrow> real) \<Rightarrow> store \<Rightarrow> bool" where
  "snapshot_advanced sgs base s \<longleftrightarrow>
     (\<exists>sg\<in>set sgs. case s sg of None \<Rightarrow> False
        | Some e \<Rightarrow> base sg < md_snapshot (entry_metadata e) \<and> 0 < md_snapshot (entry_metadata e))"

definition all_snapshots_advanced :: "int list \<Rightarrow> (int \<Rightarrow> real) \<Rightarrow> store \<Rightarrow> bool" where
  "all_snapshots_advanced sgs base s \<longleftrightarrow>
     (\<forall>sg\<in>set sgs. case s sg of None \<Rightarrow> False
        | Some e \<Rightarrow> base sg < md_snapshot (entry_metadata e) \<and> 0 < md_snapshot (entry_metadata e))"

text \<open>\<open>seen\<close> are the caches the loop finds before the deadline, \<open>at_end\<close> the one of the check after it.\<close>

fun wait_for_refresh :: "int list \<Rightarrow> (int \<Rightarrow> real) \<Rightarrow> store list \<Rightarrow> store \<Rightarrow> bool" where
  "wait_for_refresh sgs base [] at_end = snapshot_advanced sgs base at_end"
| "wait_for_refresh sgs base (s # seen) at_end =
     (if snapshot_advanced sgs base s then True else wait_for_refresh sgs base seen at_end)"

fun request_each ::
  "sgw_settings \<Rightarrow> request_mode \<Rightarrow> real \<Rightarrow> int list \<Rightarrow> bool \<Rightarrow> string list \<Rightarrow> sgw_manager \<Rightarrow>
   (bool \<times> string list) \<times> sgw_manager" where
  "request_each cfg mode now [] applied reasons m = ((applied, reasons), m)"
| "request_each cfg mode now (sg # sgs) applied reasons m =
     (let ((accepted, reason), m') = request_refresh cfg sg mode now m
      in request_each cfg mode now sgs (applied \<or> accepted)
           (if reason \<noteq> '''' \<and> reason \<notin> set reasons \<and> length reasons < 3 then reasons @ [reason] else reasons) m')"

definition join_semicolon :: "string list \<Rightarrow> string" where
  "join_semicolon xs = (case xs of [] \<Rightarrow> '''' | x # ys \<Rightarrow> x @ concat (map (\<lambda>y. ''; '' @ y) ys))"

definition request_refreshes ::
  "sgw_settings \<Rightarrow> int list \<Rightarrow> request_mode \<Rightarrow> real \<Rightarrow> runtime \<Rightarrow> (bool \<times> string) \<times> runtime" where
  "request_refreshes cfg sgs mode now rt =
     (case rt_manager rt of
        None \<Rightarrow> ((False, ''''), rt)
      | Some m \<Rightarrow>
          if mode = RequestNone then ((False, ''''), rt)
          else (let ((applied, reasons), m') = request_each cfg mode now sgs False [] m
                in ((applied, join_semicolon reasons), rt\<lparr>rt_manager := Some m'\<rparr>)))"

section \<open>The modem endpoint\<close>

record refresh_report =
  crr_requested :: bool
  crr_mode :: request_mode
  crr_applied :: bool
  crr_wait :: bool
  crr_advanced :: bool
  crr_timeout :: int
  crr_message :: string

definition default_report :: refresh_report where
  "default_report = \<lparr>crr_requested = False, crr_mode = RequestNone, crr_applied = False, crr_wait = False,
     crr_advanced = False, crr_timeout = 8, crr_message = ''''\<rparr>"

record modems_request =
  mq_sgs :: "int list"
  mq_mode :: request_mode
  mq_wait :: bool
  mq_timeout :: int

definition normalize_wait :: "modems_request \<Rightarrow> modems_request" where
  "normalize_wait rq = (if mq_mode rq = RequestNone then rq\<lparr>mq_wait := False\<rparr> else rq)"

definition validate_modems_request :: "modems_request \<Rightarrow> modems_request result" where
  "validate_modems_request rq =
     (case validate_sg_filter (mq_sgs rq) of
        Inl x \<Rightarrow> Inl x
      | Inr _ \<Rightarrow>
          if mq_timeout rq < 1 \<or> 30 < mq_timeout rq then Inl (ValueError ''timeout_seconds'')
          else if \<exists>sg\<in>set (mq_sgs rq). sg \<le> 0 then Inl (ValueError ''serving_group.id must be greater than zero.'')
          else Inr (normalize_wait rq))"

definition validate_topology_request :: "int list \<Rightarrow> int list result" where
  "validate_topology_request sgs =
     (case validate_sg_filter sgs of
        Inl x \<Rightarrow> Inl x
      | Inr _ \<Rightarrow>
          if 1 < length sgs then Inl (ValueError ''topology requests allow at most one serving_group.id.'')
          else if \<exists>sg\<in>set sgs. sg \<le> 0
          then Inl (ValueError ''serving_group.id must be greater than zero for topology requests.'')
          else Inr sgs)"

record cache_view =
  cv_start :: store
  cv_seen :: "store list"
  cv_end :: store
  cv_answer :: store
  cv_request_time :: real
  cv_answer_time :: real
  cv_stamp :: int

record modems_response =
  cmr_status :: status_code
  cmr_message :: string
  cmr_time :: int
  cmr_requested :: "int list"
  cmr_resolved :: "int list"
  cmr_missing :: "int list"
  cmr_refresh :: refresh_report
  cmr_groups :: "modem_group list"

definition modems_failure :: "int \<Rightarrow> string \<Rightarrow> modems_response" where
  "modems_failure stamp msg =
     \<lparr>cmr_status = StatusFailure, cmr_message = msg, cmr_time = stamp, cmr_requested = [], cmr_resolved = [],
      cmr_missing = [], cmr_refresh = default_report, cmr_groups = []\<rparr>"

text \<open>The gate every endpoint of the cache has; \<open>None\<close> lets the request pass.\<close>

definition startup_gate :: "runtime \<Rightarrow> string option" where
  "startup_gate rt =
     (let st = rt_status rt
      in if \<not> ss_completed st then Some ''sgw startup not completed''
         else if \<not> ss_discovery_ok st \<or> ss_prime_failed st
         then Some (if ss_error st \<noteq> '''' then ss_error st else ''sgw startup failed'')
         else if rt_store rt = None then Some ''sgw store not available'' else None)"

definition resolve_sg_scope :: "int list \<Rightarrow> int list \<Rightarrow> int list \<times> int list" where
  "resolve_sg_scope requested discovered =
     (if requested = [] then (discovered, [])
      else (filter (\<lambda>sg. sg \<in> set discovered) requested, filter (\<lambda>sg. sg \<notin> set discovered) requested))"

text \<open>The refresh part of the endpoint.\<close>

definition refresh_on_request ::
  "sgw_settings \<Rightarrow> cache_view \<Rightarrow> modems_request \<Rightarrow> int list \<Rightarrow> runtime \<Rightarrow> refresh_report \<times> runtime" where
  "refresh_on_request cfg v rq resolved rt =
     (let requested = (mq_mode rq \<noteq> RequestNone);
          base = snapshot_baseline (if requested \<and> mq_wait rq then resolved else []) (cv_start v);
          ((applied, msg), rt') =
            (if requested \<and> resolved \<noteq> [] then request_refreshes cfg resolved (mq_mode rq) (cv_request_time v) rt
             else ((False, ''''), rt));
          advanced = (requested \<and> resolved \<noteq> [] \<and> mq_wait rq \<and> applied \<and>
                      wait_for_refresh resolved base (cv_seen v) (cv_end v));
          msg' = (if requested \<and> resolved \<noteq> [] \<and> mq_wait rq \<and> msg = '''' then
                    (if applied then (if advanced then '''' else ''refresh wait timeout; returning cached snapshot'')
                     else ''refresh request not applied'')
                  else msg)
      in (\<lparr>crr_requested = requested, crr_mode = mq_mode rq, crr_applied = applied, crr_wait = mq_wait rq,
           crr_advanced = advanced, crr_timeout = mq_timeout rq, crr_message = msg'\<rparr>, rt'))"

definition get_cable_modems ::
  "(string \<Rightarrow> string option) \<Rightarrow> sgw_settings \<Rightarrow> cache_view \<Rightarrow> modems_request \<Rightarrow> runtime \<Rightarrow> modems_response \<times> runtime" where
  "get_cable_modems hex cfg v rq rt =
     (case startup_gate rt of
        Some msg \<Rightarrow> (modems_failure (cv_stamp v) msg, rt)
      | None \<Rightarrow>
          (let (resolved, missing) = resolve_sg_scope (mq_sgs rq) (ss_groups (rt_status rt));
               (report, rt') = refresh_on_request cfg v rq resolved rt
           in if resolved = []
              then (\<lparr>cmr_status = (if mq_sgs rq = [] then StatusSuccess else StatusFailure),
                     cmr_message = (if mq_sgs rq = [] then ''no discovered service groups''
                                    else ''sg_id not found: '' @ int_str (hd (mq_sgs rq))),
                     cmr_time = cv_stamp v, cmr_requested = mq_sgs rq, cmr_resolved = [], cmr_missing = mq_sgs rq,
                     cmr_refresh = report, cmr_groups = []\<rparr>, rt')
              else (\<lparr>cmr_status = StatusSuccess, cmr_message = '''', cmr_time = cv_stamp v, cmr_requested = mq_sgs rq,
                     cmr_resolved = sort resolved, cmr_missing = missing, cmr_refresh = report,
                     cmr_groups = map (\<lambda>sg. build_modem_group hex sg (cv_answer v) (cv_answer_time v) 1 100) (sort resolved)\<rparr>,
                    rt')))"

section \<open>The topology endpoint\<close>

definition resolve_rf_channels :: "rf_channel list \<Rightarrow> int list \<Rightarrow> rf_channel list" where
  "resolve_rf_channels chs fallback =
     (if chs \<noteq> [] then sort_key (\<lambda>c. (rf_id c, kind_rank (rf_kind c))) chs
      else map (\<lambda>c. sc_qam_channel c None None) (filter (\<lambda>c. 0 < c) fallback))"

definition channel_set_counts :: "(cable_modem \<Rightarrow> int) \<Rightarrow> cable_modem list \<Rightarrow> (int \<times> int) list" where
  "channel_set_counts sel ms =
     (let ids = filter (\<lambda>i. 0 < i) (map sel ms)
      in map (\<lambda>i. (i, int (length (filter (\<lambda>j. j = i) ids)))) (sorted_unique ids))"

definition channel_counts :: "rf_channel list \<Rightarrow> int \<Rightarrow> (int \<times> int) list \<Rightarrow> (int \<times> int) list" where
  "channel_counts chs cset counts =
     (let n = (case map_of (rev counts) cset of None \<Rightarrow> 0 | Some k \<Rightarrow> k) in map (\<lambda>c. (rf_id c, n)) chs)"

definition filter_channels :: "rf_type \<Rightarrow> rf_channel list \<Rightarrow> rf_channel list" where
  "filter_channels k chs = filter (\<lambda>c. rf_kind c = k) chs"

record direction_channels =
  dc_sc_qam :: "rf_channel list"
  dc_ofdm :: "rf_channel list"
  dc_counts :: "(int \<times> int) list"
  dc_set_counts :: "(int \<times> int) list"

record topology_group =
  ctg_sg :: int
  ctg_ds_set :: int
  ctg_us_set :: int
  ctg_ds :: direction_channels
  ctg_us :: direction_channels
  ctg_modem_count :: int
  ctg_success :: int
  ctg_failure :: int
  ctg_modems :: "string \<rightharpoonup> string"
  ctg_metadata :: cache_metadata

definition no_channels :: direction_channels where
  "no_channels = \<lparr>dc_sc_qam = [], dc_ofdm = [], dc_counts = [], dc_set_counts = []\<rparr>"

fun topology_modems :: "cable_modem list \<Rightarrow> int \<times> int \<times> (string \<rightharpoonup> string) \<Rightarrow> int \<times> int \<times> (string \<rightharpoonup> string)" where
  "topology_modems [] acc = acc"
| "topology_modems (m # ms) (ok, bad, d) =
     topology_modems ms (if cm_sysdescr m = '''' then (ok, bad + 1, d(cm_mac m \<mapsto> cm_sysdescr m))
                         else (ok + 1, bad, d(cm_mac m \<mapsto> cm_sysdescr m)))"

definition direction :: "rf_type \<Rightarrow> rf_channel list \<Rightarrow> int \<Rightarrow> (int \<times> int) list \<Rightarrow> direction_channels" where
  "direction k chs cset counts =
     \<lparr>dc_sc_qam = filter_channels ScQam chs, dc_ofdm = filter_channels k chs, dc_counts = channel_counts chs cset counts,
      dc_set_counts = counts\<rparr>"

definition build_topology_group :: "int \<Rightarrow> store \<Rightarrow> real \<Rightarrow> topology_group" where
  "build_topology_group sg s now =
     (case s sg of
        None \<Rightarrow> \<lparr>ctg_sg = sg, ctg_ds_set = 0, ctg_us_set = 0, ctg_ds = no_channels, ctg_us = no_channels,
                 ctg_modem_count = 0, ctg_success = 0, ctg_failure = 0, ctg_modems = Map.empty,
                 ctg_metadata = error_metadata (snapshot_missing sg)\<rparr>
      | Some e \<Rightarrow>
          (let p = sn_payload (ce_snapshot e); ms = sort_modems (pl_modems p);
               (ok, bad, d) = topology_modems ms (0, 0, Map.empty);
               ds = resolve_rf_channels (pl_ds_rf p) (ch_ids (pl_ds p));
               us = resolve_rf_channels (pl_us_rf p) (ch_ids (pl_us p))
           in \<lparr>ctg_sg = sg, ctg_ds_set = pl_ds_set p, ctg_us_set = pl_us_set p,
               ctg_ds = direction Ofdm ds (pl_ds_set p) (channel_set_counts cm_ds_set ms),
               ctg_us = direction Ofdma us (pl_us_set p) (channel_set_counts cm_us_set ms),
               ctg_modem_count = int (length ms), ctg_success = ok, ctg_failure = bad, ctg_modems = d,
               ctg_metadata = resolve_metadata sg (Some s) now\<rparr>))"

record topology_response =
  ctr_status :: status_code
  ctr_message :: string
  ctr_time :: int
  ctr_requested :: "int list"
  ctr_resolved :: "int list"
  ctr_missing :: "int list"
  ctr_groups :: "topology_group list"

definition get_topology :: "store \<Rightarrow> real \<Rightarrow> int \<Rightarrow> int list \<Rightarrow> runtime \<Rightarrow> topology_response" where
  "get_topology s now stamp requested rt =
     (case startup_gate rt of
        Some msg \<Rightarrow> \<lparr>ctr_status = StatusFailure, ctr_message = msg, ctr_time = stamp, ctr_requested = [], ctr_resolved = [],
                     ctr_missing = [], ctr_groups = []\<rparr>
      | None \<Rightarrow>
          (let (resolved, missing) = resolve_sg_scope requested (ss_groups (rt_status rt))
           in if resolved = []
              then \<lparr>ctr_status = (if requested = [] then StatusSuccess else StatusFailure),
                    ctr_message = (if requested = [] then ''no discovered service groups''
                                   else ''sg_id not found: '' @ int_str (hd requested)),
                    ctr_time = stamp, ctr_requested = requested, ctr_resolved = [], ctr_missing = requested, ctr_groups = []\<rparr>
              else \<lparr>ctr_status = StatusSuccess, ctr_message = '''', ctr_time = stamp, ctr_requested = requested,
                    ctr_resolved = sort resolved, ctr_missing = missing,
                    ctr_groups = map (\<lambda>sg. build_topology_group sg s now) (sort resolved)\<rparr>))"

section \<open>Lemmas\<close>

lemma sort_key_Nil [simp]: "sort_key f xs = [] \<longleftrightarrow> xs = []"
  by (metis length_0_conv length_sort)

lemma take_pages: "concat (map (\<lambda>p. take k (drop (p * k) xs)) [0..<n]) = take (n * k) xs"
proof (induction n)
  case (Suc n)
  then show ?case by (simp add: take_add [symmetric] add.commute)
qed simp

lemma paginate_nat:
  assumes "0 < psize"
  shows "paginate_modems ms (int p + 1) psize = take (nat psize) (drop (p * nat psize) ms)"
proof -
  have "nat (int p * psize) = p * nat psize" using assms by (simp add: nat_mult_distrib)
  moreover from this assms have "int (length ms) \<le> int p * psize \<longleftrightarrow> length ms \<le> p * nat psize"
    by (metis int_nat_eq nat_int nat_le_iff of_nat_0_le_iff of_nat_mult order_less_le zero_le_mult_iff)
  ultimately show ?thesis by (simp add: paginate_modems_def)
qed

lemma total_pages_covers:
  assumes "0 < psize"
  shows "length xs \<le> nat (total_pages (int (length xs)) psize) * nat psize"
proof (cases "xs = []")
  case False
  let ?n = "int (length xs)" and ?q = "(int (length xs) + psize - 1) div psize"
  have "?n + psize - 1 - psize < ?q * psize"
    using assms by (metis add.commute div_mod_decomp_int pos_mod_bound diff_less_eq add_less_cancel_left)
  then have "?n \<le> ?q * psize" by simp
  moreover have "0 \<le> ?q" using assms by (simp add: pos_imp_zdiv_nonneg_iff)
  ultimately have "nat ?n \<le> nat ?q * nat psize"
    using assms by (metis nat_le_eq_zle nat_mult_distrib of_nat_0_le_iff order.trans)
  with False show ?thesis by (simp add: total_pages_def)
qed simp

lemma topology_modems_counts:
  "topology_modems ms (ok, bad, d) =
     (ok + int (length (filter (\<lambda>m. cm_sysdescr m \<noteq> '''') ms)), bad + int (length (filter (\<lambda>m. cm_sysdescr m = '''') ms)),
      d ++ map_of (rev (map (\<lambda>m. (cm_mac m, cm_sysdescr m)) ms)))"
  by (induction ms arbitrary: ok bad d) (auto simp: map_add_def fun_eq_iff split: option.splits)

lemma sum_counts: "sum_list (map (\<lambda>i. length (filter (\<lambda>j. j = i) ids)) (sorted_unique ids)) = length (ids :: int list)"
proof -
  have "sum_list (map (\<lambda>i. length (filter (\<lambda>j. j = i) ids)) (sorted_unique ids)) =
      (\<Sum>i\<in>set ids. count_list ids i)"
    by (simp add: sorted_unique_def sum_list_distinct_conv_sum_set count_list_eq_length_filter eq_commute)
  also have "\<dots> = length ids" by (rule sum_count_set) simp_all
  finally show ?thesis .
qed

lemma int_sum_list: "int (sum_list xs) = sum_list (map int xs)"
  by (induction xs) simp_all

lemma channel_set_counts_total:
  "sum_list (map snd (channel_set_counts sel ms)) = int (length (filter (\<lambda>m. 0 < sel m) ms))"
proof -
  let ?ids = "filter (\<lambda>i. 0 < i) (map sel ms)"
  have "sum_list (map snd (channel_set_counts sel ms)) =
      int (sum_list (map (\<lambda>i. length (filter (\<lambda>j. j = i) ?ids)) (sorted_unique ?ids)))"
    by (simp add: channel_set_counts_def Let_def comp_def int_sum_list)
  also have "\<dots> = int (length ?ids)" by (simp only: sum_counts)
  also have "\<dots> = int (length (filter (\<lambda>m. 0 < sel m) ms))" by (simp add: filter_map comp_def)
  finally show ?thesis .
qed

lemma channel_set_ids:
  "map fst (channel_set_counts sel ms) = sorted_unique (filter (\<lambda>i. 0 < i) (map sel ms))"
  by (simp add: channel_set_counts_def Let_def comp_def)

lemma channel_set_count_of:
  assumes "0 < i"
  shows "(case map_of (rev (channel_set_counts sel ms)) i of None \<Rightarrow> 0 | Some k \<Rightarrow> k) = int (length (filter (\<lambda>m. sel m = i) ms))"
proof -
  let ?ids = "filter (\<lambda>i. 0 < i) (map sel ms)"
  have n: "length (filter (\<lambda>j. j = i) ?ids) = length (filter (\<lambda>m. sel m = i) ms)"
    using assms by (simp add: filter_map comp_def conj_commute) (metis (mono_tags, lifting) filter_cong)
  have "map_of (rev (channel_set_counts sel ms)) i =
      (if i \<in> set ?ids then Some (int (length (filter (\<lambda>j. j = i) ?ids))) else None)"
    by (simp add: channel_set_counts_def Let_def rev_map map_of_map_restrict sorted_unique_def restrict_map_def)
  moreover have "length (filter (\<lambda>j. j = i) ?ids) = 0" if "i \<notin> set ?ids"
    using that by (auto simp: filter_empty_conv)
  ultimately show ?thesis unfolding n [symmetric] by simp
qed

section \<open>Properties\<close>

text \<open>The pages of a group are a partition of its modems: as many pages as the group reports, one after
  the other, give back the list, whatever the page size.
\<close>

theorem pages_partition:
  assumes "0 < psize"
  shows "concat (map (\<lambda>p. paginate_modems ms (int p + 1) psize) [0..<nat (total_pages (int (length ms)) psize)]) = ms"
  unfolding paginate_nat [OF assms] take_pages using total_pages_covers [OF assms] by simp

lemma pages_partition_witness:
  "concat (map (\<lambda>p. paginate_modems [a, b, c] (int p + 1) 2) [0..<2]) = [a, b, c]"
  using pages_partition [of 2 "[a, b, c]"] by (simp add: total_pages_def)

text \<open>A request is answered over its scope: the requested groups (all discovered ones without a request)
  are split into the resolved and the missing ones, there is one entry for each resolved group in ascending
  order, and the request fails exactly if it names groups and none of them is known.
\<close>

theorem modems_response_scope:
  assumes "startup_gate rt = None"
  shows "let r = fst (get_cable_modems hex cfg v rq rt); known = ss_groups (rt_status rt);
             scope = (if mq_sgs rq = [] then known else mq_sgs rq)
         in set scope = set (cmr_resolved r) \<union> set (cmr_missing r) \<and> set (cmr_resolved r) = set scope \<inter> set known \<and>
            set (cmr_missing r) = set scope - set known \<and> sorted (cmr_resolved r) \<and>
            map cmg_sg (cmr_groups r) = cmr_resolved r \<and>
            (cmr_status r = StatusFailure \<longleftrightarrow> mq_sgs rq \<noteq> [] \<and> cmr_resolved r = [])"
proof -
  obtain resolved missing where sc: "resolve_sg_scope (mq_sgs rq) (ss_groups (rt_status rt)) = (resolved, missing)" by fastforce
  obtain report rt' where rep: "refresh_on_request cfg v rq resolved rt = (report, rt')" by fastforce
  have groups: "map cmg_sg (map (\<lambda>sg. build_modem_group hex sg s now 1 100) sgs) = sgs" for s now sgs
    by (induction sgs) (auto simp: build_modem_group_def Let_def split: option.split)
  show ?thesis
  proof (cases "resolved = []")
    case True
    with sc rep assms show ?thesis
      by (auto simp: get_cable_modems_def resolve_sg_scope_def Let_def filter_empty_conv split: if_splits)
  next
    case False
    with sc rep assms groups show ?thesis
      by (auto simp: get_cable_modems_def resolve_sg_scope_def Let_def simp del: map_map split: if_splits)
  qed
qed

text \<open>Of every group the answer holds the modems in order up to the hundredth and no others, with the number
  of all of them and of the pages they would fill; no field of the request asks for another page, so the
  modems after the hundredth cannot be read.
\<close>

theorem only_first_page_served:
  assumes "g \<in> set (cmr_groups (fst (get_cable_modems hex cfg v rq rt)))" "cv_answer v (cmg_sg g) = Some e"
  shows "map cme_mac (cmg_items g) = map cm_mac (take 100 (sort_modems (pl_modems (sn_payload (ce_snapshot e))))) \<and>
    cmg_page g = 1 \<and> cmg_total g = int (length (pl_modems (sn_payload (ce_snapshot e)))) \<and>
    (1 < cmg_pages g \<longleftrightarrow> length (cmg_items g) < length (pl_modems (sn_payload (ce_snapshot e))))"
proof -
  obtain sg where "g = build_modem_group hex sg (cv_answer v) (cv_answer_time v) 1 100"
    using assms(1) by (auto simp: get_cable_modems_def modems_failure_def Let_def split: option.splits prod.splits if_splits)
  with assms(2) have g: "g = build_modem_group hex (cmg_sg g) (cv_answer v) (cv_answer_time v) 1 100"
    by (auto simp: build_modem_group_def Let_def split: option.splits)
  show ?thesis
    by (subst (1 2 3 4 5) g) (auto simp: build_modem_group_def assms(2) paginate_modems_def total_pages_def sort_modems_def
        build_modem_entry_def Let_def comp_def take_map)
qed

text \<open>The counts of a topology group agree: successes and failures add up to the modems, the counts of the
  channel sets of a direction add up to the modems that name one, each channel is counted with the modems of
  the group's own channel set, and the dictionary of modems has as many entries as the count says exactly if
  no two modems share a MAC address.
\<close>

theorem topology_counts:
  assumes "s sg = Some e" "ms = pl_modems (sn_payload (ce_snapshot e))" "g = build_topology_group sg s now"
    and "0 < ctg_ds_set g"
  shows "ctg_success g + ctg_failure g = ctg_modem_count g \<and> ctg_modem_count g = int (length ms) \<and>
    sum_list (map snd (dc_set_counts (ctg_ds g))) = int (length (filter (\<lambda>m. 0 < cm_ds_set m) ms)) \<and>
    (\<forall>(c, n)\<in>set (dc_counts (ctg_ds g)). n = int (length (filter (\<lambda>m. cm_ds_set m = ctg_ds_set g) ms))) \<and>
    dom (ctg_modems g) = cm_mac ` set ms \<and>
    (int (card (dom (ctg_modems g))) = ctg_modem_count g \<longleftrightarrow> distinct (map cm_mac ms))"
proof -
  let ?o = "sort_modems ms"
  have mset: "mset ?o = mset ms" "set ?o = set ms" "length ?o = length ms" by (simp_all add: sort_modems_def)
  have len: "length (filter P ?o) = length (filter P ms)" for P
    by (metis mset(1) mset_filter size_mset)
  obtain ok bad d where tm: "topology_modems ?o (0, 0, Map.empty) = (ok, bad, d)" by (metis prod_cases3)
  have ok: "ok + bad = int (length ms)"
    using tm sum_length_filter_compl [of "\<lambda>m. cm_sysdescr m = []" ms] by (auto simp: topology_modems_counts len)
  have "d = map_of (rev (map (\<lambda>m. (cm_mac m, cm_sysdescr m)) ?o))" using tm by (simp add: topology_modems_counts)
  then have d: "dom d = cm_mac ` set ms" by (simp add: dom_map_of_conv_image_fst image_image mset(2))
  have g: "ctg_success g = ok" "ctg_failure g = bad" "ctg_modem_count g = int (length ms)" "ctg_modems g = d"
    "dc_set_counts (ctg_ds g) = channel_set_counts cm_ds_set ?o" "ctg_ds_set g = pl_ds_set (sn_payload (ce_snapshot e))"
    "dc_counts (ctg_ds g) = channel_counts (resolve_rf_channels (pl_ds_rf (sn_payload (ce_snapshot e)))
       (ch_ids (pl_ds (sn_payload (ce_snapshot e))))) (ctg_ds_set g) (channel_set_counts cm_ds_set ?o)"
    using assms(1) tm by (simp_all add: assms(2,3) build_topology_group_def direction_def Let_def sort_modems_def)
  have "card (cm_mac ` set ms) = length ms \<longleftrightarrow> distinct (map cm_mac ms)"
    by (metis card_distinct distinct_card length_map set_map)
  with ok d show ?thesis
    using channel_set_count_of [OF assms(4), of cm_ds_set ?o]
    by (auto simp: g channel_set_counts_total len channel_counts_def Let_def)
qed

text \<open>A heavy refresh that fails counts as an advance of the snapshot: after the cycle that served the
  request a waiting client is told that the cache advanced, although the entry holds the payload it had
  and the poller's error.
\<close>

theorem failed_refresh_counts_as_advance:
  assumes "refresh_sg cfg po now sg m = (o1, m')" "sm_store m sg = Some e" "sm_requests m sg = Some RequestHeavy"
    and "po_heavy po sg = Inl x" "md_snapshot (entry_metadata e) < now" "0 < now" "ce_sg e = sg"
  shows "wait_for_refresh [sg] (snapshot_baseline [sg] (sm_store m)) [sm_store m'] s \<and>
    (\<exists>e'. sm_store m' sg = Some e' \<and> sn_payload (ce_snapshot e') = sn_payload (ce_snapshot e) \<and>
       md_state (entry_metadata e') = StateError \<and> md_heavy (entry_metadata e') = md_heavy (entry_metadata e))"
proof -
  obtain jit js where j: "resolve_jitter cfg (po_jitter po) sg (sm_jitter m) = (jit, js)" by fastforce
  define e1 where "e1 = with_metadata (fst (store_mark_error sg (normalize_error x) now (sm_store m))) e"
  obtain stale e' where a: "age_entry cfg now e1 = (stale, e')" by fastforce
  have e1: "snd (store_mark_error sg (normalize_error x) now (sm_store m)) = (sm_store m)(sg \<mapsto> e1)"
    "md_snapshot (entry_metadata e1) = now" "md_state (entry_metadata e1) = StateError"
    "md_heavy (entry_metadata e1) = md_heavy (entry_metadata e)"
    "sn_payload (ce_snapshot e1) = sn_payload (ce_snapshot e)" "ce_sg e1 = sg"
    using assms(2,7) by (simp_all add: e1_def store_mark_error_def Let_def)
  have "ce_sg e' = sg" using a e1(6) by (auto simp: age_entry_def Let_def)
  then have m': "sm_store m' = (sm_store m)(sg \<mapsto> e')"
    using assms(1-4) a unfolding refresh_sg_def
    by (auto simp: ensure_entry_def j choose_mode_def poll_and_store_def e1(1) store_upsert_def Let_def)
  note age = age_entry_spec [OF a]
  from age(2,4,6,9) e1 m' assms(2,5,6) show ?thesis
    by (auto simp: snapshot_advanced_def snapshot_baseline_def)
qed

section \<open>Examples\<close>

definition lab_modem :: cable_modem where
  "lab_modem = \<lparr>cm_mac = ''aa'', cm_ipv4 = ''10.0.0.2'', cm_ipv6 = '''', cm_ds_set = 7, cm_us_set = 0, cm_status = 8,
     cm_sysdescr = ''x''\<rparr>"

definition lab_entry :: "cable_modem list \<Rightarrow> cache_entry" where
  "lab_entry ms = (new_entry 4 default_metadata)\<lparr>ce_snapshot :=
     \<lparr>sn_sg = 4, sn_payload = empty_payload\<lparr>pl_ds_set := 7, pl_modems := ms\<rparr>, sn_metadata = default_metadata\<rparr>\<rparr>"

definition lab_runtime :: runtime where
  "lab_runtime = \<lparr>rt_status = initial_status\<lparr>ss_completed := True, ss_discovery_ok := True, ss_groups := [2, 4]\<rparr>,
     rt_store = Some Map.empty, rt_manager = None, rt_running = False\<rparr>"

definition lab_view :: "cable_modem list \<Rightarrow> cache_view" where
  "lab_view ms = \<lparr>cv_start = Map.empty, cv_seen = [], cv_end = Map.empty, cv_answer = [4 \<mapsto> lab_entry ms],
     cv_request_time = 1, cv_answer_time = 2, cv_stamp = 2\<rparr>"

definition lab_request :: modems_request where
  "lab_request = \<lparr>mq_sgs = [4, 9], mq_mode = RequestNone, mq_wait = False, mq_timeout = 8\<rparr>"

lemma lab_gate: "startup_gate lab_runtime = None" "ss_groups (rt_status lab_runtime) = [2, 4]"
  by (simp_all add: startup_gate_def lab_runtime_def initial_status_def)

lemma modems_response_scope_witness:
  "set (cmr_missing (fst (get_cable_modems Some demo_cfg (lab_view []) lab_request lab_runtime))) = {9} \<and>
   set (cmr_resolved (fst (get_cable_modems Some demo_cfg (lab_view []) lab_request lab_runtime))) = {4}"
  using modems_response_scope [OF lab_gate(1), of Some demo_cfg "lab_view []" lab_request]
  by (auto simp: Let_def lab_gate lab_request_def)

lemma lab_groups_answered:
  "cmr_groups (fst (get_cable_modems Some demo_cfg (lab_view ms) lab_request lab_runtime)) =
     [build_modem_group Some 4 [4 \<mapsto> lab_entry ms] 2 1 100]"
  by (simp add: get_cable_modems_def lab_gate resolve_sg_scope_def lab_request_def lab_view_def split: prod.split)

lemma only_first_page_served_witness:
  "\<exists>g. cmr_groups (fst (get_cable_modems Some demo_cfg (lab_view (replicate 101 lab_modem)) lab_request lab_runtime)) = [g] \<and>
     cmg_total g = 101 \<and> length (cmg_items g) = 100"
proof -
  let ?g = "build_modem_group Some 4 [4 \<mapsto> lab_entry (replicate 101 lab_modem)] 2 1 100"
  have sg: "cmg_sg ?g = 4" by (simp add: build_modem_group_def Let_def)
  have ms: "pl_modems (sn_payload (ce_snapshot (lab_entry ms))) = ms" for ms by (simp add: lab_entry_def)
  have g: "?g \<in> set (cmr_groups (fst (get_cable_modems Some demo_cfg (lab_view (replicate 101 lab_modem)) lab_request lab_runtime)))"
    by (simp only: lab_groups_answered list.set) simp
  have e: "cv_answer (lab_view (replicate 101 lab_modem)) (cmg_sg ?g) = Some (lab_entry (replicate 101 lab_modem))"
    unfolding sg by (simp add: lab_view_def)
  note t = only_first_page_served [OF g e, unfolded ms]
  have "length (cmg_items ?g) = length (map cm_mac (take 100 (sort_modems (replicate 101 lab_modem))))"
    by (metis t [THEN conjunct1] length_map)
  then have "length (cmg_items ?g) = 100" by (simp add: sort_modems_def)
  then show ?thesis using t lab_groups_answered [of "replicate 101 lab_modem"] by (intro exI [of _ ?g]) simp
qed

lemma topology_counts_witness:
  "ctg_success (build_topology_group 4 [4 \<mapsto> lab_entry [lab_modem, lab_modem]] 2) +
     ctg_failure (build_topology_group 4 [4 \<mapsto> lab_entry [lab_modem, lab_modem]] 2) = 2"
  using topology_counts [of "[4 \<mapsto> lab_entry [lab_modem, lab_modem]]" 4 "lab_entry [lab_modem, lab_modem]" _ _ 2, OF _ refl refl]
  by (simp add: build_topology_group_def lab_entry_def Let_def split: prod.splits)

lemma failed_refresh_counts_as_advance_witness:
  "\<exists>m'. snd (refresh_sg demo_cfg demo_pollers 100 4
       (demo_manager\<lparr>sm_store := [4 \<mapsto> lab_entry []], sm_requests := [4 \<mapsto> RequestHeavy]\<rparr>)) = m' \<and>
     wait_for_refresh [4] (snapshot_baseline [4] [4 \<mapsto> lab_entry []]) [sm_store m'] Map.empty"
proof -
  let ?m = "demo_manager\<lparr>sm_store := [4 \<mapsto> lab_entry []], sm_requests := [4 \<mapsto> RequestHeavy]\<rparr>"
  obtain o1 m' where r: "refresh_sg demo_cfg demo_pollers 100 4 ?m = (o1, m')" by fastforce
  have e: "md_snapshot (entry_metadata (lab_entry [])) < 100" "ce_sg (lab_entry []) = 4"
    by (simp_all add: lab_entry_def entry_metadata_def default_metadata_def new_entry_def)
  have p: "po_heavy demo_pollers 4 = Inl ''''" by (simp add: demo_pollers_def)
  from failed_refresh_counts_as_advance [OF r _ _ p e(1) _ e(2), of Map.empty] r show ?thesis
    by (auto split: if_splits)
qed

end
