(* ===== verification/ModemOperations.thy ===== *)
theory ModemOperations
  imports CacheService Scope
begin

text \<open>
  The modem operations of a serving group, \<open>api/routes/serving_group/cm/operations/service.py\<close>: a reset
  with its verification by ping, and the collection of system descriptions.  What the modems answer is a
  parameter, a function of the MAC address, the address and, for pings, the number of the attempt.
\<close>

section \<open>The modems\<close>

text \<open>\<open>me_reset\<close> is \<open>Inl\<close> of the text of an exception or the value of the set; \<open>me_ping\<close> is \<open>None\<close> where the
  modem's own ping raises and then \<open>me_ping_raw\<close> counts; \<open>me_sysdescr\<close> is \<open>None\<close> where the query raises.\<close>

record modem_env =
  me_hex :: "string \<Rightarrow> string option"
  me_inet :: "string \<Rightarrow> string option"
  me_reset :: "string \<Rightarrow> string \<Rightarrow> string \<Rightarrow> string + bool"
  me_ping :: "string \<Rightarrow> string \<Rightarrow> string \<Rightarrow> nat \<Rightarrow> bool option"
  me_ping_raw :: "string \<Rightarrow> nat \<Rightarrow> bool"
  me_sysdescr :: "string \<Rightarrow> string \<Rightarrow> string \<Rightarrow> string option"
  me_reset_failed :: status_code
  me_ping_failed :: status_code

definition normalize_modem_ip :: "modem_env \<Rightarrow> cable_modem \<Rightarrow> string option" where
  "normalize_modem_ip me m = (case select_ip (me_hex me) m of None \<Rightarrow> None | Some ip \<Rightarrow> me_inet me ip)"

definition modem_selected :: "string list \<Rightarrow> cable_modem \<Rightarrow> bool" where
  "modem_selected selected m \<longleftrightarrow> selected = [] \<or> cm_mac m \<in> set selected"

definition resolve_scoped_modems ::
  "modem_env \<Rightarrow> store \<Rightarrow> int list \<Rightarrow> string list \<Rightarrow> (int \<times> string \<times> string option) list" where
  "resolve_scoped_modems me s sgs macs =
     concat (map (\<lambda>sg. case s sg of
         None \<Rightarrow> []
       | Some e \<Rightarrow> map (\<lambda>m. (sg, cm_mac m, normalize_modem_ip me m))
                     (filter (modem_selected macs) (sort_modems (pl_modems (sn_payload (ce_snapshot e)))))) sgs)"

definition missing_macs :: "string list \<Rightarrow> string list \<Rightarrow> string list" where
  "missing_macs requested resolved =
     (if requested = [] then [] else filter (\<lambda>m. m \<notin> set resolved) requested)"

definition reset_community :: "modem_filter \<Rightarrow> string \<Rightarrow> string" where
  "reset_community m configured = (case write_community m of Some c \<Rightarrow> c | None \<Rightarrow> configured)"

section \<open>Reset\<close>

record reset_modem =
  rsm_ip :: "string option"
  rsm_status :: status_code
  rsm_message :: string
  rsm_attempts :: int
  rsm_reachable :: "bool option"

definition send_reset :: "modem_env \<Rightarrow> string \<Rightarrow> string \<Rightarrow> string \<Rightarrow> status_code \<times> string" where
  "send_reset me mac ip community =
     (case me_reset me mac ip community of
        Inl x \<Rightarrow> (StatusFailure, ''docsDevResetNow exception: '' @ x)
      | Inr False \<Rightarrow> (me_reset_failed me, ''docsDevResetNow returned false'')
      | Inr True \<Rightarrow> (StatusSuccess, ''docsDevResetNow command sent''))"

definition is_ping_reachable :: "modem_env \<Rightarrow> string \<Rightarrow> string \<Rightarrow> string \<Rightarrow> nat \<Rightarrow> bool" where
  "is_ping_reachable me mac ip community attempt =
     (case me_ping me mac ip community attempt of Some b \<Rightarrow> b | None \<Rightarrow> me_ping_raw me ip attempt)"

definition ping_attempts :: nat where "ping_attempts = 5"

fun verify_ping :: "(nat \<Rightarrow> bool) \<Rightarrow> nat list \<Rightarrow> nat option" where
  "verify_ping reachable [] = None"
| "verify_ping reachable (a # as) = (if \<not> reachable a then Some a else verify_ping reachable as)"

definition verify_reset :: "modem_env \<Rightarrow> string \<Rightarrow> string \<Rightarrow> string \<Rightarrow> status_code \<times> string \<times> int \<times> bool" where
  "verify_reset me mac ip community =
     (case verify_ping (is_ping_reachable me mac ip community) [1..<ping_attempts + 1] of
        Some a \<Rightarrow> (StatusSuccess, ''docsDevResetNow verified by ping failure after '' @ int_str (int a) @ '' attempt(s)'',
                   int a, False)
      | None \<Rightarrow> (me_ping_failed me, ''docsDevResetNow verification failed: modem still ping reachable after retries'',
                  int ping_attempts, True))"

definition execute_reset :: "modem_env \<Rightarrow> string \<Rightarrow> string option \<Rightarrow> string \<Rightarrow> reset_modem" where
  "execute_reset me mac ip community =
     (case ip of
        None \<Rightarrow> \<lparr>rsm_ip = None, rsm_status = StatusFailure, rsm_message = ''unable to resolve modem IP address'',
                 rsm_attempts = 0, rsm_reachable = None\<rparr>
      | Some a \<Rightarrow>
          (let (st, msg) = send_reset me mac a community
           in if st \<noteq> StatusSuccess
              then \<lparr>rsm_ip = Some a, rsm_status = st, rsm_message = msg, rsm_attempts = 0, rsm_reachable = None\<rparr>
              else (let (vst, vmsg, n, reach) = verify_reset me mac a community
                    in \<lparr>rsm_ip = Some a, rsm_status = vst, rsm_message = vmsg, rsm_attempts = n,
                        rsm_reachable = Some reach\<rparr>)))"

record 'a sg_outcome =
  sgo_sg :: int
  sgo_status :: status_code
  sgo_message :: string
  sgo_count :: int
  sgo_success :: int
  sgo_failure :: int
  sgo_modems :: "string \<rightharpoonup> 'a"

definition failed_outcome :: "int \<Rightarrow> string \<Rightarrow> 'a sg_outcome" where
  "failed_outcome sg msg = \<lparr>sgo_sg = sg, sgo_status = StatusFailure, sgo_message = msg, sgo_count = 0, sgo_success = 0,
     sgo_failure = 0, sgo_modems = Map.empty\<rparr>"

definition group_outcome :: "string \<Rightarrow> int \<Rightarrow> int \<Rightarrow> int \<Rightarrow> int \<Rightarrow> (string \<rightharpoonup> 'a) \<Rightarrow> 'a sg_outcome" where
  "group_outcome none_msg sg n ok bad d =
     (let failed = (0 < n \<and> ok = 0)
      in \<lparr>sgo_sg = sg, sgo_status = (if failed then StatusFailure else StatusSuccess),
          sgo_message = (if failed then none_msg else ''''), sgo_count = n, sgo_success = ok, sgo_failure = bad,
          sgo_modems = d\<rparr>)"

fun reset_each ::
  "modem_env \<Rightarrow> string list \<Rightarrow> string \<Rightarrow> cable_modem list \<Rightarrow> int \<times> int \<times> int \<times> (string \<rightharpoonup> reset_modem) \<Rightarrow>
   int \<times> int \<times> int \<times> (string \<rightharpoonup> reset_modem)" where
  "reset_each me selected community [] acc = acc"
| "reset_each me selected community (m # ms) (n, ok, bad, d) =
     (if \<not> modem_selected selected m then reset_each me selected community ms (n, ok, bad, d)
      else (let r = execute_reset me (cm_mac m) (normalize_modem_ip me m) community; d' = d(cm_mac m \<mapsto> r)
            in reset_each me selected community ms
                 (if rsm_status r = StatusSuccess then (n + 1, ok + 1, bad, d') else (n + 1, ok, bad + 1, d'))))"

definition collect_reset :: "modem_env \<Rightarrow> store \<Rightarrow> string list \<Rightarrow> string \<Rightarrow> int \<Rightarrow> reset_modem sg_outcome" where
  "collect_reset me s selected community sg =
     (case s sg of
        None \<Rightarrow> failed_outcome sg ''sg entry missing in cache''
      | Some e \<Rightarrow>
          (let (n, ok, bad, d) = reset_each me selected community (sort_modems (pl_modems (sn_payload (ce_snapshot e))))
                 (0, 0, 0, Map.empty)
           in group_outcome ''no modem reset verified by ping failure'' sg n ok bad d))"

text \<open>\<open>run_scoped_job\<close> with workers that do not raise: the results of the managed groups.\<close>

definition run_scoped_job :: "sgw_manager \<Rightarrow> int list \<Rightarrow> (int \<Rightarrow> 'r) \<Rightarrow> int \<rightharpoonup> 'r" where
  "run_scoped_job m sgs worker = (\<lambda>sg. if sg \<in> set (scoped_filter sgs m) then Some (worker sg) else None)"

definition collect_groups :: "sgw_manager \<Rightarrow> int list \<Rightarrow> (int \<Rightarrow> 'a sg_outcome) \<Rightarrow> 'a sg_outcome list" where
  "collect_groups m sgs worker =
     map (\<lambda>sg. case run_scoped_job m sgs worker sg of
                 None \<Rightarrow> failed_outcome sg ''sgw scoped worker did not return result''
               | Some g \<Rightarrow> g) sgs"

text \<open>The gate of both endpoints.\<close>

definition manager_gate :: "runtime \<Rightarrow> string + sgw_manager" where
  "manager_gate rt =
     (case startup_gate rt of
        Some msg \<Rightarrow> Inl msg
      | None \<Rightarrow> (case rt_manager rt of None \<Rightarrow> Inl ''sgw manager not available'' | Some m \<Rightarrow> Inr m))"

record reset_response =
  rsr_status :: status_code
  rsr_message :: string
  rsr_sgs :: "int list"
  rsr_macs :: "string list"
  rsr_resolved :: "int list"
  rsr_missing_sgs :: "int list"
  rsr_missing_macs :: "string list"
  rsr_groups :: "reset_modem sg_outcome list"

definition reset_failure :: "string \<Rightarrow> reset_response" where
  "reset_failure msg = \<lparr>rsr_status = StatusFailure, rsr_message = msg, rsr_sgs = [], rsr_macs = [], rsr_resolved = [],
     rsr_missing_sgs = [], rsr_missing_macs = [], rsr_groups = []\<rparr>"

definition sum_count :: "'a sg_outcome list \<Rightarrow> int" where "sum_count gs = sum_list (map sgo_count gs)"
definition sum_success :: "'a sg_outcome list \<Rightarrow> int" where "sum_success gs = sum_list (map sgo_success gs)"

definition reset_verdict ::
  "envelope \<Rightarrow> int list \<Rightarrow> string list \<Rightarrow> reset_modem sg_outcome list \<Rightarrow> status_code \<times> string" where
  "reset_verdict en missing_sgs no_macs gs =
     (if mf_macs (en_modems en) \<noteq> [] \<and> no_macs \<noteq> []
      then (StatusFailure, ''mac_address not found in resolved scope: '' @ hd no_macs)
      else if en_sgs en \<noteq> [] \<and> missing_sgs \<noteq> [] then (StatusFailure, ''sg_id not found: '' @ int_str (hd missing_sgs))
      else if gs = [] then (StatusSuccess, ''no discovered service groups'')
      else if 0 < sum_count gs \<and> sum_success gs = 0 then (StatusFailure, ''no modem reset verified by ping failure'')
      else if \<exists>g\<in>set gs. sgo_status g \<noteq> StatusSuccess
      then (StatusSuccess, ''one or more serving groups contain reset verification failures'')
      else (StatusSuccess, ''''))"

text \<open>The scope is resolved on one reading of the cache, \<open>s\<close>; the workers read it again, \<open>s'\<close>.\<close>

definition docs_dev_reset_now ::
  "modem_env \<Rightarrow> string \<Rightarrow> store \<Rightarrow> store \<Rightarrow> envelope \<Rightarrow> runtime \<Rightarrow> reset_response" where
  "docs_dev_reset_now me configured s s' en rt =
     (case manager_gate rt of
        Inl msg \<Rightarrow> reset_failure msg
      | Inr m \<Rightarrow>
          (let macs = mf_macs (en_modems en);
               (resolved, missing_sgs) = resolve_sg_scope (en_sgs en) (ss_groups (rt_status rt));
               no_macs = missing_macs macs (map (\<lambda>(sg, mac, ip). mac) (resolve_scoped_modems me s resolved macs));
               gs = collect_groups m resolved (collect_reset me s' macs (reset_community (en_modems en) configured));
               (st, msg) = reset_verdict en missing_sgs no_macs gs
           in \<lparr>rsr_status = st, rsr_message = msg, rsr_sgs = en_sgs en, rsr_macs = macs, rsr_resolved = resolved,
               rsr_missing_sgs = missing_sgs, rsr_missing_macs = no_macs, rsr_groups = gs\<rparr>))"

section \<open>System descriptions\<close>

datatype poll_source = PollCache | PollHeavy

fun collect_modem_sysdescr :: "modem_env \<Rightarrow> string \<Rightarrow> string \<Rightarrow> string list \<Rightarrow> string option" where
  "collect_modem_sysdescr me mac ip [] = None"
| "collect_modem_sysdescr me mac ip (c # cs) =
     (case me_sysdescr me mac ip c of
        Some d \<Rightarrow> if d = '''' then collect_modem_sysdescr me mac ip cs else Some d
      | None \<Rightarrow> collect_modem_sysdescr me mac ip cs)"

definition sysdescr_communities :: "string \<Rightarrow> string \<Rightarrow> string list" where
  "sysdescr_communities system cmts =
     (if py_strip system \<noteq> '''' then [py_strip system] else if py_strip cmts \<noteq> '''' then [py_strip cmts] else [])"

fun poll_targets ::
  "modem_env \<Rightarrow> string list \<Rightarrow> cable_modem list \<Rightarrow> int \<times> int \<times> (string \<rightharpoonup> string) \<times> (string \<times> string) list \<Rightarrow>
   int \<times> int \<times> (string \<rightharpoonup> string) \<times> (string \<times> string) list" where
  "poll_targets me selected [] acc = acc"
| "poll_targets me selected (m # ms) (n, bad, d, ts) =
     (if \<not> modem_selected selected m then poll_targets me selected ms (n, bad, d, ts)
      else (case normalize_modem_ip me m of
              None \<Rightarrow> poll_targets me selected ms (n + 1, bad + 1, d(cm_mac m \<mapsto> ''''), ts)
            | Some ip \<Rightarrow> poll_targets me selected ms (n + 1, bad, d, ts @ [(cm_mac m, ip)])))"

fun take_results ::
  "(string \<rightharpoonup> string option) \<Rightarrow> (string \<times> string) list \<Rightarrow> int \<times> int \<times> (string \<rightharpoonup> string) \<Rightarrow> int \<times> int \<times> (string \<rightharpoonup> string)" where
  "take_results res [] acc = acc"
| "take_results res ((mac, ip) # ts) (ok, bad, d) =
     (case (case res mac of None \<Rightarrow> None | Some r \<Rightarrow> r) of
        Some x \<Rightarrow> if x = '''' then take_results res ts (ok, bad + 1, d(mac \<mapsto> ''''))
                  else take_results res ts (ok + 1, bad, d(mac \<mapsto> x))
      | None \<Rightarrow> take_results res ts (ok, bad + 1, d(mac \<mapsto> '''')))"

text \<open>The threads of a heavy collection finish in some order, \<open>order\<close>; the results are a dictionary by MAC
  address.\<close>

definition collect_sysdescr ::
  "modem_env \<Rightarrow> store \<Rightarrow> string list \<Rightarrow> string list \<Rightarrow> bool \<Rightarrow>
   ((string \<times> string) list \<Rightarrow> (string \<times> string) list) \<Rightarrow> int \<Rightarrow> string sg_outcome" where
  "collect_sysdescr me s selected communities threaded order sg =
     (case s sg of
        None \<Rightarrow> failed_outcome sg ''sg entry missing in cache''
      | Some e \<Rightarrow>
          (let (n, bad, d, ts) = poll_targets me selected (sort_modems (pl_modems (sn_payload (ce_snapshot e))))
                 (0, 0, Map.empty, []);
               finished = (if threaded then order ts else ts);
               res = map_of (rev (map (\<lambda>(mac, ip). (mac, collect_modem_sysdescr me mac ip communities)) finished));
               (ok, bad', d') = take_results res ts (0, bad, d)
           in group_outcome ''no modem sysDescr responses received'' sg n ok bad' d'))"

section \<open>The endpoint for system descriptions\<close>

record sysdescr_request =
  sdq_sgs :: "int list"
  sdq_macs :: "string list"
  sdq_source :: poll_source
  sdq_wait :: bool

definition normalize_poll :: "sysdescr_request \<Rightarrow> sysdescr_request" where
  "normalize_poll rq = (if sdq_source rq = PollCache then rq\<lparr>sdq_wait := False\<rparr> else rq)"

record sysdescr_response =
  sdr_status :: status_code
  sdr_message :: string
  sdr_poll :: poll_source
  sdr_groups :: "string sg_outcome list"

definition heavy_on_request ::
  "sgw_settings \<Rightarrow> cache_view \<Rightarrow> sysdescr_request \<Rightarrow> int list \<Rightarrow> sgw_manager \<Rightarrow> string \<times> sgw_manager" where
  "heavy_on_request cfg v rq resolved m =
     (if sdq_source rq = PollHeavy \<and> resolved \<noteq> []
      then (let base = snapshot_baseline resolved (cv_start v);
                ((applied, reasons), m') = request_each cfg RequestHeavy (cv_request_time v) resolved False [] m;
                msg = join_semicolon reasons
            in (if sdq_wait rq \<and> applied
                then (if \<not> wait_for_refresh resolved base (cv_seen v) (cv_end v) \<and> msg = ''''
                      then ''heavy refresh wait timeout; using cached snapshot'' else msg)
                else if sdq_wait rq \<and> msg = '''' then ''heavy refresh request not applied'' else msg, m'))
      else ('''', m))"

definition sysdescr_verdict ::
  "sysdescr_request \<Rightarrow> int list \<Rightarrow> string list \<Rightarrow> string \<Rightarrow> string sg_outcome list \<Rightarrow> status_code \<times> string" where
  "sysdescr_verdict rq missing_sgs no_macs poll_msg gs =
     (if gs = []
      then (if sdq_sgs rq \<noteq> [] \<or> sdq_macs rq \<noteq> []
            then (StatusFailure,
                  if sdq_macs rq \<noteq> [] \<and> no_macs \<noteq> [] then ''mac_address not found in resolved scope: '' @ hd no_macs
                  else if sdq_sgs rq \<noteq> [] \<and> missing_sgs \<noteq> [] then ''sg_id not found: '' @ int_str (hd missing_sgs)
                  else ''no discovered service groups'')
            else (StatusSuccess, ''no discovered service groups''))
      else if 0 < sum_count gs \<and> sum_success gs = 0 then (StatusFailure, ''no modem sysDescr responses received'')
      else if \<exists>g\<in>set gs. sgo_status g \<noteq> StatusSuccess
      then (StatusSuccess, ''one or more serving groups returned no modem sysDescr responses'')
      else (StatusSuccess, poll_msg))"

text \<open>The scope is resolved on \<open>cv_end\<close>, the workers read \<open>cv_answer\<close>.\<close>

definition get_sys_descr ::
  "modem_env \<Rightarrow> sgw_settings \<Rightarrow> string list \<Rightarrow> ((string \<times> string) list \<Rightarrow> (string \<times> string) list) \<Rightarrow> cache_view \<Rightarrow>
   sysdescr_request \<Rightarrow> runtime \<Rightarrow> sysdescr_response \<times> runtime" where
  "get_sys_descr me cfg communities order v rq rt =
     (case manager_gate rt of
        Inl msg \<Rightarrow> (\<lparr>sdr_status = StatusFailure, sdr_message = msg, sdr_poll = sdq_source rq, sdr_groups = []\<rparr>, rt)
      | Inr m \<Rightarrow>
          (let macs = sdq_macs rq;
               (resolved, missing_sgs) = resolve_sg_scope (sdq_sgs rq) (ss_groups (rt_status rt));
               (poll_msg, m') = heavy_on_request cfg v rq resolved m;
               no_macs = missing_macs macs (map (\<lambda>(sg, mac, ip). mac) (resolve_scoped_modems me (cv_end v) resolved macs));
               gs = collect_groups m' resolved
                      (collect_sysdescr me (cv_answer v) macs communities (sdq_source rq = PollHeavy) order);
               (st, msg) = sysdescr_verdict rq missing_sgs no_macs poll_msg gs
           in (\<lparr>sdr_status = st, sdr_message = msg, sdr_poll = sdq_source rq, sdr_groups = gs\<rparr>,
               rt\<lparr>rt_manager := Some m'\<rparr>)))"

section \<open>Lemmas\<close>

lemma verify_ping_Some:
  "verify_ping reachable [i..<j] = Some a \<longleftrightarrow> i \<le> a \<and> a < j \<and> \<not> reachable a \<and> (\<forall>b. i \<le> b \<and> b < a \<longrightarrow> reachable b)"
proof (induction "j - i" arbitrary: i)
  case (Suc n)
  then have "i < j" and ih: "verify_ping reachable [Suc i..<j] = Some a \<longleftrightarrow>
      Suc i \<le> a \<and> a < j \<and> \<not> reachable a \<and> (\<forall>b. Suc i \<le> b \<and> b < a \<longrightarrow> reachable b)" by simp_all
  show ?case
  proof (cases "reachable i")
    case True
    from \<open>i < j\<close> True have v: "verify_ping reachable [i..<j] = verify_ping reachable [Suc i..<j]"
      by (subst upt_conv_Cons) simp_all
    have all: "(\<forall>b. i \<le> b \<and> b < a \<longrightarrow> reachable b) \<longleftrightarrow> (\<forall>b. Suc i \<le> b \<and> b < a \<longrightarrow> reachable b)"
      using True by (metis Suc_leD Suc_leI le_eq_less_or_eq)
    have e: "i \<le> a \<and> \<not> reachable a \<longleftrightarrow> Suc i \<le> a \<and> \<not> reachable a"
      using True by (metis Suc_leD Suc_leI le_eq_less_or_eq)
    show ?thesis unfolding v ih all using e by argo
  next
    case False
    from \<open>i < j\<close> False have v: "verify_ping reachable [i..<j] = Some i"
      by (subst upt_conv_Cons) simp_all
    have "a = i" if "i \<le> a" "\<forall>b. i \<le> b \<and> b < a \<longrightarrow> reachable b"
      using that False by (meson le_refl not_less order_antisym)
    with False \<open>i < j\<close> show ?thesis unfolding v by auto
  qed
qed auto

lemma verify_ping_None: "verify_ping reachable as = None \<longleftrightarrow> (\<forall>a\<in>set as. reachable a)"
  by (induction "as") auto

lemma reset_each_counts:
  "reset_each me selected community ms (n, ok, bad, d) = (n', ok', bad', d') \<Longrightarrow>
   n' = n + int (length (filter (modem_selected selected) ms)) \<and> ok' + bad' - (ok + bad) = n' - n \<and>
   ok' = ok + int (length (filter (\<lambda>m. modem_selected selected m \<and>
     rsm_status (execute_reset me (cm_mac m) (normalize_modem_ip me m) community) = StatusSuccess) ms)) \<and>
   d' = d ++ map_of (rev (map (\<lambda>m. (cm_mac m, execute_reset me (cm_mac m) (normalize_modem_ip me m) community))
     (filter (modem_selected selected) ms)))"
proof (induction ms arbitrary: n ok bad d)
  case (Cons m ms)
  show ?case
  proof (cases "modem_selected selected m")
    case True
    let ?r = "execute_reset me (cm_mac m) (normalize_modem_ip me m) community"
    have d: "d(cm_mac m \<mapsto> ?r) ++ f = d ++ [cm_mac m \<mapsto> ?r] ++ f" for f by simp
    show ?thesis
    proof (cases "rsm_status ?r = StatusSuccess")
      case s: True
      with Cons.prems True have "reset_each me selected community ms (n + 1, ok + 1, bad, d(cm_mac m \<mapsto> ?r)) = (n', ok', bad', d')"
        by (simp add: Let_def)
      from Cons.IH [OF this] True s show ?thesis by (simp add: map_add_assoc [symmetric] del: fun_upd_apply)
    next
      case s: False
      with Cons.prems True have "reset_each me selected community ms (n + 1, ok, bad + 1, d(cm_mac m \<mapsto> ?r)) = (n', ok', bad', d')"
        by (simp add: Let_def)
      from Cons.IH [OF this] True s show ?thesis by (simp add: map_add_assoc [symmetric] del: fun_upd_apply)
    qed
  next
    case False
    with Cons show ?thesis by simp
  qed
qed simp

lemma poll_targets_none:
  "\<forall>m\<in>set ms. \<not> modem_selected selected m \<Longrightarrow> poll_targets me selected ms (n, bad, d, ts) = (n, bad, d, ts)"
  by (induction ms) simp_all

lemma reset_each_none:
  "\<forall>m\<in>set ms. \<not> modem_selected selected m \<Longrightarrow> reset_each me selected community ms (n, ok, bad, d) = (n, ok, bad, d)"
  by (induction ms) simp_all

section \<open>Properties\<close>

text \<open>C37: A reset is reported as successful exactly if the modem has an address, accepted the reset and did not
  answer one of at most five pings, and the reported attempts are those up to the first that failed.
\<close>

theorem reset_verified:
  assumes "me_reset_failed me \<noteq> StatusSuccess" "me_ping_failed me \<noteq> StatusSuccess"
  shows "rsm_status (execute_reset me mac ip c) = StatusSuccess \<longleftrightarrow>
    (\<exists>a n. ip = Some a \<and> me_reset me mac a c = Inr True \<and> 1 \<le> n \<and> n \<le> 5 \<and> \<not> is_ping_reachable me mac a c n \<and>
       (\<forall>k. 1 \<le> k \<and> k < n \<longrightarrow> is_ping_reachable me mac a c k) \<and> rsm_attempts (execute_reset me mac ip c) = int n)"
proof (cases ip)
  case None
  then show ?thesis by (simp add: execute_reset_def)
next
  case (Some a)
  show ?thesis
  proof (cases "me_reset me mac a c = Inr True")
    case False
    with assms(1) Some show ?thesis
      by (auto simp: execute_reset_def send_reset_def Let_def split: sum.splits bool.splits)
  next
    case sent: True
    show ?thesis
    proof (cases "verify_ping (is_ping_reachable me mac a c) [1..<ping_attempts + 1]")
      case None
      moreover from None have "is_ping_reachable me mac a c n" if "1 \<le> n" "n \<le> 5" for n
        using that by (auto simp: verify_ping_None ping_attempts_def)
      ultimately show ?thesis
        using assms(2) sent Some by (auto simp: execute_reset_def send_reset_def verify_reset_def Let_def)
    next
      case (Some n)
      from Some [unfolded verify_ping_Some ping_attempts_def] have "1 \<le> n" "n \<le> 5" "\<not> is_ping_reachable me mac a c n"
        "\<forall>k. 1 \<le> k \<and> k < n \<longrightarrow> is_ping_reachable me mac a c k" by simp_all
      with Some sent \<open>ip = _\<close> show ?thesis by (auto simp: execute_reset_def send_reset_def verify_reset_def Let_def)
    qed
  qed
qed

text \<open>The counts of a reset group: every selected modem of the cache is reset once and counts as a success
  or a failure, the group has an entry for each of their MAC addresses, and it fails exactly if there are
  modems and no success.
\<close>

theorem reset_group_counts:
  assumes "s sg = Some e" "g = collect_reset me s selected c sg"
    and "ms = filter (modem_selected selected) (pl_modems (sn_payload (ce_snapshot e)))"
  shows "sgo_count g = int (length ms) \<and> sgo_success g + sgo_failure g = sgo_count g \<and>
    sgo_success g = int (length (filter (\<lambda>m. rsm_status (execute_reset me (cm_mac m) (normalize_modem_ip me m) c) = StatusSuccess) ms)) \<and>
    dom (sgo_modems g) = cm_mac ` set ms \<and> (sgo_status g = StatusFailure \<longleftrightarrow> ms \<noteq> [] \<and> sgo_success g = 0)"
proof -
  let ?p = "pl_modems (sn_payload (ce_snapshot e))"
  obtain n ok bad d where r: "reset_each me selected c (sort_modems ?p) (0, 0, 0, Map.empty) = (n, ok, bad, d)"
    by (metis prod_cases4)
  have len: "length (filter P (sort_modems ?p)) = length (filter P ?p)" for P
    by (metis mset_filter mset_sort size_mset sort_modems_def)
  have set: "set (sort_modems ?p) = set ?p" by (simp add: sort_modems_def)
  note cnt = reset_each_counts [OF r]
  have g: "g = group_outcome ''no modem reset verified by ping failure'' sg n ok bad d"
    using assms(1,2) r by (simp add: collect_reset_def)
  have "n = int (length ms)" using cnt by (simp add: len assms(3))
  moreover have "dom d = cm_mac ` set ms" using cnt by (auto simp: dom_map_of_conv_image_fst image_image set assms(3))
  moreover have "ok = int (length (filter (\<lambda>m. rsm_status (execute_reset me (cm_mac m) (normalize_modem_ip me m) c) = StatusSuccess) ms))"
    using cnt by (simp add: len assms(3) conj_commute)
  ultimately show ?thesis using cnt by (auto simp: g group_outcome_def Let_def)
qed

text \<open>For a MAC address that no modem of the scope has, the reset endpoint fails and names it, but the
  collection of system descriptions succeeds with an empty message and empty groups.
\<close>

theorem unknown_mac_only_reported_by_reset:
  assumes "manager_gate rt = Inr m" "resolve_sg_scope (en_sgs en) (ss_groups (rt_status rt)) = (resolved, [])"
    and "resolved \<noteq> []" "set resolved \<subseteq> set (sm_groups m)" "mf_macs (en_modems en) = macs" "macs \<noteq> []"
    and "\<forall>sg\<in>set resolved. \<exists>e. s sg = Some e \<and> (\<forall>x\<in>set (pl_modems (sn_payload (ce_snapshot e))). cm_mac x \<notin> set macs)"
    and "cv_end v = s" "cv_answer v = s" "rq = \<lparr>sdq_sgs = en_sgs en, sdq_macs = macs, sdq_source = PollCache, sdq_wait = False\<rparr>"
  shows "rsr_status (docs_dev_reset_now me configured s s en rt) = StatusFailure \<and>
    rsr_missing_macs (docs_dev_reset_now me configured s s en rt) = macs \<and>
    sdr_status (fst (get_sys_descr me cfg communities order v rq rt)) = StatusSuccess \<and>
    sdr_message (fst (get_sys_descr me cfg communities order v rq rt)) = '''' \<and>
    (\<forall>g\<in>set (sdr_groups (fst (get_sys_descr me cfg communities order v rq rt))). sgo_count g = 0)"
proof -
  have none: "\<forall>x\<in>set (sort_modems (pl_modems (sn_payload (ce_snapshot e)))). \<not> modem_selected macs x"
    if "sg \<in> set resolved" "s sg = Some e" for sg e
    using assms(6,7) that by (fastforce simp: modem_selected_def sort_modems_def)
  have "resolve_scoped_modems me s resolved macs = []"
    using none assms(7) by (fastforce simp: resolve_scoped_modems_def filter_empty_conv split: option.splits)
  then have no: "missing_macs macs (map (\<lambda>(sg, mac, ip). mac) (resolve_scoped_modems me s resolved macs)) = macs"
    by (simp add: missing_macs_def)
  have worker: "collect_sysdescr me s macs communities False order sg =
      group_outcome ''no modem sysDescr responses received'' sg 0 0 0 Map.empty" if "sg \<in> set resolved" for sg
    using none [OF that] assms(7) that by (auto simp: collect_sysdescr_def poll_targets_none)
  have "collect_groups m resolved (collect_sysdescr me s macs communities False order) =
      map (\<lambda>sg. group_outcome ''no modem sysDescr responses received'' sg 0 0 0 Map.empty) resolved"
    using assms(4) worker by (auto simp: collect_groups_def run_scoped_job_def scoped_filter_def)
  then have gs: "sdr_groups (fst (get_sys_descr me cfg communities order v rq rt)) =
      map (\<lambda>sg. group_outcome ''no modem sysDescr responses received'' sg 0 0 0 Map.empty) resolved"
    and vd: "(sdr_status (fst (get_sys_descr me cfg communities order v rq rt)),
        sdr_message (fst (get_sys_descr me cfg communities order v rq rt))) = sysdescr_verdict rq [] macs ''''
      (map (\<lambda>sg. group_outcome ''no modem sysDescr responses received'' sg 0 0 0 Map.empty) resolved)"
    using assms(1,2) no by (simp_all add: get_sys_descr_def assms(8-10) heavy_on_request_def Let_def split: prod.splits)
  have "sum_count (map (\<lambda>sg. group_outcome ''no modem sysDescr responses received'' sg 0 0 0
      (Map.empty :: string \<rightharpoonup> string)) sgs) = 0" for sgs
    by (induction sgs) (simp_all add: sum_count_def group_outcome_def)
  moreover have "sgo_status (group_outcome x sg 0 0 0 d) = StatusSuccess" for x sg and d :: "string \<rightharpoonup> string"
    by (simp add: group_outcome_def)
  ultimately have "sysdescr_verdict rq [] macs [] (map (\<lambda>sg. group_outcome ''no modem sysDescr responses received'' sg 0 0 0 Map.empty) resolved) =
      (StatusSuccess, [])"
    using assms(3) by (simp add: sysdescr_verdict_def)
  with vd have "sdr_status (fst (get_sys_descr me cfg communities order v rq rt)) = StatusSuccess"
    "sdr_message (fst (get_sys_descr me cfg communities order v rq rt)) = []" by simp_all
  moreover have "rsr_status (docs_dev_reset_now me configured s s en rt) = StatusFailure \<and>
      rsr_missing_macs (docs_dev_reset_now me configured s s en rt) = macs"
    using assms(1,2,5,6) no by (simp add: docs_dev_reset_now_def reset_verdict_def Let_def)
  ultimately show ?thesis unfolding gs by (simp add: group_outcome_def)
qed

section \<open>Examples\<close>

definition lab_modems :: modem_env where
  "lab_modems = \<lparr>me_hex = Some, me_inet = Some, me_reset = (\<lambda>_ _ _. Inr True), me_ping = (\<lambda>_ _ _ n. Some (n < 3)),
     me_ping_raw = (\<lambda>_ _. True), me_sysdescr = (\<lambda>_ _ _. None), me_reset_failed = StatusOther 1,
     me_ping_failed = StatusOther 2\<rparr>"

lemma reset_verified_witness: "rsm_status (execute_reset lab_modems ''aa'' (Some ''10.0.0.2'') ''c'') = StatusSuccess"
proof -
  have p: "is_ping_reachable lab_modems m a c n \<longleftrightarrow> n < 3" for m a c n
    by (simp add: is_ping_reachable_def lab_modems_def)
  have f: "me_reset_failed lab_modems \<noteq> StatusSuccess" "me_ping_failed lab_modems \<noteq> StatusSuccess"
    by (simp_all add: lab_modems_def)
  have v: "verify_ping (is_ping_reachable lab_modems ''aa'' ''10.0.0.2'' ''c'') [1..<6] = Some 3"
    by (simp add: verify_ping_Some p)
  have n: "rsm_attempts (execute_reset lab_modems ''aa'' (Some ''10.0.0.2'') ''c'') = int 3"
    using v by (simp add: execute_reset_def send_reset_def verify_reset_def ping_attempts_def lab_modems_def Let_def)
  have "me_reset lab_modems ''aa'' ''10.0.0.2'' ''c'' = Inr True" by (simp add: lab_modems_def)
  with n show ?thesis unfolding reset_verified [OF f]
    by (intro exI [of _ "''10.0.0.2''"] exI [of _ "3 :: nat"] conjI) (simp_all add: p)
qed

lemma reset_group_counts_witness:
  "\<exists>g. collect_reset lab_modems [4 \<mapsto> lab_entry [lab_modem]] [] ''c'' 4 = g \<and> sgo_count g = 1 \<and>
     sgo_success g + sgo_failure g = 1 \<and> dom (sgo_modems g) = {''aa''}"
  using reset_group_counts [of "[4 \<mapsto> lab_entry [lab_modem]]" 4 "lab_entry [lab_modem]" _ lab_modems "[]" "''c''" "[lab_modem]", OF _ refl]
  by (simp add: lab_entry_def lab_modem_def modem_selected_def)

definition managed_runtime :: runtime where
  "managed_runtime = lab_runtime\<lparr>rt_manager := Some demo_manager\<rparr>"

lemma unknown_mac_only_reported_by_reset_witness:
  "rsr_status (docs_dev_reset_now lab_modems ''c'' [4 \<mapsto> lab_entry [lab_modem]] [4 \<mapsto> lab_entry [lab_modem]]
     \<lparr>en_sgs = [4], en_modems = \<lparr>mf_macs = [''bb''], mf_pnm = None, mf_snmp = None\<rparr>\<rparr> managed_runtime) = StatusFailure"
proof -
  have g: "manager_gate managed_runtime = Inr demo_manager"
    by (simp add: manager_gate_def managed_runtime_def lab_runtime_def initial_status_def startup_gate_def Let_def)
  have "ss_groups (rt_status managed_runtime) = [2, 4]" using lab_gate(2) by (simp add: managed_runtime_def)
  then have r: "resolve_sg_scope (en_sgs \<lparr>en_sgs = [4], en_modems = \<lparr>mf_macs = [''bb''], mf_pnm = None, mf_snmp = None\<rparr>\<rparr>)
      (ss_groups (rt_status managed_runtime)) = ([4], [])"
    by (simp add: resolve_sg_scope_def)
  show ?thesis
    by (rule unknown_mac_only_reported_by_reset [OF g r, of "[''bb'']" "[4 \<mapsto> lab_entry [lab_modem]]"
          "(lab_view [lab_modem])\<lparr>cv_end := [4 \<mapsto> lab_entry [lab_modem]]\<rparr>" _ lab_modems "''c''" demo_cfg "[]" id,
          THEN conjunct1])
       (simp_all add: demo_manager_facts lab_view_def lab_entry_def lab_modem_def)
qed

end
