(* ===== verification/Operational.thy ===== *)
theory Operational
  imports CacheService WorkerGuard
begin

text \<open>
  Operating the service: the pidfiles of \<open>orchestrator/pidfile_manager.py\<close>, the reachability check of
  \<open>sgw/precheck.py\<close>, and readiness, process status, worker and memory reports of
  \<open>api/routes/operational/service.py\<close>.  What the operating system answers is a parameter: the result of a
  signal 0, of creating directories, of \<open>ps\<close> and of \<open>shlex.split\<close>.
\<close>

section \<open>Pidfiles\<close>

definition controller_pidfile :: string where "controller_pidfile = ''controller.pid''"
definition worker_unbound_pidfile :: string where "worker_unbound_pidfile = ''worker_unbound.pid''"

definition worker_pidfile :: "int \<Rightarrow> string" where
  "worker_pidfile sg = ''worker_'' @ int_str sg @ ''.pid''"

definition pidfile_for_runtime :: "orch_mode \<Rightarrow> int option \<Rightarrow> string" where
  "pidfile_for_runtime mode sg =
     (case mode of
        Worker \<Rightarrow> (case sg of None \<Rightarrow> worker_unbound_pidfile | Some n \<Rightarrow> worker_pidfile n)
      | _ \<Rightarrow> controller_pidfile)"

text \<open>The directory of pidfiles, \<open>None\<close> when it does not exist; a content is \<open>None\<close> when it cannot be read.
  \<open>ok\<close> says whether the file system lets the write or the removal through.\<close>

type_synonym pid_dir = "(string \<rightharpoonup> string option) option"

definition pidfile_enter :: "bool \<Rightarrow> string \<Rightarrow> int \<Rightarrow> pid_dir \<Rightarrow> pid_dir" where
  "pidfile_enter ok name pid d =
     (if ok then Some ((case d of None \<Rightarrow> Map.empty | Some fs \<Rightarrow> fs)(name \<mapsto> Some (int_str pid @ [CHR 0x0A]))) else d)"

definition pidfile_exit :: "bool \<Rightarrow> string \<Rightarrow> pid_dir \<Rightarrow> pid_dir" where
  "pidfile_exit ok name d =
     (case d of None \<Rightarrow> None | Some fs \<Rightarrow> if ok \<and> fs name \<noteq> None then Some (fs(name := None)) else Some fs)"

section \<open>Process status\<close>

record process_info =
  pc_path :: "string option"
  pc_exists :: bool
  pc_pid :: "int option"
  pc_running :: bool
  pc_sg :: "int option"

definition no_process :: process_info where
  "no_process = \<lparr>pc_path = None, pc_exists = False, pc_pid = None, pc_running = False, pc_sg = None\<rparr>"

datatype kill_result = Delivered | NoSuchProcess | NotPermitted | KillError

definition pid_is_running :: "(int \<Rightarrow> kill_result) \<Rightarrow> int \<Rightarrow> bool" where
  "pid_is_running kill pid =
     (case kill pid of Delivered \<Rightarrow> True | NoSuchProcess \<Rightarrow> False | NotPermitted \<Rightarrow> True | KillError \<Rightarrow> False)"

definition py_endswith :: "string \<Rightarrow> string \<Rightarrow> bool" where
  "py_endswith s p = (rev (take (length p) (rev s)) = p)"

definition parse_worker_pid_sg :: "string \<Rightarrow> int option" where
  "parse_worker_pid_sg name =
     (if \<not> py_startswith name ''worker_'' then None
      else if \<not> py_endswith name ''.pid'' then None
      else (let raw = take (length name - 7 - 4) (drop 7 name)
            in if raw = ''unbound'' then None else py_int raw))"

definition pidfile_info :: "(int \<Rightarrow> kill_result) \<Rightarrow> string \<Rightarrow> string option \<Rightarrow> int option \<Rightarrow> process_info" where
  "pidfile_info kill path content sg =
     (let pid = (case content of None \<Rightarrow> None
                 | Some t \<Rightarrow> if py_strip t = '''' then None else py_int (py_strip t))
      in \<lparr>pc_path = Some path, pc_exists = True, pc_pid = pid,
          pc_running = (case pid of None \<Rightarrow> False | Some p \<Rightarrow> pid_is_running kill p), pc_sg = sg\<rparr>)"

text \<open>\<open>names\<close> is the directory listing, in the order the file system gives; \<open>dir\<close> its path.\<close>

fun scan_pidfiles ::
  "(int \<Rightarrow> kill_result) \<Rightarrow> string \<Rightarrow> (string \<rightharpoonup> string option) \<Rightarrow> string list \<Rightarrow>
   process_info \<times> process_info list \<Rightarrow> process_info \<times> process_info list" where
  "scan_pidfiles kill dir fs [] acc = acc"
| "scan_pidfiles kill dir fs (name # names) (controller, workers) =
     (let content = (case fs name of None \<Rightarrow> None | Some c \<Rightarrow> c); info = pidfile_info kill (dir @ ''/'' @ name) content
      in if name = controller_pidfile then scan_pidfiles kill dir fs names (info None, workers)
         else if name = worker_unbound_pidfile then scan_pidfiles kill dir fs names (controller, workers @ [info None])
         else if py_startswith name ''worker_'' \<and> py_endswith name ''.pid''
         then scan_pidfiles kill dir fs names (controller, workers @ [info (parse_worker_pid_sg name)])
         else scan_pidfiles kill dir fs names (controller, workers @ [info None]))"

definition collect_pidfile_status ::
  "(int \<Rightarrow> kill_result) \<Rightarrow> string \<Rightarrow> string list \<Rightarrow> pid_dir \<Rightarrow> process_info \<times> process_info list \<times> bool \<times> bool" where
  "collect_pidfile_status kill dir names d =
     (case d of
        None \<Rightarrow> (no_process, [], True, False)
      | Some fs \<Rightarrow>
          (let files = filter (\<lambda>n. fs n \<noteq> None \<and> py_endswith n ''.pid'') names
           in if files = [] then (no_process, [], True, False)
              else (let (controller, workers) = scan_pidfiles kill dir fs files (no_process, [])
                    in (controller, workers, False, \<not> (pc_running controller \<or> list_ex pc_running workers)))))"

section \<open>The process scan\<close>

fun arg_value :: "string \<Rightarrow> string list \<Rightarrow> string" where
  "arg_value name [] = ''''"
| "arg_value name (t # ts) =
     (if t = name then (case ts of [] \<Rightarrow> '''' | v # _ \<Rightarrow> v)
      else if py_startswith t (name @ ''='') then drop (length name + 1) t
      else arg_value name ts)"

definition extract_arg_value :: "(string \<Rightarrow> string list option) \<Rightarrow> string \<Rightarrow> string \<Rightarrow> string" where
  "extract_arg_value shlex args name = (case shlex args of None \<Rightarrow> '''' | Some ts \<Rightarrow> arg_value name ts)"

fun py_contains :: "string \<Rightarrow> string \<Rightarrow> bool" where
  "py_contains p [] = (p = [])"
| "py_contains p (c # s) = (py_startswith (c # s) p \<or> py_contains p s)"

text \<open>\<open>split(maxsplit=1)\<close> of a stripped line.\<close>

definition split_once :: "string \<Rightarrow> (string \<times> string) option" where
  "split_once s =
     (let rest = py_lstrip (dropWhile (\<lambda>c. \<not> py_space c) s)
      in if rest = '''' then None else Some (takeWhile (\<lambda>c. \<not> py_space c) s, rest))"

definition ps_match :: "(string \<Rightarrow> string list option) \<Rightarrow> string \<Rightarrow> string \<Rightarrow> (int \<times> string) option" where
  "ps_match shlex election line =
     (case split_once (py_strip line) of
        None \<Rightarrow> None
      | Some (w, args) \<Rightarrow>
          (case py_int w of
             None \<Rightarrow> None
           | Some pid \<Rightarrow>
               (let low = py_lower args
                in if \<not> py_contains ''pypnm-cmts'' low \<and> \<not> py_contains ''pypnm_cmts.cli'' low then None
                   else if \<not> py_contains ''run-forever'' low \<and> \<not> (py_contains ''serve'' low \<and> py_contains ''--with-runner'' low) then None
                   else if extract_arg_value shlex args ''--election-name'' = '''' then None
                   else if extract_arg_value shlex args ''--election-name'' \<noteq> election then None
                   else Some (pid, args))))"

definition fallback_find_processes ::
  "(string \<Rightarrow> string list option) \<Rightarrow> string list option \<Rightarrow> string \<Rightarrow> (int \<times> string) list" where
  "fallback_find_processes shlex ps election =
     (case ps of None \<Rightarrow> [] | Some ls \<Rightarrow> List.map_filter (ps_match shlex election) ls)"

fun apply_candidates ::
  "(int \<Rightarrow> kill_result) \<Rightarrow> (string \<Rightarrow> string list option) \<Rightarrow> (int \<times> string) list \<Rightarrow>
   process_info \<times> process_info list \<Rightarrow> process_info \<times> process_info list" where
  "apply_candidates kill shlex [] acc = acc"
| "apply_candidates kill shlex ((pid, args) # cs) (controller, workers) =
     (let sgv = extract_arg_value shlex args ''--sg-id'';
          info = \<lparr>pc_path = None, pc_exists = False, pc_pid = Some pid, pc_running = pid_is_running kill pid,
                  pc_sg = (if sgv = '''' then None else py_int sgv)\<rparr>
      in if extract_arg_value shlex args ''--mode'' = ''controller''
         then apply_candidates kill shlex cs (info, workers)
         else apply_candidates kill shlex cs (controller, workers @ [info]))"

definition apply_fallback ::
  "(int \<Rightarrow> kill_result) \<Rightarrow> (string \<Rightarrow> string list option) \<Rightarrow> string list option \<Rightarrow> string \<Rightarrow>
   process_info \<Rightarrow> process_info list \<Rightarrow> bool \<times> process_info \<times> process_info list" where
  "apply_fallback kill shlex ps election controller workers =
     (let e = py_strip election
      in if e = '''' then (False, controller, workers)
         else (let cs = fallback_find_processes shlex ps e
               in if cs = [] then (False, controller, workers)
                  else (True, apply_candidates kill shlex cs (controller, workers))))"

record status_report =
  so_ok :: bool
  so_controller :: process_info
  so_workers :: "process_info list"
  so_missing :: bool
  so_stale :: bool
  so_fallback :: bool

definition worker_key :: "process_info \<Rightarrow> bool \<times> int \<times> int \<times> string" where
  "worker_key p = (pc_sg p = None, (case pc_sg p of None \<Rightarrow> 0 | Some n \<Rightarrow> n), (case pc_pid p of None \<Rightarrow> 0 | Some n \<Rightarrow> n),
     (case pc_path p of None \<Rightarrow> '''' | Some s \<Rightarrow> s))"

definition any_running :: "process_info \<Rightarrow> process_info list \<Rightarrow> bool" where
  "any_running controller workers = (pc_running controller \<or> list_ex pc_running workers)"

definition process_status ::
  "(int \<Rightarrow> kill_result) \<Rightarrow> (string \<Rightarrow> string list option) \<Rightarrow> string list option \<Rightarrow> settings \<Rightarrow> string list \<Rightarrow> pid_dir \<Rightarrow> status_report" where
  "process_status kill shlex ps st names d =
     (if py_strip (st_state_dir st) = ''''
      then \<lparr>so_ok = False, so_controller = no_process, so_workers = [], so_missing = True, so_stale = False, so_fallback = False\<rparr>
      else (let (c0, w0, missing, stale) = collect_pidfile_status kill (st_state_dir st @ ''/pids'') names d;
                (fallback, c, w) = (if missing \<or> stale then apply_fallback kill shlex ps (st_election st) c0 w0 else (False, c0, w0));
                running = any_running c w;
                stale' = (if fallback \<and> running then False else stale)
            in \<lparr>so_ok = (running \<or> \<not> (missing \<or> stale')), so_controller = c, so_workers = sort_key worker_key w,
                so_missing = missing, so_stale = stale', so_fallback = fallback\<rparr>))"

section \<open>Readiness\<close>

datatype ready_check =
  CheckStateDir | CheckStateDirCreate | CheckStateDirAccess | CheckStateDirRead | CheckWorkerSg
  | CheckSgwStartup | CheckSgwDiscovery | CheckSgwPrime | CheckSgwCache

text \<open>What the file system lets through.\<close>

record fs_probe =
  fp_create :: bool
  fp_subdirs :: bool
  fp_writable :: bool
  fp_exists :: bool
  fp_readable :: bool

definition effective_settings :: "bool \<Rightarrow> settings \<Rightarrow> settings" where
  "effective_settings combined st = (if combined then st\<lparr>st_mode := Combined\<rparr> else st)"

definition select_worker_sg :: "settings \<Rightarrow> int option" where
  "select_worker_sg st = (if st_mode st \<noteq> Worker then None else map_option sd_id (find sd_enabled (st_groups st)))"

record ready_report =
  ry_failed :: "ready_check option"
  ry_message :: string
  ry_ready :: bool
  ry_missing :: "int list"

definition not_ready :: "ready_check \<Rightarrow> string \<Rightarrow> ready_report" where
  "not_ready c msg = \<lparr>ry_failed = Some c, ry_message = msg, ry_ready = False, ry_missing = []\<rparr>"

definition state_dir_check :: "fs_probe \<Rightarrow> settings \<Rightarrow> (ready_check \<times> string) option" where
  "state_dir_check fp st =
     (if py_strip (st_state_dir st) = '''' then Some (CheckStateDir, ''state_dir is not configured'')
      else if st_mode st \<noteq> Worker
      then (if \<not> fp_create fp then Some (CheckStateDirCreate, ''state_dir could not be created: '' @ st_state_dir st)
            else if \<not> fp_subdirs fp then Some (CheckStateDirAccess, ''state_dir subdirectories could not be created: '' @ st_state_dir st)
            else if \<not> fp_writable fp then Some (CheckStateDirAccess, ''state_dir is not writable: '' @ st_state_dir st)
            else None)
      else None)"

definition worker_check :: "fs_probe \<Rightarrow> settings \<Rightarrow> (ready_check \<times> string) option" where
  "worker_check fp st =
     (if st_mode st = Worker
      then (if \<not> fp_exists fp then Some (CheckStateDir, ''state_dir does not exist: '' @ st_state_dir st)
            else if \<not> fp_readable fp then Some (CheckStateDirRead, ''state_dir is not readable: '' @ st_state_dir st)
            else if select_worker_sg st = None then Some (CheckWorkerSg, ''worker mode requires sg_id to be set'')
            else None)
      else None)"

definition readiness :: "fs_probe \<Rightarrow> settings \<Rightarrow> runtime \<Rightarrow> ready_report" where
  "readiness fp st rt =
     (let ss = rt_status rt
      in case state_dir_check fp st of
           Some (c, msg) \<Rightarrow> not_ready c msg
         | None \<Rightarrow>
             if \<not> ss_completed ss then not_ready CheckSgwStartup ''sgw startup in progress (discovery not completed)''
             else (case worker_check fp st of
                     Some (c, msg) \<Rightarrow> not_ready c msg
                   | None \<Rightarrow>
                       if ss_prime_failed ss then not_ready CheckSgwPrime (ss_error ss)
                       else if \<not> ss_discovery_ok ss then not_ready CheckSgwDiscovery (ss_error ss)
                       else (let (ready, missing) = compute_cache_ready (ss_groups ss) (rt_store rt)
                             in if \<not> ready
                                then \<lparr>ry_failed = Some CheckSgwCache, ry_message = ''sgw cache not primed'', ry_ready = False,
                                      ry_missing = missing\<rparr>
                                else \<lparr>ry_failed = None, ry_message = '''', ry_ready = True, ry_missing = missing\<rparr>)))"

section \<open>Workers\<close>

definition format_worker_id :: "int \<Rightarrow> string" where
  "format_worker_id sg = ''sgw-'' @ int_str sg"

text \<open>\<open>int\<close> raises with the \<open>repr\<close> of the text.\<close>

definition parse_worker_id :: "(string \<Rightarrow> string) \<Rightarrow> string \<Rightarrow> int result" where
  "parse_worker_id repr w =
     (let t = py_strip w; t' = (if py_startswith t ''sgw-'' then drop 4 t else t)
      in if t' = '''' then Inl (ValueError ''worker_id is required'')
         else (case py_int t' of
                 None \<Rightarrow> Inl (ValueError (''invalid literal for int() with base 10: '' @ repr t'))
               | Some n \<Rightarrow> Inr n))"

record worker_report =
  wk_ok :: bool
  wk_sg :: "int option"
  wk_message :: string

definition sgw_restart ::
  "(string \<Rightarrow> string) \<Rightarrow> sgw_settings \<Rightarrow> real \<Rightarrow> string \<Rightarrow> runtime \<Rightarrow> worker_report \<times> runtime" where
  "sgw_restart repr cfg now w rt =
     (case rt_manager rt of
        None \<Rightarrow> (\<lparr>wk_ok = False, wk_sg = None, wk_message = ''sgw runtime manager is not initialized''\<rparr>, rt)
      | Some m \<Rightarrow>
          (case parse_worker_id repr w of
             Inl x \<Rightarrow> (\<lparr>wk_ok = False, wk_sg = None, wk_message = exn_text x\<rparr>, rt)
           | Inr sg \<Rightarrow>
               (let ((accepted, msg), m') = request_refresh cfg sg RequestHeavy now m
                in (if accepted
                    then \<lparr>wk_ok = True, wk_sg = Some sg, wk_message = ''queued heavy refresh for sgw-'' @ int_str sg\<rparr>
                    else \<lparr>wk_ok = False, wk_sg = Some sg, wk_message = msg\<rparr>, rt\<lparr>rt_manager := Some m'\<rparr>))))"

definition sgw_reset :: "(string \<Rightarrow> string) \<Rightarrow> string \<Rightarrow> runtime \<Rightarrow> worker_report \<times> runtime" where
  "sgw_reset repr w rt =
     (case rt_manager rt of
        None \<Rightarrow> (\<lparr>wk_ok = False, wk_sg = None, wk_message = ''sgw runtime manager is not initialized''\<rparr>, rt)
      | Some m \<Rightarrow>
          (case parse_worker_id repr w of
             Inl x \<Rightarrow> (\<lparr>wk_ok = False, wk_sg = None, wk_message = exn_text x\<rparr>, rt)
           | Inr sg \<Rightarrow>
               (let ((accepted, msg), m') = reset_refresh_counts sg m
                in (if accepted
                    then \<lparr>wk_ok = True, wk_sg = Some sg, wk_message = ''reset refresh counts for sgw-'' @ int_str sg\<rparr>
                    else \<lparr>wk_ok = False, wk_sg = Some sg, wk_message = msg\<rparr>, rt\<lparr>rt_manager := Some m'\<rparr>))))"

record worker_process =
  wp_id :: string
  wp_sg :: int
  wp_started :: real
  wp_uptime :: real

definition worker_processes :: "real \<Rightarrow> sgw_manager \<Rightarrow> worker_process list result" where
  "worker_processes now m =
     (if now < 0 then Inl (ValueError ''now_epoch must be non-negative.'')
      else Inr (map (\<lambda>sg. let t = (case sm_started m sg of None \<Rightarrow> now | Some t \<Rightarrow> t)
                          in \<lparr>wp_id = format_worker_id sg, wp_sg = sg, wp_started = t, wp_uptime = max 0 (now - t)\<rparr>)
                 (sort (sm_groups m))))"

record worker_interval =
  wv_id :: string
  wv_sg :: int
  wv_heavy :: int
  wv_heavy_count :: int
  wv_light :: int
  wv_light_count :: int

definition worker_intervals :: "sgw_settings \<Rightarrow> sgw_manager \<Rightarrow> worker_interval list" where
  "worker_intervals cfg m =
     map (\<lambda>sg. let (h, l) = (case sm_counts m sg of None \<Rightarrow> (0, 0) | Some c \<Rightarrow> c)
               in \<lparr>wv_id = format_worker_id sg, wv_sg = sg, wv_heavy = sg_poll_heavy cfg, wv_heavy_count = h,
                   wv_light = sg_poll_light cfg, wv_light_count = l\<rparr>) (sort (sm_groups m))"

section \<open>Memory\<close>

text \<open>The text of \<open>/proc/self/status\<close>, \<open>None\<close> when there is none.\<close>

definition own_rss_bytes :: "string list option \<Rightarrow> int result" where
  "own_rss_bytes status = map_sum id (\<lambda>r. case r of None \<Rightarrow> 0 | Some n \<Rightarrow> n) (read_process_rss_bytes status)"

definition reclaimed_bytes :: "int \<Rightarrow> int \<Rightarrow> int" where
  "reclaimed_bytes before after = max 0 (before - after)"

text \<open>A file of an operation directory: its name, the name of its parent directory, its size.\<close>

record op_file =
  of_name :: string
  of_parent :: string
  of_size :: int

record op_stats =
  os_dirs :: int
  os_results :: int
  os_states :: int
  os_cancels :: int
  os_bytes :: int

fun count_files :: "op_file list \<Rightarrow> op_stats \<Rightarrow> op_stats" where
  "count_files [] st = st"
| "count_files (f # fs) st =
     (let st = st\<lparr>os_bytes := os_bytes st + of_size f\<rparr>
      in count_files fs
           (if of_name f = ''state.json'' then st\<lparr>os_states := os_states st + 1\<rparr>
            else if of_name f = ''cancel.flag'' then st\<lparr>os_cancels := os_cancels st + 1\<rparr>
            else if of_parent f = ''results'' then st\<lparr>os_results := os_results st + 1\<rparr>
            else st))"

definition operation_store_stats :: "op_file list list option \<Rightarrow> op_stats" where
  "operation_store_stats dirs =
     (let z = \<lparr>os_dirs = 0, os_results = 0, os_states = 0, os_cancels = 0, os_bytes = 0\<rparr>
      in case dirs of None \<Rightarrow> z | Some ds \<Rightarrow> foldl (\<lambda>st fs. count_files fs (st\<lparr>os_dirs := os_dirs st + 1\<rparr>)) z ds)"

section \<open>The precheck of the CMTS\<close>

record precheck_result =
  pr_ping :: bool
  pr_snmp :: bool
  pr_host :: string
  pr_inet :: string
  pr_error :: string

definition precheck_is_ok :: "precheck_result \<Rightarrow> bool" where
  "precheck_is_ok r \<longleftrightarrow> pr_ping r \<and> pr_snmp r \<and> pr_error r = ''''"

text \<open>\<open>descr\<close> is the system description an address gives for a community, \<open>None\<close> where the query raises.\<close>

definition snmp_check :: "(string \<Rightarrow> string \<Rightarrow> string option) \<Rightarrow> string \<Rightarrow> string \<Rightarrow> bool" where
  "snmp_check descr a community = (case descr a community of None \<Rightarrow> False | Some d \<Rightarrow> d \<noteq> '''')"

definition run_precheck ::
  "cmts_env \<Rightarrow> (string \<Rightarrow> bool) \<Rightarrow> (string \<Rightarrow> string \<Rightarrow> string option) \<Rightarrow> adapter_config \<Rightarrow> precheck_result" where
  "run_precheck ev ping descr ad =
     (let fail = (\<lambda>h msg. \<lparr>pr_ping = False, pr_snmp = False, pr_host = h, pr_inet = '''', pr_error = msg\<rparr>);
          h = py_strip (ad_hostname ad); c = py_strip (ad_community ad)
      in if h = '''' then fail '''' ''adapter.hostname must be set for CMTS precheck''
         else if c = '''' then fail '''' ''adapter.community must be set for CMTS precheck''
         else (case resolve_cmts_inet ev h of
                 Inl x \<Rightarrow> fail h ''cmts hostname resolution failed''
               | Inr a \<Rightarrow>
                   (let p = ping a; s = snmp_check descr a c
                    in \<lparr>pr_ping = p, pr_snmp = s, pr_host = h, pr_inet = a,
                        pr_error = (if \<not> p then ''cmts ping check failed'' else if \<not> s then ''cmts snmp check failed'' else '''')\<rparr>)))"

section \<open>Lemmas\<close>

lemma endswith_append [simp]: "py_endswith (s @ p) p"
  by (simp add: py_endswith_def)

lemma startswith_append [simp]: "py_startswith (p @ s) p"
  by (simp add: py_startswith_def)

lemma scan_any_running:
  "scan_pidfiles kill dir fs names (c, w) = (c', w') \<Longrightarrow>
   pc_running c' \<or> list_ex pc_running w' \<longleftrightarrow>
     list_ex pc_running w \<or>
     (\<exists>n\<in>set names. pc_running (pidfile_info kill (dir @ ''/'' @ n) (case fs n of None \<Rightarrow> None | Some t \<Rightarrow> t) None)) \<or>
     (pc_running c \<and> controller_pidfile \<notin> set names)"
proof (induction names arbitrary: c w)
  case (Cons n names)
  have run: "pc_running (pidfile_info kill p t sg) = pc_running (pidfile_info kill p t None)" for p t sg
    by (simp add: pidfile_info_def Let_def)
  let ?i = "pidfile_info kill (dir @ ''/'' @ n) (case fs n of None \<Rightarrow> None | Some t \<Rightarrow> t)"
  show ?case
  proof (cases "n = controller_pidfile")
    case True
    with Cons.prems have "scan_pidfiles kill dir fs names (?i None, w) = (c', w')" by (simp add: Let_def)
    from Cons.IH [OF this] True show ?thesis by auto
  next
    case False
    with Cons.prems obtain sg where "scan_pidfiles kill dir fs names (c, w @ [?i sg]) = (c', w')"
      by (auto simp: Let_def split: if_splits)
    from Cons.IH [OF this] False run [of _ _ sg] show ?thesis by auto
  qed
qed auto

lemma int_str_not_unbound: "int_str sg \<noteq> ''unbound''"
proof
  assume "int_str sg = ''unbound''"
  then have "py_int ''unbound'' = Some sg" using py_int_int_str [of sg] by simp
  then show False by (simp add: py_int_def py_strip_def py_lstrip_def py_space_def digit_value_def Let_def)
qed

lemma int_str_no_space: "c \<in> set (int_str i) \<Longrightarrow> \<not> py_space c"
  using nat_str_digits [of c "nat i"] nat_str_digits [of c "nat (- i)"]
  by (auto simp: int_str_def py_space_def Let_def split: if_splits)

section \<open>Properties\<close>

text \<open>C22: The service is ready exactly if the state directory is configured and usable in its mode (created,
  with its subdirectories, and writable; for a worker existing, readable and with an enabled group), the
  startup is complete with discovery and priming done, and every discovered group has a snapshot.
\<close>

theorem readiness_iff:
  "ry_failed (readiness fp st rt) = None \<longleftrightarrow>
     py_strip (st_state_dir st) \<noteq> '''' \<and>
     (if st_mode st = Worker then fp_exists fp \<and> fp_readable fp \<and> list_ex sd_enabled (st_groups st)
      else fp_create fp \<and> fp_subdirs fp \<and> fp_writable fp) \<and>
     ss_completed (rt_status rt) \<and> ss_discovery_ok (rt_status rt) \<and> \<not> ss_prime_failed (rt_status rt) \<and>
     list_all (\<lambda>sg. case Option.bind (rt_store rt) (\<lambda>s. s sg) of None \<Rightarrow> False | Some e \<Rightarrow> 0 < md_snapshot (entry_metadata e))
       (ss_groups (rt_status rt))"
proof -
  let ?ss = "rt_status rt"
  have p: "(ready, missing) = compute_cache_ready (ss_groups ?ss) (rt_store rt) \<Longrightarrow> ready \<longleftrightarrow>
      list_all (\<lambda>sg. case Option.bind (rt_store rt) (\<lambda>s. s sg) of None \<Rightarrow> False | Some e \<Rightarrow> 0 < md_snapshot (entry_metadata e)) (ss_groups ?ss)"
    for ready missing
    by (cases "rt_store rt")
       (auto simp: compute_cache_ready_def Let_def list_all_iff filter_empty_conv not_le split: if_splits option.splits)
  have c: "fst (compute_cache_ready (ss_groups ?ss) (rt_store rt)) \<longleftrightarrow>
      list_all (\<lambda>sg. case Option.bind (rt_store rt) (\<lambda>s. s sg) of None \<Rightarrow> False | Some e \<Rightarrow> 0 < md_snapshot (entry_metadata e)) (ss_groups ?ss)"
    by (rule p) (rule prod.collapse)
  have w: "(select_worker_sg st = None) = (\<not> list_ex sd_enabled (st_groups st))" if "st_mode st = Worker"
    using that by (auto simp: select_worker_sg_def find_None_iff list_ex_iff)
  show ?thesis
    unfolding c [symmetric]
    by (cases "compute_cache_ready (ss_groups ?ss) (rt_store rt)")
       (auto simp: readiness_def state_dir_check_def worker_check_def not_ready_def Let_def w)
qed

text \<open>The worker identifiers that the reports show are accepted by the requests that take one, and the
  group in the name of a worker's pidfile is the group of the worker.
\<close>

theorem worker_names_roundtrip:
  "parse_worker_id repr (format_worker_id sg) = Inr sg \<and> parse_worker_pid_sg (worker_pidfile sg) = Some sg"
proof -
  have last: "\<not> py_space (last (int_str sg))"
    by (rule int_str_no_space [OF last_in_set [OF int_str_nonempty]])
  have "py_strip (''sgw-'' @ int_str sg) = ''sgw-'' @ int_str sg"
    using last by (intro py_strip_hd_last) (simp_all add: int_str_nonempty py_space_def)
  then have "parse_worker_id repr (format_worker_id sg) = Inr sg"
    by (simp add: parse_worker_id_def format_worker_id_def py_int_int_str int_str_nonempty py_startswith_def Let_def)
  moreover have "py_startswith (worker_pidfile sg) ''worker_''" "py_endswith (worker_pidfile sg) ''.pid''"
    using startswith_append [of "''worker_''" "int_str sg @ ''.pid''"] endswith_append [of "''worker_'' @ int_str sg" "''.pid''"]
    by (simp_all add: worker_pidfile_def)
  ultimately show ?thesis
    by (simp add: parse_worker_pid_sg_def worker_pidfile_def int_str_not_unbound py_int_int_str Let_def)
qed

text \<open>A running process is seen: if a pidfile of the directory holds a process that is running, the status
  is in order, no record counts as stale and no process scan takes place.
\<close>

theorem running_pidfile_found:
  assumes "d = Some fs" "name \<in> set names" "fs name = Some (Some txt)" "py_endswith name ''.pid''"
    and "py_int (py_strip txt) = Some pid" "pid_is_running kill pid" "py_strip (st_state_dir st) \<noteq> ''''" "py_strip txt \<noteq> ''''"
  shows "so_ok (process_status kill shlex ps st names d) \<and> \<not> so_missing (process_status kill shlex ps st names d) \<and>
    \<not> so_stale (process_status kill shlex ps st names d) \<and> \<not> so_fallback (process_status kill shlex ps st names d)"
proof -
  let ?dir = "st_state_dir st @ ''/pids''" and ?files = "filter (\<lambda>n. fs n \<noteq> None \<and> py_endswith n ''.pid'') names"
  have n: "name \<in> set ?files" using assms(2-4) by simp
  obtain c w where sc: "scan_pidfiles kill ?dir fs ?files (no_process, []) = (c, w)" by fastforce
  have "pc_running (pidfile_info kill (?dir @ ''/'' @ name) (case fs name of None \<Rightarrow> None | Some t \<Rightarrow> t) None)"
    using assms(3,5,6,8) by (simp add: pidfile_info_def)
  then have run: "pc_running c \<or> list_ex pc_running w"
    unfolding scan_any_running [OF sc] using n by blast
  have "?files \<noteq> []" by (rule notI) (use n in \<open>simp only: list.set empty_iff\<close>)
  with sc run have "collect_pidfile_status kill ?dir names d = (c, w, False, False)"
    unfolding collect_pidfile_status_def assms(1) by (simp only: option.case Let_def sc prod.case if_False simp_thms)
  with run assms(7) show ?thesis by (simp add: process_status_def any_running_def Let_def)
qed

text \<open>The pidfile of a process is removed when another process with the same name for it ends: standalone,
  controller and combined mode share one name, so after the first of two has ended the second runs without
  a record and its status counts the records as missing.
\<close>

theorem pidfile_removed_by_other:
  assumes "mode1 \<noteq> Worker" "mode2 \<noteq> Worker"
    and "d = pidfile_exit True (pidfile_for_runtime mode1 sg1)
           (pidfile_enter True (pidfile_for_runtime mode2 sg2) pid2 (pidfile_enter True (pidfile_for_runtime mode1 sg1) pid1 None))"
  shows "collect_pidfile_status kill dir names d = (no_process, [], True, False)"
proof -
  have "pidfile_for_runtime mode1 sg1 = controller_pidfile" "pidfile_for_runtime mode2 sg2 = controller_pidfile"
    using assms(1,2) by (simp_all add: pidfile_for_runtime_def split: orch_mode.splits)
  then show ?thesis
    by (simp add: assms(3) pidfile_enter_def pidfile_exit_def collect_pidfile_status_def)
qed

lemma running_pidfile_found_witness:
  "so_ok (process_status (\<lambda>p. Delivered) (\<lambda>s. None) None (demo_settings\<lparr>st_state_dir := ''x''\<rparr>) [''controller.pid'']
     (pidfile_enter True controller_pidfile 7 None))"
proof -
  let ?txt = "int_str 7 @ [CHR 0x0A]"
  have s: "py_strip ?txt = ''7''" "py_strip ''x'' = ''x''" "py_int ''7'' = Some 7"
    by (simp_all add: int_str_def nat_str.simps digit_char_def char_of_def bit_Suc_0_iff py_strip_def py_lstrip_def py_space_def
        py_int_def digit_value_def Let_def)
  show ?thesis
    by (rule running_pidfile_found [of _ "Map.empty(controller_pidfile \<mapsto> Some ?txt)" "''controller.pid''" _ ?txt 7, THEN conjunct1])
       (simp_all add: s pidfile_enter_def controller_pidfile_def py_endswith_def pid_is_running_def)
qed

lemma pidfile_removed_by_other_witness:
  "collect_pidfile_status (\<lambda>p. Delivered) ''x'' [''controller.pid'']
     (pidfile_exit True (pidfile_for_runtime Standalone None)
        (pidfile_enter True (pidfile_for_runtime Combined None) 8 (pidfile_enter True (pidfile_for_runtime Standalone None) 7 None))) =
   (no_process, [], True, False)"
  by (rule pidfile_removed_by_other [of Standalone Combined]) simp_all

end
