(* ===== verification/PnmFiles.thy ===== *)
theory PnmFiles
  imports Prelude "HOL-Library.Word"
begin

text \<open>
  The upstream OFDMA RxMER capture files a CMTS uploads: the common header of
  \<open>pnm/parser/cmts_pnm_header.py\<close>, the file types of \<open>pnm/parser/file_type.py\<close> and the
  per-subcarrier payload of \<open>pnm/parser/CmtsUsOfdmaRxMerPerSubcarrier.py\<close>.  Bytes are 8-bit words,
  a text is the list of its code points, and the formats of \<open>struct.unpack\<close> are the lists of their
  field widths.  Parameters: the printing of a MAC address and the statistics of the values, both of
  the pypnm package.
\<close>

section \<open>Bytes\<close>

type_synonym byte = "8 word"
type_synonym code_points = "nat list"

text \<open>\<open>struct.unpack\<close> with a format of network byte order, without padding: the raw fields, and an
  unsigned field read from its bytes.\<close>

fun split_sizes :: "nat list \<Rightarrow> byte list \<Rightarrow> byte list list" where
  "split_sizes [] bs = []"
| "split_sizes (n # ns) bs = take n bs # split_sizes ns (drop n bs)"

definition unpack_be :: "byte list \<Rightarrow> int" where
  "unpack_be bs = foldl (\<lambda>acc b. acc * 256 + uint b) 0 bs"

definition hex_char_of :: "nat \<Rightarrow> char" where
  "hex_char_of d = (if d < 10 then char_of (48 + d) else char_of (87 + d))"

text \<open>\<open>bytes.hex()\<close>.\<close>

definition bytes_hex :: "byte list \<Rightarrow> string" where
  "bytes_hex bs = concat (map (\<lambda>b. [hex_char_of (unat b div 16), hex_char_of (unat b mod 16)]) bs)"

text \<open>\<open>bytes.decode("ascii", errors="ignore")\<close>.\<close>

definition ascii_ignore :: "byte list \<Rightarrow> string" where
  "ascii_ignore bs = map (\<lambda>b. char_of (unat b)) (filter (\<lambda>b. unat b < 128) bs)"

text \<open>\<open>bytes.decode("utf-8", errors="ignore")\<close>.  \<open>second_byte b\<close> is the range of the byte after the
  leading byte \<open>b\<close> of three or four; a sequence that breaks off is dropped up to the byte that does
  not continue it.\<close>

definition continues :: "nat \<Rightarrow> bool" where
  "continues b = (128 \<le> b \<and> b \<le> 191)"

definition second_byte :: "nat \<Rightarrow> nat \<Rightarrow> bool" where
  "second_byte b c =
     ((if b = 224 then 160 else if b = 240 then 144 else 128) \<le> c
      \<and> c \<le> (if b = 237 then 159 else if b = 244 then 143 else 191))"

function utf8_ignore :: "nat list \<Rightarrow> code_points" where
  "utf8_ignore [] = []"
| "utf8_ignore (b # bs) =
     (if b < 128 then b # utf8_ignore bs
      else if 194 \<le> b \<and> b \<le> 223 then
        (case bs of
           c # cs \<Rightarrow> if continues c then ((b - 192) * 64 + (c - 128)) # utf8_ignore cs else utf8_ignore bs
         | [] \<Rightarrow> [])
      else if 224 \<le> b \<and> b \<le> 239 then
        (case bs of
           c # d # ds \<Rightarrow>
             if \<not> second_byte b c then utf8_ignore bs
             else if \<not> continues d then utf8_ignore (d # ds)
             else ((b - 224) * 4096 + (c - 128) * 64 + (d - 128)) # utf8_ignore ds
         | [c] \<Rightarrow> if \<not> second_byte b c then utf8_ignore bs else []
         | [] \<Rightarrow> [])
      else if 240 \<le> b \<and> b \<le> 244 then
        (case bs of
           c # d # e # es \<Rightarrow>
             if \<not> second_byte b c then utf8_ignore bs
             else if \<not> continues d then utf8_ignore (d # e # es)
             else if \<not> continues e then utf8_ignore (e # es)
             else ((b - 240) * 262144 + (c - 128) * 4096 + (d - 128) * 64 + (e - 128)) # utf8_ignore es
         | [c, d] \<Rightarrow> if \<not> second_byte b c then utf8_ignore bs
                    else if \<not> continues d then utf8_ignore [d] else []
         | [c] \<Rightarrow> if \<not> second_byte b c then utf8_ignore bs else []
         | [] \<Rightarrow> [])
      else utf8_ignore bs)"
  by pat_completeness auto
termination by (relation "measure length") auto

declare utf8_ignore.simps(2) [simp del]

text \<open>\<open>str.strip\<close> on code points, and \<open>split(b"\x00", 1)[0]\<close>.\<close>

definition blank_point :: "nat \<Rightarrow> bool" where
  "blank_point n =
     ((9 \<le> n \<and> n \<le> 13) \<or> (28 \<le> n \<and> n \<le> 32) \<or> n = 133 \<or> n = 160 \<or> n = 5760
      \<or> (8192 \<le> n \<and> n \<le> 8202) \<or> n = 8232 \<or> n = 8233 \<or> n = 8239 \<or> n = 8287 \<or> n = 12288)"

definition strip_points :: "code_points \<Rightarrow> code_points" where
  "strip_points s = rev (dropWhile blank_point (rev (dropWhile blank_point s)))"

definition until_nul :: "byte list \<Rightarrow> byte list" where
  "until_nul bs = takeWhile (\<lambda>b. b \<noteq> 0) bs"

section \<open>The common header\<close>

datatype cmts_file_type = UsOfdmaRxMerPerSubcarrier

definition file_type_value :: "cmts_file_type \<Rightarrow> string" where
  "file_type_value t = (case t of UsOfdmaRxMerPerSubcarrier \<Rightarrow> ''PNNi'')"

definition file_type_of :: "string \<Rightarrow> cmts_file_type option" where
  "file_type_of s = (if s = file_type_value UsOfdmaRxMerPerSubcarrier then Some UsOfdmaRxMerPerSubcarrier else None)"

record pnm_header =
  ph_type :: cmts_file_type
  ph_major :: int
  ph_minor :: int
  ph_time :: int
  ph_if_index :: int
  ph_ccap :: code_points
  ph_rpd :: string
  ph_port :: int

definition header_format :: "nat list" where "header_format = [4, 1, 1, 4]"
definition extended_v1_format :: "nat list" where "extended_v1_format = [4, 256]"
definition extended_v2_suffix_format :: "nat list" where "extended_v2_suffix_format = [6, 1]"

text \<open>\<open>_parse_header\<close>: the header and \<open>pnm_data\<close>, the bytes after it.  \<open>expected\<close> is the file type of
  the class, \<open>mac\<close> the printing of a MAC address.\<close>

definition check_file_type :: "cmts_file_type option \<Rightarrow> byte list \<Rightarrow> cmts_file_type result" where
  "check_file_type expected raw =
     (case file_type_of (ascii_ignore raw) of
        None \<Rightarrow> Inl (ValueError (''Invalid CMTS PNM file type: '' @ bytes_hex raw))
      | Some t \<Rightarrow>
          (case expected of
             None \<Rightarrow> Inr t
           | Some e \<Rightarrow>
               if t \<noteq> e
               then Inl (ValueError (''Invalid file type: expected ''
                      @ bytes_hex (map (\<lambda>c. of_nat (of_char c)) (file_type_value e)) @ '', got '' @ bytes_hex raw))
               else Inr t))"

definition parse_header ::
  "(byte list \<Rightarrow> string) \<Rightarrow> cmts_file_type option \<Rightarrow> byte list \<Rightarrow> (pnm_header \<times> byte list) result" where
  "parse_header mac expected bs =
     (let header_size = sum_list header_format;
          v1_end = header_size + sum_list extended_v1_format;
          v2_size = sum_list extended_v2_suffix_format
      in if length bs < v1_end then Inl (ValueError ''Binary data too short to contain CMTS PNM header.'')
         else
           (let fields = split_sizes header_format (take header_size bs);
                v1 = split_sizes extended_v1_format (drop header_size (take v1_end bs));
                major = unpack_be (fields ! 1)
            in case check_file_type expected (fields ! 0) of
                 Inl e \<Rightarrow> Inl e
               | Inr t \<Rightarrow>
                   if 2 \<le> major \<and> length bs < v1_end + v2_size
                   then Inl (ValueError ''Binary data too short to contain CMTS PNM v2+ RPD fields.'')
                   else
                     (let v2 = split_sizes extended_v2_suffix_format (drop v1_end (take (v1_end + v2_size) bs));
                          ext = 2 \<le> major
                      in Inr (\<lparr>ph_type = t, ph_major = major, ph_minor = unpack_be (fields ! 2),
                               ph_time = unpack_be (fields ! 3), ph_if_index = unpack_be (v1 ! 0),
                               ph_ccap = strip_points (utf8_ignore (map unat (until_nul (v1 ! 1)))),
                               ph_rpd = mac (if ext then v2 ! 0 else replicate 6 0),
                               ph_port = (if ext then unpack_be (v2 ! 1) else 0)\<rparr>,
                              drop (if ext then v1_end + v2_size else v1_end) bs))))"

section \<open>The RxMER payload\<close>

definition payload_header_format :: "nat list" where "payload_header_format = [6, 2, 1, 4, 2, 1, 4]"

text \<open>\<open>get_rxmer_values\<close>: quarter-dB values, clamped to 63.5 dB.\<close>

definition rxmer_value :: "byte \<Rightarrow> real" where
  "rxmer_value b = min (max (real (unat b) / 4) 0) (127 / 2)"

record 'a rxmer_file =
  rx_header :: pnm_header
  rx_mac :: string
  rx_averages :: int
  rx_pre_eq :: bool
  rx_zero_frequency :: int
  rx_first_index :: int
  rx_spacing :: int
  rx_length :: int
  rx_bandwidth :: int
  rx_values :: "real list"
  rx_statistics :: 'a

text \<open>\<open>_process\<close> and \<open>_update_model\<close> on the header and the bytes after it; the statistics may raise.\<close>

definition parse_payload ::
  "(byte list \<Rightarrow> string) \<Rightarrow> (real list \<Rightarrow> 'a result) \<Rightarrow> pnm_header \<Rightarrow> byte list \<Rightarrow> 'a rxmer_file result" where
  "parse_payload mac stats h pnm_data =
     (let size = sum_list payload_header_format
      in if length pnm_data < size
         then Inl (ValueError ''Binary data too short to contain CMTS US OFDMA RxMER payload header.'')
         else
           (let f = split_sizes payload_header_format (take size pnm_data);
                data_length = unpack_be (f ! 6);
                data = drop size (take (size + nat data_length) pnm_data);
                spacing = unpack_be (f ! 5) * 1000;
                vals = map rxmer_value data
            in if int (length data) < data_length
               then Inl (ValueError (''Insufficient RxMER data length: '' @ int_str (int (length data))
                      @ '' based on header field: '' @ int_str data_length))
               else (case stats vals of
                       Inl e \<Rightarrow> Inl e
                     | Inr st \<Rightarrow>
                         Inr \<lparr>rx_header = h, rx_mac = mac (f ! 0), rx_averages = unpack_be (f ! 1),
                              rx_pre_eq = (unpack_be (f ! 2) \<noteq> 0), rx_zero_frequency = unpack_be (f ! 3),
                              rx_first_index = unpack_be (f ! 4), rx_spacing = spacing,
                              rx_length = data_length, rx_bandwidth = data_length * spacing,
                              rx_values = vals, rx_statistics = st\<rparr>)))"

definition parse_rxmer ::
  "(byte list \<Rightarrow> string) \<Rightarrow> (real list \<Rightarrow> 'a result) \<Rightarrow> byte list \<Rightarrow> 'a rxmer_file result" where
  "parse_rxmer mac stats bs =
     (case parse_header mac (Some UsOfdmaRxMerPerSubcarrier) bs of
        Inl e \<Rightarrow> Inl e
      | Inr (h, pnm_data) \<Rightarrow> parse_payload mac stats h pnm_data)"

definition frequencies :: "'a rxmer_file \<Rightarrow> int list" where
  "frequencies m =
     (if rx_spacing m \<le> 0 \<or> rx_length m \<le> 0 then []
      else map (\<lambda>i. (rx_zero_frequency m + rx_spacing m * rx_first_index m) + int i * rx_spacing m)
             [0..<nat (rx_length m)])"

section \<open>The files the format describes\<close>

text \<open>The reference encoder: the bytes of a file with given fields.\<close>

fun pack_be :: "nat \<Rightarrow> int \<Rightarrow> byte list" where
  "pack_be 0 v = []"
| "pack_be (Suc n) v = pack_be n (v div 256) @ [word_of_int (v mod 256)]"

record rxmer_source =
  so_major :: int
  so_minor :: int
  so_time :: int
  so_if_index :: int
  so_ccap :: "byte list"
  so_rpd :: "byte list"
  so_port :: int
  so_mac :: "byte list"
  so_averages :: int
  so_pre_eq :: int
  so_zero :: int
  so_first :: int
  so_spacing_khz :: int
  so_data :: "byte list"

definition file_magic :: "byte list" where
  "file_magic = [80, 78, 78, 105]"

definition encode_header :: "rxmer_source \<Rightarrow> byte list" where
  "encode_header s =
     concat [file_magic, pack_be 1 (so_major s), pack_be 1 (so_minor s), pack_be 4 (so_time s)]
     @ concat [pack_be 4 (so_if_index s), so_ccap s @ replicate (256 - length (so_ccap s)) 0]
     @ (if 2 \<le> so_major s then concat [so_rpd s, pack_be 1 (so_port s)] else [])"

definition encode_payload :: "rxmer_source \<Rightarrow> byte list" where
  "encode_payload s =
     concat [so_mac s, pack_be 2 (so_averages s), pack_be 1 (so_pre_eq s), pack_be 4 (so_zero s),
             pack_be 2 (so_first s), pack_be 1 (so_spacing_khz s), pack_be 4 (int (length (so_data s)))]
     @ so_data s"

definition fits :: "rxmer_source \<Rightarrow> bool" where
  "fits s =
     (0 \<le> so_major s \<and> so_major s < 256 \<and> 0 \<le> so_minor s \<and> so_minor s < 256
      \<and> 0 \<le> so_time s \<and> so_time s < 2 ^ 32 \<and> 0 \<le> so_if_index s \<and> so_if_index s < 2 ^ 32
      \<and> length (so_ccap s) \<le> 256 \<and> length (so_rpd s) = 6 \<and> 0 \<le> so_port s \<and> so_port s < 256
      \<and> length (so_mac s) = 6 \<and> 0 \<le> so_averages s \<and> so_averages s < 2 ^ 16
      \<and> 0 \<le> so_pre_eq s \<and> so_pre_eq s < 256 \<and> 0 \<le> so_zero s \<and> so_zero s < 2 ^ 32
      \<and> 0 \<le> so_first s \<and> so_first s < 2 ^ 16 \<and> 0 \<le> so_spacing_khz s \<and> so_spacing_khz s < 256
      \<and> int (length (so_data s)) < 2 ^ 32)"

text \<open>What the parser should read from them.\<close>

definition decoded_header :: "(byte list \<Rightarrow> string) \<Rightarrow> rxmer_source \<Rightarrow> pnm_header" where
  "decoded_header mac s =
     \<lparr>ph_type = UsOfdmaRxMerPerSubcarrier, ph_major = so_major s, ph_minor = so_minor s, ph_time = so_time s,
      ph_if_index = so_if_index s, ph_ccap = strip_points (utf8_ignore (map unat (until_nul (so_ccap s)))),
      ph_rpd = mac (if 2 \<le> so_major s then so_rpd s else replicate 6 0),
      ph_port = (if 2 \<le> so_major s then so_port s else 0)\<rparr>"

definition decoded :: "(byte list \<Rightarrow> string) \<Rightarrow> rxmer_source \<Rightarrow> 'a \<Rightarrow> 'a rxmer_file" where
  "decoded mac s st =
     \<lparr>rx_header = decoded_header mac s, rx_mac = mac (so_mac s), rx_averages = so_averages s,
      rx_pre_eq = (so_pre_eq s \<noteq> 0), rx_zero_frequency = so_zero s, rx_first_index = so_first s,
      rx_spacing = so_spacing_khz s * 1000, rx_length = int (length (so_data s)),
      rx_bandwidth = int (length (so_data s)) * (so_spacing_khz s * 1000),
      rx_values = map rxmer_value (so_data s), rx_statistics = st\<rparr>"

section \<open>Lemmas\<close>

lemma length_pack_be [simp]: "length (pack_be n v) = n"
  by (induction n v rule: pack_be.induct) auto

lemma unpack_be_snoc: "unpack_be (bs @ [b]) = unpack_be bs * 256 + uint b"
  by (simp add: unpack_be_def)

lemma unpack_pack_be [simp]: "0 \<le> v \<Longrightarrow> v < 256 ^ n \<Longrightarrow> unpack_be (pack_be n v) = v"
proof (induction n v rule: pack_be.induct)
  case (1 v)
  then show ?case by (simp add: unpack_be_def)
next
  case (2 n v)
  have "v div 256 < 256 ^ n" using "2.prems" by (simp add: div_less_iff_less_mult mult.commute)
  with 2 have "unpack_be (pack_be n (v div 256)) = v div 256" by (simp add: pos_imp_zdiv_nonneg_iff)
  moreover have "uint (word_of_int (v mod 256) :: byte) = v mod 256"
    by (simp add: uint_word_of_int)
  ultimately show ?case by (simp add: unpack_be_snoc)
qed

lemma split_sizes_concat:
  "map length xs = ns \<Longrightarrow> split_sizes ns (concat xs @ ys) = xs"
  by (induction xs arbitrary: ns) auto

lemma split_sizes_exact: "map length xs = ns \<Longrightarrow> split_sizes ns (concat xs) = xs"
  using split_sizes_concat [of xs ns "[]"] by simp

lemma length_concat_sizes: "map length xs = ns \<Longrightarrow> length (concat xs) = sum_list ns"
  by (simp add: length_concat)

text \<open>A record of fixed widths in front of other bytes: the slice that \<open>unpack\<close> gets, and its fields.\<close>

lemma unpack_slice:
  assumes "map length xs = ns"
  shows "split_sizes ns (take (sum_list ns) (concat xs @ ys)) = xs"
  using assms length_concat_sizes [OF assms] by (simp add: split_sizes_exact)

lemma until_nul_pad: "until_nul (bs @ replicate k 0) = until_nul bs"
proof (induction bs)
  case Nil
  show ?case by (cases k) (auto simp: until_nul_def)
next
  case (Cons b bs)
  then show ?case by (auto simp: until_nul_def)
qed

text \<open>The encoder's three pieces have the widths of the formats.\<close>

definition magic_fields :: "rxmer_source \<Rightarrow> byte list list" where
  "magic_fields s = [file_magic, pack_be 1 (so_major s), pack_be 1 (so_minor s), pack_be 4 (so_time s)]"

definition v1_fields :: "rxmer_source \<Rightarrow> byte list list" where
  "v1_fields s = [pack_be 4 (so_if_index s), so_ccap s @ replicate (256 - length (so_ccap s)) 0]"

definition v2_fields :: "rxmer_source \<Rightarrow> byte list list" where
  "v2_fields s = [so_rpd s, pack_be 1 (so_port s)]"

definition payload_fields :: "rxmer_source \<Rightarrow> byte list list" where
  "payload_fields s =
     [so_mac s, pack_be 2 (so_averages s), pack_be 1 (so_pre_eq s), pack_be 4 (so_zero s),
      pack_be 2 (so_first s), pack_be 1 (so_spacing_khz s), pack_be 4 (int (length (so_data s)))]"

lemma field_widths:
  assumes "fits s"
  shows "map length (magic_fields s) = header_format" "map length (v1_fields s) = extended_v1_format"
    "map length (v2_fields s) = extended_v2_suffix_format" "map length (payload_fields s) = payload_header_format"
  using assms
  by (simp_all add: fits_def magic_fields_def v1_fields_def v2_fields_def payload_fields_def header_format_def
      extended_v1_format_def extended_v2_suffix_format_def payload_header_format_def file_magic_def)

lemma format_sizes:
  "sum_list header_format = 10" "sum_list extended_v1_format = 260"
  "sum_list extended_v2_suffix_format = 7" "sum_list payload_header_format = 20"
  by (simp_all add: header_format_def extended_v1_format_def extended_v2_suffix_format_def payload_header_format_def)

lemma piece_lengths:
  assumes "fits s"
  shows "length (concat (magic_fields s)) = 10" "length (concat (v1_fields s)) = 260"
    "length (concat (v2_fields s)) = 7" "length (concat (payload_fields s)) = 20"
  using field_widths [OF assms, THEN length_concat_sizes] by (simp_all add: format_sizes)

lemma magic_ok: "check_file_type (Some UsOfdmaRxMerPerSubcarrier) file_magic = Inr UsOfdmaRxMerPerSubcarrier"
  by (simp add: check_file_type_def file_type_of_def file_type_value_def ascii_ignore_def file_magic_def char_of_def
      bit_Suc_0_iff)

lemma encode_header_pieces:
  "encode_header s = concat (magic_fields s) @ concat (v1_fields s) @ (if 2 \<le> so_major s then concat (v2_fields s) else [])"
  by (simp add: encode_header_def magic_fields_def v1_fields_def v2_fields_def)

lemma length_encode_header: "fits s \<Longrightarrow> length (encode_header s) = (if 2 \<le> so_major s then 277 else 270)"
  by (simp add: encode_header_pieces piece_lengths)

text \<open>The slices that \<open>_parse_header\<close> takes of a file, whatever follows the header.\<close>

lemma header_slices:
  assumes "fits s" and "bs = encode_header s @ rest"
  shows "split_sizes header_format (take 10 bs) = magic_fields s"
    "split_sizes extended_v1_format (drop 10 (take 270 bs)) = v1_fields s"
    "2 \<le> so_major s \<Longrightarrow> split_sizes extended_v2_suffix_format (drop 270 (take 277 bs)) = v2_fields s"
  using assms piece_lengths [OF assms(1)] field_widths [OF assms(1), THEN split_sizes_exact]
  by (simp_all add: encode_header_pieces)

lemma major_field: "fits s \<Longrightarrow> unpack_be (magic_fields s ! Suc 0) = so_major s"
  by (simp add: magic_fields_def fits_def del: pack_be.simps)

lemma parse_header_encode:
  assumes "fits s"
  shows "parse_header mac (Some UsOfdmaRxMerPerSubcarrier) (encode_header s @ rest) = Inr (decoded_header mac s, rest)"
proof -
  note slices = header_slices [OF assms refl, of rest]
  have raw: "magic_fields s ! 0 = file_magic" by (simp add: magic_fields_def)
  have fields: "unpack_be (magic_fields s ! 2) = so_minor s" "unpack_be (magic_fields s ! 3) = so_time s"
    "unpack_be (v1_fields s ! 0) = so_if_index s"
    "strip_points (utf8_ignore (map unat (until_nul (v1_fields s ! Suc 0))))
       = strip_points (utf8_ignore (map unat (until_nul (so_ccap s))))"
    "v2_fields s ! 0 = so_rpd s" "unpack_be (v2_fields s ! Suc 0) = so_port s"
    using assms
    by (simp_all add: magic_fields_def v1_fields_def v2_fields_def fits_def until_nul_pad numeral_2_eq_2
        numeral_3_eq_3 del: pack_be.simps)
  show ?thesis
    using slices length_encode_header [OF assms]
    by (simp add: parse_header_def Let_def format_sizes raw magic_ok fields major_field [OF assms] decoded_header_def)
qed

lemma parse_header_truncated:
  assumes "fits s" and "n < length (encode_header s)"
  shows "\<exists>e. parse_header mac expected (take n (encode_header s @ rest)) = Inl (ValueError e)"
proof (cases "n < 270")
  case True
  then show ?thesis
    using length_encode_header [OF assms(1)] by (auto simp: parse_header_def Let_def format_sizes)
next
  case False
  with assms have major: "2 \<le> so_major s" and n: "270 \<le> n" "n < 277"
    by (auto simp: length_encode_header split: if_splits)
  have "take 10 (take n (encode_header s @ rest)) = take 10 (encode_header s @ rest)"
    using n by (simp only: take_take min_absorb1)
  then have "unpack_be (split_sizes header_format (take 10 (take n (encode_header s @ rest))) ! Suc 0) = so_major s"
    by (simp only: header_slices(1) [OF assms(1) refl] major_field [OF assms(1)])
  then show ?thesis
    using major n length_encode_header [OF assms(1)]
    by (auto simp: parse_header_def Let_def format_sizes check_file_type_def split: option.splits)
qed

text \<open>The payload after its header, complete or cut short.\<close>

lemma encode_payload_pieces: "encode_payload s = concat (payload_fields s) @ so_data s"
  by (simp add: encode_payload_def payload_fields_def)

lemma payload_values:
  assumes "fits s"
  shows "payload_fields s ! 0 = so_mac s" "unpack_be (payload_fields s ! Suc 0) = so_averages s"
    "unpack_be (payload_fields s ! 2) = so_pre_eq s" "unpack_be (payload_fields s ! 3) = so_zero s"
    "unpack_be (payload_fields s ! 4) = so_first s" "unpack_be (payload_fields s ! 5) = so_spacing_khz s"
    "unpack_be (payload_fields s ! 6) = int (length (so_data s))"
  using assms by (simp_all add: payload_fields_def fits_def del: pack_be.simps)

lemma parse_payload_encode:
  assumes "fits s"
  shows "parse_payload mac stats h (concat (payload_fields s) @ rest) =
    (let data = take (length (so_data s)) rest
     in if length data < length (so_data s)
        then Inl (ValueError (''Insufficient RxMER data length: '' @ int_str (int (length data))
               @ '' based on header field: '' @ int_str (int (length (so_data s)))))
        else (case stats (map rxmer_value data) of
                Inl e \<Rightarrow> Inl e
              | Inr st \<Rightarrow> Inr (decoded mac (s\<lparr>so_data := data\<rparr>) st \<lparr>rx_header := h\<rparr>)))"
proof -
  have len: "length (concat (payload_fields s)) = 20" by (rule piece_lengths [OF assms])
  have f: "split_sizes payload_header_format (concat (payload_fields s)) = payload_fields s"
    by (rule split_sizes_exact [OF field_widths(4) [OF assms]])
  have data: "drop 20 (take (20 + n) (concat (payload_fields s) @ rest)) = take n rest"
    "take 20 (concat (payload_fields s) @ rest) = concat (payload_fields s)" for n
    using len by simp_all
  show ?thesis
    unfolding parse_payload_def Let_def format_sizes data f One_nat_def payload_values [OF assms]
    using len by (simp add: decoded_def min_def split: sum.splits)
qed

section \<open>Properties\<close>

text \<open>C27: A file with any header and payload is read back as its fields, and bytes after the data are ignored.\<close>

theorem rxmer_file_roundtrip:
  assumes "fits s" and "stats (map rxmer_value (so_data s)) = Inr st"
  shows "parse_rxmer mac stats (encode_header s @ encode_payload s @ junk) = Inr (decoded mac s st)"
  using assms
  by (simp add: parse_rxmer_def parse_header_encode encode_payload_pieces parse_payload_encode decoded_def
      decoded_header_def Let_def)

definition sample_source :: rxmer_source where
  "sample_source =
     \<lparr>so_major = 2, so_minor = 0, so_time = 1700000000, so_if_index = 1001, so_ccap = [99, 99, 97, 112],
      so_rpd = [0, 17, 34, 51, 68, 85], so_port = 7, so_mac = [170, 187, 204, 221, 238, 255], so_averages = 64,
      so_pre_eq = 1, so_zero = 24000000, so_first = 1, so_spacing_khz = 50, so_data = [100, 120, 255, 0]\<rparr>"

lemma fits_sample: "fits sample_source"
  by (simp add: fits_def sample_source_def)

lemma rxmer_file_roundtrip_witness:
  "parse_rxmer bytes_hex (\<lambda>v. Inr (length v)) (encode_header sample_source @ encode_payload sample_source @ [1, 2])
     = Inr (decoded bytes_hex sample_source 4)"
  by (rule rxmer_file_roundtrip [OF fits_sample]) (simp add: sample_source_def)

text \<open>A file cut short anywhere is refused with a \<open>ValueError\<close>.\<close>

theorem truncated_file_refused:
  assumes "fits s" and "n < length (encode_header s @ encode_payload s)"
  shows "\<exists>e. parse_rxmer mac stats (take n (encode_header s @ encode_payload s)) = Inl (ValueError e)"
proof (cases "n < length (encode_header s)")
  case True
  then obtain e where
    "parse_header mac (Some UsOfdmaRxMerPerSubcarrier) (take n (encode_header s @ encode_payload s)) = Inl (ValueError e)"
    using parse_header_truncated [OF assms(1)] by blast
  then show ?thesis by (simp only: parse_rxmer_def sum.case) blast
next
  case False
  note len = piece_lengths(4) [OF assms(1)]
  define m where "m = n - length (encode_header s)"
  with False assms(2) have m: "m < 20 + length (so_data s)" by (simp add: encode_payload_pieces len)
  have "take n (encode_header s @ encode_payload s) = encode_header s @ take m (encode_payload s)"
    using False by (simp add: m_def)
  then have parse: "parse_rxmer mac stats (take n (encode_header s @ encode_payload s))
      = parse_payload mac stats (decoded_header mac s) (take m (encode_payload s))"
    by (simp only: parse_rxmer_def parse_header_encode [OF assms(1)] sum.case prod.case)
  show ?thesis
  proof (cases "m < 20")
    case True
    then show ?thesis
      unfolding parse by (simp add: parse_payload_def Let_def format_sizes encode_payload_pieces len)
  next
    case False
    then have "take m (encode_payload s) = concat (payload_fields s) @ take (m - 20) (so_data s)"
      by (simp add: encode_payload_pieces len)
    moreover have "m - 20 < length (so_data s)" using m False by simp
    ultimately show ?thesis
      unfolding parse by (simp add: parse_payload_encode [OF assms(1)] Let_def)
  qed
qed

lemma truncated_file_refused_witness:
  "\<exists>e. parse_rxmer bytes_hex (\<lambda>v. Inr ()) (take 280 (encode_header sample_source @ encode_payload sample_source))
     = Inl (ValueError e)"
proof -
  have "280 < length (encode_header sample_source @ encode_payload sample_source)"
    using length_encode_header [OF fits_sample] piece_lengths(4) [OF fits_sample]
    by (simp add: encode_payload_pieces sample_source_def)
  then show ?thesis by (rule truncated_file_refused [OF fits_sample])
qed

text \<open>Of a file that parses, the values are as many as the data length says and lie between 0 and
  63.5 dB; the frequencies are as many, a spacing apart, and span the occupied bandwidth.\<close>

lemma rxmer_value_bounds: "0 \<le> rxmer_value b \<and> rxmer_value b \<le> 127 / 2"
  by (auto simp: rxmer_value_def)

lemma unpack_be_nonneg [simp]: "0 \<le> unpack_be bs"
  by (induction bs rule: rev_induct) (simp_all add: unpack_be_snoc, simp add: unpack_be_def)

lemma parse_rxmer_Inr:
  assumes "parse_rxmer mac stats bs = Inr m"
  shows "rx_length m = int (length (rx_values m)) \<and> (\<exists>data. rx_values m = map rxmer_value data)
    \<and> rx_bandwidth m = rx_length m * rx_spacing m"
  using assms
  by (auto simp: parse_rxmer_def parse_payload_def Let_def split: sum.splits prod.splits if_splits)

theorem rxmer_values_bounded:
  assumes "parse_rxmer mac stats bs = Inr m" and "0 < rx_spacing m"
  shows "rx_length m = int (length (rx_values m)) \<and> set (rx_values m) \<subseteq> {0..127 / 2}
    \<and> length (frequencies m) = length (rx_values m)
    \<and> rx_bandwidth m = rx_spacing m * int (length (frequencies m))"
proof -
  from parse_rxmer_Inr [OF assms(1)] obtain data where
    m: "rx_length m = int (length (rx_values m))" "rx_values m = map rxmer_value data"
      "rx_bandwidth m = rx_length m * rx_spacing m" by blast
  have "set (rx_values m) \<subseteq> {0..127 / 2}" using rxmer_value_bounds by (auto simp: m(2))
  with m assms(2) show ?thesis by (auto simp: frequencies_def)
qed

lemma rxmer_values_bounded_witness:
  "rx_bandwidth (decoded bytes_hex sample_source ())
     = rx_spacing (decoded bytes_hex sample_source ()) * int (length (frequencies (decoded bytes_hex sample_source ())))"
proof -
  have "parse_rxmer bytes_hex (\<lambda>v. Inr ()) (encode_header sample_source @ encode_payload sample_source)
      = Inr (decoded bytes_hex sample_source ())"
    using parse_header_encode [OF fits_sample, of bytes_hex "encode_payload sample_source"]
      parse_payload_encode [OF fits_sample, of bytes_hex "\<lambda>v. Inr ()" _ "so_data sample_source"]
    by (simp add: parse_rxmer_def encode_payload_pieces decoded_def decoded_header_def Let_def)
  then show ?thesis
    by (rule rxmer_values_bounded [THEN conjunct2, THEN conjunct2, THEN conjunct2]) (simp add: decoded_def sample_source_def)
qed

end
