(* ===== verification/CaptureExecutor.thy ===== *)
theory CaptureExecutor
  imports OperationStore
begin

text \<open>
  The concurrent executor of \<open>api/common/service/pnm/executor.py\<close>: a task per capture job, a semaphore
  that limits the requests in flight, retries, a time limit for a request and one for the whole batch.
  The tasks of the event loop are a step function on the phases of the jobs; an event is what happens at
  an \<open>await\<close>.  Parameters: the answers of the HTTP client, the parser of the answers and the retry
  condition, both arguments of \<open>run\<close>.
\<close>

section \<open>Data\<close>

datatype pnm_capture_status = CaptureSuccess | CaptureFailed | CaptureSkipped

datatype capture_failure =
  PerModemTimeout | OverallTimeout | HttpError | PypnmError | RequestError | UnknownReason

record http_response =
  hr_status :: int
  hr_payload :: "(string \<times> json) list"
  hr_error :: string

record executor_settings =
  xc_max_workers :: int
  xc_retry_count :: int
  xc_retry_delay :: real
  xc_modem_timeout :: real
  xc_overall_timeout :: real

definition executor_defaults :: executor_settings where
  "executor_defaults =
     \<lparr>xc_max_workers = 16, xc_retry_count = 3, xc_retry_delay = 5, xc_modem_timeout = 30, xc_overall_timeout = 120\<rparr>"

definition executor_settings_ok :: "executor_settings \<Rightarrow> bool" where
  "executor_settings_ok c =
     (1 \<le> xc_max_workers c \<and> xc_max_workers c \<le> 256 \<and> 0 \<le> xc_retry_count c \<and> xc_retry_count c \<le> 10
      \<and> 0 \<le> xc_retry_delay c \<and> xc_retry_delay c \<le> 60 \<and> 0 \<le> xc_modem_timeout c \<and> xc_modem_timeout c \<le> 300
      \<and> 0 \<le> xc_overall_timeout c \<and> xc_overall_timeout c \<le> 600)"

record capture_job =
  cj_mac :: string
  cj_ipv4 :: "string option"
  cj_ipv6 :: "string option"
  cj_path :: string
  cj_payload :: "(string \<times> json) list"

record parsed_capture =
  pc_status :: "status_code option"
  pc_message :: string
  pc_transaction :: "string option"
  pc_operation :: "string option"
  pc_raw :: "(string \<times> json) list"

record capture_result =
  cr_mac :: string
  cr_ipv4 :: "string option"
  cr_ipv6 :: "string option"
  cr_status :: pnm_capture_status
  cr_message :: string
  cr_transaction :: "string option"
  cr_operation :: "string option"
  cr_attempts :: int
  cr_http_status :: int
  cr_pypnm_status :: "status_code option"
  cr_reason :: "capture_failure option"
  cr_started :: real
  cr_finished :: real

section \<open>A request\<close>

text \<open>\<open>HttpxPnmClient.post_json\<close>: the client may not be open, the request may fail with an
  \<open>httpx.RequestError\<close> (its text), and the body may not be JSON or not be an object.\<close>

definition post_json :: "bool \<Rightarrow> string + (int \<times> json option) \<Rightarrow> http_response" where
  "post_json is_open reply =
     (if \<not> is_open then \<lparr>hr_status = 0, hr_payload = [], hr_error = ''http client not initialized''\<rparr>
      else (case reply of
              Inl msg \<Rightarrow> \<lparr>hr_status = 0, hr_payload = [], hr_error = msg\<rparr>
            | Inr (code, body) \<Rightarrow>
                \<lparr>hr_status = code, hr_payload = (case body of Some (JDict d) \<Rightarrow> d | _ \<Rightarrow> []), hr_error = ''''\<rparr>))"

definition error_per_modem_timeout :: string where
  "error_per_modem_timeout = ''per-modem timeout''"

text \<open>\<open>_post_with_timeout\<close>: the client answers after some time or never (\<open>None\<close>); \<open>None\<close> is a call that
  does not return.\<close>

definition post_with_timeout :: "executor_settings \<Rightarrow> (real \<times> http_response) option \<Rightarrow> http_response option" where
  "post_with_timeout c answer =
     (if xc_modem_timeout c \<le> 0 then map_option snd answer
      else (case answer of
              Some (d, r) \<Rightarrow>
                if d < xc_modem_timeout c then Some r
                else Some \<lparr>hr_status = 0, hr_payload = [], hr_error = error_per_modem_timeout\<rparr>
            | None \<Rightarrow> Some \<lparr>hr_status = 0, hr_payload = [], hr_error = error_per_modem_timeout\<rparr>))"

definition resolve_failure_reason :: "parsed_capture option \<Rightarrow> http_response option \<Rightarrow> capture_failure option" where
  "resolve_failure_reason parsed response =
     (case response of
        None \<Rightarrow> Some UnknownReason
      | Some r \<Rightarrow>
          if hr_error r \<noteq> '''' then
            (if hr_error r = error_per_modem_timeout then Some PerModemTimeout else Some RequestError)
          else if hr_status r < 200 \<or> 300 \<le> hr_status r then Some HttpError
          else (case parsed of
                  None \<Rightarrow> Some UnknownReason
                | Some p \<Rightarrow> if pc_status p \<noteq> Some StatusSuccess then Some PypnmError else None))"

definition resolve_status :: "parsed_capture option \<Rightarrow> http_response option \<Rightarrow> int \<Rightarrow> pnm_capture_status" where
  "resolve_status parsed response attempt =
     (case response of
        None \<Rightarrow> CaptureFailed
      | Some r \<Rightarrow>
          if hr_status r < 200 \<or> 300 \<le> hr_status r then CaptureFailed
          else (case parsed of
                  None \<Rightarrow> CaptureFailed
                | Some p \<Rightarrow> if pc_status p = Some StatusSuccess then CaptureSuccess else CaptureFailed))"

section \<open>The tasks\<close>

text \<open>Where a task stands: \<open>Waiting t k\<close> is queued at the semaphore after \<open>k\<close> attempts, started at \<open>t\<close>;
  \<open>Posting t k\<close> holds the semaphore in attempt \<open>k\<close>; \<open>Sleeping t k\<close> waits for the retry delay.\<close>

datatype job_phase =
    NotStarted
  | Waiting real int
  | Posting real int
  | Sleeping real int
  | Finished capture_result
  | Crashed string

record executor_state =
  xs_phases :: "job_phase list"
  xs_permits :: int

datatype executor_event =
    JobStarts nat real
  | JobAcquires nat
  | JobReplies nat "(real \<times> http_response) option" real
  | JobRaises nat string
  | JobWakes nat

text \<open>The body of the loop of \<open>_run_job\<close> after an answer, at time \<open>t\<close>.\<close>

definition finish_job ::
  "capture_job \<Rightarrow> real \<Rightarrow> int \<Rightarrow> parsed_capture \<Rightarrow> http_response \<Rightarrow> real \<Rightarrow> capture_result" where
  "finish_job job started attempt p r t =
     (let status = resolve_status (Some p) (Some r) attempt;
          reason = resolve_failure_reason (Some p) (Some r)
      in \<lparr>cr_mac = cj_mac job, cr_ipv4 = cj_ipv4 job, cr_ipv6 = cj_ipv6 job, cr_status = status,
          cr_message = pc_message p, cr_transaction = pc_transaction p, cr_operation = pc_operation p,
          cr_attempts = attempt, cr_http_status = hr_status r, cr_pypnm_status = pc_status p,
          cr_reason = (if status = CaptureSuccess then None else reason), cr_started = started, cr_finished = t\<rparr>)"

definition after_reply ::
  "executor_settings \<Rightarrow> (http_response \<Rightarrow> parsed_capture) \<Rightarrow> (parsed_capture \<Rightarrow> http_response \<Rightarrow> bool) \<Rightarrow>
   capture_job \<Rightarrow> real \<Rightarrow> int \<Rightarrow> http_response \<Rightarrow> real \<Rightarrow> job_phase" where
  "after_reply c parser should_retry job started attempt r t =
     (let p = parser r
      in if xc_retry_count c < attempt \<or> \<not> should_retry p r then Finished (finish_job job started attempt p r t)
         else if 0 < xc_retry_delay c then Sleeping started attempt else Waiting started attempt)"

text \<open>One step of one task.  The semaphore is released when the request ends, also by an exception.\<close>

definition set_phase :: "nat \<Rightarrow> job_phase \<Rightarrow> int \<Rightarrow> executor_state \<Rightarrow> executor_state" where
  "set_phase i p d s = \<lparr>xs_phases = (xs_phases s)[i := p], xs_permits = xs_permits s + d\<rparr>"

definition phase_of :: "executor_state \<Rightarrow> nat \<Rightarrow> job_phase option" where
  "phase_of s i = (if i < length (xs_phases s) then Some (xs_phases s ! i) else None)"

fun exec_step ::
  "executor_settings \<Rightarrow> (http_response \<Rightarrow> parsed_capture) \<Rightarrow> (parsed_capture \<Rightarrow> http_response \<Rightarrow> bool) \<Rightarrow>
   capture_job list \<Rightarrow> executor_event \<Rightarrow> executor_state \<Rightarrow> executor_state option" where
  "exec_step c parser should_retry jobs (JobStarts i t) s =
     (if phase_of s i = Some NotStarted then Some (set_phase i (Waiting t 0) 0 s) else None)"
| "exec_step c parser should_retry jobs (JobAcquires i) s =
     (case phase_of s i of
        Some (Waiting t k) \<Rightarrow> if 0 < xs_permits s then Some (set_phase i (Posting t (k + 1)) (- 1) s) else None
      | _ \<Rightarrow> None)"
| "exec_step c parser should_retry jobs (JobReplies i answer t) s =
     (case (phase_of s i, post_with_timeout c answer) of
        (Some (Posting t0 k), Some r) \<Rightarrow>
          Some (set_phase i (after_reply c parser should_retry (jobs ! i) t0 k r t) 1 s)
      | _ \<Rightarrow> None)"
| "exec_step c parser should_retry jobs (JobRaises i msg) s =
     (case phase_of s i of Some (Posting t0 k) \<Rightarrow> Some (set_phase i (Crashed msg) 1 s) | _ \<Rightarrow> None)"
| "exec_step c parser should_retry jobs (JobWakes i) s =
     (case phase_of s i of Some (Sleeping t0 k) \<Rightarrow> Some (set_phase i (Waiting t0 k) 0 s) | _ \<Rightarrow> None)"

fun exec_run ::
  "executor_settings \<Rightarrow> (http_response \<Rightarrow> parsed_capture) \<Rightarrow> (parsed_capture \<Rightarrow> http_response \<Rightarrow> bool) \<Rightarrow>
   capture_job list \<Rightarrow> executor_event list \<Rightarrow> executor_state \<Rightarrow> executor_state option" where
  "exec_run c parser should_retry jobs [] s = Some s"
| "exec_run c parser should_retry jobs (e # es) s =
     Option.bind (exec_step c parser should_retry jobs e s) (exec_run c parser should_retry jobs es)"

definition exec_init :: "executor_settings \<Rightarrow> capture_job list \<Rightarrow> executor_state" where
  "exec_init c jobs = \<lparr>xs_phases = map (\<lambda>_. NotStarted) jobs, xs_permits = xc_max_workers c\<rparr>"

definition phase_done :: "job_phase \<Rightarrow> bool" where
  "phase_done p = (case p of Finished _ \<Rightarrow> True | Crashed _ \<Rightarrow> True | _ \<Rightarrow> False)"

section \<open>The batch\<close>

definition overall_timeout_result :: "capture_job \<Rightarrow> real \<Rightarrow> capture_failure \<Rightarrow> string \<Rightarrow> real \<Rightarrow> capture_result" where
  "overall_timeout_result job started reason msg t =
     \<lparr>cr_mac = cj_mac job, cr_ipv4 = cj_ipv4 job, cr_ipv6 = cj_ipv6 job, cr_status = CaptureFailed,
      cr_message = msg, cr_transaction = None, cr_operation = None, cr_attempts = 0, cr_http_status = 0,
      cr_pypnm_status = None, cr_reason = Some reason, cr_started = started, cr_finished = t\<rparr>"

text \<open>\<open>run\<close> from the state in which \<open>asyncio.wait\<close> (or, without a limit for the batch, \<open>gather\<close>) returns:
  \<open>None\<close> when a task raised, since \<open>gather\<close> raises again.  \<open>start\<close> and \<open>clock\<close> are the times read for the
  results of the tasks that were pending.\<close>

definition job_result :: "job_phase \<Rightarrow> capture_result option" where
  "job_result p = (case p of Finished r \<Rightarrow> Some r | _ \<Rightarrow> None)"

definition crashed :: "job_phase \<Rightarrow> bool" where
  "crashed p = (case p of Crashed _ \<Rightarrow> True | _ \<Rightarrow> False)"

definition batch_results ::
  "executor_settings \<Rightarrow> capture_job list \<Rightarrow> real \<Rightarrow> (nat \<Rightarrow> real) \<Rightarrow> executor_state \<Rightarrow> capture_result list option" where
  "batch_results c jobs start clock s =
     (if jobs = [] then Some []
      else if xc_overall_timeout c \<le> 0 then those (map job_result (xs_phases s))
      else if list_ex crashed (xs_phases s) then None
      else Some (map (\<lambda>i. case job_result (xs_phases s ! i) of
                            Some r \<Rightarrow> r
                          | None \<Rightarrow> overall_timeout_result (jobs ! i) start OverallTimeout ''overall timeout'' (clock i))
                   [0..<length jobs]))"

section \<open>Lemmas\<close>

text \<open>The rank of a phase: how many steps the task can still make.\<close>

fun phase_rank :: "executor_settings \<Rightarrow> job_phase \<Rightarrow> nat" where
  "phase_rank c NotStarted = 3 * nat (xc_retry_count c + 1) + 1"
| "phase_rank c (Waiting t k) = 3 * nat (xc_retry_count c + 1 - k)"
| "phase_rank c (Posting t k) = 3 * nat (xc_retry_count c + 1 - k) + 2"
| "phase_rank c (Sleeping t k) = 3 * nat (xc_retry_count c + 1 - k) + 1"
| "phase_rank c (Finished r) = 0"
| "phase_rank c (Crashed m) = 0"

definition rank :: "executor_settings \<Rightarrow> executor_state \<Rightarrow> nat" where
  "rank c s = sum_list (map (phase_rank c) (xs_phases s))"

fun posting :: "job_phase \<Rightarrow> bool" where
  "posting (Posting t k) = True"
| "posting p = False"

definition in_flight :: "executor_state \<Rightarrow> nat" where
  "in_flight s = length (filter posting (xs_phases s))"

text \<open>What is true of a task in every reachable state.\<close>

fun phase_ok :: "executor_settings \<Rightarrow> capture_job \<Rightarrow> job_phase \<Rightarrow> bool" where
  "phase_ok c job NotStarted = True"
| "phase_ok c job (Waiting t k) = (0 \<le> k \<and> k \<le> xc_retry_count c)"
| "phase_ok c job (Posting t k) = (1 \<le> k \<and> k \<le> xc_retry_count c + 1)"
| "phase_ok c job (Sleeping t k) = (1 \<le> k \<and> k \<le> xc_retry_count c)"
| "phase_ok c job (Finished r) =
     (cr_mac r = cj_mac job \<and> cr_ipv4 r = cj_ipv4 job \<and> cr_ipv6 r = cj_ipv6 job
      \<and> 1 \<le> cr_attempts r \<and> cr_attempts r \<le> xc_retry_count c + 1
      \<and> (cr_reason r = None \<longleftrightarrow> cr_status r = CaptureSuccess))"
| "phase_ok c job (Crashed m) = True"

definition exec_inv :: "executor_settings \<Rightarrow> capture_job list \<Rightarrow> executor_state \<Rightarrow> bool" where
  "exec_inv c jobs s =
     (length (xs_phases s) = length jobs \<and> 0 \<le> xs_permits s
      \<and> xs_permits s + int (in_flight s) = xc_max_workers c
      \<and> (\<forall>i < length jobs. phase_ok c (jobs ! i) (xs_phases s ! i)))"

lemma reason_iff_failed:
  "(resolve_status (Some p) (Some r) k \<noteq> CaptureSuccess \<longrightarrow> resolve_failure_reason (Some p) (Some r) \<noteq> None)"
  by (auto simp: resolve_status_def resolve_failure_reason_def split: if_splits)

lemma after_reply_ok:
  "1 \<le> k \<Longrightarrow> k \<le> xc_retry_count c + 1 \<Longrightarrow> phase_ok c job (after_reply c parser should_retry job t0 k r t)"
  using reason_iff_failed [of "parser r" r k] by (auto simp: after_reply_def Let_def finish_job_def)

lemma phase_of_Some [simp]: "phase_of s i = Some p \<longleftrightarrow> i < length (xs_phases s) \<and> xs_phases s ! i = p"
  by (auto simp: phase_of_def)

lemma in_flight_set_phase:
  assumes "i < length (xs_phases s)"
  shows "int (in_flight (set_phase i p d s))
    = int (in_flight s) - (if posting (xs_phases s ! i) then 1 else 0) + (if posting p then 1 else 0)"
proof -
  have split: "xs_phases s = take i (xs_phases s) @ xs_phases s ! i # drop (Suc i) (xs_phases s)"
    by (rule id_take_nth_drop [OF assms])
  have "in_flight s = length (filter posting (take i (xs_phases s)))
      + (if posting (xs_phases s ! i) then 1 else 0) + length (filter posting (drop (Suc i) (xs_phases s)))"
    unfolding in_flight_def by (subst split) (simp del: take_append)
  then show ?thesis
    by (simp add: in_flight_def set_phase_def upd_conv_take_nth_drop [OF assms])
qed

lemma rank_set_phase:
  assumes "i < length (xs_phases s)"
  shows "rank c (set_phase i p d s) + phase_rank c (xs_phases s ! i) = rank c s + phase_rank c p"
proof -
  have split: "xs_phases s = take i (xs_phases s) @ xs_phases s ! i # drop (Suc i) (xs_phases s)"
    by (rule id_take_nth_drop [OF assms])
  have "rank c s = sum_list (map (phase_rank c) (take i (xs_phases s)))
      + phase_rank c (xs_phases s ! i) + sum_list (map (phase_rank c) (drop (Suc i) (xs_phases s)))"
    unfolding rank_def by (subst split) (simp del: take_append)
  then show ?thesis
    by (simp add: rank_def set_phase_def upd_conv_take_nth_drop [OF assms])
qed

text \<open>A step replaces the phase of one task by another; the permits move with it.\<close>

lemma exec_step_cases:
  assumes "exec_step c parser should_retry jobs e s = Some s'"
  obtains i p d where "i < length (xs_phases s)" and "s' = set_phase i p d s"
    and "d = (if posting (xs_phases s ! i) then 1 else 0) - (if posting p then 1 else 0)"
    and "posting p \<longrightarrow> 0 < xs_permits s"
    and "phase_ok c (jobs ! i) (xs_phases s ! i) \<and> 0 \<le> xc_retry_count c
           \<longrightarrow> phase_ok c (jobs ! i) p \<and> phase_rank c p < phase_rank c (xs_phases s ! i)"
proof -
  have reply: "\<not> posting (after_reply c parser should_retry j t0 k r t)" for j t0 k r t
    by (simp add: after_reply_def Let_def)
  have reply_rank: "phase_rank c (after_reply c parser should_retry j t0 k r t) < phase_rank c (Posting t0 k)" for j t0 k r t
    by (simp add: after_reply_def Let_def)
  show thesis
  proof (cases e)
    case (JobReplies i answer t)
    with assms obtain t0 k r where "i < length (xs_phases s)" "xs_phases s ! i = Posting t0 k"
      "s' = set_phase i (after_reply c parser should_retry (jobs ! i) t0 k r t) 1 s"
      by (auto split: option.splits job_phase.splits)
    then show thesis
      using reply reply_rank [of "jobs ! i" t0 k r t] after_reply_ok [of k c "jobs ! i" parser should_retry t0 r t]
      by (intro that [of i "after_reply c parser should_retry (jobs ! i) t0 k r t" 1]) simp_all
  next
    case (JobStarts i t)
    with assms show thesis
      by (intro that [of i "Waiting t 0" 0]) (auto split: if_splits simp: nat_add_distrib)
  next
    case (JobAcquires i)
    with assms obtain t0 k where "i < length (xs_phases s)" "xs_phases s ! i = Waiting t0 k" "0 < xs_permits s"
      "s' = set_phase i (Posting t0 (k + 1)) (- 1) s"
      by (auto split: option.splits job_phase.splits if_splits)
    then show thesis by (intro that [of i "Posting t0 (k + 1)" "- 1"]) auto
  next
    case (JobRaises i m)
    with assms show thesis
      by (intro that [of i "Crashed m" 1]) (auto split: option.splits job_phase.splits)
  next
    case (JobWakes i)
    with assms obtain t0 k where "i < length (xs_phases s)" "xs_phases s ! i = Sleeping t0 k"
      "s' = set_phase i (Waiting t0 k) 0 s"
      by (auto split: option.splits job_phase.splits)
    then show thesis by (intro that [of i "Waiting t0 k" 0]) auto
  qed
qed

lemma exec_step_inv:
  assumes "exec_step c parser should_retry jobs e s = Some s'" and "exec_inv c jobs s" and "0 \<le> xc_retry_count c"
  shows "exec_inv c jobs s' \<and> rank c s' < rank c s"
proof -
  from assms(1) obtain i p d where i: "i < length (xs_phases s)" and s': "s' = set_phase i p d s"
    and d: "d = (if posting (xs_phases s ! i) then 1 else 0) - (if posting p then 1 else 0)"
    and permits: "posting p \<longrightarrow> 0 < xs_permits s"
    and ok: "phase_ok c (jobs ! i) (xs_phases s ! i) \<and> 0 \<le> xc_retry_count c
           \<longrightarrow> phase_ok c (jobs ! i) p \<and> phase_rank c p < phase_rank c (xs_phases s ! i)"
    by (rule exec_step_cases)
  from assms(2) i have len: "length (xs_phases s) = length jobs" and "phase_ok c (jobs ! i) (xs_phases s ! i)"
    by (auto simp: exec_inv_def)
  with ok assms(3) have p: "phase_ok c (jobs ! i) p" "phase_rank c p < phase_rank c (xs_phases s ! i)" by blast+
  have "xs_permits s' = xs_permits s + d" by (simp add: s' set_phase_def)
  then have "0 \<le> xs_permits s'" and "xs_permits s' + int (in_flight s') = xc_max_workers c"
    using d permits assms(2) in_flight_set_phase [OF i, of p d] by (auto simp: s' exec_inv_def)
  moreover have "\<forall>j < length jobs. phase_ok c (jobs ! j) (xs_phases s' ! j)"
    using assms(2) p(1) len i by (auto simp: s' set_phase_def nth_list_update exec_inv_def)
  ultimately have "exec_inv c jobs s'"
    using len by (simp add: exec_inv_def) (simp add: s' set_phase_def)
  moreover have "rank c s' < rank c s" using rank_set_phase [OF i, of c p d] p(2) by (simp add: s')
  ultimately show ?thesis by blast
qed

lemma exec_init_inv: "0 \<le> xc_max_workers c \<Longrightarrow> exec_inv c jobs (exec_init c jobs)"
  by (simp add: exec_inv_def exec_init_def in_flight_def filter_empty_conv)

lemma rank_init: "rank c (exec_init c jobs) = length jobs * (3 * nat (xc_retry_count c + 1) + 1)"
  by (simp add: rank_def exec_init_def sum_list_triv comp_def)

lemma exec_run_inv:
  assumes "exec_run c parser should_retry jobs es s = Some s'" and "exec_inv c jobs s" and "0 \<le> xc_retry_count c"
  shows "exec_inv c jobs s' \<and> length es + rank c s' \<le> rank c s"
  using assms
proof (induction es arbitrary: s)
  case Nil
  then show ?case by simp
next
  case (Cons e es)
  from Cons.prems(1) obtain t where t: "exec_step c parser should_retry jobs e s = Some t"
    "exec_run c parser should_retry jobs es t = Some s'"
    by (auto simp: bind_eq_Some_conv)
  with exec_step_inv [OF t(1)] Cons show ?case by fastforce
qed

text \<open>The events that need nothing of the client: the tasks go on, and a request that is never answered is given up
  by the time limit of the request.\<close>

definition silent :: "executor_event \<Rightarrow> bool" where
  "silent e = (case e of JobReplies i answer t \<Rightarrow> answer = None | JobRaises i msg \<Rightarrow> False | _ \<Rightarrow> True)"

lemma waits_for_reply:
  assumes "p \<in> set (xs_phases s)" and "posting p" and "0 < xc_modem_timeout c"
  shows "\<exists>e. silent e \<and> exec_step c parser should_retry jobs e s \<noteq> None"
proof -
  from assms(1) obtain i where i: "i < length (xs_phases s)" "xs_phases s ! i = p" by (auto simp: in_set_conv_nth)
  from assms(2) obtain t0 k where "p = Posting t0 k" by (cases p) auto
  with i have phase: "phase_of s i = Some (Posting t0 k)" by simp
  obtain r where r: "post_with_timeout c None = Some r" using assms(3) by (simp add: post_with_timeout_def)
  have "exec_step c parser should_retry jobs (JobReplies i None 0) s
      = Some (set_phase i (after_reply c parser should_retry (jobs ! i) t0 k r 0) 1 s)"
    unfolding exec_step.simps phase r by simp
  then show ?thesis by (intro exI [of _ "JobReplies i None 0"]) (simp add: silent_def)
qed

lemma waits_for_permit:
  assumes "i < length (xs_phases s)" and "\<not> phase_done (xs_phases s ! i)" and "\<not> posting (xs_phases s ! i)"
    and "0 < xs_permits s"
  shows "\<exists>e. silent e \<and> exec_step c parser should_retry jobs e s \<noteq> None"
proof (cases "xs_phases s ! i")
  case NotStarted
  with assms(1) show ?thesis by (intro exI [of _ "JobStarts i 0"]) (simp add: silent_def)
next
  case (Waiting t k)
  with assms(1) have "phase_of s i = Some (Waiting t k)" by simp
  with assms(4) show ?thesis by (intro exI [of _ "JobAcquires i"]) (simp add: silent_def del: phase_of_Some)
next
  case (Sleeping t k)
  with assms(1) have "phase_of s i = Some (Sleeping t k)" by simp
  then show ?thesis by (intro exI [of _ "JobWakes i"]) (simp add: silent_def del: phase_of_Some)
qed (use assms in \<open>auto simp: phase_done_def\<close>)

lemma never_stuck:
  assumes "exec_inv c jobs s" and "0 < xc_max_workers c" and "0 < xc_modem_timeout c"
    and "\<not> list_all phase_done (xs_phases s)"
  shows "\<exists>e. silent e \<and> exec_step c parser should_retry jobs e s \<noteq> None"
proof (cases "\<exists>p \<in> set (xs_phases s). posting p")
  case True
  then show ?thesis using waits_for_reply assms(3) by blast
next
  case False
  then have "in_flight s = 0" by (simp add: in_flight_def filter_empty_conv)
  then have "0 < xs_permits s" using assms(1,2) by (simp add: exec_inv_def)
  moreover obtain i where "i < length (xs_phases s)" "\<not> phase_done (xs_phases s ! i)"
    using assms(4) by (auto simp: list_all_length)
  moreover have "\<not> posting (xs_phases s ! i)" using False \<open>i < length (xs_phases s)\<close> nth_mem by blast
  ultimately show ?thesis by (intro waits_for_permit)
qed

text \<open>No such event makes a task raise.\<close>

definition crashes :: "executor_state \<Rightarrow> nat set" where
  "crashes s = {i. i < length (xs_phases s) \<and> crashed (xs_phases s ! i)}"

lemma set_phase_crashes: "\<not> crashed p \<Longrightarrow> crashes (set_phase i p d s) \<subseteq> crashes s"
  by (auto simp: crashes_def set_phase_def) (metis nth_list_update nth_list_update_neq)

lemma after_reply_not_crashed: "\<not> crashed (after_reply c parser should_retry job t0 k r t)"
  by (simp add: after_reply_def crashed_def Let_def)

lemma silent_crashes:
  assumes "exec_step c parser should_retry jobs e s = Some s'" and "silent e"
  shows "crashes s' \<subseteq> crashes s"
proof -
  have "\<exists>i p d. s' = set_phase i p d s \<and> \<not> crashed p"
  proof (cases e)
    case (JobReplies i answer t)
    with assms(1) show ?thesis
      by (fastforce simp: after_reply_not_crashed simp del: phase_of_Some split: option.splits job_phase.splits)
  next
    case (JobStarts i t)
    with assms(1) have "s' = set_phase i (Waiting t 0) 0 s" by (simp split: if_splits)
    moreover have "\<not> crashed (Waiting t 0)" by (simp add: crashed_def)
    ultimately show ?thesis by blast
  next
    case (JobAcquires i)
    with assms(1) obtain t k where "s' = set_phase i (Posting t (k + 1)) (- 1) s"
      by (auto simp del: phase_of_Some split: option.splits job_phase.splits if_splits)
    moreover have "\<not> crashed (Posting t (k + 1))" by (simp add: crashed_def)
    ultimately show ?thesis by blast
  next
    case (JobWakes i)
    with assms(1) obtain t k where "s' = set_phase i (Waiting t k) 0 s"
      by (auto simp del: phase_of_Some split: option.splits job_phase.splits)
    moreover have "\<not> crashed (Waiting t k)" by (simp add: crashed_def)
    ultimately show ?thesis by blast
  qed (use assms(2) in \<open>simp add: silent_def\<close>)
  then show ?thesis using set_phase_crashes by blast
qed

lemma silent_completion:
  assumes "exec_inv c jobs s" and "0 < xc_max_workers c" and "0 < xc_modem_timeout c" and "0 \<le> xc_retry_count c"
  shows "\<exists>es s'. list_all silent es \<and> exec_run c parser should_retry jobs es s = Some s' \<and>
    list_all phase_done (xs_phases s') \<and> crashes s' \<subseteq> crashes s"
  using assms(1)
proof (induction "rank c s" arbitrary: s rule: less_induct)
  case less
  show ?case
  proof (cases "list_all phase_done (xs_phases s)")
    case True
    then show ?thesis by (intro exI [of _ "[]"] exI [of _ s]) simp
  next
    case False
    then obtain e t where e: "silent e" "exec_step c parser should_retry jobs e s = Some t"
      using never_stuck [OF less.prems assms(2,3)] by blast
    have t: "exec_inv c jobs t" "rank c t < rank c s" using exec_step_inv [OF e(2) less.prems assms(4)] by blast+
    obtain es s' where "list_all silent es" "exec_run c parser should_retry jobs es t = Some s'"
      "list_all phase_done (xs_phases s')" "crashes s' \<subseteq> crashes t"
      using less.hyps [OF t(2,1)] by blast
    then show ?thesis using e silent_crashes [OF e(2,1)] by (intro exI [of _ "e # es"] exI [of _ s']) auto
  qed
qed

lemma job_result_Some: "job_result p = Some r \<longleftrightarrow> p = Finished r"
  by (auto simp: job_result_def split: job_phase.splits)

section \<open>Properties\<close>

text \<open>C20: However the tasks interleave, never more requests are in flight than there are workers.\<close>

theorem capture_workers_bounded:
  assumes "exec_run c parser should_retry jobs es (exec_init c jobs) = Some s" and "executor_settings_ok c"
  shows "int (in_flight s) \<le> xc_max_workers c"
proof -
  have "exec_inv c jobs s"
    using exec_run_inv [OF assms(1) exec_init_inv] assms(2) by (simp add: executor_settings_ok_def)
  then show ?thesis by (auto simp: exec_inv_def)
qed

definition sample_job :: capture_job where
  "sample_job = \<lparr>cj_mac = ''aa'', cj_ipv4 = None, cj_ipv6 = None, cj_path = ''/rxmer'', cj_payload = []\<rparr>"

definition sample_parser :: "http_response \<Rightarrow> parsed_capture" where
  "sample_parser r =
     \<lparr>pc_status = (if hr_error r = '''' then Some StatusSuccess else None), pc_message = '''', pc_transaction = None,
      pc_operation = None, pc_raw = []\<rparr>"

definition sample_retry :: "parsed_capture \<Rightarrow> http_response \<Rightarrow> bool" where
  "sample_retry p r = (pc_status p = None)"

definition sample_answer :: "(real \<times> http_response) option" where
  "sample_answer = Some (1, \<lparr>hr_status = 200, hr_payload = [], hr_error = ''''\<rparr>)"

lemmas sample_run_simps =
  exec_init_def set_phase_def phase_of_def post_with_timeout_def after_reply_def finish_job_def resolve_status_def
  resolve_failure_reason_def sample_parser_def sample_retry_def sample_answer_def executor_defaults_def sample_job_def
  error_per_modem_timeout_def

lemma sample_run_posting:
  "exec_run executor_defaults sample_parser sample_retry [sample_job] [JobStarts 0 0, JobAcquires 0]
     (exec_init executor_defaults [sample_job]) = Some \<lparr>xs_phases = [Posting 0 1], xs_permits = 15\<rparr>"
  by (simp add: sample_run_simps del: phase_of_Some)

lemma sample_settings_ok: "executor_settings_ok executor_defaults"
  by (simp add: executor_settings_ok_def executor_defaults_def)

lemma capture_workers_bounded_witness:
  "int (in_flight \<lparr>xs_phases = [Posting 0 1], xs_permits = 15\<rparr>) \<le> xc_max_workers executor_defaults"
  by (rule capture_workers_bounded [OF sample_run_posting sample_settings_ok])

text \<open>C24: Every run of the tasks ends, and none needs the client for it: with a time limit for a request, a run has at
  most three steps per attempt and one per job, and from every state that a run reaches all tasks can be brought to
  their end although no request is answered any more, without any task raising.\<close>

theorem capture_batch_terminates:
  assumes "exec_run c parser should_retry jobs es (exec_init c jobs) = Some s" and "executor_settings_ok c"
    and "0 < xc_modem_timeout c"
  shows "length es \<le> length jobs * (3 * nat (xc_retry_count c + 1) + 1)
    \<and> (\<exists>es' s'. list_all silent es' \<and> exec_run c parser should_retry jobs es' s = Some s'
         \<and> list_all phase_done (xs_phases s') \<and> crashes s' \<subseteq> crashes s)"
proof -
  have inv: "exec_inv c jobs s" and "length es + rank c s \<le> rank c (exec_init c jobs)"
    using exec_run_inv [OF assms(1) exec_init_inv] assms(2) by (simp_all add: executor_settings_ok_def)
  moreover have "0 < xc_max_workers c" "0 \<le> xc_retry_count c" using assms(2) by (simp_all add: executor_settings_ok_def)
  ultimately show ?thesis
    using silent_completion [OF inv _ assms(3), of parser should_retry] by (auto simp: rank_init)
qed

lemma capture_batch_terminates_witness:
  "\<exists>es s'. list_all silent es \<and> exec_run executor_defaults sample_parser sample_retry [sample_job] es
     \<lparr>xs_phases = [Posting 0 1], xs_permits = 15\<rparr> = Some s' \<and> list_all phase_done (xs_phases s') \<and> crashes s' = {}"
proof -
  have "crashes \<lparr>xs_phases = [Posting 0 1], xs_permits = 15\<rparr> = {}" by (auto simp: crashes_def crashed_def less_Suc0)
  moreover have "0 < xc_modem_timeout executor_defaults" by (simp add: executor_defaults_def)
  ultimately show ?thesis using capture_batch_terminates [OF sample_run_posting sample_settings_ok] by simp
qed

text \<open>C18: A batch that ends has one result per job, in the order of the jobs; a result carries a failure reason
  exactly if it is not a success, and no job makes more than one attempt more than the retry count.\<close>

theorem capture_results_accounted:
  assumes "exec_run c parser should_retry jobs es (exec_init c jobs) = Some s" and "executor_settings_ok c"
    and "batch_results c jobs start clock s = Some rs"
  shows "map cr_mac rs = map cj_mac jobs
    \<and> list_all (\<lambda>r. (cr_reason r = None \<longleftrightarrow> cr_status r = CaptureSuccess)
         \<and> 0 \<le> cr_attempts r \<and> cr_attempts r \<le> xc_retry_count c + 1) rs"
proof -
  have inv: "length (xs_phases s) = length jobs" "\<And>i. i < length jobs \<Longrightarrow> phase_ok c (jobs ! i) (xs_phases s ! i)"
    and retry: "0 \<le> xc_retry_count c"
    using exec_run_inv [OF assms(1) exec_init_inv] assms(2) by (auto simp: executor_settings_ok_def exec_inv_def)
  have "length rs = length jobs \<and> (\<forall>i < length jobs. cr_mac (rs ! i) = cj_mac (jobs ! i)
      \<and> (cr_reason (rs ! i) = None \<longleftrightarrow> cr_status (rs ! i) = CaptureSuccess)
      \<and> 0 \<le> cr_attempts (rs ! i) \<and> cr_attempts (rs ! i) \<le> xc_retry_count c + 1)"
  proof (cases "jobs = [] \<or> 0 < xc_overall_timeout c")
    case True
    then have rs: "rs = map (\<lambda>i. case job_result (xs_phases s ! i) of Some r \<Rightarrow> r
        | None \<Rightarrow> overall_timeout_result (jobs ! i) start OverallTimeout ''overall timeout'' (clock i)) [0..<length jobs]"
      using assms(3) by (auto simp: batch_results_def split: if_splits)
    show ?thesis
      using inv(2) retry
      by (fastforce simp: rs job_result_def overall_timeout_result_def split: job_phase.splits)
  next
    case False
    then have "map job_result (xs_phases s) = map Some rs"
      using assms(3) by (simp add: batch_results_def those_map_Some)
    then have rs: "length rs = length jobs" "\<And>i. i < length jobs \<Longrightarrow> xs_phases s ! i = Finished (rs ! i)"
      using inv(1) by (auto simp: list_eq_iff_nth_eq job_result_Some)
    then show ?thesis using inv(2) by fastforce
  qed
  then show ?thesis by (simp add: list_eq_iff_nth_eq list_all_length)
qed

lemma capture_results_accounted_witness:
  "map cr_mac (the (batch_results executor_defaults [sample_job] 0 (\<lambda>_. 120) \<lparr>xs_phases = [Posting 0 1], xs_permits = 15\<rparr>))
     = [''aa'']"
proof -
  have "batch_results executor_defaults [sample_job] 0 (\<lambda>_. 120) \<lparr>xs_phases = [Posting 0 1], xs_permits = 15\<rparr>
      = Some [overall_timeout_result sample_job 0 OverallTimeout ''overall timeout'' 120]"
    by (simp add: batch_results_def executor_defaults_def crashed_def job_result_def)
  from capture_results_accounted [OF sample_run_posting sample_settings_ok this] this show ?thesis
    by (simp add: sample_job_def)
qed

text \<open>A task whose client, parser or retry condition raises takes the results of the whole batch with it.\<close>

theorem one_exception_loses_batch:
  assumes "exec_run c parser should_retry jobs es (exec_init c jobs) = Some s"
    and "i < length jobs" and "xs_phases s ! i = Crashed msg" and "executor_settings_ok c"
  shows "batch_results c jobs start clock s = None"
proof -
  have len: "length (xs_phases s) = length jobs"
    using exec_run_inv [OF assms(1) exec_init_inv] assms(4) by (simp add: executor_settings_ok_def exec_inv_def)
  then have mem: "Crashed msg \<in> set (xs_phases s)" using assms(2,3) by (metis nth_mem)
  then have "list_ex crashed (xs_phases s)"
    by (force simp: list_ex_iff crashed_def)
  moreover have "job_result (Crashed msg) = None" by (simp add: job_result_def)
  with mem have "None \<in> set (map job_result (xs_phases s))" by (metis image_eqI set_map)
  then have "map job_result (xs_phases s) \<noteq> map Some ys" for ys by (metis ex_map_conv option.distinct(1))
  then have "those (map job_result (xs_phases s)) = None" by (metis not_Some_eq those_map_Some)
  ultimately show ?thesis using assms(2) by (auto simp: batch_results_def)
qed

lemma one_exception_loses_batch_witness:
  "batch_results executor_defaults [sample_job] 0 (\<lambda>_. 120) \<lparr>xs_phases = [Crashed ''invalid url''], xs_permits = 16\<rparr> = None"
proof -
  have "exec_run executor_defaults sample_parser sample_retry [sample_job]
      [JobStarts 0 0, JobAcquires 0, JobRaises 0 ''invalid url'']
      (exec_init executor_defaults [sample_job]) = Some \<lparr>xs_phases = [Crashed ''invalid url''], xs_permits = 16\<rparr>"
    by (simp add: sample_run_simps del: phase_of_Some)
  from one_exception_loses_batch [OF this, of 0, OF _ _ sample_settings_ok] show ?thesis by simp
qed

text \<open>A capture that succeeds after \<open>asyncio.wait\<close> has returned, while the results of the finished tasks are
  gathered, is reported as the batch's timeout with no attempt.\<close>

theorem late_success_discarded:
  assumes "exec_run c parser should_retry jobs es (exec_init c jobs) = Some s"
    and "exec_run c parser should_retry jobs es' s = Some s'"
    and "i < length jobs" and "\<not> phase_done (xs_phases s ! i)" and "xs_phases s' ! i = Finished r"
    and "cr_status r = CaptureSuccess" and "0 < xc_overall_timeout c" and "\<not> list_ex crashed (xs_phases s)"
  shows "\<exists>rs. batch_results c jobs start clock s = Some rs
    \<and> rs ! i = overall_timeout_result (jobs ! i) start OverallTimeout ''overall timeout'' (clock i) \<and> rs ! i \<noteq> r"
proof -
  have "job_result (xs_phases s ! i) = None"
    using assms(4) by (auto simp: job_result_def phase_done_def split: job_phase.splits)
  moreover have "overall_timeout_result (jobs ! i) start OverallTimeout ''overall timeout'' (clock i) \<noteq> r"
    using assms(6) by (auto simp: overall_timeout_result_def)
  ultimately show ?thesis using assms(3,7,8) by (auto simp: batch_results_def)
qed

lemma late_success_discarded_witness:
  "\<exists>rs. batch_results executor_defaults [sample_job] 0 (\<lambda>_. 120) \<lparr>xs_phases = [Posting 0 1], xs_permits = 15\<rparr> = Some rs
    \<and> rs ! 0 = overall_timeout_result sample_job 0 OverallTimeout ''overall timeout'' 120"
proof -
  define r where "r = finish_job sample_job 0 1 (sample_parser (snd (the sample_answer))) (snd (the sample_answer)) 121"
  have late: "exec_run executor_defaults sample_parser sample_retry [sample_job] [JobReplies 0 sample_answer 121]
      \<lparr>xs_phases = [Posting 0 1], xs_permits = 15\<rparr> = Some \<lparr>xs_phases = [Finished r], xs_permits = 16\<rparr>"
    by (simp add: sample_run_simps r_def del: phase_of_Some)
  have "cr_status r = CaptureSuccess" by (simp add: r_def sample_run_simps)
  with late_success_discarded [where i = 0 and start = 0 and clock = "\<lambda>_. 120" and r = r, OF sample_run_posting late]
  show ?thesis
    by (force simp: phase_done_def crashed_def executor_defaults_def)
qed

end
