(* ===== verification/GroupWorker.thy ===== *)
theory GroupWorker
  imports Prelude
begin

text \<open>
  The snapshot of one serving group in \<open>sgw/worker.py\<close> and \<open>sgw/worker_models.py\<close>: a heavy and a light
  refresh lane, each with its state, and the overall state of the snapshot.  A tick awaits its client in
  the middle, so a tick is two operations (until the call, after it) and the ticks of the two lanes may
  interleave.  The client's answers and the clock's times, in seconds, are inputs.
\<close>

section \<open>Data\<close>

datatype lane_state = LaneIdle | LaneRunning | LaneError

record lane_status =
  ls_state :: lane_state
  ls_running :: bool
  ls_success :: "real option"
  ls_error :: string

record worker_snapshot =
  wn_sg :: int
  wn_time :: real
  wn_age :: real
  wn_state :: lane_state
  wn_heavy :: lane_status
  wn_light :: lane_status
  wn_modems :: int

text \<open>The inventory of the last heavy refresh is its modem count.\<close>

record group_worker =
  gw_snapshot :: worker_snapshot
  gw_inventory :: "int option"

definition fresh_lane :: lane_status where
  "fresh_lane = \<lparr>ls_state = LaneIdle, ls_running = False, ls_success = None, ls_error = ''''\<rparr>"

definition build_snapshot :: "int \<Rightarrow> real \<Rightarrow> worker_snapshot" where
  "build_snapshot sg now =
     \<lparr>wn_sg = sg, wn_time = now, wn_age = 0, wn_state = LaneIdle, wn_heavy = fresh_lane, wn_light = fresh_lane,
      wn_modems = 0\<rparr>"

definition new_worker :: "int \<Rightarrow> real \<Rightarrow> group_worker" where
  "new_worker sg now = \<lparr>gw_snapshot = build_snapshot sg now, gw_inventory = None\<rparr>"

section \<open>Operations\<close>

definition with_age :: "real \<Rightarrow> worker_snapshot \<Rightarrow> worker_snapshot" where
  "with_age now sn = sn\<lparr>wn_age := max 0 (now - wn_time sn)\<rparr>"

definition get_snapshot :: "real \<Rightarrow> group_worker \<Rightarrow> worker_snapshot" where
  "get_snapshot now w = with_age now (gw_snapshot w)"

definition lane_of :: "bool \<Rightarrow> worker_snapshot \<Rightarrow> lane_status" where
  "lane_of heavy sn = (if heavy then wn_heavy sn else wn_light sn)"

definition put_lane :: "bool \<Rightarrow> lane_status \<Rightarrow> worker_snapshot \<Rightarrow> worker_snapshot" where
  "put_lane heavy l sn = (if heavy then sn\<lparr>wn_heavy := l\<rparr> else sn\<lparr>wn_light := l\<rparr>)"

definition overall_state :: "lane_status \<Rightarrow> lane_status \<Rightarrow> lane_state" where
  "overall_state h l =
     (if ls_state h = LaneError \<or> ls_state l = LaneError then LaneError
      else if ls_state h = LaneRunning \<or> ls_state l = LaneRunning then LaneRunning
      else LaneIdle)"

definition set_lane_running :: "bool \<Rightarrow> real \<Rightarrow> group_worker \<Rightarrow> group_worker" where
  "set_lane_running heavy now w =
     (let sn = gw_snapshot w;
          l = (lane_of heavy sn)\<lparr>ls_state := LaneRunning, ls_running := True\<rparr>
      in w\<lparr>gw_snapshot := with_age now ((put_lane heavy l sn)\<lparr>wn_state := LaneRunning\<rparr>)\<rparr>)"

definition set_lane_error :: "bool \<Rightarrow> string \<Rightarrow> real \<Rightarrow> group_worker \<Rightarrow> group_worker" where
  "set_lane_error heavy msg now w =
     (let sn = gw_snapshot w;
          l = (lane_of heavy sn)\<lparr>ls_state := LaneError, ls_running := False, ls_error := msg\<rparr>
      in w\<lparr>gw_snapshot := with_age now ((put_lane heavy l sn)\<lparr>wn_state := LaneError\<rparr>)\<rparr>)"

definition set_lane_success :: "bool \<Rightarrow> real \<Rightarrow> worker_snapshot \<Rightarrow> worker_snapshot" where
  "set_lane_success heavy now sn =
     (let l = (lane_of heavy sn)\<lparr>ls_state := LaneIdle, ls_running := False, ls_error := '''', ls_success := Some now\<rparr>;
          sn' = put_lane heavy l sn
      in sn'\<lparr>wn_state := overall_state (wn_heavy sn') (wn_light sn')\<rparr>)"

text \<open>The two halves of \<open>tick_heavy\<close>: the inventory arrives, or the text of the client's exception.\<close>

definition heavy_begin :: "real \<Rightarrow> group_worker \<Rightarrow> group_worker" where
  "heavy_begin now w = set_lane_running True now w"

definition heavy_end :: "string + int \<Rightarrow> real \<Rightarrow> group_worker \<Rightarrow> group_worker" where
  "heavy_end outcome now w =
     (case outcome of
        Inl msg \<Rightarrow> set_lane_error True msg now w
      | Inr count \<Rightarrow>
          \<lparr>gw_snapshot = set_lane_success True now ((gw_snapshot w)\<lparr>wn_time := now, wn_modems := count\<rparr>),
           gw_inventory = Some count\<rparr>)"

text \<open>The two halves of \<open>tick_light\<close>; the first ends the tick when there is no inventory, and says whether
  the state of the group is fetched.\<close>

definition light_begin :: "real \<Rightarrow> real \<Rightarrow> group_worker \<Rightarrow> group_worker \<times> bool" where
  "light_begin now now' w =
     (let w' = set_lane_running False now w
      in case gw_inventory w' of
           None \<Rightarrow> (set_lane_error False ''inventory not available for light refresh'' now' w', False)
         | Some _ \<Rightarrow> (w', True))"

definition light_end :: "string + unit \<Rightarrow> real \<Rightarrow> group_worker \<Rightarrow> group_worker" where
  "light_end outcome now w =
     (case outcome of
        Inl msg \<Rightarrow> set_lane_error False msg now w
      | Inr _ \<Rightarrow> w\<lparr>gw_snapshot := set_lane_success False now ((gw_snapshot w)\<lparr>wn_time := now\<rparr>)\<rparr>)"

text \<open>Whole ticks, when nothing happens in between.\<close>

definition tick_heavy :: "real \<Rightarrow> string + int \<Rightarrow> real \<Rightarrow> group_worker \<Rightarrow> group_worker" where
  "tick_heavy now outcome now' w = heavy_end outcome now' (heavy_begin now w)"

definition tick_light :: "real \<Rightarrow> string + unit \<Rightarrow> real \<Rightarrow> group_worker \<Rightarrow> group_worker" where
  "tick_light now outcome now' w =
     (let (w', fetch) = light_begin now now' w in if fetch then light_end outcome now' w' else w')"

datatype worker_event =
    HeavyBegins real | HeavyEnds "string + int" real | LightBegins real real | LightEnds "string + unit" real

fun worker_step :: "worker_event \<Rightarrow> group_worker \<Rightarrow> group_worker" where
  "worker_step (HeavyBegins now) w = heavy_begin now w"
| "worker_step (HeavyEnds outcome now) w = heavy_end outcome now w"
| "worker_step (LightBegins now now') w = fst (light_begin now now' w)"
| "worker_step (LightEnds outcome now) w = light_end outcome now w"

section \<open>Lemmas\<close>

definition lane_ok :: "lane_status \<Rightarrow> bool" where
  "lane_ok l = ((ls_running l \<longleftrightarrow> ls_state l = LaneRunning)
     \<and> (ls_state l = LaneIdle \<longrightarrow> ls_error l = ''''))"

text \<open>What holds between two events, apart from the overall state.\<close>

definition worker_ok :: "group_worker \<Rightarrow> bool" where
  "worker_ok w =
     (let sn = gw_snapshot w
      in lane_ok (wn_heavy sn) \<and> lane_ok (wn_light sn) \<and> 0 \<le> wn_age sn
         \<and> wn_modems sn = (case gw_inventory w of None \<Rightarrow> 0 | Some n \<Rightarrow> n)
         \<and> (ls_success (wn_heavy sn) = None \<longleftrightarrow> gw_inventory w = None))"

text \<open>The event leaves a refresh of its lane running.\<close>

definition lane_begins :: "worker_event \<Rightarrow> group_worker \<Rightarrow> bool" where
  "lane_begins e w =
     (case e of HeavyBegins now \<Rightarrow> True | LightBegins now now' \<Rightarrow> gw_inventory w \<noteq> None | _ \<Rightarrow> False)"

named_theorems worker_defs

lemmas [worker_defs] =
  worker_ok_def lane_ok_def with_age_def lane_of_def put_lane_def overall_state_def set_lane_running_def
  set_lane_error_def set_lane_success_def heavy_begin_def heavy_end_def light_begin_def light_end_def

lemma worker_step_ok: "worker_ok w \<Longrightarrow> worker_ok (worker_step e w)"
  by (cases e) (auto simp: worker_defs Let_def split: option.splits sum.splits)

lemma worker_step_state:
  "wn_state (gw_snapshot (worker_step e w)) =
     (if lane_begins e w then LaneRunning
      else overall_state (wn_heavy (gw_snapshot (worker_step e w))) (wn_light (gw_snapshot (worker_step e w))))"
  by (cases e) (auto simp: worker_defs lane_begins_def Let_def split: option.splits sum.splits)

lemma new_worker_ok: "worker_ok (new_worker sg now)"
  by (simp add: new_worker_def build_snapshot_def fresh_lane_def worker_defs)

lemma worker_fold_ok: "worker_ok w \<Longrightarrow> worker_ok (fold worker_step es w)"
  by (induction es arbitrary: w) (simp_all add: worker_step_ok)

section \<open>Properties\<close>

text \<open>C29: However the ticks of the lanes interleave, right after a tick has ended, with success or not, the overall
  state is exactly that of the lanes: an error of either before a refresh that runs before idle; right after a
  refresh has begun it is running, which hides an error of the other lane until the next tick ends.  At all times a
  lane runs exactly if its state says so and an idle lane shows no error, and the modem count is that of the last
  inventory, of which there is one exactly if a heavy refresh has succeeded.\<close>

theorem worker_state_consistent:
  "let before = fold worker_step es (new_worker sg now); w = worker_step e before; sn = gw_snapshot w in
     wn_state sn = (if lane_begins e before then LaneRunning else overall_state (wn_heavy sn) (wn_light sn)) \<and>
     lane_ok (wn_heavy sn) \<and> lane_ok (wn_light sn) \<and> 0 \<le> wn_age sn \<and>
     wn_modems sn = (case gw_inventory w of None \<Rightarrow> 0 | Some n \<Rightarrow> n) \<and>
     (ls_success (wn_heavy sn) = None \<longleftrightarrow> gw_inventory w = None)"
proof -
  let ?before = "fold worker_step es (new_worker sg now)"
  have "worker_ok (worker_step e ?before)" by (intro worker_step_ok worker_fold_ok new_worker_ok)
  then show ?thesis unfolding Let_def worker_ok_def using worker_step_state [of e ?before] by simp
qed

text \<open>A failed heavy refresh keeps the inventory and the modem count, and its error stays the overall state
  through every later light refresh, until a heavy refresh succeeds.\<close>

theorem heavy_error_stays:
  assumes "gw_inventory w = Some n" and "list_all (\<lambda>(a, r, b). r = Inr ()) ticks"
  shows "let w' = fold (\<lambda>(a, r, b). tick_light a r b) ticks (tick_heavy t (Inl msg) t' w)
    in wn_state (gw_snapshot w') = LaneError \<and> ls_error (wn_heavy (gw_snapshot w')) = msg
       \<and> gw_inventory w' = Some n \<and> wn_modems (gw_snapshot w') = wn_modems (gw_snapshot w)"
proof -
  let ?P = "\<lambda>v. wn_state (gw_snapshot v) = LaneError \<and> ls_state (wn_heavy (gw_snapshot v)) = LaneError
    \<and> ls_error (wn_heavy (gw_snapshot v)) = msg
    \<and> gw_inventory v = Some n \<and> wn_modems (gw_snapshot v) = wn_modems (gw_snapshot w)"
  have start: "?P (tick_heavy t (Inl msg) t' w)"
    using assms(1) by (simp add: tick_heavy_def worker_defs Let_def)
  have step: "?P (tick_light a (Inr ()) b v)" if "?P v" for a b v
    using that by (simp add: tick_light_def worker_defs Let_def)
  have "?P v \<Longrightarrow> ?P (fold (\<lambda>(a, r, b). tick_light a r b) ticks v)" for v
    using assms(2)
  proof (induction ticks arbitrary: v)
    case Nil
    then show ?case by simp
  next
    case (Cons x ticks)
    obtain a b where x: "x = (a, Inr (), b)" using Cons.prems(2) by (cases x) auto
    have "?P (tick_light a (Inr ()) b v)" using Cons.prems(1) by (rule step)
    with Cons.IH [OF this] Cons.prems(2) show ?case by (simp add: x)
  qed
  from this [OF start] show ?thesis by (simp add: Let_def)
qed

lemma heavy_error_stays_witness:
  "wn_state (gw_snapshot (tick_light 3 (Inr ()) 4 (tick_heavy 1 (Inl ''timeout'') 2 (tick_heavy 0 (Inr 5) 0 (new_worker 1 0))))) = LaneError"
proof -
  have "gw_inventory (tick_heavy 0 (Inr 5) 0 (new_worker 1 0)) = Some 5"
    by (simp add: tick_heavy_def heavy_end_def)
  from heavy_error_stays [OF this, of "[(3, Inr (), 4)]" 1 "''timeout''" 2] show ?thesis by (simp add: Let_def)
qed

text \<open>Without an inventory a light refresh fails without asking the client.\<close>

theorem light_needs_inventory:
  "snd (light_begin now now' w) \<longleftrightarrow> gw_inventory w \<noteq> None"
  by (auto simp: worker_defs Let_def split: option.splits)

end
