(* ===== verification/PnmTables.thy ===== *)
theory PnmTables
  imports ChannelTables
begin

text \<open>
  The writable PNM tables of the CMTS: the shared reading and writing of
  \<open>pnm/data_type/snmp_table_io.py\<close>, the bulk data transfer rows of
  \<open>pnm/data_type/bulk_data_transfer_cfg_entry.py\<close>, the upstream RxMER rows of
  \<open>pnm/data_type/ofdma_rxmer_entry.py\<close> and their access in \<open>docsis/cmts_operation.py\<close>.  Parameters: the
  client's \<open>set\<close> on a state of the CMTS, the integers that pydantic reads from a text, and the
  address types of the pypnm package.
\<close>

section \<open>Reading and writing a field\<close>

datatype field_value = FieldBool bool | FieldInt int | FieldStr string
datatype snmp_value_type = OctetStringType | Integer32Type

text \<open>A column that can be written; the encoder gives \<open>None\<close> where it raises.\<close>

record set_spec =
  sp_field :: string
  sp_type :: snmp_value_type
  sp_encoder :: "(field_value \<Rightarrow> field_value option) option"

definition encode_truth_value :: "bool \<Rightarrow> int" where
  "encode_truth_value b = (if b then 1 else 2)"

text \<open>\<open>bool(value)\<close> and \<open>int(value)\<close> on a field's value.\<close>

fun bool_of_value :: "field_value \<Rightarrow> bool" where
  "bool_of_value (FieldBool b) = b"
| "bool_of_value (FieldInt n) = (n \<noteq> 0)"
| "bool_of_value (FieldStr s) = (s \<noteq> '''')"

fun int_of_value :: "field_value \<Rightarrow> int option" where
  "int_of_value (FieldBool b) = Some (if b then 1 else 0)"
| "int_of_value (FieldInt n) = Some n"
| "int_of_value (FieldStr s) = py_int s"

definition encode_truth :: "field_value \<Rightarrow> field_value option" where
  "encode_truth v = Some (FieldInt (encode_truth_value (bool_of_value v)))"

definition encode_int :: "field_value \<Rightarrow> field_value option" where
  "encode_int v = map_option FieldInt (int_of_value v)"

definition field_oid :: "string \<Rightarrow> int \<Rightarrow> string" where
  "field_oid f ix = f @ ''.'' @ int_str ix"

text \<open>The client's \<open>set\<close>: \<open>Inl\<close> where it raises, otherwise whether it returned anything, and the state of
  the CMTS afterwards.\<close>

type_synonym 's setter = "string \<Rightarrow> field_value \<Rightarrow> snmp_value_type \<Rightarrow> 's \<Rightarrow> (string + bool) \<times> 's"

definition spec_map :: "set_spec list \<Rightarrow> string \<rightharpoonup> set_spec" where
  "spec_map specs = map_of (rev (map (\<lambda>sp. (sp_field sp, sp)) specs))"

definition encode_value :: "set_spec \<Rightarrow> field_value \<Rightarrow> field_value option" where
  "encode_value sp v = (case sp_encoder sp of None \<Rightarrow> Some v | Some enc \<Rightarrow> enc v)"

fun set_fields :: "'s setter \<Rightarrow> set_spec list \<Rightarrow> int \<Rightarrow> (string \<times> field_value) list \<Rightarrow> 's \<Rightarrow> bool \<times> 's" where
  "set_fields setf specs ix [] s = (True, s)"
| "set_fields setf specs ix ((f, raw) # us) s =
     (case spec_map specs f of
        None \<Rightarrow> (False, s)
      | Some sp \<Rightarrow>
          (case encode_value sp raw of
             None \<Rightarrow> (False, s)
           | Some v \<Rightarrow>
               (case setf (field_oid f ix) v (sp_type sp) s of
                  (Inr True, s') \<Rightarrow> set_fields setf specs ix us s'
                | (_, s') \<Rightarrow> (False, s'))))"

text \<open>\<open>fetch_field\<close> with a cast that fails as \<open>None\<close>, and without a cast.\<close>

definition fetch_cast :: "(string \<Rightarrow> 'a option) \<Rightarrow> snmp \<Rightarrow> string \<Rightarrow> int \<Rightarrow> 'a option" where
  "fetch_cast f sn field ix = Option.bind (field_text sn field ix) f"

datatype plain_value = PlainInt int | PlainBool bool | PlainFloat real | PlainStr string

definition fetch_plain :: "snmp \<Rightarrow> string \<Rightarrow> int \<Rightarrow> plain_value option" where
  "fetch_plain sn field ix =
     (case field_text sn field ix of
        None \<Rightarrow> None
      | Some s \<Rightarrow>
          (let t = py_strip s
           in if t \<noteq> '''' \<and> (\<forall>c \<in> set t. digit_value c \<noteq> None) then map_option PlainInt (py_int t)
              else if py_lower t = ''true'' \<or> py_lower t = ''false'' then Some (PlainBool (py_lower t = ''true''))
              else (case sn_float sn t of Some x \<Rightarrow> Some (PlainFloat x) | None \<Rightarrow> Some (PlainStr t))))"

section \<open>Rows\<close>

text \<open>The pairs of a row's fields that are not \<open>None\<close>, in the order of the class.\<close>

definition some_field :: "string \<Rightarrow> ('a \<Rightarrow> field_value) \<Rightarrow> 'a option \<Rightarrow> (string \<times> field_value) list" where
  "some_field name f x = (case x of None \<Rightarrow> [] | Some v \<Rightarrow> [(name, f v)])"

text \<open>A field of an integer type: \<open>NewType\<close> casts hand the text through, and the class reads it when the
  row is built, or raises.\<close>

definition int_field :: "(string \<Rightarrow> int option) \<Rightarrow> string option \<Rightarrow> int option result" where
  "int_field pd x =
     (case x of
        None \<Rightarrow> Inr None
      | Some s \<Rightarrow> (case pd s of Some n \<Rightarrow> Inr (Some n) | None \<Rightarrow> Inl (ValueError ''validation error'')))"

subsection \<open>Upstream RxMER\<close>

record rxmer_entry =
  docsPnmCmtsUsOfdmaRxMerEnable :: "bool option"
  docsPnmCmtsUsOfdmaRxMerCmMac :: "string option"
  docsPnmCmtsUsOfdmaRxMerPreEq :: "bool option"
  docsPnmCmtsUsOfdmaRxMerNumAvgs :: "int option"
  docsPnmCmtsUsOfdmaRxMerMeasStatus :: "int option"
  docsPnmCmtsUsOfdmaRxMerFileName :: "string option"
  docsPnmCmtsUsOfdmaRxMerDestinationIndex :: "int option"

definition rxmer_updates :: "rxmer_entry \<Rightarrow> (string \<times> field_value) list" where
  "rxmer_updates e =
     filter (\<lambda>(f, v). f \<noteq> ''docsPnmCmtsUsOfdmaRxMerMeasStatus'')
       (concat [some_field ''docsPnmCmtsUsOfdmaRxMerEnable'' FieldBool (docsPnmCmtsUsOfdmaRxMerEnable e),
          some_field ''docsPnmCmtsUsOfdmaRxMerCmMac'' FieldStr (docsPnmCmtsUsOfdmaRxMerCmMac e),
          some_field ''docsPnmCmtsUsOfdmaRxMerPreEq'' FieldBool (docsPnmCmtsUsOfdmaRxMerPreEq e),
          some_field ''docsPnmCmtsUsOfdmaRxMerNumAvgs'' FieldInt (docsPnmCmtsUsOfdmaRxMerNumAvgs e),
          some_field ''docsPnmCmtsUsOfdmaRxMerMeasStatus'' FieldInt (docsPnmCmtsUsOfdmaRxMerMeasStatus e),
          some_field ''docsPnmCmtsUsOfdmaRxMerFileName'' FieldStr (docsPnmCmtsUsOfdmaRxMerFileName e),
          some_field ''docsPnmCmtsUsOfdmaRxMerDestinationIndex'' FieldInt (docsPnmCmtsUsOfdmaRxMerDestinationIndex e)])"

definition rxmer_specs :: "set_spec list" where
  "rxmer_specs =
     [\<lparr>sp_field = ''docsPnmCmtsUsOfdmaRxMerEnable'', sp_type = Integer32Type, sp_encoder = Some encode_truth\<rparr>,
      \<lparr>sp_field = ''docsPnmCmtsUsOfdmaRxMerCmMac'', sp_type = OctetStringType, sp_encoder = None\<rparr>,
      \<lparr>sp_field = ''docsPnmCmtsUsOfdmaRxMerPreEq'', sp_type = Integer32Type, sp_encoder = Some encode_truth\<rparr>,
      \<lparr>sp_field = ''docsPnmCmtsUsOfdmaRxMerNumAvgs'', sp_type = Integer32Type, sp_encoder = None\<rparr>,
      \<lparr>sp_field = ''docsPnmCmtsUsOfdmaRxMerFileName'', sp_type = OctetStringType, sp_encoder = None\<rparr>,
      \<lparr>sp_field = ''docsPnmCmtsUsOfdmaRxMerDestinationIndex'', sp_type = Integer32Type, sp_encoder = None\<rparr>]"

definition rxmer_set :: "'s setter \<Rightarrow> int \<Rightarrow> rxmer_entry \<Rightarrow> 's \<Rightarrow> bool \<times> 's" where
  "rxmer_set setf ix e s = set_fields setf rxmer_specs ix (rxmer_updates e) s"

definition rxmer_from_snmp :: "(string \<Rightarrow> int option) \<Rightarrow> snmp \<Rightarrow> int \<Rightarrow> rxmer_entry result" where
  "rxmer_from_snmp pd sn ix =
     (case int_field pd (field_text sn ''docsPnmCmtsUsOfdmaRxMerNumAvgs'' ix) of Inl e \<Rightarrow> Inl e | Inr avgs \<Rightarrow>
     (case int_field pd (field_text sn ''docsPnmCmtsUsOfdmaRxMerMeasStatus'' ix) of Inl e \<Rightarrow> Inl e | Inr status \<Rightarrow>
     (case int_field pd (field_text sn ''docsPnmCmtsUsOfdmaRxMerDestinationIndex'' ix) of Inl e \<Rightarrow> Inl e | Inr dest \<Rightarrow>
        Inr \<lparr>docsPnmCmtsUsOfdmaRxMerEnable = fetch_cast (sn_truth sn) sn ''docsPnmCmtsUsOfdmaRxMerEnable'' ix,
             docsPnmCmtsUsOfdmaRxMerCmMac = fetch_cast (\<lambda>s. sn_mac sn (PyStr s)) sn ''docsPnmCmtsUsOfdmaRxMerCmMac'' ix,
             docsPnmCmtsUsOfdmaRxMerPreEq = fetch_cast (sn_truth sn) sn ''docsPnmCmtsUsOfdmaRxMerPreEq'' ix,
             docsPnmCmtsUsOfdmaRxMerNumAvgs = avgs,
             docsPnmCmtsUsOfdmaRxMerMeasStatus = status,
             docsPnmCmtsUsOfdmaRxMerFileName = field_text sn ''docsPnmCmtsUsOfdmaRxMerFileName'' ix,
             docsPnmCmtsUsOfdmaRxMerDestinationIndex = dest\<rparr>)))"

subsection \<open>Bulk data transfer\<close>

record bulk_entry =
  docsPnmBulkDataTransferCfgDestIndex :: "int option"
  docsPnmBulkDataTransferCfgDestHostname :: "string option"
  docsPnmBulkDataTransferCfgDestHostIpAddrType :: "int option"
  docsPnmBulkDataTransferCfgDestHostIpAddress :: "string option"
  docsPnmBulkDataTransferCfgDestPort :: "int option"
  docsPnmBulkDataTransferCfgDestBaseUri :: "string option"
  docsPnmBulkDataTransferCfgProtocol :: "int option"
  docsPnmBulkDataTransferCfgLocalStore :: "bool option"
  docsPnmBulkDataTransferCfgRowStatus :: "int option"

definition bulk_updates :: "bulk_entry \<Rightarrow> (string \<times> field_value) list" where
  "bulk_updates e =
     filter (\<lambda>(f, v). f \<noteq> ''docsPnmBulkDataTransferCfgDestIndex'')
       (concat [some_field ''docsPnmBulkDataTransferCfgDestIndex'' FieldInt (docsPnmBulkDataTransferCfgDestIndex e),
          some_field ''docsPnmBulkDataTransferCfgDestHostname'' FieldStr (docsPnmBulkDataTransferCfgDestHostname e),
          some_field ''docsPnmBulkDataTransferCfgDestHostIpAddrType'' FieldInt (docsPnmBulkDataTransferCfgDestHostIpAddrType e),
          some_field ''docsPnmBulkDataTransferCfgDestHostIpAddress'' FieldStr (docsPnmBulkDataTransferCfgDestHostIpAddress e),
          some_field ''docsPnmBulkDataTransferCfgDestPort'' FieldInt (docsPnmBulkDataTransferCfgDestPort e),
          some_field ''docsPnmBulkDataTransferCfgDestBaseUri'' FieldStr (docsPnmBulkDataTransferCfgDestBaseUri e),
          some_field ''docsPnmBulkDataTransferCfgProtocol'' FieldInt (docsPnmBulkDataTransferCfgProtocol e),
          some_field ''docsPnmBulkDataTransferCfgLocalStore'' FieldBool (docsPnmBulkDataTransferCfgLocalStore e),
          some_field ''docsPnmBulkDataTransferCfgRowStatus'' FieldInt (docsPnmBulkDataTransferCfgRowStatus e)])"

definition bulk_specs :: "set_spec list" where
  "bulk_specs =
     [\<lparr>sp_field = ''docsPnmBulkDataTransferCfgDestHostname'', sp_type = OctetStringType, sp_encoder = None\<rparr>,
      \<lparr>sp_field = ''docsPnmBulkDataTransferCfgDestHostIpAddrType'', sp_type = Integer32Type, sp_encoder = Some encode_int\<rparr>,
      \<lparr>sp_field = ''docsPnmBulkDataTransferCfgDestHostIpAddress'', sp_type = OctetStringType, sp_encoder = None\<rparr>,
      \<lparr>sp_field = ''docsPnmBulkDataTransferCfgDestPort'', sp_type = Integer32Type, sp_encoder = None\<rparr>,
      \<lparr>sp_field = ''docsPnmBulkDataTransferCfgDestBaseUri'', sp_type = OctetStringType, sp_encoder = None\<rparr>,
      \<lparr>sp_field = ''docsPnmBulkDataTransferCfgProtocol'', sp_type = Integer32Type, sp_encoder = Some encode_int\<rparr>,
      \<lparr>sp_field = ''docsPnmBulkDataTransferCfgLocalStore'', sp_type = Integer32Type, sp_encoder = Some encode_truth\<rparr>,
      \<lparr>sp_field = ''docsPnmBulkDataTransferCfgRowStatus'', sp_type = Integer32Type, sp_encoder = None\<rparr>]"

definition bulk_set :: "'s setter \<Rightarrow> int \<Rightarrow> bulk_entry \<Rightarrow> 's \<Rightarrow> bool \<times> 's" where
  "bulk_set setf ix e s = set_fields setf bulk_specs ix (bulk_updates e) s"

text \<open>The members of the protocol enumeration; those of the address types are a parameter.\<close>

definition protocol_of :: "string \<Rightarrow> int option" where
  "protocol_of s = (case py_int s of Some n \<Rightarrow> if n \<in> {1, 2, 3} then Some n else None | None \<Rightarrow> None)"

definition enum_of :: "(int \<Rightarrow> bool) \<Rightarrow> string \<Rightarrow> int option" where
  "enum_of member s = (case py_int s of Some n \<Rightarrow> if member n then Some n else None | None \<Rightarrow> None)"

definition bulk_from_snmp :: "(string \<Rightarrow> int option) \<Rightarrow> (int \<Rightarrow> bool) \<Rightarrow> snmp \<Rightarrow> int \<Rightarrow> bulk_entry result" where
  "bulk_from_snmp pd inet_type sn ix =
     (case int_field pd (field_text sn ''docsPnmBulkDataTransferCfgDestIndex'' ix) of Inl e \<Rightarrow> Inl e | Inr dest \<Rightarrow>
     (case int_field pd (field_text sn ''docsPnmBulkDataTransferCfgDestPort'' ix) of Inl e \<Rightarrow> Inl e | Inr port \<Rightarrow>
     (case int_field pd (field_text sn ''docsPnmBulkDataTransferCfgRowStatus'' ix) of Inl e \<Rightarrow> Inl e | Inr status \<Rightarrow>
        Inr \<lparr>docsPnmBulkDataTransferCfgDestIndex = dest,
             docsPnmBulkDataTransferCfgDestHostname = field_text sn ''docsPnmBulkDataTransferCfgDestHostname'' ix,
             docsPnmBulkDataTransferCfgDestHostIpAddrType =
               fetch_cast (enum_of inet_type) sn ''docsPnmBulkDataTransferCfgDestHostIpAddrType'' ix,
             docsPnmBulkDataTransferCfgDestHostIpAddress = field_text sn ''docsPnmBulkDataTransferCfgDestHostIpAddress'' ix,
             docsPnmBulkDataTransferCfgDestPort = port,
             docsPnmBulkDataTransferCfgDestBaseUri = field_text sn ''docsPnmBulkDataTransferCfgDestBaseUri'' ix,
             docsPnmBulkDataTransferCfgProtocol = fetch_cast protocol_of sn ''docsPnmBulkDataTransferCfgProtocol'' ix,
             docsPnmBulkDataTransferCfgLocalStore = fetch_cast (sn_truth sn) sn ''docsPnmBulkDataTransferCfgLocalStore'' ix,
             docsPnmBulkDataTransferCfgRowStatus = status\<rparr>)))"

section \<open>Tables\<close>

text \<open>\<open>get\<close> and \<open>get_all\<close>: an exception of a row leaves both; the operation of \<open>CmtsOperation\<close> catches
  it and returns no rows.\<close>

fun rows_of :: "(int \<Rightarrow> 'a result) \<Rightarrow> int list \<Rightarrow> (int \<times> 'a) list result" where
  "rows_of f [] = Inr []"
| "rows_of f (ix # ixs) =
     (case f ix of
        Inl e \<Rightarrow> Inl e
      | Inr r \<Rightarrow> (case rows_of f ixs of Inl e \<Rightarrow> Inl e | Inr rs \<Rightarrow> Inr ((ix, r) # rs)))"

definition rxmer_get_all :: "(string \<Rightarrow> int option) \<Rightarrow> snmp \<Rightarrow> (int \<times> rxmer_entry) list result" where
  "rxmer_get_all pd sn = rows_of (rxmer_from_snmp pd sn) (table_indices sn ''docsPnmCmtsUsOfdmaRxMerMeasStatus'')"

definition bulk_get_all :: "(string \<Rightarrow> int option) \<Rightarrow> (int \<Rightarrow> bool) \<Rightarrow> snmp \<Rightarrow> (int \<times> bulk_entry) list result" where
  "bulk_get_all pd inet_type sn =
     rows_of (bulk_from_snmp pd inet_type sn) (table_indices sn ''docsPnmBulkDataTransferCfgRowStatus'')"

definition rows_or_none :: "'a list result \<Rightarrow> 'a list" where
  "rows_or_none r = (case r of Inl _ \<Rightarrow> [] | Inr rs \<Rightarrow> rs)"

definition rxmer_records :: "(string \<Rightarrow> int option) \<Rightarrow> snmp \<Rightarrow> (int \<times> rxmer_entry) list" where
  "rxmer_records pd sn = rows_or_none (rxmer_get_all pd sn)"

definition bulk_records :: "(string \<Rightarrow> int option) \<Rightarrow> (int \<Rightarrow> bool) \<Rightarrow> snmp \<Rightarrow> (int \<times> bulk_entry) list" where
  "bulk_records pd inet_type sn = rows_or_none (bulk_get_all pd inet_type sn)"

section \<open>Lemmas\<close>

text \<open>A CMTS that keeps what is configured: after a set that returns something, a get of that object gives the value
  in the form in which the CMTS shows it, and the other configured objects \<open>objs\<close> are as before; objects outside,
  such as a status, may change.\<close>

definition keeps_writes ::
  "string set \<Rightarrow> (string \<Rightarrow> field_value \<Rightarrow> string) \<Rightarrow> 's setter \<Rightarrow> ('s \<Rightarrow> string \<Rightarrow> string option) \<Rightarrow> bool" where
  "keeps_writes objs shown setf read =
     (\<forall>oid v ty s s'. setf oid v ty s = (Inr True, s') \<longrightarrow>
        read s' oid = Some (shown oid v) \<and> (\<forall>obj \<in> objs. obj \<noteq> oid \<longrightarrow> read s' obj = read s obj))"

definition reading :: "snmp \<Rightarrow> ('s \<Rightarrow> string \<Rightarrow> string option) \<Rightarrow> 's \<Rightarrow> snmp" where
  "reading sn read s = sn\<lparr>sn_get := (\<lambda>oid. Inr (read s oid))\<rparr>"

lemma field_oid_inj [simp]: "field_oid f ix = field_oid g ix \<longleftrightarrow> f = g"
  by (simp add: field_oid_def)

lemma set_fields_True:
  assumes "set_fields setf specs ix ((g, raw) # us) s = (True, s')"
  shows "\<exists>sp v t. spec_map specs g = Some sp \<and> encode_value sp raw = Some v
    \<and> setf (field_oid g ix) v (sp_type sp) s = (Inr True, t) \<and> set_fields setf specs ix us t = (True, s')"
  using assms by (simp split: option.splits prod.splits sum.splits bool.splits)

lemma set_fields_frame:
  assumes "keeps_writes objs shown setf read" and "set_fields setf specs ix us s = (True, s')" and "f \<notin> fst ` set us"
    and "field_oid f ix \<in> objs"
  shows "read s' (field_oid f ix) = read s (field_oid f ix)"
  using assms(2,3)
proof (induction us arbitrary: s)
  case Nil
  then show ?case by simp
next
  case (Cons u us)
  obtain g raw where u: "u = (g, raw)" by (cases u)
  from Cons.prems(1) obtain sp v t where "spec_map specs g = Some sp" and t: "setf (field_oid g ix) v (sp_type sp) s = (Inr True, t)"
    and rest: "set_fields setf specs ix us t = (True, s')"
    using set_fields_True [OF Cons.prems(1) [unfolded u]] by blast
  have "f \<noteq> g" using Cons.prems(2) by (auto simp: u)
  then have "read t (field_oid f ix) = read s (field_oid f ix)"
    using assms(1,4) t by (auto simp: keeps_writes_def)
  with Cons.IH [OF rest] Cons.prems(2) show ?case by (simp add: u)
qed

lemma set_fields_reads:
  assumes "keeps_writes objs shown setf read" and "set_fields setf specs ix us s = (True, s')"
    and "distinct (map fst us)" and "(f, raw) \<in> set us" and "field_oid f ix \<in> objs"
  shows "\<exists>sp v. spec_map specs f = Some sp \<and> encode_value sp raw = Some v
    \<and> read s' (field_oid f ix) = Some (shown (field_oid f ix) v)"
  using assms(2-4)
proof (induction us arbitrary: s)
  case Nil
  then show ?case by simp
next
  case (Cons u us)
  obtain g r where u: "u = (g, r)" by (cases u)
  from Cons.prems(1) obtain sp v t where sp: "spec_map specs g = Some sp" "encode_value sp r = Some v"
    and t: "setf (field_oid g ix) v (sp_type sp) s = (Inr True, t)"
    and rest: "set_fields setf specs ix us t = (True, s')"
    using set_fields_True [OF Cons.prems(1) [unfolded u]] by blast
  show ?case
  proof (cases "f = g")
    case True
    with Cons.prems(2,3) have "raw = r" and "f \<notin> fst ` set us"
      by (auto simp: u image_iff)
    moreover from this(2) have "read s' (field_oid f ix) = read t (field_oid f ix)"
      by (rule set_fields_frame [OF assms(1) rest]) (rule assms(5))
    moreover have "read t (field_oid g ix) = Some (shown (field_oid g ix) v)"
      using assms(1) t by (auto simp: keeps_writes_def)
    ultimately show ?thesis using sp True by auto
  next
    case False
    with Cons.IH [OF rest] Cons.prems(2,3) show ?thesis by (simp add: u)
  qed
qed

lemma distinct_some_fields:
  "distinct (map fst (rxmer_updates e))"
  by (cases "docsPnmCmtsUsOfdmaRxMerEnable e"; cases "docsPnmCmtsUsOfdmaRxMerCmMac e"; cases "docsPnmCmtsUsOfdmaRxMerPreEq e";
      cases "docsPnmCmtsUsOfdmaRxMerNumAvgs e"; cases "docsPnmCmtsUsOfdmaRxMerFileName e";
      cases "docsPnmCmtsUsOfdmaRxMerDestinationIndex e"; cases "docsPnmCmtsUsOfdmaRxMerMeasStatus e")
    (simp_all add: rxmer_updates_def some_field_def)

lemma status_not_written: "''docsPnmCmtsUsOfdmaRxMerMeasStatus'' \<notin> fst ` set (rxmer_updates e)"
proof -
  have "f \<notin> fst ` set (filter (\<lambda>(g, v). g \<noteq> f) xs)" for f :: string and xs :: "(string \<times> field_value) list"
    by auto
  then show ?thesis unfolding rxmer_updates_def .
qed

lemma field_text_reading:
  "field_text (reading sn read s) f ix
     = (case read s (field_oid f ix) of None \<Rightarrow> None | Some t \<Rightarrow> if t = '''' then None else Some t)"
  by (simp add: field_text_def get_value_def reading_def field_oid_def split: option.splits)

lemma read_text: "read s oid = Some t \<Longrightarrow> oid = field_oid f ix \<Longrightarrow> field_text (reading sn read s) f ix = (if t = [] then None else Some t)"
  by (simp add: field_text_reading)

lemma read_no_text: "read s oid = None \<Longrightarrow> oid = field_oid f ix \<Longrightarrow> field_text (reading sn read s) f ix = None"
  by (simp add: field_text_reading)

lemma rxmer_spec_cases:
  "spec_map rxmer_specs ''docsPnmCmtsUsOfdmaRxMerEnable'' = Some (rxmer_specs ! 0)"
  "spec_map rxmer_specs ''docsPnmCmtsUsOfdmaRxMerCmMac'' = Some (rxmer_specs ! 1)"
  "spec_map rxmer_specs ''docsPnmCmtsUsOfdmaRxMerPreEq'' = Some (rxmer_specs ! 2)"
  "spec_map rxmer_specs ''docsPnmCmtsUsOfdmaRxMerNumAvgs'' = Some (rxmer_specs ! 3)"
  "spec_map rxmer_specs ''docsPnmCmtsUsOfdmaRxMerFileName'' = Some (rxmer_specs ! 4)"
  "spec_map rxmer_specs ''docsPnmCmtsUsOfdmaRxMerDestinationIndex'' = Some (rxmer_specs ! 5)"
  by (simp_all add: spec_map_def rxmer_specs_def)

text \<open>The objects of a row that can be configured.\<close>

definition rxmer_objects :: "int \<Rightarrow> string set" where
  "rxmer_objects ix = (\<lambda>sp. field_oid (sp_field sp) ix) ` set rxmer_specs"

lemma rxmer_objects_member: "spec_map rxmer_specs f = Some sp \<Longrightarrow> field_oid f ix \<in> rxmer_objects ix"
  by (auto simp: spec_map_def rxmer_objects_def rxmer_specs_def split: if_splits)

text \<open>What a get of a written field's object gives.\<close>

lemma rxmer_written:
  assumes "keeps_writes (rxmer_objects ix) shown setf read" and "rxmer_set setf ix e s = (True, s')"
    and "(f, raw) \<in> set (rxmer_updates e)" and "spec_map rxmer_specs f = Some sp" and "encode_value sp raw = Some v"
  shows "read s' (field_oid f ix) = Some (shown (field_oid f ix) v)"
  using set_fields_reads [OF assms(1) assms(2) [unfolded rxmer_set_def] distinct_some_fields assms(3)
      rxmer_objects_member [OF assms(4)]] assms(4,5)
  by auto

lemma truth_text: "int_str (encode_truth_value b) = (if b then ''1'' else ''2'')"
  by (simp add: encode_truth_value_def int_str_def nat_str.simps digit_char_def char_of_def bit_Suc_0_iff)

lemma rxmer_encode_simps:
  "encode_value (rxmer_specs ! 0) v = Some (FieldInt (encode_truth_value (bool_of_value v)))"
  "encode_value (rxmer_specs ! Suc 0) v = Some v"
  "encode_value (rxmer_specs ! 2) v = Some (FieldInt (encode_truth_value (bool_of_value v)))"
  "encode_value (rxmer_specs ! 3) v = Some v" "encode_value (rxmer_specs ! 4) v = Some v"
  "encode_value (rxmer_specs ! 5) v = Some v"
  by (simp_all add: encode_value_def rxmer_specs_def encode_truth_def)

lemma rxmer_update_members:
  "docsPnmCmtsUsOfdmaRxMerEnable e = Some b \<Longrightarrow> (''docsPnmCmtsUsOfdmaRxMerEnable'', FieldBool b) \<in> set (rxmer_updates e)"
  "docsPnmCmtsUsOfdmaRxMerCmMac e = Some m \<Longrightarrow> (''docsPnmCmtsUsOfdmaRxMerCmMac'', FieldStr m) \<in> set (rxmer_updates e)"
  "docsPnmCmtsUsOfdmaRxMerPreEq e = Some b \<Longrightarrow> (''docsPnmCmtsUsOfdmaRxMerPreEq'', FieldBool b) \<in> set (rxmer_updates e)"
  "docsPnmCmtsUsOfdmaRxMerNumAvgs e = Some n \<Longrightarrow> (''docsPnmCmtsUsOfdmaRxMerNumAvgs'', FieldInt n) \<in> set (rxmer_updates e)"
  "docsPnmCmtsUsOfdmaRxMerFileName e = Some m \<Longrightarrow> (''docsPnmCmtsUsOfdmaRxMerFileName'', FieldStr m) \<in> set (rxmer_updates e)"
  "docsPnmCmtsUsOfdmaRxMerDestinationIndex e = Some n
     \<Longrightarrow> (''docsPnmCmtsUsOfdmaRxMerDestinationIndex'', FieldInt n) \<in> set (rxmer_updates e)"
  by (simp_all add: rxmer_updates_def some_field_def)

section \<open>Properties\<close>

text \<open>C28: A complete RxMER row whose set succeeds is read back, with the measurement status the CMTS then shows, on a
  CMTS that keeps what is configured: it shows integers in decimal, the file name as it was written, and the MAC
  address in some form that the parser of MAC addresses takes for the same address.\<close>

theorem rxmer_row_roundtrip:
  assumes "keeps_writes (rxmer_objects ix) shown setf read" and "rxmer_set setf ix e s = (True, s')"
    and "\<And>oid n. shown oid (FieldInt n) = int_str n" and "\<And>n. pd (int_str n) = Some n"
    and "sn_truth sn ''1'' = Some True" and "sn_truth sn ''2'' = Some False"
    and "shown (field_oid ''docsPnmCmtsUsOfdmaRxMerFileName'' ix) (FieldStr name) = name" and "name \<noteq> ''''"
    and "shown (field_oid ''docsPnmCmtsUsOfdmaRxMerCmMac'' ix) (FieldStr mac) = shown_mac" and "shown_mac \<noteq> ''''"
    and "sn_mac sn (PyStr shown_mac) = Some mac"
    and "e = \<lparr>docsPnmCmtsUsOfdmaRxMerEnable = Some en, docsPnmCmtsUsOfdmaRxMerCmMac = Some mac,
      docsPnmCmtsUsOfdmaRxMerPreEq = Some pre, docsPnmCmtsUsOfdmaRxMerNumAvgs = Some avgs,
      docsPnmCmtsUsOfdmaRxMerMeasStatus = old, docsPnmCmtsUsOfdmaRxMerFileName = Some name,
      docsPnmCmtsUsOfdmaRxMerDestinationIndex = Some dest\<rparr>"
    and "int_field pd (field_text (reading sn read s') ''docsPnmCmtsUsOfdmaRxMerMeasStatus'' ix) = Inr status"
  shows "rxmer_from_snmp pd (reading sn read s') ix = Inr (e\<lparr>docsPnmCmtsUsOfdmaRxMerMeasStatus := status\<rparr>)"
proof -
  note written = rxmer_written [OF assms(1,2)]
  have r: "read s' (field_oid ''docsPnmCmtsUsOfdmaRxMerEnable'' ix) = Some (int_str (encode_truth_value en))"
    "read s' (field_oid ''docsPnmCmtsUsOfdmaRxMerCmMac'' ix) = Some shown_mac"
    "read s' (field_oid ''docsPnmCmtsUsOfdmaRxMerPreEq'' ix) = Some (int_str (encode_truth_value pre))"
    "read s' (field_oid ''docsPnmCmtsUsOfdmaRxMerNumAvgs'' ix) = Some (int_str avgs)"
    "read s' (field_oid ''docsPnmCmtsUsOfdmaRxMerFileName'' ix) = Some name"
    "read s' (field_oid ''docsPnmCmtsUsOfdmaRxMerDestinationIndex'' ix) = Some (int_str dest)"
    using written [OF rxmer_update_members(1) rxmer_spec_cases(1), of en] written [OF rxmer_update_members(2) rxmer_spec_cases(2), of mac]
      written [OF rxmer_update_members(3) rxmer_spec_cases(3), of pre] written [OF rxmer_update_members(4) rxmer_spec_cases(4), of avgs]
      written [OF rxmer_update_members(5) rxmer_spec_cases(5), of name] written [OF rxmer_update_members(6) rxmer_spec_cases(6), of dest]
    by (simp_all add: assms(3,7,9,12) rxmer_encode_simps)
  note texts = r [THEN read_text [where read = read and s = s' and sn = sn, OF _ refl]]
  have "sn_truth (reading sn read s') = sn_truth sn" "sn_mac (reading sn read s') = sn_mac sn" by (simp_all add: reading_def)
  then show ?thesis
    using assms(4-6,8,10,11,13) unfolding rxmer_from_snmp_def fetch_cast_def texts assms(12) int_field_def
    by (simp add: truth_text)
qed

text \<open>A CMTS that keeps its objects in a map and shows a MAC address in hexadecimal.\<close>

definition shown_value :: "string \<Rightarrow> field_value \<Rightarrow> string" where
  "shown_value oid v =
     (case v of
        FieldInt n \<Rightarrow> int_str n
      | FieldBool b \<Rightarrow> if b then ''1'' else ''0''
      | FieldStr t \<Rightarrow> if t = ''00:11:22:33:44:55'' then ''0x001122334455'' else t)"

definition map_set :: "(string \<Rightarrow> string option) setter" where
  "map_set oid v ty s = (Inr True, s(oid \<mapsto> shown_value oid v))"

definition sample_row :: rxmer_entry where
  "sample_row = \<lparr>docsPnmCmtsUsOfdmaRxMerEnable = Some True, docsPnmCmtsUsOfdmaRxMerCmMac = Some ''00:11:22:33:44:55'',
     docsPnmCmtsUsOfdmaRxMerPreEq = Some False, docsPnmCmtsUsOfdmaRxMerNumAvgs = Some 25,
     docsPnmCmtsUsOfdmaRxMerMeasStatus = None, docsPnmCmtsUsOfdmaRxMerFileName = Some ''f'',
     docsPnmCmtsUsOfdmaRxMerDestinationIndex = Some 7\<rparr>"

definition sample_client :: snmp where
  "sample_client = demo_snmp\<lparr>sn_truth := (\<lambda>s. if s = ''1'' then Some True else if s = ''2'' then Some False else None),
     sn_mac := (\<lambda>v. if v = PyStr ''0x001122334455'' then Some ''00:11:22:33:44:55'' else None)\<rparr>"

lemma map_set_keeps: "keeps_writes objs shown_value map_set (\<lambda>s. s)"
  by (simp add: keeps_writes_def map_set_def)

lemma map_set_fields:
  "\<forall>(f, v) \<in> set us. \<exists>sp w. spec_map specs f = Some sp \<and> encode_value sp v = Some w
     \<Longrightarrow> fst (set_fields map_set specs ix us s)"
  by (induction us arbitrary: s) (auto simp: map_set_def)

lemma sample_row_set: "fst (rxmer_set map_set 42 sample_row Map.empty)"
  unfolding rxmer_set_def
  by (rule map_set_fields) (simp add: sample_row_def rxmer_updates_def some_field_def rxmer_spec_cases rxmer_encode_simps)

lemma sample_row_status:
  "field_text (reading sn (\<lambda>s. s) (snd (rxmer_set map_set 42 sample_row Map.empty))) ''docsPnmCmtsUsOfdmaRxMerMeasStatus'' 42 = None"
proof -
  have "snd (set_fields map_set specs ix us s) oid = s oid" if "oid \<notin> (\<lambda>u. field_oid (fst u) ix) ` set us" for specs ix us s oid
    using that by (induction us arbitrary: s) (auto simp: map_set_def split: option.splits)
  note frame = this [of "field_oid ''docsPnmCmtsUsOfdmaRxMerMeasStatus'' 42"]
  have "snd (rxmer_set map_set 42 sample_row Map.empty) (field_oid ''docsPnmCmtsUsOfdmaRxMerMeasStatus'' 42) = None"
    unfolding rxmer_set_def by (subst frame) (use status_not_written in \<open>auto simp: image_iff\<close>)
  then show ?thesis by (simp add: field_text_reading)
qed

lemma rxmer_row_roundtrip_witness:
  "rxmer_from_snmp py_int (reading sample_client (\<lambda>s. s) (snd (rxmer_set map_set 42 sample_row Map.empty))) 42 = Inr sample_row"
proof -
  have "rxmer_set map_set 42 sample_row Map.empty = (True, snd (rxmer_set map_set 42 sample_row Map.empty))"
    using sample_row_set by (metis prod.collapse)
  from rxmer_row_roundtrip [OF map_set_keeps this _ _ _ _ _ _ _ _ _ sample_row_def, of py_int sample_client "''0x001122334455''" None]
  show ?thesis
    by (simp add: py_int_int_str sample_client_def sample_row_status int_field_def shown_value_def)
      (simp add: sample_row_def)
qed

text \<open>A write that fails stops at the first field that fails: what was written before stays, and nothing
  after it is tried.\<close>

theorem set_fields_stops:
  assumes "set_fields setf specs ix us s = (True, t)" and "spec_map specs f = Some sp"
    and "encode_value sp raw = Some v" and "setf (field_oid f ix) v (sp_type sp) t = (r, t')" and "r \<noteq> Inr True"
  shows "set_fields setf specs ix (us @ (f, raw) # rest) s = (False, t')"
  using assms(1)
proof (induction us arbitrary: s)
  case Nil
  with assms(2-5) show ?case by (auto split: sum.splits bool.splits)
next
  case (Cons u us)
  obtain g w where u: "u = (g, w)" by (cases u)
  from Cons.prems obtain sp' v' s' where "spec_map specs g = Some sp'" "encode_value sp' w = Some v'"
    "setf (field_oid g ix) v' (sp_type sp') s = (Inr True, s')" "set_fields setf specs ix us s' = (True, t)"
    using set_fields_True [OF Cons.prems [unfolded u]] by blast
  with Cons.IH show ?case by (simp add: u)
qed

lemma set_fields_stops_witness:
  "set_fields (\<lambda>oid v ty s. (Inr (oid \<noteq> ''docsPnmCmtsUsOfdmaRxMerNumAvgs.7''), oid # s)) rxmer_specs 7
     ([(''docsPnmCmtsUsOfdmaRxMerFileName'', FieldStr ''f'')] @ (''docsPnmCmtsUsOfdmaRxMerNumAvgs'', FieldInt 25)
        # [(''docsPnmCmtsUsOfdmaRxMerDestinationIndex'', FieldInt 1)]) []
   = (False, [''docsPnmCmtsUsOfdmaRxMerNumAvgs.7'', ''docsPnmCmtsUsOfdmaRxMerFileName.7''])"
proof -
  have oid: "field_oid f 7 = f @ ''.7''" for f
    by (simp add: field_oid_def int_str_def nat_str.simps digit_char_def char_of_def bit_Suc_0_iff)
  show ?thesis
    by (rule set_fields_stops [where sp = "rxmer_specs ! 3" and v = "FieldInt 25" and r = "Inr False"
          and t = "[''docsPnmCmtsUsOfdmaRxMerFileName.7'']"])
      (simp_all add: rxmer_spec_cases rxmer_encode_simps oid)
qed

text \<open>One row with an integer field that does not parse hides all rows of its table.\<close>

lemma rows_of_Inl: "ix \<in> set ixs \<Longrightarrow> f ix = Inl e \<Longrightarrow> \<exists>e'. rows_of f ixs = Inl e'"
  by (induction ixs) (auto split: sum.splits)

theorem bad_integer_hides_table:
  assumes "ix \<in> set (table_indices sn ''docsPnmBulkDataTransferCfgRowStatus'')"
    and "field_text sn ''docsPnmBulkDataTransferCfgDestPort'' ix = Some text" and "pd text = None"
  shows "bulk_records pd inet_type sn = []"
proof -
  have "\<exists>e. bulk_from_snmp pd inet_type sn ix = Inl e"
    using assms(2,3) by (simp add: bulk_from_snmp_def int_field_def split: option.splits sum.splits)
  then obtain e where "bulk_from_snmp pd inet_type sn ix = Inl e" by blast
  from rows_of_Inl [where f = "bulk_from_snmp pd inet_type sn", OF assms(1) this] obtain e' where "bulk_get_all pd inet_type sn = Inl e'"
    by (auto simp: bulk_get_all_def)
  then show ?thesis by (simp add: bulk_records_def rows_or_none_def)
qed

lemma bad_integer_hides_table_witness:
  "bulk_records py_int (\<lambda>n. True) (sample_client\<lparr>sn_walk := (\<lambda>oid. Inr [demo_row [1, 7]]),
      sn_get := (\<lambda>oid. Inr (Some ''x''))\<rparr>) = []"
  by (rule bad_integer_hides_table [of 7 _ "''x''"])
    (simp_all add: table_indices_def walk_rows_def sample_client_def demo_snmp_def demo_row_def field_text_def
      get_value_def py_int_def py_strip_def py_lstrip_def py_space_def digit_value_def Let_def)

end

