(* ===== verification/SysDescr.thy ===== *)
theory SysDescr
  imports Inventory
begin

text \<open>
  What a CMTS says of itself: the parser of the system description in
  \<open>docsis/data_type/cmts_sysdescr.py\<close>, the identity of \<open>docsis/cmts_operation.py\<close> and
  \<open>docsis/data_type/cmts_identity.py\<close>, the device object of \<open>docsis/cmts.py\<close> and the endpoint of
  \<open>api/routes/system/service.py\<close>.  The regular expressions are lists of items matched with
  backtracking, as \<open>re\<close> does; \<open>bytes.decode\<close> with replacement characters is a parameter.
\<close>

section \<open>Regular expressions\<close>

text \<open>An item is a literal, a greedy run of characters of a class, one of at least one character, the latter
  as a named group, or the end of the text (before a last newline, too).\<close>

datatype rx_item = Lit string | Star "char \<Rightarrow> bool" | Run "char \<Rightarrow> bool" | Group string "char \<Rightarrow> bool" | AtEnd

fun first_some :: "'a option list \<Rightarrow> 'a option" where
  "first_some [] = None"
| "first_some (None # xs) = first_some xs"
| "first_some (Some x # xs) = Some x"

definition run_lengths :: "(char \<Rightarrow> bool) \<Rightarrow> string \<Rightarrow> nat list" where
  "run_lengths p s = rev [1..<length (takeWhile p s) + 1]"

fun rx_match :: "rx_item list \<Rightarrow> string \<Rightarrow> (string \<times> string) list option" where
  "rx_match [] s = Some []"
| "rx_match (Lit p # r) s = (if py_startswith s p then rx_match r (drop (length p) s) else None)"
| "rx_match (Star p # r) s = first_some (map (\<lambda>n. rx_match r (drop n s)) (run_lengths p s @ [0]))"
| "rx_match (Run p # r) s = first_some (map (\<lambda>n. rx_match r (drop n s)) (run_lengths p s))"
| "rx_match (Group g p # r) s =
     first_some (map (\<lambda>n. map_option (Cons (g, take n s)) (rx_match r (drop n s))) (run_lengths p s))"
| "rx_match (AtEnd # r) s = (if s = [] \<or> s = [CHR 0x0A] then rx_match r s else None)"

text \<open>\<open>search\<close>: the first position that matches; an expression that starts with \<open>^\<close> is tried at the
  beginning only.\<close>

fun rx_search :: "rx_item list \<Rightarrow> string \<Rightarrow> (string \<times> string) list option" where
  "rx_search r [] = rx_match r []"
| "rx_search r (c # s) = (case rx_match r (c # s) of Some m \<Rightarrow> Some m | None \<Rightarrow> rx_search r s)"

definition not_in :: "string \<Rightarrow> char \<Rightarrow> bool" where
  "not_in cs c = (c \<notin> set cs)"

definition word_char :: "char \<Rightarrow> bool" where
  "word_char c =
     (let n = (of_char c :: nat)
      in (48 \<le> n \<and> n \<le> 57) \<or> (65 \<le> n \<and> n \<le> 90) \<or> n = 95 \<or> (97 \<le> n \<and> n \<le> 122)
         \<or> n \<in> {170, 178, 179, 181, 185, 186, 188, 189, 190}
         \<or> (192 \<le> n \<and> n \<noteq> 215 \<and> n \<noteq> 247))"

definition cisco_regex :: "rx_item list" where
  "cisco_regex =
     [Lit ''Cisco IOS Software'', Run py_space, Lit ''['', Group ''train'' (not_in '']''), Lit ''],'', Run py_space,
      Group ''platform'' (not_in '',''), Lit '','', Run py_space, Lit ''Version'', Run py_space,
      Group ''version'' (not_in '',''), Lit '','', Run py_space, Lit ''RELEASE SOFTWARE'', Run py_space, Lit ''('',
      Group ''release'' (not_in '')''), Lit '')'']"

definition harmonic_regex :: "rx_item list" where
  "harmonic_regex = [Lit ''Harmonic'', Run py_space, Group ''platform'' (not_in [CHR 0x0A]), AtEnd]"

definition harmonic_version_regex :: "rx_item list" where
  "harmonic_version_regex =
     [Group ''software'' word_char, Run py_space, Lit ''Software,'', Run py_space, Lit ''Released'', Run py_space,
      Lit ''Version'', Run py_space, Group ''version'' (not_in [CHR 0x0A]), AtEnd]"

definition group_text :: "string \<Rightarrow> (string \<times> string) list \<Rightarrow> string" where
  "group_text g m = (case map_of m g of Some s \<Rightarrow> s | None \<Rightarrow> '''')"

section \<open>Lines\<close>

definition line_break :: "char \<Rightarrow> bool" where
  "line_break c = (let n = (of_char c :: nat) in (10 \<le> n \<and> n \<le> 13) \<or> (28 \<le> n \<and> n \<le> 30) \<or> n = 133)"

text \<open>\<open>str.splitlines\<close>: no empty line after the last break, and a carriage return with its newline is one
  break.\<close>

fun splitlines_from :: "string \<Rightarrow> string \<Rightarrow> string list" where
  "splitlines_from acc [] = (if acc = [] then [] else [rev acc])"
| "splitlines_from acc (c # s) =
     (if c = CHR 0x0D \<and> py_startswith s [CHR 0x0A] then rev acc # splitlines_from [] (tl s)
      else if line_break c then rev acc # splitlines_from [] s
      else splitlines_from (c # acc) s)"

definition py_splitlines :: "string \<Rightarrow> string list" where
  "py_splitlines s = splitlines_from [] s"

text \<open>The stripped lines that are not empty.\<close>

definition text_lines :: "string \<Rightarrow> string list" where
  "text_lines s = filter (\<lambda>l. l \<noteq> '''') (map py_strip (py_splitlines s))"

section \<open>The system description\<close>

record sysdescr =
  sd_vendor :: string
  sd_platform :: string
  sd_software :: string
  sd_version :: string
  sd_release :: string
  sd_compiled :: string
  sd_raw :: string
  sd_empty :: bool

definition empty_sysdescr :: sysdescr where
  "empty_sysdescr =
     \<lparr>sd_vendor = '''', sd_platform = '''', sd_software = '''', sd_version = '''', sd_release = '''', sd_compiled = '''',
      sd_raw = '''', sd_empty = True\<rparr>"

definition raw_sysdescr :: "string \<Rightarrow> sysdescr" where
  "raw_sysdescr raw = empty_sysdescr\<lparr>sd_raw := raw, sd_empty := False\<rparr>"

definition normalize_raw :: "(nat list \<Rightarrow> string) \<Rightarrow> string \<Rightarrow> string" where
  "normalize_raw decode s =
     (let raw = py_strip s
      in if py_startswith raw ''0x'' \<and> even (length (drop 2 raw))
         then (case from_hex (drop 2 raw) of Some bs \<Rightarrow> py_strip (decode bs) | None \<Rightarrow> raw)
         else raw)"

datatype cmts_vendor = Cisco | Harmonic | UnknownVendor

definition detect_vendor :: "string \<Rightarrow> cmts_vendor" where
  "detect_vendor header =
     (if py_startswith header ''Cisco IOS Software'' then Cisco
      else if py_startswith header ''Harmonic'' then Harmonic else UnknownVendor)"

definition find_compiled :: "string list \<Rightarrow> string" where
  "find_compiled ls = (case filter (\<lambda>l. py_startswith l ''Compiled'') ls of l # _ \<Rightarrow> l | [] \<Rightarrow> '''')"

definition head_line :: "string list \<Rightarrow> string" where
  "head_line ls = (case ls of l # _ \<Rightarrow> l | [] \<Rightarrow> '''')"

definition parse_cisco :: "string list \<Rightarrow> string \<Rightarrow> sysdescr" where
  "parse_cisco ls raw =
     (case rx_search cisco_regex (head_line ls) of
        None \<Rightarrow> (raw_sysdescr raw)\<lparr>sd_compiled := find_compiled ls\<rparr>
      | Some m \<Rightarrow>
          \<lparr>sd_vendor = ''Cisco'', sd_platform = group_text ''platform'' m, sd_software = group_text ''train'' m,
           sd_version = group_text ''version'' m, sd_release = group_text ''release'' m,
           sd_compiled = find_compiled ls, sd_raw = raw, sd_empty = False\<rparr>)"

definition parse_harmonic :: "string list \<Rightarrow> string \<Rightarrow> sysdescr" where
  "parse_harmonic ls raw =
     (let header = rx_match harmonic_regex (head_line ls);
          version = rx_match harmonic_version_regex (head_line (tl ls))
      in \<lparr>sd_vendor = ''Harmonic'',
          sd_platform = (case header of Some m \<Rightarrow> group_text ''platform'' m | None \<Rightarrow> ''''),
          sd_software = (case version of Some m \<Rightarrow> group_text ''software'' m | None \<Rightarrow> ''''),
          sd_version = (case version of Some m \<Rightarrow> group_text ''version'' m | None \<Rightarrow> ''''),
          sd_release = '''', sd_compiled = find_compiled ls, sd_raw = raw, sd_empty = False\<rparr>)"

definition parse_sysdescr :: "(nat list \<Rightarrow> string) \<Rightarrow> string \<Rightarrow> sysdescr" where
  "parse_sysdescr decode s =
     (let raw = normalize_raw decode s; ls = text_lines raw
      in if raw = '''' then empty_sysdescr
         else (case detect_vendor (head_line ls) of
                 Cisco \<Rightarrow> parse_cisco ls raw
               | Harmonic \<Rightarrow> parse_harmonic ls raw
               | UnknownVendor \<Rightarrow> raw_sysdescr raw))"

text \<open>\<open>__str__\<close>.\<close>

definition sysdescr_text :: "sysdescr \<Rightarrow> string" where
  "sysdescr_text d =
     (if sd_empty d then ''''
      else if sd_vendor d = '''' \<and> sd_raw d \<noteq> '''' then sd_raw d
      else py_strip (sd_vendor d @ '' '' @ sd_platform d @ '' '' @ sd_software d @ '' Version '' @ sd_version d
             @ '' ('' @ sd_release d @ '') '' @ sd_compiled d))"

section \<open>The device\<close>

record cmts_identity =
  id_hostname :: string
  id_inet :: string
  id_descr :: sysdescr
  id_name :: string
  id_object :: string
  id_uptime :: int
  id_empty :: bool

definition get_sysdescr :: "(nat list \<Rightarrow> string) \<Rightarrow> snmp \<Rightarrow> sysdescr" where
  "get_sysdescr decode sn =
     (let raw = snmp_get_str sn ''sysDescr'' in if raw = '''' then empty_sysdescr else parse_sysdescr decode raw)"

definition get_identity :: "(nat list \<Rightarrow> string) \<Rightarrow> snmp \<Rightarrow> string \<Rightarrow> string \<Rightarrow> cmts_identity" where
  "get_identity decode sn hostname inet =
     (let d = get_sysdescr decode sn; n = snmp_get_str sn ''sysName''; ob = snmp_get_str sn ''sysObjectID'';
          up = snmp_get_int sn ''sysUpTime''
      in \<lparr>id_hostname = hostname, id_inet = inet, id_descr = d, id_name = n, id_object = ob, id_uptime = up,
          id_empty = (sd_empty d \<and> n = '''' \<and> ob = '''' \<and> up = 0)\<rparr>)"

text \<open>\<open>Cmts.__init__\<close>: the address that is used, the resolved one before the given one.\<close>

definition cmts_address :: "cmts_env \<Rightarrow> string \<Rightarrow> string option \<Rightarrow> string result" where
  "cmts_address ev hostname inet =
     (let h = py_strip hostname
      in if h \<noteq> '''' then
           (case resolve_cmts_inet ev h of
              Inl _ \<Rightarrow> Inl (ValueError (''Hostname resolution failed for '' @ [CHR 0x27] @ h @ [CHR 0x27]))
            | Inr a \<Rightarrow> Inr a)
         else (case inet of
                 Some a \<Rightarrow> Inr a
               | None \<Rightarrow> Inl (ValueError (''Failed to resolve hostname or inet for '' @ [CHR 0x27] @ h @ [CHR 0x27]))))"

definition is_snmp_reachable :: "(nat list \<Rightarrow> string) \<Rightarrow> snmp \<Rightarrow> bool" where
  "is_snmp_reachable decode sn = (\<not> sd_empty (get_sysdescr decode sn))"

text \<open>The endpoint.\<close>

datatype sysdescr_status = SysDescrSuccess | SysDescrFailure | SysDescrUnreachable

record system_response =
  sx_hostname :: string
  sx_ip :: string
  sx_status :: sysdescr_status
  sx_message :: string
  sx_results :: sysdescr

definition sysdescr_endpoint :: "(nat list \<Rightarrow> string) \<Rightarrow> cmts_env \<Rightarrow> string \<Rightarrow> string \<Rightarrow> system_response" where
  "sysdescr_endpoint decode ev hostname community =
     (let answer = (\<lambda>ip status msg d. \<lparr>sx_hostname = hostname, sx_ip = ip, sx_status = status, sx_message = msg, sx_results = d\<rparr>)
      in if hostname = '''' then answer '''' SysDescrFailure ''CMTS hostname is required.'' empty_sysdescr
         else (case resolve_cmts_inet ev hostname of
                 Inl e \<Rightarrow> answer '''' SysDescrFailure (exn_text e) empty_sysdescr
               | Inr ip \<Rightarrow>
                   (let d = get_sysdescr decode (ct_client ev ip community)
                    in if sd_empty d then answer ip SysDescrUnreachable ''SNMP sysDescr returned empty.'' d
                       else answer ip SysDescrSuccess '''' d)))"

section \<open>Lemmas\<close>

lemma run_lengths_hd: "takeWhile p s = xs \<Longrightarrow> xs \<noteq> [] \<Longrightarrow> \<exists>ns. run_lengths p s = length xs # ns"
  by (cases "length xs") (auto simp: run_lengths_def)

text \<open>A run that ends where the rest of the expression matches is taken whole.\<close>

lemma takeWhile_run:
  "\<forall>c \<in> set xs. p c \<Longrightarrow> t = [] \<or> \<not> p (hd t) \<Longrightarrow> takeWhile p (xs @ t) = xs"
  by (induction xs) (auto simp: takeWhile_eq_Nil_iff)

lemma rx_Run:
  assumes "\<forall>c \<in> set xs. p c" and "xs \<noteq> []" and "t = [] \<or> \<not> p (hd t)" and "rx_match r t = Some m"
  shows "rx_match (Run p # r) (xs @ t) = Some m"
  using run_lengths_hd [OF takeWhile_run [OF assms(1,3)] assms(2)] assms(4) by auto

lemma rx_Group:
  assumes "\<forall>c \<in> set xs. p c" and "xs \<noteq> []" and "t = [] \<or> \<not> p (hd t)" and "rx_match r t = Some m"
  shows "rx_match (Group g p # r) (xs @ t) = Some ((g, xs) # m)"
  using run_lengths_hd [OF takeWhile_run [OF assms(1,3)] assms(2)] assms(4) by auto

lemma rx_Lit: "rx_match r t = Some m \<Longrightarrow> rx_match (Lit p # r) (p @ t) = Some m"
  by simp

lemma py_space_blank [simp]: "py_space CHR '' ''"
  by (simp add: py_space_def)

lemmas rx_steps = rx_Lit rx_Run rx_Group

lemma blank_run: "rx_match r t = Some m \<Longrightarrow> t = [] \<or> \<not> py_space (hd t) \<Longrightarrow> rx_match (Run py_space # r) ('' '' @ t) = Some m"
  by (rule rx_Run) simp_all

definition cisco_banner :: "string \<Rightarrow> string \<Rightarrow> string \<Rightarrow> string \<Rightarrow> string \<Rightarrow> string" where
  "cisco_banner train platform version release rest =
     ''Cisco IOS Software'' @ '' '' @ ''['' @ train @ ''],'' @ '' '' @ platform @ '','' @ '' '' @ ''Version'' @ '' '' @ version
     @ '','' @ '' '' @ ''RELEASE SOFTWARE'' @ '' '' @ ''('' @ release @ '')'' @ rest"

definition plain_field :: "string \<Rightarrow> string \<Rightarrow> bool" where
  "plain_field stop s = (s \<noteq> '''' \<and> \<not> py_space (hd s) \<and> (\<forall>c \<in> set s. not_in stop c))"

lemma cisco_banner_match:
  assumes "plain_field '']'' train" and "plain_field '','' platform" and "plain_field '','' version"
    and "plain_field '')'' release"
  shows "rx_match cisco_regex (cisco_banner train platform version release rest)
     = Some [(''train'', train), (''platform'', platform), (''version'', version), (''release'', release)]"
  unfolding cisco_regex_def cisco_banner_def
  by (intro rx_Lit blank_run rx_Group)
    (use assms in \<open>auto simp: plain_field_def not_in_def py_space_def hd_append\<close>)

lemma rx_search_first: "rx_match r s = Some m \<Longrightarrow> rx_search r s = Some m"
  by (cases s) simp_all

lemma text_lines_Nil [simp]: "text_lines '''' = []"
  by (simp add: text_lines_def py_splitlines_def)

lemma normalize_raw_stripped: "py_strip (normalize_raw decode s) = normalize_raw decode s"
  by (simp add: normalize_raw_def Let_def split: option.splits)

lemma cisco_banner_vendor: "detect_vendor (cisco_banner train platform version release rest) = Cisco"
  by (simp add: detect_vendor_def cisco_banner_def py_startswith_def)

section \<open>Properties\<close>

text \<open>C32: A description whose first line is the Cisco banner of a train, platform, version and release gives
  exactly these fields, and its text prints them.\<close>

theorem cisco_description_parsed:
  assumes "text_lines (normalize_raw decode s) = cisco_banner train platform version release rest # ls"
    and "plain_field '']'' train" and "plain_field '','' platform" and "plain_field '','' version"
    and "plain_field '')'' release"
  shows "parse_sysdescr decode s =
    \<lparr>sd_vendor = ''Cisco'', sd_platform = platform, sd_software = train, sd_version = version, sd_release = release,
     sd_compiled = find_compiled (cisco_banner train platform version release rest # ls),
     sd_raw = normalize_raw decode s, sd_empty = False\<rparr>"
proof -
  have "normalize_raw decode s \<noteq> ''''" using assms(1) by auto
  moreover have "rx_search cisco_regex (cisco_banner train platform version release rest)
      = Some [(''train'', train), (''platform'', platform), (''version'', version), (''release'', release)]"
    by (rule rx_search_first [OF cisco_banner_match [OF assms(2-5)]])
  ultimately show ?thesis
    unfolding parse_sysdescr_def Let_def assms(1) head_line_def list.case cisco_banner_vendor
    by (simp add: parse_cisco_def head_line_def group_text_def)
qed

definition cbr_banner :: string where
  "cbr_banner = cisco_banner ''Amsterdam'' ''cBR Software'' ''17.3.3'' ''fc7'' ''''"

lemma cbr_lines: "text_lines (normalize_raw (\<lambda>bs. '''') cbr_banner) = [cbr_banner]"
  by code_simp

lemma cisco_description_parsed_witness:
  "sd_version (parse_sysdescr (\<lambda>bs. '''') cbr_banner) = ''17.3.3''"
proof -
  have "text_lines (normalize_raw (\<lambda>bs. '''') cbr_banner) = [cisco_banner ''Amsterdam'' ''cBR Software'' ''17.3.3'' ''fc7'' '''']"
    by (simp only: cbr_lines) (simp add: cbr_banner_def)
  from cisco_description_parsed [OF this] show ?thesis
    by (simp add: plain_field_def not_in_def py_space_def)
qed

lemma normalize_hex:
  assumes "\<forall>b \<in> set bs. b < 256"
  shows "normalize_raw decode (''0x'' @ concat (map hex_digits bs)) = py_strip (decode bs)"
proof -
  let ?h = "concat (map hex_digits bs)"
  have digit: "\<not> py_space (hex_digit n)" if "n < 16" for n
    using that by (auto simp: hex_digit_def py_space_def Let_def)
  have blank: "\<not> py_space c" if "c \<in> set ?h" for c
    using that assms
  proof (induction bs)
    case (Cons b bs)
    have "b div 16 < 16" using Cons.prems by (simp add: less_mult_imp_div_less)
    with Cons digit show ?case by (auto simp: hex_digits_def)
  qed simp
  have "\<not> py_space (last (''0x'' @ ?h))"
  proof (cases "?h = []")
    case True
    then show ?thesis by (simp add: py_space_def)
  next
    case False
    then show ?thesis using blank [OF last_in_set] by (metis last_appendR)
  qed
  then have "py_strip (''0x'' @ ?h) = ''0x'' @ ?h"
    by (intro py_strip_hd_last) (simp_all add: py_space_def)
  then show ?thesis
    using from_hex_digits [OF assms] even_hex_digits [of bs] by (simp add: normalize_raw_def Let_def py_startswith_def)
qed

text \<open>A description printed in hexadecimal is parsed as the text it encodes.\<close>

theorem hex_description_parsed:
  assumes "\<forall>b \<in> set bs. b < 256" and "decode bs = s" and "\<not> py_startswith (py_strip s) ''0x''"
  shows "parse_sysdescr decode (''0x'' @ concat (map hex_digits bs)) = parse_sysdescr decode s"
proof -
  have "normalize_raw decode (''0x'' @ concat (map hex_digits bs)) = normalize_raw decode s"
    using normalize_hex [OF assms(1), of decode] assms(2,3) by (simp add: normalize_raw_def Let_def)
  then show ?thesis by (simp add: parse_sysdescr_def)
qed

lemma hex_description_parsed_witness:
  "parse_sysdescr (map char_of) (''0x'' @ concat (map hex_digits [72, 105])) = parse_sysdescr (map char_of) ''Hi''"
  by (rule hex_description_parsed)
    (simp_all add: char_of_def bit_Suc_0_iff py_strip_def py_lstrip_def py_space_def py_startswith_def)

text \<open>Whatever the vendor, the normalised text is kept, the description is empty exactly if that text is, and
  a description of an unknown vendor prints as it came.\<close>

theorem description_text_kept:
  "sd_raw (parse_sysdescr decode s) = normalize_raw decode s
   \<and> (sd_empty (parse_sysdescr decode s) \<longleftrightarrow> normalize_raw decode s = '''')
   \<and> (sd_vendor (parse_sysdescr decode s) = '''' \<longrightarrow> sysdescr_text (parse_sysdescr decode s) = normalize_raw decode s)"
  by (auto simp: parse_sysdescr_def parse_cisco_def parse_harmonic_def raw_sysdescr_def empty_sysdescr_def
      sysdescr_text_def Let_def split: cmts_vendor.splits option.splits)

end
