(* ===== verification/Release.thy ===== *)
theory Release
  imports SysDescr
begin

text \<open>
  The release tool \<open>tools/release_tool.py\<close> and the publish tool \<open>tools/publish_tool.py\<close>: version
  arithmetic, the versions read from the project files, and the release as the sequence of steps that
  \<open>main\<close> performs until one fails.  The outcome of a command, what the user types and the texts of the files
  are inputs; the commit reports and the printing are left out.
\<close>

section \<open>Versions\<close>

text \<open>How a run ends early: \<open>sys.exit\<close> with a code, or an exception nobody catches.\<close>

datatype release_exit = SysExit int | Uncaught

datatype bump_mode = BumpMajor | BumpMinor | BumpMaintenance | BumpBuild

text \<open>\<open>str.isdigit\<close> on the code points below 256, which counts the superscripts.\<close>

definition digit_like :: "char \<Rightarrow> bool" where
  "digit_like c = (let n = (of_char c :: nat) in (48 \<le> n \<and> n \<le> 57) \<or> n = 178 \<or> n = 179 \<or> n = 185)"

definition py_isdigit :: "string \<Rightarrow> bool" where
  "py_isdigit s = (s \<noteq> '''' \<and> (\<forall>c \<in> set s. digit_like c))"

definition version_parts :: "string \<Rightarrow> string list" where
  "version_parts v = split_on (CHR ''.'') v"

definition version_valid :: "string \<Rightarrow> bool" where
  "version_valid v = (length (version_parts v) = 4 \<and> list_all py_isdigit (version_parts v))"

definition parse_version :: "string \<Rightarrow> release_exit + int list" where
  "parse_version v =
     (if \<not> version_valid v then Inl (SysExit 1)
      else (case those (map py_int (version_parts v)) of None \<Rightarrow> Inl Uncaught | Some ns \<Rightarrow> Inr ns))"

definition print_version :: "int list \<Rightarrow> string" where
  "print_version ns = py_join ''.'' (map int_str ns)"

definition bump :: "bump_mode \<Rightarrow> int list \<Rightarrow> int list" where
  "bump m ns =
     (case m of
        BumpMajor \<Rightarrow> [ns ! 0 + 1, 0, 0, 0]
      | BumpMinor \<Rightarrow> [ns ! 0, ns ! 1 + 1, 0, 0]
      | BumpMaintenance \<Rightarrow> [ns ! 0, ns ! 1, ns ! 2 + 1, 0]
      | BumpBuild \<Rightarrow> [ns ! 0, ns ! 1, ns ! 2, ns ! 3 + 1])"

definition compute_next_version :: "string \<Rightarrow> bump_mode \<Rightarrow> release_exit + string" where
  "compute_next_version current m =
     (case parse_version current of Inl e \<Rightarrow> Inl e | Inr ns \<Rightarrow> Inr (print_version (bump m ns)))"

definition determine_bump_kind :: "string \<Rightarrow> string \<Rightarrow> release_exit + bump_mode option" where
  "determine_bump_kind current new =
     (case parse_version current of Inl e \<Rightarrow> Inl e | Inr cs \<Rightarrow>
     (case parse_version new of Inl e \<Rightarrow> Inl e | Inr ns \<Rightarrow>
        Inr (if ns ! 0 \<noteq> cs ! 0 then Some BumpMajor
             else if ns ! 1 \<noteq> cs ! 1 then Some BumpMinor
             else if ns ! 2 \<noteq> cs ! 2 then Some BumpMaintenance
             else if ns ! 3 \<noteq> cs ! 3 then Some BumpBuild
             else None)))"

section \<open>The project files\<close>

text \<open>\<open>str.find\<close>: the text after the first occurrence of a pattern, and the text before it.\<close>

fun after_first :: "string \<Rightarrow> string \<Rightarrow> string option" where
  "after_first p [] = (if p = [] then Some [] else None)"
| "after_first p (c # s) = (if py_startswith (c # s) p then Some (drop (length p) (c # s)) else after_first p s)"

definition before_quote :: "string \<Rightarrow> string option" where
  "before_quote s = (if CHR 0x22 \<in> set s then Some (takeWhile (\<lambda>c. c \<noteq> CHR 0x22) s) else None)"

text \<open>The text between the first two quotes of a line.\<close>

definition quoted :: "string \<Rightarrow> string option" where
  "quoted line = (case after_first [CHR 0x22] line of None \<Rightarrow> None | Some rest \<Rightarrow> before_quote rest)"

definition read_current_version :: "string option \<Rightarrow> release_exit + string" where
  "read_current_version file =
     (case file of
        None \<Rightarrow> Inl (SysExit 1)
      | Some text \<Rightarrow>
          (case after_first (''__version__: str = '' @ [CHR 0x22]) text of
             None \<Rightarrow> Inl (SysExit 1)
           | Some rest \<Rightarrow> (case before_quote rest of None \<Rightarrow> Inl (SysExit 1) | Some v \<Rightarrow> Inr v)))"

text \<open>The loop over the lines of \<open>pyproject.toml\<close>; the flag says that \<open>[project]\<close> was seen.\<close>

definition section_line :: "string \<Rightarrow> bool" where
  "section_line s = (py_startswith s ''['' \<and> s \<noteq> '''' \<and> last s = CHR '']'')"

fun project_version :: "bool \<Rightarrow> string list \<Rightarrow> string option" where
  "project_version seen [] = None"
| "project_version seen (line # ls) =
     (let s = py_strip line
      in if s = ''[project]'' then project_version True ls
         else if seen \<and> section_line s then None
         else if seen \<and> py_startswith s ''version'' \<and> CHR ''='' \<in> set s \<and> CHR 0x22 \<in> set s then quoted line
         else project_version seen ls)"

definition read_pyproject_version :: "string option \<Rightarrow> release_exit + string" where
  "read_pyproject_version file =
     (case file of
        None \<Rightarrow> Inl (SysExit 1)
      | Some text \<Rightarrow>
          (case project_version False (py_splitlines text) of None \<Rightarrow> Inl (SysExit 1) | Some v \<Rightarrow> Inr v))"

definition pin_regex :: "rx_item list" where
  "pin_regex = [Lit ([CHR 0x22] @ ''pypnm-docsis''), Star py_space, Lit ''=='', Star py_space,
     Group ''version'' (not_in [CHR 0x22]), Lit [CHR 0x22]]"

text \<open>\<open>in\<close> on texts.\<close>

definition contains :: "string \<Rightarrow> string \<Rightarrow> bool" where
  "contains p s = (after_first p s \<noteq> None)"

fun pinned_version :: "bool \<Rightarrow> bool \<Rightarrow> string list \<Rightarrow> string option" where
  "pinned_version seen deps [] = None"
| "pinned_version seen deps (line # ls) =
     (let s = py_strip line
      in if s = ''[project]'' then pinned_version True deps ls
         else if seen \<and> section_line s then None
         else if \<not> seen then pinned_version seen deps ls
         else if py_startswith s ''dependencies'' \<and> CHR ''['' \<in> set s then pinned_version seen True ls
         else if deps then
           (if py_startswith s '']'' then None
            else if \<not> contains ''pypnm-docsis'' s then pinned_version seen deps ls
            else (case rx_search pin_regex s of
                    None \<Rightarrow> None | Some m \<Rightarrow> Some (py_strip (group_text ''version'' m))))
         else pinned_version seen deps ls)"

definition read_pinned_version :: "string option \<Rightarrow> release_exit + string" where
  "read_pinned_version file =
     (case file of
        None \<Rightarrow> Inl (SysExit 1)
      | Some text \<Rightarrow>
          (case pinned_version False False (py_splitlines text) of None \<Rightarrow> Inl (SysExit 1) | Some v \<Rightarrow> Inr v))"

text \<open>The version of the installed package, \<open>None\<close> when it is missing or blank.\<close>

definition read_installed_version :: "string option \<Rightarrow> release_exit + string" where
  "read_installed_version installed =
     (case installed of
        None \<Rightarrow> Inl (SysExit 1)
      | Some v \<Rightarrow> if py_strip v = '''' then Inl (SysExit 1) else Inr (py_strip v))"

section \<open>The release\<close>

record release_options =
  ro_version :: "string option"
  ro_next :: "bump_mode option"
  ro_branch :: string
  ro_prefix :: string
  ro_skip_tests :: bool
  ro_skip_pretest :: bool
  ro_skip_docker :: bool
  ro_skip_k8s :: bool
  ro_test :: bool
  ro_dry_run :: bool

record release_input =
  ri_version_file :: "string option"
  ri_pyproject :: "string option"
  ri_installed :: "string option"
  ri_virtualenv :: bool
  ri_confirm :: string
  ri_ga :: string
  ri_rc :: string
  ri_pretest :: string

datatype release_step =
    PrimeSudo | CleanTree | CheckoutPull string | HeadCommit
  | BumpTo string | TagDocs string | HygieneCheck nat | Pretest | RunTests | DockerSmoke | K8sSmoke | MkDocs
  | GitAdd | GitCommit string | TagRelease string | PushBranch string | PushTag string

text \<open>What the commands answer: whether a step succeeds, whether a smoke test fails for want of permission and
  passes with \<open>sudo\<close>, and which scripts are there.\<close>

record release_env =
  re_ok :: "release_step \<Rightarrow> bool"
  re_denied :: "release_step \<Rightarrow> bool"
  re_sudo_ok :: "release_step \<Rightarrow> bool"
  re_sudo :: bool
  re_script :: "nat \<Rightarrow> bool"
  re_pretest_script :: bool
  re_mkdocs :: bool

definition said_yes :: "string \<Rightarrow> bool" where
  "said_yes s = (py_lower (py_strip s) = ''y'' \<or> py_lower (py_strip s) = ''yes'')"

definition release_candidate :: "release_input \<Rightarrow> release_exit + string" where
  "release_candidate i =
     (if said_yes (ri_ga i) then Inr ''''
      else
        (let rc = py_strip (ri_rc i);
             n = (if rc = '''' then Inr 1
                  else if py_isdigit rc then (case py_int rc of None \<Rightarrow> Inl Uncaught | Some k \<Rightarrow> Inr k)
                  else Inl (SysExit 1))
         in case n of
              Inl e \<Rightarrow> Inl e
            | Inr k \<Rightarrow> if k < 1 then Inl (SysExit 1) else Inr (''-rc'' @ int_str k)))"

text \<open>The versions, up to the point where the release is known: the current one, the new one and the kind.\<close>

definition prepare_release ::
  "release_options \<Rightarrow> release_input \<Rightarrow> release_exit + (string \<times> string \<times> bump_mode option)" where
  "prepare_release ro ri =
     (case read_current_version (ri_version_file ri) of Inl e \<Rightarrow> Inl e | Inr current \<Rightarrow>
     (case read_pyproject_version (ri_pyproject ri) of Inl e \<Rightarrow> Inl e | Inr project \<Rightarrow>
     (if current \<noteq> project then Inl (SysExit 1) else
     (case read_pinned_version (ri_pyproject ri) of Inl e \<Rightarrow> Inl e | Inr pinned \<Rightarrow>
     (case read_installed_version (ri_installed ri) of Inl e \<Rightarrow> Inl e | Inr installed \<Rightarrow>
     (if installed \<noteq> pinned then Inl (SysExit 1)
      else if ro_version ro \<noteq> None \<and> ro_next ro \<noteq> None then Inl (SysExit 1) else
     (case (case ro_version ro of
              Some v \<Rightarrow> if version_valid v then Inr v else Inl (SysExit 1)
            | None \<Rightarrow> compute_next_version current (case ro_next ro of None \<Rightarrow> BumpMaintenance | Some m \<Rightarrow> m))
      of Inl e \<Rightarrow> Inl e
       | Inr new \<Rightarrow>
           (if new = current then Inl (SysExit 0)
            else (case determine_bump_kind current new of Inl e \<Rightarrow> Inl e | Inr k \<Rightarrow> Inr (current, new, k))))))))))"

text \<open>The steps of \<open>main\<close> after the questions.\<close>

definition publish_steps :: "release_options \<Rightarrow> string \<Rightarrow> string \<Rightarrow> release_step list" where
  "publish_steps ro new tag = [GitAdd, GitCommit new, TagRelease tag, PushBranch (ro_branch ro), PushTag tag]"

definition check_steps :: "release_options \<Rightarrow> release_input \<Rightarrow> release_env \<Rightarrow> release_step list" where
  "check_steps ro ri ev =
     filter (\<lambda>s. case s of HygieneCheck k \<Rightarrow> k = 1 \<or> re_script ev k | _ \<Rightarrow> True) (map HygieneCheck [0, 1, 2])
     @ (if \<not> ro_skip_pretest ro \<and> said_yes (ri_pretest ri) then [Pretest] else [])
     @ (if ro_skip_tests ro then [] else [RunTests])
     @ (if ro_skip_docker ro then [] else [DockerSmoke])
     @ (if ro_skip_k8s ro then [] else [K8sSmoke])
     @ (if re_mkdocs ev then [MkDocs] else [])"

definition release_steps ::
  "release_options \<Rightarrow> release_input \<Rightarrow> release_env \<Rightarrow> string \<Rightarrow> string \<Rightarrow> string \<Rightarrow> release_step list" where
  "release_steps ro ri ev current new rc =
     (if (\<not> ro_skip_docker ro \<or> \<not> ro_skip_k8s ro) \<and> re_sudo ev then [PrimeSudo] else [])
     @ [CleanTree] @ (if ro_test ro then [] else [CheckoutPull (ro_branch ro)])
     @ [HeadCommit, BumpTo new, TagDocs (ro_prefix ro @ new @ rc)]
     @ check_steps ro ri ev
     @ (if ro_test ro then [BumpTo current, TagDocs (ro_prefix ro @ current)]
        else publish_steps ro new (ro_prefix ro @ new @ rc))"

definition step_ok :: "release_env \<Rightarrow> release_step \<Rightarrow> bool" where
  "step_ok ev s =
     (case s of
        DockerSmoke \<Rightarrow> re_ok ev s \<or> re_denied ev s \<and> re_sudo_ok ev s
      | K8sSmoke \<Rightarrow> re_ok ev s \<or> re_denied ev s \<and> re_sudo_ok ev s
      | Pretest \<Rightarrow> re_pretest_script ev \<and> re_ok ev s
      | _ \<Rightarrow> re_ok ev s)"

text \<open>The steps that succeeded, and whether all did; a step that fails ends the run.\<close>

fun run_steps :: "release_env \<Rightarrow> release_step list \<Rightarrow> release_step list \<times> bool" where
  "run_steps ev [] = ([], True)"
| "run_steps ev (s # ss) =
     (if step_ok ev s then (let (d, ok) = run_steps ev ss in (s # d, ok)) else ([], False))"

definition release_main ::
  "release_options \<Rightarrow> release_input \<Rightarrow> release_env \<Rightarrow> release_exit + (release_step list \<times> bool)" where
  "release_main ro ri ev =
     (case prepare_release ro ri of
        Inl e \<Rightarrow> Inl e
      | Inr (current, new, kind) \<Rightarrow>
          if ro_dry_run ro then Inl (SysExit 0)
          else if \<not> ri_virtualenv ri then Inl (SysExit 1)
          else if ro_version ro = None \<and> \<not> said_yes (ri_confirm ri) then Inl (SysExit 1)
          else (case (if kind \<in> {Some BumpMajor, Some BumpMinor, Some BumpMaintenance} then release_candidate ri else Inr '''') of
                  Inl e \<Rightarrow> Inl e
                | Inr rc \<Rightarrow> Inr (run_steps ev (release_steps ro ri ev current new rc))))"

text \<open>The version in the project files after steps that succeeded.\<close>

fun version_after :: "string \<Rightarrow> release_step list \<Rightarrow> string" where
  "version_after v [] = v"
| "version_after v (BumpTo w # ss) = version_after w ss"
| "version_after v (s # ss) = version_after v ss"

section \<open>The change report\<close>

definition report_sections :: "string list" where
  "report_sections = [''Docs'', ''Docker'', ''K8s'', ''FastAPI'', ''REST'', ''DOCSIS'', ''PNM'', ''PNM-Python'', ''Tools'', ''Install'']"

definition classify_path :: "string \<Rightarrow> string" where
  "classify_path path =
     (let n = py_lower (map (\<lambda>c. if c = CHR 0x5C then CHR ''/'' else c) path);
          starts = py_startswith n
      in if starts ''docs/kubernetes/'' then ''K8s''
         else if list_ex starts [''docker/'', ''docker-compose'', ''docs/docker/''] then ''Docker''
         else if starts ''docs/'' \<or> n = ''readme.md'' then ''Docs''
         else if contains ''fastapi'' n then ''FastAPI''
         else if starts ''src/pypnm_cmts/api/routes/'' then ''REST''
         else if contains ''/rest'' n \<or> contains ''rest_'' n \<or> contains ''rest-'' n then ''REST''
         else if starts ''src/pypnm_cmts/'' \<or> n = ''pyproject.toml'' then
           (if starts ''src/pypnm_cmts/docsis/'' then ''DOCSIS''
            else if starts ''src/pypnm_cmts/pnm/'' then ''PNM'' else ''PNM-Python'')
         else if starts ''tools/'' then ''Tools''
         else if list_ex starts [''install.sh'', ''scripts/install'', ''deploy/''] then ''Install''
         else ''Other'')"

definition count_path :: "string \<Rightarrow> (string \<rightharpoonup> nat) \<Rightarrow> (string \<rightharpoonup> nat)" where
  "count_path path counts =
     (let s = classify_path path
      in case counts s of
           Some n \<Rightarrow> counts(s \<mapsto> n + 1)
         | None \<Rightarrow> counts(''Other'' \<mapsto> (case counts ''Other'' of Some n \<Rightarrow> n + 1 | None \<Rightarrow> 1)))"

definition summarize_sections :: "string list \<Rightarrow> (string \<rightharpoonup> nat)" where
  "summarize_sections paths = fold count_path paths (\<lambda>s. if s \<in> set (report_sections @ [''Other'']) then Some 0 else None)"

text \<open>\<open>_collect_range_files\<close> on the output of \<open>git log\<close>: each path once, in order.\<close>

definition collect_range_files :: "string \<Rightarrow> string list" where
  "collect_range_files out = dedupe_by id [] (filter (\<lambda>p. p \<noteq> '''') (map py_strip (py_splitlines out)))"

section \<open>Publishing\<close>

record publish_options =
  po_skip_build :: bool
  po_skip_check :: bool
  po_dry_run :: bool
  po_yes :: bool
  po_force :: bool
  po_skip_existing :: bool

record publish_env =
  pe_build_ok :: bool
  pe_artifacts :: nat
  pe_check_ok :: bool
  pe_pyproject :: "string option"
  pe_exists :: "string \<Rightarrow> bool"
  pe_confirm :: string
  pe_token_env :: string
  pe_token_typed :: "string option"
  pe_upload_ok :: bool

text \<open>\<open>_read_version\<close>: the first line that starts with \<open>version\<close> and has an equals sign.\<close>

fun publish_version :: "string list \<Rightarrow> string option" where
  "publish_version [] = None"
| "publish_version (line # ls) =
     (if py_startswith (py_strip line) ''version'' \<and> CHR ''='' \<in> set line
      then Some (strip_char (CHR 0x22) (py_strip (tl (dropWhile (\<lambda>c. c \<noteq> CHR ''='') line))))
      else publish_version ls)"

text \<open>The exit code of \<open>main\<close> and whether the upload was tried.\<close>

definition publish :: "publish_options \<Rightarrow> publish_env \<Rightarrow> int \<times> bool" where
  "publish po ev =
     (if \<not> po_skip_build po \<and> \<not> pe_build_ok ev then (1, False)
      else if pe_artifacts ev = 0 then (1, False)
      else if \<not> po_skip_check po \<and> \<not> pe_check_ok ev then (1, False)
      else if po_dry_run po then (0, False)
      else (case Option.bind (pe_pyproject ev) (\<lambda>text. publish_version (py_splitlines text)) of
              None \<Rightarrow> (1, False)
            | Some v \<Rightarrow>
                if pe_exists ev v \<and> po_skip_existing po \<and> \<not> po_force po then (0, False)
                else if \<not> po_yes po \<and> \<not> said_yes (pe_confirm ev) then (0, False)
                else (let token = (if py_strip (pe_token_env ev) \<noteq> '''' then Some (py_strip (pe_token_env ev)) else pe_token_typed ev)
                      in case token of
                           None \<Rightarrow> (1, False)
                         | Some t \<Rightarrow> if py_strip t = '''' then (1, False) else (if pe_upload_ok ev then 0 else 1, True))))"

section \<open>Lemmas\<close>

lemma split_on_single: "c \<notin> set s \<Longrightarrow> split_on c s = [s]"
  by (induction s) auto

lemma split_on_append: "c \<notin> set s \<Longrightarrow> split_on c (s @ c # t) = s # split_on c t"
  by (induction s) auto

lemma split_join:
  "ss \<noteq> [] \<Longrightarrow> list_all (\<lambda>s. c \<notin> set s) ss \<Longrightarrow> split_on c (py_join [c] ss) = ss"
  by (induction "[c]" ss rule: py_join.induct) (simp_all add: split_on_single split_on_append)

lemma int_str_digits: "0 \<le> n \<Longrightarrow> c \<in> set (int_str n) \<Longrightarrow> digit_like c"
  using nat_str_digits [of c "nat n"] by (simp add: int_str_def digit_like_def Let_def)

lemma parse_print_version:
  assumes "length ns = 4" and "list_all (\<lambda>n. 0 \<le> n) ns"
  shows "parse_version (print_version ns) = Inr ns"
proof -
  have "\<not> digit_like CHR ''.''" by (simp add: digit_like_def)
  then have parts: "version_parts (print_version ns) = map int_str ns"
    unfolding version_parts_def print_version_def using assms int_str_digits
    by (intro split_join) (auto simp: list_all_iff)
  have "those (map py_int (map int_str ns)) = Some ns" by (simp add: those_map_Some py_int_int_str)
  moreover have "py_isdigit (int_str n)" if "0 \<le> n" for n using int_str_digits [OF that] by (simp add: py_isdigit_def)
  ultimately show ?thesis
    using assms by (simp add: parse_version_def version_valid_def parts list_all_iff)
qed

lemma py_digits_nonneg: "py_digits acc seen s = Some n \<Longrightarrow> 0 \<le> acc \<Longrightarrow> 0 \<le> n"
proof (induction acc seen s rule: py_digits.induct)
  case (2 acc seen c cs)
  have "0 \<le> d" if "digit_value c = Some d" for d
    using that by (auto simp: digit_value_def Let_def split: if_splits)
  with 2 show ?case by (auto split: option.splits if_splits)
qed (auto split: if_splits)

lemma py_int_nonneg:
  assumes "py_isdigit s" and "py_int s = Some n"
  shows "0 \<le> n"
proof -
  have "CHR ''-'' \<notin> set s" using assms(1) by (auto simp: py_isdigit_def digit_like_def Let_def)
  moreover have "set (py_strip s) \<subseteq> set s"
    by (auto simp: py_strip_def py_lstrip_def dest!: set_dropWhileD)
  ultimately have "CHR ''-'' \<notin> set (py_strip s)" by blast
  moreover obtain c cs where s: "py_strip s = c # cs" using assms(2) by (cases "py_strip s") (simp_all add: py_int_def)
  ultimately have "py_digits 0 False cs = Some n \<or> py_digits 0 False (c # cs) = Some n"
    using assms(2) by (simp add: py_int_def split: if_splits del: py_digits.simps)
  then show ?thesis using py_digits_nonneg by blast
qed

lemma parse_version_parts:
  assumes "parse_version v = Inr ns"
  shows "\<exists>a b c d. ns = [a, b, c, d] \<and> 0 \<le> a \<and> 0 \<le> b \<and> 0 \<le> c \<and> 0 \<le> d"
proof -
  from assms have valid: "length (version_parts v) = 4" "list_all py_isdigit (version_parts v)"
    and "those (map py_int (version_parts v)) = Some ns"
    by (auto simp: parse_version_def version_valid_def split: if_splits option.splits)
  then have eq: "map py_int (version_parts v) = map Some ns"
    by (simp add: those_map_Some)
  have "\<forall>n \<in> set ns. 0 \<le> n"
  proof
    fix n assume "n \<in> set ns"
    then have "Some n \<in> set (map py_int (version_parts v))" unfolding eq by simp
    then show "0 \<le> n" using valid(2) by (auto simp: list_all_iff dest: py_int_nonneg [OF _ sym])
  qed
  moreover have "length ns = 4" using valid(1) eq by (metis length_map)
  ultimately show ?thesis by (auto simp: length_Suc_conv numeral_eq_Suc)
qed

text \<open>Steps that were performed are a beginning of the planned ones, and all of them succeeded.\<close>

lemma run_steps_prefix: "run_steps ev ss = (d, ok) \<Longrightarrow> \<exists>rest. ss = d @ rest \<and> (ok \<longleftrightarrow> rest = [])"
  by (induction ss arbitrary: d) (auto split: if_splits prod.splits)

lemma run_steps_ok: "run_steps ev ss = (d, ok) \<Longrightarrow> s \<in> set d \<Longrightarrow> step_ok ev s"
  by (induction ss arbitrary: d) (auto split: if_splits prod.splits)

lemma prefix_through:
  assumes "a @ b = d @ rest" and "x \<in> set d" and "x \<notin> set a"
  shows "\<exists>c. d = a @ c"
  using assms by (metis append_eq_append_conv2 in_set_conv_decomp Un_iff set_append)

lemma version_after_append: "version_after v (as @ bs) = version_after (version_after v as) bs"
  by (induction v as rule: version_after.induct) auto

lemma version_after_keep: "(\<forall>w. BumpTo w \<notin> set ss) \<Longrightarrow> version_after v ss = v"
  by (induction v ss rule: version_after.induct) auto

lemma bump_parts:
  assumes "parse_version v = Inr ps"
  shows "length (bump m ps) = 4 \<and> list_all (\<lambda>n. 0 \<le> n) (bump m ps) \<and> ps < bump m ps"
  using parse_version_parts [OF assms] by (cases m) (auto simp: bump_def)

text \<open>The plan of a release: what comes before the checks, the checks, and the end.\<close>

definition opening_steps :: "release_options \<Rightarrow> release_env \<Rightarrow> release_step list" where
  "opening_steps ro ev =
     (if (\<not> ro_skip_docker ro \<or> \<not> ro_skip_k8s ro) \<and> re_sudo ev then [PrimeSudo] else [])
     @ [CleanTree] @ (if ro_test ro then [] else [CheckoutPull (ro_branch ro)]) @ [HeadCommit]"

definition closing_steps :: "release_options \<Rightarrow> string \<Rightarrow> string \<Rightarrow> string \<Rightarrow> release_step list" where
  "closing_steps ro current new tag =
     (if ro_test ro then [BumpTo current, TagDocs (ro_prefix ro @ current)] else publish_steps ro new tag)"

lemma release_steps_parts:
  "release_steps ro ri ev current new rc =
     opening_steps ro ev @ BumpTo new # TagDocs (ro_prefix ro @ new @ rc) # check_steps ro ri ev
     @ closing_steps ro current new (ro_prefix ro @ new @ rc)"
  by (simp add: release_steps_def opening_steps_def closing_steps_def)

lemma check_steps_members: "s \<in> set (check_steps ro ri ev) \<Longrightarrow> (\<forall>w. s \<noteq> BumpTo w) \<and> (\<forall>t. s \<noteq> PushTag t) \<and> (\<forall>t. s \<noteq> TagRelease t)"
  by (auto simp: check_steps_def split: if_splits)

lemma opening_steps_members: "s \<in> set (opening_steps ro ev) \<Longrightarrow> (\<forall>w. s \<noteq> BumpTo w) \<and> (\<forall>t. s \<noteq> PushTag t) \<and> (\<forall>t. s \<noteq> TagRelease t)"
  by (auto simp: opening_steps_def split: if_splits)

lemma release_main_Inr:
  assumes "release_main ro ri ev = Inr (d, ok)"
  shows "\<exists>current new kind rc. prepare_release ro ri = Inr (current, new, kind)
    \<and> run_steps ev (release_steps ro ri ev current new rc) = (d, ok)"
  using assms by (auto simp: release_main_def split: sum.splits prod.splits if_splits)

lemma prepare_release_new: "prepare_release ro ri = Inr (current, new, kind) \<Longrightarrow> new \<noteq> current"
  by (simp add: prepare_release_def split: sum.splits if_splits)

section \<open>Properties\<close>

text \<open>The next version of any mode is well formed, greater than the current one, and differs from it exactly
  in the part of the mode.\<close>

theorem next_version_greater:
  assumes "parse_version current = Inr ps"
  shows "\<exists>new qs. compute_next_version current m = Inr new \<and> parse_version new = Inr qs \<and> ps < qs
    \<and> determine_bump_kind current new = Inr (Some m)"
proof -
  from bump_parts [OF assms, of m] have parsed: "parse_version (print_version (bump m ps)) = Inr (bump m ps)"
    and "ps < bump m ps" by (auto intro: parse_print_version)
  moreover have "compute_next_version current m = Inr (print_version (bump m ps))"
    using assms by (simp add: compute_next_version_def)
  moreover have "determine_bump_kind current (print_version (bump m ps)) = Inr (Some m)"
    using parse_version_parts [OF assms] assms parsed
    by (cases m) (auto simp: determine_bump_kind_def bump_def)
  ultimately show ?thesis by blast
qed

lemma next_version_greater_witness:
  "\<exists>new qs. compute_next_version ''1.2.3.4'' BumpMinor = Inr new \<and> parse_version new = Inr qs \<and> [1, 2, 3, 4] < qs
    \<and> determine_bump_kind ''1.2.3.4'' new = Inr (Some BumpMinor)"
proof -
  have "parse_version ''1.2.3.4'' = Inr [1, 2, 3, 4]" by code_simp
  then show ?thesis by (rule next_version_greater)
qed

text \<open>C34: A tag is pushed only when the release is not a test, every planned step before it, with all the checks
  that were not skipped, succeeded, and then as the last step.\<close>

theorem tag_pushed_only_after_checks:
  assumes "release_main ro ri ev = Inr (d, ok)" and "PushTag t \<in> set d"
  shows "\<not> ro_test ro \<and> ok \<and> set (check_steps ro ri ev) \<subseteq> set d \<and> list_all (step_ok ev) d
    \<and> (ro_skip_tests ro \<or> re_ok ev RunTests) \<and> last d = PushTag t"
proof -
  from release_main_Inr [OF assms(1)] obtain current new kind rc where
    run: "run_steps ev (release_steps ro ri ev current new rc) = (d, ok)" by blast
  let ?tag = "ro_prefix ro @ new @ rc"
  let ?front = "opening_steps ro ev @ BumpTo new # TagDocs ?tag # check_steps ro ri ev"
  from run_steps_prefix [OF run] obtain rest where
    plan: "release_steps ro ri ev current new rc = d @ rest" and ok: "ok \<longleftrightarrow> rest = []" by blast
  have front: "PushTag t \<notin> set ?front" using check_steps_members opening_steps_members by fastforce
  have "PushTag t \<in> set (release_steps ro ri ev current new rc)" using plan assms(2) by simp
  with front have test: "\<not> ro_test ro" and t: "t = ?tag"
    by (auto simp: release_steps_parts closing_steps_def publish_steps_def split: if_splits)
  have eq: "(?front @ [GitAdd, GitCommit new, TagRelease t, PushBranch (ro_branch ro)]) @ [PushTag t] = d @ rest"
    using plan test t by (simp add: release_steps_parts closing_steps_def publish_steps_def)
  from prefix_through [OF eq assms(2)] front obtain c where c: "d = (?front @ [GitAdd, GitCommit new, TagRelease t, PushBranch (ro_branch ro)]) @ c"
    by auto
  with eq have "c @ rest = [PushTag t]" by simp
  moreover have "PushTag t \<in> set c" using assms(2) front c by auto
  ultimately have "rest = []" "c = [PushTag t]" by (cases c; auto)+
  moreover have steps: "list_all (step_ok ev) d" using run_steps_ok [OF run] by (simp add: list_all_iff)
  moreover have "re_ok ev RunTests" if "\<not> ro_skip_tests ro"
  proof -
    have "RunTests \<in> set d" using that c by (simp add: check_steps_def)
    with steps show ?thesis by (auto simp: list_all_iff step_ok_def)
  qed
  ultimately show ?thesis using test ok c by auto
qed

lemma test_release_parts:
  assumes "ro_test ro" and "run_steps ev (release_steps ro ri ev current new rc) = (d, ok)" and "BumpTo new \<in> set d"
  shows "\<exists>c. d = (opening_steps ro ev @ [BumpTo new]) @ c
    \<and> (\<exists>rest. TagDocs (ro_prefix ro @ new @ rc) # check_steps ro ri ev @ [BumpTo current, TagDocs (ro_prefix ro @ current)] = c @ rest)"
proof -
  from run_steps_prefix [OF assms(2)] obtain rest where plan: "release_steps ro ri ev current new rc = d @ rest" by blast
  have eq: "(opening_steps ro ev @ [BumpTo new]) @ TagDocs (ro_prefix ro @ new @ rc) # check_steps ro ri ev
      @ [BumpTo current, TagDocs (ro_prefix ro @ current)] = d @ rest"
    using plan assms(1) by (simp add: release_steps_parts closing_steps_def)
  have "opening_steps ro ev @ BumpTo new # (TagDocs (ro_prefix ro @ new @ rc) # check_steps ro ri ev
      @ [BumpTo current, TagDocs (ro_prefix ro @ current)]) = d @ rest" using eq by simp
  then obtain c where "d = opening_steps ro ev @ c" using prefix_through assms(3) opening_steps_members by metis
  moreover have "BumpTo new \<notin> set (opening_steps ro ev)" using opening_steps_members by blast
  moreover from calculation eq assms(3) obtain c' where "c = BumpTo new # c'"
    by (cases c) auto
  ultimately show ?thesis using eq by auto
qed

definition sample_options :: release_options where
  "sample_options = \<lparr>ro_version = None, ro_next = Some BumpBuild, ro_branch = ''main'', ro_prefix = ''v'',
     ro_skip_tests = False, ro_skip_pretest = True, ro_skip_docker = True, ro_skip_k8s = True, ro_test = False, ro_dry_run = False\<rparr>"

definition sample_input :: release_input where
  "sample_input = \<lparr>ri_version_file = Some (''__version__: str = '' @ [CHR 0x22] @ ''1.0.0.0'' @ [CHR 0x22]),
     ri_pyproject = Some (''[project]'' @ [CHR 0x0A] @ ''version = '' @ [CHR 0x22] @ ''1.0.0.0'' @ [CHR 0x22, CHR 0x0A]
       @ ''dependencies = ['' @ [CHR 0x0A, CHR 0x22] @ ''pypnm-docsis == 1.2'' @ [CHR 0x22] @ '']''),
     ri_installed = Some ''1.2'', ri_virtualenv = True, ri_confirm = ''y'', ri_ga = '''', ri_rc = '''', ri_pretest = ''''\<rparr>"

definition sample_env :: "(release_step \<Rightarrow> bool) \<Rightarrow> release_env" where
  "sample_env ok = \<lparr>re_ok = ok, re_denied = (\<lambda>_. False), re_sudo_ok = (\<lambda>_. False), re_sudo = False,
     re_script = (\<lambda>_. False), re_pretest_script = False, re_mkdocs = False\<rparr>"

lemma sample_prepared: "prepare_release sample_options sample_input = Inr (''1.0.0.0'', ''1.0.0.1'', Some BumpBuild)"
  by code_simp

lemma prepare_test: "prepare_release (ro\<lparr>ro_test := b\<rparr>) ri = prepare_release ro ri"
proof -
  have fields: "ro_version (ro\<lparr>ro_test := b\<rparr>) = ro_version ro" "ro_next (ro\<lparr>ro_test := b\<rparr>) = ro_next ro" by simp_all
  show ?thesis unfolding prepare_release_def fields ..
qed

lemmas sample_release_simps =
  release_main_def prepare_test sample_prepared sample_env_def release_steps_def check_steps_def publish_steps_def step_ok_def

lemma sample_flags:
  "ro_version sample_options = None" "\<not> ro_dry_run sample_options" "ri_virtualenv sample_input"
  "said_yes (ri_confirm sample_input)" "ro_branch sample_options = ''main''" "ro_prefix sample_options = ''v''"
  "\<not> ro_skip_tests sample_options" "ro_skip_pretest sample_options" "ro_skip_docker sample_options" "ro_skip_k8s sample_options"
  "\<not> ro_test sample_options"
  by (simp_all add: sample_options_def sample_input_def said_yes_def py_strip_def py_lstrip_def py_space_def py_lower_def)

lemma tag_pushed_only_after_checks_witness:
  "\<not> ro_test sample_options \<and> set (check_steps sample_options sample_input (sample_env (\<lambda>_. True)))
     \<subseteq> set (fst (run_steps (sample_env (\<lambda>_. True)) (release_steps sample_options sample_input (sample_env (\<lambda>_. True)) ''1.0.0.0'' ''1.0.0.1'' '''')))"
proof -
  have run: "release_main sample_options sample_input (sample_env (\<lambda>_. True))
      = Inr (fst (run_steps (sample_env (\<lambda>_. True)) (release_steps sample_options sample_input (sample_env (\<lambda>_. True)) ''1.0.0.0'' ''1.0.0.1'' '''')), True)"
    by (simp add: sample_release_simps sample_flags)
  have "PushTag ''v1.0.0.1'' \<in> set (fst (run_steps (sample_env (\<lambda>_. True)) (release_steps sample_options sample_input (sample_env (\<lambda>_. True)) ''1.0.0.0'' ''1.0.0.1'' '''')))"
    by (simp add: sample_release_simps sample_flags)
  from tag_pushed_only_after_checks [OF run this] show ?thesis by blast
qed

text \<open>A test release that fails in a check after the bump ends with the new version in the project files.\<close>

theorem failed_test_release_keeps_version:
  assumes "release_main ro ri ev = Inr (d, ok)" and "ro_test ro"
    and "prepare_release ro ri = Inr (current, new, kind)" and "BumpTo new \<in> set d"
    and "s \<in> set (check_steps ro ri ev)" and "\<not> step_ok ev s"
  shows "\<not> ok \<and> version_after current d = new \<and> new \<noteq> current"
proof -
  from release_main_Inr [OF assms(1)] assms(3) obtain rc where
    run: "run_steps ev (release_steps ro ri ev current new rc) = (d, ok)" by auto
  let ?tail = "[BumpTo current, TagDocs (ro_prefix ro @ current)]"
  let ?tag = "TagDocs (ro_prefix ro @ new @ rc)"
  from test_release_parts [OF assms(2) run assms(4)] obtain c rest where d: "d = (opening_steps ro ev @ [BumpTo new]) @ c"
    and c: "(?tag # check_steps ro ri ev) @ ?tail = c @ rest" by auto
  have s: "s \<notin> set d" using run_steps_ok [OF run] assms(6) by blast
  have bump: "BumpTo w \<notin> set c" for w
  proof
    assume w: "BumpTo w \<in> set c"
    have "BumpTo w \<notin> set (?tag # check_steps ro ri ev)" using check_steps_members by fastforce
    from prefix_through [OF c w this] obtain c' where "c = (?tag # check_steps ro ri ev) @ c'" by blast
    then show False using assms(5) s d by auto
  qed
  then have "version_after current d = new"
    by (simp add: d version_after_append version_after_keep)
  moreover have "\<not> ok"
  proof
    assume ok
    with run_steps_prefix [OF run] have "d = release_steps ro ri ev current new rc" by auto
    then show False using s assms(5) by (simp add: release_steps_parts)
  qed
  ultimately show ?thesis using prepare_release_new [OF assms(3)] by blast
qed

lemma failed_test_release_keeps_version_witness:
  "version_after ''1.0.0.0'' [CleanTree, HeadCommit, BumpTo ''1.0.0.1'', TagDocs ''v1.0.0.1'', HygieneCheck 1] = ''1.0.0.1''"
proof -
  have run: "release_main (sample_options\<lparr>ro_test := True\<rparr>) sample_input (sample_env (\<lambda>s. s \<noteq> RunTests))
      = Inr ([CleanTree, HeadCommit, BumpTo ''1.0.0.1'', TagDocs ''v1.0.0.1'', HygieneCheck 1], False)"
    by (simp add: sample_release_simps sample_flags)
  have "prepare_release (sample_options\<lparr>ro_test := True\<rparr>) sample_input = Inr (''1.0.0.0'', ''1.0.0.1'', Some BumpBuild)"
    by (simp add: prepare_test sample_prepared)
  from failed_test_release_keeps_version [OF run _ this, of RunTests] show ?thesis
    by (simp add: sample_release_simps sample_flags)
qed

text \<open>A test release that ends leaves the version as it was and has neither committed nor tagged nor pushed.\<close>

theorem test_release_restores:
  assumes "release_main ro ri ev = Inr (d, True)" and "ro_test ro" and "prepare_release ro ri = Inr (current, new, kind)"
  shows "version_after current d = current
    \<and> list_all (\<lambda>s. case s of GitCommit v \<Rightarrow> False | TagRelease t \<Rightarrow> False | PushBranch b \<Rightarrow> False | PushTag t \<Rightarrow> False
         | CheckoutPull b \<Rightarrow> False | _ \<Rightarrow> True) d"
proof -
  from release_main_Inr [OF assms(1)] assms(3) obtain rc where
    "run_steps ev (release_steps ro ri ev current new rc) = (d, True)" by auto
  from run_steps_prefix [OF this] have d: "d = release_steps ro ri ev current new rc" by auto
  have "version_after v d = current" for v
    using assms(2) unfolding d release_steps_parts closing_steps_def
    by (simp add: version_after_append)
  moreover have "list_all (\<lambda>s. case s of GitCommit v \<Rightarrow> False | TagRelease t \<Rightarrow> False | PushBranch b \<Rightarrow> False | PushTag t \<Rightarrow> False
         | CheckoutPull b \<Rightarrow> False | _ \<Rightarrow> True) d"
    using assms(2) by (auto simp: d release_steps_def check_steps_def)
  ultimately show ?thesis by blast
qed

lemma test_release_restores_witness:
  "version_after ''1.0.0.0'' [CleanTree, HeadCommit, BumpTo ''1.0.0.1'', TagDocs ''v1.0.0.1'', HygieneCheck 1, RunTests,
     BumpTo ''1.0.0.0'', TagDocs ''v1.0.0.0''] = ''1.0.0.0''"
proof -
  have run: "release_main (sample_options\<lparr>ro_test := True\<rparr>) sample_input (sample_env (\<lambda>s. True))
      = Inr ([CleanTree, HeadCommit, BumpTo ''1.0.0.1'', TagDocs ''v1.0.0.1'', HygieneCheck 1, RunTests,
         BumpTo ''1.0.0.0'', TagDocs ''v1.0.0.0''], True)"
    by (simp add: sample_release_simps sample_flags)
  have "prepare_release (sample_options\<lparr>ro_test := True\<rparr>) sample_input = Inr (''1.0.0.0'', ''1.0.0.1'', Some BumpBuild)"
    by (simp add: prepare_test sample_prepared)
  from test_release_restores [OF run _ this] show ?thesis by simp
qed

text \<open>The upload is tried exactly if building and checking went well or were skipped, it is no dry run, the
  version is not already there or its upload is forced, the user agreed, and there is a token.\<close>

theorem upload_conditions:
  "snd (publish po ev) \<longleftrightarrow>
     (po_skip_build po \<or> pe_build_ok ev) \<and> 0 < pe_artifacts ev \<and> (po_skip_check po \<or> pe_check_ok ev) \<and> \<not> po_dry_run po
     \<and> (\<exists>text v. pe_pyproject ev = Some text \<and> publish_version (py_splitlines text) = Some v
          \<and> (\<not> pe_exists ev v \<or> \<not> po_skip_existing po \<or> po_force po))
     \<and> (po_yes po \<or> said_yes (pe_confirm ev))
     \<and> (py_strip (pe_token_env ev) \<noteq> '''' \<or> (\<exists>t. pe_token_typed ev = Some t \<and> py_strip t \<noteq> ''''))"
  by (auto simp: publish_def Let_def split: option.splits bind_splits)

text \<open>Every path is counted once, under its section.\<close>

lemma classify_section: "classify_path p \<in> set (report_sections @ [''Other''])"
  unfolding classify_path_def Let_def report_sections_def by simp

lemma count_path_fold:
  assumes "\<forall>s \<in> S. counts s \<noteq> None" and "\<forall>p. classify_path p \<in> S" and "s \<in> S"
  shows "fold count_path paths counts s = map_option (\<lambda>n. n + length (filter (\<lambda>p. classify_path p = s) paths)) (counts s)"
  using assms(1)
proof (induction paths arbitrary: counts)
  case Nil
  then show ?case by (simp add: option.map_ident)
next
  case (Cons p paths)
  obtain n where n: "counts (classify_path p) = Some n" using Cons.prems assms(2) by blast
  then have step: "count_path p counts = counts(classify_path p \<mapsto> n + 1)" by (simp add: count_path_def)
  have "\<forall>s \<in> S. (count_path p counts) s \<noteq> None" using Cons.prems by (simp add: step)
  note IH = Cons.IH [OF this]
  have "(count_path p counts) s = (if s = classify_path p then Some (n + 1) else counts s)" by (simp add: step)
  with IH n show ?case by auto
qed

theorem summary_counts:
  assumes "s \<in> set (report_sections @ [''Other''])"
  shows "summarize_sections paths s = Some (length (filter (\<lambda>p. classify_path p = s) paths))"
proof -
  let ?S = "set (report_sections @ [''Other''])"
  let ?m = "\<lambda>s. if s \<in> ?S then Some (0 :: nat) else None"
  have "\<forall>s \<in> ?S. ?m s \<noteq> None" by simp
  moreover have "\<forall>p. classify_path p \<in> ?S" using classify_section by blast
  ultimately have "fold count_path paths ?m s = map_option (\<lambda>n. n + length (filter (\<lambda>p. classify_path p = s) paths)) (?m s)"
    using assms by (rule count_path_fold)
  then show ?thesis using assms by (simp add: summarize_sections_def)
qed

lemma summary_counts_witness: "summarize_sections [''docs/a.md''] ''Docs'' = Some 1"
proof -
  have "classify_path ''docs/a.md'' = ''Docs''" by code_simp
  moreover have "''Docs'' \<in> set (report_sections @ [''Other''])" by (simp add: report_sections_def)
  ultimately show ?thesis using summary_counts [of "''Docs''" "[''docs/a.md'']"] by simp
qed

end
