(* ===== verification/CaptureStages.thy ===== *)
theory CaptureStages
  imports ResultsView Requests
begin

text \<open>
  The capture stages of the services below \<open>api/routes/pnm/sg\<close>: what each reads of the request, keeps in
  the operation's context and hands to the pypnm package, and how it turns the answer into a stage result
  (\<open>ds/ofdm/fec_summary\<close>, \<open>modulation_profile\<close>, \<open>channel_est_coeff\<close>, \<open>const_display\<close>,
  \<open>spectrum_analyzer\<close>, \<open>ds/scqam/spectrum_analyzer\<close>, \<open>ds/histogram\<close>, \<open>spectrum_analyzer\<close> and
  \<open>us/ofdma/pre_equalization\<close>, each \<open>service.py\<close>).  The worker of
  \<open>api/common/service/pnm/capture_worker.py\<close> is stated over any stage that keeps the contract of the
  locale \<open>capture_stage\<close>, and every service's stage is an instance.  The pypnm capture services and
  their enumerations are inputs.
\<close>

section \<open>The pypnm package\<close>

text \<open>A modem as the capture services see it: its MAC address, its address and the write community.\<close>

type_synonym target = "string \<times> string \<times> string"

type_synonym answer = "message_response option"

record spectrum_parameters =
  sp_inactivity :: int
  sp_first_center :: int
  sp_last_center :: int
  sp_resolution :: int
  sp_noise :: int
  sp_window :: int
  sp_averages :: int
  sp_retrieval :: int

record channel_spectrum_parameters =
  cp_averages :: int
  cp_resolution :: int
  cp_channels :: "int list option"
  cp_retrieval :: int

text \<open>The package's constants, the members of its enumerations, its capture services (\<open>Inl\<close> when one
  raises) and its precheck, with whether an OFDM channel must exist.\<close>

record pypnm =
  py_ten_min :: int
  py_fec_types :: "int set"
  py_modulation_offset :: int
  py_sample_symbol :: int
  py_hann :: int
  py_windows :: "int set"
  py_file_retrieval :: int
  py_retrievals :: "int set"
  py_fec :: "target \<Rightarrow> int \<Rightarrow> int list \<Rightarrow> string \<times> string \<Rightarrow> string + answer"
  py_modulation_profile :: "target \<Rightarrow> int list \<Rightarrow> string \<times> string \<Rightarrow> string + answer"
  py_channel_estimate :: "target \<Rightarrow> int list \<Rightarrow> string \<times> string \<Rightarrow> string + answer"
  py_constellation :: "target \<Rightarrow> int \<Rightarrow> int \<Rightarrow> int list \<Rightarrow> string \<times> string \<Rightarrow> string + answer"
  py_histogram :: "target \<Rightarrow> int \<Rightarrow> string \<times> string \<Rightarrow> string + answer"
  py_pre_equalization :: "target \<Rightarrow> int list \<Rightarrow> string \<times> string \<Rightarrow> string + answer"
  py_spectrum :: "target \<Rightarrow> spectrum_parameters \<Rightarrow> string \<times> string \<Rightarrow> string + answer"
  py_ofdm_spectrum :: "target \<Rightarrow> channel_spectrum_parameters \<Rightarrow> string \<times> string \<Rightarrow> string + (int \<times> answer) list"
  py_scqam_spectrum :: "target \<Rightarrow> channel_spectrum_parameters \<Rightarrow> string \<times> string \<Rightarrow> string + (int \<times> answer) list"
  py_precheck :: "bool \<Rightarrow> target \<Rightarrow> string + (status_code \<times> string)"

section \<open>The base worker\<close>

type_synonym capture_run = "target \<Rightarrow> op_request \<Rightarrow> op_context option \<Rightarrow> string + stage_result"

text \<open>\<open>PnmCaptureWorkerBase.__call__\<close> over a service's \<open>_run_capture_stage\<close>.\<close>

definition base_worker :: "worker_env \<Rightarrow> capture_run \<Rightarrow> op_fs \<Rightarrow> work_item \<Rightarrow> string + worker_result" where
  "base_worker we run fs item =
     (case load_state (wi_operation item) fs of
        Inl _ \<Rightarrow> Inl ''operation state not found''
      | Inr s \<Rightarrow>
          (let cx = load_context (wi_operation item) fs
           in case we_resolve we (wi_sg item) (wi_mac item) of
                None \<Rightarrow> Inr \<lparr>wr_ip = None,
                  wr_stages = [stage_of EligibilityStage StatusInvalidParameters ''modem ip address missing'' (we_now we)]\<rparr>
              | Some a \<Rightarrow>
                  (let e = stage_of EligibilityStage StatusSuccess '''' (we_now we);
                       community = resolve_write_community (we_community we) cx
                   in case we_precheck we (wi_mac item) a community of
                        Inl msg \<Rightarrow> Inl msg
                      | Inr (code, msg) \<Rightarrow>
                          (let p = stage_of PrecheckStage code msg (we_now we)
                           in if code \<noteq> StatusSuccess then Inr \<lparr>wr_ip = Some a, wr_stages = [e, p]\<rparr>
                              else (case run (wi_mac item, a, community) (op_summary s) cx of
                                      Inl msg \<Rightarrow> Inl msg
                                    | Inr c \<Rightarrow> Inr \<lparr>wr_ip = Some a, wr_stages = [e, p, c]\<rparr>)))))"

text \<open>\<open>_run_precheck\<close> of the services: an exception of the precheck is a failed precheck.  Histogram and
  full-band spectrum do not ask for an OFDM channel.\<close>

definition service_precheck :: "pypnm \<Rightarrow> bool \<Rightarrow> string \<Rightarrow> string \<Rightarrow> string \<Rightarrow> string + (status_code \<times> string)" where
  "service_precheck py ofdm mac ip community =
     (case py_precheck py ofdm (mac, ip, community) of
        Inl msg \<Rightarrow> Inr (StatusFailure, ''precheck failed: '' @ msg)
      | Inr r \<Rightarrow> Inr r)"

section \<open>Reading the context\<close>

definition context_int :: "(op_context \<Rightarrow> int option) \<Rightarrow> int \<Rightarrow> op_context option \<Rightarrow> int" where
  "context_int f d cx = (case cx of None \<Rightarrow> d | Some c \<Rightarrow> (case f c of None \<Rightarrow> d | Some n \<Rightarrow> n))"

text \<open>\<open>E(n)\<close> on an enumeration of the package.\<close>

definition enum_member :: "string \<Rightarrow> int set \<Rightarrow> int \<Rightarrow> string + int" where
  "enum_member name ms n = (if n \<in> ms then Inr n else Inl (int_str n @ '' is not a valid '' @ name))"

definition one_channel :: "int list \<Rightarrow> int option" where
  "one_channel channels = (case channels of [c] \<Rightarrow> Some c | _ \<Rightarrow> None)"

text \<open>The stage result of an answer that holds one transaction.\<close>

definition single_result :: "worker_env \<Rightarrow> int option \<Rightarrow> answer \<Rightarrow> stage_result" where
  "single_result we channel resp =
     (let (code, tx, msg) = parse_capture_response (we_str we) (we_name we) ''PNM_FILE_TRANSACTION'' resp;
          found = (code = StatusSuccess \<and> tx \<noteq> None)
      in \<lparr>sr_stage = CaptureStage, sr_status = code, sr_reason = None, sr_channel = channel,
          sr_transactions = (if found then [fst (the tx)] else []),
          sr_files = (if found then [snd (the tx)] else []),
          sr_message = (if found then msg else if msg \<noteq> '''' then msg else ''missing transaction_id or filename''),
          sr_started = we_capture_now we, sr_finished = we_capture_now we\<rparr>)"

section \<open>One answer\<close>

text \<open>FEC summary.\<close>

definition fec_call :: "pypnm \<Rightarrow> target \<Rightarrow> int list \<Rightarrow> string \<times> string \<Rightarrow> op_context option \<Rightarrow> string + answer" where
  "fec_call py tg channels tftp cx =
     (case (case cx of None \<Rightarrow> Inr (py_ten_min py)
            | Some c \<Rightarrow> (case cx_fec_summary c of None \<Rightarrow> Inr (py_ten_min py)
                         | Some n \<Rightarrow> enum_member ''FecSummaryType'' (py_fec_types py) n)) of
        Inl msg \<Rightarrow> Inl msg
      | Inr t \<Rightarrow> py_fec py tg t channels tftp)"

definition fec_capture :: "worker_env \<Rightarrow> pypnm \<Rightarrow> capture_run" where
  "fec_capture we py tg rq cx =
     map_sum id (single_result we (one_channel (rq_channels rq)))
       (fec_call py tg (rq_channels rq) (resolve_tftp_servers (we_tftp we) cx) cx)"

text \<open>Modulation profile.\<close>

definition modulation_profile_capture :: "worker_env \<Rightarrow> pypnm \<Rightarrow> capture_run" where
  "modulation_profile_capture we py tg rq cx =
     map_sum id (single_result we (one_channel (rq_channels rq)))
       (py_modulation_profile py tg (rq_channels rq) (resolve_tftp_servers (we_tftp we) cx))"

text \<open>Channel estimation coefficients.\<close>

definition channel_estimate_capture :: "worker_env \<Rightarrow> pypnm \<Rightarrow> capture_run" where
  "channel_estimate_capture we py tg rq cx =
     map_sum id (single_result we (one_channel (rq_channels rq)))
       (py_channel_estimate py tg (rq_channels rq) (resolve_tftp_servers (we_tftp we) cx))"

text \<open>Constellation display.\<close>

definition constellation_capture :: "worker_env \<Rightarrow> pypnm \<Rightarrow> capture_run" where
  "constellation_capture we py tg rq cx =
     map_sum id (single_result we (one_channel (rq_channels rq)))
       (py_constellation py tg (context_int cx_modulation_offset (py_modulation_offset py) cx)
          (context_int cx_sample_symbol (py_sample_symbol py) cx) (rq_channels rq)
          (resolve_tftp_servers (we_tftp we) cx))"

text \<open>Histogram: the channels of the request are not read.\<close>

definition histogram_call :: "pypnm \<Rightarrow> target \<Rightarrow> string \<times> string \<Rightarrow> op_context option \<Rightarrow> string + answer" where
  "histogram_call py tg tftp cx = py_histogram py tg (context_int cx_sample_duration 10 cx) tftp"

definition histogram_capture :: "worker_env \<Rightarrow> pypnm \<Rightarrow> capture_run" where
  "histogram_capture we py tg rq cx =
     map_sum id (single_result we None) (histogram_call py tg (resolve_tftp_servers (we_tftp we) cx) cx)"

text \<open>Full-band spectrum: the parameters of the context over the defaults, and the two enumerations.\<close>

definition spectrum_call :: "pypnm \<Rightarrow> target \<Rightarrow> string \<times> string \<Rightarrow> op_context option \<Rightarrow> string + answer" where
  "spectrum_call py tg tftp cx =
     (case enum_member ''WindowFunction'' (py_windows py) (context_int cx_window_function (py_hann py) cx) of
        Inl msg \<Rightarrow> Inl msg
      | Inr w \<Rightarrow>
          (case enum_member ''SpectrumRetrievalType'' (py_retrievals py)
                  (context_int cx_retrieval_type (py_file_retrieval py) cx) of
             Inl msg \<Rightarrow> Inl msg
           | Inr r \<Rightarrow>
               py_spectrum py tg
                 \<lparr>sp_inactivity = context_int cx_inactivity_timeout 60 cx,
                  sp_first_center = context_int cx_first_center 300000000 cx,
                  sp_last_center = context_int cx_last_center 900000000 cx,
                  sp_resolution = context_int cx_resolution_bw 30000 cx,
                  sp_noise = context_int cx_noise_bw 150 cx, sp_window = w,
                  sp_averages = context_int cx_num_averages 1 cx, sp_retrieval = r\<rparr> tftp))"

definition spectrum_capture :: "worker_env \<Rightarrow> pypnm \<Rightarrow> capture_run" where
  "spectrum_capture we py tg rq cx =
     map_sum id (single_result we None) (spectrum_call py tg (resolve_tftp_servers (we_tftp we) cx) cx)"

section \<open>Several transactions\<close>

text \<open>The transactions of every element that has one, in order.\<close>

definition all_transactions :: "(json \<Rightarrow> string) \<Rightarrow> payload_element list \<Rightarrow> (string \<times> string) list" where
  "all_transactions py_str els = List.map_filter (entry_transaction py_str ''PNM_FILE_TRANSACTION'') els"

text \<open>The loop over the answers of the channels: the status and message it ends with, and the transactions
  collected before the first answer that failed.\<close>

fun collect_answers ::
  "(json \<Rightarrow> string) \<Rightarrow> (status_code \<Rightarrow> string) \<Rightarrow> (int \<times> answer) list \<Rightarrow> (string \<times> string) list \<Rightarrow>
   status_code \<times> string \<times> (string \<times> string) list" where
  "collect_answers py_str name [] txs = (StatusSuccess, '''', txs)"
| "collect_answers py_str name ((c, resp) # rest) txs =
     (case resp of
        None \<Rightarrow> (StatusFailure, ''capture returned no message response'', txs)
      | Some r \<Rightarrow>
          if mr_status r \<noteq> StatusSuccess then (mr_status r, name (mr_status r), txs)
          else (case mr_payload r of
                  None \<Rightarrow> (StatusFailure, ''missing transaction_id or filename'', txs)
                | Some els \<Rightarrow> collect_answers py_str name rest (txs @ all_transactions py_str els)))"

definition several_result :: "worker_env \<Rightarrow> int option \<Rightarrow> status_code \<times> string \<times> (string \<times> string) list \<Rightarrow> stage_result" where
  "several_result we channel out =
     (case out of (code, msg, txs) \<Rightarrow>
        \<lparr>sr_stage = CaptureStage, sr_status = code, sr_reason = None, sr_channel = channel,
         sr_transactions = map fst txs, sr_files = map snd txs, sr_message = msg,
         sr_started = we_capture_now we, sr_finished = we_capture_now we\<rparr>)"

text \<open>The part of \<open>_run_capture\<close> after the executor's answer, the same in the two channel services.\<close>

definition channels_outcome ::
  "worker_env \<Rightarrow> (int \<times> answer) list \<Rightarrow> status_code \<times> string \<times> (string \<times> string) list" where
  "channels_outcome we resps =
     (if resps = [] then (StatusFailure, ''capture returned no message response'', [])
      else (case collect_answers (we_str we) (we_name we) resps [] of
              (code, msg, txs) \<Rightarrow>
                if code = StatusSuccess \<and> txs = []
                then (StatusTransactionNotFound, ''missing transaction_id or filename'', txs)
                else (code, msg, txs)))"

definition channel_spectrum_call ::
  "(target \<Rightarrow> channel_spectrum_parameters \<Rightarrow> string \<times> string \<Rightarrow> string + (int \<times> answer) list) \<Rightarrow>
   pypnm \<Rightarrow> target \<Rightarrow> int list \<Rightarrow> string \<times> string \<Rightarrow> op_context option \<Rightarrow> string + (int \<times> answer) list" where
  "channel_spectrum_call analyzer py tg channels tftp cx =
     (case enum_member ''SpectrumRetrievalType'' (py_retrievals py)
             (context_int cx_retrieval_type (py_file_retrieval py) cx) of
        Inl msg \<Rightarrow> Inl msg
      | Inr r \<Rightarrow> analyzer tg \<lparr>cp_averages = context_int cx_num_averages 10 cx,
                              cp_resolution = context_int cx_resolution_bw 25000 cx,
                              cp_channels = (if channels = [] then None else Some channels), cp_retrieval = r\<rparr> tftp)"

definition ofdm_spectrum_capture :: "worker_env \<Rightarrow> pypnm \<Rightarrow> capture_run" where
  "ofdm_spectrum_capture we py tg rq cx =
     map_sum id (\<lambda>resps. several_result we None (channels_outcome we resps))
       (channel_spectrum_call (py_ofdm_spectrum py) py tg (rq_channels rq) (resolve_tftp_servers (we_tftp we) cx) cx)"

definition scqam_spectrum_capture :: "worker_env \<Rightarrow> pypnm \<Rightarrow> capture_run" where
  "scqam_spectrum_capture we py tg rq cx =
     map_sum id (\<lambda>resps. several_result we None (channels_outcome we resps))
       (channel_spectrum_call (py_scqam_spectrum py) py tg (rq_channels rq) (resolve_tftp_servers (we_tftp we) cx) cx)"

text \<open>Pre-equalization: one answer with a transaction for every channel.\<close>

definition pre_equalization_outcome ::
  "worker_env \<Rightarrow> answer \<Rightarrow> status_code \<times> string \<times> (string \<times> string) list" where
  "pre_equalization_outcome we resp =
     (case resp of
        None \<Rightarrow> (StatusFailure, ''capture returned no message response'', [])
      | Some r \<Rightarrow>
          if mr_status r \<noteq> StatusSuccess then (mr_status r, we_name we (mr_status r), [])
          else (case mr_payload r of
                  None \<Rightarrow> (StatusFailure, ''missing transaction_id or filename'', [])
                | Some els \<Rightarrow>
                    (let txs = all_transactions (we_str we) els
                     in if txs = [] then (StatusTransactionNotFound, ''missing transaction_id or filename'', [])
                        else (StatusSuccess, '''', txs))))"

definition pre_equalization_capture :: "worker_env \<Rightarrow> pypnm \<Rightarrow> capture_run" where
  "pre_equalization_capture we py tg rq cx =
     map_sum id (\<lambda>resp. several_result we (one_channel (rq_channels rq)) (pre_equalization_outcome we resp))
       (py_pre_equalization py tg (rq_channels rq) (resolve_tftp_servers (we_tftp we) cx))"


section \<open>The request\<close>

text \<open>\<open>_build_request_context\<close>: the overrides of the envelope, and the host name the service reads.\<close>

definition envelope_context :: "string option \<Rightarrow> envelope \<Rightarrow> op_context" where
  "envelope_context host en =
     (let pnm = mf_pnm (en_modems en);
          tftp = (case pnm of None \<Rightarrow> None | Some p \<Rightarrow> pp_tftp p);
          v2c = (case mf_snmp (en_modems en) of None \<Rightarrow> None | Some v \<Rightarrow> v)
      in \<lparr>cx_hostname = host,
          cx_tftp_ipv4 = (case tftp of None \<Rightarrow> None | Some t \<Rightarrow> tp_ipv4 t),
          cx_tftp_ipv6 = (case tftp of None \<Rightarrow> None | Some t \<Rightarrow> tp_ipv6 t),
          cx_community = (case v2c of None \<Rightarrow> None | Some c \<Rightarrow> c),
          cx_modulation_offset = None, cx_sample_symbol = None, cx_inactivity_timeout = None,
          cx_first_center = None, cx_last_center = None, cx_resolution_bw = None, cx_noise_bw = None,
          cx_window_function = None, cx_num_averages = None, cx_retrieval_type = None,
          cx_sample_duration = None, cx_fec_summary = None\<rparr>)"

definition fec_context :: "string option \<Rightarrow> envelope \<Rightarrow> int \<Rightarrow> op_context" where
  "fec_context configured en fec_type =
     (envelope_context (capture_hostname configured) en)\<lparr>cx_fec_summary := Some fec_type\<rparr>"

definition modulation_profile_context :: "string option \<Rightarrow> envelope \<Rightarrow> op_context" where
  "modulation_profile_context configured en = envelope_context (capture_hostname configured) en"

definition channel_estimate_context :: "string option \<Rightarrow> envelope \<Rightarrow> op_context" where
  "channel_estimate_context configured en = envelope_context (capture_hostname configured) en"

definition pre_equalization_context :: "string option \<Rightarrow> envelope \<Rightarrow> op_context" where
  "pre_equalization_context configured en = envelope_context (capture_hostname configured) en"

definition constellation_context :: "string option \<Rightarrow> envelope \<Rightarrow> int \<Rightarrow> int \<Rightarrow> op_context" where
  "constellation_context configured en offset samples =
     (envelope_context (capture_hostname configured) en)\<lparr>cx_modulation_offset := Some offset, cx_sample_symbol := Some samples\<rparr>"

definition histogram_context :: "string option \<Rightarrow> envelope \<Rightarrow> int \<Rightarrow> op_context" where
  "histogram_context configured en duration =
     (envelope_context (capture_hostname configured) en)\<lparr>cx_sample_duration := Some duration\<rparr>"

text \<open>The spectrum services keep no host name.\<close>

definition spectrum_context :: "envelope \<Rightarrow> spectrum_parameters \<Rightarrow> op_context" where
  "spectrum_context en sp =
     (envelope_context None en)\<lparr>cx_inactivity_timeout := Some (sp_inactivity sp), cx_first_center := Some (sp_first_center sp),
       cx_last_center := Some (sp_last_center sp), cx_resolution_bw := Some (sp_resolution sp),
       cx_noise_bw := Some (sp_noise sp), cx_window_function := Some (sp_window sp),
       cx_num_averages := Some (sp_averages sp), cx_retrieval_type := Some (sp_retrieval sp)\<rparr>"

definition ofdm_spectrum_context :: "envelope \<Rightarrow> int \<Rightarrow> int \<Rightarrow> int \<Rightarrow> op_context" where
  "ofdm_spectrum_context en averages resolution retrieval =
     (envelope_context None en)\<lparr>cx_resolution_bw := Some resolution, cx_num_averages := Some averages,
       cx_retrieval_type := Some retrieval\<rparr>"

definition scqam_spectrum_context :: "envelope \<Rightarrow> int \<Rightarrow> int \<Rightarrow> int \<Rightarrow> op_context" where
  "scqam_spectrum_context en averages resolution retrieval =
     (envelope_context None en)\<lparr>cx_resolution_bw := Some resolution, cx_num_averages := Some averages,
       cx_retrieval_type := Some retrieval\<rparr>"

text \<open>\<open>_resolve_channel_ids\<close> and \<open>_build_request_summary\<close>; only the RxMER service checks the channels, and the
  histogram service reads none.\<close>

definition requested_channels :: "envelope \<Rightarrow> int list" where
  "requested_channels en =
     (case mf_pnm (en_modems en) of
        None \<Rightarrow> []
      | Some p \<Rightarrow> (case pp_channels p of Some (Some cs) \<Rightarrow> cs | _ \<Rightarrow> []))"

definition unchecked_summary ::
  "keyed_store option \<Rightarrow> keyed_store option \<Rightarrow> envelope \<Rightarrow> int list \<Rightarrow> op_execution \<Rightarrow> op_request \<times> keyed_store option" where
  "unchecked_summary kept loader en channels ex =
     (case resolve_modem_scope kept loader (en_sgs en) (mf_macs (en_modems en)) of
        ((sgs, macs), kept') \<Rightarrow>
          (\<lparr>rq_groups = sgs, rq_macs = macs, rq_channels = channels, rq_execution = ex\<rparr>, kept'))"

definition fec_summary_request where
  "fec_summary_request kept loader en ex = unchecked_summary kept loader en (requested_channels en) ex"

definition modulation_profile_request where
  "modulation_profile_request kept loader en ex = unchecked_summary kept loader en (requested_channels en) ex"

definition channel_estimate_request where
  "channel_estimate_request kept loader en ex = unchecked_summary kept loader en (requested_channels en) ex"

definition constellation_request where
  "constellation_request kept loader en ex = unchecked_summary kept loader en (requested_channels en) ex"

definition pre_equalization_request where
  "pre_equalization_request kept loader en ex = unchecked_summary kept loader en (requested_channels en) ex"

definition spectrum_request where
  "spectrum_request kept loader en ex = unchecked_summary kept loader en (requested_channels en) ex"

definition ofdm_spectrum_request where
  "ofdm_spectrum_request kept loader en ex = unchecked_summary kept loader en (requested_channels en) ex"

definition scqam_spectrum_request where
  "scqam_spectrum_request kept loader en ex = unchecked_summary kept loader en (requested_channels en) ex"

definition histogram_request where
  "histogram_request kept loader en ex = unchecked_summary kept loader en [] ex"

text \<open>\<open>start_capture\<close> of the base service up to the runner: the operation is created with the request and
  its context, and the runner is given its identifier.\<close>

definition create_capture ::
  "string \<Rightarrow> int \<Rightarrow> op_request \<times> keyed_store option \<Rightarrow> op_context \<Rightarrow> op_fs \<Rightarrow> operation \<times> keyed_store option \<times> op_fs" where
  "create_capture i now rq cx fs =
     (let (s, fs') = create_operation i now (fst rq) (Some cx) fs in (s, snd rq, fs'))"


section \<open>The contract of a stage\<close>

text \<open>What the base worker and the runner rely on: a stage that returns gives a capture result, with a file
  for every transaction, and a success has a transaction.\<close>

locale capture_stage =
  fixes run :: capture_run
  assumes stage: "run tg rq cx = Inr c \<Longrightarrow> sr_stage c = CaptureStage"
    and paired: "run tg rq cx = Inr c \<Longrightarrow> length (sr_transactions c) = length (sr_files c)"
    and captured: "run tg rq cx = Inr c \<Longrightarrow> sr_status c = StatusSuccess \<Longrightarrow> sr_transactions c \<noteq> []"
begin

text \<open>The three ways the worker can return.\<close>

lemma worker_cases:
  assumes "base_worker we run fs item = Inr r"
  obtains (ineligible) "we_resolve we (wi_sg item) (wi_mac item) = None" "wr_ip r = None"
      "wr_stages r = [stage_of EligibilityStage StatusInvalidParameters ''modem ip address missing'' (we_now we)]"
  | (rejected) a code msg where "we_resolve we (wi_sg item) (wi_mac item) = Some a" "wr_ip r = Some a" "code \<noteq> StatusSuccess"
      "wr_stages r = [stage_of EligibilityStage StatusSuccess '''' (we_now we), stage_of PrecheckStage code msg (we_now we)]"
  | (ran) a msg community rq cx c where "we_resolve we (wi_sg item) (wi_mac item) = Some a" "wr_ip r = Some a"
      "run (wi_mac item, a, community) rq cx = Inr c"
      "wr_stages r = [stage_of EligibilityStage StatusSuccess '''' (we_now we), stage_of PrecheckStage StatusSuccess msg (we_now we), c]"
  using assms by (auto simp: base_worker_def Let_def split: sum.splits option.splits if_splits)

lemma worker_well_staged: "base_worker we run fs item = Inr r \<Longrightarrow> well_staged r"
  by (erule worker_cases) (auto simp: well_staged_def stage_of_def plain_stage_def dest: stage)

lemma worker_outcome:
  assumes "base_worker we run fs item = Inr r"
  shows "\<exists>k \<in> {1, 2, 3}. map sr_stage (wr_stages r) = take k [EligibilityStage, PrecheckStage, CaptureStage] \<and>
    (\<forall>s \<in> set (butlast (wr_stages r)). sr_status s = StatusSuccess) \<and>
    (k < 3 \<longrightarrow> sr_status (last (wr_stages r)) \<noteq> StatusSuccess) \<and>
    (k = 3 \<longrightarrow> length (sr_transactions (last (wr_stages r))) = length (sr_files (last (wr_stages r)))) \<and>
    (sr_status (last (wr_stages r)) = StatusSuccess \<longrightarrow> sr_transactions (last (wr_stages r)) \<noteq> [])"
  using assms
proof (cases rule: worker_cases)
  case ineligible
  then show ?thesis by (intro bexI [of _ 1]) (auto simp: stage_of_def plain_stage_def)
next
  case rejected
  then show ?thesis by (intro bexI [of _ 2]) (auto simp: stage_of_def plain_stage_def)
next
  case ran
  then show ?thesis
    by (intro bexI [of _ 3]) (auto simp: stage_of_def plain_stage_def stage captured dest: paired)
qed

end

text \<open>The worker of the RxMER service is the base worker over the RxMER stage.\<close>

definition rxmer_run :: "worker_env \<Rightarrow> capture_run" where
  "rxmer_run we tg rq cx = (case tg of (mac, ip, community) \<Rightarrow> rxmer_capture we mac ip community (rq_channels rq) cx)"

lemma run_worker_base: "run_worker we fs item = base_worker we (rxmer_run we) fs item"
  by (simp add: run_worker_def base_worker_def rxmer_run_def Let_def split: sum.split option.split)

interpretation rxmer: capture_stage "rxmer_run we" for we
proof
  show "sr_stage c = CaptureStage" if "rxmer_run we tg rq cx = Inr c" for tg rq cx c
    using that rxmer_capture_success by (auto simp: rxmer_run_def split: prod.splits)
  show "length (sr_transactions c) = length (sr_files c)" if "rxmer_run we tg rq cx = Inr c" for tg rq cx c
    using that by (auto simp: rxmer_run_def rxmer_capture_def Let_def split: prod.splits sum.splits)
  show "sr_transactions c \<noteq> []" if "rxmer_run we tg rq cx = Inr c" "sr_status c = StatusSuccess" for tg rq cx c
    using that rxmer_capture_success by (fastforce simp: rxmer_run_def split: prod.splits)
qed

lemma single_result_contract:
  "sr_stage (single_result we ch resp) = CaptureStage"
  "length (sr_transactions (single_result we ch resp)) = length (sr_files (single_result we ch resp))"
  "sr_status (single_result we ch resp) = StatusSuccess \<Longrightarrow> sr_transactions (single_result we ch resp) \<noteq> []"
  using parse_success by (fastforce simp: single_result_def Let_def split: prod.splits)+

lemma several_result_contract:
  "sr_stage (several_result we ch out) = CaptureStage"
  "sr_files (several_result we ch out) = map snd (snd (snd out))"
  "sr_status (several_result we ch out) = fst out"
  "sr_transactions (several_result we ch out) = map fst (snd (snd out))"
  by (simp_all add: several_result_def split: prod.split)

lemma channels_outcome_captured: "fst (channels_outcome we resps) = StatusSuccess \<Longrightarrow> snd (snd (channels_outcome we resps)) \<noteq> []"
  by (auto simp: channels_outcome_def split: if_splits prod.splits)

lemma pre_equalization_outcome_captured:
  "fst (pre_equalization_outcome we resp) = StatusSuccess \<Longrightarrow> snd (snd (pre_equalization_outcome we resp)) \<noteq> []"
  by (auto simp: pre_equalization_outcome_def Let_def split: if_splits option.splits)

text \<open>A stage that reads its answer with a function that keeps the contract keeps it.\<close>

lemma capture_stage_of_answer:
  assumes "\<And>tg rq cx. run tg rq cx = map_sum id (read rq) (call tg rq cx)"
    and "\<And>rq x. sr_stage (read rq x) = CaptureStage"
    and "\<And>rq x. length (sr_transactions (read rq x)) = length (sr_files (read rq x))"
    and "\<And>rq x. sr_status (read rq x) = StatusSuccess \<Longrightarrow> sr_transactions (read rq x) \<noteq> []"
  shows "capture_stage run"
  using assms by unfold_locales (auto simp: map_sum_def split: sum.splits)


interpretation fec: capture_stage "fec_capture we py" for we py
  by (rule capture_stage_of_answer, rule fec_capture_def) (simp_all add: single_result_contract)

interpretation modulation_profile: capture_stage "modulation_profile_capture we py" for we py
  by (rule capture_stage_of_answer, rule modulation_profile_capture_def) (simp_all add: single_result_contract)

interpretation channel_estimate: capture_stage "channel_estimate_capture we py" for we py
  by (rule capture_stage_of_answer, rule channel_estimate_capture_def) (simp_all add: single_result_contract)

interpretation constellation: capture_stage "constellation_capture we py" for we py
  by (rule capture_stage_of_answer, rule constellation_capture_def) (simp_all add: single_result_contract)

interpretation histogram: capture_stage "histogram_capture we py" for we py
  by (rule capture_stage_of_answer, rule histogram_capture_def) (simp_all add: single_result_contract)

interpretation spectrum: capture_stage "spectrum_capture we py" for we py
  by (rule capture_stage_of_answer, rule spectrum_capture_def) (simp_all add: single_result_contract)

interpretation ofdm_spectrum: capture_stage "ofdm_spectrum_capture we py" for we py
  by (rule capture_stage_of_answer, rule ofdm_spectrum_capture_def)
     (simp_all add: several_result_contract channels_outcome_captured)

interpretation scqam_spectrum: capture_stage "scqam_spectrum_capture we py" for we py
  by (rule capture_stage_of_answer, rule scqam_spectrum_capture_def)
     (simp_all add: several_result_contract channels_outcome_captured)

interpretation pre_equalization: capture_stage "pre_equalization_capture we py" for we py
  by (rule capture_stage_of_answer, rule pre_equalization_capture_def)
     (simp_all add: several_result_contract pre_equalization_outcome_captured)

text \<open>The stage of each service, by the service's name.\<close>

datatype sg_service =
  RxMerService | FecSummaryService | ModulationProfileService | ChannelEstimateService | ConstellationService |
  HistogramService | SpectrumService | OfdmSpectrumService | ScqamSpectrumService | PreEqualizationService

fun service_run :: "sg_service \<Rightarrow> worker_env \<Rightarrow> pypnm \<Rightarrow> capture_run" where
  "service_run RxMerService we py = rxmer_run we"
| "service_run FecSummaryService we py = fec_capture we py"
| "service_run ModulationProfileService we py = modulation_profile_capture we py"
| "service_run ChannelEstimateService we py = channel_estimate_capture we py"
| "service_run ConstellationService we py = constellation_capture we py"
| "service_run HistogramService we py = histogram_capture we py"
| "service_run SpectrumService we py = spectrum_capture we py"
| "service_run OfdmSpectrumService we py = ofdm_spectrum_capture we py"
| "service_run ScqamSpectrumService we py = scqam_spectrum_capture we py"
| "service_run PreEqualizationService we py = pre_equalization_capture we py"

interpretation service: capture_stage "service_run svc we py" for svc we py
  by (cases svc)
     (simp_all add: rxmer.capture_stage_axioms fec.capture_stage_axioms modulation_profile.capture_stage_axioms
       channel_estimate.capture_stage_axioms constellation.capture_stage_axioms histogram.capture_stage_axioms
       spectrum.capture_stage_axioms ofdm_spectrum.capture_stage_axioms scqam_spectrum.capture_stage_axioms
       pre_equalization.capture_stage_axioms)

section \<open>Answers of several channels\<close>

text \<open>An answer that lets the loop go on, and its transactions.\<close>

definition answered :: "answer \<Rightarrow> bool" where
  "answered resp = (case resp of None \<Rightarrow> False | Some r \<Rightarrow> mr_status r = StatusSuccess \<and> mr_payload r \<noteq> None)"

definition answer_transactions :: "(json \<Rightarrow> string) \<Rightarrow> answer \<Rightarrow> (string \<times> string) list" where
  "answer_transactions py_str resp = all_transactions py_str (the (mr_payload (the resp)))"

lemma collect_answers_transactions:
  "snd (snd (collect_answers py_str name resps txs)) =
     txs @ concat (map (answer_transactions py_str \<circ> snd) (takeWhile (answered \<circ> snd) resps))"
  by (induction py_str name resps txs rule: collect_answers.induct)
     (auto simp: answered_def answer_transactions_def split: option.splits)

lemma collect_answers_success:
  "fst (collect_answers py_str name resps txs) = StatusSuccess \<longleftrightarrow> (\<forall>resp\<in>set resps. answered (snd resp))"
  by (induction py_str name resps txs rule: collect_answers.induct) (auto simp: answered_def split: option.splits)

lemma first_transaction_all:
  "first_transaction py_str ''PNM_FILE_TRANSACTION'' els =
     (case all_transactions py_str els of [] \<Rightarrow> None | t # _ \<Rightarrow> Some t)"
  by (induction els) (auto simp: all_transactions_def List.map_filter_simps split: option.splits)


section \<open>Properties\<close>

text \<open>C17: The worker of every service runs its stages in order and stops at the first that fails; a capture
  has a file for every transaction, and a modem that ends in success has at least one transaction.\<close>

theorem service_worker_outcome:
  assumes "base_worker we (service_run svc we py) fs item = Inr r"
  shows "\<exists>k \<in> {1, 2, 3}. map sr_stage (wr_stages r) = take k [EligibilityStage, PrecheckStage, CaptureStage] \<and>
    (\<forall>s \<in> set (butlast (wr_stages r)). sr_status s = StatusSuccess) \<and>
    (k < 3 \<longrightarrow> sr_status (last (wr_stages r)) \<noteq> StatusSuccess) \<and>
    (k = 3 \<longrightarrow> length (sr_transactions (last (wr_stages r))) = length (sr_files (last (wr_stages r)))) \<and>
    (sr_status (last (wr_stages r)) = StatusSuccess \<longrightarrow> sr_transactions (last (wr_stages r)) \<noteq> [])"
  using assms by (rule service.worker_outcome)

definition demo_answer :: "string list \<Rightarrow> answer" where
  "demo_answer txs = Some \<lparr>mr_status = StatusSuccess, mr_payload =
     Some (OtherPayload # map (\<lambda>t. DictPayload [(''message_type'', JStr ''PNM_FILE_TRANSACTION''),
       (''message'', JDict [(''transaction_id'', JStr t), (''filename'', JStr (''f'' @ t))])]) txs)\<rparr>"

definition demo_pypnm :: pypnm where
  "demo_pypnm = \<lparr>py_ten_min = 2, py_fec_types = {2, 3}, py_modulation_offset = 0, py_sample_symbol = 8192,
     py_hann = 1, py_windows = {0, 1, 2}, py_file_retrieval = 1, py_retrievals = {1, 2},
     py_fec = (\<lambda>_ t _ _. if t = 3 then Inr (demo_answer [''t3'']) else Inr None),
     py_modulation_profile = (\<lambda>_ _ _. Inr (demo_answer [''t1''])),
     py_channel_estimate = (\<lambda>_ _ _. Inr None), py_constellation = (\<lambda>_ _ _ _ _. Inr None),
     py_histogram = (\<lambda>_ _ _. Inr None), py_pre_equalization = (\<lambda>_ _ _. Inr (demo_answer [''t1'', ''t2''])),
     py_spectrum = (\<lambda>_ sp _. if sp_averages sp = 4 then Inr (demo_answer [''t4'']) else Inl ''averages''),
     py_ofdm_spectrum = (\<lambda>_ _ _. Inr [(33, demo_answer [''t1'']), (34, None), (35, demo_answer [''t2''])]),
     py_scqam_spectrum = (\<lambda>_ _ _. Inr []), py_precheck = (\<lambda>_ _. Inl ''no route'')\<rparr>"

text \<open>C35: Every answer of a channel spectrum is read up to the first that failed: the transactions are those of
  the answers before it, in order, and the capture succeeds exactly when every channel answered and
  one of them gave a transaction.\<close>

theorem channel_answers_read:
  assumes "channels_outcome we resps = (code, msg, txs)"
  shows "txs = concat (map (answer_transactions (we_str we) \<circ> snd) (takeWhile (answered \<circ> snd) resps)) \<and>
    (code = StatusSuccess \<longleftrightarrow> (\<forall>resp\<in>set resps. answered (snd resp)) \<and> txs \<noteq> [])"
proof -
  obtain c m ts where r: "collect_answers (we_str we) (we_name we) resps [] = (c, m, ts)" by (metis prod.exhaust)
  have "ts = concat (map (answer_transactions (we_str we) \<circ> snd) (takeWhile (answered \<circ> snd) resps))"
    using collect_answers_transactions [of "we_str we" "we_name we" resps "[]"] by (simp add: r)
  moreover have "c = StatusSuccess \<longleftrightarrow> (\<forall>resp\<in>set resps. answered (snd resp))"
    using collect_answers_success [of "we_str we" "we_name we" resps "[]"] by (simp add: r)
  moreover have "txs = ts \<and> (code = StatusSuccess \<longleftrightarrow> c = StatusSuccess \<and> ts \<noteq> [])" if "resps \<noteq> []"
    using assms that by (auto simp: channels_outcome_def r split: if_splits)
  moreover have "txs = [] \<and> code \<noteq> StatusSuccess" if "resps = []"
    using assms that by (auto simp: channels_outcome_def)
  ultimately show ?thesis by (cases "resps = []") auto
qed

lemma channel_answers_read_witness:
  "fst (channels_outcome demo_worker [(33, demo_answer [''t1'']), (34, None), (35, demo_answer [''t2''])]) \<noteq> StatusSuccess \<and>
   snd (snd (channels_outcome demo_worker [(33, demo_answer [''t1'']), (34, None), (35, demo_answer [''t2''])])) = [(''t1'', ''ft1'')]"
proof -
  let ?rs = "[(33, demo_answer [''t1'']), (34, None), (35, demo_answer [''t2''])]"
  obtain c m ts where r: "channels_outcome demo_worker ?rs = (c, m, ts)" by (metis prod.exhaust)
  have "answer_transactions (we_str demo_worker) (demo_answer [''t1'']) = [(''t1'', ''ft1'')]"
    by (simp add: answer_transactions_def demo_answer_def all_transactions_def entry_transaction_def
        extract_payload_entry_def json_get_def demo_worker_def List.map_filter_simps)
  moreover have "answered (demo_answer [''t1''])" "\<not> answered None" by (simp_all add: answered_def demo_answer_def)
  ultimately show ?thesis using channel_answers_read [OF r] by (simp add: r)
qed

lemma service_worker_outcome_witness:
  "\<exists>r. base_worker demo_worker (service_run PreEqualizationService demo_worker demo_pypnm) demo_fs
      \<lparr>wi_operation = ''op1'', wi_sg = 4, wi_mac = ''m3'', wi_attempt = 0\<rparr> = Inr r \<and> final_status r = StatusSuccess \<and>
      sr_transactions (last (wr_stages r)) \<noteq> [] \<and> length (wr_stages r) = 3"
proof -
  let ?item = "\<lparr>wi_operation = ''op1'', wi_sg = 4, wi_mac = ''m3'', wi_attempt = 0\<rparr>"
  let ?run = "service_run PreEqualizationService demo_worker demo_pypnm"
  have ip: "we_resolve demo_worker 4 ''m3'' = Some ''10.0.0.2''"
    by (simp add: demo_worker_def resolve_modem_ip_def store_get_def two_groups_def group_entry_def demo_modem_def
        select_ip_def normalize_ip_def py_strip_def py_lstrip_def py_space_def py_startswith_def Let_def)
  obtain c where c: "?run (''m3'', ''10.0.0.2'', resolve_write_community ''private'' (load_context ''op1'' demo_fs))
      (op_summary demo_op) (load_context ''op1'' demo_fs) = Inr c" "sr_status c = StatusSuccess" "sr_stage c = CaptureStage"
    by (simp add: pre_equalization_capture_def demo_pypnm_def pre_equalization_outcome_def several_result_def demo_answer_def
        all_transactions_def entry_transaction_def extract_payload_entry_def json_get_def demo_worker_def
        List.map_filter_simps Let_def)
  have r: "base_worker demo_worker ?run demo_fs ?item = Inr \<lparr>wr_ip = Some ''10.0.0.2'',
      wr_stages = [stage_of EligibilityStage StatusSuccess '''' 10, stage_of PrecheckStage StatusSuccess '''' 10, c]\<rparr>"
    using c ip by (simp add: base_worker_def demo_state demo_worker_def)
  have "sr_transactions c \<noteq> []" using service_worker_outcome [OF r] c(2) by auto
  with c have "final_status \<lparr>wr_ip = Some ''10.0.0.2'', wr_stages = [stage_of EligibilityStage StatusSuccess '''' 10,
      stage_of PrecheckStage StatusSuccess '''' 10, c]\<rparr> = StatusSuccess"
    by (simp add: final_status_def find_stage_def stage_of_def plain_stage_def)
  with r \<open>sr_transactions c \<noteq> []\<close> show ?thesis by fastforce
qed


text \<open>C38: Reading one answer as the pre-equalization service does is reading it as the channel spectrum services
  read the answer of a single channel, and the RxMER way of reading keeps of it the first transaction
  and its file with the same status.\<close>

theorem answer_readings_agree:
  "pre_equalization_outcome we resp = channels_outcome we [(c, resp)] \<and>
   sr_status (single_result we ch resp) = fst (pre_equalization_outcome we resp) \<and>
   sr_transactions (single_result we ch resp) = take 1 (map fst (snd (snd (pre_equalization_outcome we resp)))) \<and>
   sr_files (single_result we ch resp) = take 1 (map snd (snd (snd (pre_equalization_outcome we resp))))"
proof (intro conjI)
  show "pre_equalization_outcome we resp = channels_outcome we [(c, resp)]"
    by (auto simp: pre_equalization_outcome_def channels_outcome_def Let_def split: option.splits)
qed (auto simp: single_result_def parse_capture_response_def pre_equalization_outcome_def first_transaction_all Let_def
      split: option.splits list.splits)

text \<open>C36: What a client asks for is what the package is called with: an operation created with the context of a
  request hands the settings of that request, unchanged, to the capture service, whatever the defaults.\<close>

theorem settings_reach_capture:
  assumes "sp_window sp \<in> py_windows py" and "sp_retrieval sp \<in> py_retrievals py" and "t \<in> py_fec_types py"
  shows "spectrum_call py tg tftp (load_context i (snd (snd (create_capture i now rq (spectrum_context en sp) fs)))) =
      py_spectrum py tg sp tftp \<and>
    fec_call py tg chs tftp (load_context i (snd (snd (create_capture i now rq (fec_context host en t) fs)))) =
      py_fec py tg t chs tftp \<and>
    histogram_call py tg tftp (load_context i (snd (snd (create_capture i now rq (histogram_context host en d) fs)))) =
      py_histogram py tg d tftp \<and>
    context_int cx_modulation_offset x (load_context i (snd (snd (create_capture i now rq (constellation_context host en m n) fs)))) = m \<and>
    context_int cx_sample_symbol x (load_context i (snd (snd (create_capture i now rq (constellation_context host en m n) fs)))) = n"
  using assms
  by (cases sp)
     (simp add: create_capture_def create_operation_def Let_def load_context_def save_context_def spectrum_call_def
      spectrum_context_def fec_call_def fec_context_def histogram_call_def histogram_context_def context_int_def
      constellation_context_def enum_member_def)

definition demo_spectrum :: spectrum_parameters where
  "demo_spectrum = \<lparr>sp_inactivity = 30, sp_first_center = 108000000, sp_last_center = 1002000000, sp_resolution = 25000,
     sp_noise = 100, sp_window = 2, sp_averages = 4, sp_retrieval = 2\<rparr>"

definition demo_envelope :: envelope where
  "demo_envelope = \<lparr>en_sgs = [4], en_modems = \<lparr>mf_macs = [], mf_pnm = Some \<lparr>pp_tftp = None, pp_channels = Some (Some [77])\<rparr>,
     mf_snmp = None\<rparr>\<rparr>"

lemma settings_reach_capture_witness:
  "spectrum_call demo_pypnm (''m'', ''a'', ''c'') (''t4'', ''t6'')
     (load_context ''op2'' (snd (snd (create_capture ''op2'' 5 (demo_request, None) (spectrum_context demo_envelope demo_spectrum) demo_fs)))) =
     Inr (demo_answer [''t4'']) \<and>
   fec_call demo_pypnm (''m'', ''a'', ''c'') [] (''t4'', ''t6'')
     (load_context ''op2'' (snd (snd (create_capture ''op2'' 5 (demo_request, None) (fec_context None demo_envelope 3) demo_fs)))) =
     Inr (demo_answer [''t3''])"
  using settings_reach_capture [of demo_spectrum demo_pypnm 3 "(''m'', ''a'', ''c'')" "(''t4'', ''t6'')" "''op2''" 5 "(demo_request, None)"
      demo_envelope demo_fs "[]" None]
  by (simp add: demo_spectrum_def demo_pypnm_def)

text \<open>The precheck of the services never raises: the worker raises only when the operation is gone or the
  capture raises, and then with the capture's exception.\<close>

theorem worker_raises_from_capture:
  assumes "we_precheck we = service_precheck py ofdm" and "load_state (wi_operation item) fs = Inr s"
    and "base_worker we run fs item = Inl msg"
  shows "\<exists>a community. we_resolve we (wi_sg item) (wi_mac item) = Some a \<and>
    run (wi_mac item, a, community) (op_summary s) (load_context (wi_operation item) fs) = Inl msg"
  using assms
  by (auto simp: base_worker_def service_precheck_def Let_def split: option.splits sum.splits if_splits)

lemma worker_raises_from_capture_witness:
  "\<exists>a community. Some a = Some ''10.0.0.2'' \<and> (\<lambda>_ _ _. Inl ''boom'') (''m3'', a, community) (op_summary demo_op)
     (load_context ''op1'' demo_fs) = (Inl ''boom'' :: string + stage_result)"
proof -
  let ?py = "demo_pypnm\<lparr>py_precheck := \<lambda>_ _. Inr (StatusSuccess, '''')\<rparr>"
  let ?we = "demo_worker\<lparr>we_precheck := service_precheck ?py True\<rparr>"
  let ?item = "\<lparr>wi_operation = ''op1'', wi_sg = 4, wi_mac = ''m3'', wi_attempt = 0\<rparr>"
  have ip: "we_resolve demo_worker 4 ''m3'' = Some ''10.0.0.2''"
    by (simp add: demo_worker_def resolve_modem_ip_def store_get_def two_groups_def group_entry_def demo_modem_def
        select_ip_def normalize_ip_def py_strip_def py_lstrip_def py_space_def py_startswith_def Let_def)
  then have "base_worker ?we (\<lambda>_ _ _. Inl ''boom'') demo_fs ?item = Inl ''boom''"
    by (simp add: base_worker_def demo_state service_precheck_def)
  from worker_raises_from_capture [OF _ _ this] show ?thesis
    using ip by (simp add: demo_state)
qed

text \<open>Only the RxMER service rejects channels that no group of the scope has: every other channel service accepts
  the same request with those channels.\<close>

theorem unknown_channels_accepted:
  assumes "build_request_summary kept loader (en_sgs en) (mf_macs (en_modems en)) (requested_channels en) ex = (Inl bad, kept')"
  shows "bad \<noteq> [] \<and> set bad \<subseteq> set (requested_channels en) \<and>
    (\<forall>start \<in> {fec_summary_request, modulation_profile_request, channel_estimate_request, constellation_request,
        ofdm_spectrum_request}.
       rq_channels (fst (start kept loader en ex)) = requested_channels en)"
proof -
  have "rq_channels (fst (unchecked_summary kept loader en cs ex)) = cs" for cs
    by (simp add: unchecked_summary_def split: prod.split)
  moreover have "bad \<noteq> [] \<and> set bad \<subseteq> set (requested_channels en)"
    using assms by (auto simp: build_request_summary_def validate_channels_def Let_def
        split: prod.splits if_splits option.splits)
  ultimately show ?thesis
    by (simp add: fec_summary_request_def modulation_profile_request_def channel_estimate_request_def
        constellation_request_def ofdm_spectrum_request_def)
qed

definition one_ofdm_group :: store where
  "one_ofdm_group = [4 \<mapsto> (group_entry 4 [''m3''])\<lparr>ce_snapshot := (ce_snapshot (group_entry 4 [''m3'']))\<lparr>sn_payload :=
     (sn_payload (ce_snapshot (group_entry 4 [''m3''])))\<lparr>pl_ds_rf := [\<lparr>rf_id = 33, rf_kind = Ofdm, rf_center = None, rf_start = None,
       rf_plc = None, rf_width = None, rf_lower = None, rf_upper = None\<rparr>]\<rparr>\<rparr>\<rparr>]"

lemma unknown_channels_accepted_witness:
  "fst (build_request_summary (Some (one_ofdm_group, [4])) None [4] [''m3''] [77] (rq_execution demo_request)) = Inl [77] \<and>
   rq_channels (fst (fec_summary_request (Some (one_ofdm_group, [4])) None
     (demo_envelope\<lparr>en_modems := (en_modems demo_envelope)\<lparr>mf_macs := [''m3'']\<rparr>\<rparr>) (rq_execution demo_request))) = [77]"
proof -
  let ?en = "demo_envelope\<lparr>en_modems := (en_modems demo_envelope)\<lparr>mf_macs := [''m3'']\<rparr>\<rparr>"
  have en: "en_sgs ?en = [4]" "mf_macs (en_modems ?en) = [''m3'']" "requested_channels ?en = [77]"
    by (simp_all add: demo_envelope_def requested_channels_def)
  have "fst (build_request_summary (Some (one_ofdm_group, [4])) None [4] [''m3''] [77] (rq_execution demo_request)) = Inl [77]"
    by (simp add: build_request_summary_def resolve_modem_scope_def resolve_store_def validate_channels_def
        valid_ofdm_channels_def one_ofdm_group_def Let_def)
  then obtain k where "build_request_summary (Some (one_ofdm_group, [4])) None [4] [''m3''] [77] (rq_execution demo_request) = (Inl [77], k)"
    by (metis prod.collapse)
  with unknown_channels_accepted [of "Some (one_ofdm_group, [4])" None ?en "rq_execution demo_request" "[77]" k] en
  show ?thesis by simp
qed

end
