(* ===== verification/ServiceResults.thy ===== *)
theory ServiceResults
  imports CaptureStages
begin

text \<open>
  The results endpoints of the services other than RxMER: FEC summary, modulation profile, channel
  estimation and constellation display (\<open>api/routes/pnm/sg/ds/ofdm\<close>), histogram
  (\<open>ds/histogram/service.py\<close>, grouped by serving group only) and pre-equalization
  (\<open>us/ofdma/pre_equalization/service.py\<close>, whose analysis is brought to one shape).  The data models of
  these services have no lists of transactions and files, so those members of an entry are empty.  The
  floating-point numbers of an analysis are reals.
\<close>

section \<open>The OFDM services\<close>

definition plain_modem ::
  "(json \<Rightarrow> string) \<Rightarrow> (capture_status \<Rightarrow> string list \<Rightarrow> (string \<rightharpoonup> analysis_result) \<Rightarrow> analysis_shown) \<Rightarrow>
   (string \<rightharpoonup> analysis_result) \<Rightarrow> string \<Rightarrow> linkage list \<Rightarrow> (int option \<times> int option) \<times> modem_view" where
  "plain_modem py_str resolve decoded mac rs =
     map_prod id (\<lambda>m. m\<lparr>mo_transactions := [], mo_files := []\<rparr>) (view_modem_with py_str resolve decoded mac rs)"

definition fec_structured_results where
  "fec_structured_results py_str env rs req host =
     structured_results (plain_modem py_str (resolve_analysis req) (decode_records env req rs)) rs host"

definition modulation_profile_structured_results where
  "modulation_profile_structured_results py_str env rs req host =
     structured_results (plain_modem py_str (resolve_analysis req) (decode_records env req rs)) rs host"

definition channel_estimate_structured_results where
  "channel_estimate_structured_results py_str env rs req host =
     structured_results (plain_modem py_str (resolve_analysis req) (decode_records env req rs)) rs host"

definition constellation_structured_results where
  "constellation_structured_results py_str env rs req host =
     structured_results (plain_modem py_str (resolve_analysis req) (decode_records env req rs)) rs host"

text \<open>\<open>_filter_results_records\<close>: the channel is part of the selection, except for the histogram.\<close>

definition fec_filter_records where "fec_filter_records = filter_records_by_channel"

definition modulation_profile_filter_records where "modulation_profile_filter_records = filter_records_by_channel"

definition channel_estimate_filter_records where "channel_estimate_filter_records = filter_records_by_channel"

definition pre_equalization_filter_records where "pre_equalization_filter_records = filter_records_by_channel"

definition histogram_filter_records where "histogram_filter_records = filter_records"

text \<open>\<open>results\<close> over a service's filter and its structured results.\<close>

record 'v service_answer =
  sa_status :: status_code
  sa_message :: string
  sa_results :: 'v
  sa_summary :: results_summary
  sa_records :: "linkage list"

definition answer_results ::
  "(selection \<Rightarrow> linkage list \<Rightarrow> linkage list) \<Rightarrow>
   (linkage list \<Rightarrow> results_request option \<Rightarrow> string option \<Rightarrow> 'v) \<Rightarrow>
   string option \<Rightarrow> int \<Rightarrow> string \<Rightarrow> results_request option \<Rightarrow> op_fs \<Rightarrow> 'v service_answer" where
  "answer_results select view configured max_inline i req fs =
     (let (status, msg, su, rs) = service_results max_inline i fs;
          sel = (case req of None \<Rightarrow> rs | Some q \<Rightarrow> select (rr_selection q) rs)
      in \<lparr>sa_status = status, sa_message = msg,
          sa_results = view sel req (results_hostname configured (load_context i fs)),
          sa_summary = su, sa_records = sel\<rparr>)"

definition fec_results where
  "fec_results py_str env = answer_results fec_filter_records (fec_structured_results py_str env)"

definition modulation_profile_results where
  "modulation_profile_results py_str env =
     answer_results modulation_profile_filter_records (modulation_profile_structured_results py_str env)"

definition channel_estimate_results where
  "channel_estimate_results py_str env =
     answer_results channel_estimate_filter_records (channel_estimate_structured_results py_str env)"

definition constellation_results where
  "constellation_results py_str env = answer_results filter_records_by_channel (constellation_structured_results py_str env)"

section \<open>Histogram\<close>

record histogram_group =
  hg_sg :: "int option"
  hg_modems :: "modem_view list"

record histogram_view =
  hv_time :: "int option"
  hv_hostname :: "string option"
  hv_groups :: "histogram_group list"

definition histogram_modem ::
  "(json \<Rightarrow> string) \<Rightarrow> results_request option \<Rightarrow> (string \<rightharpoonup> analysis_result) \<Rightarrow> string \<Rightarrow> linkage list \<Rightarrow>
   int option \<times> modem_view" where
  "histogram_modem py_str req decoded mac rs =
     (case plain_modem py_str (resolve_analysis req) decoded mac rs of ((sg, channel), m) \<Rightarrow> (sg, m))"

definition histogram_structured_results ::
  "(json \<Rightarrow> string) \<Rightarrow> 'm analysis_env \<Rightarrow> linkage list \<Rightarrow> results_request option \<Rightarrow> string option \<Rightarrow> histogram_view" where
  "histogram_structured_results py_str env rs req host =
     (let modems = map (\<lambda>(mac, mrs). histogram_modem py_str req (decode_records env req rs) mac mrs)
                     (sort_key fst (group_all lk_mac rs))
      in \<lparr>hv_time = capture_time rs, hv_hostname = host,
          hv_groups = map (\<lambda>(sg, es). \<lparr>hg_sg = sg, hg_modems = map snd es\<rparr>)
            (sort_key (\<lambda>(sg, es). or_minus sg) (group_all fst modems))\<rparr>)"

definition histogram_results where
  "histogram_results py_str env = answer_results histogram_filter_records (histogram_structured_results py_str env)"

section \<open>Pre-equalization\<close>

text \<open>\<open>isinstance(item, Real)\<close> and \<open>float(item)\<close>.\<close>

definition json_real :: "json \<Rightarrow> real option" where
  "json_real j =
     (case j of
        JFloat x \<Rightarrow> Some x
      | JInt n \<Rightarrow> Some (of_int n)
      | JBool b \<Rightarrow> Some (if b then 1 else 0)
      | _ \<Rightarrow> None)"

text \<open>\<open>_resolve_channel_estimate_magnitude_db\<close>: the member itself, or that of the carrier values; \<open>None\<close>
  unless it is a sequence of numbers.\<close>

definition magnitude_value :: "(string \<times> json) list \<Rightarrow> json option" where
  "magnitude_value d =
     (case json_get ''channel_estimate_magnitude_db'' d of
        Some v \<Rightarrow> Some v
      | None \<Rightarrow>
          (case json_get ''carrier_values'' d of
             Some (JDict c) \<Rightarrow> json_get ''channel_estimate_magnitude_db'' c
           | _ \<Rightarrow> None))"

definition magnitude_db :: "(string \<times> json) list option \<Rightarrow> real list option" where
  "magnitude_db p =
     (case p of
        None \<Rightarrow> None
      | Some d \<Rightarrow> (case magnitude_value d of Some (JList xs) \<Rightarrow> those (map json_real xs) | _ \<Rightarrow> None))"

text \<open>\<open>_normalize_pre_equalization_analysis_payload\<close>: the magnitudes in both places.\<close>

definition normalize_payload :: "(string \<times> json) list option \<Rightarrow> (string \<times> json) list option" where
  "normalize_payload p =
     (case p of
        None \<Rightarrow> None
      | Some d \<Rightarrow>
          (case magnitude_db (Some d) of
             None \<Rightarrow> Some d
           | Some xs \<Rightarrow>
               (let m = JList (map JFloat xs);
                    d' = AList.update ''channel_estimate_magnitude_db'' m d;
                    carriers = (case json_get ''carrier_values'' d' of Some (JDict c) \<Rightarrow> c | _ \<Rightarrow> [])
                in Some (AList.update ''carrier_values''
                     (JDict (AList.update ''channel_estimate_magnitude_db'' m carriers)) d'))))"

definition empty_payload_shape :: "(string \<times> json) list" where
  "empty_payload_shape =
     [(''channel_estimate_magnitude_db'', JNull),
      (''carrier_values'', JDict [(''channel_estimate_magnitude_db'', JNull)])]"

definition pre_equalization_analysis ::
  "results_request option \<Rightarrow> capture_status \<Rightarrow> string list \<Rightarrow> (string \<rightharpoonup> analysis_result) \<Rightarrow> analysis_shown" where
  "pre_equalization_analysis req status txs decoded =
     (if \<not> (case req of None \<Rightarrow> False | Some q \<Rightarrow> rr_basic q) then (None, None, None, None)
      else if status \<noteq> CaptureSucceeded \<or> txs = [] then (Some empty_payload_shape, None, None, None)
      else (case first_decoded decoded txs of
              None \<Rightarrow> (Some empty_payload_shape, None, None, None)
            | Some (tx, a) \<Rightarrow>
                (case normalize_payload (ar_payload a) of
                   None \<Rightarrow> (Some empty_payload_shape, ar_type a, ar_error a, Some tx)
                 | Some d \<Rightarrow> (Some d, ar_type a, ar_error a, Some tx))))"

text \<open>The member \<open>channel_estimate_magnitude_db\<close> of an entry's data is that of its analysis.\<close>

definition modem_magnitude :: "modem_view \<Rightarrow> real list option" where
  "modem_magnitude m = magnitude_db (mo_analysis m)"

definition pre_equalization_structured_results where
  "pre_equalization_structured_results py_str env rs req host =
     structured_results (plain_modem py_str (pre_equalization_analysis req) (decode_records env req rs)) rs host"

definition pre_equalization_results where
  "pre_equalization_results py_str env =
     answer_results pre_equalization_filter_records (pre_equalization_structured_results py_str env)"

section \<open>Lemmas\<close>

lemma those_reals [simp]: "those (map (json_real \<circ> JFloat) xs) = Some xs"
  by (induction xs) (simp_all add: json_real_def)

lemma plain_modem_simps:
  "fst (plain_modem py_str resolve decoded mac rs) = fst (view_modem_with py_str resolve decoded mac rs)"
  "mo_mac (snd (plain_modem py_str resolve decoded mac rs)) = mac"
  "mo_analysis (snd (plain_modem py_str resolve decoded mac rs)) = mo_analysis (snd (view_modem_with py_str resolve decoded mac rs))"
  "mo_status (snd (plain_modem py_str resolve decoded mac rs)) = mo_status (snd (view_modem_with py_str resolve decoded mac rs))"
  using view_modem_with_fields(1) [of py_str resolve decoded mac rs]
  by (auto simp: plain_modem_def map_prod_def split: prod.splits)

lemma view_modem_with_analysis:
  "\<exists>txs. mo_analysis (snd (view_modem_with py_str resolve decoded mac rs)) =
     fst (resolve (mo_status (snd (view_modem_with py_str resolve decoded mac rs))) txs decoded)"
  unfolding view_modem_with_def Let_def case_prod_beta by simp blast

lemma distinct_one:
  assumes "distinct xs" and "set xs = {a}"
  shows "xs = [a]"
proof -
  have "length xs = 1" using assms distinct_card [of xs] by simp
  with assms(2) show ?thesis by (cases xs) auto
qed

lemma grouped_pairs: "{(sg, m) |sg m. \<exists>es. (sg, es) \<in> set (group_all fst ms) \<and> m \<in> snd ` set es} = set ms"
proof -
  have "(\<exists>es. (sg, es) \<in> set (group_all fst ms) \<and> m \<in> snd ` set es) \<longleftrightarrow> (sg, m) \<in> set ms" for sg m
    by (force simp: in_group_all)
  then show ?thesis by simp
qed

text \<open>The groups and modems of structured results are the views of the modems' records.\<close>

lemma build_channels_pairs: "{((ch_sg c, ch_id c), m) |c m. c \<in> set (build_channels ms) \<and> m \<in> set (ch_modems c)} = set ms"
proof -
  have "\<exists>c. c \<in> set (build_channels ms) \<and> m \<in> set (ch_modems c) \<and> ch_sg c = sg \<and> ch_id c = ch"
    if "((sg, ch), m) \<in> set ms" for sg ch m
  proof -
    let ?es = "filter (\<lambda>x. fst x = (sg, ch)) ms"
    have "((sg, ch), ?es) \<in> set (group_all fst ms)" using that by (force simp: in_group_all)
    then have "\<lparr>ch_id = ch, ch_sg = sg, ch_modems = map snd ?es\<rparr> \<in> set (build_channels ms)"
      by (force simp: build_channels_def)
    moreover have "m \<in> set (map snd ?es)" using that by force
    ultimately show ?thesis by fastforce
  qed
  then show ?thesis using build_channels_modem [of _ ms] by fastforce
qed

lemma build_groups_members:
  "(\<exists>g. sg = gv_sg g \<and> g \<in> set (build_groups chs) \<and> c \<in> set (gv_channels g)) \<longleftrightarrow> c \<in> set chs \<and> sg = ch_sg c"
proof
  assume "\<exists>g. sg = gv_sg g \<and> g \<in> set (build_groups chs) \<and> c \<in> set (gv_channels g)"
  then show "c \<in> set chs \<and> sg = ch_sg c" by (auto dest: build_groups_channel)
next
  assume c: "c \<in> set chs \<and> sg = ch_sg c"
  let ?g = "\<lparr>gv_sg = sg, gv_channels = filter (\<lambda>x. ch_sg x = sg) chs\<rparr>"
  have "(sg, gv_channels ?g) \<in> set (group_all ch_sg chs)" using c by (simp add: in_group_all)
  then have "?g \<in> set (build_groups chs)" by (force simp: build_groups_def)
  with c have "sg = gv_sg ?g \<and> ?g \<in> set (build_groups chs) \<and> c \<in> set (gv_channels ?g)" by simp
  then show "\<exists>g. sg = gv_sg g \<and> g \<in> set (build_groups chs) \<and> c \<in> set (gv_channels g)" ..
qed

lemma build_groups_pairs:
  "{(gv_sg g, m) |g m. g \<in> set (build_groups chs) \<and> m \<in> set (shown [g])} =
     {(ch_sg c, m) |c m. c \<in> set chs \<and> m \<in> set (ch_modems c)}"
proof -
  have "(\<exists>g. sg = gv_sg g \<and> g \<in> set (build_groups chs) \<and> m \<in> set (shown [g])) \<longleftrightarrow>
      (\<exists>c. (\<exists>g. sg = gv_sg g \<and> g \<in> set (build_groups chs) \<and> c \<in> set (gv_channels g)) \<and> m \<in> set (ch_modems c))" for sg m
    by (auto simp: shown_def)
  then have "(\<exists>g. sg = gv_sg g \<and> g \<in> set (build_groups chs) \<and> m \<in> set (shown [g])) \<longleftrightarrow>
      (\<exists>c. sg = ch_sg c \<and> c \<in> set chs \<and> m \<in> set (ch_modems c))" for sg m
    unfolding build_groups_members by blast
  then have "(sg, m) \<in> {(gv_sg g, m) |g m. g \<in> set (build_groups chs) \<and> m \<in> set (shown [g])} \<longleftrightarrow>
      (sg, m) \<in> {(ch_sg c, m) |c m. c \<in> set chs \<and> m \<in> set (ch_modems c)}" for sg m
    by (simp only: mem_Collect_eq prod.inject) blast
  then show ?thesis by (simp only: set_eq_iff split_paired_All) blast
qed

lemma structured_pairs:
  "{(gv_sg g, m) |g m. g \<in> set (rv_groups (structured_results view rs host)) \<and> m \<in> set (shown [g])} =
     (\<lambda>(mac, mrs). (fst (fst (view mac mrs)), snd (view mac mrs))) ` set (group_all lk_mac rs)"
proof -
  let ?ms = "map (\<lambda>(mac, mrs). view mac mrs) (sort_key fst (group_all lk_mac rs))"
  have "{(ch_sg c, m) |c m. c \<in> set (build_channels ?ms) \<and> m \<in> set (ch_modems c)} = (\<lambda>(key, m). (fst key, m)) ` set ?ms"
    unfolding build_channels_pairs [of ?ms, symmetric] by force
  then show ?thesis
    unfolding structured_results_def Let_def results_view.simps build_groups_pairs
    by (simp add: image_image case_prod_beta)
qed

lemma structured_modem:
  assumes "m \<in> set (shown (rv_groups (structured_results view rs host)))"
  shows "\<exists>mac mrs. m = snd (view mac mrs)"
proof -
  let ?gs = "rv_groups (structured_results view rs host)"
  obtain g where "g \<in> set ?gs" "m \<in> set (shown [g])" using assms by (auto simp: shown_def)
  then have "(gv_sg g, m) \<in> {(gv_sg g, m) |g m. g \<in> set ?gs \<and> m \<in> set (shown [g])}" by blast
  then show ?thesis unfolding structured_pairs by (auto simp: case_prod_beta)
qed


lemma plain_once:
  "distinct (map mo_mac (shown (rv_groups (structured_results (plain_modem py_str resolve decoded) rs host)))) \<and>
   mo_mac ` set (shown (rv_groups (structured_results (plain_modem py_str resolve decoded) rs host))) = lk_mac ` set rs \<and>
   distinct (map gv_sg (rv_groups (structured_results (plain_modem py_str resolve decoded) rs host)))"
  by (rule structured_once) (rule plain_modem_simps(2))

section \<open>Properties\<close>

abbreviation (input) "MAG \<equiv> ''channel_estimate_magnitude_db''"
abbreviation (input) "CARRIERS \<equiv> ''carrier_values''"

lemma normalize_payload_facts:
  assumes "magnitude_db (Some d) = Some xs" and "normalize_payload (Some d) = Some d'"
  shows "json_get MAG d' = Some (JList (map JFloat xs))"
    and "\<exists>c. json_get CARRIERS d' = Some (JDict c) \<and> json_get MAG c = Some (JList (map JFloat xs))"
    and "k \<noteq> MAG \<Longrightarrow> k \<noteq> CARRIERS \<Longrightarrow> map_of d' k = map_of d k"
  using assms by (auto simp: normalize_payload_def Let_def json_get_update update_conv')

lemma normal_shape:
  assumes "normalize_payload (Some d) = Some d'"
  shows "magnitude_db (Some d') = magnitude_db (Some d) \<and> normalize_payload (Some d') = Some d' \<and>
    (\<forall>k. k \<noteq> MAG \<longrightarrow> k \<noteq> CARRIERS \<longrightarrow> map_of d' k = map_of d k) \<and>
    (\<forall>xs. magnitude_db (Some d) = Some xs \<longrightarrow> json_get MAG d' = Some (JList (map JFloat xs)) \<and>
       (\<exists>c. json_get CARRIERS d' = Some (JDict c) \<and> json_get MAG c = Some (JList (map JFloat xs))))"
proof (cases "magnitude_db (Some d)")
  case None
  then have "d' = d" using assms by (simp add: normalize_payload_def)
  with None show ?thesis by (simp add: normalize_payload_def)
next
  case (Some xs)
  note f = normalize_payload_facts [OF Some assms]
  obtain c where c: "json_get CARRIERS d' = Some (JDict c)" "json_get MAG c = Some (JList (map JFloat xs))"
    using f(2) by blast
  have m: "magnitude_db (Some d') = Some xs" using f(1) by (simp add: magnitude_db_def magnitude_value_def)
  have "AList.update MAG (JList (map JFloat xs)) d' = d'" "AList.update MAG (JList (map JFloat xs)) c = c"
    "AList.update CARRIERS (JDict c) d' = d'"
    using f(1) c by (simp_all add: update_same map_of_json_get)
  then have n: "normalize_payload (Some d') = Some d'"
    using c(1) by (simp only: normalize_payload_def option.case m Let_def json.case)
  have k: "\<forall>k. k \<noteq> MAG \<longrightarrow> k \<noteq> CARRIERS \<longrightarrow> map_of d' k = map_of d k" using f(3) by blast
  show ?thesis unfolding m Some using n k f(1) c by blast
qed

text \<open>The analysis of a pre-equalization capture is brought to one shape without changing what it says: the
  magnitudes are the same, they stand in both places, nothing else is touched, and an analysis already
  in that shape is left as it is.\<close>

theorem normalized_payload_shape:
  assumes "normalize_payload (Some d) = Some d'"
  shows "magnitude_db (Some d') = magnitude_db (Some d) \<and> normalize_payload (Some d') = Some d' \<and>
    (\<forall>k. k \<noteq> MAG \<longrightarrow> k \<noteq> CARRIERS \<longrightarrow> map_of d' k = map_of d k) \<and>
    (\<forall>xs. magnitude_db (Some d) = Some xs \<longrightarrow> json_get MAG d' = Some (JList (map JFloat xs)) \<and>
       (\<exists>c. json_get CARRIERS d' = Some (JDict c) \<and> json_get MAG c = Some (JList (map JFloat xs))))"
  using assms by (rule normal_shape)

lemma normalized_payload_shape_witness:
  "normalize_payload (Some [(''id'', JInt 7), (CARRIERS, JDict [(MAG, JList [JInt 1, JBool True])])]) =
     Some [(''id'', JInt 7), (CARRIERS, JDict [(MAG, JList [JFloat 1, JFloat 1])]), (MAG, JList [JFloat 1, JFloat 1])] \<and>
   magnitude_db (Some [(''id'', JInt 7), (CARRIERS, JDict [(MAG, JList [JFloat 1, JFloat 1])]), (MAG, JList [JFloat 1, JFloat 1])]) =
     Some [1, 1]"
proof -
  have n: "normalize_payload (Some [(''id'', JInt 7), (CARRIERS, JDict [(MAG, JList [JInt 1, JBool True])])]) =
     Some [(''id'', JInt 7), (CARRIERS, JDict [(MAG, JList [JFloat 1, JFloat 1])]), (MAG, JList [JFloat 1, JFloat 1])]"
    by (simp add: normalize_payload_def magnitude_db_def magnitude_value_def json_get_def json_real_def Let_def)
  from normalized_payload_shape [OF n] n show ?thesis
    by (simp add: magnitude_db_def magnitude_value_def json_get_def json_real_def)
qed

text \<open>When the basic analysis is asked for, every modem of the pre-equalization results has one, in the
  normal shape, also a modem that failed.\<close>

theorem pre_equalization_always_analysed:
  assumes "rr_basic q"
    and "m \<in> set (shown (rv_groups (pre_equalization_structured_results py_str env rs (Some q) host)))"
  shows "\<exists>d. mo_analysis m = Some d \<and> normalize_payload (Some d) = Some d"
proof -
  have e: "normalize_payload (Some empty_payload_shape) = Some empty_payload_shape"
    by (simp add: normalize_payload_def empty_payload_shape_def magnitude_db_def magnitude_value_def json_get_def)
  have n: "\<exists>d. fst (pre_equalization_analysis (Some q) status txs decoded) = Some d \<and> normalize_payload (Some d) = Some d"
    for status txs decoded
  proof (cases "status \<noteq> CaptureSucceeded \<or> txs = [] \<or> first_decoded decoded txs = None")
    case True
    with assms(1) e show ?thesis by (auto simp: pre_equalization_analysis_def)
  next
    case False
    then obtain tx a where a: "first_decoded decoded txs = Some (tx, a)" "status = CaptureSucceeded" "txs \<noteq> []" by auto
    show ?thesis
    proof (cases "normalize_payload (ar_payload a)")
      case None
      with a assms(1) e show ?thesis by (simp add: pre_equalization_analysis_def)
    next
      case (Some d)
      then obtain d0 where "ar_payload a = Some d0" by (cases "ar_payload a") (simp_all add: normalize_payload_def)
      with Some have "normalize_payload (Some d) = Some d" using normal_shape by metis
      with Some a assms(1) show ?thesis by (simp add: pre_equalization_analysis_def)
    qed
  qed
  obtain mac mrs where "m = snd (plain_modem py_str (pre_equalization_analysis (Some q)) (decode_records env (Some q) rs) mac mrs)"
    using structured_modem [OF assms(2) [unfolded pre_equalization_structured_results_def]] by blast
  then show ?thesis using n view_modem_with_analysis by (metis plain_modem_simps(3))
qed


text \<open>Every results endpoint that groups by channel lists each modem of the selected records once and each
  serving group once, whatever the analysis says.\<close>

theorem services_list_modems_once:
  fixes py_str and env :: "'m analysis_env" and rs req host
  assumes "view \<in> {fec_structured_results py_str env, modulation_profile_structured_results py_str env,
    channel_estimate_structured_results py_str env, constellation_structured_results py_str env,
    pre_equalization_structured_results py_str env}"
  defines "gs \<equiv> rv_groups (view rs req host)"
  shows "distinct (map mo_mac (shown gs)) \<and> mo_mac ` set (shown gs) = lk_mac ` set rs \<and> distinct (map gv_sg gs)"
proof -
  obtain resolve where "view rs req host = structured_results (plain_modem py_str resolve (decode_records env req rs)) rs host"
    using assms(1) by (auto simp: fec_structured_results_def modulation_profile_structured_results_def
        channel_estimate_structured_results_def constellation_structured_results_def
        pre_equalization_structured_results_def)
  then show ?thesis
    unfolding gs_def by (simp only: plain_once)
qed

lemma services_list_modems_once_witness:
  "map mo_mac (shown (rv_groups (fec_structured_results (\<lambda>_. '''') demo_analysis
     [demo_record 2 ''m1'' StatusSuccess '''', demo_record 2 ''m1'' StatusFailure ''x''] None None))) = [''m1'']"
proof -
  let ?rs = "[demo_record 2 ''m1'' StatusSuccess '''', demo_record 2 ''m1'' StatusFailure ''x'']"
  let ?gs = "rv_groups (fec_structured_results (\<lambda>_. '''') demo_analysis ?rs None None)"
  have "distinct (map mo_mac (shown ?gs)) \<and> mo_mac ` set (shown ?gs) = lk_mac ` set ?rs"
    using services_list_modems_once [of "fec_structured_results (\<lambda>_. '''') demo_analysis" "\<lambda>_. ''''" demo_analysis ?rs None None]
    by simp
  then have "distinct (map mo_mac (shown ?gs)) \<and> set (map mo_mac (shown ?gs)) = {''m1''}"
    by (simp add: demo_record_def)
  then show ?thesis by (intro distinct_one) simp_all
qed

text \<open>The histogram results are the channel results without the channels: the same modems with the same
  entries stand in the same serving groups.\<close>

theorem histogram_groups_as_channels:
  "{(hg_sg g, m) |g m. g \<in> set (hv_groups (histogram_structured_results py_str env rs req host)) \<and> m \<in> set (hg_modems g)} =
   {(gv_sg g, m) |g m. g \<in> set (rv_groups (fec_structured_results py_str env rs req host)) \<and> m \<in> set (shown [g])}"
proof -
  let ?view = "plain_modem py_str (resolve_analysis req) (decode_records env req rs)"
  let ?ms = "map (\<lambda>(mac, mrs). histogram_modem py_str req (decode_records env req rs) mac mrs) (sort_key fst (group_all lk_mac rs))"
  let ?gs = "hv_groups (histogram_structured_results py_str env rs req host)"
  have "(\<exists>g. sg = hg_sg g \<and> g \<in> set ?gs \<and> m \<in> set (hg_modems g)) \<longleftrightarrow>
      (\<exists>es. (sg, es) \<in> set (group_all fst ?ms) \<and> m \<in> snd ` set es)" for sg m
    by (force simp: histogram_structured_results_def Let_def)
  then have "{(hg_sg g, m) |g m. g \<in> set ?gs \<and> m \<in> set (hg_modems g)} =
      {(sg, m) |sg m. \<exists>es. (sg, es) \<in> set (group_all fst ?ms) \<and> m \<in> snd ` set es}"
    by (simp only: set_eq_iff split_paired_All mem_Collect_eq prod.inject) blast
  also have "\<dots> = set ?ms" by (rule grouped_pairs)
  also have "\<dots> = (\<lambda>(mac, mrs). (fst (fst (?view mac mrs)), snd (?view mac mrs))) ` set (group_all lk_mac rs)"
    by (simp add: histogram_modem_def case_prod_beta)
  finally show ?thesis unfolding fec_structured_results_def structured_pairs .
qed

text \<open>A channel selection hides every modem that did not get as far as a capture: the records of its
  eligibility and its precheck name no channel.\<close>

theorem channel_selection_hides_failures:
  assumes "base_worker we (service_run svc we py) fs item = Inr r" and "se_channels se \<noteq> []"
    and "sr_stage (last (wr_stages r)) \<noteq> CaptureStage"
  shows "fec_filter_records se (map (stage_linkage i item r) (wr_stages r)) = []"
proof -
  have "\<forall>s \<in> set (wr_stages r). sr_channel s = None"
    using assms(1)
  proof (cases rule: service.worker_cases)
    case ran
    then show ?thesis using assms(3) service.stage by fastforce
  qed (simp_all add: stage_of_def plain_stage_def)
  then show ?thesis
    using assms(2) by (simp add: fec_filter_records_def filter_records_by_channel_def stage_linkage_def filter_empty_conv)
qed

lemma channel_selection_hides_failures_witness:
  "\<exists>r. base_worker demo_worker (service_run FecSummaryService demo_worker demo_pypnm) demo_fs
      \<lparr>wi_operation = ''op1'', wi_sg = 2, wi_mac = ''m3'', wi_attempt = 0\<rparr> = Inr r \<and> wr_stages r \<noteq> [] \<and>
     fec_filter_records \<lparr>se_groups = [], se_channels = [33], se_macs = []\<rparr>
       (map (stage_linkage ''op1'' \<lparr>wi_operation = ''op1'', wi_sg = 2, wi_mac = ''m3'', wi_attempt = 0\<rparr> r) (wr_stages r)) = []"
proof -
  let ?item = "\<lparr>wi_operation = ''op1'', wi_sg = 2, wi_mac = ''m3'', wi_attempt = 0\<rparr>"
  let ?run = "service_run FecSummaryService demo_worker demo_pypnm"
  have "we_resolve demo_worker 2 ''m3'' = None"
    by (simp add: demo_worker_def resolve_modem_ip_def store_get_def two_groups_def group_entry_def demo_modem_def)
  then obtain r where r: "base_worker demo_worker ?run demo_fs ?item = Inr r"
    "wr_stages r = [stage_of EligibilityStage StatusInvalidParameters ''modem ip address missing'' (we_now demo_worker)]"
    by (simp add: base_worker_def demo_state)
  then have "sr_stage (last (wr_stages r)) \<noteq> CaptureStage" by (simp add: stage_of_def plain_stage_def)
  from channel_selection_hides_failures [OF r(1) _ this] r show ?thesis by simp
qed

lemma pre_equalization_always_analysed_witness:
  "\<exists>m \<in> set (shown (rv_groups (pre_equalization_structured_results (\<lambda>_. '''') demo_analysis
       [demo_record 2 ''m1'' StatusFailure ''timeout'']
       (Some \<lparr>rr_selection = \<lparr>se_groups = [], se_channels = [], se_macs = []\<rparr>, rr_basic = True\<rparr>) None))).
     mo_mac m = ''m1'' \<and> mo_analysis m \<noteq> None"
proof -
  let ?q = "\<lparr>rr_selection = \<lparr>se_groups = [], se_channels = [], se_macs = []\<rparr>, rr_basic = True\<rparr>"
  let ?rs = "[demo_record 2 ''m1'' StatusFailure ''timeout'']"
  let ?gs = "rv_groups (pre_equalization_structured_results (\<lambda>_. '''') demo_analysis ?rs (Some ?q) None)"
  have "mo_mac ` set (shown ?gs) = lk_mac ` set ?rs"
    unfolding pre_equalization_structured_results_def
    using plain_once by blast
  then have "''m1'' \<in> mo_mac ` set (shown ?gs)" by (simp only: list.set image_insert image_empty demo_record_def linkage.simps insertI1)
  then obtain m where m: "''m1'' = mo_mac m" "m \<in> set (shown ?gs)" by (rule imageE)
  have "rr_basic ?q" by simp
  then obtain d where "mo_analysis m = Some d" using pre_equalization_always_analysed [OF _ m(2)] by auto
  with m(1) show ?thesis by (intro bexI [OF _ m(2)]) simp
qed


end
