(* ===== verification/ConfigTree.thy ===== *)
theory ConfigTree
  imports ResultsView
begin

text \<open>
  The configuration file \<open>system.json\<close> as a tree: reading and writing at a path, creating what is missing
  as \<open>_ensure_nested_dict\<close> and \<open>_ensure_cmts_entry\<close> of \<open>tools/config_menu.py\<close> do, and the merge
  of a template, \<open>_merge_missing\<close> of \<open>tools/config_commands.py\<close> and \<open>tools/config_menu.py\<close>.
  A dictionary keeps the order of its items.
\<close>

section \<open>Paths\<close>

text \<open>A step goes to a member of an object, to the first element of a list, or to a later one; the program
  writes to members and first elements only.\<close>

datatype step = Key string | Head | Later nat

fun json_at :: "json \<Rightarrow> step list \<Rightarrow> json option" where
  "json_at j [] = Some j"
| "json_at (JDict d) (Key k # p) = (case map_of d k of None \<Rightarrow> None | Some v \<Rightarrow> json_at v p)"
| "json_at (JList (x # xs)) (Head # p) = json_at x p"
| "json_at (JList (x # xs)) (Later n # p) = (if n < length xs then json_at (xs ! n) p else None)"
| "json_at _ _ = None"

definition current_at :: "json \<Rightarrow> step list \<Rightarrow> json" where
  "current_at j p = (case json_at j p of None \<Rightarrow> JNull | Some v \<Rightarrow> v)"

text \<open>Two paths that part at some step, neither a prefix of the other.\<close>

fun apart :: "step list \<Rightarrow> step list \<Rightarrow> bool" where
  "apart (Key a # p) (Key b # q) = (a \<noteq> b \<or> apart p q)"
| "apart (Head # p) (Head # q) = apart p q"
| "apart (Head # p) (Later n # q) = True"
| "apart _ _ = False"

text \<open>The members of an object; anything else is replaced by an empty one.\<close>

definition as_dict :: "json \<Rightarrow> (string \<times> json) list" where
  "as_dict j = (case j of JDict d \<Rightarrow> d | _ \<Rightarrow> [])"

fun put_at :: "step list \<Rightarrow> (json \<Rightarrow> json) \<Rightarrow> json \<Rightarrow> json" where
  "put_at [] f j = f j"
| "put_at (Key k # p) f j =
     JDict (AList.update k (put_at p f (case map_of (as_dict j) k of None \<Rightarrow> JNull | Some v \<Rightarrow> v)) (as_dict j))"
| "put_at (Head # p) f j =
     (case j of JList (x # xs) \<Rightarrow> JList (put_at p f x # xs) | _ \<Rightarrow> JList [put_at p f JNull])"
| "put_at (Later n # p) f j = j"

definition ensure_dict :: "json \<Rightarrow> json" where
  "ensure_dict j = JDict (as_dict j)"

section \<open>Merging a template\<close>

function merge_missing :: "(string \<times> json) list \<Rightarrow> (string \<times> json) list \<Rightarrow> (string \<times> json) list" where
  "merge_missing target [] = target"
| "merge_missing target ((k, v) # template) =
     merge_missing
       (case map_of target k of
          None \<Rightarrow> AList.update k v target
        | Some (JDict a) \<Rightarrow> (case v of JDict b \<Rightarrow> AList.update k (JDict (merge_missing a b)) target | _ \<Rightarrow> target)
        | Some _ \<Rightarrow> target) template"
  by pat_completeness auto

termination by (relation "measure (size_list (size_prod (\<lambda>_. 0) size) \<circ> snd)") auto

text \<open>The value a member ends up with when both sides have it.\<close>

definition merge_value :: "json \<Rightarrow> json \<Rightarrow> json" where
  "merge_value t v =
     (case t of JDict a \<Rightarrow> (case v of JDict b \<Rightarrow> JDict (merge_missing a b) | _ \<Rightarrow> t) | _ \<Rightarrow> t)"

text \<open>What \<open>json.loads\<close> gives has no key twice.\<close>

fun json_wf :: "json \<Rightarrow> bool" where
  "json_wf (JDict d) = (distinct (map fst d) \<and> list_all (\<lambda>(k, v). json_wf v) d)"
| "json_wf (JList xs) = list_all json_wf xs"
| "json_wf _ = True"

section \<open>The laws of the store\<close>

locale config_store =
  fixes get :: "'d \<Rightarrow> step list \<Rightarrow> json option"
    and put :: "step list \<Rightarrow> (json \<Rightarrow> json) \<Rightarrow> 'd \<Rightarrow> 'd"
    and writable :: "step list \<Rightarrow> bool"
  assumes put_get: "writable p \<Longrightarrow> get (put p f d) p = Some (f (case get d p of None \<Rightarrow> JNull | Some v \<Rightarrow> v))"
    and put_other: "apart p q \<Longrightarrow> get (put p f d) q = get d q"
begin

text \<open>A sequence of writes changes nothing that is apart from all of them, and what was written last is
  there.\<close>

lemma puts_other: "(\<And>p f. (p, f) \<in> set ws \<Longrightarrow> apart p q) \<Longrightarrow> get (fold (\<lambda>(p, f). put p f) ws d) q = get d q"
proof (induction ws arbitrary: d)
  case (Cons w ws)
  obtain p f where w: "w = (p, f)" by (metis prod.exhaust)
  have "get (fold (\<lambda>(p, f). put p f) ws (put p f d)) q = get (put p f d) q"
    by (rule Cons.IH, rule Cons.prems) (rule list.set_intros(2))
  also have "\<dots> = get d q" using Cons.prems [of p f] by (intro put_other) (simp add: w)
  finally show ?case by (simp add: w)
qed simp

lemma puts_written:
  assumes "writable p" and "\<And>p' f'. (p', f') \<in> set ws \<Longrightarrow> apart p' p"
  shows "get (fold (\<lambda>(p, f). put p f) ((p, \<lambda>_. v) # ws) d) p = Some v"
  using assms by (simp add: puts_other put_get)

end

lemma json_at_JNull [simp]: "json_at JNull p = (if p = [] then Some JNull else None)"
  by (cases p) simp_all

lemma put_at_get:
  "list_all (\<lambda>s. \<forall>n. s \<noteq> Later n) p \<Longrightarrow> json_at (put_at p f j) p = Some (f (current_at j p))"
proof (induction p arbitrary: j)
  case (Cons s p)
  then have IH: "json_at (put_at p f x) p = Some (f (current_at x p))" for x by simp
  show ?case
  proof (cases s)
    case (Key k)
    then show ?thesis
      by (cases j) (auto simp: IH update_conv' current_at_def as_dict_def split: option.split)
  next
    case Head
    then show ?thesis by (cases j) (auto simp: IH current_at_def split: list.split)
  next
    case (Later n)
    with Cons.prems show ?thesis by simp
  qed
qed (simp add: current_at_def)

lemma put_at_other: "apart p q \<Longrightarrow> json_at (put_at p f j) q = json_at j q"
proof (induction p q arbitrary: j rule: apart.induct)
  case (1 a p b q)
  have n: "q \<noteq> []" if "apart p q" using that by (cases p) auto
  show ?case using 1 n by (cases j) (auto simp: update_conv' as_dict_def split: option.split)
next
  case (2 p q)
  have n: "q \<noteq> []" using 2 by (cases p) auto
  show ?case using 2 n by (cases j) (auto split: list.split)
next
  case (3 p n q)
  show ?case by (cases j) (auto split: list.split)
qed simp_all

interpretation tree: config_store json_at put_at "list_all (\<lambda>s. \<forall>n. s \<noteq> Later n)"
  by unfold_locales (simp_all add: put_at_get put_at_other current_at_def)

section \<open>The merge\<close>

lemma merge_step:
  "merge_missing t ((k, v) # m) =
     merge_missing (AList.update k (case map_of t k of None \<Rightarrow> v | Some x \<Rightarrow> merge_value x v) t) m"
  by (auto simp: merge_value_def update_same split: option.split json.split)

lemma merge_absent: "k \<notin> fst ` set m \<Longrightarrow> map_of (merge_missing t m) k = map_of t k"
  by (induction m arbitrary: t) (auto simp: merge_step update_conv' simp del: merge_missing.simps(2))

text \<open>Member by member: the target's value stands, a missing one comes from the template, and two objects
  are merged.\<close>

lemma merge_lookup:
  "distinct (map fst m) \<Longrightarrow> map_of (merge_missing t m) k =
     (case map_of t k of
        None \<Rightarrow> map_of m k
      | Some x \<Rightarrow> Some (case map_of m k of None \<Rightarrow> x | Some v \<Rightarrow> merge_value x v))"
proof (induction m arbitrary: t)
  case (Cons kv m)
  obtain k' v where kv: "kv = (k', v)" by (metis prod.exhaust)
  show ?case
  proof (cases "k = k'")
    case True
    then have "k \<notin> fst ` set m" using Cons.prems by (auto simp: kv)
    then show ?thesis
      by (simp add: kv merge_step merge_absent update_conv' True split: option.split del: merge_missing.simps(2))
  next
    case False
    with Cons show ?thesis
      unfolding kv by (simp add: merge_step update_conv' del: merge_missing.simps(2) split: option.split)
  qed
qed (simp split: option.split)

lemma merge_value_leaf: "(\<forall>d. x \<noteq> JDict d) \<Longrightarrow> merge_value x v = x"
  by (cases x) (simp_all add: merge_value_def)

lemma json_wf_member: "json_wf (JDict d) \<Longrightarrow> map_of d k = Some v \<Longrightarrow> json_wf v"
  by (auto simp: list_all_iff dest: map_of_SomeD)

text \<open>Merging into a target that already has every member changes nothing.\<close>

lemma merge_absorbed:
  "(\<And>k v. (k, v) \<in> set m \<Longrightarrow> \<exists>x. map_of t k = Some x \<and> merge_value x v = x) \<Longrightarrow> merge_missing t m = t"
proof (induction m)
  case (Cons kv m)
  obtain k v where kv: "kv = (k, v)" by (metis prod.exhaust)
  obtain x where x: "map_of t k = Some x" "merge_value x v = x" using Cons.prems [of k v] kv by auto
  have "merge_missing t (kv # m) = merge_missing t m"
    by (simp add: kv merge_step x update_same del: merge_missing.simps(2))
  also have "\<dots> = t" using Cons.prems by (intro Cons.IH) simp
  finally show ?case .
qed simp

lemma merge_value_self: "json_wf v \<Longrightarrow> merge_value v v = v"
proof (induction v)
  case (JDict d)
  have "merge_missing d d = d"
  proof (rule merge_absorbed)
    fix k v assume kv: "(k, v) \<in> set d"
    then have "map_of d k = Some v" using JDict.prems by simp
    moreover have "merge_value v v = v" using kv JDict by (fastforce simp: list_all_iff)
    ultimately show "\<exists>x. map_of d k = Some x \<and> merge_value x v = x" by blast
  qed
  then show ?case by (simp add: merge_value_def)
qed (simp_all add: merge_value_def)

lemma merge_value_again: "json_wf v \<Longrightarrow> merge_value (merge_value x v) v = merge_value x v"
proof (induction v arbitrary: x)
  case (JDict d)
  show ?case
  proof (cases "\<exists>a. x = JDict a")
    case True
    then obtain a where x: "x = JDict a" by blast
    have "merge_missing (merge_missing a d) d = merge_missing a d"
    proof (rule merge_absorbed)
      fix k v assume kv: "(k, v) \<in> set d"
      then have v: "map_of d k = Some v" "json_wf v" using JDict.prems by (auto simp: list_all_iff)
      have d: "distinct (map fst d)" using JDict.prems by simp
      have "merge_value (merge_value y v) v = merge_value y v" for y using kv JDict.IH v(2) by fastforce
      with v show "\<exists>x. map_of (merge_missing a d) k = Some x \<and> merge_value x v = x"
        by (auto simp: merge_lookup [OF d] merge_value_self split: option.split)
    qed
    then show ?thesis by (simp add: x merge_value_def)
  qed (simp add: merge_value_leaf)
qed (auto simp: merge_value_def split: json.split)

lemma merge_again: "json_wf (JDict m) \<Longrightarrow> merge_missing (merge_missing t m) m = merge_missing t m"
  using merge_value_again [of "JDict m" "JDict t"] by (simp add: merge_value_def)

lemma merge_keeps:
  "json_wf (JDict m) \<Longrightarrow> json_at (JDict t) p = Some v \<Longrightarrow> (\<forall>d. v \<noteq> JDict d) \<Longrightarrow> json_at (JDict (merge_missing t m)) p = Some v"
proof (induction p arbitrary: t m)
  case (Cons s q)
  then obtain k x where k: "s = Key k" "map_of t k = Some x" "json_at x q = Some v"
    by (cases s) (auto split: option.splits)
  have d: "distinct (map fst m)" using Cons.prems(1) by simp
  show ?case
  proof (cases "map_of m k")
    case None
    then show ?thesis by (simp add: k merge_lookup [OF d])
  next
    case (Some y)
    show ?thesis
    proof (cases "\<exists>a b. x = JDict a \<and> y = JDict b")
      case True
      then obtain a b where ab: "x = JDict a" "y = JDict b" by blast
      have "json_wf (JDict b)" using json_wf_member [OF Cons.prems(1) Some] ab by simp
      with Cons.IH k(3) Cons.prems(3) have "json_at (JDict (merge_missing a b)) q = Some v" by (simp add: ab)
      then show ?thesis by (simp add: k Some ab merge_lookup [OF d] merge_value_def)
    next
      case False
      then have "merge_value x y = x" by (auto simp: merge_value_def split: json.split)
      then show ?thesis by (simp add: k Some merge_lookup [OF d])
    qed
  qed
qed auto


text \<open>A value that the target does not have can only come from the template.\<close>

lemma merge_new:
  "json_wf (JDict m) \<Longrightarrow> json_at (JDict t) p = None \<Longrightarrow> json_at (JDict (merge_missing t m)) p \<in> {None, json_at (JDict m) p}"
proof (induction p arbitrary: t m)
  case (Cons s q)
  have d: "distinct (map fst m)" using Cons.prems(1) by simp
  show ?case
  proof (cases s)
    case (Key k)
    show ?thesis
    proof (cases "map_of t k")
      case None
      then show ?thesis by (simp add: Key merge_lookup [OF d] split: option.split)
    next
      case (Some x)
      with Cons.prems(2) have x: "json_at x q = None" by (simp add: Key)
      show ?thesis
      proof (cases "\<exists>a b. x = JDict a \<and> map_of m k = Some (JDict b)")
        case True
        then obtain a b where ab: "x = JDict a" "map_of m k = Some (JDict b)" by blast
        have "json_wf (JDict b)" using json_wf_member [OF Cons.prems(1) ab(2)] .
        with Cons.IH x have "json_at (JDict (merge_missing a b)) q \<in> {None, json_at (JDict b) q}" by (simp add: ab)
        then show ?thesis by (simp add: Key Some ab merge_lookup [OF d] merge_value_def)
      next
        case False
        then have "(case map_of m k of None \<Rightarrow> x | Some v \<Rightarrow> merge_value x v) = x"
          by (auto simp: merge_value_def split: option.split json.split)
        then show ?thesis using x by (simp add: Key Some merge_lookup [OF d])
      qed
    qed
  qed simp_all
qed simp

lemma merge_fills:
  assumes "json_wf (JDict m)" and "json_at (JDict m) (map Key ks) = Some v"
    and "json_at (JDict t) (map Key ks) = None"
    and "\<And>n x. n < length ks \<Longrightarrow> json_at (JDict t) (map Key (take n ks)) = Some x \<Longrightarrow> \<exists>d. x = JDict d"
  shows "json_at (JDict (merge_missing t m)) (map Key ks) = Some v"
  using assms
proof (induction ks arbitrary: t m)
  case (Cons k ks)
  have d: "distinct (map fst m)" using Cons.prems(1) by simp
  obtain y where y: "map_of m k = Some y" "json_at y (map Key ks) = Some v"
    using Cons.prems(2) by (auto split: option.splits)
  show ?case
  proof (cases "map_of t k")
    case None
    then show ?thesis by (simp add: y merge_lookup [OF d])
  next
    case (Some x)
    with Cons.prems(3) have x: "json_at x (map Key ks) = None" by simp
    then have ne: "ks \<noteq> []" by auto
    then obtain a where a: "x = JDict a" using Cons.prems(4) [of 1 x] Some by auto
    obtain b where b: "y = JDict b"
    proof -
      obtain k' ks' where "ks = k' # ks'" using ne by (cases ks) simp_all
      then show thesis using y(2) that by (cases y) auto
    qed
    have "json_at (JDict (merge_missing a b)) (map Key ks) = Some v"
    proof (rule Cons.IH)
      show "json_wf (JDict b)" using json_wf_member [OF Cons.prems(1) y(1)] b by simp
      show "json_at (JDict b) (map Key ks) = Some v" using y(2) b by simp
      show "json_at (JDict a) (map Key ks) = None" using x a by simp
      show "\<exists>d. u = JDict d" if "n < length ks" "json_at (JDict a) (map Key (take n ks)) = Some u" for n u
        using Cons.prems(4) [of "Suc n" u] that Some a by simp
    qed
    then show ?thesis by (simp add: Some y(1) a b merge_lookup [OF d] merge_value_def)
  qed
qed simp


section \<open>Properties\<close>

text \<open>Merging a template into a configuration keeps every value the user has set, fills in the values that are
  missing where nothing but objects stands above them, and a second merge changes nothing.\<close>

theorem template_merge:
  assumes "json_wf (JDict m)"
  shows "(\<forall>p v. json_at (JDict t) p = Some v \<longrightarrow> (\<forall>d. v \<noteq> JDict d) \<longrightarrow> json_at (JDict (merge_missing t m)) p = Some v) \<and>
    (\<forall>ks v. json_at (JDict m) (map Key ks) = Some v \<longrightarrow> json_at (JDict t) (map Key ks) = None \<longrightarrow>
       (\<forall>n x. n < length ks \<longrightarrow> json_at (JDict t) (map Key (take n ks)) = Some x \<longrightarrow> (\<exists>d. x = JDict d)) \<longrightarrow>
       json_at (JDict (merge_missing t m)) (map Key ks) = Some v) \<and>
    merge_missing (merge_missing t m) m = merge_missing t m"
  using merge_keeps [OF assms] merge_fills [OF assms] merge_again [OF assms] by blast

lemma template_merge_witness:
  "json_at (JDict (merge_missing [(''a'', JDict [(''x'', JInt 1)])] [(''a'', JDict [(''x'', JInt 2), (''y'', JInt 3)])]))
      [Key ''a'', Key ''x''] = Some (JInt 1) \<and>
   merge_missing [(''a'', JDict [(''x'', JInt 1)])] [(''a'', JDict [(''x'', JInt 2), (''y'', JInt 3)])] =
     [(''a'', JDict [(''x'', JInt 1), (''y'', JInt 3)])]"
proof -
  have "json_wf (JDict [(''a'', JDict [(''x'', JInt 2), (''y'', JInt 3)])])" by simp
  from template_merge [OF this, of "[(''a'', JDict [(''x'', JInt 1)])]"]
  have "json_at (JDict [(''a'', JDict [(''x'', JInt 1)])]) [Key ''a'', Key ''x''] = Some (JInt 1) \<longrightarrow>
      json_at (JDict (merge_missing [(''a'', JDict [(''x'', JInt 1)])] [(''a'', JDict [(''x'', JInt 2), (''y'', JInt 3)])]))
        [Key ''a'', Key ''x''] = Some (JInt 1)" by blast
  then show ?thesis by simp
qed


end
