(* ===== verification/SystemConfig.thy ===== *)
theory SystemConfig
  imports ConfigTree
begin

text \<open>
  The typed view of the configuration: \<open>CmtsSystemConfigSettings\<close> of
  \<open>config/system_config_settings.py\<close>.  \<open>cfg\<close> is what the configuration manager of the pypnm package
  returns for a sequence of keys (\<open>None\<close> for a missing one), \<open>py_str\<close> is \<open>str\<close> on a JSON
  value, \<open>decrypt\<close> is \<open>_maybe_decrypt\<close> of the pypnm package on a value and the keys it was read at, and
  \<open>pnm_dir\<close> the directory the package is configured with, as the components of its path.
\<close>

section \<open>Reading a value\<close>

definition nested_value :: "(string \<times> json) list \<Rightarrow> string list \<Rightarrow> json option" where
  "nested_value d ks = (case json_at (JDict d) (map Key ks) of Some JNull \<Rightarrow> None | r \<Rightarrow> r)"

definition nested_str :: "(json \<Rightarrow> string) \<Rightarrow> string \<Rightarrow> (string \<times> json) list \<Rightarrow> string list \<Rightarrow> string" where
  "nested_str py_str def d ks =
     (case nested_value d ks of
        None \<Rightarrow> def
      | Some (JStr s) \<Rightarrow> if s = '''' then def else s
      | Some v \<Rightarrow> py_str v)"

definition nested_int :: "int \<Rightarrow> (string \<times> json) list \<Rightarrow> string list \<Rightarrow> int" where
  "nested_int def d ks =
     (case nested_value d ks of None \<Rightarrow> def | Some v \<Rightarrow> (case json_int v of None \<Rightarrow> def | Some n \<Rightarrow> n))"

definition nested_bool :: "(json \<Rightarrow> string) \<Rightarrow> bool \<Rightarrow> (string \<times> json) list \<Rightarrow> string list \<Rightarrow> bool" where
  "nested_bool py_str def d ks =
     (case nested_value d ks of
        None \<Rightarrow> def
      | Some (JBool b) \<Rightarrow> b
      | Some v \<Rightarrow>
          (let text = py_lower (py_strip (case v of JStr s \<Rightarrow> s | _ \<Rightarrow> py_str v))
           in if text \<in> {''1'', ''true'', ''yes'', ''on''} then True
              else if text \<in> {''0'', ''false'', ''no'', ''off''} then False
              else def))"

section \<open>The CMTS entries\<close>

type_synonym config = "string list \<Rightarrow> json option"

definition cmts_entries :: "config \<Rightarrow> (string \<times> json) list list" where
  "cmts_entries cfg =
     (case cfg [''pypnm-cmts'', ''cmts''] of
        Some (JList xs) \<Rightarrow> List.map_filter (\<lambda>x. case x of JDict d \<Rightarrow> Some d | _ \<Rightarrow> None) xs
      | _ \<Rightarrow> [])"

definition cmts_entry :: "config \<Rightarrow> int \<Rightarrow> (string \<times> json) list" where
  "cmts_entry cfg i =
     (let es = cmts_entries cfg
      in if es = [] then [] else if i < 0 \<or> int (length es) \<le> i then [] else es ! nat i)"

definition cmts_count :: "config \<Rightarrow> int" where
  "cmts_count cfg = int (length (cmts_entries cfg))"

definition device_hostname :: "(json \<Rightarrow> string) \<Rightarrow> config \<Rightarrow> int \<Rightarrow> string" where
  "device_hostname py_str cfg i = nested_str py_str '''' (cmts_entry cfg i) [''device'', ''hostname'']"

definition device_model :: "(json \<Rightarrow> string) \<Rightarrow> config \<Rightarrow> int \<Rightarrow> string" where
  "device_model py_str cfg i = nested_str py_str '''' (cmts_entry cfg i) [''device'', ''model'']"

definition device_vendor :: "(json \<Rightarrow> string) \<Rightarrow> config \<Rightarrow> int \<Rightarrow> string" where
  "device_vendor py_str cfg i = nested_str py_str '''' (cmts_entry cfg i) [''device'', ''vendor'']"

definition snmp_timeout_seconds :: "config \<Rightarrow> int \<Rightarrow> int" where
  "snmp_timeout_seconds cfg i = nested_int 5 (cmts_entry cfg i) [''SNMP'', ''timeouts'', ''request_seconds'']"

definition snmp_timeout_retries :: "config \<Rightarrow> int \<Rightarrow> int" where
  "snmp_timeout_retries cfg i = nested_int 3 (cmts_entry cfg i) [''SNMP'', ''timeouts'', ''retries'']"

definition snmp_v2c_enabled :: "(json \<Rightarrow> string) \<Rightarrow> config \<Rightarrow> int \<Rightarrow> bool" where
  "snmp_v2c_enabled py_str cfg i = nested_bool py_str True (cmts_entry cfg i) [''SNMP'', ''version'', ''2c'', ''enable'']"

definition snmp_v2c_port :: "config \<Rightarrow> int \<Rightarrow> int" where
  "snmp_v2c_port cfg i = nested_int 161 (cmts_entry cfg i) [''SNMP'', ''version'', ''2c'', ''port'']"

definition snmp_v2c_read_community :: "(json \<Rightarrow> string) \<Rightarrow> config \<Rightarrow> int \<Rightarrow> string" where
  "snmp_v2c_read_community py_str cfg i =
     nested_str py_str '''' (cmts_entry cfg i) [''SNMP'', ''version'', ''2c'', ''read_community'']"

definition snmp_v2c_write_community :: "(json \<Rightarrow> string) \<Rightarrow> config \<Rightarrow> int \<Rightarrow> string" where
  "snmp_v2c_write_community py_str cfg i =
     nested_str py_str '''' (cmts_entry cfg i) [''SNMP'', ''version'', ''2c'', ''write_community'']"

definition snmp_v2c_retries :: "config \<Rightarrow> int \<Rightarrow> int" where
  "snmp_v2c_retries cfg i = nested_int 3 (cmts_entry cfg i) [''SNMP'', ''version'', ''2c'', ''retries'']"

definition snmp_v3_enabled :: "(json \<Rightarrow> string) \<Rightarrow> config \<Rightarrow> int \<Rightarrow> bool" where
  "snmp_v3_enabled py_str cfg i = nested_bool py_str False (cmts_entry cfg i) [''SNMP'', ''version'', ''3'', ''enable'']"

definition snmp_v3_port :: "config \<Rightarrow> int \<Rightarrow> int" where
  "snmp_v3_port cfg i = nested_int 161 (cmts_entry cfg i) [''SNMP'', ''version'', ''3'', ''port'']"

definition snmp_v3_username :: "(json \<Rightarrow> string) \<Rightarrow> config \<Rightarrow> int \<Rightarrow> string" where
  "snmp_v3_username py_str cfg i = nested_str py_str ''user'' (cmts_entry cfg i) [''SNMP'', ''version'', ''3'', ''username'']"

definition snmp_v3_security_level :: "(json \<Rightarrow> string) \<Rightarrow> config \<Rightarrow> int \<Rightarrow> string" where
  "snmp_v3_security_level py_str cfg i =
     nested_str py_str ''authPriv'' (cmts_entry cfg i) [''SNMP'', ''version'', ''3'', ''securityLevel'']"

definition snmp_v3_auth_protocol :: "(json \<Rightarrow> string) \<Rightarrow> config \<Rightarrow> int \<Rightarrow> string" where
  "snmp_v3_auth_protocol py_str cfg i =
     nested_str py_str ''SHA'' (cmts_entry cfg i) [''SNMP'', ''version'', ''3'', ''authProtocol'']"

definition snmp_v3_priv_protocol :: "(json \<Rightarrow> string) \<Rightarrow> config \<Rightarrow> int \<Rightarrow> string" where
  "snmp_v3_priv_protocol py_str cfg i =
     nested_str py_str ''AES'' (cmts_entry cfg i) [''SNMP'', ''version'', ''3'', ''privProtocol'']"

text \<open>A password is decrypted with the keys of its place in the file, the index among them.\<close>

definition snmp_v3_auth_password ::
  "(string \<Rightarrow> string list \<Rightarrow> string) \<Rightarrow> (json \<Rightarrow> string) \<Rightarrow> config \<Rightarrow> int \<Rightarrow> string" where
  "snmp_v3_auth_password decrypt py_str cfg i =
     decrypt (nested_str py_str '''' (cmts_entry cfg i) [''SNMP'', ''version'', ''3'', ''authPassword''])
       [''pypnm-cmts'', ''cmts'', int_str i, ''SNMP'', ''version'', ''3'', ''authPassword'']"

definition snmp_v3_priv_password ::
  "(string \<Rightarrow> string list \<Rightarrow> string) \<Rightarrow> (json \<Rightarrow> string) \<Rightarrow> config \<Rightarrow> int \<Rightarrow> string" where
  "snmp_v3_priv_password decrypt py_str cfg i =
     decrypt (nested_str py_str '''' (cmts_entry cfg i) [''SNMP'', ''version'', ''3'', ''privPassword''])
       [''pypnm-cmts'', ''cmts'', int_str i, ''SNMP'', ''version'', ''3'', ''privPassword'']"

definition snmp_v3_retries :: "config \<Rightarrow> int \<Rightarrow> int" where
  "snmp_v3_retries cfg i = nested_int 3 (cmts_entry cfg i) [''SNMP'', ''version'', ''3'', ''retries'']"

section \<open>The web service\<close>

definition root_section :: "config \<Rightarrow> (string \<times> json) list" where
  "root_section cfg = (case cfg [''pypnm-cmts''] of None \<Rightarrow> [] | Some j \<Rightarrow> as_dict j)"

definition guard_enabled :: "(json \<Rightarrow> string) \<Rightarrow> config \<Rightarrow> bool" where
  "guard_enabled py_str cfg = nested_bool py_str True (root_section cfg) [''service'', ''webService'', ''memoryGuard'', ''enabled'']"

definition guard_threshold_mb :: "config \<Rightarrow> int" where
  "guard_threshold_mb cfg =
     nested_int 1536 (root_section cfg) [''service'', ''webService'', ''memoryGuard'', ''rssRestartThresholdMb'']"

definition guard_poll_seconds :: "config \<Rightarrow> int" where
  "guard_poll_seconds cfg = nested_int 10 (root_section cfg) [''service'', ''webService'', ''memoryGuard'', ''pollSeconds'']"

definition guard_min_interval :: "config \<Rightarrow> int" where
  "guard_min_interval cfg =
     nested_int 300 (root_section cfg) [''service'', ''webService'', ''memoryGuard'', ''minRestartIntervalSeconds'']"

definition guard_max_per_hour :: "config \<Rightarrow> int" where
  "guard_max_per_hour cfg =
     nested_int 6 (root_section cfg) [''service'', ''webService'', ''memoryGuard'', ''maxRestartsPerHour'']"

section \<open>Directories\<close>

definition data_root_dir :: "string list \<Rightarrow> string list" where
  "data_root_dir pnm_dir = butlast pnm_dir"

definition coordination_state_dir :: "string list \<Rightarrow> string list" where
  "coordination_state_dir pnm_dir = data_root_dir pnm_dir @ [''coordination'']"

definition sg_operations_dir :: "string list \<Rightarrow> string list" where
  "sg_operations_dir pnm_dir = data_root_dir pnm_dir @ [''sg_operations'']"

text \<open>The configured text, which is expanded and parsed by the library, or the path below the coordination
  directory.\<close>

definition reload_sentinel_path :: "(json \<Rightarrow> string) \<Rightarrow> config \<Rightarrow> string list \<Rightarrow> string + string list" where
  "reload_sentinel_path py_str cfg pnm_dir =
     (let configured = nested_str py_str '''' (root_section cfg) [''service'', ''webService'', ''reloadSentinelPath'']
      in if py_strip configured \<noteq> '''' then Inl configured
         else Inr (coordination_state_dir pnm_dir @ [''webservice.reload'']))"

section \<open>Properties\<close>

text \<open>Elements of the CMTS list that are not objects are dropped before it is indexed, so behind one of them
  every entry is found one index earlier than it stands in the file, and its passwords are decrypted with
  the keys of the element before it.\<close>

theorem bad_entry_shifts_index:
  assumes "\<forall>d. x \<noteq> JDict d" and "cfg [''pypnm-cmts'', ''cmts''] = Some (JList (x # map JDict es))"
    and "i < length es"
  shows "cmts_entry cfg (int i) = es ! i \<and> (x # map JDict es) ! Suc i = JDict (es ! i) \<and> cmts_count cfg = int (length es) \<and>
    snmp_v3_auth_password decrypt py_str cfg (int i) =
      decrypt (nested_str py_str '''' (es ! i) [''SNMP'', ''version'', ''3'', ''authPassword''])
        [''pypnm-cmts'', ''cmts'', int_str (int i), ''SNMP'', ''version'', ''3'', ''authPassword'']"
proof -
  have "List.map_filter (\<lambda>x. case x of JDict d \<Rightarrow> Some d | _ \<Rightarrow> None) (map JDict es) = es"
    by (induction es) (simp_all add: List.map_filter_simps)
  then have e: "cmts_entries cfg = es"
    using assms(1,2) by (cases x) (simp_all add: cmts_entries_def List.map_filter_simps)
  moreover have "es \<noteq> []" using assms(3) by auto
  ultimately have "cmts_entry cfg (int i) = es ! i" using assms(3) by (simp add: cmts_entry_def Let_def)
  with e assms(3) show ?thesis by (simp add: cmts_count_def snmp_v3_auth_password_def)
qed

lemma bad_entry_shifts_index_witness:
  "let cfg = (\<lambda>ks. if ks = [''pypnm-cmts'', ''cmts''] then Some (JList [JNull, JDict [(''device'', JDict [(''model'', JStr ''E6'')])]]) else None)
   in device_model (\<lambda>_. '''') cfg 0 = ''E6'' \<and>
      snmp_v3_auth_password (\<lambda>v ks. ks ! 2) (\<lambda>_. '''') cfg 0 = int_str 0"
proof -
  let ?cfg = "\<lambda>ks. if ks = [''pypnm-cmts'', ''cmts''] then Some (JList [JNull, JDict [(''device'', JDict [(''model'', JStr ''E6'')])]]) else None"
  note w = bad_entry_shifts_index [of JNull ?cfg "[[(''device'', JDict [(''model'', JStr ''E6'')])]]" 0 "\<lambda>v ks. ks ! 2" "\<lambda>_. ''''"]
  have "cmts_entry ?cfg 0 = [(''device'', JDict [(''model'', JStr ''E6'')])] \<and>
      snmp_v3_auth_password (\<lambda>v ks. ks ! 2) (\<lambda>_. '''') ?cfg 0 = int_str 0"
    using w by simp
  then show ?thesis
    by (simp add: device_model_def nested_str_def nested_value_def)
qed

text \<open>A number is read as it is written: nothing bounds a port, a timeout or a retry count.\<close>

theorem numbers_unchecked:
  assumes "cmts_entry cfg i = [(''SNMP'', JDict [(''timeouts'', JDict [(''request_seconds'', JInt n)]),
    (''version'', JDict [(''2c'', JDict [(''port'', JInt p)])])])]"
  shows "snmp_timeout_seconds cfg i = n \<and> snmp_v2c_port cfg i = p"
  by (simp add: snmp_timeout_seconds_def snmp_v2c_port_def assms nested_int_def nested_value_def json_int_def)


lemma numbers_unchecked_witness:
  "let cfg = (\<lambda>ks. if ks = [''pypnm-cmts'', ''cmts''] then Some (JList [JDict [(''SNMP'', JDict
       [(''timeouts'', JDict [(''request_seconds'', JInt (- 5))]), (''version'', JDict [(''2c'', JDict [(''port'', JInt 70000)])])])]]) else None)
   in snmp_timeout_seconds cfg 0 = - 5 \<and> snmp_v2c_port cfg 0 = 70000"
  unfolding Let_def
  by (rule numbers_unchecked) (simp add: cmts_entry_def cmts_entries_def List.map_filter_simps)

end
