(* ===== verification/ConfigMenu.thy ===== *)
theory ConfigMenu
  imports SystemConfig Settings
begin

text \<open>
  The interactive menu of \<open>tools/config_menu.py\<close> that edits \<open>system.json\<close>.  The console is the list of
  what it delivers, an empty list the end of the input.  The external scripts, the template on disk and the
  address parser of the pypnm package are inputs; what is printed is left out.
\<close>

section \<open>The console\<close>

datatype input = Line string | Interrupt | EndOfFile

text \<open>\<open>input(...).strip()\<close> of a prompt, \<open>None\<close> when it raises.\<close>

definition prompt_str :: "input list \<Rightarrow> (string \<times> input list) option" where
  "prompt_str ins = (case ins of Line s # r \<Rightarrow> Some (py_strip s, r) | _ \<Rightarrow> None)"

definition prompt_int :: "input list \<Rightarrow> (int option \<times> input list) option" where
  "prompt_int ins =
     (case prompt_str ins of None \<Rightarrow> None | Some (v, r) \<Rightarrow> Some (if v = '''' then None else py_int v, r))"

definition prompt_bool :: "input list \<Rightarrow> (bool option \<times> input list) option" where
  "prompt_bool ins =
     (case prompt_str ins of
        None \<Rightarrow> None
      | Some (v, r) \<Rightarrow>
          (let t = py_lower v
           in Some (if t \<in> {''true'', ''t'', ''yes'', ''y'', ''1''} then Some True
                    else if t \<in> {''false'', ''f'', ''no'', ''n'', ''0''} then Some False else None, r)))"

section \<open>The state\<close>

text \<open>The configuration in memory and on disk.  The scripts that exist, with their effect on the file, and the
  template that can be read.\<close>

record menu_state =
  ms_data :: json
  ms_disk :: json

record menu_env =
  me_str :: "json \<Rightarrow> string"
  me_inet :: "string \<Rightarrow> bool"
  me_cm_script :: "(json \<Rightarrow> json) option"
  me_retrieval_script :: "(json \<Rightarrow> int \<times> json) option"
  me_template :: "(string \<times> json) list option"

datatype outcome = Ongoing menu_state "input list" | Raised menu_state

fun outcome_state :: "outcome \<Rightarrow> menu_state" where
  "outcome_state (Ongoing st r) = st"
| "outcome_state (Raised st) = st"

definition merge_template :: "menu_env \<Rightarrow> json \<Rightarrow> json" where
  "merge_template env j =
     (case me_template env of
        None \<Rightarrow> j
      | Some m \<Rightarrow> (case j of JDict d \<Rightarrow> JDict (merge_missing d m) | _ \<Rightarrow> j))"

definition load_config :: "menu_env \<Rightarrow> menu_state \<Rightarrow> menu_state" where
  "load_config env st = st\<lparr>ms_data := merge_template env (ms_disk st)\<rparr>"

definition save_config :: "menu_state \<Rightarrow> menu_state" where
  "save_config st = st\<lparr>ms_disk := ms_data st\<rparr>"

section \<open>The paths\<close>

definition entry_path :: "step list" where
  "entry_path = [Key ''pypnm-cmts'', Key ''cmts'', Head]"

definition hostname_path :: "step list" where
  "hostname_path = entry_path @ [Key ''device'', Key ''hostname'']"

definition v2c_path :: "step list" where
  "v2c_path = [Key ''SNMP'', Key ''version'', Key ''2c'']"

definition adapter_path :: "step list" where
  "adapter_path = [Key ''CmtsOrchestrator'', Key ''adapter'']"

definition tftp_path :: "step list" where
  "tftp_path = [Key ''PnmBulkDataTransfer'', Key ''tftp'']"

definition method_path :: "step list" where
  "method_path = [Key ''PnmFileRetrieval'', Key ''retrieval_method'']"

definition set_member :: "step list \<Rightarrow> string \<Rightarrow> json \<Rightarrow> json \<Rightarrow> json" where
  "set_member p k v j = put_at (p @ [Key k]) (\<lambda>_. v) j"

definition member_of :: "step list \<Rightarrow> string \<Rightarrow> json \<Rightarrow> json option" where
  "member_of p k j = json_at j (p @ [Key k])"

section \<open>The edits\<close>

definition set_text :: "step list \<Rightarrow> string \<Rightarrow> string \<Rightarrow> json \<Rightarrow> json" where
  "set_text p k s j = (if s \<noteq> '''' then set_member p k (JStr s) j else j)"

definition update_adapter :: "string option \<Rightarrow> string option \<Rightarrow> string option \<Rightarrow> json \<Rightarrow> json" where
  "update_adapter host community write j =
     (let put = (\<lambda>k v j. case v of None \<Rightarrow> j | Some s \<Rightarrow> if py_strip s \<noteq> '''' then set_member adapter_path k (JStr s) j else j)
      in put ''write_community'' write (put ''community'' community (put ''hostname'' host (put_at adapter_path ensure_dict j))))"

definition edit_cmts_hostname :: "menu_env \<Rightarrow> menu_state \<Rightarrow> input list \<Rightarrow> outcome" where
  "edit_cmts_hostname env st ins =
     (case ms_data st of
        JDict d \<Rightarrow>
          (let j = put_at (entry_path @ [Key ''device'']) ensure_dict (JDict d)
           in case prompt_str ins of
                None \<Rightarrow> Raised (st\<lparr>ms_data := j\<rparr>)
              | Some (h, r) \<Rightarrow>
                  Ongoing (save_config (st\<lparr>ms_data :=
                    if h \<noteq> '''' then update_adapter (Some h) None None (set_member (entry_path @ [Key ''device'']) ''hostname'' (JStr h) j)
                    else j\<rparr>)) r)
      | _ \<Rightarrow> Raised st)"

definition edit_cm_snmp :: "menu_env \<Rightarrow> menu_state \<Rightarrow> input list \<Rightarrow> outcome" where
  "edit_cm_snmp env st ins =
     (case ms_data st of
        JDict d \<Rightarrow>
          (let j = put_at v2c_path ensure_dict (JDict d)
           in case prompt_str ins of
                None \<Rightarrow> Raised (st\<lparr>ms_data := j\<rparr>)
              | Some (rd, r) \<Rightarrow>
                  (case prompt_str r of
                     None \<Rightarrow> Raised (st\<lparr>ms_data := j\<rparr>)
                   | Some (wr, r') \<Rightarrow>
                       Ongoing (save_config (st\<lparr>ms_data :=
                         set_text v2c_path ''write_community'' wr (set_text v2c_path ''read_community'' rd j)\<rparr>)) r'))
      | _ \<Rightarrow> Raised st)"

text \<open>\<open>str\<close> of a member, with a default for a missing one; and a member that is not null.\<close>

definition member_str :: "menu_env \<Rightarrow> step list \<Rightarrow> string \<Rightarrow> json \<Rightarrow> string" where
  "member_str env p k j = (case member_of p k j of None \<Rightarrow> '''' | Some (JStr s) \<Rightarrow> s | Some v \<Rightarrow> me_str env v)"

definition member_text :: "menu_env \<Rightarrow> step list \<Rightarrow> string \<Rightarrow> json \<Rightarrow> string option" where
  "member_text env p k j =
     (case member_of p k j of None \<Rightarrow> None | Some JNull \<Rightarrow> None | Some (JStr s) \<Rightarrow> Some s | Some v \<Rightarrow> Some (me_str env v))"

definition edit_cmts_snmp :: "menu_env \<Rightarrow> menu_state \<Rightarrow> input list \<Rightarrow> outcome" where
  "edit_cmts_snmp env st ins =
     (case ms_data st of
        JDict d \<Rightarrow>
          (let v2c = entry_path @ v2c_path;
               j = put_at v2c ensure_dict (put_at (entry_path @ [Key ''device'']) ensure_dict (JDict d))
           in case prompt_str ins of
                None \<Rightarrow> Raised (st\<lparr>ms_data := j\<rparr>)
              | Some (rd, r) \<Rightarrow>
                  (case prompt_str r of
                     None \<Rightarrow> Raised (st\<lparr>ms_data := j\<rparr>)
                   | Some (wr, r') \<Rightarrow>
                       (let j' = set_text v2c ''write_community'' wr (set_text v2c ''read_community'' rd j)
                        in Ongoing (save_config (st\<lparr>ms_data :=
                             update_adapter (Some (member_str env (entry_path @ [Key ''device'']) ''hostname'' j'))
                               (member_text env v2c ''read_community'' j') (member_text env v2c ''write_community'' j') j'\<rparr>)) r')))
      | _ \<Rightarrow> Raised st)"

definition edit_tftp :: "menu_env \<Rightarrow> menu_state \<Rightarrow> input list \<Rightarrow> outcome" where
  "edit_tftp env st ins =
     (case ms_data st of
        JDict d \<Rightarrow>
          (let j = put_at tftp_path ensure_dict (JDict d)
           in case prompt_str ins of
                None \<Rightarrow> Raised (st\<lparr>ms_data := j\<rparr>)
              | Some (a, r) \<Rightarrow>
                  if a \<noteq> '''' \<and> \<not> me_inet env a then Raised (st\<lparr>ms_data := j\<rparr>)
                  else Ongoing (save_config (st\<lparr>ms_data := set_text tftp_path ''ip_v4'' a j\<rparr>)) r)
      | _ \<Rightarrow> Raised st)"

section \<open>The retrieval method\<close>

datatype field = TextField string | IntField string | BoolField string

definition method_fields :: "string \<Rightarrow> field list" where
  "method_fields m =
     (if m = ''local'' then [TextField ''src_dir'']
      else if m = ''tftp'' then [TextField ''host'', IntField ''port'', IntField ''timeout'', TextField ''remote_dir'']
      else if m = ''ftp'' then [TextField ''host'', IntField ''port'', IntField ''timeout'', BoolField ''tls'', TextField ''user'', TextField ''remote_dir'']
      else if m = ''sftp'' then [TextField ''host'', IntField ''port'', TextField ''user'', TextField ''private_key_path'', TextField ''remote_dir'']
      else if m = ''http'' then [TextField ''base_url'', IntField ''port'']
      else if m = ''https'' then [TextField ''base_url'', IntField ''port'']
      else [])"

definition retrieval_methods :: "string list" where
  "retrieval_methods = [''local'', ''tftp'', ''ftp'', ''sftp'', ''http'', ''https'']"

definition ask_field :: "field \<Rightarrow> input list \<Rightarrow> ((string \<times> json option) \<times> input list) option" where
  "ask_field f ins =
     (case f of
        TextField k \<Rightarrow> map_option (\<lambda>(v, r). ((k, if v = '''' then None else Some (JStr v)), r)) (prompt_str ins)
      | IntField k \<Rightarrow> map_option (\<lambda>(v, r). ((k, map_option JInt v), r)) (prompt_int ins)
      | BoolField k \<Rightarrow> map_option (\<lambda>(v, r). ((k, map_option JBool v), r)) (prompt_bool ins))"

text \<open>All the questions of a method come before the first member is written.\<close>

fun ask_fields :: "field list \<Rightarrow> input list \<Rightarrow> ((string \<times> json option) list \<times> input list) option" where
  "ask_fields [] ins = Some ([], ins)"
| "ask_fields (f # fs) ins =
     (case ask_field f ins of
        None \<Rightarrow> None
      | Some (kv, r) \<Rightarrow> map_option (\<lambda>(kvs, r'). (kv # kvs, r')) (ask_fields fs r))"

definition set_members :: "step list \<Rightarrow> (string \<times> json option) list \<Rightarrow> json \<Rightarrow> json" where
  "set_members p kvs j = fold (\<lambda>(k, v) j. case v of None \<Rightarrow> j | Some x \<Rightarrow> set_member p k x j) kvs j"

definition edit_retrieval_method :: "menu_env \<Rightarrow> menu_state \<Rightarrow> input list \<Rightarrow> outcome" where
  "edit_retrieval_method env st ins =
     (case me_retrieval_script env of
        Some script \<Rightarrow>
          (let (code, disk) = script (ms_disk st); st' = st\<lparr>ms_disk := disk\<rparr>
           in Ongoing (if code = 0 then load_config env st' else st') ins)
      | None \<Rightarrow>
          (case ms_data st of
             JDict d \<Rightarrow>
               (let j = put_at method_path ensure_dict (JDict d)
                in case prompt_str ins of
                     None \<Rightarrow> Raised (st\<lparr>ms_data := j\<rparr>)
                   | Some (m, r) \<Rightarrow>
                       if m = '''' \<or> m \<notin> set retrieval_methods then Ongoing (st\<lparr>ms_data := j\<rparr>) r
                       else (let block = method_path @ [Key ''methods'', Key m];
                                 j' = put_at block ensure_dict (set_member method_path ''method'' (JStr m) j)
                             in case ask_fields (method_fields m) r of
                                  None \<Rightarrow> Raised (st\<lparr>ms_data := j'\<rparr>)
                                | Some (kvs, r') \<Rightarrow> Ongoing (save_config (st\<lparr>ms_data := set_members block kvs j'\<rparr>)) r'))
           | _ \<Rightarrow> Raised st))"

text \<open>The modem menu is the package's own script; the file is not read again after it.\<close>

definition run_cm_menu :: "menu_env \<Rightarrow> menu_state \<Rightarrow> menu_state" where
  "run_cm_menu env st = (case me_cm_script env of None \<Rightarrow> st | Some script \<Rightarrow> st\<lparr>ms_disk := script (ms_disk st)\<rparr>)"

subsection \<open>No edit gives back input\<close>

lemma prompt_str_shorter: "prompt_str ins = Some (v, r) \<Longrightarrow> length r < length ins"
  by (auto simp: prompt_str_def split: list.splits input.splits)

lemma ask_field_shorter: "ask_field f ins = Some (kv, r) \<Longrightarrow> length r < length ins"
  by (auto simp: ask_field_def prompt_int_def prompt_bool_def Let_def dest: prompt_str_shorter
      split: field.splits option.splits)

lemma ask_fields_shorter: "ask_fields fs ins = Some (kvs, r) \<Longrightarrow> length r \<le> length ins"
  by (induction fs arbitrary: ins kvs r) (fastforce split: option.splits dest: ask_field_shorter)+

lemmas shorter_rules = prompt_str_shorter ask_fields_shorter

lemma edits_shorter:
  "edit_cmts_hostname env st ins = Ongoing st' r \<Longrightarrow> length r \<le> length ins"
  "edit_cm_snmp env st ins = Ongoing st' r \<Longrightarrow> length r \<le> length ins"
  "edit_cmts_snmp env st ins = Ongoing st' r \<Longrightarrow> length r \<le> length ins"
  "edit_tftp env st ins = Ongoing st' r \<Longrightarrow> length r \<le> length ins"
  "edit_retrieval_method env st ins = Ongoing st' r \<Longrightarrow> length r \<le> length ins"
  by (auto simp: edit_cmts_hostname_def edit_cm_snmp_def edit_cmts_snmp_def edit_tftp_def edit_retrieval_method_def Let_def
      dest!: shorter_rules split: json.splits option.splits if_splits prod.splits)

section \<open>The menus\<close>

text \<open>A choice: nothing at the end of the input, \<open>None\<close> after an interrupt, which only shows the menu again.\<close>

definition read_choice :: "input list \<Rightarrow> string option \<times> input list" where
  "read_choice ins =
     (case ins of
        [] \<Rightarrow> (Some '''', [])
      | Line s # r \<Rightarrow> (Some (py_lower (py_strip s)), r)
      | Interrupt # r \<Rightarrow> (None, r)
      | EndOfFile # r \<Rightarrow> (Some '''', r))"

lemma read_choice_shorter: "read_choice ins = (c, r) \<Longrightarrow> c \<noteq> Some '''' \<Longrightarrow> length r < length ins"
  by (auto simp: read_choice_def split: list.splits input.splits)

function edit_snmp_menu :: "menu_env \<Rightarrow> menu_state \<Rightarrow> input list \<Rightarrow> outcome" where
  "edit_snmp_menu env st ins =
     (case read_choice ins of
        (None, r) \<Rightarrow> edit_snmp_menu env st r
      | (Some c, r) \<Rightarrow>
          if c \<in> {'''', ''b'', ''back''} then Ongoing st r
          else if c = ''1'' then
            (case edit_cm_snmp env st r of Raised st' \<Rightarrow> Raised st' | Ongoing st' r' \<Rightarrow> edit_snmp_menu env st' r')
          else if c = ''2'' then
            (case edit_cmts_snmp env st r of Raised st' \<Rightarrow> Raised st' | Ongoing st' r' \<Rightarrow> edit_snmp_menu env st' r')
          else edit_snmp_menu env st r)"
  by pat_completeness auto

termination
  by (relation "measure (\<lambda>(env, st, ins). length ins)")
     (auto dest!: read_choice_shorter [OF sym] edits_shorter)

declare edit_snmp_menu.simps [simp del]

lemma edit_snmp_menu_shorter: "edit_snmp_menu env st ins = Ongoing st' r \<Longrightarrow> length r \<le> length ins"
proof (induction env st ins arbitrary: st' r rule: edit_snmp_menu.induct)
  case (1 env st ins)
  obtain c r0 where c: "read_choice ins = (c, r0)" by (metis prod.exhaust)
  have le: "length r0 \<le> length ins" using c by (auto simp: read_choice_def split: list.splits input.splits)
  show ?case
  proof (cases "c = None \<or> c = Some '''' \<or> c = Some ''b'' \<or> c = Some ''back''")
    case True
    then show ?thesis
      using "1.prems" "1.IH"(1) [of c r0] c le by (subst (asm) edit_snmp_menu.simps) (fastforce split: if_splits)
  next
    case False
    then obtain x where x: "c = Some x" "x \<notin> {'''', ''b'', ''back''}" by auto
    have m: "edit_snmp_menu env st ins =
        (if x = ''1'' then (case edit_cm_snmp env st r0 of Raised s \<Rightarrow> Raised s | Ongoing s r' \<Rightarrow> edit_snmp_menu env s r')
         else if x = ''2'' then (case edit_cmts_snmp env st r0 of Raised s \<Rightarrow> Raised s | Ongoing s r' \<Rightarrow> edit_snmp_menu env s r')
         else edit_snmp_menu env st r0)"
      using x by (subst edit_snmp_menu.simps) (simp add: c)
    show ?thesis
      using "1.prems" "1.IH"(2-4) [OF _ x(1) x(2)] c le x edits_shorter(2,3)
      unfolding m by (fastforce split: if_splits outcome.splits)
  qed
qed

function run_cmts_menu :: "menu_env \<Rightarrow> menu_state \<Rightarrow> input list \<Rightarrow> outcome" where
  "run_cmts_menu env st ins =
     (case read_choice ins of
        (None, r) \<Rightarrow> run_cmts_menu env st r
      | (Some c, r) \<Rightarrow>
          if c \<in> {'''', ''b'', ''back''} then Ongoing st r
          else
            (case (if c = ''1'' then edit_cmts_hostname env st r
                   else if c = ''2'' then edit_snmp_menu env st r
                   else if c = ''3'' then edit_tftp env st r
                   else if c = ''4'' then edit_retrieval_method env st r
                   else Ongoing st r) of
               Raised st' \<Rightarrow> Raised st'
             | Ongoing st' r' \<Rightarrow> run_cmts_menu env st' r'))"
  by pat_completeness auto

termination
  by (relation "measure (\<lambda>(env, st, ins). length ins)")
     (auto dest!: read_choice_shorter [OF sym] edits_shorter edit_snmp_menu_shorter split: if_splits)

declare run_cmts_menu.simps [simp del]


lemma run_cmts_menu_shorter: "run_cmts_menu env st ins = Ongoing st' r \<Longrightarrow> length r \<le> length ins"
proof (induction env st ins arbitrary: st' r rule: run_cmts_menu.induct)
  case (1 env st ins)
  obtain c r0 where c: "read_choice ins = (c, r0)" by (metis prod.exhaust)
  have le: "length r0 \<le> length ins" using c by (auto simp: read_choice_def split: list.splits input.splits)
  show ?case
  proof (cases "c = None \<or> c = Some '''' \<or> c = Some ''b'' \<or> c = Some ''back''")
    case True
    then show ?thesis
      using "1.prems" "1.IH"(1) [of c r0] c le by (subst (asm) run_cmts_menu.simps) (fastforce split: if_splits)
  next
    case False
    then obtain x where x: "c = Some x" "x \<notin> {'''', ''b'', ''back''}" by auto
    define out where "out = (if x = ''1'' then edit_cmts_hostname env st r0 else if x = ''2'' then edit_snmp_menu env st r0
      else if x = ''3'' then edit_tftp env st r0 else if x = ''4'' then edit_retrieval_method env st r0 else Ongoing st r0)"
    have m: "run_cmts_menu env st ins = (case out of Raised s \<Rightarrow> Raised s | Ongoing s r' \<Rightarrow> run_cmts_menu env s r')"
      unfolding out_def using x by (subst run_cmts_menu.simps) (simp add: c)
    then obtain s r1 where s: "out = Ongoing s r1" "run_cmts_menu env s r1 = Ongoing st' r"
      using "1.prems" by (auto split: outcome.splits)
    have "length r \<le> length r1"
      using "1.IH"(2) [OF _ x(1) x(2), of r0] c s unfolding out_def by auto
    moreover have "length r1 \<le> length r0"
      using s(1) edits_shorter edit_snmp_menu_shorter unfolding out_def by (auto split: if_splits)
    ultimately show ?thesis using le by simp
  qed
qed

function run_menu :: "menu_env \<Rightarrow> menu_state \<Rightarrow> input list \<Rightarrow> outcome" where
  "run_menu env st ins =
     (case read_choice ins of
        (None, r) \<Rightarrow> run_menu env st r
      | (Some c, r) \<Rightarrow>
          if c \<in> {'''', ''q'', ''quit'', ''x''} then Ongoing st r
          else
            (case (if c = ''1'' then Ongoing (run_cm_menu env st) r
                   else if c = ''2'' then run_cmts_menu env st r
                   else Ongoing st r) of
               Raised st' \<Rightarrow> Raised st'
             | Ongoing st' r' \<Rightarrow> run_menu env st' r'))"
  by pat_completeness auto

termination
  by (relation "measure (\<lambda>(env, st, ins). length ins)")
     (auto dest!: read_choice_shorter [OF sym] run_cmts_menu_shorter split: if_splits)

declare run_menu.simps [simp del]

text \<open>\<open>main\<close>: the file is loaded before the terminal is looked at.\<close>

definition config_menu :: "menu_env \<Rightarrow> bool \<Rightarrow> json \<Rightarrow> input list \<Rightarrow> outcome" where
  "config_menu env interactive disk ins =
     (let st = load_config env \<lparr>ms_data = JNull, ms_disk = disk\<rparr>
      in if interactive then run_menu env st ins else Ongoing st ins)"

section \<open>What a session keeps\<close>

text \<open>The members the menu writes; the members of a retrieval method stand below the last one.\<close>

definition edited :: "step list list" where
  "edited =
     [hostname_path, entry_path @ v2c_path @ [Key ''read_community''], entry_path @ v2c_path @ [Key ''write_community''],
      v2c_path @ [Key ''read_community''], v2c_path @ [Key ''write_community''],
      adapter_path @ [Key ''hostname''], adapter_path @ [Key ''community''], adapter_path @ [Key ''write_community''],
      tftp_path @ [Key ''ip_v4''], method_path @ [Key ''method''], method_path @ [Key ''methods'']]"

lemma apart_append: "apart p q \<Longrightarrow> apart (p @ r) q"
  by (induction p q rule: apart.induct) auto

lemma ensure_dict_other: "apart (p @ Key k # r) q \<Longrightarrow> json_at (put_at p ensure_dict j) q = json_at j q"
proof (induction p arbitrary: q j)
  case Nil
  then obtain b q' where "q = Key b # q'" by (cases q; cases "hd q") auto
  then show ?case by (cases j) (simp_all add: ensure_dict_def as_dict_def)
next
  case (Cons s p)
  note IH = Cons.IH
  show ?case
  proof (cases s)
    case (Key a)
    with Cons.prems obtain b q' where q: "q = Key b # q'" "a \<noteq> b \<or> apart (p @ Key k # r) q'"
      by (cases q; cases "hd q") auto
    have n: "q' \<noteq> []" if "a = b" using q that by (cases p) auto
    show ?thesis
      using q IH [of q'] n by (cases j) (auto simp: Key update_conv' as_dict_def split: option.split)
  next
    case Head
    with Cons.prems obtain s' q' where q: "q = s' # q'" "s' = Head \<and> apart (p @ Key k # r) q' \<or> (\<exists>n. s' = Later n)"
      by (cases q; cases "hd q") auto
    have n: "q' \<noteq> []" if "s' = Head" using q that by (cases p) auto
    show ?thesis
      using q IH [of q'] n by (cases j) (auto simp: Head split: list.split)
  next
    case (Later n)
    with Cons.prems show ?thesis by simp
  qed
qed

lemma set_member_other: "apart (p @ [Key k]) q \<Longrightarrow> json_at (set_member p k v j) q = json_at j q"
  unfolding set_member_def by (rule tree.put_other)

lemma set_text_other: "apart (p @ [Key k]) q \<Longrightarrow> json_at (set_text p k s j) q = json_at j q"
  by (simp add: set_text_def set_member_other)

lemma set_members_other: "(\<And>k. apart (p @ [Key k]) q) \<Longrightarrow> json_at (set_members p kvs j) q = json_at j q"
proof (induction kvs arbitrary: j)
  case (Cons kv kvs)
  then show ?case
    by (cases kv; cases "snd kv") (auto simp: set_members_def set_member_other)
qed (simp add: set_members_def)


definition untouched :: "step list \<Rightarrow> bool" where
  "untouched q = (\<forall>p \<in> set edited. apart p q)"

lemma untouchedD:
  assumes "untouched q"
  shows "apart (entry_path @ [Key ''device''] @ [Key ''hostname'']) q"
    "apart ((entry_path @ v2c_path) @ [Key ''read_community'']) q" "apart ((entry_path @ v2c_path) @ [Key ''write_community'']) q"
    "apart (v2c_path @ [Key ''read_community'']) q" "apart (v2c_path @ [Key ''write_community'']) q"
    "apart (adapter_path @ [Key ''hostname'']) q" "apart (adapter_path @ [Key ''community'']) q"
    "apart (adapter_path @ [Key ''write_community'']) q" "apart (tftp_path @ [Key ''ip_v4'']) q"
    "apart (method_path @ [Key ''method'']) q" "apart (method_path @ [Key ''methods'']) q"
  using assms by (simp_all add: untouched_def edited_def hostname_path_def)

lemma untouched_ensure:
  assumes "untouched q"
  shows "json_at (put_at (entry_path @ [Key ''device'']) ensure_dict j) q = json_at j q"
    "json_at (put_at (entry_path @ v2c_path) ensure_dict j) q = json_at j q"
    "json_at (put_at v2c_path ensure_dict j) q = json_at j q"
    "json_at (put_at adapter_path ensure_dict j) q = json_at j q"
    "json_at (put_at tftp_path ensure_dict j) q = json_at j q"
    "json_at (put_at method_path ensure_dict j) q = json_at j q"
    "json_at (put_at (method_path @ [Key ''methods'', Key m]) ensure_dict j) q = json_at j q"
proof -
  note u = untouchedD [OF assms]
  show "json_at (put_at (entry_path @ [Key ''device'']) ensure_dict j) q = json_at j q"
    by (rule ensure_dict_other [of _ "''hostname''" "[]"]) (use u(1) in simp)
  show "json_at (put_at (entry_path @ v2c_path) ensure_dict j) q = json_at j q"
    by (rule ensure_dict_other [of _ "''read_community''" "[]"]) (use u(2) in simp)
  show "json_at (put_at v2c_path ensure_dict j) q = json_at j q" by (rule ensure_dict_other [OF u(4)])
  show "json_at (put_at adapter_path ensure_dict j) q = json_at j q" by (rule ensure_dict_other [OF u(6)])
  show "json_at (put_at tftp_path ensure_dict j) q = json_at j q" by (rule ensure_dict_other [OF u(9)])
  show "json_at (put_at method_path ensure_dict j) q = json_at j q" by (rule ensure_dict_other [OF u(10)])
  have "apart ((method_path @ [Key ''methods'', Key m]) @ Key m # []) q"
    using apart_append [OF u(11), of "[Key m, Key m]"] by simp
  then show "json_at (put_at (method_path @ [Key ''methods'', Key m]) ensure_dict j) q = json_at j q"
    by (rule ensure_dict_other)
qed

lemma untouched_set:
  assumes "untouched q"
  shows "json_at (set_member (entry_path @ [Key ''device'']) ''hostname'' v j) q = json_at j q"
    "json_at (set_text (entry_path @ v2c_path) ''read_community'' s j) q = json_at j q"
    "json_at (set_text (entry_path @ v2c_path) ''write_community'' s j) q = json_at j q"
    "json_at (set_text v2c_path ''read_community'' s j) q = json_at j q"
    "json_at (set_text v2c_path ''write_community'' s j) q = json_at j q"
    "json_at (set_text tftp_path ''ip_v4'' s j) q = json_at j q"
    "json_at (set_member method_path ''method'' v j) q = json_at j q"
    "json_at (set_members (method_path @ [Key ''methods'', Key m]) kvs j) q = json_at j q"
    "json_at (update_adapter host community write j) q = json_at j q"
proof -
  note u = untouchedD [OF assms]
  show "json_at (set_member (entry_path @ [Key ''device'']) ''hostname'' v j) q = json_at j q"
    by (rule set_member_other) (use u(1) in simp)
  show "json_at (set_members (method_path @ [Key ''methods'', Key m]) kvs j) q = json_at j q"
  proof (rule set_members_other)
    show "apart ((method_path @ [Key ''methods'', Key m]) @ [Key k]) q" for k
      using apart_append [OF u(11), of "[Key m, Key k]"] by simp
  qed
  show "json_at (update_adapter host community write j) q = json_at j q"
    using u(6-8) by (simp add: update_adapter_def Let_def set_member_other untouched_ensure [OF assms] split: option.split)
  show "json_at (set_text (entry_path @ v2c_path) ''read_community'' s j) q = json_at j q" by (rule set_text_other [OF u(2)])
  show "json_at (set_text (entry_path @ v2c_path) ''write_community'' s j) q = json_at j q" by (rule set_text_other [OF u(3)])
qed (simp_all add: set_text_other set_member_other untouchedD [OF assms])

text \<open>The value at a path in memory, and on disk either that or the one from before the session.\<close>

definition keeps :: "step list \<Rightarrow> json option \<Rightarrow> json option \<Rightarrow> menu_state \<Rightarrow> bool" where
  "keeps q c c0 st = (json_at (ms_data st) q = c \<and> (json_at (ms_disk st) q = c \<or> json_at (ms_disk st) q = c0))"

lemma edits_keep:
  assumes "untouched q" and "keeps q c c0 st" and "me_retrieval_script env = None"
  shows "keeps q c c0 (outcome_state (edit_cmts_hostname env st ins))"
    "keeps q c c0 (outcome_state (edit_cm_snmp env st ins))"
    "keeps q c c0 (outcome_state (edit_cmts_snmp env st ins))"
    "keeps q c c0 (outcome_state (edit_tftp env st ins))"
    "keeps q c c0 (outcome_state (edit_retrieval_method env st ins))"
proof -
  note defs = edit_cmts_hostname_def edit_cm_snmp_def edit_cmts_snmp_def edit_tftp_def edit_retrieval_method_def
  have *: "keeps q c c0 (outcome_state (edit_cmts_hostname env st ins)) \<and>
    keeps q c c0 (outcome_state (edit_cm_snmp env st ins)) \<and> keeps q c c0 (outcome_state (edit_cmts_snmp env st ins)) \<and>
    keeps q c c0 (outcome_state (edit_tftp env st ins)) \<and> keeps q c c0 (outcome_state (edit_retrieval_method env st ins))"
  proof (cases "\<exists>d. ms_data st = JDict d")
    case False
    then have "edit_cmts_hostname env st ins = Raised st" "edit_cm_snmp env st ins = Raised st"
      "edit_cmts_snmp env st ins = Raised st" "edit_tftp env st ins = Raised st" "edit_retrieval_method env st ins = Raised st"
      using assms(3) by (cases "ms_data st"; simp add: defs)+
    with assms(2) show ?thesis by simp
  next
    case True
    then obtain d where d: "ms_data st = JDict d" by blast
    then have c: "json_at (JDict d) q = c" "json_at (ms_disk st) q = c \<or> json_at (ms_disk st) q = c0"
      using assms(2) by (simp_all add: keeps_def)
    note u = untouched_ensure [OF assms(1)] untouched_set [OF assms(1)]
    show ?thesis
      by (intro conjI; simp add: defs d assms(3) keeps_def save_config_def Let_def u c split: option.split)
  qed
  then show "keeps q c c0 (outcome_state (edit_cmts_hostname env st ins))"
    "keeps q c c0 (outcome_state (edit_cm_snmp env st ins))" "keeps q c c0 (outcome_state (edit_cmts_snmp env st ins))"
    "keeps q c c0 (outcome_state (edit_tftp env st ins))" "keeps q c c0 (outcome_state (edit_retrieval_method env st ins))"
    by simp_all
qed

lemma edit_snmp_menu_keeps:
  "keeps q c c0 st \<Longrightarrow> untouched q \<Longrightarrow> me_retrieval_script env = None \<Longrightarrow> keeps q c c0 (outcome_state (edit_snmp_menu env st ins))"
proof (induction env st ins rule: edit_snmp_menu.induct)
  case (1 env st ins)
  note k = edits_keep(2,3) [OF "1.prems"(2,1,3)]
  show ?case
    using "1.prems" "1.IH" k [of "snd (read_choice ins)"]
    by (subst edit_snmp_menu.simps) (auto split: prod.split option.split outcome.split)
qed

lemma run_cmts_menu_keeps:
  "keeps q c c0 st \<Longrightarrow> untouched q \<Longrightarrow> me_retrieval_script env = None \<Longrightarrow> keeps q c c0 (outcome_state (run_cmts_menu env st ins))"
proof (induction env st ins rule: run_cmts_menu.induct)
  case (1 env st ins)
  obtain x r where x: "read_choice ins = (x, r)" by (metis prod.exhaust)
  define out where "out = (\<lambda>a. if a = ''1'' then edit_cmts_hostname env st r else if a = ''2'' then edit_snmp_menu env st r
      else if a = ''3'' then edit_tftp env st r else if a = ''4'' then edit_retrieval_method env st r else Ongoing st r)"
  have k: "keeps q c c0 (outcome_state (out a))" for a
    using edits_keep [OF "1.prems"(2,1,3)] edit_snmp_menu_keeps [OF "1.prems"] "1.prems"(1) by (simp add: out_def)
  show ?case
  proof (cases x)
    case None
    then show ?thesis using "1.IH"(1) [OF x [symmetric] None] "1.prems" x by (subst run_cmts_menu.simps) simp
  next
    case (Some a)
    show ?thesis
    proof (cases "a \<in> {'''', ''b'', ''back''}")
      case True
      then show ?thesis using x Some "1.prems" by (subst run_cmts_menu.simps) auto
    next
      case False
      then have m: "run_cmts_menu env st ins = (case out a of Raised s \<Rightarrow> Raised s | Ongoing s r' \<Rightarrow> run_cmts_menu env s r')"
        using x Some unfolding out_def by (subst run_cmts_menu.simps) simp
      show ?thesis
      proof (cases "out a")
        case (Ongoing s r')
        have "keeps q c c0 s" using k [of a] Ongoing by simp
        then have "keeps q c c0 (outcome_state (run_cmts_menu env s r'))"
          using "1.IH"(2) [OF x [symmetric] Some False] Ongoing "1.prems"(2,3) unfolding out_def by simp
        then show ?thesis by (simp add: m Ongoing)
      next
        case (Raised s)
        then show ?thesis using k [of a] by (simp add: m)
      qed
    qed
  qed
qed

lemma json_at_append: "json_at j (p @ q) = (case json_at j p of None \<Rightarrow> None | Some x \<Rightarrow> json_at x q)"
  by (induction j p rule: json_at.induct) (auto split: option.split)

lemma entry_member:
  assumes "json_at j (entry_path @ map Key ks) = Some v" and "ks \<noteq> []"
    and "cfg [''pypnm-cmts'', ''cmts''] = json_at j [Key ''pypnm-cmts'', Key ''cmts'']" and "v \<noteq> JNull"
  shows "nested_value (cmts_entry cfg 0) ks = Some v"
proof -
  have "json_at j ([Key ''pypnm-cmts'', Key ''cmts''] @ (Head # map Key ks)) = Some v"
    using assms(1) by (simp add: entry_path_def)
  then obtain l where l: "json_at j [Key ''pypnm-cmts'', Key ''cmts''] = Some l" "json_at l (Head # map Key ks) = Some v"
    by (simp only: json_at_append) (auto split: option.splits)
  obtain x xs where xs: "l = JList (x # xs)" "json_at x (map Key ks) = Some v"
  proof (cases l)
    case (JList ys)
    with l(2) that show thesis by (cases ys) auto
  qed (use l(2) in simp_all)
  obtain d where d: "x = JDict d"
  proof (cases x)
    case (JDict d)
    then show thesis by (rule that)
  qed (use xs(2) assms(2) in \<open>cases ks; simp\<close>)+
  have "cmts_entry cfg 0 = d"
    using assms(3) l(1) xs(1) d by (simp add: cmts_entry_def cmts_entries_def List.map_filter_simps)
  then show ?thesis using xs(2) d assms(4) by (auto simp: nested_value_def split: json.split)
qed


text \<open>What the template can do to a file: no value that is not an object changes, and what is new is the template's.\<close>

lemma merge_template_cases:
  "merge_template env disk = disk \<or>
   (\<exists>m d. me_template env = Some m \<and> disk = JDict d \<and> merge_template env disk = JDict (merge_missing d m))"
  by (cases "me_template env"; cases disk) (simp_all add: merge_template_def)

lemma merge_template_keeps:
  assumes "\<And>m. me_template env = Some m \<Longrightarrow> json_wf (JDict m)"
  shows "json_at disk q = Some v \<Longrightarrow> (\<forall>d. v \<noteq> JDict d) \<Longrightarrow> json_at (merge_template env disk) q = Some v"
    and "json_at disk q = None \<Longrightarrow> json_at (merge_template env disk) q \<noteq> None \<Longrightarrow>
      \<exists>m. me_template env = Some m \<and> json_at (merge_template env disk) q = json_at (JDict m) q"
proof -
  show "json_at (merge_template env disk) q = Some v" if "json_at disk q = Some v" "\<forall>d. v \<noteq> JDict d"
    using merge_template_cases [of env disk] merge_keeps [OF assms, of _ _ q v] that by auto
  show "\<exists>m. me_template env = Some m \<and> json_at (merge_template env disk) q = json_at (JDict m) q"
    if absent: "json_at disk q = None" and there: "json_at (merge_template env disk) q \<noteq> None"
  proof -
    obtain m d where m: "me_template env = Some m" "disk = JDict d" "merge_template env disk = JDict (merge_missing d m)"
      using merge_template_cases [of env disk] absent there by (metis (no_types))
    have "json_at (JDict (merge_missing d m)) q \<in> {None, json_at (JDict m) q}"
      by (rule merge_new [OF assms [OF m(1)]]) (use absent m(2) in simp)
    then show ?thesis using m there by (intro exI [of _ m]) (simp del: not_None_eq)
  qed
qed

section \<open>Properties\<close>

text \<open>C31: Whatever is typed, a session of the CMTS menu without external scripts changes nothing of the file but the
  members it names and members the template adds: at every other path a value that is not an object stays what it
  was, and a value that appears is the one of the template.\<close>

theorem session_keeps_other_values:
  assumes "untouched q" and "me_retrieval_script env = None"
    and "\<And>m. me_template env = Some m \<Longrightarrow> json_wf (JDict m)"
    and "final = ms_disk (outcome_state (run_cmts_menu env (load_config env \<lparr>ms_data = JNull, ms_disk = disk\<rparr>) ins))"
  shows "(\<forall>v. json_at disk q = Some v \<longrightarrow> (\<forall>d. v \<noteq> JDict d) \<longrightarrow> json_at final q = Some v) \<and>
    (json_at disk q = None \<longrightarrow> json_at final q \<noteq> None \<longrightarrow>
       (\<exists>m. me_template env = Some m \<and> json_at final q = json_at (JDict m) q))"
proof -
  have "keeps q (json_at (merge_template env disk) q) (json_at disk q)
      (load_config env \<lparr>ms_data = JNull, ms_disk = disk\<rparr>)"
    by (simp add: keeps_def load_config_def)
  from run_cmts_menu_keeps [OF this assms(1,2), of ins]
  have "json_at final q \<in> {json_at disk q, json_at (merge_template env disk) q}" by (auto simp: keeps_def assms(4))
  then consider "json_at final q = json_at disk q" | "json_at final q = json_at (merge_template env disk) q" by auto
  then show ?thesis
    using merge_template_keeps [where env = env and disk = disk and q = q, OF assms(3)]
    by cases (simp_all del: not_None_eq)
qed

lemma set_member_same:
  "list_all (\<lambda>s. \<forall>n. s \<noteq> Later n) p \<Longrightarrow> json_at (set_member p k v j) (p @ [Key k]) = Some v"
  unfolding set_member_def using put_at_get [of "p @ [Key k]"] by simp

lemma plain_paths:
  "list_all (\<lambda>s. \<forall>n. s \<noteq> Later n) adapter_path" "list_all (\<lambda>s. \<forall>n. s \<noteq> Later n) (entry_path @ [Key ''device''])"
  by (simp_all add: adapter_path_def entry_path_def)

lemma adapter_members_apart: "k \<noteq> k' \<Longrightarrow> apart (adapter_path @ [Key k]) (adapter_path @ [Key k'])"
  by (simp add: adapter_path_def)

lemma update_adapter_hostname:
  "py_strip h \<noteq> '''' \<Longrightarrow> json_at (update_adapter (Some h) c w j) (adapter_path @ [Key ''hostname'']) = Some (JStr h)"
  by (simp add: update_adapter_def Let_def set_member_same plain_paths set_member_other adapter_members_apart split: option.split)

lemma update_adapter_entry: "json_at (update_adapter a b c j) (entry_path @ p) = json_at j (entry_path @ p)"
proof -
  have a: "apart (adapter_path @ [Key k]) (entry_path @ p)" for k by (simp add: adapter_path_def entry_path_def)
  have "json_at (put_at adapter_path ensure_dict j) (entry_path @ p) = json_at j (entry_path @ p)" for j
    using ensure_dict_other [OF a] by simp
  then show ?thesis by (simp add: update_adapter_def Let_def set_member_other a split: option.split)
qed

lemma edited_hostname_written:
  assumes "edit_cmts_hostname env st (Line s # r) = Ongoing st' r'" and "py_strip s \<noteq> ''''"
    and "cfg [''pypnm-cmts'', ''cmts''] = json_at (ms_disk st') [Key ''pypnm-cmts'', Key ''cmts'']"
  shows "device_hostname py_str cfg 0 = py_strip s \<and>
    member_of adapter_path ''hostname'' (ms_disk st') = Some (JStr (py_strip s)) \<and> r' = r"
proof -
  let ?h = "py_strip s"
  obtain d where d: "ms_data st = JDict d" using assms(1) by (cases "ms_data st") (simp_all add: edit_cmts_hostname_def)
  let ?j = "set_member (entry_path @ [Key ''device'']) ''hostname'' (JStr ?h)
    (put_at (entry_path @ [Key ''device'']) ensure_dict (JDict d))"
  have disk: "ms_disk st' = update_adapter (Some ?h) None None ?j" and r: "r' = r"
    using assms(1,2) by (auto simp: edit_cmts_hostname_def d prompt_str_def Let_def save_config_def)
  have "json_at ?j (entry_path @ map Key [''device'', ''hostname'']) = Some (JStr ?h)"
    using set_member_same [OF plain_paths(2)] by simp
  then have "json_at (ms_disk st') (entry_path @ map Key [''device'', ''hostname'']) = Some (JStr ?h)"
    by (simp only: disk update_adapter_entry)
  from entry_member [where cfg = cfg, OF this _ assms(3)] have "device_hostname py_str cfg 0 = ?h"
    using assms(2) by (simp add: device_hostname_def nested_str_def)
  then show ?thesis using r assms(2) by (simp add: disk member_of_def update_adapter_hostname)
qed

text \<open>A host name typed into the menu is the one the settings read from the file afterwards, and the one of the
  orchestrator's adapter.\<close>

theorem edited_hostname_read_back:
  assumes "edit_cmts_hostname env st (Line s # r) = Ongoing st' r'" and "py_strip s \<noteq> ''''"
    and "cfg [''pypnm-cmts'', ''cmts''] = json_at (ms_disk st') [Key ''pypnm-cmts'', Key ''cmts'']"
  shows "device_hostname py_str cfg 0 = py_strip s \<and>
    member_of adapter_path ''hostname'' (ms_disk st') = Some (JStr (py_strip s)) \<and> r' = r"
  using assms by (rule edited_hostname_written)

text \<open>An interrupt or the end of the input at a question ends the program with an exception, although the menus
  announce that they ignore it; nothing is written then.\<close>

theorem interrupted_edit_writes_nothing:
  assumes "ins = [] \<or> hd ins \<in> {Interrupt, EndOfFile}"
  shows "\<exists>st1 st2 st3 st4. edit_cmts_hostname env st ins = Raised st1 \<and> edit_cm_snmp env st ins = Raised st2 \<and>
    edit_cmts_snmp env st ins = Raised st3 \<and> edit_tftp env st ins = Raised st4 \<and>
    ms_disk st1 = ms_disk st \<and> ms_disk st2 = ms_disk st \<and> ms_disk st3 = ms_disk st \<and> ms_disk st4 = ms_disk st"
proof -
  have "prompt_str ins = None" using assms by (auto simp: prompt_str_def split: list.split input.split)
  then show ?thesis
    by (cases "ms_data st")
       (simp_all add: edit_cmts_hostname_def edit_cm_snmp_def edit_cmts_snmp_def edit_tftp_def Let_def)
qed

text \<open>The modem menu is a script that edits the file, and the menu does not read it again: the next edit
  writes back the values from before the script ran.\<close>

theorem modem_menu_edit_lost:
  assumes "edit_cmts_hostname env (run_cm_menu env st) ins = Ongoing st' r" and "untouched q"
  shows "json_at (ms_disk st') q = json_at (ms_data st) q"
proof -
  have m: "ms_data (run_cm_menu env st) = ms_data st" by (simp add: run_cm_menu_def split: option.split)
  obtain d where d: "ms_data st = JDict d"
    using assms(1) by (cases "ms_data st") (simp_all add: edit_cmts_hostname_def m)
  show ?thesis
    using assms(1)
    by (auto simp: edit_cmts_hostname_def m d Let_def save_config_def untouched_ensure [OF assms(2)] untouched_set [OF assms(2)]
        split: option.splits)
qed

text \<open>A host name that is null in the file becomes the adapter's host name \<open>None\<close> as soon as the communities are
  edited.\<close>

theorem null_hostname_becomes_text:
  assumes "edit_cmts_snmp env st ins = Ongoing st' r" and "json_at (ms_data st) hostname_path = Some JNull"
    and "me_str env JNull = ''None''"
  shows "member_of adapter_path ''hostname'' (ms_disk st') = Some (JStr ''None'')"
proof -
  let ?dev = "entry_path @ [Key ''device'']" and ?v2c = "entry_path @ v2c_path"
  obtain d where d: "ms_data st = JDict d" using assms(1) by (cases "ms_data st") (simp_all add: edit_cmts_snmp_def)
  have h: "hostname_path = ?dev @ [Key ''hostname'']" by (simp add: hostname_path_def)
  have keep: "json_at (set_text ?v2c k s j) (?dev @ [Key ''hostname'']) = json_at j (?dev @ [Key ''hostname''])" for k s j
    by (rule set_text_other) (simp add: entry_path_def v2c_path_def)
  have "json_at (put_at ?v2c ensure_dict j) (?dev @ [Key ''hostname'']) = json_at j (?dev @ [Key ''hostname''])" for j
    by (rule ensure_dict_other [of _ "''x''" "[]"]) (simp add: entry_path_def v2c_path_def)
  moreover have "json_at (put_at ?dev ensure_dict (JDict d)) (?dev @ [Key ''hostname'']) = json_at (JDict d) (?dev @ [Key ''hostname''])"
  proof -
    obtain x where x: "json_at (JDict d) ?dev = Some x" "json_at x [Key ''hostname''] = Some JNull"
      using assms(2) by (simp only: h d json_at_append) (auto split: option.splits)
    then obtain dd where "x = JDict dd" by (cases x) simp_all
    with x have "json_at (put_at ?dev ensure_dict (JDict d)) ?dev = Some x"
      by (simp add: put_at_get [OF plain_paths(2)] current_at_def ensure_dict_def as_dict_def)
    then show ?thesis unfolding json_at_append [of _ ?dev] by (simp add: x)
  qed
  ultimately have *: "member_str env ?dev ''hostname'' (set_text ?v2c ''write_community'' w (set_text ?v2c ''read_community'' rd
      (put_at ?v2c ensure_dict (put_at ?dev ensure_dict (JDict d))))) = ''None''" for w rd
    using assms(2,3) by (simp only: member_str_def member_of_def keep) (simp add: h d)
  have "json_at (update_adapter (Some ''None'') b c j) (adapter_path @ [Key ''hostname'']) = Some (JStr ''None'')" for b c j
    by (rule update_adapter_hostname) (simp add: py_strip_def py_lstrip_def py_space_def)
  then show ?thesis
    using assms(1) by (auto simp: edit_cmts_snmp_def d Let_def * save_config_def member_of_def split: option.splits)
qed


definition demo_menu :: menu_env where
  "demo_menu = \<lparr>me_str = (\<lambda>_. ''None''), me_inet = (\<lambda>_. True),
     me_cm_script = Some (\<lambda>_. JDict [(''Other'', JStr ''set by the script'')]), me_retrieval_script = None, me_template = None\<rparr>"

definition demo_disk :: json where
  "demo_disk = JDict [(''Other'', JInt 5), (''pypnm-cmts'', JDict [(''cmts'', JList [JDict [(''device'', JDict [(''hostname'', JNull)])]])])]"

lemma demo_untouched: "untouched [Key ''Other'']"
  by (simp add: untouched_def edited_def hostname_path_def entry_path_def v2c_path_def adapter_path_def tftp_path_def method_path_def)

lemma session_keeps_other_values_witness:
  "json_at (ms_disk (outcome_state (run_cmts_menu demo_menu (load_config demo_menu \<lparr>ms_data = JNull, ms_disk = demo_disk\<rparr>)
     [Line ''1'', Line ''cmts1'', Interrupt, Line '' B '']))) [Key ''Other''] = Some (JInt 5)"
proof -
  have env: "me_retrieval_script demo_menu = None" "me_template demo_menu = None" by (simp_all add: demo_menu_def)
  from session_keeps_other_values [OF demo_untouched env(1) _ refl, of demo_disk "[Line ''1'', Line ''cmts1'', Interrupt, Line '' B '']"]
  show ?thesis by (simp add: env demo_disk_def)
qed

definition demo_menu_state :: menu_state where
  "demo_menu_state = \<lparr>ms_data = demo_disk, ms_disk = demo_disk\<rparr>"

lemma demo_strip: "py_strip '' cmts1 '' = ''cmts1''"
  by (simp add: py_strip_def py_lstrip_def py_space_def)

lemma edited_hostname_read_back_witness:
  "\<exists>st'. edit_cmts_hostname demo_menu demo_menu_state [Line '' cmts1 ''] = Ongoing st' [] \<and>
     device_hostname (\<lambda>_. '''') (\<lambda>ks. json_at (ms_disk st') (map Key ks)) 0 = ''cmts1''"
proof -
  obtain st' r' where e: "edit_cmts_hostname demo_menu demo_menu_state [Line '' cmts1 ''] = Ongoing st' r'"
    by (auto simp: edit_cmts_hostname_def demo_menu_state_def demo_disk_def prompt_str_def Let_def)
  have "device_hostname (\<lambda>_. '''') (\<lambda>ks. json_at (ms_disk st') (map Key ks)) 0 = py_strip '' cmts1 '' \<and> r' = []"
    using edited_hostname_read_back [OF e, of "\<lambda>ks. json_at (ms_disk st') (map Key ks)" "\<lambda>_. ''''"] by (simp add: demo_strip)
  then show ?thesis using e by (auto simp: demo_strip)
qed

lemma interrupted_edit_writes_nothing_witness:
  "\<exists>st1. edit_cmts_hostname demo_menu demo_menu_state [Interrupt, Line ''x''] = Raised st1 \<and> ms_disk st1 = demo_disk"
proof -
  have "[Interrupt, Line ''x''] = [] \<or> hd [Interrupt, Line ''x''] \<in> {Interrupt, EndOfFile}" by simp
  from interrupted_edit_writes_nothing [OF this, of demo_menu demo_menu_state] show ?thesis
    by (auto simp: demo_menu_state_def)
qed

lemma modem_menu_edit_lost_witness:
  "json_at (ms_disk (run_cm_menu demo_menu demo_menu_state)) [Key ''Other''] = Some (JStr ''set by the script'') \<and>
   (\<exists>st'. edit_cmts_hostname demo_menu (run_cm_menu demo_menu demo_menu_state) [Line ''cmts1''] = Ongoing st' [] \<and>
      json_at (ms_disk st') [Key ''Other''] = Some (JInt 5))"
proof -
  have s: "run_cm_menu demo_menu demo_menu_state = demo_menu_state\<lparr>ms_disk := JDict [(''Other'', JStr ''set by the script'')]\<rparr>"
    by (simp add: run_cm_menu_def demo_menu_def demo_menu_state_def)
  obtain st' where e: "edit_cmts_hostname demo_menu (run_cm_menu demo_menu demo_menu_state) [Line ''cmts1''] = Ongoing st' []"
    unfolding s by (simp add: edit_cmts_hostname_def demo_menu_state_def demo_disk_def prompt_str_def Let_def)
  have d: "json_at (ms_disk (run_cm_menu demo_menu demo_menu_state)) [Key ''Other''] = Some (JStr ''set by the script'')"
    unfolding s by simp
  have m: "json_at (ms_data demo_menu_state) [Key ''Other''] = Some (JInt 5)"
    by (simp add: demo_menu_state_def demo_disk_def)
  have "json_at (ms_disk st') [Key ''Other''] = Some (JInt 5)"
    using modem_menu_edit_lost [OF e demo_untouched] m by (rule trans)
  with d e show ?thesis by blast
qed

lemma null_hostname_becomes_text_witness:
  "\<exists>st'. edit_cmts_snmp demo_menu demo_menu_state [Line '''', Line ''''] = Ongoing st' [] \<and>
     member_of adapter_path ''hostname'' (ms_disk st') = Some (JStr ''None'')"
proof -
  obtain st' where e: "edit_cmts_snmp demo_menu demo_menu_state [Line '''', Line ''''] = Ongoing st' []"
    by (simp add: edit_cmts_snmp_def demo_menu_state_def demo_disk_def prompt_str_def Let_def)
  have "json_at (ms_data demo_menu_state) hostname_path = Some JNull" "me_str demo_menu JNull = ''None''"
    by (simp_all add: demo_menu_state_def demo_disk_def hostname_path_def entry_path_def demo_menu_def)
  from null_hostname_becomes_text [OF e this] e show ?thesis by blast
qed


end
