(* ===== verification/ConfigCommands.thy ===== *)
theory ConfigCommands
  imports ConfigMenu
begin

text \<open>
  The commands of \<open>tools/config_commands.py\<close> over \<open>system.json\<close>, and
  \<open>CmtsOrchestratorSettings.from_system_config\<close> of \<open>config/orchestrator_config.py\<close>, which gathers the
  payload that pydantic validates.  Inputs are: what the configuration manager of the pypnm package gives, the
  verdict of the validation, \<open>str\<close> of a JSON value and of an exception, \<open>dict\<close> of a list that is
  not empty, and whether the file could be written.  What is printed is the list of JSON values and of error lines;
  the indentation is left out.
\<close>

section \<open>The payload of the orchestrator settings\<close>

type_synonym dict = "(string \<times> json) list"

text \<open>\<open>dict\<close> of the member \<open>adapter\<close>, empty when it is missing.\<close>

definition adapter_dict :: "(json list \<Rightarrow> dict result) \<Rightarrow> json option \<Rightarrow> dict result" where
  "adapter_dict dict_of v =
     (case v of
        None \<Rightarrow> Inr []
      | Some (JDict d) \<Rightarrow> Inr d
      | Some (JList xs) \<Rightarrow> if xs = [] then Inr [] else dict_of xs
      | Some (JStr s) \<Rightarrow> if s = '''' then Inr [] else Inl (ValueError ''dictionary update sequence element #0 has length 1; 2 is required'')
      | Some _ \<Rightarrow> Inl (TypeError ''object is not iterable''))"

definition dict_text :: "(json \<Rightarrow> string) \<Rightarrow> dict \<Rightarrow> string \<Rightarrow> string" where
  "dict_text py_str d k =
     py_strip (case map_of d k of None \<Rightarrow> '''' | Some (JStr s) \<Rightarrow> s | Some v \<Rightarrow> py_str v)"

definition env_text :: "(string \<Rightarrow> string option) \<Rightarrow> string \<Rightarrow> string" where
  "env_text env k = py_strip (case env k of None \<Rightarrow> '''' | Some v \<Rightarrow> v)"

definition set_from_env :: "(string \<Rightarrow> string option) \<Rightarrow> string \<Rightarrow> string \<Rightarrow> dict \<Rightarrow> dict" where
  "set_from_env env var k ad = (if env_text env var \<noteq> '''' then AList.update k (JStr (env_text env var)) ad else ad)"

definition adapter_from_env :: "(string \<Rightarrow> string option) \<Rightarrow> dict \<Rightarrow> dict" where
  "adapter_from_env env ad =
     set_from_env env ''PYPNM_CMTS_ADAPTER_WRITE_COMMUNITY'' ''write_community''
       (set_from_env env ''PYPNM_CMTS_ADAPTER_READ_COMMUNITY'' ''community''
         (set_from_env env ''PYPNM_CMTS_ADAPTER_HOSTNAME'' ''hostname'' ad))"

text \<open>A value of the first CMTS entry counts only where the adapter has none.\<close>

definition fill_text :: "(json \<Rightarrow> string) \<Rightarrow> dict \<Rightarrow> string \<Rightarrow> string \<Rightarrow> dict \<Rightarrow> dict" where
  "fill_text py_str src k0 k ad =
     (let v = dict_text py_str src k0
      in if v \<noteq> '''' \<and> dict_text py_str ad k = '''' then AList.update k (JStr v) ad else ad)"

definition fill_port :: "dict \<Rightarrow> dict \<Rightarrow> dict" where
  "fill_port v2c ad =
     (case map_of v2c ''port'' of
        Some (JInt n) \<Rightarrow> if map_of ad ''port'' = None then AList.update ''port'' (JInt n) ad else ad
      | Some (JBool b) \<Rightarrow> if map_of ad ''port'' = None then AList.update ''port'' (JBool b) ad else ad
      | _ \<Rightarrow> ad)"

definition adapter_from_snmp :: "(json \<Rightarrow> string) \<Rightarrow> json option \<Rightarrow> dict \<Rightarrow> dict" where
  "adapter_from_snmp py_str snmp ad =
     (case snmp of
        Some (JDict s) \<Rightarrow>
          (case map_of s ''version'' of
             Some (JDict version) \<Rightarrow>
               (case map_of version ''2c'' of
                  Some (JDict v2c) \<Rightarrow>
                    fill_port v2c (fill_text py_str v2c ''write_community'' ''write_community''
                      (fill_text py_str v2c ''read_community'' ''community'' ad))
                | _ \<Rightarrow> ad)
           | _ \<Rightarrow> ad)
      | _ \<Rightarrow> ad)"

definition adapter_from_cmts :: "(json \<Rightarrow> string) \<Rightarrow> json option \<Rightarrow> dict \<Rightarrow> dict" where
  "adapter_from_cmts py_str cmts ad =
     (case cmts of
        Some (JList (JDict e # _)) \<Rightarrow>
          adapter_from_snmp py_str (map_of e ''SNMP'')
            (case map_of e ''device'' of
               Some (JDict device) \<Rightarrow> fill_text py_str device ''hostname'' ''hostname'' ad
             | _ \<Rightarrow> ad)
      | _ \<Rightarrow> ad)"

definition settings_payload ::
  "(json \<Rightarrow> string) \<Rightarrow> (json list \<Rightarrow> dict result) \<Rightarrow> (string \<Rightarrow> string option) \<Rightarrow> config \<Rightarrow> dict result" where
  "settings_payload py_str dict_of env cfg =
     (let payload = (case cfg [''CmtsOrchestrator''] of Some (JDict d) \<Rightarrow> d | _ \<Rightarrow> [])
      in case adapter_dict dict_of (map_of payload ''adapter'') of
           Inl e \<Rightarrow> Inl e
         | Inr ad0 \<Rightarrow>
             (let ad = adapter_from_cmts py_str (cfg [''pypnm-cmts'', ''cmts'']) (adapter_from_env env ad0)
              in Inr (if ad \<noteq> [] then AList.update ''adapter'' (JDict ad) payload else payload)))"

section \<open>The commands\<close>

datatype config_file = Missing | Garbled | Holds json

text \<open>Reading a template of the package.\<close>

definition load_template :: "config_file \<Rightarrow> dict result" where
  "load_template f =
     (case f of
        Missing \<Rightarrow> Inl FileNotFoundError
      | Garbled \<Rightarrow> Inl (ValueError ''invalid JSON'')
      | Holds (JDict d) \<Rightarrow> Inr d
      | Holds _ \<Rightarrow> Inl (ValueError ''Template is not a JSON object''))"

definition build_default_config :: "config_file \<Rightarrow> config_file \<Rightarrow> dict result" where
  "build_default_config base cmts =
     (case load_template base of
        Inl e \<Rightarrow> Inl e
      | Inr data \<Rightarrow> (case load_template cmts of Inl e \<Rightarrow> Inl e | Inr d \<Rightarrow> Inr (merge_missing data d)))"

text \<open>The path of the command line, when it is not blank.\<close>

definition resolve_config_path :: "string option \<Rightarrow> string \<Rightarrow> string" where
  "resolve_config_path p configured =
     (case p of None \<Rightarrow> configured | Some s \<Rightarrow> if py_strip s \<noteq> '''' then s else configured)"

text \<open>The exit code or the exception, what is printed, and the file afterwards; \<open>failed\<close> is what a write
  that raises leaves behind.\<close>

definition init_config ::
  "config_file \<Rightarrow> config_file \<Rightarrow> config_file option \<Rightarrow> bool \<Rightarrow> bool \<Rightarrow> bool \<Rightarrow> config_file \<Rightarrow> int result \<times> json list \<times> config_file" where
  "init_config base cmts failed force print_output dry_run file =
     (if file \<noteq> Missing \<and> \<not> force then (Inr 1, [], file)
      else case build_default_config base cmts of
             Inl e \<Rightarrow> (Inl e, [], file)
           | Inr data \<Rightarrow>
               (let out = (if print_output then [JDict data] else [])
                in if dry_run then (Inr 0, out, file)
                   else case failed of
                          None \<Rightarrow> (Inr 0, out, Holds (JDict data))
                        | Some f \<Rightarrow> (Inl OSError, out, f)))"

definition show_config :: "config_file \<Rightarrow> config_file \<Rightarrow> int result \<times> json list" where
  "show_config cmts file =
     (case file of
        Missing \<Rightarrow> (Inr 1, [])
      | Garbled \<Rightarrow> (Inl (ValueError ''invalid JSON''), [])
      | Holds (JDict data) \<Rightarrow>
          (case load_template cmts of Inl e \<Rightarrow> (Inl e, []) | Inr d \<Rightarrow> (Inr 0, [JDict (merge_missing data d)]))
      | Holds _ \<Rightarrow> (Inr 1, []))"

text \<open>The verdict of pydantic: the places that are wrong with a message each.\<close>

datatype verdict = Accepted | Rejected "(string list \<times> string) list" | Raising py_exn

definition validation_errors :: "(string list \<times> string) list \<Rightarrow> string list" where
  "validation_errors es =
     map (\<lambda>(loc, msg). (if loc = [] then ''value'' else py_join ''.'' loc) @ '': '' @ msg) es"

definition gather_settings ::
  "(dict \<Rightarrow> verdict) \<Rightarrow> (json \<Rightarrow> string) \<Rightarrow> (json list \<Rightarrow> dict result) \<Rightarrow> (string \<Rightarrow> string option) \<Rightarrow> config result \<Rightarrow> verdict" where
  "gather_settings validate py_str dict_of env loaded =
     (case loaded of
        Inl e \<Rightarrow> Raising e
      | Inr cfg \<Rightarrow> (case settings_payload py_str dict_of env cfg of Inl e \<Rightarrow> Raising e | Inr p \<Rightarrow> validate p))"

definition validate_config :: "(py_exn \<Rightarrow> string) \<Rightarrow> verdict \<Rightarrow> (int \<times> string list) result" where
  "validate_config exn_text v =
     (case v of
        Accepted \<Rightarrow> Inr (0, [])
      | Rejected es \<Rightarrow> Inr (2, validation_errors es)
      | Raising (ValueError m) \<Rightarrow> Inr (1, [exn_text (ValueError m)])
      | Raising FileNotFoundError \<Rightarrow> Inr (1, [exn_text FileNotFoundError])
      | Raising e \<Rightarrow> Inl e)"

section \<open>Lookups\<close>

lemma json_at_member:
  "json_at j (Key k # p) = Some v \<Longrightarrow> \<exists>d x. j = JDict d \<and> map_of d k = Some x \<and> json_at x p = Some v"
  by (cases j) (auto split: option.splits)

lemma dict_text_JStr [simp]: "map_of d k = Some (JStr s) \<Longrightarrow> dict_text py_str d k = py_strip s"
  by (simp add: dict_text_def)

lemma set_from_env_at:
  "map_of (set_from_env env var k ad) k' =
     (if k' = k \<and> env_text env var \<noteq> '''' then Some (JStr (env_text env var)) else map_of ad k')"
  by (simp add: set_from_env_def update_conv')

lemma fill_text_at:
  "map_of (fill_text py_str src k0 k ad) k' =
     (if k' = k \<and> dict_text py_str src k0 \<noteq> '''' \<and> dict_text py_str ad k = ''''
      then Some (JStr (dict_text py_str src k0)) else map_of ad k')"
  by (simp add: fill_text_def Let_def update_conv')

lemma fill_port_at: "k \<noteq> ''port'' \<Longrightarrow> map_of (fill_port v2c ad) k = map_of ad k"
  by (simp add: fill_port_def update_conv' split: option.split json.split)

lemma adapter_from_snmp_at:
  "k \<notin> {''port'', ''community'', ''write_community''} \<Longrightarrow> map_of (adapter_from_snmp py_str snmp ad) k = map_of ad k"
  by (simp add: adapter_from_snmp_def fill_port_at fill_text_at split: option.split json.split)

lemma env_text_strip [simp]: "py_strip (env_text env var) = env_text env var"
  by (simp add: env_text_def)

lemma adapter_from_env_hostname:
  "map_of (adapter_from_env env ad) ''hostname'' =
     (if env_text env ''PYPNM_CMTS_ADAPTER_HOSTNAME'' \<noteq> ''''
      then Some (JStr (env_text env ''PYPNM_CMTS_ADAPTER_HOSTNAME'')) else map_of ad ''hostname'')"
  by (simp add: adapter_from_env_def set_from_env_at)

text \<open>What an adapter hostname that is not blank protects.\<close>

lemma adapter_from_cmts_hostname:
  "dict_text py_str ad ''hostname'' \<noteq> '''' \<Longrightarrow>
   map_of (adapter_from_cmts py_str cmts ad) ''hostname'' = map_of ad ''hostname''"
  by (auto simp: adapter_from_cmts_def adapter_from_snmp_at fill_text_at split: option.split json.split list.split)

section \<open>Properties\<close>

text \<open>The hostname of the adapter is that of the environment, else the one in the file, else that of the first
  CMTS entry; a blank value counts as missing.\<close>

theorem adapter_hostname_order:
  assumes "env_text env ''PYPNM_CMTS_ADAPTER_HOSTNAME'' = h" and "cmts = Some (JList (JDict e # es))"
    and "map_of e ''device'' = Some (JDict device)"
  shows "map_of (adapter_from_cmts py_str cmts (adapter_from_env env ad)) ''hostname'' =
     (if h \<noteq> '''' then Some (JStr h)
      else if dict_text py_str ad ''hostname'' \<noteq> '''' then map_of ad ''hostname''
      else if dict_text py_str device ''hostname'' \<noteq> '''' then Some (JStr (dict_text py_str device ''hostname''))
      else map_of ad ''hostname'')"
proof -
  have s: "py_strip h = h" using assms(1) env_text_strip [of env] by blast
  have "dict_text py_str (adapter_from_env env ad) ''hostname'' = (if h \<noteq> '''' then h else dict_text py_str ad ''hostname'')"
    by (simp add: dict_text_def adapter_from_env_hostname assms(1) s)
  then show ?thesis
    by (simp add: adapter_from_cmts_def assms(2,3) adapter_from_snmp_at fill_text_at adapter_from_env_hostname assms(1))
qed

text \<open>C39: The hostname typed into the menu is the hostname the orchestrator's adapter is validated with, when the
  environment names none.\<close>

theorem menu_hostname_reaches_adapter:
  assumes "edit_cmts_hostname menu st (Line s # r) = Ongoing st' r'" and "py_strip s \<noteq> ''''"
    and "env_text env ''PYPNM_CMTS_ADAPTER_HOSTNAME'' = ''''"
    and "cfg [''CmtsOrchestrator''] = json_at (ms_disk st') [Key ''CmtsOrchestrator'']"
  shows "\<exists>p ad. settings_payload py_str dict_of env cfg = Inr p \<and> map_of p ''adapter'' = Some (JDict ad) \<and>
    map_of ad ''hostname'' = Some (JStr (py_strip s))"
proof -
  let ?cmts = "json_at (ms_disk st') [Key ''pypnm-cmts'', Key ''cmts'']"
  have "member_of adapter_path ''hostname'' (ms_disk st') = Some (JStr (py_strip s))"
    using edited_hostname_written [OF assms(1,2), of "\<lambda>_. ?cmts"] by simp
  then obtain o' ad0 where o': "json_at (ms_disk st') [Key ''CmtsOrchestrator''] = Some (JDict o')"
    and ad0: "map_of o' ''adapter'' = Some (JDict ad0)" "map_of ad0 ''hostname'' = Some (JStr (py_strip s))"
    unfolding member_of_def adapter_path_def append.simps by (fastforce dest!: json_at_member)
  have c: "cfg [''CmtsOrchestrator''] = Some (JDict o')" using assms(4) o' by (rule trans)
  define ad where "ad = adapter_from_cmts py_str (cfg [''pypnm-cmts'', ''cmts'']) (adapter_from_env env ad0)"
  have e: "map_of (adapter_from_env env ad0) ''hostname'' = Some (JStr (py_strip s))"
    by (simp add: adapter_from_env_hostname assms(3) ad0)
  then have "map_of ad ''hostname'' = Some (JStr (py_strip s))"
    unfolding ad_def using assms(2) by (subst adapter_from_cmts_hostname) simp_all
  moreover from this have "settings_payload py_str dict_of env cfg = Inr (AList.update ''adapter'' (JDict ad) o')"
    by (auto simp: settings_payload_def c ad0(1) adapter_dict_def ad_def [symmetric])
  ultimately show ?thesis by (simp add: update_conv')
qed

text \<open>Only a run that creates the file writes it: a dry run, a file that is there without force and a template
  that cannot be read leave it as it was.  What a successful run writes is what showing the file then prints.\<close>

theorem init_writes_once:
  "(case init_config base cmts failed force print_output dry_run f of (r, out, f') \<Rightarrow>
     (dry_run \<or> (f \<noteq> Missing \<and> \<not> force) \<or> (\<exists>e. build_default_config base cmts = Inl e) \<longrightarrow> f' = f) \<and>
     (r = Inr 0 \<and> \<not> dry_run \<and> (\<forall>d. load_template cmts = Inr d \<longrightarrow> json_wf (JDict d)) \<longrightarrow>
        (\<exists>d. f' = Holds (JDict d) \<and> show_config cmts f' = (Inr 0, [JDict d]))))"
proof (cases "build_default_config base cmts")
  case (Inl e)
  then show ?thesis by (simp add: init_config_def)
next
  case (Inr d)
  then obtain b m where m: "load_template cmts = Inr m" "d = merge_missing b m"
    by (auto simp: build_default_config_def split: sum.splits)
  then have "json_wf (JDict m) \<Longrightarrow> show_config cmts (Holds (JDict d)) = (Inr 0, [JDict d])"
    by (simp add: show_config_def merge_again)
  then show ?thesis
    by (auto simp: init_config_def Inr m Let_def split: option.split)
qed

text \<open>The exit code of the validation is 0 exactly when pydantic accepts the payload and 2 exactly when it
  rejects it; other errors give 1 or escape: a null adapter escapes as a type error.\<close>

theorem validate_exit_codes:
  "((\<exists>es. validate_config exn_text v = Inr (0, es)) \<longleftrightarrow> v = Accepted) \<and>
   ((\<exists>es. validate_config exn_text v = Inr (2, es)) \<longleftrightarrow> (\<exists>es. v = Rejected es)) \<and>
   (cfg [''CmtsOrchestrator''] = Some (JDict d) \<and> map_of d ''adapter'' = Some JNull \<longrightarrow>
      validate_config exn_text (gather_settings validate py_str dict_of env (Inr cfg)) =
        Inl (TypeError ''object is not iterable''))"
  by (auto simp: validate_config_def gather_settings_def settings_payload_def adapter_dict_def
      split: verdict.splits py_exn.splits)

section \<open>Witnesses\<close>

lemma adapter_hostname_order_witness:
  "map_of (adapter_from_cmts (\<lambda>_. '''') (Some (JList [JDict [(''device'', JDict [(''hostname'', JStr ''cmts1'')])]]))
      (adapter_from_env (\<lambda>_. None) [(''hostname'', JStr '' '')])) ''hostname'' = Some (JStr ''cmts1'')"
proof -
  have e: "env_text (\<lambda>_. None) ''PYPNM_CMTS_ADAPTER_HOSTNAME'' = ''''" by (simp add: env_text_def)
  have d: "map_of [(''device'', JDict [(''hostname'', JStr ''cmts1'')])] ''device'' = Some (JDict [(''hostname'', JStr ''cmts1'')])"
    by simp
  have b: "py_strip '' '' = ''''" "py_strip ''cmts1'' = ''cmts1''"
    by (simp_all add: py_strip_def py_lstrip_def py_space_def)
  show ?thesis
    by (subst adapter_hostname_order [OF e refl d]) (simp add: b dict_text_def)
qed

lemma menu_hostname_reaches_adapter_witness:
  "\<exists>st' p ad. edit_cmts_hostname demo_menu demo_menu_state [Line '' cmts1 ''] = Ongoing st' [] \<and>
     settings_payload (\<lambda>_. '''') (\<lambda>_. Inr []) (\<lambda>_. None) (\<lambda>ks. json_at (ms_disk st') (map Key ks)) = Inr p \<and>
     map_of p ''adapter'' = Some (JDict ad) \<and> map_of ad ''hostname'' = Some (JStr ''cmts1'')"
proof -
  obtain st' where e: "edit_cmts_hostname demo_menu demo_menu_state [Line '' cmts1 ''] = Ongoing st' []"
    by (auto simp: edit_cmts_hostname_def demo_menu_state_def demo_disk_def prompt_str_def Let_def)
  have v: "env_text (\<lambda>_. None) ''PYPNM_CMTS_ADAPTER_HOSTNAME'' = ''''" by (simp add: env_text_def)
  have n: "py_strip '' cmts1 '' \<noteq> ''''" by (simp add: demo_strip)
  have c: "(\<lambda>ks. json_at (ms_disk st') (map Key ks)) [''CmtsOrchestrator''] = json_at (ms_disk st') [Key ''CmtsOrchestrator'']"
    by simp
  from menu_hostname_reaches_adapter [where cfg = "\<lambda>ks. json_at (ms_disk st') (map Key ks)" and env = "\<lambda>_. None"
      and py_str = "\<lambda>_. ''''" and dict_of = "\<lambda>_. Inr []", OF e n v c] e show ?thesis
    unfolding demo_strip by blast
qed

lemma init_writes_once_witness:
  "init_config (Holds (JDict [(''a'', JInt 1)])) (Holds (JDict [(''b'', JInt 2)])) None False False False Missing =
     (Inr 0, [], Holds (JDict [(''a'', JInt 1), (''b'', JInt 2)])) \<and>
   show_config (Holds (JDict [(''b'', JInt 2)])) (Holds (JDict [(''a'', JInt 1), (''b'', JInt 2)])) =
     (Inr 0, [JDict [(''a'', JInt 1), (''b'', JInt 2)]])"
proof -
  have i: "init_config (Holds (JDict [(''a'', JInt 1)])) (Holds (JDict [(''b'', JInt 2)])) None False False False Missing =
     (Inr 0, [], Holds (JDict [(''a'', JInt 1), (''b'', JInt 2)]))"
    by (simp add: init_config_def build_default_config_def load_template_def)
  have "show_config (Holds (JDict [(''b'', JInt 2)])) (Holds (JDict [(''a'', JInt 1), (''b'', JInt 2)])) =
     (Inr 0, [JDict [(''a'', JInt 1), (''b'', JInt 2)]])"
    using init_writes_once [where base = "Holds (JDict [(''a'', JInt 1)])" and cmts = "Holds (JDict [(''b'', JInt 2)])" and
        failed = None and force = False and print_output = False and dry_run = False and f = Missing]
    by (simp add: i load_template_def)
  with i show ?thesis by blast
qed

lemma validate_exit_codes_witness:
  "validate_config (\<lambda>_. ''error'') (gather_settings (\<lambda>_. Accepted) (\<lambda>_. '''') (\<lambda>_. Inr []) (\<lambda>_. None)
      (Inr (\<lambda>ks. json_at (JDict [(''CmtsOrchestrator'', JDict [(''adapter'', JNull)])]) (map Key ks)))) =
     Inl (TypeError ''object is not iterable'')"
  using validate_exit_codes [of "\<lambda>_. ''error''" Accepted "\<lambda>ks. json_at (JDict [(''CmtsOrchestrator'', JDict [(''adapter'', JNull)])]) (map Key ks)"
    "[(''adapter'', JNull)]" "\<lambda>_. Accepted" "\<lambda>_. ''''" "\<lambda>_. Inr []" "\<lambda>_. None"] by simp

end
