(* ===== verification/Health.thy ===== *)
theory Health
  imports SysDescr
begin

text \<open>
  The health telemetry of \<open>api/health.py\<close>.  What the operating system answers is an input: the text of the
  two \<open>/proc\<close> files, the clock, and the data directory as a tree in which reading an entry may raise.  A
  float is a real number.  Logging is left out.
\<close>

section \<open>The sections of the response\<close>

record uptime_info =
  ui_starttime :: "int option"
  ui_uptime :: "int option"

record memory_info =
  mi_rss :: "int option"
  mi_total :: "int option"
  mi_free :: "int option"
  mi_available :: "int option"
  mi_usage :: "real option"

record data_info =
  di_path :: "string option"
  di_size :: "int option"
  di_directories :: "(string \<times> int) list option"

record health_response =
  hr_status :: string
  hr_message :: "string option"
  hr_name :: string
  hr_version :: string
  hr_uptime :: "uptime_info option"
  hr_memory :: "memory_info option"
  hr_data :: "data_info option"

text \<open>A field that must not be negative.\<close>

definition not_negative :: "int option \<Rightarrow> bool" where
  "not_negative v = (case v of None \<Rightarrow> True | Some n \<Rightarrow> 0 \<le> n)"

definition validate_memory :: "memory_info \<Rightarrow> memory_info result" where
  "validate_memory m =
     (if not_negative (mi_rss m) \<and> not_negative (mi_total m) \<and> not_negative (mi_free m) \<and> not_negative (mi_available m) \<and>
         (case mi_usage m of None \<Rightarrow> True | Some u \<Rightarrow> 0 \<le> u \<and> u \<le> 100)
      then Inr m else Inl (ValueError ''Input should be greater than or equal to 0''))"

definition validate_data :: "data_info \<Rightarrow> data_info result" where
  "validate_data d =
     (if not_negative (di_size d) \<and> (case di_directories d of None \<Rightarrow> True | Some ds \<Rightarrow> list_all (\<lambda>(k, n). 0 \<le> n) ds)
      then Inr d else Inl (ValueError ''Input should be greater than or equal to 0''))"

text \<open>The guard turns an exception into no value.\<close>

definition guard_metric :: "'a option result \<Rightarrow> 'a option" where
  "guard_metric r = (case r of Inl e \<Rightarrow> None | Inr v \<Rightarrow> v)"

section \<open>Uptime\<close>

definition collect_uptime_info :: "int \<Rightarrow> real \<Rightarrow> real \<Rightarrow> uptime_info option" where
  "collect_uptime_info start_epoch start now =
     guard_metric
       (let up = \<lfloor>max (now - start) 0\<rfloor>
        in if start_epoch < 0 then Inl (ValueError ''Input should be greater than or equal to 0'')
           else Inr (Some \<lparr>ui_starttime = Some start_epoch, ui_uptime = Some up\<rparr>))"

section \<open>Memory\<close>

text \<open>A field of a \<open>/proc\<close> file in bytes; the file is missing, cannot be read, or has a text.\<close>

definition line_bytes :: "string \<Rightarrow> int option result" where
  "line_bytes l =
     (let parts = py_words l
      in if length parts < 2 then Inr None
         else case py_int (parts ! 1) of
                None \<Rightarrow> Inl (ValueError ''invalid literal for int() with base 10'')
              | Some n \<Rightarrow> Inr (Some (n * 1024)))"

definition proc_bytes :: "string \<Rightarrow> string result option \<Rightarrow> int option" where
  "proc_bytes field file =
     (case file of
        None \<Rightarrow> None
      | Some content \<Rightarrow>
          guard_metric
            (case content of
               Inl e \<Rightarrow> Inl e
             | Inr text \<Rightarrow>
                 (case filter (\<lambda>l. py_startswith l (field @ '':'')) (py_splitlines text) of
                    [] \<Rightarrow> Inr None
                  | l # _ \<Rightarrow> line_bytes l)))"

text \<open>\<open>round(x, 2)\<close>, half to even.\<close>

definition round2 :: "real \<Rightarrow> real" where
  "round2 x =
     (let y = x * 100; n = \<lfloor>y\<rfloor>; d = y - of_int n
      in of_int (if d < 1 / 2 \<or> (d = 1 / 2 \<and> even n) then n else n + 1) / 100)"

definition compute_usage_percent :: "int option \<Rightarrow> int option \<Rightarrow> real option" where
  "compute_usage_percent rss ram =
     (case (rss, ram) of
        (Some r, Some t) \<Rightarrow>
          if t \<le> 0 then None
          else (let u = round2 (of_int r / of_int t * 100)
                in Some (if u < 0 then 0 else if u > 100 then 100 else u))
      | _ \<Rightarrow> None)"

definition collect_memory_info :: "string result option \<Rightarrow> string result option \<Rightarrow> memory_info result" where
  "collect_memory_info status meminfo =
     (let rss = proc_bytes ''VmRSS'' status; ram = proc_bytes ''MemTotal'' meminfo
      in validate_memory
           \<lparr>mi_rss = rss, mi_total = ram, mi_free = proc_bytes ''MemFree'' meminfo,
            mi_available = proc_bytes ''MemAvailable'' meminfo, mi_usage = compute_usage_percent rss ram\<rparr>)"

section \<open>The data directory\<close>

text \<open>An entry: a file whose size may not be readable, a directory, a directory whose listing raises, an entry
  whose type cannot be asked, a symbolic link, or anything else.\<close>

datatype node =
    File "int result"
  | Dir "(string \<times> node) list"
  | Broken py_exn
  | Unreadable py_exn
  | Link node
  | Other

fun target :: "node \<Rightarrow> node" where
  "target (Link n) = target n"
| "target n = n"

definition file_size :: "node \<Rightarrow> int option" where
  "file_size n =
     guard_metric (case target n of File (Inl e) \<Rightarrow> Inl e | File (Inr s) \<Rightarrow> Inr (Some s) | Unreadable e \<Rightarrow> Inl e | _ \<Rightarrow> Inr None)"

lemma size_members: "size_list size (map snd es) \<le> size_list (size_prod (\<lambda>_. 0) size) es"
  by (induction es) (auto split: prod.split)

text \<open>\<open>rglob\<close>: the entries of each directory, then those below its directories in turn; links are not
  followed, and the first listing that raises ends the traversal.\<close>

function walk :: "node list \<Rightarrow> node list \<times> py_exn option" where
  "walk [] = ([], None)"
| "walk (Dir es # ns) =
     (case walk (map snd es) of
        (xs, Some e) \<Rightarrow> (map snd es @ xs, Some e)
      | (xs, None) \<Rightarrow> (map snd es @ xs @ fst (walk ns), snd (walk ns)))"
| "walk (Broken e # ns) = ([], Some e)"
| "walk (File s # ns) = walk ns"
| "walk (Unreadable e # ns) = walk ns"
| "walk (Link n # ns) = walk ns"
| "walk (Other # ns) = walk ns"
  by pat_completeness auto

termination
proof (relation "measure (size_list size)")
  fix es :: "(string \<times> node) list" and ns :: "node list"
  show "(map snd es, Dir es # ns) \<in> measure (size_list size)"
    using size_members [of es] by simp
qed simp_all

definition folder_size_bytes :: "node option \<Rightarrow> int option result" where
  "folder_size_bytes folder =
     (case folder of
        None \<Rightarrow> Inr None
      | Some n \<Rightarrow>
          (case target n of
             Unreadable e \<Rightarrow> Inl e
           | t \<Rightarrow> Inr (Some (sum_list (List.map_filter file_size (fst (walk [t])))))))"

text \<open>Whether the entry is a directory, and the sizes of the directories up to an entry whose size raises.\<close>

fun first_level :: "(string \<times> node) list \<Rightarrow> (string \<times> int) list" where
  "first_level [] = []"
| "first_level ((name, n) # es) =
     (if (case target n of Dir _ \<Rightarrow> True | Broken _ \<Rightarrow> True | Unreadable _ \<Rightarrow> True | _ \<Rightarrow> False)
      then (case folder_size_bytes (Some n) of
              Inl e \<Rightarrow> []
            | Inr None \<Rightarrow> first_level es
            | Inr (Some s) \<Rightarrow> (name, s) # first_level es)
      else first_level es)"

definition first_level_directory_sizes :: "node option \<Rightarrow> (string \<times> int) list option result" where
  "first_level_directory_sizes folder =
     (case folder of
        None \<Rightarrow> Inr None
      | Some n \<Rightarrow>
          (case target n of
             Unreadable e \<Rightarrow> Inl e
           | Dir es \<Rightarrow> Inr (Some (first_level es))
           | _ \<Rightarrow> Inr (Some [])))"

definition collect_data_info :: "node option \<Rightarrow> data_info result" where
  "collect_data_info data =
     (case folder_size_bytes data of
        Inl e \<Rightarrow> Inl e
      | Inr sz \<Rightarrow>
          (case first_level_directory_sizes data of
             Inl e \<Rightarrow> Inl e
           | Inr dirs \<Rightarrow> validate_data \<lparr>di_path = Some ''.data'', di_size = sz, di_directories = dirs\<rparr>))"

section \<open>The response\<close>

definition missing :: "(string \<times> bool) list \<Rightarrow> string list" where
  "missing xs = map fst (filter snd xs)"

definition missing_uptime_metrics :: "uptime_info \<Rightarrow> string list" where
  "missing_uptime_metrics u = missing [(''uptime.starttime'', ui_starttime u = None), (''uptime.uptime'', ui_uptime u = None)]"

definition missing_memory_metrics :: "memory_info \<Rightarrow> string list" where
  "missing_memory_metrics m =
     missing [(''memory.rss_bytes'', mi_rss m = None), (''memory.total_bytes'', mi_total m = None),
       (''memory.free_bytes'', mi_free m = None), (''memory.available_bytes'', mi_available m = None),
       (''memory.usage_percent'', mi_usage m = None)]"

definition missing_data_metrics :: "data_info \<Rightarrow> string list" where
  "missing_data_metrics d =
     missing [(''data.path'', di_path d = None), (''data.size_bytes'', di_size d = None),
       (''data.directories'', di_directories d = None)]"

definition missing_sections :: "uptime_info option \<Rightarrow> memory_info option \<Rightarrow> data_info option \<Rightarrow> string list" where
  "missing_sections u m d = missing [(''uptime'', u = None), (''memory'', m = None), (''data'', d = None)]"

definition missing_metrics :: "uptime_info option \<Rightarrow> memory_info option \<Rightarrow> data_info option \<Rightarrow> string list" where
  "missing_metrics u m d =
     (case u of None \<Rightarrow> [] | Some x \<Rightarrow> missing_uptime_metrics x) @
     (case m of None \<Rightarrow> [] | Some x \<Rightarrow> missing_memory_metrics x) @
     (case d of None \<Rightarrow> [] | Some x \<Rightarrow> missing_data_metrics x)"

definition health_message :: "string list \<Rightarrow> string list \<Rightarrow> string option" where
  "health_message sections metrics =
     (if sections = [] \<and> metrics = [] then None
      else Some (py_join ''; ''
        ((if sections = [] then [] else [''missing sections: '' @ py_join '', '' sections]) @
         (if metrics = [] then [] else [''missing metrics: '' @ py_join '', '' metrics]))))"

definition assemble_response ::
  "string \<Rightarrow> uptime_info option \<Rightarrow> memory_info option \<Rightarrow> data_info option \<Rightarrow> health_response" where
  "assemble_response version u m d =
     (let sections = missing_sections u m d; metrics = missing_metrics u m d
      in \<lparr>hr_status = (if sections \<noteq> [] \<or> metrics \<noteq> [] then ''warning'' else ''ok''),
          hr_message = health_message sections metrics, hr_name = ''pypnm-docsis-cmts'', hr_version = version,
          hr_uptime = u, hr_memory = m, hr_data = d\<rparr>)"

definition build_response ::
  "string \<Rightarrow> int \<Rightarrow> real \<Rightarrow> real \<Rightarrow> string result option \<Rightarrow> string result option \<Rightarrow> node option \<Rightarrow> health_response result" where
  "build_response version start_epoch start now status meminfo data =
     (case collect_memory_info status meminfo of
        Inl e \<Rightarrow> Inl e
      | Inr m \<Rightarrow>
          (case collect_data_info data of
             Inl e \<Rightarrow> Inl e
           | Inr d \<Rightarrow> Inr (assemble_response version (collect_uptime_info start_epoch start now) (Some m) (Some d))))"

section \<open>Facts\<close>

text \<open>An entry with everything below it readable and without links.\<close>

fun readable :: "node \<Rightarrow> bool" where
  "readable (File s) = (\<exists>n. s = Inr n)"
| "readable (Dir es) = (\<forall>e \<in> set es. readable (snd e))"
| "readable (Broken e) = False"
| "readable (Unreadable e) = False"
| "readable (Link n) = False"
| "readable Other = True"

text \<open>The bytes of the files below an entry, the entry itself included.\<close>

fun bytes_below :: "node \<Rightarrow> int" where
  "bytes_below (File s) = (case s of Inl e \<Rightarrow> 0 | Inr n \<Rightarrow> n)"
| "bytes_below (Dir es) = sum_list (map (\<lambda>e. bytes_below (snd e)) es)"
| "bytes_below (Broken e) = 0"
| "bytes_below (Unreadable e) = 0"
| "bytes_below (Link n) = 0"
| "bytes_below Other = 0"

definition sizes :: "node list \<Rightarrow> int" where
  "sizes ns = sum_list (List.map_filter file_size ns)"

lemma sizes_simps [simp]:
  "sizes [] = 0"
  "sizes (n # ns) = (case file_size n of None \<Rightarrow> 0 | Some s \<Rightarrow> s) + sizes ns"
  "sizes (xs @ ys) = sizes xs + sizes ys"
  by (simp_all add: sizes_def List.map_filter_def split: option.split)

lemma file_size_simps [simp]:
  "file_size (File (Inr s)) = Some s" "file_size (File (Inl e)) = None" "file_size (Dir es) = None"
  "file_size (Broken e) = None" "file_size (Unreadable e) = None" "file_size Other = None"
  by (simp_all add: file_size_def guard_metric_def)

lemma file_size_readable:
  "readable n \<Longrightarrow> (case file_size n of None \<Rightarrow> 0 | Some s \<Rightarrow> s) = (if \<exists>s. n = File s then bytes_below n else 0)"
  by (cases n) auto

text \<open>The traversal of a readable tree ends without an exception and meets every file below it once.\<close>

lemma walk_readable:
  "\<forall>n \<in> set ns. readable n \<Longrightarrow>
   snd (walk ns) = None \<and> sizes ns + sizes (fst (walk ns)) = sum_list (map bytes_below ns)"
proof (induction ns rule: walk.induct)
  case (2 es ns)
  have "snd (walk (map snd es)) = None \<and> sizes (map snd es) + sizes (fst (walk (map snd es))) = sum_list (map bytes_below (map snd es))"
    using 2 by (intro "2.IH"(1)) auto
  moreover from this obtain xs where xs: "walk (map snd es) = (xs, None)" by (cases "walk (map snd es)") auto
  moreover have "snd (walk ns) = None \<and> sizes ns + sizes (fst (walk ns)) = sum_list (map bytes_below ns)"
    using 2 xs by (intro "2.IH"(2) [OF xs [symmetric] refl]) simp
  ultimately show ?case by (simp add: comp_def)
qed (auto split: sum.split)

lemma folder_size_readable:
  "readable (Dir es) \<Longrightarrow> folder_size_bytes (Some (Dir es)) = Inr (Some (bytes_below (Dir es)))"
  using walk_readable [of "[Dir es]"] by (simp add: folder_size_bytes_def sizes_def)

lemma first_level_readable:
  "\<forall>e \<in> set es. readable (snd e) \<Longrightarrow>
   first_level es = List.map_filter (\<lambda>(name, n). case n of Dir _ \<Rightarrow> Some (name, bytes_below n) | _ \<Rightarrow> None) es"
proof (induction es)
  case (Cons e es)
  obtain name n where e: "e = (name, n)" by (metis prod.exhaust)
  show ?case
    using Cons by (cases n) (auto simp: e List.map_filter_def folder_size_readable simp del: bytes_below.simps(2))
qed (simp add: List.map_filter_def)

lemma bytes_split:
  "sum_list (map (\<lambda>e. bytes_below (snd e)) es) =
     sum_list (map snd (List.map_filter (\<lambda>(name, n). case n of Dir _ \<Rightarrow> Some (name, bytes_below n) | _ \<Rightarrow> None) es)) +
     sum_list (map (\<lambda>e. case snd e of File (Inr s) \<Rightarrow> s | _ \<Rightarrow> 0) es)"
proof (induction es)
  case (Cons e es)
  then show ?case
    by (cases e; cases "snd e") (auto simp: List.map_filter_def split: sum.split)
qed (simp add: List.map_filter_def)

lemma missing_Nil: "missing xs = [] \<longleftrightarrow> (\<forall>x \<in> set xs. \<not> snd x)"
  by (auto simp: missing_def filter_empty_conv)

lemma round2_mono_bounds: "0 \<le> x \<Longrightarrow> 0 \<le> round2 x"
  by (auto simp: round2_def Let_def)

section \<open>Properties\<close>

text \<open>When every entry below the data directory can be read and none is a link, the size of the directory is the
  sum of the sizes listed for its directories and of the files that stand in it.\<close>

theorem data_size_adds_up:
  assumes "readable (Dir es)"
  shows "\<exists>ds. first_level_directory_sizes (Some (Dir es)) = Inr (Some ds) \<and>
    folder_size_bytes (Some (Dir es)) =
      Inr (Some (sum_list (map snd ds) + sum_list (map (\<lambda>e. case snd e of File (Inr s) \<Rightarrow> s | _ \<Rightarrow> 0) es)))"
proof -
  have "first_level_directory_sizes (Some (Dir es)) = Inr (Some (first_level es))"
    by (simp add: first_level_directory_sizes_def)
  then show ?thesis
    using assms by (simp add: folder_size_readable first_level_readable bytes_split)
qed

text \<open>The status is \<open>ok\<close> exactly when no section and no field is missing, and there is a message exactly when it
  is not.\<close>

theorem health_ok_iff:
  "(hr_status (assemble_response version u m d) = ''ok'' \<longleftrightarrow>
      (\<exists>ui mi di. u = Some ui \<and> m = Some mi \<and> d = Some di \<and>
         ui_starttime ui \<noteq> None \<and> ui_uptime ui \<noteq> None \<and>
         mi_rss mi \<noteq> None \<and> mi_total mi \<noteq> None \<and> mi_free mi \<noteq> None \<and> mi_available mi \<noteq> None \<and> mi_usage mi \<noteq> None \<and>
         di_path di \<noteq> None \<and> di_size di \<noteq> None \<and> di_directories di \<noteq> None)) \<and>
   (hr_message (assemble_response version u m d) = None \<longleftrightarrow> hr_status (assemble_response version u m d) = ''ok'')"
proof -
  have "hr_status (assemble_response version u m d) = ''ok'' \<longleftrightarrow> missing_sections u m d = [] \<and> missing_metrics u m d = []"
    by (simp add: assemble_response_def Let_def)
  moreover have "missing_sections u m d = [] \<longleftrightarrow> u \<noteq> None \<and> m \<noteq> None \<and> d \<noteq> None"
    by (simp add: missing_sections_def missing_Nil)
  moreover have "hr_message (assemble_response version u m d) = None \<longleftrightarrow> missing_sections u m d = [] \<and> missing_metrics u m d = []"
    by (simp add: assemble_response_def health_message_def Let_def)
  ultimately show ?thesis
    by (auto simp: missing_metrics_def missing_uptime_metrics_def missing_memory_metrics_def missing_data_metrics_def missing_Nil
        split: option.splits)
qed

text \<open>The share of the memory is between 0 and 100, and there is one exactly when the process and the total are
  known and the total is positive.\<close>

theorem usage_percent_bounded:
  "(compute_usage_percent rss ram = None \<longleftrightarrow> rss = None \<or> ram = None \<or> the ram \<le> 0) \<and>
   (\<forall>u. compute_usage_percent rss ram = Some u \<longrightarrow> 0 \<le> u \<and> u \<le> 100)"
  by (auto simp: compute_usage_percent_def Let_def split: option.splits)

text \<open>A listing that raises ends the traversal with the files met so far, and this sum is reported as the size of
  the data directory: it can be less than the sizes listed for the directories in it, which stop in turn at an
  entry whose type cannot be asked.  No metric counts as missing.\<close>

theorem partial_sizes_look_complete:
  assumes "readable (Dir fs)" and "0 \<le> bytes_below (Dir fs)" and "readable (Dir gs)" and "0 \<le> bytes_below (Dir gs)"
  shows "\<exists>di. collect_data_info (Some (Dir [(a, Dir fs), (b, Broken e), (c, Dir gs), (d, Unreadable e'), (f, Dir hs)])) = Inr di \<and>
    di_size di = Some (bytes_below (Dir fs)) \<and>
    di_directories di = Some [(a, bytes_below (Dir fs)), (b, 0), (c, bytes_below (Dir gs))] \<and>
    missing_data_metrics di = []"
proof -
  let ?es = "[(a, Dir fs), (b, Broken e), (c, Dir gs), (d, Unreadable e'), (f, Dir hs)]"
  obtain xs where xs: "walk (map snd fs) = (xs, None)" "sizes (map snd fs) + sizes xs = bytes_below (Dir fs)"
    using walk_readable [of "map snd fs"] assms(1) by (cases "walk (map snd fs)") (auto simp: comp_def)
  have "fst (walk [Dir ?es]) = map snd ?es @ map snd fs @ xs" by (simp add: xs(1))
  then have "folder_size_bytes (Some (Dir ?es)) = Inr (Some (sizes (map snd ?es @ map snd fs @ xs)))"
    by (simp add: folder_size_bytes_def sizes_def)
  also have "\<dots> = Inr (Some (bytes_below (Dir fs)))" using xs(2) by simp
  finally have size: "folder_size_bytes (Some (Dir ?es)) = Inr (Some (bytes_below (Dir fs)))" .
  have "folder_size_bytes (Some (Broken e)) = Inr (Some 0)" "folder_size_bytes (Some (Unreadable e')) = Inl e'"
    by (simp_all add: folder_size_bytes_def)
  then have "first_level_directory_sizes (Some (Dir ?es)) =
      Inr (Some [(a, bytes_below (Dir fs)), (b, 0), (c, bytes_below (Dir gs))])"
    using assms by (simp add: first_level_directory_sizes_def folder_size_readable del: readable.simps bytes_below.simps(2))
  then show ?thesis
    using assms(2,4) by (simp add: collect_data_info_def size validate_data_def not_negative_def missing_data_metrics_def
        missing_Nil del: bytes_below.simps(2))
qed

text \<open>A negative resident size in the process file makes the whole health request fail, although each
  metric is guarded.\<close>

theorem negative_field_fails_request:
  assumes "filter (\<lambda>l. py_startswith l (''VmRSS'' @ '':'')) (py_splitlines text) = l # ls"
    and "py_words l = k # int_str n # r" and "n < 0"
  shows "proc_bytes ''VmRSS'' (Some (Inr text)) = Some (n * 1024) \<and>
    build_response version start_epoch start now (Some (Inr text)) meminfo data =
      Inl (ValueError ''Input should be greater than or equal to 0'')"
proof -
  have "line_bytes l = Inr (Some (n * 1024))" by (simp add: line_bytes_def assms(2) py_int_int_str Let_def)
  then have p: "proc_bytes ''VmRSS'' (Some (Inr text)) = Some (n * 1024)"
    using assms(1) by (simp add: proc_bytes_def guard_metric_def)
  then show ?thesis
    using assms(3) by (simp add: build_response_def collect_memory_info_def validate_memory_def not_negative_def Let_def)
qed

section \<open>Witnesses\<close>

lemma data_size_adds_up_witness:
  "\<exists>ds. first_level_directory_sizes (Some (Dir [(''pnm'', Dir [(''a'', File (Inr 3))]), (''x'', File (Inr 4))])) = Inr (Some ds) \<and>
     folder_size_bytes (Some (Dir [(''pnm'', Dir [(''a'', File (Inr 3))]), (''x'', File (Inr 4))])) = Inr (Some (sum_list (map snd ds) + 4))"
  using data_size_adds_up [of "[(''pnm'', Dir [(''a'', File (Inr 3))]), (''x'', File (Inr 4))]"] by simp

lemma partial_sizes_look_complete_witness:
  "\<exists>di. collect_data_info (Some (Dir [(''a'', Dir [(''x'', File (Inr 1))]), (''b'', Broken OSError), (''c'', Dir [(''y'', File (Inr 7))]),
       (''d'', Unreadable OSError), (''f'', Dir [])])) = Inr di \<and>
     di_size di = Some 1 \<and> di_directories di = Some [(''a'', 1), (''b'', 0), (''c'', 7)] \<and> missing_data_metrics di = []"
  using partial_sizes_look_complete [of "[(''x'', File (Inr 1))]" "[(''y'', File (Inr 7))]" "''a''" "''b''" OSError "''c''" "''d''" OSError "''f''" "[]"]
  by simp

lemma negative_field_fails_request_witness:
  "build_response ''1.0'' 0 0 0 (Some (Inr ''VmRSS: -5 kB'')) None None =
     Inl (ValueError ''Input should be greater than or equal to 0'')"
proof -
  have l: "filter (\<lambda>l. py_startswith l (''VmRSS'' @ '':'')) (py_splitlines ''VmRSS: -5 kB'') = [''VmRSS: -5 kB'']"
    by (simp add: py_splitlines_def py_startswith_def line_break_def)
  have w: "py_words ''VmRSS: -5 kB'' = [''VmRSS:'', int_str (- 5), ''kB'']"
    by (simp add: py_words.simps py_lstrip_def py_space_def int_str_def nat_str.simps digit_char_def char_of_def bit_Suc_0_iff)
  have n: "(- 5 :: int) < 0" by simp
  from negative_field_fails_request [OF l w n] show ?thesis by blast
qed

end
