(* ===== verification/CliArgs.thy ===== *)
theory CliArgs
  imports ConfigCommands Launcher
begin

text \<open>
  The command line of \<open>cli.py\<close>: the options of each command as tables, and what \<open>argparse\<close> makes of an
  argument list with them.  An option is given by its name or an unambiguous beginning of it, its value after
  an equals sign or as the next argument; the argument that only consists of two dashes and several one-letter
  options in one argument are counted as usage errors.  \<open>fl\<close> is \<open>float\<close> on a string.  Help texts are left
  out.
\<close>

section \<open>Options\<close>

datatype arg_kind =
    Text string
  | IntArg "int option"
  | RealArg "real option"
  | Choice "string list" "string option" bool
  | Switch
  | Append "string list"
  | Help

text \<open>The names of an option, the attribute it sets, and its kind with the default; a choice may be
  required.\<close>

type_synonym arg_spec = "string list \<times> string \<times> arg_kind"

datatype cli_value = VText string | VInt int | VReal real | VBool bool | VList "string list" | VNone

type_synonym namespace = "string \<Rightarrow> cli_value option"

definition help_args :: "arg_spec list" where
  "help_args = [([''-h'', ''--help''], ''help'', Help)]"

definition run_mode_args :: "arg_spec list" where
  "run_mode_args =
     [([''--mode''], ''mode'', Choice [''standalone'', ''controller'', ''worker'', ''combined''] None True),
      ([''--config''], ''config'', Text ''''),
      ([''--cmts-hostname''], ''cmts_hostname'', Text ''''),
      ([''--read-community''], ''read_community'', Text ''''),
      ([''--write-community''], ''write_community'', Text ''''),
      ([''--snmp-port'', ''--cmts-port''], ''snmp_port'', IntArg None),
      ([''--sg-id''], ''sg_id'', Text ''''),
      ([''--owner-id''], ''owner_id'', Text ''''),
      ([''--target-service-groups''], ''target_service_groups'', IntArg None),
      ([''--shard-mode''], ''shard_mode'', Choice [''sequential'', ''score''] None False),
      ([''--tick-interval-seconds''], ''tick_interval_seconds'', RealArg None),
      ([''--leader-ttl-seconds''], ''leader_ttl_seconds'', IntArg None),
      ([''--lease-ttl-seconds''], ''lease_ttl_seconds'', IntArg None),
      ([''--state-dir''], ''state_dir'', Text ''''),
      ([''--election-name''], ''election_name'', Text ''''),
      ([''--cm-snmpv2c-write-community''], ''cm_snmpv2c_write_community'', Text ''''),
      ([''--cm-tftp-ipv4''], ''cm_tftp_ipv4'', Text ''''),
      ([''--cm-tftp-ipv6''], ''cm_tftp_ipv6'', Text '''')]"

definition run_forever_args :: "arg_spec list" where
  "run_forever_args = run_mode_args @ [([''--max-ticks''], ''max_ticks'', IntArg None)]"

definition discover_args :: "arg_spec list" where
  "discover_args =
     [([''--cmts-hostname''], ''cmts_hostname'', Text ''''),
      ([''--read-community''], ''read_community'', Text ''''),
      ([''--write-community''], ''write_community'', Text ''''),
      ([''--port''], ''port'', IntArg (Some 161)),
      ([''--config''], ''config'', Text ''''),
      ([''--state-dir''], ''state_dir'', Text ''''),
      ([''--text''], ''text'', Switch)]"

definition serve_args :: "arg_spec list" where
  "serve_args =
     [([''--host''], ''host'', Text ''127.0.0.1''),
      ([''--port''], ''port'', IntArg (Some 8080)),
      ([''--ssl''], ''ssl'', Switch),
      ([''--cert''], ''cert'', Text ''./certs/cert.pem''),
      ([''--key''], ''key'', Text ''./certs/key.pem''),
      ([''--cmts-hostname''], ''cmts_hostname'', Text ''''),
      ([''--read-community''], ''read_community'', Text ''''),
      ([''--write-community''], ''write_community'', Text ''''),
      ([''--cm-snmpv2c-write-community''], ''cm_snmpv2c_write_community'', Text ''''),
      ([''--cm-tftp-ipv4''], ''cm_tftp_ipv4'', Text ''''),
      ([''--cm-tftp-ipv6''], ''cm_tftp_ipv6'', Text ''''),
      ([''--with-runner''], ''with_runner'', Switch),
      ([''--mute-pypnm-endpoints''], ''mute_pypnm_endpoints'', Switch),
      ([''--mute-tags''], ''mute_tags'', Text ''''),
      ([''--mute-tags-hard''], ''mute_tags_hard'', Switch),
      ([''--debug''], ''debug'', Switch),
      ([''--log-level''], ''log_level'',
         Choice [''critical'', ''error'', ''warning'', ''info'', ''debug'', ''trace''] (Some ''info'') False),
      ([''--workers''], ''workers'', IntArg None),
      ([''--limit-max-requests''], ''limit_max_requests'', IntArg None),
      ([''--no-access-log''], ''no_access_log'', Switch),
      ([''--reload''], ''reload'', Switch),
      ([''--reload-dir''], ''reload_dirs'', Append []),
      ([''--reload-include''], ''reload_includes'', Append [''*.py'']),
      ([''--reload-exclude''], ''reload_excludes'', Append [''*.pyc'', ''*__pycache__*'', ''*.tmp'', ''*.log'']),
      ([''--run-background''], ''run_background'', Switch),
      ([''--background-log-file''], ''background_log_file'', Text ''''),
      ([''--background-pidfile''], ''background_pidfile'', Text '''')]"

definition config_menu_args :: "arg_spec list" where
  "config_menu_args = [([''--config''], ''config'', Text '''')]"

definition config_init_args :: "arg_spec list" where
  "config_init_args =
     [([''--path''], ''path'', Text ''''), ([''--force''], ''force'', Switch), ([''--print''], ''print_output'', Switch),
      ([''--dry-run''], ''dry_run'', Switch)]"

definition config_validate_args :: "arg_spec list" where
  "config_validate_args = [([''--path''], ''path'', Text ''''), ([''--json''], ''json'', Switch)]"

definition config_show_args :: "arg_spec list" where
  "config_show_args = [([''--path''], ''path'', Text ''''), ([''--pretty''], ''pretty'', Switch)]"

section \<open>Parsing\<close>

definition default_value :: "arg_kind \<Rightarrow> cli_value" where
  "default_value k =
     (case k of
        Text s \<Rightarrow> VText s
      | IntArg d \<Rightarrow> (case d of None \<Rightarrow> VNone | Some n \<Rightarrow> VInt n)
      | RealArg d \<Rightarrow> (case d of None \<Rightarrow> VNone | Some x \<Rightarrow> VReal x)
      | Choice cs d r \<Rightarrow> (case d of None \<Rightarrow> VNone | Some s \<Rightarrow> VText s)
      | Switch \<Rightarrow> VBool False
      | Append xs \<Rightarrow> VList xs
      | Help \<Rightarrow> VNone)"

definition defaults :: "arg_spec list \<Rightarrow> namespace" where
  "defaults specs = map_of (map (\<lambda>(names, dest, k). (dest, default_value k)) specs)"

text \<open>The names an argument can stand for: itself, or those it begins.\<close>

definition named :: "arg_spec list \<Rightarrow> (string \<times> string \<times> arg_kind) list" where
  "named specs = concat (map (\<lambda>(names, d). map (\<lambda>n. (n, d)) names) specs)"

definition beginnings :: "arg_spec list \<Rightarrow> string \<Rightarrow> (string \<times> arg_kind) list" where
  "beginnings specs name =
     (if py_startswith name ''--'' then map snd (filter (\<lambda>(n, d). py_startswith n name) (named specs)) else [])"

definition find_option :: "arg_spec list \<Rightarrow> string \<Rightarrow> (string \<times> arg_kind) option" where
  "find_option specs name =
     (case map_of (named specs) name of
        Some d \<Rightarrow> Some d
      | None \<Rightarrow> (case beginnings specs name of [d] \<Rightarrow> Some d | _ \<Rightarrow> None))"

definition ambiguous :: "arg_spec list \<Rightarrow> string \<Rightarrow> bool" where
  "ambiguous specs name = (map_of (named specs) name = None \<and> length (beginnings specs name) > 1)"

text \<open>An argument cut at its first equals sign.\<close>

definition split_value :: "string \<Rightarrow> string \<times> string option" where
  "split_value t =
     (case dropWhile (\<lambda>c. c \<noteq> CHR ''='') t of
        [] \<Rightarrow> (t, None)
      | _ # v \<Rightarrow> (takeWhile (\<lambda>c. c \<noteq> CHR ''='') t, Some v))"

definition digits :: "string \<Rightarrow> bool" where
  "digits s = (\<forall>c \<in> set s. digit_value c \<noteq> None)"

definition negative_number :: "string \<Rightarrow> bool" where
  "negative_number t =
     (case t of
        CHR ''-'' # s \<Rightarrow>
          (s \<noteq> '''' \<and> digits s) \<or>
          (case dropWhile (\<lambda>c. digit_value c \<noteq> None) s of CHR ''.'' # f \<Rightarrow> f \<noteq> '''' \<and> digits f | _ \<Rightarrow> False)
      | _ \<Rightarrow> False)"

text \<open>Whether an argument is taken for an option.\<close>

definition is_option :: "arg_spec list \<Rightarrow> string \<Rightarrow> bool" where
  "is_option specs t =
     (py_startswith t ''-'' \<and> t \<noteq> ''-'' \<and>
      (find_option specs t \<noteq> None \<or> (snd (split_value t) \<noteq> None \<and> find_option specs (fst (split_value t)) \<noteq> None) \<or>
       (\<not> negative_number t \<and> CHR '' '' \<notin> set t)))"

definition convert :: "(string \<Rightarrow> real option) \<Rightarrow> arg_kind \<Rightarrow> cli_value option \<Rightarrow> string \<Rightarrow> cli_value option" where
  "convert fl k old v =
     (case k of
        Text _ \<Rightarrow> Some (VText v)
      | IntArg _ \<Rightarrow> map_option VInt (py_int v)
      | RealArg _ \<Rightarrow> map_option VReal (fl v)
      | Choice cs _ _ \<Rightarrow> if v \<in> set cs then Some (VText v) else None
      | Append _ \<Rightarrow> Some (VList ((case old of Some (VList xs) \<Rightarrow> xs | _ \<Rightarrow> []) @ [v]))
      | _ \<Rightarrow> None)"

datatype parsed = Parsed namespace | Exit int

definition missing_required :: "arg_spec list \<Rightarrow> namespace \<Rightarrow> bool" where
  "missing_required specs ns = (\<exists>(names, dest, k) \<in> set specs. (case k of Choice _ _ r \<Rightarrow> r | _ \<Rightarrow> False) \<and> ns dest = Some VNone)"

text \<open>Arguments that are not understood are reported at the end, after those that show the help.\<close>

fun parse_tokens :: "(string \<Rightarrow> real option) \<Rightarrow> arg_spec list \<Rightarrow> string list \<Rightarrow> namespace \<Rightarrow> bool \<Rightarrow> parsed" where
  "parse_tokens fl specs [] ns extra = (if extra \<or> missing_required specs ns then Exit 2 else Parsed ns)"
| "parse_tokens fl specs (t # ts) ns extra =
     (if \<not> is_option specs t then parse_tokens fl specs ts ns True
      else
        (case (if map_of (named specs) t = None then split_value t else (t, None)) of (name, inline) \<Rightarrow>
          (case find_option specs name of
             None \<Rightarrow> parse_tokens fl specs ts ns True
           | Some (dest, Help) \<Rightarrow> if inline = None then Exit 0 else Exit 2
           | Some (dest, Switch) \<Rightarrow>
               if inline = None then parse_tokens fl specs ts (ns(dest \<mapsto> VBool True)) extra else Exit 2
           | Some (dest, k) \<Rightarrow>
               (case inline of
                  Some v \<Rightarrow>
                    (case convert fl k (ns dest) v of
                       None \<Rightarrow> Exit 2
                     | Some x \<Rightarrow> parse_tokens fl specs ts (ns(dest \<mapsto> x)) extra)
                | None \<Rightarrow>
                    (case ts of
                       [] \<Rightarrow> Exit 2
                     | v # ts' \<Rightarrow>
                         if is_option specs v then Exit 2
                         else (case convert fl k (ns dest) v of
                                 None \<Rightarrow> Exit 2
                               | Some x \<Rightarrow> parse_tokens fl specs ts' (ns(dest \<mapsto> x)) extra))))))"

definition parse_options :: "(string \<Rightarrow> real option) \<Rightarrow> arg_spec list \<Rightarrow> string list \<Rightarrow> parsed" where
  "parse_options fl specs argv =
     (let all = help_args @ specs
      in if \<exists>t \<in> set argv. py_startswith t ''-'' \<and> ambiguous all (fst (split_value t)) then Exit 2
         else parse_tokens fl all argv (defaults specs) False)"

text \<open>The commands; the first argument is the command or shows the help or the version.\<close>

datatype command =
    RunOnce namespace | RunForever namespace | Discover namespace | Serve namespace | ConfigMenu namespace
  | ConfigInit namespace | ConfigValidate namespace | ConfigShow namespace | ConfigOnly | NoCommand

definition as_command :: "(namespace \<Rightarrow> command) \<Rightarrow> parsed \<Rightarrow> int + command" where
  "as_command f p = (case p of Parsed ns \<Rightarrow> Inr (f ns) | Exit c \<Rightarrow> Inl c)"

definition parse_config :: "(string \<Rightarrow> real option) \<Rightarrow> string list \<Rightarrow> int + command" where
  "parse_config fl argv =
     (case argv of
        [] \<Rightarrow> Inr ConfigOnly
      | t # ts \<Rightarrow>
          if t = ''init'' then as_command ConfigInit (parse_options fl config_init_args ts)
          else if t = ''validate'' then as_command ConfigValidate (parse_options fl config_validate_args ts)
          else if t = ''show'' then as_command ConfigShow (parse_options fl config_show_args ts)
          else if find_option help_args t \<noteq> None then Inl 0
          else Inl 2)"

definition version_args :: "arg_spec list" where
  "version_args = help_args @ [([''-v'', ''--version''], ''version'', Help)]"

definition parse_args :: "(string \<Rightarrow> real option) \<Rightarrow> string list \<Rightarrow> int + command" where
  "parse_args fl argv =
     (case argv of
        [] \<Rightarrow> Inr NoCommand
      | t # ts \<Rightarrow>
          if t = ''run'' then as_command RunOnce (parse_options fl run_mode_args ts)
          else if t = ''run-forever'' then as_command RunForever (parse_options fl run_forever_args ts)
          else if t = ''discover'' then as_command Discover (parse_options fl discover_args ts)
          else if t = ''serve'' then as_command Serve (parse_options fl serve_args ts)
          else if t = ''config-menu'' then as_command ConfigMenu (parse_options fl config_menu_args ts)
          else if t = ''config'' then parse_config fl ts
          else if find_option version_args t \<noteq> None then Inl 0
          else Inl 2)"

section \<open>Facts\<close>

lemma cut_at:
  "c \<notin> set n \<Longrightarrow> dropWhile (\<lambda>x. x \<noteq> c) (n @ m) = dropWhile (\<lambda>x. x \<noteq> c) m \<and>
     takeWhile (\<lambda>x. x \<noteq> c) (n @ m) = n @ takeWhile (\<lambda>x. x \<noteq> c) m"
  by (induction n) auto

lemma split_value_plain: "CHR ''='' \<notin> set n \<Longrightarrow> split_value n = (n, None)"
proof -
  assume "CHR ''='' \<notin> set n"
  then have "dropWhile (\<lambda>c. c \<noteq> CHR ''='') n = []" by (auto simp: dropWhile_eq_Nil_conv)
  then show ?thesis by (simp only: split_value_def list.case)
qed

lemma split_value_equals: "CHR ''='' \<notin> set n \<Longrightarrow> split_value (n @ ''='' @ v) = (n, Some v)"
  using cut_at [of "CHR ''=''" n "''='' @ v"] by (simp add: split_value_def)

lemma dash_dash: "py_startswith n ''--'' \<Longrightarrow> py_startswith n ''-'' \<and> n \<noteq> ''-''"
  by (cases n; cases "tl n") (auto simp: py_startswith_def)

text \<open>A value given after its name or after an equals sign.\<close>

definition render :: "string \<times> string \<times> bool \<Rightarrow> string list" where
  "render x = (case x of (n, v, inline) \<Rightarrow> if inline then [n @ ''='' @ v] else [n, v])"

text \<open>An option with a text, given by its full name; a value that stands alone does not begin with a dash.\<close>

definition text_option :: "arg_spec list \<Rightarrow> string \<times> string \<times> bool \<Rightarrow> bool" where
  "text_option specs x =
     (case x of (n, v, inline) \<Rightarrow>
        py_startswith n ''--'' \<and> CHR ''='' \<notin> set n \<and> (\<exists>dest d. map_of (named specs) n = Some (dest, Text d)) \<and>
        (inline \<or> \<not> py_startswith v ''-''))"

definition destination :: "arg_spec list \<Rightarrow> string \<Rightarrow> string" where
  "destination specs n = (case map_of (named specs) n of None \<Rightarrow> '''' | Some (dest, k) \<Rightarrow> dest)"

definition no_equals :: "arg_spec list \<Rightarrow> bool" where
  "no_equals specs = (\<forall>n \<in> fst ` set (named specs). CHR ''='' \<notin> set n)"

lemma equals_not_named: "no_equals specs \<Longrightarrow> map_of (named specs) (n @ ''='' @ v) = None"
  by (force simp: no_equals_def map_of_eq_None_iff)

lemma parse_option_value:
  assumes "map_of (named specs) n = Some (dest, k)" and "k \<notin> {Help, Switch}" and "py_startswith n ''-''" and "n \<noteq> ''-''"
    and "\<not> is_option specs v" and "convert fl k (ns dest) v = Some x"
  shows "parse_tokens fl specs (n # v # ts) ns extra = parse_tokens fl specs ts (ns(dest \<mapsto> x)) extra"
proof -
  have f: "find_option specs n = Some (dest, k)" by (simp add: find_option_def assms(1))
  then have "is_option specs n" using assms(3,4) by (simp add: is_option_def)
  then show ?thesis using assms f by (cases k) simp_all
qed

lemma parse_text_option:
  assumes "no_equals specs" and "text_option specs (n, v, inline)"
  shows "parse_tokens fl specs (render (n, v, inline) @ ts) ns extra =
    parse_tokens fl specs ts (ns(destination specs n \<mapsto> VText v)) extra"
proof -
  obtain dest d where d: "map_of (named specs) n = Some (dest, Text d)" and n: "py_startswith n ''--''" "CHR ''='' \<notin> set n"
    using assms(2) by (auto simp: text_option_def)
  have f: "find_option specs n = Some (dest, Text d)" by (simp add: find_option_def d)
  have dest: "destination specs n = dest" by (simp add: destination_def d)
  show ?thesis
  proof (cases inline)
    case True
    have o': "is_option specs (n @ ''='' @ v)"
    proof -
      obtain m where "n = ''--'' @ m" using n(1) by (auto simp: py_startswith_iff)
      then show ?thesis using f split_value_equals [OF n(2), of v] by (auto simp: is_option_def py_startswith_def)
    qed
    show ?thesis
      using o' split_value_equals [OF n(2), of v] equals_not_named [OF assms(1), of n v] f
      by (simp add: True render_def convert_def dest)
  next
    case False
    then have v: "\<not> is_option specs v" using assms(2) by (simp add: text_option_def is_option_def)
    have "is_option specs n" using dash_dash [OF n(1)] f by (simp add: is_option_def)
    then show ?thesis using v by (simp add: False render_def convert_def d f dest)
  qed
qed

definition set_texts :: "arg_spec list \<Rightarrow> (string \<times> string \<times> bool) list \<Rightarrow> namespace \<Rightarrow> namespace" where
  "set_texts specs xs ns = fold (\<lambda>(n, v, inline) ns. ns(destination specs n \<mapsto> VText v)) xs ns"

lemma set_texts_simps [simp]:
  "set_texts specs [] ns = ns"
  "set_texts specs ((n, v, i) # xs) ns = set_texts specs xs (ns(destination specs n \<mapsto> VText v))"
  by (simp_all add: set_texts_def)

lemma parse_text_options:
  assumes "no_equals specs" and "\<forall>x \<in> set xs. text_option specs x"
  shows "parse_tokens fl specs (concat (map render xs) @ ts) ns extra =
    parse_tokens fl specs ts (set_texts specs xs ns) extra"
  using assms(2)
proof (induction xs arbitrary: ns)
  case (Cons x xs)
  obtain n v i where x: "x = (n, v, i)" by (metis prod.exhaust)
  then show ?case using Cons assms(1) by (simp add: parse_text_option del: fun_upd_apply)
qed simp

lemma render_unambiguous:
  assumes "text_option specs x" and "t \<in> set (render x)"
  shows "\<not> (py_startswith t ''-'' \<and> ambiguous specs (fst (split_value t)))"
proof -
  obtain n v i where x: "x = (n, v, i)" by (metis prod.exhaust)
  have n: "CHR ''='' \<notin> set n" "map_of (named specs) n \<noteq> None" using assms(1) by (auto simp: x text_option_def)
  then show ?thesis
    using assms split_value_plain [OF n(1)] split_value_equals [OF n(1), of v]
    by (cases i) (auto simp: x render_def text_option_def ambiguous_def)
qed

section \<open>Properties\<close>

text \<open>Texts given by the full names of their options, after the name or after an equals sign, are read back into
  the attributes of the options, the last one of an attribute counts, and everything else has its default.\<close>

theorem text_options_read_back:
  assumes "no_equals (help_args @ specs)" and "\<forall>x \<in> set xs. text_option (help_args @ specs) x"
    and "\<not> missing_required (help_args @ specs) (set_texts (help_args @ specs) xs (defaults specs))"
  shows "parse_options fl specs (concat (map render xs)) =
    Parsed (set_texts (help_args @ specs) xs (defaults specs))"
proof -
  have "\<not> (\<exists>t \<in> set (concat (map render xs)). py_startswith t ''-'' \<and> ambiguous (help_args @ specs) (fst (split_value t)))"
    using assms(2) render_unambiguous by fastforce
  then show ?thesis
    using parse_text_options [OF assms(1,2), of fl "[]" "defaults specs" False] assms(3)
    unfolding parse_options_def Let_def by simp
qed

section \<open>Witness\<close>

lemma serve_args_plain: "no_equals (help_args @ serve_args)"
  by (simp add: no_equals_def named_def help_args_def serve_args_def)

lemma serve_args_optional: "\<not> missing_required (help_args @ serve_args) ns"
  by (simp add: missing_required_def help_args_def serve_args_def)

lemma text_options_read_back_witness:
  "parse_options (\<lambda>_. None) serve_args [''--host'', ''cmts'', ''--cert=-c'', ''--host'', ''lab''] =
     Parsed ((defaults serve_args)(''host'' \<mapsto> VText ''lab'', ''cert'' \<mapsto> VText ''-c''))"
proof -
  let ?xs = "[(''--host'', ''cmts'', False), (''--cert'', ''-c'', True), (''--host'', ''lab'', False)]"
  have t: "\<forall>x \<in> set ?xs. text_option (help_args @ serve_args) x"
    by (simp add: text_option_def named_def help_args_def serve_args_def py_startswith_def)
  have d: "destination (help_args @ serve_args) ''--host'' = ''host''" "destination (help_args @ serve_args) ''--cert'' = ''cert''"
    by (simp_all add: destination_def named_def help_args_def serve_args_def)
  from text_options_read_back [OF serve_args_plain t serve_args_optional, of "\<lambda>_. None"] show ?thesis
    by (simp add: render_def d fun_upd_twist)
qed

end
