(* ===== verification/Cli.thy ===== *)
theory Cli
  imports CliArgs Inventory
begin

text \<open>
  The commands of \<open>cli.py\<close>, from the parsed arguments to the exit code.  A call of another part is an input
  with the exceptions it can raise: what pydantic rejects, which is a \<open>ValueError\<close> of its own class, and
  everything else.  Paths are texts; \<open>absolute\<close>, \<open>resolve\<close> and \<open>norm\<close> are what \<open>pathlib\<close> makes of
  them.  What is printed is left out, except the results of the runs.
\<close>

section \<open>Reading the arguments\<close>

definition arg_text :: "namespace \<Rightarrow> string \<Rightarrow> string" where
  "arg_text ns k = (case ns k of Some (VText s) \<Rightarrow> s | _ \<Rightarrow> '''')"

definition arg_stripped :: "namespace \<Rightarrow> string \<Rightarrow> string" where
  "arg_stripped ns k = py_strip (arg_text ns k)"

definition arg_int :: "namespace \<Rightarrow> string \<Rightarrow> int option" where
  "arg_int ns k = (case ns k of Some (VInt n) \<Rightarrow> Some n | _ \<Rightarrow> None)"

definition arg_real :: "namespace \<Rightarrow> string \<Rightarrow> real option" where
  "arg_real ns k = (case ns k of Some (VReal x) \<Rightarrow> Some x | _ \<Rightarrow> None)"

definition arg_flag :: "namespace \<Rightarrow> string \<Rightarrow> bool" where
  "arg_flag ns k = (ns k = Some (VBool True))"

definition arg_list :: "namespace \<Rightarrow> string \<Rightarrow> string list" where
  "arg_list ns k = (case ns k of Some (VList xs) \<Rightarrow> xs | _ \<Rightarrow> [])"

definition text_or_none :: "string \<Rightarrow> string option" where
  "text_or_none s = (if s = '''' then None else Some s)"

text \<open>What a call raises: the errors of a pydantic validation, or another exception.\<close>

datatype failure = Invalid "(string list \<times> string) list" | Failed py_exn

type_synonym 'a call = "failure + 'a"

section \<open>The launcher\<close>

fun extract_flag_value :: "string list \<Rightarrow> string \<Rightarrow> string option" where
  "extract_flag_value [] flag = None"
| "extract_flag_value (t # ts) flag =
     (if t = flag then Some (case ts of [] \<Rightarrow> '''' | v # _ \<Rightarrow> v)
      else if py_startswith t (flag @ ''='') then Some (drop (length flag + 1) t)
      else extract_flag_value ts flag)"

definition resolve_snmp_port :: "namespace \<Rightarrow> string list \<Rightarrow> int option result" where
  "resolve_snmp_port ns argv =
     (case extract_flag_value argv ''--snmp-port'' of
        None \<Rightarrow> Inr (arg_int ns ''snmp_port'')
      | Some v \<Rightarrow> (case py_int v of None \<Rightarrow> Inl (ValueError ''invalid literal for int()'') | Some n \<Rightarrow> Inr (Some n)))"

definition validate_non_negative :: "int option \<Rightarrow> string \<Rightarrow> unit result" where
  "validate_non_negative v name =
     (case v of None \<Rightarrow> Inr () | Some n \<Rightarrow> if n < 0 then Inl (ValueError (name @ '' must be non-negative'')) else Inr ())"

definition validate_positive :: "real option \<Rightarrow> string \<Rightarrow> unit result" where
  "validate_positive v name =
     (case v of None \<Rightarrow> Inr () | Some x \<Rightarrow> if x \<le> 0 then Inl (ValueError (name @ '' must be greater than zero'')) else Inr ())"

definition parse_sg_id :: "string \<Rightarrow> int result" where
  "parse_sg_id v =
     (if py_strip v = '''' then Inl (ValueError ''service group id must be non-empty.'')
      else case py_int (py_strip v) of
             None \<Rightarrow> Inl (ValueError ''service group id must be a numeric value.'')
           | Some n \<Rightarrow> Inr n)"

text \<open>The arguments of the launcher.\<close>

record launch =
  la_config :: "string option"
  la_mode :: string
  la_sg :: "int option"
  la_overrides :: overrides

definition launch_overrides :: "namespace \<Rightarrow> int option \<Rightarrow> overrides" where
  "launch_overrides ns port =
     \<lparr>ov_owner = text_or_none (arg_text ns ''owner_id''), ov_target = arg_int ns ''target_service_groups'',
      ov_shard_mode = text_or_none (arg_text ns ''shard_mode''), ov_tick_interval = arg_real ns ''tick_interval_seconds'',
      ov_leader_ttl = arg_int ns ''leader_ttl_seconds'', ov_lease_ttl = arg_int ns ''lease_ttl_seconds'',
      ov_state_dir = text_or_none (arg_text ns ''state_dir''), ov_election = text_or_none (arg_text ns ''election_name''),
      ov_hostname = text_or_none (arg_stripped ns ''cmts_hostname''),
      ov_read_community = text_or_none (arg_stripped ns ''read_community''),
      ov_write_community = text_or_none (arg_stripped ns ''write_community''), ov_port = port\<rparr>"

fun first_error :: "unit result list \<Rightarrow> unit result" where
  "first_error [] = Inr ()"
| "first_error (Inl e # rs) = Inl e"
| "first_error (Inr u # rs) = first_error rs"

definition validate_port :: "int option \<Rightarrow> unit result" where
  "validate_port v =
     (case v of None \<Rightarrow> Inr () | Some n \<Rightarrow> if n \<le> 0 then Inl (ValueError ''snmp-port must be greater than zero'') else Inr ())"

definition check_ranges :: "namespace \<Rightarrow> int option \<Rightarrow> unit result" where
  "check_ranges ns port =
     first_error
       [validate_port port,
        validate_non_negative (arg_int ns ''target_service_groups'') ''target-service-groups'',
        validate_positive (arg_real ns ''tick_interval_seconds'') ''tick-interval-seconds'',
        validate_positive (map_option of_int (arg_int ns ''leader_ttl_seconds'')) ''leader-ttl-seconds'',
        validate_positive (map_option of_int (arg_int ns ''lease_ttl_seconds'')) ''lease-ttl-seconds'']"

definition build_launcher :: "namespace \<Rightarrow> string list \<Rightarrow> launch result" where
  "build_launcher ns argv =
     (case (if arg_text ns ''sg_id'' = '''' then Inr None else map_sum id Some (parse_sg_id (arg_text ns ''sg_id''))) of
        Inl e \<Rightarrow> Inl e
      | Inr sg \<Rightarrow>
          (case resolve_snmp_port ns argv of
             Inl e \<Rightarrow> Inl e
           | Inr port \<Rightarrow>
               (case check_ranges ns port of
                  Inl e \<Rightarrow> Inl e
                | Inr _ \<Rightarrow>
                    Inr \<lparr>la_config = text_or_none (arg_text ns ''config''), la_mode = arg_text ns ''mode'', la_sg = sg,
                         la_overrides = launch_overrides ns port\<rparr>)))"

text \<open>What a handler of \<open>ValidationError\<close> and \<open>ValueError\<close> makes of a failure: the exit code 2, or the
  exception goes on.\<close>

definition usage_error :: "failure \<Rightarrow> int result" where
  "usage_error f = (case f of Invalid _ \<Rightarrow> Inr 2 | Failed (ValueError m) \<Rightarrow> Inr 2 | Failed e \<Rightarrow> Inl e)"

text \<open>A run: the constructor of the launcher and its run, which gives what is printed before it returns or
  raises.\<close>

definition run_command ::
  "(launch \<Rightarrow> 'l call) \<Rightarrow> ('l \<Rightarrow> 'r call) \<Rightarrow> namespace \<Rightarrow> string list \<Rightarrow> int result \<times> 'r list" where
  "run_command build run_once ns argv =
     (case build_launcher ns argv of
        Inl e \<Rightarrow> (usage_error (Failed e), [])
      | Inr la \<Rightarrow>
          (case build la of
             Inl f \<Rightarrow> (usage_error f, [])
           | Inr l \<Rightarrow> (case run_once l of Inl f \<Rightarrow> (usage_error f, []) | Inr r \<Rightarrow> (Inr 0, [r]))))"

definition run_forever_command ::
  "(launch \<Rightarrow> 'l call) \<Rightarrow> ('l \<Rightarrow> int option \<Rightarrow> 'r list \<times> unit call) \<Rightarrow> namespace \<Rightarrow> string list \<Rightarrow> int result \<times> 'r list" where
  "run_forever_command build run ns argv =
     (case build_launcher ns argv of
        Inl e \<Rightarrow> (usage_error (Failed e), [])
      | Inr la \<Rightarrow>
          (case build la of
             Inl f \<Rightarrow> (usage_error f, [])
           | Inr l \<Rightarrow>
               if (case arg_int ns ''max_ticks'' of None \<Rightarrow> False | Some n \<Rightarrow> n < 0) then (Inr 2, [])
               else (case run l (arg_int ns ''max_ticks'') of
                       (rs, Inl f) \<Rightarrow> (usage_error f, rs)
                     | (rs, Inr _) \<Rightarrow> (Inr 0, rs))))"

section \<open>Discovery\<close>

record discovery_inputs =
  ci_host :: string
  ci_read :: string
  ci_write :: string
  ci_port :: int
  ci_dir :: string

definition first_text :: "string list \<Rightarrow> string" where
  "first_text xs = (case filter (\<lambda>s. s \<noteq> '''') xs of [] \<Rightarrow> '''' | s # _ \<Rightarrow> s)"

definition resolve_discovery_inputs :: "(string option \<Rightarrow> settings call) \<Rightarrow> namespace \<Rightarrow> discovery_inputs call" where
  "resolve_discovery_inputs load ns =
     (case load (text_or_none (arg_text ns ''config'')) of
        Inl f \<Rightarrow> Inl f
      | Inr s \<Rightarrow>
          (let host = first_text [arg_stripped ns ''cmts_hostname'', py_strip (ad_hostname (st_adapter s))];
               read = first_text [arg_stripped ns ''read_community'', py_strip (ad_community (st_adapter s)), ''public''];
               write = first_text [arg_stripped ns ''write_community'', py_strip (ad_write_community (st_adapter s)), read];
               dir = arg_stripped ns ''state_dir''
           in if host = '''' then Inl (Failed (ValueError ''cmts-hostname is required for discovery.''))
              else Inr \<lparr>ci_host = host, ci_read = read, ci_write = write,
                        ci_port = (case arg_int ns ''port'' of None \<Rightarrow> 0 | Some n \<Rightarrow> n),
                        ci_dir = (if dir = '''' then st_state_dir s else dir)\<rparr>))"

definition render_discovery_text :: "inventory_result \<Rightarrow> string list" where
  "render_discovery_text r =
     (''cmts_host='' @ ir_host r) #
     concat (map (\<lambda>g. (''sg_id='' @ int_str (gi_sg g) @ '' cm_count='' @ int_str (gi_count g)) #
       map (\<lambda>m. ''  mac='' @ rm_mac m @ '' ipv4='' @ rm_ipv4 m @ '' ipv6='' @ rm_ipv6 m) (gi_cms g)) (ir_per_sg r))"

datatype discovery_output = AsText "string list" | AsJson inventory_result

definition discover_command ::
  "(string option \<Rightarrow> settings call) \<Rightarrow> (discovery_inputs \<Rightarrow> inventory_result call) \<Rightarrow> namespace \<Rightarrow>
   int result \<times> discovery_output list" where
  "discover_command load discover ns =
     (case (case resolve_discovery_inputs load ns of Inl f \<Rightarrow> Inl f | Inr i \<Rightarrow> discover i) of
        Inl (Failed (RuntimeError m)) \<Rightarrow> (Inr 1, [])
      | Inl f \<Rightarrow> (usage_error f, [])
      | Inr r \<Rightarrow> (Inr 0, [if arg_flag ns ''text'' then AsText (render_discovery_text r) else AsJson r]))"

section \<open>Serving\<close>

text \<open>The environment and the module path of the process.\<close>

record process =
  pr_env :: "string \<Rightarrow> string option"
  pr_path :: "string list"

text \<open>What the process meets: the functions of \<open>pathlib\<close>, the source directory, the profiles of the pypnm
  package, the configuration and its validation, and the name of a new session.\<close>

record serve_world =
  sw_absolute :: "string \<Rightarrow> bool"
  sw_resolve :: "string \<Rightarrow> string"
  sw_norm :: "string \<Rightarrow> string"
  sw_src :: string
  sw_default_profile :: string
  sw_seeded :: "string \<Rightarrow> (int \<times> int) option"
  sw_detected :: "int \<times> int"
  sw_config :: "config result"
  sw_py_str :: "json \<Rightarrow> string"
  sw_dict_of :: "json list \<Rightarrow> dict result"
  sw_validate :: "dict \<Rightarrow> settings call"
  sw_session :: string

definition sanitize_pythonpath :: "string \<Rightarrow> process \<Rightarrow> process" where
  "sanitize_pythonpath src p =
     (let existing = filter (\<lambda>e. py_strip e \<noteq> '''') (split_on (CHR '':'') (case pr_env p ''PYTHONPATH'' of None \<Rightarrow> '''' | Some v \<Rightarrow> v));
          kept = filter (\<lambda>e. \<not> (e \<in> set existing \<and> e \<noteq> src)) (pr_path p)
      in p\<lparr>pr_path := (if src \<in> set kept then kept else src # kept), pr_env := (pr_env p)(''PYTHONPATH'' \<mapsto> src)\<rparr>)"

definition absolute_text :: "serve_world \<Rightarrow> string \<Rightarrow> namespace \<Rightarrow> namespace" where
  "absolute_text w k ns =
     (if arg_stripped ns k \<noteq> '''' \<and> \<not> sw_absolute w (arg_text ns k) then ns(k \<mapsto> VText (sw_resolve w (arg_text ns k))) else ns)"

definition prepare_runtime_paths :: "serve_world \<Rightarrow> namespace \<Rightarrow> process \<Rightarrow> namespace \<times> process" where
  "prepare_runtime_paths w ns p =
     (let ns' = absolute_text w ''key'' (absolute_text w ''cert'' ns);
          dirs = map (\<lambda>d. if sw_absolute w d then sw_norm w d else sw_resolve w d) (arg_list ns ''reload_dirs'')
      in (ns'(''reload_dirs'' \<mapsto> VList dirs), sanitize_pythonpath (sw_src w) p))"

definition put_text :: "namespace \<Rightarrow> string \<Rightarrow> string \<Rightarrow> (string \<Rightarrow> string option) \<Rightarrow> string \<Rightarrow> string option" where
  "put_text ns k var env = (if arg_stripped ns k \<noteq> '''' then env(var \<mapsto> arg_stripped ns k) else env)"

definition put_flag :: "namespace \<Rightarrow> string \<Rightarrow> string \<Rightarrow> (string \<Rightarrow> string option) \<Rightarrow> string \<Rightarrow> string option" where
  "put_flag ns k var env = (if arg_flag ns k then env(var \<mapsto> ''1'') else env)"

text \<open>The options that reach the application through the environment.\<close>

definition serve_environment :: "namespace \<Rightarrow> (string \<Rightarrow> string option) \<Rightarrow> string \<Rightarrow> string option" where
  "serve_environment ns env =
     (let e1 = put_text ns ''cmts_hostname'' ''PYPNM_CMTS_ADAPTER_HOSTNAME'' env;
          e2 = put_text ns ''read_community'' ''PYPNM_CMTS_ADAPTER_READ_COMMUNITY'' e1;
          e3 = put_text ns ''write_community'' ''PYPNM_CMTS_ADAPTER_WRITE_COMMUNITY'' e2;
          e4 = put_text ns ''cm_snmpv2c_write_community'' ''PYPNM_CMTS_CM_SNMPV2C_WRITE_COMMUNITY'' e3;
          e5 = put_text ns ''cm_tftp_ipv4'' ''PYPNM_CMTS_CM_TFTP_IPV4'' e4;
          e6 = put_text ns ''cm_tftp_ipv6'' ''PYPNM_CMTS_CM_TFTP_IPV6'' e5;
          e7 = put_flag ns ''mute_pypnm_endpoints'' ''PYPNM_CMTS_MUTE_PYPNM_ENDPOINTS'' e6;
          e8 = put_text ns ''mute_tags'' ''PYPNM_CMTS_MUTE_TAGS'' e7;
          e9 = put_flag ns ''mute_tags_hard'' ''PYPNM_CMTS_MUTE_TAGS_HARD'' e8
      in if arg_flag ns ''debug'' then e9(''PYPNM_CMTS_DEBUG_MODE'' \<mapsto> ''1'') else e9(''PYPNM_CMTS_DEBUG_MODE'' := None))"

definition set_default :: "string \<Rightarrow> string \<Rightarrow> (string \<Rightarrow> string option) \<Rightarrow> string \<Rightarrow> string option" where
  "set_default var v env = (if env var = None then env(var \<mapsto> v) else env)"

definition resolve_worker_profile ::
  "serve_world \<Rightarrow> namespace \<Rightarrow> (string \<Rightarrow> string option) \<Rightarrow> (int \<times> int) \<times> (string \<Rightarrow> string option)" where
  "resolve_worker_profile w ns env =
     (let file = (case env ''PYPNM_SERVE_ENV_FILE'' of None \<Rightarrow> sw_default_profile w | Some f \<Rightarrow> f);
          source = ''PYPNM_ACTIVE_RUNTIME_SOURCE''
      in case (arg_int ns ''workers'', arg_int ns ''limit_max_requests'') of
           (Some n, Some l) \<Rightarrow> ((n, l), env(source \<mapsto> ''explicit_cli''))
         | (n, l) \<Rightarrow>
             (case (case sw_seeded w file of
                      Some pr \<Rightarrow> (pr, env(source \<mapsto> ''seeded_profile''))
                    | None \<Rightarrow> (sw_detected w, env(source \<mapsto> ''hardware_auto''))) of
                (pr, env') \<Rightarrow> ((override n (fst pr), override l (snd pr)), env')))"

definition serve_settings :: "serve_world \<Rightarrow> (string \<Rightarrow> string option) \<Rightarrow> settings call" where
  "serve_settings w env =
     (case sw_config w of
        Inl e \<Rightarrow> Inl (Failed e)
      | Inr cfg \<Rightarrow>
          (case settings_payload (sw_py_str w) (sw_dict_of w) env cfg of
             Inl e \<Rightarrow> Inl (Failed e)
           | Inr p \<Rightarrow> sw_validate w p))"

record uvicorn_args =
  ua_host :: string
  ua_port :: int
  ua_log_level :: string
  ua_workers :: int
  ua_access_log :: bool
  ua_limit :: "int option"
  ua_reload :: "(string list \<times> string list \<times> string list) option"
  ua_lifespan :: bool
  ua_ssl :: "(string \<times> string) option"

definition build_uvicorn_args :: "namespace \<Rightarrow> bool \<Rightarrow> int \<Rightarrow> int \<Rightarrow> uvicorn_args" where
  "build_uvicorn_args ns sgw workers limit =
     (let reload = arg_flag ns ''reload''; runner = arg_flag ns ''with_runner''
      in \<lparr>ua_host = arg_text ns ''host'', ua_port = (case arg_int ns ''port'' of None \<Rightarrow> 0 | Some n \<Rightarrow> n),
          ua_log_level = arg_text ns ''log_level'',
          ua_workers = (if workers \<noteq> 1 \<and> (sgw \<or> reload \<or> runner) then 1 else workers),
          ua_access_log = (\<not> arg_flag ns ''no_access_log''),
          ua_limit = (if limit > 0 then Some limit else None),
          ua_reload = (if reload
            then Some (if arg_list ns ''reload_dirs'' = [] then [''src''] else arg_list ns ''reload_dirs'',
                       arg_list ns ''reload_includes'', arg_list ns ''reload_excludes'')
            else None),
          ua_lifespan = runner,
          ua_ssl = (if arg_flag ns ''ssl'' then Some (arg_text ns ''cert'', arg_text ns ''key'') else None)\<rparr>)"

text \<open>The command ends with an exit code or an exception, hands its arguments to a background process, or runs
  the server.\<close>

datatype serve_outcome = ServeExit int | ServeRaised py_exn | ServeBackground string string | ServeRun uvicorn_args

definition serve_command :: "serve_world \<Rightarrow> namespace \<Rightarrow> process \<Rightarrow> serve_outcome \<times> process" where
  "serve_command w ns p =
     (if arg_flag ns ''with_runner'' \<and> arg_flag ns ''reload'' then (ServeExit 2, p)
      else if arg_flag ns ''run_background'' \<and> arg_flag ns ''reload'' then (ServeExit 2, p)
      else
        (case prepare_runtime_paths w ns p of (ns, p) \<Rightarrow>
           if arg_flag ns ''run_background''
           then (ServeBackground (arg_stripped ns ''background_log_file'') (arg_stripped ns ''background_pidfile''), p)
           else if (case arg_int ns ''limit_max_requests'' of None \<Rightarrow> False | Some l \<Rightarrow> l < 0) then (ServeExit 2, p)
           else
             (let env = serve_environment ns (pr_env p)
              in case serve_settings w env of
                   Inl (Invalid es) \<Rightarrow> (ServeExit 2, p\<lparr>pr_env := env\<rparr>)
                 | Inl (Failed e) \<Rightarrow> (ServeRaised e, p\<lparr>pr_env := env\<rparr>)
                 | Inr s \<Rightarrow>
                     (case resolve_worker_profile w ns (set_default ''PYPNM_SERVE_ENV_FILE'' (sw_default_profile w) env) of
                        ((workers, limit), env') \<Rightarrow>
                          (let ua = build_uvicorn_args ns (sg_enabled (st_sgw s)) workers limit;
                               env1 = (if arg_flag ns ''with_runner'' then env'(''PYPNM_CMTS_COMBINED_MODE'' \<mapsto> ''1'') else env');
                               env2 = set_default ''PYPNM_SERVE_SESSION_ID'' (sw_session w) env1
                           in (ServeRun ua, p\<lparr>pr_env := env2(''PYPNM_ACTIVE_WORKERS'' \<mapsto> int_str (ua_workers ua),
                                 ''PYPNM_ACTIVE_LIMIT_MAX_REQUESTS'' \<mapsto> int_str (case ua_limit ua of None \<Rightarrow> 0 | Some l \<Rightarrow> l))\<rparr>))))))"

text \<open>The exit code of a server that ran until it returned or was interrupted.\<close>

definition serve_exit :: "bool \<Rightarrow> int" where
  "serve_exit interrupted = (if interrupted then 130 else 0)"

text \<open>The command that starts the process again: the interpreter with its own arguments when they are known, else
  with those of the program.\<close>

definition current_launch_command :: "string list \<Rightarrow> string \<Rightarrow> string list \<Rightarrow> string list" where
  "current_launch_command orig_argv program argv =
     (let original = filter (\<lambda>s. py_strip s \<noteq> '''') orig_argv
      in if length original \<ge> 2 then tl original else program # argv)"

text \<open>A background process writes its own number into the pidfile it was given.\<close>

definition record_background_parent_pid :: "(string \<Rightarrow> string option) \<Rightarrow> string \<Rightarrow> string \<Rightarrow> string option" where
  "record_background_parent_pid env child_var pidfile_var =
     (if env child_var \<noteq> Some ''1'' then None
      else text_or_none (py_strip (case env pidfile_var of None \<Rightarrow> '''' | Some f \<Rightarrow> f)))"

definition runtime_profile_message :: "(string \<Rightarrow> string option) \<Rightarrow> string \<Rightarrow> int \<Rightarrow> int \<Rightarrow> string" where
  "runtime_profile_message env default_profile workers limit =
     (let source = (case env ''PYPNM_ACTIVE_RUNTIME_SOURCE'' of None \<Rightarrow> ''explicit_cli'' | Some s \<Rightarrow> s);
          file = (case env ''PYPNM_SERVE_ENV_FILE'' of None \<Rightarrow> default_profile | Some f \<Rightarrow> f);
          counts = ''workers='' @ int_str workers @ '' limit_max_requests='' @ int_str limit
      in if source = ''seeded_profile'' then ''Auto-selected FastAPI runtime profile: '' @ counts @ '' profile='' @ file
         else ''FastAPI runtime profile: '' @ counts @ '' source='' @ source @ '' profile='' @ file)"

section \<open>Facts\<close>

lemma put_text_other: "var \<noteq> var' \<Longrightarrow> put_text ns k var env var' = env var'"
  by (simp add: put_text_def)

lemma put_flag_other: "var \<noteq> var' \<Longrightarrow> put_flag ns k var env var' = env var'"
  by (simp add: put_flag_def)

lemma put_text_same: "put_text ns k var env var = (if arg_stripped ns k \<noteq> '''' then Some (arg_stripped ns k) else env var)"
  by (simp add: put_text_def)

lemmas put_rules = put_text_other put_flag_other put_text_same

lemma serve_environment_hostname:
  "serve_environment ns env ''PYPNM_CMTS_ADAPTER_HOSTNAME'' =
     (if arg_stripped ns ''cmts_hostname'' \<noteq> '''' then Some (arg_stripped ns ''cmts_hostname'')
      else env ''PYPNM_CMTS_ADAPTER_HOSTNAME'')"
  by (simp add: serve_environment_def put_rules Let_def)

lemma prepared_flags:
  "prepare_runtime_paths w ns p = (ns', p') \<Longrightarrow> k \<notin> {''cert'', ''key'', ''reload_dirs''} \<Longrightarrow>
   ns' k = ns k \<and> pr_env p' = (pr_env p)(''PYTHONPATH'' \<mapsto> sw_src w)"
  by (auto simp: prepare_runtime_paths_def absolute_text_def sanitize_pythonpath_def Let_def)

lemma prepared_args:
  assumes "prepare_runtime_paths w ns p = (ns', p')" and "k \<notin> {''cert'', ''key'', ''reload_dirs''}"
  shows "arg_flag ns' k = arg_flag ns k" "arg_int ns' k = arg_int ns k" "arg_text ns' k = arg_text ns k"
    "arg_stripped ns' k = arg_stripped ns k"
  using prepared_flags [OF assms] by (simp_all add: arg_flag_def arg_int_def arg_text_def arg_stripped_def)

text \<open>A server that runs.\<close>

lemma serve_run:
  assumes "serve_command w ns p = (ServeRun ua, p')" and "prepare_runtime_paths w ns p = (ns', q)"
  obtains s workers limit env where
    "serve_settings w (serve_environment ns' (pr_env q)) = Inr s"
    "resolve_worker_profile w ns' (set_default ''PYPNM_SERVE_ENV_FILE'' (sw_default_profile w) (serve_environment ns' (pr_env q))) =
       ((workers, limit), env)"
    "ua = build_uvicorn_args ns' (sg_enabled (st_sgw s)) workers limit"
    "p' = q\<lparr>pr_env := (set_default ''PYPNM_SERVE_SESSION_ID'' (sw_session w)
        (if arg_flag ns' ''with_runner'' then env(''PYPNM_CMTS_COMBINED_MODE'' \<mapsto> ''1'') else env))
      (''PYPNM_ACTIVE_WORKERS'' \<mapsto> int_str (ua_workers ua),
       ''PYPNM_ACTIVE_LIMIT_MAX_REQUESTS'' \<mapsto> int_str (case ua_limit ua of None \<Rightarrow> 0 | Some l \<Rightarrow> l))\<rparr>"
  using assms by (auto simp: serve_command_def Let_def split: if_splits sum.splits failure.splits prod.splits)

lemma resolve_worker_profile_env:
  "resolve_worker_profile w ns env = (x, env') \<Longrightarrow> v \<noteq> ''PYPNM_ACTIVE_RUNTIME_SOURCE'' \<Longrightarrow> env' v = env v"
  by (auto simp: resolve_worker_profile_def Let_def split: option.splits prod.splits)

lemma set_default_other: "var \<noteq> var' \<Longrightarrow> set_default var v env var' = env var'"
  by (simp add: set_default_def)

lemma payload_hostname:
  assumes "settings_payload py_str dict_of env cfg = Inr p" and "env_text env ''PYPNM_CMTS_ADAPTER_HOSTNAME'' = h" and "h \<noteq> ''''"
  shows "\<exists>ad. map_of p ''adapter'' = Some (JDict ad) \<and> map_of ad ''hostname'' = Some (JStr h)"
proof -
  obtain ad0 where ad0: "adapter_dict dict_of (map_of (case cfg [''CmtsOrchestrator''] of Some (JDict d) \<Rightarrow> d | _ \<Rightarrow> []) ''adapter'') = Inr ad0"
    using assms(1) by (cases "adapter_dict dict_of (map_of (case cfg [''CmtsOrchestrator''] of Some (JDict d) \<Rightarrow> d | _ \<Rightarrow> []) ''adapter'')")
      (auto simp: settings_payload_def Let_def)
  define ad where "ad = adapter_from_cmts py_str (cfg [''pypnm-cmts'', ''cmts'']) (adapter_from_env env ad0)"
  have s: "py_strip h = h" using assms(2) env_text_strip [of env] by blast
  have e: "map_of (adapter_from_env env ad0) ''hostname'' = Some (JStr h)"
    using assms(2,3) by (simp add: adapter_from_env_hostname)
  then have "map_of ad ''hostname'' = Some (JStr h)"
    unfolding ad_def using assms(3) s by (subst adapter_from_cmts_hostname) simp_all
  moreover from this have "p = AList.update ''adapter'' (JDict ad) (case cfg [''CmtsOrchestrator''] of Some (JDict d) \<Rightarrow> d | _ \<Rightarrow> [])"
    using assms(1) by (auto simp: settings_payload_def Let_def ad0 ad_def [symmetric])
  ultimately show ?thesis by (simp add: update_conv')
qed

lemma extract_first: "flag \<notin> set xs \<Longrightarrow> (\<forall>x \<in> set xs. \<not> py_startswith x (flag @ ''='')) \<Longrightarrow>
    extract_flag_value (xs @ flag # v # ys) flag = Some v"
  by (induction xs) auto

section \<open>Properties\<close>

text \<open>When \<open>--snmp-port\<close> is given twice the first one counts, although the parser keeps the last; the deprecated
  name never counts beside it.\<close>

theorem first_snmp_port_counts:
  assumes "0 < a" and "0 < b" and "0 < c"
  shows "\<exists>ns la. parse_args fl [''run'', ''--mode'', ''standalone'', ''--snmp-port'', int_str a, ''--cmts-port'', int_str b,
       ''--snmp-port'', int_str c] = Inr (RunOnce ns) \<and>
     ns ''snmp_port'' = Some (VInt c) \<and>
     build_launcher ns [''run'', ''--mode'', ''standalone'', ''--snmp-port'', int_str a, ''--cmts-port'', int_str b,
       ''--snmp-port'', int_str c] = Inr la \<and>
     la_mode la = ''standalone'' \<and> ov_port (la_overrides la) = Some a"
proof -
  let ?ts = "[''--mode'', ''standalone'', ''--snmp-port'', int_str a, ''--cmts-port'', int_str b, ''--snmp-port'', int_str c]"
  let ?all = "help_args @ run_mode_args"
  let ?argv = "''run'' # ?ts"
  let ?ns = "(defaults run_mode_args)(''mode'' \<mapsto> VText ''standalone'', ''snmp_port'' \<mapsto> VInt a, ''snmp_port'' \<mapsto> VInt b,
    ''snmp_port'' \<mapsto> VInt c)"
  have dash: "\<not> py_startswith (int_str n) ''-''" if "0 < n" for n
  proof -
    have "c \<noteq> CHR ''-''" if "c \<in> set (nat_str (nat n))" for c using nat_str_digits [OF that] by auto
    then show ?thesis using that by (cases "nat_str (nat n)") (simp_all add: py_startswith_def int_str_def)
  qed
  then have vals: "\<not> is_option ?all (int_str a)" "\<not> is_option ?all (int_str b)" "\<not> is_option ?all (int_str c)"
    using assms by (simp_all add: is_option_def)
  have names: "map_of (named ?all) ''--mode'' = Some (''mode'', Choice [''standalone'', ''controller'', ''worker'', ''combined''] None True)"
    "map_of (named ?all) ''--snmp-port'' = Some (''snmp_port'', IntArg None)"
    "map_of (named ?all) ''--cmts-port'' = Some (''snmp_port'', IntArg None)"
    by (simp_all add: named_def help_args_def run_mode_args_def)
  have std: "\<not> is_option ?all ''standalone''" by (simp add: is_option_def py_startswith_def)
  have one: "\<not> (py_startswith n ''-'' \<and> ambiguous ?all (fst (split_value n)))" if "map_of (named ?all) n \<noteq> None" "CHR ''='' \<notin> set n" for n
    using that by (simp add: ambiguous_def split_value_plain)
  have "\<not> (\<exists>t \<in> set ?ts. py_startswith t ''-'' \<and> ambiguous ?all (fst (split_value t)))"
    using dash assms one [of "''--mode''"] one [of "''--snmp-port''"] one [of "''--cmts-port''"]
    by (auto simp: names py_startswith_def)
  then have "parse_options fl run_mode_args ?ts = parse_tokens fl ?all ?ts (defaults run_mode_args) False"
    unfolding parse_options_def Let_def by (rule if_not_P)
  also have "\<dots> = parse_tokens fl ?all [] ?ns False"
    using vals std
    by (simp add: parse_option_value [OF names(1)] parse_option_value [OF names(2)] parse_option_value [OF names(3)]
        convert_def py_int_int_str py_startswith_def del: parse_tokens.simps)
  also have "\<dots> = Parsed ?ns"
    by (simp add: missing_required_def help_args_def run_mode_args_def)
  finally have p: "parse_options fl run_mode_args ?ts = Parsed ?ns" .
  have f: "extract_flag_value ?argv ''--snmp-port'' = Some (int_str a)" by (simp add: py_startswith_def)
  have "resolve_snmp_port ?ns ?argv = Inr (Some a)" unfolding resolve_snmp_port_def f by (simp add: py_int_int_str)
  moreover have "check_ranges ?ns (Some a) = Inr ()"
    using assms(1) by (simp add: check_ranges_def validate_port_def validate_non_negative_def validate_positive_def arg_int_def
        arg_real_def defaults_def run_mode_args_def default_value_def)
  moreover have "arg_text ?ns ''sg_id'' = ''''" "arg_text ?ns ''mode'' = ''standalone''"
    by (simp_all add: arg_text_def defaults_def run_mode_args_def default_value_def)
  ultimately have "\<exists>la. build_launcher ?ns ?argv = Inr la \<and> la_mode la = ''standalone'' \<and> ov_port (la_overrides la) = Some a"
    by (simp add: build_launcher_def launch_overrides_def)
  then show ?thesis using p by (simp add: parse_args_def as_command_def)
qed

text \<open>C30: A server with the serving-group cache, with reloading or with the runner in its process has one worker, and
  the number of workers in the environment is the number it runs with.\<close>

theorem serve_single_worker:
  assumes "serve_command w ns p = (ServeRun ua, p')" and "prepare_runtime_paths w ns p = (ns', q)"
  shows "\<exists>s. serve_settings w (serve_environment ns' (pr_env q)) = Inr s \<and>
    (sg_enabled (st_sgw s) \<or> arg_flag ns ''reload'' \<or> arg_flag ns ''with_runner'' \<longrightarrow> ua_workers ua = 1) \<and>
    pr_env p' ''PYPNM_ACTIVE_WORKERS'' = Some (int_str (ua_workers ua)) \<and>
    (arg_flag ns ''with_runner'' \<longrightarrow> ua_lifespan ua \<and> ua_reload ua = None \<and> pr_env p' ''PYPNM_CMTS_COMBINED_MODE'' = Some ''1'')"
proof -
  obtain s workers limit env where
    s: "serve_settings w (serve_environment ns' (pr_env q)) = Inr s"
    and ua: "ua = build_uvicorn_args ns' (sg_enabled (st_sgw s)) workers limit"
    and p': "p' = q\<lparr>pr_env := (set_default ''PYPNM_SERVE_SESSION_ID'' (sw_session w)
        (if arg_flag ns' ''with_runner'' then env(''PYPNM_CMTS_COMBINED_MODE'' \<mapsto> ''1'') else env))
      (''PYPNM_ACTIVE_WORKERS'' \<mapsto> int_str (ua_workers ua),
       ''PYPNM_ACTIVE_LIMIT_MAX_REQUESTS'' \<mapsto> int_str (case ua_limit ua of None \<Rightarrow> 0 | Some l \<Rightarrow> l))\<rparr>"
    using serve_run [OF assms] by metis
  have f: "arg_flag ns' ''reload'' = arg_flag ns ''reload''" "arg_flag ns' ''with_runner'' = arg_flag ns ''with_runner''"
    using prepared_args(1) [OF assms(2)] by simp_all
  have "\<not> (arg_flag ns ''with_runner'' \<and> arg_flag ns ''reload'')" using assms(1) by (auto simp: serve_command_def)
  then show ?thesis
    using s by (auto simp: ua p' build_uvicorn_args_def f Let_def set_default_other)
qed

text \<open>The host name given to \<open>serve\<close> is the one the adapter settings are validated with, whatever the file and the
  old environment say, and the one the application finds in its environment.\<close>

theorem serve_hostname_reaches_settings:
  assumes "serve_command w ns p = (ServeRun ua, p')" and "arg_stripped ns ''cmts_hostname'' \<noteq> ''''"
  shows "pr_env p' ''PYPNM_CMTS_ADAPTER_HOSTNAME'' = Some (arg_stripped ns ''cmts_hostname'') \<and>
    (\<exists>payload ad s. map_of payload ''adapter'' = Some (JDict ad) \<and>
       map_of ad ''hostname'' = Some (JStr (arg_stripped ns ''cmts_hostname'')) \<and> sw_validate w payload = Inr s)"
proof -
  obtain ns' q where q: "prepare_runtime_paths w ns p = (ns', q)" by (metis prod.exhaust)
  obtain s workers limit env where
    s: "serve_settings w (serve_environment ns' (pr_env q)) = Inr s"
    and env: "resolve_worker_profile w ns' (set_default ''PYPNM_SERVE_ENV_FILE'' (sw_default_profile w)
        (serve_environment ns' (pr_env q))) = ((workers, limit), env)"
    and p': "p' = q\<lparr>pr_env := (set_default ''PYPNM_SERVE_SESSION_ID'' (sw_session w)
        (if arg_flag ns' ''with_runner'' then env(''PYPNM_CMTS_COMBINED_MODE'' \<mapsto> ''1'') else env))
      (''PYPNM_ACTIVE_WORKERS'' \<mapsto> int_str (ua_workers ua),
       ''PYPNM_ACTIVE_LIMIT_MAX_REQUESTS'' \<mapsto> int_str (case ua_limit ua of None \<Rightarrow> 0 | Some l \<Rightarrow> l))\<rparr>"
    using serve_run [OF assms(1) q] by metis
  have "arg_stripped ns' ''cmts_hostname'' = arg_stripped ns ''cmts_hostname''"
    using prepared_args(4) [OF q, of "''cmts_hostname''"] by simp
  then have e: "serve_environment ns' (pr_env q) ''PYPNM_CMTS_ADAPTER_HOSTNAME'' = Some (arg_stripped ns ''cmts_hostname'')"
    using assms(2) by (simp add: serve_environment_hostname)
  have "env_text (serve_environment ns' (pr_env q)) ''PYPNM_CMTS_ADAPTER_HOSTNAME'' = arg_stripped ns ''cmts_hostname''"
    by (simp add: env_text_def e arg_stripped_def)
  then have "\<exists>payload ad s. map_of payload ''adapter'' = Some (JDict ad) \<and>
       map_of ad ''hostname'' = Some (JStr (arg_stripped ns ''cmts_hostname'')) \<and> sw_validate w payload = Inr s"
    using s payload_hostname assms(2) by (fastforce simp: serve_settings_def split: sum.splits)
  moreover have "pr_env p' ''PYPNM_CMTS_ADAPTER_HOSTNAME'' = Some (arg_stripped ns ''cmts_hostname'')"
    using resolve_worker_profile_env [OF env, of "''PYPNM_CMTS_ADAPTER_HOSTNAME''"]
    by (simp add: p' set_default_other e)
  ultimately show ?thesis by blast
qed

text \<open>A background start does not look at the limit of requests: the parent hands the command over, and the
  process it starts then refuses the same arguments.\<close>

theorem background_skips_limit_check:
  assumes "arg_flag ns ''run_background''" and "\<not> arg_flag ns ''reload''" and "arg_int ns ''limit_max_requests'' = Some l" and "l < 0"
  shows "(\<exists>log pidfile. fst (serve_command w ns p) = ServeBackground log pidfile) \<and>
    fst (serve_command w (ns(''run_background'' \<mapsto> VBool False)) p') = ServeExit 2"
proof -
  obtain ns1 q1 where 1: "prepare_runtime_paths w ns p = (ns1, q1)" by (metis prod.exhaust)
  obtain ns2 q2 where 2: "prepare_runtime_paths w (ns(''run_background'' \<mapsto> VBool False)) p' = (ns2, q2)" by (metis prod.exhaust)
  have "arg_flag ns1 ''run_background''" using prepared_args(1) [OF 1] assms(1) by simp
  moreover have "arg_int ns2 ''limit_max_requests'' = Some l" "\<not> arg_flag ns2 ''run_background''"
    "\<not> arg_flag (ns(''run_background'' \<mapsto> VBool False)) ''reload''"
    using prepared_args(1,2) [OF 2] assms(2,3) by (simp_all add: arg_int_def arg_flag_def)
  ultimately show ?thesis using assms(2,4) 1 2 by (simp add: serve_command_def)
qed

text \<open>A configuration that cannot be read as it should gives a usage error from \<open>run\<close>, but leaves \<open>serve\<close> as an
  exception.\<close>

theorem serve_value_error_escapes:
  assumes "sw_config w = Inl (ValueError m)" and "\<not> arg_flag ns ''reload''" and "\<not> arg_flag ns ''run_background''"
    and "arg_int ns ''limit_max_requests'' = None" and "build_launcher ns argv = Inr la" and "mk la = Inl (Failed (ValueError m))"
  shows "fst (serve_command w ns p) = ServeRaised (ValueError m) \<and> run_command mk run ns argv = (Inr 2, [])"
proof -
  obtain ns' q where q: "prepare_runtime_paths w ns p = (ns', q)" by (metis prod.exhaust)
  have "arg_int ns' ''limit_max_requests'' = None" "\<not> arg_flag ns' ''run_background''"
    using prepared_args(1,2) [OF q] assms(3,4) by simp_all
  then show ?thesis
    using assms q by (simp add: serve_command_def serve_settings_def run_command_def usage_error_def Let_def)
qed

text \<open>The overrides for requests to modems are accepted by \<open>run\<close> and \<open>run-forever\<close> and have no effect.\<close>

theorem run_ignores_modem_options:
  assumes "k \<in> {''cm_snmpv2c_write_community'', ''cm_tftp_ipv4'', ''cm_tftp_ipv6''}"
  shows "run_command mk run (ns(k \<mapsto> v)) argv = run_command mk run ns argv \<and>
    run_forever_command mk go (ns(k \<mapsto> v)) argv = run_forever_command mk go ns argv"
proof -
  let ?K = "{''cm_snmpv2c_write_community'', ''cm_tftp_ipv4'', ''cm_tftp_ipv6''}"
  have "(ns(k \<mapsto> v)) k' = ns k'" if "k' \<notin> ?K" for k' using assms that by auto
  then have d: "arg_text (ns(k \<mapsto> v)) k' = arg_text ns k'" "arg_int (ns(k \<mapsto> v)) k' = arg_int ns k'"
    "arg_real (ns(k \<mapsto> v)) k' = arg_real ns k'" "arg_stripped (ns(k \<mapsto> v)) k' = arg_stripped ns k'" if "k' \<notin> ?K" for k'
    using that by (simp_all add: arg_text_def arg_int_def arg_real_def arg_stripped_def del: fun_upd_apply)
  have m: "arg_int (ns(k \<mapsto> v)) ''max_ticks'' = arg_int ns ''max_ticks''" by (rule d) simp
  have o': "launch_overrides (ns(k \<mapsto> v)) port = launch_overrides ns port" for port
    by (simp add: launch_overrides_def d del: fun_upd_apply)
  have c: "check_ranges (ns(k \<mapsto> v)) port = check_ranges ns port" for port
    by (simp add: check_ranges_def d del: fun_upd_apply)
  have r: "resolve_snmp_port (ns(k \<mapsto> v)) argv = resolve_snmp_port ns argv"
    by (simp add: resolve_snmp_port_def d del: fun_upd_apply split: option.split)
  have x: "arg_text (ns(k \<mapsto> v)) ''sg_id'' = arg_text ns ''sg_id''" "arg_text (ns(k \<mapsto> v)) ''config'' = arg_text ns ''config''"
    "arg_text (ns(k \<mapsto> v)) ''mode'' = arg_text ns ''mode''"
    by (rule d, simp)+
  have "build_launcher (ns(k \<mapsto> v)) argv = build_launcher ns argv" unfolding build_launcher_def o' c r x ..
  then show ?thesis by (simp only: run_command_def run_forever_command_def m)
qed

text \<open>The module path ends up with the source directory in it and without the other entries of the old
  \<open>PYTHONPATH\<close>, and doing it again changes nothing.\<close>

theorem sanitized_path:
  assumes "CHR '':'' \<notin> set src" and "py_strip src \<noteq> ''''"
  shows "src \<in> set (pr_path (sanitize_pythonpath src p)) \<and> pr_env (sanitize_pythonpath src p) ''PYTHONPATH'' = Some src \<and>
    (\<forall>e \<in> set (pr_path (sanitize_pythonpath src p)). e = src \<or>
       \<not> (\<exists>v. pr_env p ''PYTHONPATH'' = Some v \<and> e \<in> set (split_on (CHR '':'') v) \<and> py_strip e \<noteq> '''')) \<and>
    sanitize_pythonpath src (sanitize_pythonpath src p) = sanitize_pythonpath src p"
proof -
  have "split_on (CHR '':'') src = [src]" using assms(1) by (induction src) auto
  then show ?thesis
    using assms(2) by (auto simp: sanitize_pythonpath_def Let_def filter_id_conv split: option.splits)
qed

section \<open>Witnesses\<close>

lemma first_snmp_port_counts_witness:
  "\<exists>ns la. ns ''snmp_port'' = Some (VInt 163) \<and>
     build_launcher ns [''run'', ''--mode'', ''standalone'', ''--snmp-port'', int_str 161, ''--cmts-port'', int_str 162,
       ''--snmp-port'', int_str 163] = Inr la \<and> ov_port (la_overrides la) = Some 161"
  using first_snmp_port_counts [of 161 162 163] by fastforce

definition demo_world :: serve_world where
  "demo_world = \<lparr>sw_absolute = (\<lambda>_. True), sw_resolve = id, sw_norm = id, sw_src = ''/src'', sw_default_profile = ''/profile'',
     sw_seeded = (\<lambda>_. None), sw_detected = (4, 0), sw_config = Inr (\<lambda>_. None), sw_py_str = (\<lambda>_. ''''), sw_dict_of = (\<lambda>_. Inr []),
     sw_validate = (\<lambda>_. Inr demo_settings), sw_session = ''1-1''\<rparr>"

definition demo_serve :: namespace where
  "demo_serve = [''cmts_hostname'' \<mapsto> VText ''cmts1'', ''with_runner'' \<mapsto> VBool True]"

definition demo_process :: process where
  "demo_process = \<lparr>pr_env = (\<lambda>_. None), pr_path = [''/src'']\<rparr>"

lemma demo_serve_runs:
  "\<exists>ua p'. serve_command demo_world demo_serve demo_process = (ServeRun ua, p')"
proof -
  obtain ns q where q: "prepare_runtime_paths demo_world demo_serve demo_process = (ns, q)" by (metis prod.exhaust)
  have k: "\<not> arg_flag ns ''run_background''" "arg_int ns ''limit_max_requests'' = None"
    using prepared_args(1,2) [OF q] by (simp_all add: demo_serve_def arg_flag_def arg_int_def)
  have "\<exists>s. serve_settings demo_world e = Inr s" for e
    by (simp add: serve_settings_def demo_world_def settings_payload_def adapter_dict_def Let_def)
  then obtain s where s: "serve_settings demo_world (serve_environment ns (pr_env q)) = Inr s" by blast
  have f: "\<not> arg_flag demo_serve ''reload''" by (simp add: demo_serve_def arg_flag_def)
  show ?thesis
    by (simp add: serve_command_def f q k s Let_def split: prod.split)
qed

lemma demo_hostname: "arg_stripped demo_serve ''cmts_hostname'' = ''cmts1''"
  by (simp add: arg_stripped_def arg_text_def demo_serve_def py_strip_def py_lstrip_def py_space_def)

lemma serve_single_worker_witness:
  "\<exists>ua p'. serve_command demo_world demo_serve demo_process = (ServeRun ua, p') \<and> ua_workers ua = 1 \<and> ua_lifespan ua \<and>
     pr_env p' ''PYPNM_CMTS_COMBINED_MODE'' = Some ''1''"
proof -
  obtain ua p' where r: "serve_command demo_world demo_serve demo_process = (ServeRun ua, p')" using demo_serve_runs by blast
  obtain ns q where q: "prepare_runtime_paths demo_world demo_serve demo_process = (ns, q)" by (metis prod.exhaust)
  have "arg_flag demo_serve ''with_runner''" by (simp add: arg_flag_def demo_serve_def)
  with serve_single_worker [OF r q] r show ?thesis by blast
qed

lemma serve_hostname_reaches_settings_witness:
  "\<exists>ua p'. serve_command demo_world demo_serve demo_process = (ServeRun ua, p') \<and>
     pr_env p' ''PYPNM_CMTS_ADAPTER_HOSTNAME'' = Some ''cmts1''"
proof -
  obtain ua p' where r: "serve_command demo_world demo_serve demo_process = (ServeRun ua, p')" using demo_serve_runs by blast
  from serve_hostname_reaches_settings [OF r] r show ?thesis by (auto simp: demo_hostname)
qed

lemma background_skips_limit_check_witness:
  "fst (serve_command demo_world (([''limit_max_requests'' \<mapsto> VInt (- 1), ''run_background'' \<mapsto> VBool True])(''run_background'' \<mapsto> VBool False))
     demo_process) = ServeExit 2"
  by (rule conjunct2 [OF background_skips_limit_check [where l = "- 1" and w = demo_world and p = demo_process]])
     (simp_all add: arg_flag_def arg_int_def)

lemma serve_value_error_escapes_witness:
  "fst (serve_command (demo_world\<lparr>sw_config := Inl (ValueError ''bad'')\<rparr>) Map.empty demo_process) = ServeRaised (ValueError ''bad'')"
proof -
  obtain la where la: "build_launcher Map.empty [] = Inr la"
    by (simp add: build_launcher_def arg_text_def resolve_snmp_port_def arg_int_def arg_real_def check_ranges_def validate_port_def
        validate_non_negative_def validate_positive_def)
  show ?thesis
    by (rule conjunct1 [OF serve_value_error_escapes [where m = "''bad''" and ns = Map.empty and argv = "[]" and la = la and
          mk = "\<lambda>_. Inl (Failed (ValueError ''bad''))" and run = "\<lambda>_ :: unit. Inr ()" and p = demo_process]])
       (simp_all add: la arg_flag_def arg_int_def)
qed

lemma run_ignores_modem_options_witness:
  "run_command (\<lambda>_. Inr ()) (\<lambda>_. Inr (1 :: nat)) ([''cm_tftp_ipv4'' \<mapsto> VText ''192.168.0.1'']) [] =
   run_command (\<lambda>_. Inr ()) (\<lambda>_. Inr 1) Map.empty []"
  by (rule conjunct1 [OF run_ignores_modem_options [where go = "\<lambda>_ _. ([] :: nat list, Inr ())"]]) simp

lemma sanitized_path_witness:
  "''/src'' \<in> set (pr_path (sanitize_pythonpath ''/src'' \<lparr>pr_env = [''PYTHONPATH'' \<mapsto> ''/a:/b''], pr_path = [''/b'', ''/c'']\<rparr>))"
  by (rule conjunct1 [OF sanitized_path]) (simp_all add: py_strip_def py_lstrip_def py_space_def)

end
