(* ===== verification/ReloadProtocol.thy ===== *)
theory ReloadProtocol
  imports SystemConfig Operational
begin

text \<open>
  How a running service is started again: the recorded launch of \<open>support/serve_launch_state.py\<close>, the request of
  \<open>support/web_service_reload.py\<close>, the watcher of \<open>support/reload_watcher.py\<close> and
  \<open>tools/support/watch_reload_sentinel.py\<close>, and the restart of
  \<open>tools/support/restart_from_launch_state.py\<close>.  Modification times, the process table and the commands that
  are run are inputs; what is printed is left out.
\<close>

section \<open>The recorded launch\<close>

record launch_state =
  lc_schema :: int
  lc_recorded :: string
  lc_pid :: int
  lc_cwd :: string
  lc_executable :: string
  lc_argv :: "string list"
  lc_env :: "(string \<times> string) list"

definition kept_in_restart :: "string \<Rightarrow> bool" where
  "kept_in_restart k =
     (k \<in> {''PATH'', ''HOME'', ''USER'', ''LOGNAME'', ''LANG'', ''LC_ALL''} \<or>
      py_startswith k ''PYPNM_'' \<or> py_startswith k ''PYTHON'' \<or> py_startswith k ''VIRTUAL_ENV'')"

definition snapshot_restart_env :: "(string \<times> string) list \<Rightarrow> (string \<times> string) list" where
  "snapshot_restart_env env = filter (\<lambda>(k, v). kept_in_restart k) env"

definition build_launch_state ::
  "(string \<Rightarrow> string) \<Rightarrow> string \<Rightarrow> int \<Rightarrow> string \<Rightarrow> (string \<times> string) list \<Rightarrow> string \<Rightarrow> string list \<Rightarrow> launch_state" where
  "build_launch_state resolve now pid cwd env executable argv =
     \<lparr>lc_schema = 1, lc_recorded = now, lc_pid = pid, lc_cwd = resolve cwd, lc_executable = resolve executable,
      lc_argv = argv, lc_env = snapshot_restart_env env\<rparr>"

text \<open>The written object; the keys of every object come out sorted.\<close>

definition launch_payload :: "launch_state \<Rightarrow> json" where
  "launch_payload s =
     JDict [(''argv'', JList (map JStr (lc_argv s))), (''env'', JDict (map (\<lambda>(k, v). (k, JStr v)) (sort_key fst (lc_env s)))),
       (''executable'', JStr (lc_executable s)), (''launch_cwd'', JStr (lc_cwd s)), (''pid'', JInt (lc_pid s)),
       (''recorded_at_utc'', JStr (lc_recorded s)), (''schema_version'', JInt (lc_schema s))]"

text \<open>\<open>int\<close> and \<open>str\<close> of a member, with a default for a missing one.\<close>

definition int_member :: "string \<Rightarrow> (string \<times> json) list \<Rightarrow> int result" where
  "int_member k d =
     (case map_of d k of
        None \<Rightarrow> Inr 0
      | Some v \<Rightarrow>
          (case json_int v of
             Some n \<Rightarrow> Inr n
           | None \<Rightarrow> Inl (case v of JStr _ \<Rightarrow> ValueError ''invalid literal for int()'' | _ \<Rightarrow> TypeError ''int() argument'')))"

definition json_text :: "(json \<Rightarrow> string) \<Rightarrow> json \<Rightarrow> string" where
  "json_text py_str v = (case v of JStr s \<Rightarrow> s | _ \<Rightarrow> py_str v)"

definition text_member :: "(json \<Rightarrow> string) \<Rightarrow> string \<Rightarrow> (string \<times> json) list \<Rightarrow> string" where
  "text_member py_str k d = (case map_of d k of None \<Rightarrow> '''' | Some v \<Rightarrow> json_text py_str v)"

definition read_launch_state :: "(json \<Rightarrow> string) \<Rightarrow> json \<Rightarrow> launch_state result" where
  "read_launch_state py_str payload =
     (case payload of
        JDict d \<Rightarrow>
          (case map_of d ''argv'' of
             Some (JList argv) \<Rightarrow>
               (case map_of d ''env'' of
                  Some (JDict env) \<Rightarrow>
                    (case int_member ''schema_version'' d of
                       Inl e \<Rightarrow> Inl e
                     | Inr schema \<Rightarrow>
                         (case int_member ''pid'' d of
                            Inl e \<Rightarrow> Inl e
                          | Inr pid \<Rightarrow>
                              Inr \<lparr>lc_schema = schema, lc_recorded = text_member py_str ''recorded_at_utc'' d, lc_pid = pid,
                                   lc_cwd = text_member py_str ''launch_cwd'' d,
                                   lc_executable = text_member py_str ''executable'' d,
                                   lc_argv = map (json_text py_str) argv,
                                   lc_env = map (\<lambda>(k, v). (k, json_text py_str v)) env\<rparr>))
                | _ \<Rightarrow> Inl (ValueError ''Invalid launch state: env must be an object.''))
           | _ \<Rightarrow> Inl (ValueError ''Invalid launch state: argv must be a list.''))
      | _ \<Rightarrow> Inl (OtherError ''AttributeError''))"

section \<open>Restarting\<close>

text \<open>The command line of a process, its arguments joined by blanks and in lower case.\<close>

definition looks_like_serve :: "string list option \<Rightarrow> bool" where
  "looks_like_serve cmdline =
     (case cmdline of
        None \<Rightarrow> False
      | Some args \<Rightarrow>
          (let text = py_lower (py_join '' '' args) in py_contains ''pypnm_cmts.cli'' text \<and> py_contains ''serve'' text))"

datatype signal_result = Delivered | NoProcess | NoPermission

text \<open>The launch file, the process table, and the run of the command in a directory and an environment.\<close>

record restart_world =
  rw_file :: "json result option"
  rw_cmdline :: "int \<Rightarrow> string list option"
  rw_terminate :: "int \<Rightarrow> signal_result"
  rw_environ :: "string \<Rightarrow> string option"
  rw_run :: "string list \<Rightarrow> string \<Rightarrow> (string \<Rightarrow> string option) \<Rightarrow> int"

text \<open>The exit code, the process that was told to end, and the command that was run.\<close>

definition restart_service ::
  "(json \<Rightarrow> string) \<Rightarrow> restart_world \<Rightarrow> bool \<Rightarrow> int result \<times> int option \<times> string list option" where
  "restart_service py_str w dry_run =
     (case rw_file w of
        None \<Rightarrow> (Inr 2, None, None)
      | Some (Inl e) \<Rightarrow> (Inl e, None, None)
      | Some (Inr payload) \<Rightarrow>
          (case read_launch_state py_str payload of
             Inl e \<Rightarrow> (Inl e, None, None)
           | Inr s \<Rightarrow>
               if py_strip (lc_executable s) = '''' \<or> lc_argv s = [] then (Inr 2, None, None)
               else
                 (let command = lc_executable s # lc_argv s;
                      env = (\<lambda>k. case map_of (rev (lc_env s)) k of None \<Rightarrow> rw_environ w k | Some v \<Rightarrow> Some v);
                      ours = lc_pid s > 0 \<and> looks_like_serve (rw_cmdline w (lc_pid s));
                      told = (if ours \<and> rw_terminate w (lc_pid s) = Delivered then Some (lc_pid s) else None)
                  in if dry_run then (Inr 0, None, None)
                     else if ours \<and> rw_terminate w (lc_pid s) = NoPermission then (Inr 1, None, None)
                     else (Inr (rw_run w command (lc_cwd s) env), told, Some command))))"

section \<open>The request and its watcher\<close>

definition resolve_reload_sentinel :: "(string \<Rightarrow> string option) \<Rightarrow> string + string list \<Rightarrow> string + string list" where
  "resolve_reload_sentinel env configured =
     (let v = py_strip (case env ''PYPNM_CMTS_WEB_SERVICE_RELOAD_SENTINEL'' of None \<Rightarrow> '''' | Some s \<Rightarrow> s)
      in if v \<noteq> '''' then Inl v else configured)"

text \<open>The files a request writes: the sentinel, created anew, and the module that makes a development server
  reload.\<close>

definition newline :: string where
  "newline = [char_of (10 :: nat)]"

definition reload_request :: "string \<Rightarrow> string \<Rightarrow> string \<Rightarrow> string \<Rightarrow> string \<times> string" where
  "reload_request reason actor timestamp request =
     (concat (map (\<lambda>(k, v). k @ ''='' @ v @ newline)
        [(''requested_at'', timestamp), (''request_id'', request), (''actor'', actor), (''reason'', reason)]),
      ''# SPDX-License-Identifier: Apache-2.0'' @ newline @ ''# Copyright (c) 2026 Maurice Garcia'' @ newline @
      [CHR 0x22, CHR 0x22, CHR 0x22] @ ''Auto-generated dev reload trigger module.'' @ [CHR 0x22, CHR 0x22, CHR 0x22] @ newline @ newline @
      ''RELOAD_REQUEST_ID = '' @ [CHR 0x22] @ request @ [CHR 0x22] @ newline @
      ''RELOAD_REQUESTED_AT = '' @ [CHR 0x22] @ timestamp @ [CHR 0x22] @ newline)"

text \<open>The pidfile of the watcher: missing, unreadable, or a text.\<close>

definition read_watcher_pid :: "string result option \<Rightarrow> int option" where
  "read_watcher_pid file =
     (case file of
        Some (Inr text) \<Rightarrow> if py_strip text = '''' then None else py_int (py_strip text)
      | _ \<Rightarrow> None)"

definition process_running :: "(int \<Rightarrow> signal_result) \<Rightarrow> int \<Rightarrow> bool" where
  "process_running probe pid = (0 < pid \<and> probe pid \<noteq> NoProcess)"

definition ensure_reload_watcher :: "string result option \<Rightarrow> (int \<Rightarrow> signal_result) \<Rightarrow> bool" where
  "ensure_reload_watcher file probe =
     (case read_watcher_pid file of None \<Rightarrow> True | Some pid \<Rightarrow> \<not> process_running probe pid)"

text \<open>One turn of the watcher: the modification time it finds, or -1 for a missing file, and the one after the
  restart command has ended; the time it goes on with, and whether it ran the command.\<close>

definition watch_step :: "int \<times> int \<Rightarrow> int \<Rightarrow> int \<times> bool" where
  "watch_step m last_mtime =
     (case m of (current, after) \<Rightarrow>
        if current \<noteq> -1 \<and> current \<noteq> last_mtime then (after, True)
        else if current = -1 then (-1, False)
        else (last_mtime, False))"

fun watch :: "(int \<times> int) list \<Rightarrow> int \<Rightarrow> bool list" where
  "watch [] last_mtime = []"
| "watch (m # ms) last_mtime = (case watch_step m last_mtime of (l, due) \<Rightarrow> due # watch ms l)"

section \<open>Facts\<close>

lemma sorted_env:
  assumes "distinct (map fst (e :: (string \<times> string) list))"
  shows "map_of (rev (sort_key fst e)) = map_of e"
proof -
  have d: "distinct (map fst (sort_key fst e))" using assms by (simp add: distinct_map)
  have "map_of (rev (sort_key fst e)) = map_of e \<longleftrightarrow> set (rev (sort_key fst e)) = set e"
    by (rule map_of_inject_set) (simp_all add: d assms rev_map [symmetric])
  then show ?thesis by simp
qed

lemma map_of_snapshot: "map_of (snapshot_restart_env env) k = (if kept_in_restart k then map_of env k else None)"
  by (induction env) (auto simp: snapshot_restart_env_def)

lemma distinct_snapshot: "distinct (map fst env) \<Longrightarrow> distinct (map fst (snapshot_restart_env env))"
  by (simp add: snapshot_restart_env_def distinct_map_filter)

lemma read_written:
  "read_launch_state py_str (launch_payload s) = Inr (s\<lparr>lc_env := sort_key fst (lc_env s)\<rparr>)"
  by (simp add: read_launch_state_def launch_payload_def int_member_def text_member_def json_text_def json_int_def
      comp_def split_def)

section \<open>Properties\<close>

text \<open>The recorded launch is read back as it was written, the environment in the order of its names.\<close>

theorem launch_state_read_back:
  "read_launch_state py_str (launch_payload s) = Inr (s\<lparr>lc_env := sort_key fst (lc_env s)\<rparr>)"
  by (rule read_written)

text \<open>A restart from the recorded launch runs the recorded command with the variables of the program, of Python
  and of the login as they were when the service started.\<close>

theorem restart_environment:
  assumes "distinct (map fst env)"
    and "rw_file w = Some (Inr (launch_payload (build_launch_state resolve now pid cwd env executable argv)))"
    and "py_strip (resolve executable) \<noteq> ''''" and "argv \<noteq> []" and "rw_terminate w pid \<noteq> NoPermission"
  shows "\<exists>env'. restart_service py_str w False =
      (Inr (rw_run w (resolve executable # argv) (resolve cwd) env'),
       if 0 < pid \<and> looks_like_serve (rw_cmdline w pid) \<and> rw_terminate w pid = Delivered then Some pid else None,
       Some (resolve executable # argv)) \<and>
    (\<forall>k v. kept_in_restart k \<longrightarrow> map_of env k = Some v \<longrightarrow> env' k = Some v) \<and>
    (\<forall>k. \<not> kept_in_restart k \<longrightarrow> env' k = rw_environ w k)"
proof -
  let ?s = "build_launch_state resolve now pid cwd env executable argv"
  let ?env = "\<lambda>k. case map_of (rev (sort_key fst (lc_env ?s))) k of None \<Rightarrow> rw_environ w k | Some v \<Rightarrow> Some v"
  have e: "map_of (rev (sort_key fst (lc_env ?s))) k = (if kept_in_restart k then map_of env k else None)" for k
    using sorted_env [OF distinct_snapshot [OF assms(1)]] map_of_snapshot by (simp add: build_launch_state_def)
  have "restart_service py_str w False =
      (Inr (rw_run w (resolve executable # argv) (resolve cwd) ?env),
       if 0 < pid \<and> looks_like_serve (rw_cmdline w pid) \<and> rw_terminate w pid = Delivered then Some pid else None,
       Some (resolve executable # argv))"
    using assms by (simp add: restart_service_def read_written build_launch_state_def Let_def)
  moreover have "(\<forall>k v. kept_in_restart k \<longrightarrow> map_of env k = Some v \<longrightarrow> ?env k = Some v) \<and>
      (\<forall>k. \<not> kept_in_restart k \<longrightarrow> ?env k = rw_environ w k)"
    by (simp add: e)
  ultimately show ?thesis by blast
qed

text \<open>A service started by its installed script is not recognised by the restart and not told to end before the
  command is run again.\<close>

theorem installed_script_not_stopped:
  assumes "rw_file w = Some (Inr (launch_payload s))" and "py_strip (lc_executable s) \<noteq> ''''" and "lc_argv s \<noteq> []"
    and "rw_cmdline w (lc_pid s) = Some [''/usr/bin/python3'', ''/usr/local/bin/pypnm-cmts'', ''serve'']"
  shows "\<exists>code. restart_service py_str w False = (Inr code, None, Some (lc_executable s # lc_argv s))"
proof -
  have "\<not> looks_like_serve (rw_cmdline w (lc_pid s))"
    by (simp add: assms(4) looks_like_serve_def Let_def py_lower_def py_startswith_def)
  then show ?thesis using assms(1-3) by (simp add: restart_service_def read_written Let_def)
qed

text \<open>While no request falls into a restart command, the watcher runs the command exactly once for every time
  the file appears with a time it has not seen last.\<close>

theorem requests_served_once:
  assumes "\<forall>(current, after) \<in> set ms. after = current"
  shows "watch ms l = map (\<lambda>(old, new). new \<noteq> -1 \<and> new \<noteq> old) (zip (l # map fst ms) (map fst ms))"
  using assms by (induction ms arbitrary: l) (auto simp: watch_step_def)

text \<open>A request made while the restart command runs is lost: the watcher goes on with the time the file has when
  the command ends.\<close>

theorem request_during_restart_lost:
  assumes "current \<noteq> -1" and "current \<noteq> l"
  shows "watch ((current, requested) # replicate n (requested, x)) l = True # replicate n False"
proof -
  have "watch (replicate n (requested, x)) requested = replicate n False"
    by (induction n) (auto simp: watch_step_def)
  then show ?thesis using assms by (simp add: watch_step_def)
qed

section \<open>Witnesses\<close>

definition demo_environ :: "(string \<times> string) list" where
  "demo_environ = [(''TERM'', ''xterm''), (''PYPNM_CMTS_COMBINED_MODE'', ''1''), (''HOME'', ''/root'')]"

definition demo_restart :: "string list \<Rightarrow> restart_world" where
  "demo_restart cmdline =
     \<lparr>rw_file = Some (Inr (launch_payload (build_launch_state id ''now'' 7 ''/srv'' demo_environ ''/usr/bin/python3'' [''/usr/local/bin/pypnm-cmts'', ''serve'']))),
      rw_cmdline = (\<lambda>_. Some cmdline), rw_terminate = (\<lambda>_. Delivered), rw_environ = Map.empty,
      rw_run = (\<lambda>_ _ env. if env ''PYPNM_CMTS_COMBINED_MODE'' = Some ''1'' \<and> env ''TERM'' = None then 0 else 1)\<rparr>"

lemma demo_python: "py_strip ''/usr/bin/python3'' = ''/usr/bin/python3''"
  by (simp add: py_strip_def py_lstrip_def py_space_def)

lemma restart_environment_witness:
  "restart_service (\<lambda>_. '''') (demo_restart [''python3'', ''-m'', ''pypnm_cmts.cli'', ''serve'']) False =
     (Inr 0, Some 7, Some [''/usr/bin/python3'', ''/usr/local/bin/pypnm-cmts'', ''serve''])"
proof -
  let ?w = "demo_restart [''python3'', ''-m'', ''pypnm_cmts.cli'', ''serve'']"
  have f: "rw_file ?w = Some (Inr (launch_payload (build_launch_state id ''now'' 7 ''/srv'' demo_environ ''/usr/bin/python3''
      [''/usr/local/bin/pypnm-cmts'', ''serve''])))" by (simp add: demo_restart_def)
  have d: "distinct (map fst demo_environ)" by (simp add: demo_environ_def)
  have s: "looks_like_serve (rw_cmdline ?w 7)"
    by (simp add: demo_restart_def looks_like_serve_def py_lower_def py_startswith_def Let_def)
  have k: "kept_in_restart ''PYPNM_CMTS_COMBINED_MODE''" "\<not> kept_in_restart ''TERM''"
    by (simp_all add: kept_in_restart_def py_startswith_def)
  have m: "map_of demo_environ ''PYPNM_CMTS_COMBINED_MODE'' = Some ''1''" by (simp add: demo_environ_def)
  have w: "rw_terminate ?w 7 = Delivered" "rw_environ ?w ''TERM'' = None" by (simp_all add: demo_restart_def)
  obtain env' where r: "restart_service (\<lambda>_. '''') ?w False =
      (Inr (rw_run ?w (id ''/usr/bin/python3'' # [''/usr/local/bin/pypnm-cmts'', ''serve'']) (id ''/srv'') env'),
       if 0 < (7 :: int) \<and> looks_like_serve (rw_cmdline ?w 7) \<and> rw_terminate ?w 7 = Delivered then Some 7 else None,
       Some (id ''/usr/bin/python3'' # [''/usr/local/bin/pypnm-cmts'', ''serve'']))"
    and e: "\<forall>k v. kept_in_restart k \<longrightarrow> map_of demo_environ k = Some v \<longrightarrow> env' k = Some v"
      "\<forall>k. \<not> kept_in_restart k \<longrightarrow> env' k = rw_environ ?w k"
    using restart_environment [OF d f, of "\<lambda>_. ''''"] w(1) by (auto simp: demo_python)
  have "env' ''PYPNM_CMTS_COMBINED_MODE'' = Some ''1''" "env' ''TERM'' = None" using e k m w(2) by simp_all
  then have "rw_run ?w c dir env' = 0" for c dir by (simp add: demo_restart_def)
  then show ?thesis using r s w(1) by simp
qed

lemma installed_script_not_stopped_witness:
  "\<exists>code. restart_service (\<lambda>_. '''') (demo_restart [''/usr/bin/python3'', ''/usr/local/bin/pypnm-cmts'', ''serve'']) False =
     (Inr code, None, Some [''/usr/bin/python3'', ''/usr/local/bin/pypnm-cmts'', ''serve''])"
proof -
  let ?s = "build_launch_state id ''now'' 7 ''/srv'' demo_environ ''/usr/bin/python3'' [''/usr/local/bin/pypnm-cmts'', ''serve'']"
  let ?w = "demo_restart [''/usr/bin/python3'', ''/usr/local/bin/pypnm-cmts'', ''serve'']"
  have "rw_file ?w = Some (Inr (launch_payload ?s))" "py_strip (lc_executable ?s) \<noteq> ''''" "lc_argv ?s \<noteq> []"
    "rw_cmdline ?w (lc_pid ?s) = Some [''/usr/bin/python3'', ''/usr/local/bin/pypnm-cmts'', ''serve'']"
    by (simp_all add: demo_restart_def build_launch_state_def demo_python)
  from installed_script_not_stopped [OF this, of "\<lambda>_. ''''"] show ?thesis by (simp add: build_launch_state_def)
qed

lemma requests_served_once_witness: "watch [(5, 5), (5, 5), (-1, -1), (6, 6)] 4 = [True, False, False, True]"
proof -
  have "\<forall>(current, after) \<in> set [(5, 5), (5, 5), (-1, -1), (6, 6 :: int)]. after = current" by simp
  from requests_served_once [OF this, of 4] show ?thesis by simp
qed

lemma request_during_restart_lost_witness: "watch [(5, 6), (6, 6), (6, 6)] 4 = [True, False, False]"
  using request_during_restart_lost [of 5 4 6 2 6] by (simp add: numeral_2_eq_2)

end
