(* ===== verification/Startup.thy ===== *)
theory Startup
  imports ConfigCommands
begin

text \<open>
  The start of the application in \<open>startup/startup.py\<close>: the CMTS block of \<open>system.json\<close>, and the links to
  the log and data directories of the pypnm package.  A path is the list of its components; the project
  directory is the list of its entries with their names.  Where the package stands, which of its paths are
  absolute and which changes the file system refuses are inputs, and the targets of the links lie outside the project directory;
  the configuration of the logging is left out.
\<close>

section \<open>The configuration file\<close>

text \<open>The merge of a template that also says whether anything was added.\<close>

function merge_tracked :: "dict \<Rightarrow> dict \<Rightarrow> dict \<times> bool" where
  "merge_tracked t [] = (t, False)"
| "merge_tracked t ((k, v) # m) =
     (case map_of t k of
        None \<Rightarrow> (fst (merge_tracked (AList.update k v t) m), True)
      | Some (JDict a) \<Rightarrow>
          (case v of
             JDict b \<Rightarrow>
               (fst (merge_tracked (AList.update k (JDict (fst (merge_tracked a b))) t) m),
                snd (merge_tracked a b) \<or> snd (merge_tracked (AList.update k (JDict (fst (merge_tracked a b))) t) m))
           | _ \<Rightarrow> merge_tracked t m)
      | Some _ \<Rightarrow> merge_tracked t m)"
  by pat_completeness auto

termination by (relation "measure (size_list (size_prod (\<lambda>_. 0) size) \<circ> snd)") auto

definition ensure_cmts_system_config :: "config_file \<Rightarrow> config_file \<Rightarrow> config_file" where
  "ensure_cmts_system_config template file =
     (case template of
        Holds (JDict m) \<Rightarrow>
          (case file of
             Holds (JDict d) \<Rightarrow>
               if snd (merge_tracked d m) then Holds (JDict (fst (merge_tracked d m))) else file
           | _ \<Rightarrow> file)
      | _ \<Rightarrow> file)"

section \<open>The paths of the package\<close>

definition package_root :: "string list option \<Rightarrow> string list \<Rightarrow> string list" where
  "package_root site installed = (case site of Some p \<Rightarrow> p | None \<Rightarrow> installed)"

definition system_config_path :: "string list option \<Rightarrow> string list \<Rightarrow> string list" where
  "system_config_path site installed = package_root site installed @ [''settings'', ''system.json'']"

definition resolve_package_dir :: "(string list \<Rightarrow> string list) \<Rightarrow> string list option \<Rightarrow> string list \<Rightarrow> bool \<Rightarrow> string list \<Rightarrow> string list" where
  "resolve_package_dir resolve site installed absolute d =
     (if absolute then d else resolve (butlast (butlast (system_config_path site installed)) @ d))"

definition resolve_data_root :: "(string list \<Rightarrow> string list) \<Rightarrow> string list option \<Rightarrow> string list \<Rightarrow> bool \<Rightarrow> string list \<Rightarrow> string list" where
  "resolve_data_root resolve site installed absolute d = butlast (resolve_package_dir resolve site installed absolute d)"

text \<open>The directory above the innermost one with the name \<open>src\<close>, the top one when there is none.\<close>

function project_root :: "string list \<Rightarrow> string list" where
  "project_root p = (if p = [] then [] else if last p = ''src'' then butlast p else project_root (butlast p))"
  by pat_completeness auto

termination by (relation "measure length") auto

section \<open>The links\<close>

text \<open>An entry of a directory: a file, a directory, or a link with the path it resolves to (none for a loop) and
  whether anything stands there.\<close>

datatype entry = PlainFile | PlainDir | LinkTo "string list option" bool

type_synonym entries = "(string \<times> entry) list"

record rights =
  may_mkdir :: bool
  may_rename :: bool
  may_unlink :: bool
  may_link :: bool

definition make_link :: "rights \<Rightarrow> string \<Rightarrow> string list \<Rightarrow> entries \<Rightarrow> entries result" where
  "make_link r name tgt es = (if may_link r then Inr (AList.update name (LinkTo (Some tgt) True) es) else Inl OSError)"

text \<open>A link that leads elsewhere is replaced; one that cannot be followed or removed stays.\<close>

definition relink :: "rights \<Rightarrow> string \<Rightarrow> string list \<Rightarrow> entries \<Rightarrow> entries result" where
  "relink r name tgt es =
     (case map_of es name of
        Some (LinkTo None _) \<Rightarrow> Inr es
      | Some (LinkTo (Some p) _) \<Rightarrow>
          if p = tgt then Inr es else if \<not> may_unlink r then Inr es else make_link r name tgt (AList.delete name es)
      | _ \<Rightarrow> make_link r name tgt es)"

definition ensure_logs_symlink :: "rights \<Rightarrow> string list option \<Rightarrow> entries \<Rightarrow> entries result" where
  "ensure_logs_symlink r log_dir es =
     (case log_dir of
        None \<Rightarrow> Inr es
      | Some tgt \<Rightarrow>
          if \<not> may_mkdir r then Inl OSError else
          (case map_of es ''logs'' of
             Some PlainFile \<Rightarrow> Inr es
           | Some PlainDir \<Rightarrow> Inr es
           | _ \<Rightarrow> relink r ''logs'' tgt es))"

fun candidate :: "string \<Rightarrow> nat \<Rightarrow> string" where
  "candidate base 0 = base"
| "candidate base (Suc k) = base @ ''-'' @ nat_str (Suc k)"

lemma candidate_inj: "candidate base i = candidate base j \<Longrightarrow> i = j"
  by (cases i; cases j) (auto dest: nat_str_inj)

function next_free :: "string \<Rightarrow> string list \<Rightarrow> nat \<Rightarrow> string" where
  "next_free base taken k = (if candidate base k \<in> set taken then next_free base taken (Suc k) else candidate base k)"
  by pat_completeness auto

termination
proof (relation "measure (\<lambda>(base, taken, k). card {j. k \<le> j \<and> candidate base j \<in> set taken})")
  fix base taken and k :: nat
  assume taken: "candidate base k \<in> set taken"
  have "inj (candidate base)" by (rule injI) (rule candidate_inj)
  then have "finite (candidate base -` set taken)" by (intro finite_vimageI) simp_all
  then have "finite {j. k \<le> j \<and> candidate base j \<in> set taken}" by (rule rev_finite_subset) auto
  moreover have "{j. Suc k \<le> j \<and> candidate base j \<in> set taken} \<subset> {j. k \<le> j \<and> candidate base j \<in> set taken}"
  proof (rule psubsetI)
    show "{j. Suc k \<le> j \<and> candidate base j \<in> set taken} \<noteq> {j. k \<le> j \<and> candidate base j \<in> set taken}"
    proof
      assume "{j. Suc k \<le> j \<and> candidate base j \<in> set taken} = {j. k \<le> j \<and> candidate base j \<in> set taken}"
      moreover have "k \<in> {j. k \<le> j \<and> candidate base j \<in> set taken}" using taken by simp
      ultimately have "k \<in> {j. Suc k \<le> j \<and> candidate base j \<in> set taken}" by (rule ssubst)
      then show False by simp
    qed
  qed auto
  ultimately show "((base, taken, Suc k), (base, taken, k)) \<in> measure (\<lambda>(base, taken, k). card {j. k \<le> j \<and> candidate base j \<in> set taken})"
    by (simp add: psubset_card_mono)
qed simp

declare next_free.simps [simp del]

definition data_link_name :: "string result \<Rightarrow> string" where
  "data_link_name configured =
     (case configured of Inl e \<Rightarrow> ''data'' | Inr n \<Rightarrow> if py_strip n \<noteq> '''' then py_strip n else ''data'')"

definition data_backup_prefix :: "string \<Rightarrow> string" where
  "data_backup_prefix name = (if py_strip name = '''' then ''data.bak'' else py_strip name @ ''.bak'')"

definition next_data_backup :: "int \<Rightarrow> string \<Rightarrow> string list \<Rightarrow> string" where
  "next_data_backup now name taken = next_free (data_backup_prefix name @ ''-'' @ int_str now) taken 0"

text \<open>The names under which something exists: not those of the dangling links.\<close>

fun exists_entry :: "entry \<Rightarrow> bool" where
  "exists_entry (LinkTo p e) = e"
| "exists_entry _ = True"

definition existing :: "entries \<Rightarrow> string list" where
  "existing es = map fst (filter (\<lambda>(n, e). exists_entry e) es)"

text \<open>A directory cannot be renamed to the name of a link.\<close>

definition set_aside :: "rights \<Rightarrow> string \<Rightarrow> string \<Rightarrow> entries \<Rightarrow> entries option" where
  "set_aside r name backup es =
     (if may_rename r \<and> map_of es backup = None then Some (AList.update backup PlainDir (AList.delete name es)) else None)"

definition ensure_data_symlink :: "rights \<Rightarrow> int \<Rightarrow> string \<Rightarrow> string list option \<Rightarrow> entries \<Rightarrow> entries result" where
  "ensure_data_symlink r now name data_dir es =
     (case data_dir of
        None \<Rightarrow> Inr es
      | Some tgt \<Rightarrow>
          if \<not> may_mkdir r then Inl OSError else
          (case map_of es name of
             Some PlainFile \<Rightarrow> Inr es
           | Some PlainDir \<Rightarrow>
               (case set_aside r name (next_data_backup now name (existing es)) es of
                  None \<Rightarrow> Inr es
                | Some es' \<Rightarrow> relink r name tgt es')
           | _ \<Rightarrow> relink r name tgt es))"

text \<open>\<open>initialize\<close>, without the logging.\<close>

definition initialize ::
  "rights \<Rightarrow> int \<Rightarrow> string \<Rightarrow> string list option \<Rightarrow> string list option \<Rightarrow> config_file \<Rightarrow> config_file \<Rightarrow> entries \<Rightarrow> config_file \<times> entries result" where
  "initialize r now name log_dir data_dir template file es =
     (ensure_cmts_system_config template file,
      case ensure_logs_symlink r log_dir es of Inl e \<Rightarrow> Inl e | Inr es' \<Rightarrow> ensure_data_symlink r now name data_dir es')"

section \<open>Facts\<close>

lemma merge_tracked_fst: "fst (merge_tracked t m) = merge_missing t m"
proof (induction t m rule: merge_tracked.induct)
  case (2 t k v m)
  show ?case
  proof (cases "map_of t k")
    case None
    then show ?thesis using "2.IH"(1) by simp
  next
    case (Some x)
    then show ?thesis using "2.IH" by (cases x; cases v) simp_all
  qed
qed simp

lemma next_free_spec: "next_free base taken k \<notin> set taken \<and> (\<exists>j \<ge> k. next_free base taken k = candidate base j \<and> (\<forall>i. k \<le> i \<and> i < j \<longrightarrow> candidate base i \<in> set taken))"
proof (induction base taken k rule: next_free.induct)
  case (1 base taken k)
  show ?case
  proof (cases "candidate base k \<in> set taken")
    case True
    then obtain j where "j \<ge> Suc k" "next_free base taken (Suc k) = candidate base j" "\<forall>i. Suc k \<le> i \<and> i < j \<longrightarrow> candidate base i \<in> set taken"
      "next_free base taken (Suc k) \<notin> set taken" using 1 by blast
    then show ?thesis using True by (subst (1 2) next_free.simps) (auto intro!: exI [of _ j] simp: le_Suc_eq Suc_le_eq nat_less_le)
  next
    case False
    then show ?thesis by (subst (1 2) next_free.simps) (auto intro!: exI [of _ k])
  qed
qed

lemma merge_tracked_snd:
  "json_wf (JDict m) \<Longrightarrow> snd (merge_tracked t m) = (merge_missing t m \<noteq> t)"
proof (induction t m rule: merge_tracked.induct)
  case (2 t k v m)
  have d: "distinct (map fst m)" "k \<notin> fst ` set m" "json_wf (JDict m)" "json_wf v" using 2 by auto
  show ?case
  proof (cases "map_of t k")
    case None
    have "map_of (merge_missing (AList.update k v t) m) k = Some v"
      using d(2) by (simp add: merge_absent update_conv')
    then have "merge_missing (AList.update k v t) m \<noteq> t" using None by auto
    then show ?thesis by (simp add: None)
  next
    case (Some x)
    show ?thesis
    proof (cases "\<exists>a b. x = JDict a \<and> v = JDict b")
      case True
      then obtain a b where ab: "x = JDict a" "v = JDict b" by blast
      let ?a = "merge_missing a b"
      have a: "snd (merge_tracked a b) = (?a \<noteq> a)" using "2.IH"(14) [OF Some ab] d(4) ab by simp
      have r: "snd (merge_tracked (AList.update k (JDict ?a) t) m) = (merge_missing (AList.update k (JDict ?a) t) m \<noteq> AList.update k (JDict ?a) t)"
        using "2.IH"(15) [OF Some ab d(3)] by (simp add: merge_tracked_fst)
      have "map_of (merge_missing (AList.update k (JDict ?a) t) m) k = Some (JDict ?a)"
        using d(2) by (simp add: merge_absent update_conv')
      then have "?a \<noteq> a \<Longrightarrow> merge_missing (AList.update k (JDict ?a) t) m \<noteq> t" using Some ab by auto
      moreover have "?a = a \<Longrightarrow> AList.update k (JDict ?a) t = t" using Some ab by (simp add: update_same)
      ultimately show ?thesis using a r by (auto simp: Some ab merge_tracked_fst)
    next
      case False
      then have "snd (merge_tracked t ((k, v) # m)) = snd (merge_tracked t m)" "merge_missing t ((k, v) # m) = merge_missing t m"
        using Some by (cases x; cases v; simp)+
      moreover have "snd (merge_tracked t m) = (merge_missing t m \<noteq> t)"
        using "2.IH" Some False d(3) by (cases x; cases v; simp)
      ultimately show ?thesis by simp
    qed
  qed
qed simp

lemma existing_all: "list_all (\<lambda>(n, e). exists_entry e) es \<Longrightarrow> existing es = map fst es"
  unfolding existing_def by (induction es) auto

section \<open>Properties\<close>

text \<open>The start writes the configuration exactly when the merge with the template changes it, the file then holds
  the merge, and a second start writes nothing.\<close>

theorem startup_writes_when_changed:
  assumes "json_wf (JDict m)"
  shows "ensure_cmts_system_config (Holds (JDict m)) (Holds (JDict d)) = Holds (JDict (merge_missing d m)) \<and>
    (snd (merge_tracked d m) \<longleftrightarrow> merge_missing d m \<noteq> d) \<and>
    \<not> snd (merge_tracked (merge_missing d m) m)"
  using merge_tracked_snd [OF assms] merge_again [OF assms]
  by (simp add: ensure_cmts_system_config_def merge_tracked_fst)

text \<open>The name for the backup of the data directory is not taken, and it is the first of its series that is not.\<close>

theorem backup_name_free:
  "next_data_backup now name taken \<notin> set taken \<and>
   (\<exists>j. next_data_backup now name taken = candidate (data_backup_prefix name @ ''-'' @ int_str now) j \<and>
      (\<forall>i < j. candidate (data_backup_prefix name @ ''-'' @ int_str now) i \<in> set taken))"
  using next_free_spec [of "data_backup_prefix name @ ''-'' @ int_str now" taken 0] by (auto simp: next_data_backup_def)

text \<open>Where the file system allows it, the data link leads to the data directory afterwards, a directory that stood
  in its place is kept under a new name, no other entry changes, and a second start changes nothing.\<close>

theorem data_link_established:
  assumes "may_mkdir r" and "may_rename r" and "may_unlink r" and "may_link r"
    and "map_of es name \<noteq> Some PlainFile" and "\<And>b. map_of es name \<noteq> Some (LinkTo None b)"
    and "list_all (\<lambda>(n, e). exists_entry e) es"
  shows "\<exists>es'. ensure_data_symlink r now name (Some tgt) es = Inr es' \<and>
    (\<exists>b. map_of es' name = Some (LinkTo (Some tgt) b)) \<and>
    (map_of es name = Some PlainDir \<longrightarrow> map_of es' (next_data_backup now name (existing es)) = Some PlainDir) \<and>
    (\<forall>n e. n \<noteq> name \<longrightarrow> map_of es n = Some e \<longrightarrow> map_of es' n = Some e) \<and>
    ensure_data_symlink r later name (Some tgt) es' = Inr es'"
proof -
  let ?b = "next_data_backup now name (existing es)"
  have ex: "existing es = map fst es" by (rule existing_all) (rule assms(7))
  have b: "?b \<notin> fst ` set es" unfolding ex
    using next_free_spec [of "data_backup_prefix name @ ''-'' @ int_str now" "map fst es" 0] by (simp add: next_data_backup_def)
  show ?thesis
  proof (cases "map_of es name")
    case None
    then show ?thesis using assms(1,4) by (auto simp: ensure_data_symlink_def relink_def make_link_def update_conv')
  next
    case (Some e)
    then have name: "name \<in> fst ` set es" by (rule map_of_SomeD [THEN imageI [where f = fst], simplified])
    show ?thesis
    proof (cases e)
      case PlainDir
      have other: "map_of es ?b = None" using b by (simp add: map_of_eq_None_iff)
      have "?b \<noteq> name" using b name by auto
      then show ?thesis
        using assms(1,2,4) Some PlainDir other
        by (auto simp: ensure_data_symlink_def set_aside_def relink_def make_link_def update_conv' delete_conv')
    next
      case (LinkTo p b)
      then show ?thesis
        using assms(1,3,4,6) Some by (cases p) (auto simp: ensure_data_symlink_def relink_def make_link_def update_conv' delete_conv')
    qed (use assms(5) Some in simp)
  qed
qed

section \<open>Witnesses\<close>

lemma startup_writes_when_changed_witness:
  "ensure_cmts_system_config (Holds (JDict [(''a'', JInt 1)])) (Holds (JDict [(''b'', JInt 2)])) =
     Holds (JDict [(''b'', JInt 2), (''a'', JInt 1)])"
  using startup_writes_when_changed [of "[(''a'', JInt 1)]" "[(''b'', JInt 2)]"] by simp

lemma data_link_established_witness:
  "\<exists>es'. ensure_data_symlink \<lparr>may_mkdir = True, may_rename = True, may_unlink = True, may_link = True\<rparr> 7 ''data'' (Some [''pnm''])
       [(''data'', PlainDir), (''x'', PlainFile)] = Inr es' \<and>
     (\<exists>b. map_of es' ''data'' = Some (LinkTo (Some [''pnm'']) b)) \<and> map_of es' ''x'' = Some PlainFile"
  using data_link_established [of "\<lparr>may_mkdir = True, may_rename = True, may_unlink = True, may_link = True\<rparr>"
      "[(''data'', PlainDir), (''x'', PlainFile)]" "''data''" 7 "[''pnm'']" 8] by auto

end
