(* ===== verification/Spec2Isabelle.thy ===== *)
theory Spec2Isabelle
  imports Prelude TtlRegistry LeaderElection LockProtocol GroupLease CoordinationManager Settings ShardPlanner Launcher SgwStore SgwManager WorkerGuard SgwRuntime OperationStore Scope OperationRunner CaptureWorker ResultsView CmtsSnmp ChannelTables Inventory HeavyPoller RefreshCycle Requests CacheService ModemOperations Operational PnmFiles CaptureExecutor GroupWorker PnmTables SysDescr Release CaptureStages ServiceResults ConfigTree SystemConfig ConfigMenu ConfigCommands Health CliArgs Cli ReloadProtocol Startup
begin

text \<open>
  \<^bold>\<open>PyPNM-CMTS in Isabelle/HOL.\<close>

  PyPNM-CMTS runs proactive network maintenance against a cable modem termination system (CMTS).  This
  development models the Python package \<open>src/src/pypnm_cmts\<close> and the release and restart tools in
  \<open>src/tools\<close>, and proves what makes the parts correct.  Paths below are relative to the package unless they begin with
  \<open>src/\<close>.  Definitions keep the names of the functions they translate; a name that HOL already uses or that two
  classes share gets a prefix or a suffix.

  \<^bold>\<open>How the program works.\<close>  A process is started by the command line (\<open>cli.py\<close>) with the settings in
  \<open>system.json\<close>.  It finds the service groups of the CMTS over SNMP.  Several processes share the groups through
  files: one of them is the leader, and each holds leases on some groups; a manager renews, releases and acquires
  them tick by tick.  Inside a process a cache holds a snapshot per group, which a refresh thread fills with a light or
  a heavy poll; guards on the memory of the process restart the refresh or the whole service.  The HTTP
  endpoints answer from the cache, or start an operation: a background run that captures a measurement from every selected
  modem with a bounded number of workers, stores each stage of each modem on disk, and shows the stored
  records later as structured results.

  \<^bold>\<open>How the code is represented.\<close>
  \<^item> A class or a pydantic model is a \<open>record\<close>, an enumeration a \<open>datatype\<close>, a Python \<open>int\<close> an \<open>int\<close>, a \<open>str\<close> a
    \<open>string\<close>, a \<open>float\<close> a \<open>real\<close> (so rounding and NaN are outside the model), a dictionary a map, or a list of
    pairs where its order shows.
  \<^item> An exception is a value of \<open>py_exn\<close> in the left summand; every raise, return and handler is a branch.
    An operation that changes state before it raises returns the exception together with the state it has reached.
  \<^item> State is passed explicitly.  Files are values in a record or a map.  What pydantic writes it reads back, so a file
    holds the model itself, except where bytes or texts matter (capture files, JSON configuration).
  \<^item> Whatever the source does not define is an argument: the clock, each answer of the operating system
    (refused calls included), the SNMP client, the HTTP client, the parsers, analyses and
    capture calls of the pypnm package, SHA-256, the verdict of pydantic, external scripts and what the user types.
    Where a theorem relies on documented behaviour of such an argument, this is a hypothesis of it, and a witness
    instantiates it with concrete functions.
  \<^item> Logging, printing and the documentation strings of the endpoints are left out.

  \<^bold>\<open>The prelude.\<close>  \<open>Prelude\<close> has the exceptions, the string methods (\<open>strip\<close>, \<open>split\<close>, \<open>lower\<close>, decimal
  forms, integers read from texts), JSON values, and the facts on lists and sums that the components share.

  \<^bold>\<open>Coordination between processes.\<close>
  \<^item> \<open>TtlRegistry\<close> is the interface: a claim in a file with a time to live, with acquire, renew and release.  From its
    laws the locale \<open>ttl_registry\<close> proves that unexpired beliefs exclude each other, in every state that calls of any
    number of contenders, faults and the clock can reach.
  \<^item> \<open>LeaderElection\<close> (\<open>coordination/leader_election.py\<close>) and \<open>GroupLease\<close> (\<open>coordination/service_group_lease.py\<close>)
    implement it, and interpret the locale.  The first also refines an abstract claim (owner, expiry).  The lease
    reports a record that it could not replace as written; the laws hold while replacing works, and
    \<open>GroupLease\<close> shows what happens otherwise.
  \<^item> \<open>LockProtocol\<close> takes the lock directory of both apart: each call of the file system and of the clock is a
    step, and the steps of all contenders interleave.  It proves that the lock excludes while holders are quick and
    no contender pauses between reading the time of the directory and the clock; both conditions are needed, and
    the theorems beside it show the runs that let two contenders in.
  \<^item> \<open>CoordinationManager\<close> (\<open>coordination/manager.py\<close>): one tick with its phases and failures.  What is held agrees
    with the records on disk, the result accounts for the held set exactly, and the target bounds it.
  \<^item> \<open>Settings\<close> (\<open>config/orchestrator_config.py\<close>), \<open>ShardPlanner\<close> (\<open>orchestrator/sg_shard_planner.py\<close>) and \<open>Launcher\<close>
    (\<open>orchestrator/launcher.py\<close>, \<open>runtime.py\<close>, \<open>work_runner.py\<close>, \<open>config/owner_id_resolver.py\<close>): bounds of the accepted
    settings, the plan, and the tick loop with its inventory and identities.

  \<^bold>\<open>The cache of a process.\<close>
  \<^item> \<open>SgwStore\<close> (\<open>sgw/models.py\<close>, \<open>sgw/store.py\<close>), \<open>SgwManager\<close> (\<open>sgw/manager.py\<close>) and \<open>RefreshCycle\<close>: which groups a cycle
    polls, what it stores, the age and staleness of an entry, and refresh requests.  The
    locale \<open>payload_law\<close> carries a property of payloads through every cycle; it is interpreted with the consistency of the
    channel tables and the pollers of the program.
  \<^item> \<open>WorkerGuard\<close> (\<open>support/worker_guard.py\<close>, \<open>support/web_service_memory_guard.py\<close>): the restart governor and the loop of the
    memory guard, with the locale \<open>restart_governor\<close> for the limits it keeps.
  \<^item> \<open>SgwRuntime\<close> (\<open>sgw/runtime_state.py\<close>, \<open>sgw/startup.py\<close>): the state after startup, on each of its paths, and the supervisor of
    the refresh thread.
  \<^item> \<open>GroupWorker\<close> (\<open>sgw/worker.py\<close>, \<open>sgw/worker_models.py\<close>): the two refresh lanes, with ticks cut at their awaits.
  \<^item> \<open>CmtsSnmp\<close>, \<open>SysDescr\<close>, \<open>PnmTables\<close> (\<open>docsis/cmts_operation.py\<close>), \<open>ChannelTables\<close> (\<open>docsis/data_type\<close>), \<open>Inventory\<close>
    (\<open>cmts/inventory_discovery.py\<close>, \<open>sgw/discovery.py\<close>) and \<open>HeavyPoller\<close> (\<open>sgw/pollers\<close>): what the CMTS says, from the
    object identifiers to the payload of the cache; the writable tables, read back after a set; the
    regular expressions of the system description, matched with backtracking.

  \<^bold>\<open>The endpoints.\<close>
  \<^item> \<open>Requests\<close> (\<open>api/common\<close>), \<open>CacheService\<close> and \<open>ModemOperations\<close> (\<open>api/routes/serving_group\<close>), \<open>Operational\<close>
    (\<open>api/routes/operational/service.py\<close>, \<open>orchestrator/pidfile_manager.py\<close>, \<open>sgw/precheck.py\<close>) and \<open>Health\<close> (\<open>api/health.py\<close>):
    validation, paging, cached answers and their waits, the reset with its verification, readiness, pidfiles, telemetry.
  \<^item> \<open>OperationStore\<close> and \<open>OperationRunner\<close> (\<open>api/common/operations\<close>): a stored operation and its run.  Terminal states are
    final; the loop keeps its worker limit, retries and counts; a completed operation has recorded
    every modem once; the deadline ends the loop, also when a worker hangs.
  \<^item> \<open>Scope\<close>, \<open>CaptureWorker\<close>, \<open>CaptureStages\<close> and \<open>CaptureExecutor\<close> (\<open>api/common/service/pnm\<close> and the services in
    \<open>api/routes/pnm/sg\<close>): which modems are meant, the stages of one modem, the ten capture services over the locale
    \<open>capture_stage\<close>, and the tasks of a batch as an interleaving of steps.
  \<^item> \<open>ResultsView\<close> and \<open>ServiceResults\<close>: the structured results, from the records on disk.  \<open>PnmFiles\<close> (\<open>pnm/parser\<close>): the capture
    files, byte by byte.

  \<^bold>\<open>Configuration, command line and operation.\<close>
  \<^item> \<open>ConfigTree\<close>, \<open>SystemConfig\<close>, \<open>ConfigMenu\<close> and \<open>ConfigCommands\<close> (\<open>tools/config_menu.py\<close>, \<open>tools/config_commands.py\<close>,
    \<open>config/system_config_settings.py\<close>): the file as a tree with the locale \<open>config_store\<close>, its typed view, the menu over a
    scripted console, and the commands.
  \<^item> \<open>CliArgs\<close> and \<open>Cli\<close> (\<open>cli.py\<close>): the options and the commands up to the call of the server or the launcher.
  \<^item> \<open>Startup\<close> (\<open>startup/startup.py\<close>) and \<open>ReloadProtocol\<close> (\<open>support/serve_launch_state.py\<close>, \<open>web_service_reload.py\<close>,
    \<open>reload_watcher.py\<close> and two tools in \<open>src/tools/support\<close>): the preparation of the project directory and the restart of a
    running service.
  \<^item> \<open>Release\<close> (\<open>src/tools/release_tool.py\<close>, \<open>src/tools/publish_tool.py\<close>): the steps of a release and their order.

  \<^bold>\<open>Loops.\<close>  Most loops run over data and are structural recursion, or \<open>function\<close> with a measure (the menus read from
  a console that grows shorter; the search for a free name passes each taken name once).  Two loops of the
  program may run for ever when no number of rounds is given, and take fuel: \<open>runtime_loop\<close>, for which
  \<open>max 1 n\<close> rounds are enough for \<open>n\<close> ticks, and \<open>refresh_loop\<close>, for which more than \<open>n\<close> rounds are enough for \<open>n\<close> cycles;
  \<open>runtime_runs_max_ticks\<close> and \<open>RefreshCycle\<close> prove that they then return.  The scheduling loop of an
  operation reads one tick of inputs per pass and is \<open>None\<close> when the ticks run out first; \<open>loop_ends_by_deadline\<close> proves that it
  ends once a tick reaches the deadline.  The capture tasks are runs of events; \<open>capture_batch_terminates\<close> bounds their
  length and shows that the time limit alone can end each of them.

  \<^bold>\<open>Not modelled.\<close>  FastAPI (routing, response models, serialisation) and the field declarations in the schemas; the application
  object and its lifespan, and the thread of the combined mode; how pydantic converts values; the asyncio loop and thread pools
  beyond what their calls promise; logging and metrics back ends; the debug endpoint, which only holds memory; the examples, which call
  one operation and print it; the URI wrapper and the UTSC records, which no other part uses; the older release script and the
  other developer scripts; the pypnm package.
\<close>

end
